(* ===== verification/Prelude.thy ===== *)
theory Prelude
  imports Main "HOL-Library.Char_ord" "HOL-Library.List_Lexorder" "HOL-Library.Word"
begin

text \<open>
  What the components share: the ways an operation of the library can end early, the
  C string view of a \<^verbatim>\<open>std::string\<close>, machine integers, and \<^verbatim>\<open>std::map\<close> as a key-ordered
  association list, with the interface the components rely on.
\<close>

named_theorems msg_defs \<open>definitions of the message setters and readers\<close>
named_theorems lex_defs \<open>character-level definitions of the reporter's lexer\<close>
named_theorems inst_defs \<open>definitions of the reporter's instructions\<close>

section \<open>Failures\<close>

text \<open>
  The exception classes of \<^verbatim>\<open>exception.h\<close> and of the standard library that the modelled code
  throws, and one value for a step whose behaviour C++ leaves undefined (a read through a
  past-the-end iterator, \<^verbatim>\<open>back()\<close> of an empty vector, a division by zero); \<open>Bad_cast\<close> is the
  special case of an object used through a cast to a class it is not of. The text of an
  exception is not modelled. \<open>No_fuel\<close> is no failure of the code: it says that a function with a
  bound on its steps used them up, and each use comes with a lemma that says which bound is
  enough.
\<close>

datatype failure =
    Parameter_error
  | Implementation_error
  | Out_of_range
  | Invalid_callback
  | Invalid_message
  | Invalid_parameter
  | Recursive_call
  | Runtime_error
  | Overflow_error
  | Logic_error
  | Fixme
  | Initialization_error
  | Invalid_signal
  | Initialization_missing
  | Count_mismatch
  | Failed_connecting
  | Name_undefined
  | No_connection_found
  | Unexpected_data
  | In_use
  | Not_started
  | Incorrect_pipe_type
  | Directory_not_found
  | Initialization_failed
  | Undefined_behaviour
  | Bad_cast
  | No_fuel

type_synonym 'a result = "failure + 'a"

definition res_bind :: "'a result \<Rightarrow> ('a \<Rightarrow> 'b result) \<Rightarrow> 'b result" where
  "res_bind r f = (case r of Inl e \<Rightarrow> Inl e | Inr x \<Rightarrow> f x)"

lemma res_bind_simps [simp]:
  "res_bind (Inl e) f = Inl e"
  "res_bind (Inr x) f = f x"
  by (simp_all add: res_bind_def)

lemma res_bind_eq_Inr:
  "res_bind r f = Inr y \<longleftrightarrow> (\<exists>x. r = Inr x \<and> f x = Inr y)"
  by (cases r) auto

lemma res_bind_eq_Inl:
  "res_bind r f = Inl e \<longleftrightarrow> r = Inl e \<or> (\<exists>x. r = Inr x \<and> f x = Inl e)"
  by (cases r) auto

lemma res_bind_cong [fundef_cong]:
  "r = r' \<Longrightarrow> (\<And>x. r' = Inr x \<Longrightarrow> f x = f' x) \<Longrightarrow> res_bind r f = res_bind r' f'"
  by (cases r') auto

text \<open>A loop that computes a value for each item and stops at the first failure.\<close>

fun res_map :: "('a \<Rightarrow> 'b result) \<Rightarrow> 'a list \<Rightarrow> 'b list result" where
  "res_map f [] = Inr []"
| "res_map f (x # xs) = res_bind (f x) (\<lambda>y. res_bind (res_map f xs) (\<lambda>ys. Inr (y # ys)))"

lemma res_map_cong [fundef_cong]:
  "xs = ys \<Longrightarrow> (\<And>x. x \<in> set ys \<Longrightarrow> f x = g x) \<Longrightarrow> res_map f xs = res_map g ys"
  by (induction ys arbitrary: xs) auto

lemma res_map_eq_Inr:
  "res_map f xs = Inr ys \<longleftrightarrow> list_all2 (\<lambda>x y. f x = Inr y) xs ys"
  by (induction xs arbitrary: ys) (auto simp: res_bind_eq_Inr list_all2_Cons1)

section \<open>Actions: an exception keeps the state it was thrown in\<close>

type_synonym ('w, 'a) act = "'w \<Rightarrow> 'a result \<times> 'w"

definition act_return :: "'a \<Rightarrow> ('w, 'a) act" where
  "act_return a w = (Inr a, w)"

definition act_throw :: "failure \<Rightarrow> ('w, 'a) act" where
  "act_throw e w = (Inl e, w)"

definition act_bind :: "('w, 'a) act \<Rightarrow> ('a \<Rightarrow> ('w, 'b) act) \<Rightarrow> ('w, 'b) act" where
  "act_bind m f w = (case m w of (Inl e, w') \<Rightarrow> (Inl e, w') | (Inr a, w') \<Rightarrow> f a w')"

definition act_when :: "bool \<Rightarrow> ('w, unit) act \<Rightarrow> ('w, unit) act" where
  "act_when b m = (if b then m else act_return ())"

definition act_lift :: "'a result \<Rightarrow> ('w, 'a) act" where
  "act_lift r w = (r, w)"

fun act_each :: "('x \<Rightarrow> ('w, unit) act) \<Rightarrow> 'x list \<Rightarrow> ('w, unit) act" where
  "act_each f [] = act_return ()"
| "act_each f (x # xs) = act_bind (f x) (\<lambda>_. act_each f xs)"

lemma act_bind_return [simp]: "act_bind (act_return a) f = f a"
  by (simp add: act_bind_def act_return_def fun_eq_iff)

lemma act_bind_throw [simp]: "act_bind (act_throw e) f = act_throw e"
  by (simp add: act_bind_def act_throw_def fun_eq_iff)

lemma act_bind_assoc: "act_bind (act_bind m f) g = act_bind m (\<lambda>a. act_bind (f a) g)"
  by (auto simp: act_bind_def fun_eq_iff split: prod.split sum.split)

lemma act_bind_return_right [simp]: "act_bind m act_return = m"
  by (auto simp: act_bind_def act_return_def fun_eq_iff split: prod.split sum.split)

lemma act_bind_Inr: "act_bind m f w = (Inr b, w') \<Longrightarrow> \<exists>a w1. m w = (Inr a, w1) \<and> f a w1 = (Inr b, w')"
  by (auto simp: act_bind_def split: prod.splits sum.splits)

lemma act_each_append: "act_each f (xs @ ys) = act_bind (act_each f xs) (\<lambda>_. act_each f ys)"
  by (induction xs) (simp_all add: act_bind_assoc)

text \<open>An action keeps an invariant when it holds of the state left by every run, also by one
  that throws.\<close>

definition keeps :: "('w \<Rightarrow> bool) \<Rightarrow> ('w, 'a) act \<Rightarrow> bool" where
  "keeps I m \<longleftrightarrow> (\<forall>w. I w \<longrightarrow> I (snd (m w)))"

lemma keepsI: "(\<And>w. I w \<Longrightarrow> I (snd (m w))) \<Longrightarrow> keeps I m"
  by (simp add: keeps_def)

lemma keepsD: "keeps I m \<Longrightarrow> I w \<Longrightarrow> I (snd (m w))"
  by (simp add: keeps_def)

lemma keeps_return [simp]: "keeps I (act_return a)"
  by (simp add: keeps_def act_return_def)

lemma keeps_throw [simp]: "keeps I (act_throw e)"
  by (simp add: keeps_def act_throw_def)

lemma keeps_lift [simp]: "keeps I (act_lift r)"
  by (simp add: keeps_def act_lift_def)

lemma snd_act_bind:
  "snd (act_bind m f w) = (case fst (m w) of Inl e \<Rightarrow> snd (m w) | Inr a \<Rightarrow> snd (f a (snd (m w))))"
  by (simp add: act_bind_def split: prod.split sum.split)

lemma keeps_bind: "keeps I m \<Longrightarrow> (\<And>a. keeps I (f a)) \<Longrightarrow> keeps I (act_bind m f)"
  by (auto simp: keeps_def snd_act_bind split: sum.split)

lemma keeps_when: "keeps I m \<Longrightarrow> keeps I (act_when b m)"
  by (simp add: act_when_def)

lemma keeps_each: "(\<And>x. x \<in> set xs \<Longrightarrow> keeps I (f x)) \<Longrightarrow> keeps I (act_each f xs)"
  by (induction xs) (simp_all add: keeps_bind)

lemmas keeps_intros = keeps_bind keeps_when keeps_each keeps_return keeps_throw keeps_lift

section \<open>Strings\<close>

text \<open>
  \<^verbatim>\<open>s.c_str()\<close> read up to its first NUL: in the walks over a C string the end of the list
  stands for the character \<^verbatim>\<open>'\0'\<close>.
\<close>

definition c_str :: "string \<Rightarrow> string" where
  "c_str s = takeWhile (\<lambda>c. c \<noteq> CHR 0x00) s"

lemma c_str_id: "CHR 0x00 \<notin> set s \<Longrightarrow> c_str s = s"
  by (simp add: c_str_def takeWhile_eq_all_conv) metis

definition is_upper :: "char \<Rightarrow> bool" where
  "is_upper c \<longleftrightarrow> CHR ''A'' \<le> c \<and> c \<le> CHR ''Z''"

definition is_lower :: "char \<Rightarrow> bool" where
  "is_lower c \<longleftrightarrow> CHR ''a'' \<le> c \<and> c \<le> CHR ''z''"

definition is_digit :: "char \<Rightarrow> bool" where
  "is_digit c \<longleftrightarrow> CHR ''0'' \<le> c \<and> c \<le> CHR ''9''"

lemma takeWhile_append_stop:
  "(\<And>x. x \<in> set xs \<Longrightarrow> P x) \<Longrightarrow> \<not> P y \<Longrightarrow> takeWhile P (xs @ y # ys) = xs"
  by (induction xs) auto

lemma dropWhile_append_stop:
  "(\<And>x. x \<in> set xs \<Longrightarrow> P x) \<Longrightarrow> \<not> P y \<Longrightarrow> dropWhile P (xs @ y # ys) = y # ys"
  by (induction xs) auto

lemma dropWhile_hd_id: "(xs \<noteq> [] \<Longrightarrow> \<not> P (hd xs)) \<Longrightarrow> dropWhile P xs = xs"
  by (cases xs) auto

section \<open>Machine integers\<close>

text \<open>Conversions between the signed integers of the code, as two's complement words.\<close>

type_synonym i64 = "64 word"
type_synonym i128 = "128 word"

definition i128_of_i64 :: "i64 \<Rightarrow> i128" where
  "i128_of_i64 x = scast x"

definition i64_of_i128 :: "i128 \<Rightarrow> i64" where
  "i64_of_i128 x = scast x"

definition int_of_i64 :: "i64 \<Rightarrow> 32 word" where
  "int_of_i64 x = scast x"

lemma i64_i128_roundtrip: "i64_of_i128 (i128_of_i64 x) = x"
  by (simp add: i64_of_i128_def i128_of_i64_def scast_up_scast_id is_up)

section \<open>Ordered maps\<close>

text \<open>
  \<^verbatim>\<open>std::map<K, V>\<close> as the list of its nodes in key order: \<^verbatim>\<open>m[k] = v\<close> is \<open>omap_put\<close>,
  \<^verbatim>\<open>find\<close> is \<open>map_of\<close>, \<^verbatim>\<open>erase\<close> is \<open>omap_erase\<close>, and an iteration visits the list from
  left to right. Strings are ordered byte by byte, as \<^verbatim>\<open>std::string::compare\<close> does.
\<close>

fun omap_put :: "'k::linorder \<Rightarrow> 'v \<Rightarrow> ('k \<times> 'v) list \<Rightarrow> ('k \<times> 'v) list" where
  "omap_put k v [] = [(k, v)]"
| "omap_put k v ((k', v') # xs) =
     (if k < k' then (k, v) # (k', v') # xs
      else if k = k' then (k, v) # xs
      else (k', v') # omap_put k v xs)"

definition omap_erase :: "'k \<Rightarrow> ('k \<times> 'v) list \<Rightarrow> ('k \<times> 'v) list" where
  "omap_erase k xs = filter (\<lambda>(k', v). k' \<noteq> k) xs"

definition omap_ok :: "('k::linorder \<times> 'v) list \<Rightarrow> bool" where
  "omap_ok xs \<longleftrightarrow> sorted_wrt (<) (map fst xs)"

lemma set_fst_omap_put: "fst ` set (omap_put k v xs) = insert k (fst ` set xs)"
  by (induction k v xs rule: omap_put.induct) auto

lemma omap_ok_Nil [simp]: "omap_ok []"
  by (simp add: omap_ok_def)

lemma omap_ok_Cons [simp]:
  "omap_ok ((k, v) # xs) \<longleftrightarrow> (\<forall>k' \<in> fst ` set xs. k < k') \<and> omap_ok xs"
  by (simp add: omap_ok_def)

lemma omap_ok_put: "omap_ok xs \<Longrightarrow> omap_ok (omap_put k v xs)"
  by (induction k v xs rule: omap_put.induct) (auto simp: set_fst_omap_put)

lemma map_of_omap_put: "map_of (omap_put k v xs) = (map_of xs)(k \<mapsto> v)"
  by (induction k v xs rule: omap_put.induct) auto

lemma map_of_omap_erase: "map_of (omap_erase k xs) = (map_of xs)(k := None)"
  by (induction xs) (auto simp: omap_erase_def)

lemma omap_ok_erase: "omap_ok xs \<Longrightarrow> omap_ok (omap_erase k xs)"
  by (induction xs) (auto simp: omap_erase_def)

lemma omap_put_last:
  "(\<And>k'. k' \<in> fst ` set xs \<Longrightarrow> k' < k) \<Longrightarrow> omap_put k v xs = xs @ [(k, v)]"
proof (induction k v xs rule: omap_put.induct)
  case (2 k v k' v' xs)
  from "2.prems" [of k'] have "k' < k" by simp
  moreover have "omap_put k v xs = xs @ [(k, v)]" if "\<not> k < k'" "k \<noteq> k'"
    using that "2.prems" by (intro "2.IH") auto
  ultimately show ?case by auto
qed simp

text \<open>
  Two ordered maps with the same lookups are the same list, so an iteration over a
  \<^verbatim>\<open>std::map\<close> is determined by its contents.
\<close>

lemma omap_hd_le:
  assumes "omap_ok ((k, v) # xs)" and "map_of ((k, v) # xs) a = Some b"
  shows "k \<le> a"
proof (cases "a = k")
  case False
  with assms(2) have "a \<in> fst ` set xs"
    by (auto dest!: map_of_SomeD intro: rev_image_eqI)
  with assms(1) show ?thesis by (auto simp: less_imp_le)
qed simp

lemma omap_map_of_tl:
  assumes "omap_ok ((k, v) # xs)"
  shows "map_of xs = (map_of ((k, v) # xs))(k := None)"
proof -
  from assms have "k \<notin> fst ` set xs" by auto
  then have "map_of xs k = None" by (simp add: map_of_eq_None_iff)
  then show ?thesis by auto
qed

lemma omap_ext:
  "omap_ok xs \<Longrightarrow> omap_ok ys \<Longrightarrow> map_of xs = map_of ys \<Longrightarrow> xs = ys"
proof (induction xs arbitrary: ys)
  case Nil
  then show ?case by (cases ys) (auto simp: fun_eq_iff split: if_splits)
next
  case (Cons x xs)
  obtain k v where x: "x = (k, v)" by (cases x)
  from Cons.prems(3) x have "map_of ys k = Some v" by (metis map_of_Cons_code(2))
  then obtain k' v' ys' where ys: "ys = (k', v') # ys'" by (cases ys) auto
  from Cons.prems ys x \<open>map_of ys k = Some v\<close> have "k' \<le> k"
    using omap_hd_le by metis
  moreover from Cons.prems ys x have "map_of ((k, v) # xs) k' = Some v'"
    by (metis map_of_Cons_code(2))
  then have "k \<le> k'" using Cons.prems x omap_hd_le by metis
  ultimately have "k = k'" by simp
  with \<open>map_of ys k = Some v\<close> ys have "v = v'" by simp
  have "map_of xs = map_of ys'"
    using omap_map_of_tl Cons.prems x ys \<open>k = k'\<close> by metis
  moreover from Cons.prems x ys have "omap_ok xs" "omap_ok ys'" by auto
  ultimately have "xs = ys'" by (intro Cons.IH)
  with x ys \<open>k = k'\<close> \<open>v = v'\<close> show ?case by simp
qed

text \<open>
  The interface of a keyed store, and what its clients derive from it: the last value put
  under a key is the one found, and other keys are untouched.
\<close>

locale keyed_store =
  fixes put :: "'k \<Rightarrow> 'v \<Rightarrow> 'm \<Rightarrow> 'm"
    and del :: "'k \<Rightarrow> 'm \<Rightarrow> 'm"
    and find :: "'m \<Rightarrow> 'k \<Rightarrow> 'v option"
    and wf :: "'m \<Rightarrow> bool"
  assumes find_put: "find (put k v m) = (find m)(k \<mapsto> v)"
    and find_del: "find (del k m) = (find m)(k := None)"
    and wf_put: "wf m \<Longrightarrow> wf (put k v m)"
    and wf_del: "wf m \<Longrightarrow> wf (del k m)"
begin

lemma find_put_same: "find (put k v m) k = Some v"
  by (simp add: find_put)

lemma find_put_other: "k' \<noteq> k \<Longrightarrow> find (put k v m) k' = find m k'"
  by (simp add: find_put)

lemma find_del_same: "find (del k m) k = None"
  by (simp add: find_del)

lemma wf_fold_put: "wf m \<Longrightarrow> wf (fold (\<lambda>(k, v). put k v) kvs m)"
  by (induction kvs arbitrary: m) (auto intro: wf_put)

lemma find_fold_put: "find (fold (\<lambda>(k, v). put k v) kvs m) = find m ++ map_of (rev kvs)"
  by (induction kvs arbitrary: m) (auto simp: find_put map_add_def fun_eq_iff split: option.splits)

end

interpretation omap: keyed_store omap_put omap_erase map_of omap_ok
  by unfold_locales (simp_all add: map_of_omap_put map_of_omap_erase omap_ok_put omap_ok_erase)

end
