(* ===== verification/Message.thy ===== *)
theory Message
  imports Prelude
begin

text \<open>
  The message object of \<^verbatim>\<open>eventdispatcher/message.cpp\<close>: its fields and caches, the name
  rules, the setters and the parameters. Rendering and parsing are in \<open>Message_Text\<close> and
  \<open>Message_Json\<close>.
\<close>

section \<open>The message object\<close>

text \<open>
  One field per member of class \<^verbatim>\<open>message\<close> but the opaque \<^verbatim>\<open>f_user_data\<close> pointer, which no
  operation of the class reads. \<^verbatim>\<open>f_parameters\<close> is a \<^verbatim>\<open>std::map\<close>.
\<close>

record message =
  f_sent_from_server :: string
  f_sent_from_service :: string
  f_server :: string
  f_service :: string
  f_command :: string
  f_parameters :: "(string \<times> string) list"
  f_cached_message :: string
  f_cached_json :: string
  f_processed :: bool

definition new_message :: message where
  "new_message = \<lparr>f_sent_from_server = [], f_sent_from_service = [], f_server = [],
     f_service = [], f_command = [], f_parameters = [], f_cached_message = [],
     f_cached_json = [], f_processed = False\<rparr>"

text \<open>The loop of \<^verbatim>\<open>verify_message_name()\<close>: the characters a name may use.\<close>

definition bad_name_char :: "bool \<Rightarrow> char \<Rightarrow> bool" where
  "bad_name_char can_be_lowercase c \<longleftrightarrow>
     (\<not> is_lower c \<or> \<not> can_be_lowercase) \<and> \<not> is_upper c \<and> \<not> is_digit c \<and> c \<noteq> CHR ''_''"

definition verify_message_name :: "string \<Rightarrow> bool \<Rightarrow> bool \<Rightarrow> unit result" where
  "verify_message_name name can_be_empty can_be_lowercase =
     (if \<not> can_be_empty \<and> name = [] then Inl Invalid_message
      else if list_ex (bad_name_char can_be_lowercase) name then Inl Invalid_message
      else if name \<noteq> [] \<and> is_digit (hd name) then Inl Invalid_message
      else Inr ())"

section \<open>Setters and getters\<close>

definition set_sent_from_server :: "message \<Rightarrow> string \<Rightarrow> message result" where
  "set_sent_from_server m server =
     (if f_sent_from_server m \<noteq> server then
        res_bind (verify_message_name server True True)
          (\<lambda>_. Inr (m\<lparr>f_sent_from_server := server, f_cached_message := []\<rparr>))
      else Inr m)"

definition set_sent_from_service :: "message \<Rightarrow> string \<Rightarrow> message result" where
  "set_sent_from_service m service =
     (if f_sent_from_service m \<noteq> service then
        res_bind (verify_message_name service True True)
          (\<lambda>_. Inr (m\<lparr>f_sent_from_service := service, f_cached_message := []\<rparr>))
      else Inr m)"

definition set_server :: "message \<Rightarrow> string \<Rightarrow> message result" where
  "set_server m server =
     (if f_server m \<noteq> server then
        res_bind
          (if server \<noteq> ''.'' \<and> server \<noteq> ''*'' \<and> server \<noteq> ''?''
           then verify_message_name server True True else Inr ())
          (\<lambda>_. Inr (m\<lparr>f_server := server, f_cached_message := []\<rparr>))
      else Inr m)"

definition set_service :: "message \<Rightarrow> string \<Rightarrow> message result" where
  "set_service m service =
     (if f_service m \<noteq> service then
        res_bind
          (if service \<noteq> ''*'' \<and> service \<noteq> ''?'' \<and> service \<noteq> ''.''
           then verify_message_name service True True else Inr ())
          (\<lambda>_. Inr (m\<lparr>f_service := service, f_cached_message := []\<rparr>))
      else Inr m)"

definition reply_to :: "message \<Rightarrow> message \<Rightarrow> message result" where
  "reply_to m original =
     res_bind (set_server m (f_sent_from_server original))
       (\<lambda>m'. set_service m' (f_sent_from_service original))"

definition set_command :: "message \<Rightarrow> string \<Rightarrow> message result" where
  "set_command m command =
     res_bind (verify_message_name command False False)
       (\<lambda>_. if f_command m \<noteq> command
            then Inr (m\<lparr>f_command := command, f_cached_message := []\<rparr>) else Inr m)"

definition mark_processed :: "message \<Rightarrow> message" where
  "mark_processed m = m\<lparr>f_processed := True\<rparr>"

section \<open>Parameters\<close>

definition add_parameter :: "message \<Rightarrow> string \<Rightarrow> string \<Rightarrow> message result" where
  "add_parameter m name v =
     res_bind (verify_message_name name False True)
       (\<lambda>_. Inr (m\<lparr>f_parameters := omap_put name v (f_parameters m), f_cached_message := []\<rparr>))"

text \<open>\<^verbatim>\<open>std::to_string()\<close> of an integer: the decimal digits, with a sign when negative.\<close>

fun nat_to_string :: "nat \<Rightarrow> string" where
  "nat_to_string n =
     (if n < 10 then [char_of (48 + n)] else nat_to_string (n div 10) @ [char_of (48 + n mod 10)])"

declare nat_to_string.simps [simp del]

definition std_to_string :: "int \<Rightarrow> string" where
  "std_to_string i = (if i < 0 then CHR ''-'' # nat_to_string (nat (- i)) else nat_to_string (nat i))"

definition add_integer_parameter :: "message \<Rightarrow> string \<Rightarrow> i64 \<Rightarrow> message result" where
  "add_integer_parameter m name v = add_parameter m name (std_to_string (sint v))"

definition has_parameter :: "message \<Rightarrow> string \<Rightarrow> bool result" where
  "has_parameter m name =
     res_bind (verify_message_name name False True)
       (\<lambda>_. Inr (map_of (f_parameters m) name \<noteq> None))"

definition get_parameter :: "message \<Rightarrow> string \<Rightarrow> string result" where
  "get_parameter m name =
     res_bind (verify_message_name name False True)
       (\<lambda>_. case map_of (f_parameters m) name of Some v \<Rightarrow> Inr v | None \<Rightarrow> Inl Invalid_message)"

text \<open>
  \<^verbatim>\<open>advgetopt::validator_integer::convert_string\<close> is the parameter \<open>to_integer\<close>: \<open>None\<close> when
  it refuses the string.
\<close>

definition get_integer_parameter ::
    "(string \<Rightarrow> i64 option) \<Rightarrow> message \<Rightarrow> string \<Rightarrow> i64 result" where
  "get_integer_parameter to_integer m name =
     res_bind (verify_message_name name False True)
       (\<lambda>_. case map_of (f_parameters m) name of
              Some v \<Rightarrow> (case to_integer v of None \<Rightarrow> Inl Invalid_message | Some r \<Rightarrow> Inr r)
            | None \<Rightarrow> Inl Invalid_message)"

text \<open>
  \<^verbatim>\<open>get_timespec_parameter()\<close>: the constructor of \<^verbatim>\<open>snapdev::timespec_ex\<close> from a string is
  the parameter \<open>to_timespec\<close>, which may throw.
\<close>

definition get_timespec_parameter ::
    "(string \<Rightarrow> 't result) \<Rightarrow> message \<Rightarrow> string \<Rightarrow> 't result" where
  "get_timespec_parameter to_timespec m name =
     res_bind (verify_message_name name False True)
       (\<lambda>_. case map_of (f_parameters m) name of
              Some v \<Rightarrow> to_timespec v
            | None \<Rightarrow> Inl Invalid_message)"

definition MESSAGE_VERSION :: i64 where
  "MESSAGE_VERSION = 1"

definition MESSAGE_VERSION_NAME :: string where
  "MESSAGE_VERSION_NAME = ''version''"

definition check_version_parameter :: "(string \<Rightarrow> i64 option) \<Rightarrow> message \<Rightarrow> bool result" where
  "check_version_parameter to_integer m =
     res_bind (get_integer_parameter to_integer m MESSAGE_VERSION_NAME)
       (\<lambda>v. Inr (v = MESSAGE_VERSION))"

definition add_version_parameter :: "message \<Rightarrow> message result" where
  "add_version_parameter m = add_integer_parameter m MESSAGE_VERSION_NAME MESSAGE_VERSION"

lemmas message_op_defs [msg_defs] =
  set_sent_from_server_def set_sent_from_service_def set_server_def set_service_def
  reply_to_def set_command_def mark_processed_def add_parameter_def add_integer_parameter_def
  add_version_parameter_def

section \<open>Well-formed messages\<close>

text \<open>
  The words the setters accept: a destination is a name or one of the three wildcards, a
  command has no lowercase letter, and the parameters are keyed by names in order.
\<close>

definition name_ok :: "string \<Rightarrow> bool" where
  "name_ok s \<longleftrightarrow> (\<forall>c \<in> set s. is_lower c \<or> is_upper c \<or> is_digit c \<or> c = CHR ''_'')
     \<and> (s \<noteq> [] \<longrightarrow> \<not> is_digit (hd s))"

definition dest_ok :: "string \<Rightarrow> bool" where
  "dest_ok s \<longleftrightarrow> name_ok s \<or> s \<in> {''.'', ''*'', ''?''}"

definition command_ok :: "string \<Rightarrow> bool" where
  "command_ok s \<longleftrightarrow> name_ok s \<and> (\<forall>c \<in> set s. \<not> is_lower c)"

definition wf_message :: "message \<Rightarrow> bool" where
  "wf_message m \<longleftrightarrow>
     name_ok (f_sent_from_server m) \<and> name_ok (f_sent_from_service m) \<and>
     dest_ok (f_server m) \<and> dest_ok (f_service m) \<and> command_ok (f_command m) \<and>
     omap_ok (f_parameters m) \<and>
     (\<forall>n \<in> fst ` set (f_parameters m). n \<noteq> [] \<and> name_ok n)"

lemma char_classes_disjoint:
  "is_lower c \<Longrightarrow> \<not> is_upper c" "is_lower c \<Longrightarrow> \<not> is_digit c" "is_upper c \<Longrightarrow> \<not> is_digit c"
  "\<not> is_lower CHR ''_''"
  by (auto simp: is_lower_def is_upper_def is_digit_def less_eq_char_def)

lemma verify_message_name_Inr:
  "verify_message_name s e l = Inr u \<longleftrightarrow>
     (s = [] \<longrightarrow> e) \<and> name_ok s \<and> (\<not> l \<longrightarrow> (\<forall>c \<in> set s. \<not> is_lower c))"
proof -
  have "\<not> list_ex (bad_name_char l) s \<longleftrightarrow>
      (\<forall>c \<in> set s. is_lower c \<or> is_upper c \<or> is_digit c \<or> c = CHR ''_'') \<and>
      (\<not> l \<longrightarrow> (\<forall>c \<in> set s. \<not> is_lower c))"
    by (auto simp: list_ex_iff bad_name_char_def char_classes_disjoint)
  then show ?thesis
    by (auto simp: verify_message_name_def name_ok_def)
qed

lemma verify_message_name_fails:
  "verify_message_name s e l = Inl x \<Longrightarrow> x = Invalid_message"
  by (auto simp: verify_message_name_def split: if_splits)

lemma name_ok_Nil [simp]: "name_ok []"
  by (simp add: name_ok_def)

lemma dest_ok_name: "name_ok s \<Longrightarrow> dest_ok s"
  by (simp add: dest_ok_def)

lemma wf_new_message: "wf_message new_message"
  by (simp add: wf_message_def new_message_def dest_ok_def command_ok_def)

lemmas setter_elims = res_bind_eq_Inr verify_message_name_Inr

lemma wf_set_sent_from_server:
  "wf_message m \<Longrightarrow> set_sent_from_server m s = Inr m' \<Longrightarrow> wf_message m'"
  by (auto simp: set_sent_from_server_def wf_message_def setter_elims split: if_splits)

lemma wf_set_sent_from_service:
  "wf_message m \<Longrightarrow> set_sent_from_service m s = Inr m' \<Longrightarrow> wf_message m'"
  by (auto simp: set_sent_from_service_def wf_message_def setter_elims split: if_splits)

lemma dest_verified:
  assumes "(if s \<noteq> ''.'' \<and> s \<noteq> ''*'' \<and> s \<noteq> ''?'' then verify_message_name s True True else Inr ()) = Inr u"
  shows "dest_ok s"
proof (cases "s \<in> {''.'', ''*'', ''?''}")
  case False
  then have "verify_message_name s True True = Inr u" using assms by simp
  then show ?thesis by (simp add: verify_message_name_Inr dest_ok_name)
qed (simp add: dest_ok_def)

lemma wildcard_order:
  "s \<noteq> ''*'' \<and> s \<noteq> ''?'' \<and> s \<noteq> ''.'' \<longleftrightarrow> s \<noteq> ''.'' \<and> s \<noteq> ''*'' \<and> s \<noteq> ''?''"
  by (rule iffI; elim conjE; intro conjI; assumption)

lemma set_server_cases:
  assumes "set_server m s = Inr m'"
  shows "m' = m \<or> dest_ok s \<and> m' = m\<lparr>f_server := s, f_cached_message := []\<rparr>"
proof (cases "f_server m = s")
  case False
  then show ?thesis
    using assms unfolding set_server_def if_P [OF False] res_bind_eq_Inr by (blast dest: dest_verified)
qed (use assms in \<open>simp add: set_server_def\<close>)

lemma set_service_cases:
  assumes "set_service m s = Inr m'"
  shows "m' = m \<or> dest_ok s \<and> m' = m\<lparr>f_service := s, f_cached_message := []\<rparr>"
proof (cases "f_service m = s")
  case False
  then show ?thesis
    using assms unfolding set_service_def if_P [OF False] wildcard_order res_bind_eq_Inr by (blast dest: dest_verified)
qed (use assms in \<open>simp add: set_service_def\<close>)

lemma wf_set_server: "wf_message m \<Longrightarrow> set_server m s = Inr m' \<Longrightarrow> wf_message m'"
  by (drule set_server_cases) (auto simp: wf_message_def)

lemma wf_set_service: "wf_message m \<Longrightarrow> set_service m s = Inr m' \<Longrightarrow> wf_message m'"
  by (drule set_service_cases) (auto simp: wf_message_def)

lemma wf_reply_to: "wf_message m \<Longrightarrow> reply_to m q = Inr m' \<Longrightarrow> wf_message m'"
  by (auto simp: reply_to_def res_bind_eq_Inr intro: wf_set_server wf_set_service)

lemma wf_set_command: "wf_message m \<Longrightarrow> set_command m s = Inr m' \<Longrightarrow> wf_message m'"
  by (auto simp: set_command_def wf_message_def command_ok_def setter_elims split: if_splits)

lemma wf_add_parameter:
  assumes wf: "wf_message m" and ok: "add_parameter m n v = Inr m'"
  shows "wf_message m'"
proof -
  have "\<forall>k \<in> fst ` set (omap_put n v (f_parameters m)). k \<noteq> [] \<and> name_ok k"
    using wf ok by (simp add: set_fst_omap_put wf_message_def add_parameter_def setter_elims)
  moreover from ok have "m' = m\<lparr>f_parameters := omap_put n v (f_parameters m), f_cached_message := []\<rparr>"
    by (auto simp: add_parameter_def res_bind_eq_Inr)
  ultimately show ?thesis
    using wf by (simp add: wf_message_def omap_ok_put)
qed

end
