(* ===== verification/Message_Text.thy ===== *)
theory Message_Text
  imports Message
begin

text \<open>
  The text form of a message: \<^verbatim>\<open>message::to_string()\<close>, \<^verbatim>\<open>message::from_string()\<close> and the
  round trip between them. \<^verbatim>\<open>snapdev::trim_string\<close> and \<^verbatim>\<open>snapdev::string_replace_many\<close> are not
  part of this repository: they are arguments of the definitions, and the locale
  \<open>snapdev_text\<close> states what their documentation promises.
\<close>

type_synonym replacements = "(string \<times> string) list"
type_synonym replace_many = "string \<Rightarrow> replacements \<Rightarrow> string"

section \<open>Rendering\<close>

text \<open>The tables of \<^verbatim>\<open>to_string()\<close> and \<^verbatim>\<open>from_string()\<close>: \<open>0x5C\<close> is the backslash,
  \<open>0x22\<close> the double quote.\<close>

definition text_escapes :: "bool \<Rightarrow> replacements" where
  "text_escapes quote =
     [([CHR 0x5C], [CHR 0x5C, CHR 0x5C]), ([CHR 0x0A], [CHR 0x5C, CHR ''n'']),
      ([CHR 0x0D], [CHR 0x5C, CHR ''r''])] @
     (if quote then [([CHR 0x22], [CHR 0x5C, CHR 0x22])] else [])"

definition text_unescapes :: replacements where
  "text_unescapes =
     [([CHR 0x5C, CHR 0x5C], [CHR 0x5C]), ([CHR 0x5C, CHR ''n''], [CHR 0x0A]),
      ([CHR 0x5C, CHR ''r''], [CHR 0x0D])]"

definition needs_quotes :: "string \<Rightarrow> bool" where
  "needs_quotes v \<longleftrightarrow> CHR '';'' \<in> set v \<or> (v \<noteq> [] \<and> hd v = CHR 0x22)"

definition render_value :: "replace_many \<Rightarrow> string \<Rightarrow> string" where
  "render_value rep v =
     (if needs_quotes v then [CHR 0x22] @ rep v (text_escapes True) @ [CHR 0x22]
      else rep v (text_escapes False))"

fun render_parameters :: "replace_many \<Rightarrow> char \<Rightarrow> (string \<times> string) list \<Rightarrow> string" where
  "render_parameters rep sep [] = []"
| "render_parameters rep sep ((n, v) # ps) =
     sep # n @ CHR ''='' # render_value rep v @ render_parameters rep CHR '';'' ps"

definition render_sent_from :: "message \<Rightarrow> string" where
  "render_sent_from m =
     (if f_sent_from_server m \<noteq> [] \<or> f_sent_from_service m \<noteq> [] then
        CHR ''<'' # f_sent_from_server m @ CHR '':'' # f_sent_from_service m @ '' ''
      else [])"

definition render_destination :: "message \<Rightarrow> string" where
  "render_destination m =
     (if f_service m \<noteq> [] then
        (if f_server m \<noteq> [] then f_server m @ '':'' else []) @ f_service m @ ''/''
      else [])"

definition render_message :: "replace_many \<Rightarrow> message \<Rightarrow> string" where
  "render_message rep m =
     render_sent_from m @ render_destination m @ f_command m
       @ render_parameters rep CHR '' '' (f_parameters m)"

text \<open>\<^verbatim>\<open>to_string()\<close> fills the mutable cache, so it returns the message too.\<close>

definition to_string :: "replace_many \<Rightarrow> message \<Rightarrow> string result \<times> message" where
  "to_string rep m =
     (if f_cached_message m = [] then
        (if f_command m = [] then (Inl Invalid_message, m)
         else let s = render_message rep m in (Inr s, m\<lparr>f_cached_message := s\<rparr>))
      else (Inr (f_cached_message m), m))"

section \<open>Parsing\<close>

text \<open>
  The walk of \<^verbatim>\<open>from_string()\<close> over the C string \<open>m\<close>, one definition per loop. \<open>None\<close> is
  \<^verbatim>\<open>return false\<close>; the rest of the text is returned.
\<close>

fun parse_sent_server :: "string \<Rightarrow> string \<Rightarrow> (string \<times> string) option" where
  "parse_sent_server acc [] = Some (acc, [])"
| "parse_sent_server acc (c # cs) =
     (if c = CHR '':'' then Some (acc, c # cs)
      else if c = CHR '' '' then None
      else parse_sent_server (acc @ [c]) cs)"

definition parse_sent_from :: "string \<Rightarrow> (string \<times> string \<times> string) option" where
  "parse_sent_from m =
     (case m of
        [] \<Rightarrow> Some ([], [], m)
      | c # m1 \<Rightarrow>
          if c \<noteq> CHR ''<'' then Some ([], [], m)
          else (case parse_sent_server [] m1 of
              None \<Rightarrow> None
            | Some (server, []) \<Rightarrow> None
            | Some (server, _ # m2) \<Rightarrow>
                (case dropWhile (\<lambda>d. d \<noteq> CHR '' '') m2 of
                   [] \<Rightarrow> None
                 | _ # m3 \<Rightarrow> Some (server, takeWhile (\<lambda>d. d \<noteq> CHR '' '') m2, m3))))"

fun parse_destination ::
    "bool \<Rightarrow> bool \<Rightarrow> string \<Rightarrow> string \<Rightarrow> string \<Rightarrow> string
       \<Rightarrow> (string \<times> string \<times> string \<times> string) option" where
  "parse_destination has_server has_service server service command [] =
     Some (server, service, command, [])"
| "parse_destination has_server has_service server service command (c # cs) =
     (if c = CHR '' '' then Some (server, service, command, c # cs)
      else if c = CHR '':'' then
        (if has_server \<or> has_service \<or> command = [] then None
         else parse_destination True has_service command service [] cs)
      else if c = CHR ''/'' then
        (if has_service \<or> command = [] then None
         else parse_destination has_server True server command [] cs)
      else parse_destination has_server has_service server service (command @ [c]) cs)"

fun parse_quoted :: "string \<Rightarrow> string \<Rightarrow> (string \<times> string) option" where
  "parse_quoted acc [] = None"
| "parse_quoted acc [c] = (if c = CHR 0x22 then Some (acc, []) else None)"
| "parse_quoted acc (c # d # cs) =
     (if c = CHR 0x22 then Some (acc, d # cs)
      else if c = CHR 0x5C \<and> d = CHR 0x22 then parse_quoted (acc @ [d]) cs
      else parse_quoted (acc @ [c]) (d # cs))"

definition parse_value :: "string \<Rightarrow> (string \<times> string) option" where
  "parse_value m =
     (case m of
        [] \<Rightarrow> Some ([], [])
      | c # cs \<Rightarrow>
          if c = CHR 0x22 then parse_quoted [] cs
          else Some (takeWhile (\<lambda>d. d \<noteq> CHR '';'') m, dropWhile (\<lambda>d. d \<noteq> CHR '';'') m))"

definition parse_parameter :: "string \<Rightarrow> (string \<times> string \<times> string) option" where
  "parse_parameter m =
     (let name = takeWhile (\<lambda>c. c \<noteq> CHR ''='') m; m1 = dropWhile (\<lambda>c. c \<noteq> CHR ''='') m in
      if name = [] then None
      else (case verify_message_name name False True of
          Inl _ \<Rightarrow> None
        | Inr _ \<Rightarrow>
            (case m1 of
               [] \<Rightarrow> None
             | _ # m2 \<Rightarrow>
                 (case parse_value m2 of
                    None \<Rightarrow> None
                  | Some (v, []) \<Rightarrow> Some (name, v, [])
                  | Some (v, c # m3) \<Rightarrow> if c \<noteq> CHR '';'' then None else Some (name, v, m3)))))"

lemma parse_quoted_shorter: "parse_quoted acc m = Some (v, m') \<Longrightarrow> length m' < length m"
  by (induction acc m rule: parse_quoted.induct) (fastforce split: if_splits)+

lemma parse_value_shorter: "parse_value m = Some (v, m') \<Longrightarrow> length m' \<le> length m"
  by (auto simp: parse_value_def length_dropWhile_le le_SucI dest!: parse_quoted_shorter
      split: list.splits if_splits)

lemma parse_parameter_shorter:
  assumes "parse_parameter m = Some (n, v, m')"
  shows "length m' < length m"
proof -
  from assms obtain c m2 where m1: "dropWhile (\<lambda>c. c \<noteq> CHR ''='') m = c # m2"
    and "length m' \<le> length m2"
    by (fastforce simp: parse_parameter_def Let_def dest: parse_value_shorter
        split: list.splits sum.splits option.splits if_splits)
  moreover have "length (c # m2) \<le> length m"
    using length_dropWhile_le [of "\<lambda>c. c \<noteq> CHR ''=''" m] by (simp add: m1)
  ultimately show ?thesis by simp
qed

function parse_parameters ::
    "replace_many \<Rightarrow> (string \<times> string) list \<Rightarrow> string \<Rightarrow> (string \<times> string) list option" where
  "parse_parameters rep ps m =
     (if m = [] then Some ps
      else (case parse_parameter m of
          None \<Rightarrow> None
        | Some (n, v, m') \<Rightarrow>
            parse_parameters rep (omap_put n (rep v text_unescapes) ps) m'))"
  by pat_completeness auto
termination
  by (relation "measure (\<lambda>(rep, ps, m). length m)") (auto dest: parse_parameter_shorter)

declare parse_parameters.simps [simp del]

text \<open>
  \<^verbatim>\<open>from_string()\<close>: all fields or none are replaced; the text cache is cleared and the JSON
  cache is left as it was.
\<close>

definition parse_message ::
    "replace_many \<Rightarrow> string
       \<Rightarrow> (string \<times> string \<times> string \<times> string \<times> string \<times> (string \<times> string) list) option" where
  "parse_message rep msg =
     (case parse_sent_from (c_str msg) of
        None \<Rightarrow> None
      | Some (sent_server, sent_service, m1) \<Rightarrow>
          (case parse_destination False False [] [] [] m1 of
             None \<Rightarrow> None
           | Some (server, service, command, m2) \<Rightarrow>
               if command = [] then None
               else (case parse_parameters rep [] (tl m2) of
                   None \<Rightarrow> None
                 | Some ps \<Rightarrow> Some (sent_server, sent_service, server, service, command, ps))))"

definition from_string ::
    "(string \<Rightarrow> string) \<Rightarrow> replace_many \<Rightarrow> message \<Rightarrow> string \<Rightarrow> bool \<times> message" where
  "from_string trim rep m original =
     (case parse_message rep (trim original) of
        None \<Rightarrow> (False, m)
      | Some (sent_server, sent_service, server, service, command, ps) \<Rightarrow>
          (True, m\<lparr>f_sent_from_server := sent_server, f_sent_from_service := sent_service,
             f_server := server, f_service := service, f_command := command,
             f_parameters := ps, f_cached_message := []\<rparr>))"

section \<open>The string library\<close>

text \<open>
  What the documentation of snapdev promises. \<^verbatim>\<open>trim_string(s)\<close> removes the white space at
  both ends. \<^verbatim>\<open>string_replace_many(s, table)\<close> scans \<open>s\<close> from left to right: at each position
  the first entry of the table found there is replaced and the scan goes on after it, and
  where no entry is found the character is copied.
\<close>

definition is_blank :: "char \<Rightarrow> bool" where
  "is_blank c \<longleftrightarrow> c \<in> {CHR '' '', CHR 0x09, CHR 0x0A, CHR 0x0B, CHR 0x0C, CHR 0x0D}"

definition found_at :: "string \<Rightarrow> string \<times> string \<Rightarrow> bool" where
  "found_at t sr \<longleftrightarrow> fst sr \<noteq> [] \<and> take (length (fst sr)) t = fst sr"

locale snapdev_text =
  fixes trim :: "string \<Rightarrow> string"
    and rep :: replace_many
  assumes trim_spec: "trim s = rev (dropWhile is_blank (rev (dropWhile is_blank s)))"
    and rep_Nil: "rep [] tbl = []"
    and rep_found: "find (found_at t) tbl = Some (a, b) \<Longrightarrow> rep t tbl = b @ rep (drop (length a) t) tbl"
    and rep_copy: "find (found_at (c # t)) tbl = None \<Longrightarrow> rep (c # t) tbl = c # rep t tbl"
begin

lemma trim_id:
  assumes "s \<noteq> []" and "\<not> is_blank (hd s)" and "\<not> is_blank (last s)"
  shows "trim s = s"
proof -
  have "dropWhile is_blank s = s" using assms by (intro dropWhile_hd_id) simp
  moreover have "dropWhile is_blank (rev s) = rev s"
    using assms by (intro dropWhile_hd_id) (simp add: hd_rev)
  ultimately show ?thesis by (simp add: trim_spec)
qed

text \<open>What the escape table does to one character, and the table as a character map.\<close>

lemma rep_escapes_Cons:
  "rep (c # t) (text_escapes q) =
     (if c = CHR 0x5C then [CHR 0x5C, CHR 0x5C]
      else if c = CHR 0x0A then [CHR 0x5C, CHR ''n'']
      else if c = CHR 0x0D then [CHR 0x5C, CHR ''r'']
      else if q \<and> c = CHR 0x22 then [CHR 0x5C, CHR 0x22]
      else [c]) @ rep t (text_escapes q)"
  by (auto simp: text_escapes_def found_at_def rep_found rep_copy)

lemma rep_unescapes_simps:
  "rep (CHR 0x5C # CHR 0x5C # t) text_unescapes = CHR 0x5C # rep t text_unescapes"
  "rep (CHR 0x5C # CHR ''n'' # t) text_unescapes = CHR 0x0A # rep t text_unescapes"
  "rep (CHR 0x5C # CHR ''r'' # t) text_unescapes = CHR 0x0D # rep t text_unescapes"
  "c \<noteq> CHR 0x5C \<Longrightarrow> rep (c # t) text_unescapes = c # rep t text_unescapes"
  by (auto simp: text_unescapes_def found_at_def rep_found rep_copy)

lemma unescape_escape: "rep (rep v (text_escapes False)) text_unescapes = v"
  by (induction v) (auto simp: rep_Nil rep_escapes_Cons rep_unescapes_simps)

lemma hd_rep_quoted: "v \<noteq> [] \<Longrightarrow> hd (rep v (text_escapes True)) \<noteq> CHR 0x22"
  by (cases v) (auto simp: rep_escapes_Cons)

lemma rep_escapes_not_Nil: "rep v (text_escapes q) = [] \<longleftrightarrow> v = []"
  by (cases v) (auto simp: rep_escapes_Cons rep_Nil)

lemma set_rep_escapes:
  "set (rep v (text_escapes q)) \<subseteq> set v \<union> {CHR 0x5C, CHR ''n'', CHR ''r'', CHR 0x22}"
  by (induction v) (auto simp: rep_escapes_Cons rep_Nil)

lemma hd_rep_escapes_False:
  "v \<noteq> [] \<Longrightarrow> hd v \<noteq> CHR 0x22 \<Longrightarrow> hd (rep v (text_escapes False)) \<noteq> CHR 0x22"
  by (cases v) (auto simp: rep_escapes_Cons)

lemma last_rep_escapes_False:
  "v \<noteq> [] \<Longrightarrow> last (rep v (text_escapes False)) =
     (if last v = CHR 0x0A then CHR ''n'' else if last v = CHR 0x0D then CHR ''r'' else last v)"
  by (induction v rule: list_nonempty_induct) (auto simp: rep_escapes_Cons rep_Nil rep_escapes_not_Nil)

end

section \<open>Round trip\<close>

text \<open>
  What a value needs to survive the text form: no NUL, since the text is read as a C string;
  no final backslash when it is quoted, since the parser takes the escaped backslash and the
  closing quote for an escaped quote; and, for the last parameter, no final white space when
  it is not quoted, since the text is trimmed (new lines and carriage returns are escaped).
\<close>

definition value_ok :: "string \<Rightarrow> bool" where
  "value_ok v \<longleftrightarrow> CHR 0x00 \<notin> set v \<and> (needs_quotes v \<longrightarrow> last v \<noteq> CHR 0x5C)"

definition tail_ok :: "string \<Rightarrow> bool" where
  "tail_ok v \<longleftrightarrow> needs_quotes v \<or> v = [] \<or> last v \<notin> {CHR '' '', CHR 0x09, CHR 0x0B, CHR 0x0C}"

definition text_safe :: "message \<Rightarrow> bool" where
  "text_safe m \<longleftrightarrow>
     (\<forall>v \<in> snd ` set (f_parameters m). value_ok v) \<and>
     (f_parameters m \<noteq> [] \<longrightarrow> tail_ok (snd (last (f_parameters m)))) \<and>
     (f_service m = [] \<longrightarrow> f_server m = [])"

definition same_fields :: "message \<Rightarrow> message \<Rightarrow> bool" where
  "same_fields m m' \<longleftrightarrow>
     f_sent_from_server m = f_sent_from_server m' \<and> f_sent_from_service m = f_sent_from_service m' \<and>
     f_server m = f_server m' \<and> f_service m = f_service m' \<and> f_command m = f_command m' \<and>
     f_parameters m = f_parameters m'"

lemma parse_quoted_end: "parse_quoted acc (CHR 0x22 # t) = Some (acc, t)"
  by (cases t) auto

lemma parse_quoted_char:
  "c \<noteq> CHR 0x22 \<Longrightarrow> c \<noteq> CHR 0x5C \<Longrightarrow> cs \<noteq> [] \<Longrightarrow>
     parse_quoted acc (c # cs) = parse_quoted (acc @ [c]) cs"
  by (cases cs) auto

lemma parse_quoted_backslash:
  "cs \<noteq> [] \<Longrightarrow> hd cs \<noteq> CHR 0x22 \<Longrightarrow>
     parse_quoted acc (CHR 0x5C # cs) = parse_quoted (acc @ [CHR 0x5C]) cs"
  by (cases cs) auto

lemma sep_cases:
  assumes "t = [] \<or> hd t = CHR '';''"
  obtains "t = []" | t' where "t = CHR '';'' # t'"
  using assms by (cases t) auto

lemma name_chars:
  assumes "name_ok n" and "c \<in> set n"
  shows "c \<notin> {CHR '' '', CHR '':'', CHR ''/'', CHR ''<'', CHR ''='', CHR 0x00}" and "\<not> is_blank c"
  using assms
  by (auto simp: name_ok_def is_blank_def is_lower_def is_upper_def is_digit_def less_eq_char_def)

lemma dest_chars:
  assumes "dest_ok n" and "c \<in> set n"
  shows "c \<notin> {CHR '' '', CHR '':'', CHR ''/'', CHR ''<'', CHR 0x00}" and "\<not> is_blank c"
proof -
  have "name_ok n \<or> c \<in> {CHR ''.'', CHR ''*'', CHR ''?''}"
    using assms by (auto simp: dest_ok_def simp del: insert_iff)
  then show "c \<notin> {CHR '' '', CHR '':'', CHR ''/'', CHR ''<'', CHR 0x00}" and "\<not> is_blank c"
    using assms(2) name_chars [of n c] by (auto simp: is_blank_def)
qed

context snapdev_text
begin

lemma parse_quoted_rep:
  assumes "v = [] \<or> last v \<noteq> CHR 0x5C"
  shows "parse_quoted acc (rep v (text_escapes True) @ CHR 0x22 # t)
       = Some (acc @ rep v (text_escapes False), t)"
  using assms
proof (induction v arbitrary: acc)
  case Nil
  show ?case by (simp add: rep_Nil parse_quoted_end)
next
  case (Cons c v)
  have tl_ok: "v = [] \<or> last v \<noteq> CHR 0x5C" using Cons.prems by (cases v) auto
  note IH = Cons.IH [OF tl_ok]
  show ?case
  proof (cases "c = CHR 0x5C")
    case True
    with Cons.prems have "v \<noteq> []" by auto
    with True show ?thesis
      by (simp add: rep_escapes_Cons parse_quoted_backslash rep_escapes_not_Nil hd_rep_quoted
          hd_append IH)
  next
    case False
    then show ?thesis
      by (auto simp: rep_escapes_Cons parse_quoted_char parse_quoted_end IH)
  qed
qed

lemma parse_value_render:
  assumes v: "value_ok v" and t: "t = [] \<or> hd t = CHR '';''"
  shows "parse_value (render_value rep v @ t) = Some (rep v (text_escapes False), t)"
proof (cases "needs_quotes v")
  case True
  then have "last v \<noteq> CHR 0x5C" using v by (simp add: value_ok_def)
  with True show ?thesis
    by (simp add: render_value_def parse_value_def parse_quoted_rep)
next
  case False
  let ?e = "rep v (text_escapes False)"
  have no_sep: "\<And>d. d \<in> set ?e \<Longrightarrow> d \<noteq> CHR '';''"
    using set_rep_escapes [of v False] False by (auto simp: needs_quotes_def)
  have hd_e: "?e \<noteq> [] \<Longrightarrow> hd ?e \<noteq> CHR 0x22"
    using False hd_rep_escapes_False [of v] by (auto simp: needs_quotes_def rep_escapes_not_Nil)
  have split: "takeWhile (\<lambda>d. d \<noteq> CHR '';'') (?e @ t) = ?e"
      "dropWhile (\<lambda>d. d \<noteq> CHR '';'') (?e @ t) = t"
    using t no_sep by (auto elim!: sep_cases simp: takeWhile_append_stop dropWhile_append_stop
        takeWhile_eq_all_conv dropWhile_eq_Nil_conv)
  have "parse_value (?e @ t) = Some (?e, t)"
  proof (cases "?e @ t")
    case Nil
    then show ?thesis by (simp add: parse_value_def)
  next
    case (Cons c cs)
    then have "c \<noteq> CHR 0x22" using hd_e t by (cases "?e") auto
    with Cons split show ?thesis by (simp add: parse_value_def)
  qed
  with False show ?thesis by (simp add: render_value_def)
qed

lemma parse_parameter_render:
  assumes n: "n \<noteq> []" "name_ok n" and v: "value_ok v" and t: "t = [] \<or> hd t = CHR '';''"
  shows "parse_parameter (n @ CHR ''='' # render_value rep v @ t)
       = Some (n, rep v (text_escapes False), tl t)"
proof -
  have "\<And>c. c \<in> set n \<Longrightarrow> c \<noteq> CHR ''=''" using n name_chars by fastforce
  moreover have "verify_message_name n False True = Inr ()"
    using n by (simp add: verify_message_name_Inr)
  ultimately show ?thesis
    using t n parse_value_render [OF v t]
    by (auto elim!: sep_cases simp: parse_parameter_def takeWhile_append_stop dropWhile_append_stop)
qed

lemma render_parameters_sep:
  "render_parameters r CHR '';'' ps = [] \<or> hd (render_parameters r CHR '';'' ps) = CHR '';''"
  by (cases ps) auto

lemma parse_parameters_render:
  assumes "omap_ok (ps @ qs)" and "\<forall>n \<in> fst ` set qs. n \<noteq> [] \<and> name_ok n"
    and "\<forall>v \<in> snd ` set qs. value_ok v"
  shows "parse_parameters rep ps (tl (render_parameters rep sep qs)) = Some (ps @ qs)"
  using assms
proof (induction qs arbitrary: ps sep)
  case Nil
  show ?case by (simp add: parse_parameters.simps)
next
  case (Cons q qs)
  obtain n v where q: "q = (n, v)" by (cases q)
  from Cons.prems(1) q have "\<And>k. k \<in> fst ` set ps \<Longrightarrow> k < n"
    by (auto simp: omap_ok_def sorted_wrt_append)
  then have put: "omap_put n v ps = ps @ [(n, v)]" by (rule omap_put_last)
  have "parse_parameter (n @ CHR ''='' # render_value rep v @ render_parameters rep CHR '';'' qs)
      = Some (n, rep v (text_escapes False), tl (render_parameters rep CHR '';'' qs))"
    using Cons.prems q render_parameters_sep by (intro parse_parameter_render) auto
  moreover have "parse_parameters rep (ps @ [(n, v)]) (tl (render_parameters rep CHR '';'' qs))
      = Some ((ps @ [(n, v)]) @ qs)"
    using Cons.prems q by (intro Cons.IH) auto
  ultimately show ?case
    by (simp add: q parse_parameters.simps [of _ _ "n @ _"] unescape_escape put)
qed

lemma render_value_last:
  "tail_ok v \<Longrightarrow> render_value rep v \<noteq> [] \<Longrightarrow> \<not> is_blank (last (render_value rep v))"
  by (auto simp: tail_ok_def render_value_def is_blank_def last_rep_escapes_False
      rep_escapes_not_Nil rep_Nil split: if_splits)

lemma render_parameters_last:
  assumes "ps \<noteq> []" and "tail_ok (snd (last ps))"
  shows "render_parameters rep sep ps \<noteq> []" and "\<not> is_blank (last (render_parameters rep sep ps))"
  using assms
proof (induction ps arbitrary: sep rule: list_nonempty_induct)
  case (single p)
  obtain n v where p: "p = (n, v)" by (cases p)
  {
    case 1
    show ?case by (simp add: p)
  next
    case 2
    then show ?case
      using render_value_last [of v] by (cases "render_value rep v = []") (auto simp: p is_blank_def)
  }
next
  case (cons p ps)
  obtain n v where p: "p = (n, v)" by (cases p)
  {
    case 1
    show ?case by (simp add: p)
  next
    case 2
    with cons show ?case by (simp add: p)
  }
qed

lemma render_value_NUL: "value_ok v \<Longrightarrow> CHR 0x00 \<notin> set (render_value rep v)"
  using set_rep_escapes [of v] by (auto simp: value_ok_def render_value_def)

lemma render_parameters_NUL:
  "\<forall>n \<in> fst ` set ps. name_ok n \<Longrightarrow> \<forall>v \<in> snd ` set ps. value_ok v \<Longrightarrow> sep \<noteq> CHR 0x00 \<Longrightarrow>
     CHR 0x00 \<notin> set (render_parameters rep sep ps)"
proof (induction ps arbitrary: sep)
  case (Cons p ps)
  then show ?case
    using render_value_NUL [of "snd p"] name_chars(1) [of "fst p" "CHR 0x00"]
    by (cases p) auto
qed simp

end

lemma parse_sent_server_word:
  "\<forall>c \<in> set w. c \<noteq> CHR '':'' \<and> c \<noteq> CHR '' '' \<Longrightarrow>
     parse_sent_server acc (w @ CHR '':'' # t) = Some (acc @ w, CHR '':'' # t)"
  by (induction w arbitrary: acc) auto

lemma parse_sent_from_render:
  assumes "name_ok (f_sent_from_server m)" and "name_ok (f_sent_from_service m)"
    and "t \<noteq> []" and "hd t \<noteq> CHR ''<''"
  shows "parse_sent_from (render_sent_from m @ t)
       = Some (f_sent_from_server m, f_sent_from_service m, t)"
proof -
  have srv: "\<forall>c \<in> set (f_sent_from_server m). c \<noteq> CHR '':'' \<and> c \<noteq> CHR '' ''"
    using assms(1) name_chars by blast
  have svc: "\<And>c. c \<in> set (f_sent_from_service m) \<Longrightarrow> c \<noteq> CHR '' ''"
    using assms(2) name_chars by blast
  show ?thesis
    using assms(3,4) parse_sent_server_word [OF srv]
    by (cases t) (auto simp: parse_sent_from_def render_sent_from_def svc
        takeWhile_append_stop dropWhile_append_stop)
qed

lemma parse_destination_word:
  "\<forall>c \<in> set w. c \<noteq> CHR '' '' \<and> c \<noteq> CHR '':'' \<and> c \<noteq> CHR ''/'' \<Longrightarrow>
     parse_destination hs hv srv svc acc (w @ t) = parse_destination hs hv srv svc (acc @ w) t"
  by (induction w arbitrary: acc) auto

lemma parse_destination_render:
  assumes "dest_ok (f_server m)" and "dest_ok (f_service m)" and "name_ok (f_command m)"
    and "f_service m = [] \<longrightarrow> f_server m = []"
    and "t = [] \<or> hd t = CHR '' ''"
  shows "parse_destination False False [] [] [] (render_destination m @ f_command m @ t)
       = Some (f_server m, f_service m, f_command m, t)"
proof -
  have w: "\<forall>c \<in> set (f_server m). c \<noteq> CHR '' '' \<and> c \<noteq> CHR '':'' \<and> c \<noteq> CHR ''/''"
      "\<forall>c \<in> set (f_service m). c \<noteq> CHR '' '' \<and> c \<noteq> CHR '':'' \<and> c \<noteq> CHR ''/''"
      "\<forall>c \<in> set (f_command m). c \<noteq> CHR '' '' \<and> c \<noteq> CHR '':'' \<and> c \<noteq> CHR ''/''"
    using assms(1-3) name_chars dest_chars by blast+
  show ?thesis
    using assms(4,5) by (cases t) (auto simp: render_destination_def parse_destination_word [OF w(1)]
        parse_destination_word [OF w(2)] parse_destination_word [OF w(3), of _ _ _ _ _ "[]", simplified]
        parse_destination_word [OF w(3)])
qed

lemma render_parameters_space:
  "render_parameters rep CHR '' '' ps = [] \<or> hd (render_parameters rep CHR '' '' ps) = CHR '' ''"
  by (cases ps) auto

lemma render_tail:
  assumes "wf_message m" and "f_command m \<noteq> []"
  shows "render_destination m @ f_command m @ t \<noteq> []"
    and "hd (render_destination m @ f_command m @ t) \<noteq> CHR ''<''"
    and "\<not> is_blank (hd (render_destination m @ f_command m @ t))"
proof -
  show "render_destination m @ f_command m @ t \<noteq> []" using assms(2) by simp
  let ?c = "hd (render_destination m @ f_command m @ t)"
  have "?c \<in> set (f_server m) \<or> ?c \<in> set (f_service m) \<or> ?c \<in> set (f_command m)"
    using assms(2) by (auto simp: render_destination_def hd_append)
  then have "?c \<noteq> CHR ''<'' \<and> \<not> is_blank ?c"
    using assms(1) dest_chars [of "f_server m" ?c] dest_chars [of "f_service m" ?c]
      name_chars [of "f_command m" ?c]
    by (auto simp: wf_message_def command_ok_def)
  then show "?c \<noteq> CHR ''<''" and "\<not> is_blank ?c" by auto
qed

lemma render_head_blank:
  "wf_message m \<Longrightarrow> f_command m \<noteq> [] \<Longrightarrow> \<not> is_blank (hd (render_message rep m))"
  using render_tail(3) [of m] by (simp add: render_message_def render_sent_from_def is_blank_def)

lemma render_message_front_NUL:
  assumes "wf_message m" and "CHR 0x00 \<notin> set (render_parameters rep CHR '' '' (f_parameters m))"
  shows "CHR 0x00 \<notin> set (render_message rep m)"
proof -
  have "CHR 0x00 \<notin> set (f_server m)" "CHR 0x00 \<notin> set (f_service m)"
      "CHR 0x00 \<notin> set (f_command m)" "CHR 0x00 \<notin> set (f_sent_from_server m)"
      "CHR 0x00 \<notin> set (f_sent_from_service m)"
    using assms(1) name_chars(1) [of _ "CHR 0x00"] dest_chars(1) [of _ "CHR 0x00"]
    by (auto simp: wf_message_def command_ok_def)
  with assms(2) show ?thesis
    by (simp add: render_message_def render_sent_from_def render_destination_def)
qed

text \<open>Everything in front of the parameters is read back, so the parameters decide.\<close>

lemma parse_message_front:
  assumes wf: "wf_message m" and cmd: "f_command m \<noteq> []"
    and srv: "f_service m = [] \<longrightarrow> f_server m = []"
    and nul: "CHR 0x00 \<notin> set (render_parameters rep CHR '' '' (f_parameters m))"
  shows "parse_message rep (render_message rep m) =
     map_option (\<lambda>ps. (f_sent_from_server m, f_sent_from_service m, f_server m, f_service m,
         f_command m, ps))
       (parse_parameters rep [] (tl (render_parameters rep CHR '' '' (f_parameters m))))"
proof -
  let ?p = "render_parameters rep CHR '' '' (f_parameters m)"
  have "parse_sent_from (render_message rep m) = Some (f_sent_from_server m,
      f_sent_from_service m, render_destination m @ f_command m @ ?p)"
    unfolding render_message_def using wf render_tail [OF wf cmd]
    by (intro parse_sent_from_render) (auto simp: wf_message_def)
  moreover have "parse_destination False False [] [] [] (render_destination m @ f_command m @ ?p)
      = Some (f_server m, f_service m, f_command m, ?p)"
    using wf srv render_parameters_space
    by (intro parse_destination_render) (auto simp: wf_message_def command_ok_def)
  ultimately show ?thesis
    using cmd by (simp add: parse_message_def c_str_id [OF render_message_front_NUL [OF wf nul]]
        split: option.split)
qed

context snapdev_text
begin

lemma trim_render_message:
  assumes wf: "wf_message m" and safe: "text_safe m" and cmd: "f_command m \<noteq> []"
  shows "trim (render_message rep m) = render_message rep m"
proof (rule trim_id)
  show "render_message rep m \<noteq> []" using cmd by (simp add: render_message_def)
  show "\<not> is_blank (hd (render_message rep m))" using wf cmd by (rule render_head_blank)
  have "\<not> is_blank (last (f_command m))"
    using wf cmd name_chars(2) [of "f_command m" "last (f_command m)"]
    by (auto simp: wf_message_def command_ok_def)
  then show "\<not> is_blank (last (render_message rep m))"
    using safe cmd render_parameters_last [of "f_parameters m" "CHR '' ''"]
    by (cases "f_parameters m = []") (auto simp: render_message_def text_safe_def)
qed

lemma parse_message_render:
  assumes wf: "wf_message m" and safe: "text_safe m" and cmd: "f_command m \<noteq> []"
  shows "parse_message rep (render_message rep m) =
     Some (f_sent_from_server m, f_sent_from_service m, f_server m, f_service m, f_command m,
       f_parameters m)"
proof -
  let ?p = "render_parameters rep CHR '' '' (f_parameters m)"
  have "CHR 0x00 \<notin> set ?p"
    using wf safe by (intro render_parameters_NUL) (auto simp: wf_message_def text_safe_def)
  moreover have "parse_parameters rep [] (tl ?p) = Some ([] @ f_parameters m)"
    using wf safe by (intro parse_parameters_render) (auto simp: wf_message_def text_safe_def)
  moreover have "f_service m = [] \<longrightarrow> f_server m = []" using safe by (simp add: text_safe_def)
  ultimately show ?thesis
    using parse_message_front [OF wf cmd] by simp
qed

lemma from_string_render:
  assumes "wf_message m" and "text_safe m" and "f_command m \<noteq> []"
  shows "\<exists>r. from_string trim rep m0 (render_message rep m) = (True, r) \<and> same_fields r m
     \<and> f_cached_message r = []"
  using parse_message_render [OF assms] trim_render_message [OF assms]
  by (simp add: from_string_def same_fields_def)

end

section \<open>The string library can be what its documentation says\<close>

text \<open>Executable functions with the documented behaviour: they interpret the locale, and the
  witnesses evaluate them.\<close>

definition strip_blanks :: "string \<Rightarrow> string" where
  "strip_blanks s = rev (dropWhile is_blank (rev (dropWhile is_blank s)))"

function scan_replace :: "string \<Rightarrow> replacements \<Rightarrow> string" where
  "scan_replace t tbl =
     (case t of
        [] \<Rightarrow> []
      | c # cs \<Rightarrow>
          (case find (found_at t) tbl of
             None \<Rightarrow> c # scan_replace cs tbl
           | Some (a, b) \<Rightarrow> b @ scan_replace (drop (length a - 1) cs) tbl))"
  by pat_completeness auto
termination
  by (relation "measure (\<lambda>(t, tbl). length t)") auto

declare scan_replace.simps [simp del]

lemma scan_replace_found:
  assumes "find (found_at t) tbl = Some (a, b)"
  shows "scan_replace t tbl = b @ scan_replace (drop (length a) t) tbl"
proof -
  from assms have "found_at t (a, b)" by (auto simp: find_Some_iff)
  then obtain x a' y t' where "a = x # a'" "t = y # t'"
    by (cases a; cases t) (auto simp: found_at_def)
  with assms show ?thesis by (subst scan_replace.simps) simp
qed

lemma snapdev_reference: "snapdev_text strip_blanks scan_replace"
proof
  show "scan_replace t tbl = b @ scan_replace (drop (length a) t) tbl"
    if "find (found_at t) tbl = Some (a, b)" for t tbl a b
    using that by (rule scan_replace_found)
qed (auto simp: strip_blanks_def scan_replace.simps [of "[]"] scan_replace.simps [of "_ # _"])

interpretation ref_text: snapdev_text strip_blanks scan_replace
  by (rule snapdev_reference)

section \<open>What a parsed message is\<close>

lemma parse_parameter_name:
  "parse_parameter m = Some (n, v, m') \<Longrightarrow> n \<noteq> [] \<and> name_ok n"
  by (auto simp: parse_parameter_def Let_def verify_message_name_Inr
      split: list.splits sum.splits option.splits if_splits)

lemma parse_parameters_ok:
  assumes "parse_parameters rep ps m = Some qs"
    and "omap_ok ps" and "\<forall>n \<in> fst ` set ps. n \<noteq> [] \<and> name_ok n"
  shows "omap_ok qs \<and> (\<forall>n \<in> fst ` set qs. n \<noteq> [] \<and> name_ok n)"
  using assms
proof (induction rep ps m rule: parse_parameters.induct)
  case (1 rep ps m)
  show ?case
  proof (cases "m = []")
    case True
    with "1.prems" show ?thesis by (simp add: parse_parameters.simps)
  next
    case False
    with "1.prems"(1) obtain n v m' where pp: "parse_parameter m = Some (n, v, m')"
      and rest: "parse_parameters rep (omap_put n (rep v text_unescapes) ps) m' = Some qs"
      by (subst (asm) parse_parameters.simps) (auto split: option.splits)
    show ?thesis
      using "1.IH" [OF False pp refl refl] rest "1.prems"(2,3) parse_parameter_name [OF pp]
      by (simp add: omap_ok_put set_fst_omap_put)
  qed
qed

lemma parse_message_fields:
  assumes "parse_message rep msg = Some (a, b, c, d, cmd, ps)"
  shows "cmd \<noteq> []" and "omap_ok ps \<and> (\<forall>n \<in> fst ` set ps. n \<noteq> [] \<and> name_ok n)"
proof -
  from assms obtain m where ps: "parse_parameters rep [] m = Some ps" and cmd: "cmd \<noteq> []"
    by (auto simp: parse_message_def split: option.splits if_splits)
  from cmd show "cmd \<noteq> []" .
  show "omap_ok ps \<and> (\<forall>n \<in> fst ` set ps. n \<noteq> [] \<and> name_ok n)"
    by (rule parse_parameters_ok [OF ps]) simp_all
qed

section \<open>Where the text form loses a message\<close>

context snapdev_text
begin

lemma parse_quoted_lost:
  assumes "v \<noteq> []" and "last v = CHR 0x5C"
  shows "parse_quoted acc (rep v (text_escapes True) @ [CHR 0x22]) = None"
  using assms
proof (induction v arbitrary: acc rule: list_nonempty_induct)
  case (single c)
  then show ?case by (simp add: rep_escapes_Cons rep_Nil)
next
  case (cons c v)
  then have IH: "\<And>acc. parse_quoted acc (rep v (text_escapes True) @ [CHR 0x22]) = None" by simp
  from \<open>v \<noteq> []\<close> show ?case
    by (cases "c = CHR 0x5C")
       (auto simp: rep_escapes_Cons parse_quoted_backslash rep_escapes_not_Nil hd_rep_quoted
          hd_append parse_quoted_char IH)
qed

lemma parse_parameter_lost:
  assumes "n \<noteq> []" and "name_ok n" and "needs_quotes v" and "last v = CHR 0x5C"
  shows "parse_parameter (n @ CHR ''='' # render_value rep v) = None"
proof -
  have "v \<noteq> []" using assms(3) by (auto simp: needs_quotes_def)
  then have "parse_value (render_value rep v) = None"
    using assms(3,4) by (simp add: render_value_def parse_value_def parse_quoted_lost)
  moreover have "\<And>c. c \<in> set n \<Longrightarrow> c \<noteq> CHR ''=''" using assms(2) name_chars by fastforce
  ultimately show ?thesis
    using assms(1,2) by (simp add: parse_parameter_def takeWhile_append_stop
        dropWhile_append_stop split: sum.splits)
qed

end

text \<open>
  The round trip fails on a quoted value that ends with a backslash. A message
  with one such parameter is rendered without complaint and every receiver refuses the text,
  because the escaped backslash and the closing quote are read as an escaped quote.
\<close>

theorem quoted_final_backslash_refused:
  assumes lib: "snapdev_text trim rep" and wf: "wf_message m" and cmd: "f_command m \<noteq> []"
    and srv: "f_service m = [] \<longrightarrow> f_server m = []"
    and ps: "f_parameters m = [(n, v)]"
    and v: "needs_quotes v" "last v = CHR 0x5C" "CHR 0x00 \<notin> set v"
  shows "from_string trim rep m0 (render_message rep m) = (False, m0)"
proof -
  let ?p = "render_parameters rep CHR '' '' (f_parameters m)"
  have p: "?p = CHR '' '' # n @ CHR ''='' # render_value rep v" by (simp add: ps)
  from wf have n: "n \<noteq> []" "name_ok n" by (simp_all add: wf_message_def ps)
  have "trim (render_message rep m) = render_message rep m"
  proof (rule snapdev_text.trim_id [OF lib])
    show "\<not> is_blank (hd (render_message rep m))" using wf cmd by (rule render_head_blank)
  qed (use v(1) in \<open>simp_all add: render_message_def p render_value_def is_blank_def\<close>)
  moreover have "CHR 0x00 \<notin> set ?p"
    using n(2) name_chars(1) [of n "CHR 0x00"] v(3) snapdev_text.set_rep_escapes [OF lib, of v]
    by (auto simp: p render_value_def)
  moreover have "parse_parameters rep [] (tl ?p) = None"
    using snapdev_text.parse_parameter_lost [OF lib n v(1,2)]
    by (simp add: p parse_parameters.simps)
  ultimately show ?thesis
    using parse_message_front [OF wf cmd srv] by (simp add: from_string_def)
qed

theorem quoted_final_backslash_refused_witness:
  "from_string strip_blanks scan_replace new_message
     (render_message scan_replace
        (new_message\<lparr>f_command := ''PING'', f_parameters := [(''path'', [CHR '';'', CHR 0x5C])]\<rparr>))
   = (False, new_message)"
  by (rule quoted_final_backslash_refused [OF snapdev_reference,
        where n = "''path''" and v = "[CHR '';'', CHR 0x5C]"]) (code_simp+)

end
