(* ===== verification/Message_Json.thy ===== *)
theory Message_Json
  imports Message_Text
begin

text \<open>
  The JSON form of a message (\<^verbatim>\<open>message::to_json()\<close>, \<^verbatim>\<open>message::from_json()\<close>), the two entry
  points that choose a format, and the life of a message: every state the operations of the
  class can build. The tokenizer \<^verbatim>\<open>libutf8::json_tokens\<close> and the \<^verbatim>\<open>advgetopt\<close> number validator
  are not part of this repository and are arguments; \<open>'d\<close> stands for \<^verbatim>\<open>double\<close>.
\<close>

section \<open>Rendering\<close>

definition json_escapes :: replacements where
  "json_escapes =
     [([CHR 0x5C], [CHR 0x5C, CHR 0x5C]), ([CHR 0x22], [CHR 0x5C, CHR 0x22]),
      ([CHR 0x0A], [CHR 0x5C, CHR ''n'']), ([CHR 0x0D], [CHR 0x5C, CHR ''r''])]"

definition json_unescapes :: replacements where
  "json_unescapes =
     [([CHR 0x5C, CHR 0x22], [CHR 0x22]), ([CHR 0x5C, CHR 0x5C], [CHR 0x5C]),
      ([CHR 0x5C, CHR ''n''], [CHR 0x0A]), ([CHR 0x5C, CHR ''r''], [CHR 0x0D])]"

definition json_quote :: "string \<Rightarrow> string" where
  "json_quote s = CHR 0x22 # s @ [CHR 0x22]"

definition json_render_value :: "replace_many \<Rightarrow> (string \<Rightarrow> bool) \<Rightarrow> string \<Rightarrow> string" where
  "json_render_value rep is_double v =
     (if v = ''true'' then ''true''
      else if v = ''false'' then ''false''
      else if is_double v then (if v \<noteq> [] \<and> hd v = CHR ''+'' then tl v else v)
      else CHR 0x22 # rep v json_escapes @ [CHR 0x22])"

fun json_render_parameters ::
    "replace_many \<Rightarrow> (string \<Rightarrow> bool) \<Rightarrow> bool \<Rightarrow> (string \<times> string) list \<Rightarrow> string" where
  "json_render_parameters rep is_double first [] = []"
| "json_render_parameters rep is_double first ((n, v) # ps) =
     (if first then [CHR 0x22] else [CHR '','', CHR 0x22]) @ n @ [CHR 0x22, CHR '':'']
       @ json_render_value rep is_double v @ json_render_parameters rep is_double False ps"

text \<open>
  The text of \<^verbatim>\<open>to_json()\<close>, piece by piece as the code appends it. After the service name the
  code appends neither the closing quote nor the comma.
\<close>

definition json_render :: "replace_many \<Rightarrow> (string \<Rightarrow> bool) \<Rightarrow> message \<Rightarrow> string" where
  "json_render rep is_double m =
     ''{''
     @ (if f_sent_from_server m \<noteq> []
        then json_quote ''sent-from-server'' @ '':'' @ json_quote (f_sent_from_server m) @ '','' else [])
     @ (if f_sent_from_service m \<noteq> []
        then json_quote ''sent-from-service'' @ '':'' @ json_quote (f_sent_from_service m) @ '','' else [])
     @ (if f_service m \<noteq> []
        then (if f_server m \<noteq> []
              then json_quote ''server'' @ '':'' @ json_quote (f_server m) @ '','' else [])
             @ json_quote ''service'' @ '':'' @ [CHR 0x22] @ f_service m
        else [])
     @ json_quote ''command'' @ '':'' @ json_quote (f_command m)
     @ (if f_parameters m \<noteq> []
        then '','' @ json_quote ''parameters'' @ '':{''
             @ json_render_parameters rep is_double True (f_parameters m) @ ''}''
        else [])
     @ ''}''"

definition to_json ::
    "replace_many \<Rightarrow> (string \<Rightarrow> bool) \<Rightarrow> message \<Rightarrow> string result \<times> message" where
  "to_json rep is_double m =
     (if f_cached_json m = [] then
        (if f_command m = [] then (Inl Invalid_message, m)
         else let s = json_render rep is_double m in (Inr s, m\<lparr>f_cached_json := s\<rparr>))
      else (Inr (f_cached_json m), m))"

datatype format_t = MESSAGE_FORMAT_STRING | MESSAGE_FORMAT_JSON

definition to_message ::
    "replace_many \<Rightarrow> (string \<Rightarrow> bool) \<Rightarrow> format_t \<Rightarrow> message \<Rightarrow> string result \<times> message" where
  "to_message rep is_double format m =
     (case format of
        MESSAGE_FORMAT_STRING \<Rightarrow> to_string rep m
      | MESSAGE_FORMAT_JSON \<Rightarrow> to_json rep is_double m)"

section \<open>Parsing\<close>

text \<open>
  The tokens \<^verbatim>\<open>from_json()\<close> tells apart, with the value of a string or number token; the end of
  the list is \<^verbatim>\<open>TOKEN_END\<close>, and every other token of the library is \<open>J_other\<close>.
\<close>

datatype 'd jtoken =
    J_open_object | J_close_object | J_colon | J_comma
  | J_string string | J_number 'd | J_true | J_false | J_null | J_other

text \<open>What \<^verbatim>\<open>from_json()\<close> uses of \<^verbatim>\<open>double\<close>: the test \<^verbatim>\<open>d == floor(d)\<close>, the conversion to
  \<^verbatim>\<open>std::int64_t\<close> and \<^verbatim>\<open>std::to_string(double)\<close>.\<close>

record 'd json_double =
  is_whole :: "'d \<Rightarrow> bool"
  to_i64 :: "'d \<Rightarrow> i64"
  double_to_string :: "'d \<Rightarrow> string"

fun json_value :: "'d json_double \<Rightarrow> replace_many \<Rightarrow> 'd jtoken \<Rightarrow> string option" where
  "json_value dbl rep (J_string s) = Some (rep s json_unescapes)"
| "json_value dbl rep (J_number d) =
     Some (if is_whole dbl d then std_to_string (sint (to_i64 dbl d)) else double_to_string dbl d)"
| "json_value dbl rep J_true = Some ''true''"
| "json_value dbl rep J_false = Some ''false''"
| "json_value dbl rep J_null = Some []"
| "json_value dbl rep _ = None"

fun json_parameters ::
    "'d json_double \<Rightarrow> replace_many \<Rightarrow> (string \<times> string) list \<Rightarrow> 'd jtoken list
       \<Rightarrow> ((string \<times> string) list \<times> 'd jtoken list) option" where
  "json_parameters dbl rep ps (J_string name # J_colon # v # t # ts) =
     (case json_value dbl rep v of
        None \<Rightarrow> None
      | Some x \<Rightarrow>
          if t = J_close_object then Some (omap_put name x ps, ts)
          else if t = J_comma then json_parameters dbl rep (omap_put name x ps) ts
          else None)"
| "json_parameters dbl rep ps _ = None"

lemma json_parameters_shorter:
  "json_parameters dbl rep ps ts = Some (ps', ts') \<Longrightarrow> length ts' < length ts"
  by (induction dbl rep ps ts arbitrary: ps' rule: json_parameters.induct)
     (fastforce split: option.splits if_splits)+

text \<open>The five text fields and the parameters, gathered before they are assigned.\<close>

record json_fields =
  j_sent_server :: string
  j_sent_service :: string
  j_server :: string
  j_service :: string
  j_command :: string
  j_parameters :: "(string \<times> string) list"

definition json_set_field :: "string \<Rightarrow> string \<Rightarrow> json_fields \<Rightarrow> json_fields" where
  "json_set_field name v f =
     (if name = ''sent-from-server'' then f\<lparr>j_sent_server := v\<rparr>
      else if name = ''sent-from-service'' then f\<lparr>j_sent_service := v\<rparr>
      else if name = ''server'' then f\<lparr>j_server := v\<rparr>
      else if name = ''service'' then f\<lparr>j_service := v\<rparr>
      else if name = ''command'' then f\<lparr>j_command := v\<rparr>
      else f)"

text \<open>One field after its name and colon: the value, and the tokens after it.\<close>

definition json_field ::
    "'d json_double \<Rightarrow> replace_many \<Rightarrow> string \<Rightarrow> json_fields \<Rightarrow> 'd jtoken list
       \<Rightarrow> (json_fields \<times> 'd jtoken list) option" where
  "json_field dbl rep name f ts =
     (case ts of
        J_open_object # ts1 \<Rightarrow>
          if name \<noteq> ''parameters'' then None
          else (case ts1 of
              J_close_object # ts2 \<Rightarrow> Some (f, ts2)
            | _ \<Rightarrow> (case json_parameters dbl rep (j_parameters f) ts1 of
                  None \<Rightarrow> None
                | Some (ps, ts2) \<Rightarrow> Some (f\<lparr>j_parameters := ps\<rparr>, ts2)))
      | J_string s # ts1 \<Rightarrow> Some (json_set_field name s f, ts1)
      | _ \<Rightarrow> None)"

lemma json_field_shorter:
  assumes "json_field dbl rep name f ts = Some (f', ts')"
  shows "length ts' < length ts"
proof (cases "\<exists>ts1. ts = J_open_object # ts1")
  case True
  then obtain ts1 where ts: "ts = J_open_object # ts1" by blast
  show ?thesis
  proof (cases "\<exists>ts2. ts1 = J_close_object # ts2")
    case True
    with ts assms show ?thesis by (auto simp: json_field_def split: if_splits)
  next
    case False
    with ts assms have "\<exists>ps. json_parameters dbl rep (j_parameters f) ts1 = Some (ps, ts')"
      by (auto simp: json_field_def split: if_splits list.splits jtoken.splits option.splits)
    with ts show ?thesis by (auto dest: json_parameters_shorter)
  qed
next
  case False
  with assms show ?thesis
    by (auto simp: json_field_def split: list.splits jtoken.splits)
qed

function json_object ::
    "'d json_double \<Rightarrow> replace_many \<Rightarrow> json_fields \<Rightarrow> 'd jtoken list \<Rightarrow> json_fields option" where
  "json_object dbl rep f ts =
     (case ts of
        J_string name # J_colon # ts1 \<Rightarrow>
          (case json_field dbl rep name f ts1 of
             None \<Rightarrow> None
           | Some (f', ts2) \<Rightarrow>
               (case ts2 of
                  J_close_object # ts3 \<Rightarrow> if ts3 = [] then Some f' else None
                | J_comma # ts3 \<Rightarrow> json_object dbl rep f' ts3
                | _ \<Rightarrow> None))
      | _ \<Rightarrow> None)"
  by pat_completeness auto
termination
  by (relation "measure (\<lambda>(dbl, rep, f, ts). length ts)") (auto dest!: json_field_shorter)

declare json_object.simps [simp del]

definition json_no_fields :: json_fields where
  "json_no_fields = \<lparr>j_sent_server = [], j_sent_service = [], j_server = [], j_service = [],
     j_command = [], j_parameters = []\<rparr>"

definition from_json ::
    "'d json_double \<Rightarrow> replace_many \<Rightarrow> (string \<Rightarrow> 'd jtoken list) \<Rightarrow> message \<Rightarrow> string
       \<Rightarrow> bool \<times> message" where
  "from_json dbl rep tokens m msg =
     (case tokens msg of
        J_open_object # ts \<Rightarrow>
          (case json_object dbl rep json_no_fields ts of
             None \<Rightarrow> (False, m)
           | Some f \<Rightarrow> (True, m\<lparr>f_sent_from_server := j_sent_server f,
               f_sent_from_service := j_sent_service f, f_server := j_server f,
               f_service := j_service f, f_command := j_command f,
               f_parameters := j_parameters f, f_cached_message := []\<rparr>))
      | _ \<Rightarrow> (False, m))"

definition from_message ::
    "'d json_double \<Rightarrow> (string \<Rightarrow> string) \<Rightarrow> replace_many \<Rightarrow> (string \<Rightarrow> 'd jtoken list)
       \<Rightarrow> message \<Rightarrow> string \<Rightarrow> bool \<times> message" where
  "from_message dbl trim rep tokens m original =
     (let msg = trim original in
      if msg = [] then (False, m)
      else if hd msg = CHR ''{'' then from_json dbl rep tokens m msg
      else from_string trim rep m msg)"

section \<open>The life of a message\<close>

text \<open>
  The messages a program can hold: a new one, and what any operation of the class makes of
  one. An operation that throws or returns false leaves the message as it was.
\<close>

inductive live_message ::
    "(string \<Rightarrow> string) \<Rightarrow> replace_many \<Rightarrow> 'd json_double \<Rightarrow> (string \<Rightarrow> 'd jtoken list)
       \<Rightarrow> (string \<Rightarrow> bool) \<Rightarrow> message \<Rightarrow> bool"
  for trim rep dbl tokens is_double where
  live_new: "live_message trim rep dbl tokens is_double new_message"
| live_sent_from_server:
    "live_message trim rep dbl tokens is_double m \<Longrightarrow> set_sent_from_server m s = Inr m' \<Longrightarrow>
       live_message trim rep dbl tokens is_double m'"
| live_sent_from_service:
    "live_message trim rep dbl tokens is_double m \<Longrightarrow> set_sent_from_service m s = Inr m' \<Longrightarrow>
       live_message trim rep dbl tokens is_double m'"
| live_server:
    "live_message trim rep dbl tokens is_double m \<Longrightarrow> set_server m s = Inr m' \<Longrightarrow>
       live_message trim rep dbl tokens is_double m'"
| live_service:
    "live_message trim rep dbl tokens is_double m \<Longrightarrow> set_service m s = Inr m' \<Longrightarrow>
       live_message trim rep dbl tokens is_double m'"
| live_command:
    "live_message trim rep dbl tokens is_double m \<Longrightarrow> set_command m s = Inr m' \<Longrightarrow>
       live_message trim rep dbl tokens is_double m'"
| live_parameter:
    "live_message trim rep dbl tokens is_double m \<Longrightarrow> add_parameter m n v = Inr m' \<Longrightarrow>
       live_message trim rep dbl tokens is_double m'"
| live_processed:
    "live_message trim rep dbl tokens is_double m \<Longrightarrow>
       live_message trim rep dbl tokens is_double (mark_processed m)"
| live_from_message:
    "live_message trim rep dbl tokens is_double m \<Longrightarrow>
       live_message trim rep dbl tokens is_double (snd (from_message dbl trim rep tokens m s))"
| live_to_message:
    "live_message trim rep dbl tokens is_double m \<Longrightarrow>
       live_message trim rep dbl tokens is_double (snd (to_message rep is_double fmt m))"

text \<open>The text cache is empty or is what the fields render to now.\<close>

definition text_cache_ok :: "replace_many \<Rightarrow> message \<Rightarrow> bool" where
  "text_cache_ok rep m \<longleftrightarrow> f_cached_message m = [] \<or> f_cached_message m = render_message rep m"

lemma render_message_cong:
  "same_fields m m' \<Longrightarrow> render_message rep m = render_message rep m'"
  by (simp add: same_fields_def render_message_def render_sent_from_def render_destination_def)

lemma text_cache_cong:
  "same_fields m m' \<Longrightarrow> f_cached_message m = f_cached_message m' \<Longrightarrow>
     text_cache_ok rep m \<Longrightarrow> text_cache_ok rep m'"
  using render_message_cong by (fastforce simp: text_cache_ok_def)

lemma setter_cache:
  "set_sent_from_server m s = Inr m' \<Longrightarrow> m' = m \<or> f_cached_message m' = []"
  "set_sent_from_service m s = Inr m' \<Longrightarrow> m' = m \<or> f_cached_message m' = []"
  "set_server m s = Inr m' \<Longrightarrow> m' = m \<or> f_cached_message m' = []"
  "set_service m s = Inr m' \<Longrightarrow> m' = m \<or> f_cached_message m' = []"
  "set_command m s = Inr m' \<Longrightarrow> m' = m \<or> f_cached_message m' = []"
  "add_parameter m n v = Inr m' \<Longrightarrow> m' = m \<or> f_cached_message m' = []"
  by (auto simp: msg_defs res_bind_eq_Inr split: if_splits)

lemma from_message_cache:
  "snd (from_message dbl trim rep tokens m s) = m
     \<or> f_cached_message (snd (from_message dbl trim rep tokens m s)) = []"
  by (auto simp: from_message_def from_json_def from_string_def Let_def
      split: option.splits list.splits jtoken.splits prod.splits)

lemma to_message_cache:
  assumes "text_cache_ok rep m"
  shows "text_cache_ok rep (snd (to_message rep is_double fmt m))"
proof -
  have "same_fields (snd (to_message rep is_double fmt m)) m"
    by (cases fmt) (auto simp: to_message_def to_string_def to_json_def same_fields_def Let_def)
  then show ?thesis
    using assms render_message_cong
    by (cases fmt) (fastforce simp: to_message_def to_string_def to_json_def text_cache_ok_def Let_def)+
qed

lemma live_text_cache: "live_message trim rep dbl tokens is_double m \<Longrightarrow> text_cache_ok rep m"
proof (induction rule: live_message.induct)
  case live_new
  show ?case by (simp add: text_cache_ok_def new_message_def)
next
  case (live_processed m)
  show ?case
    by (rule text_cache_cong [OF _ _ live_processed.IH])
       (simp_all add: same_fields_def mark_processed_def)
next
  case (live_from_message m s)
  then show ?case using from_message_cache by (metis text_cache_ok_def)
next
  case (live_to_message m fmt)
  show ?case by (rule to_message_cache [OF live_to_message.IH])
qed (auto dest!: setter_cache simp: text_cache_ok_def)


definition demo_double :: "unit json_double" where
  "demo_double = \<lparr>is_whole = (\<lambda>_. True), to_i64 = (\<lambda>_. 0), double_to_string = (\<lambda>_. [])\<rparr>"

definition demo_message :: message where
  "demo_message = new_message\<lparr>f_command := ''PING'', f_parameters := [(''k'', ''a;b''), (''n'', [CHR 0x0A])]\<rparr>"

lemma demo_message_live:
  "live_message strip_blanks scan_replace demo_double (\<lambda>_. []) (\<lambda>_. False) demo_message"
proof -
  note l = live_new [of strip_blanks scan_replace demo_double "\<lambda>_. []" "\<lambda>_. False"]
  note l = live_command [OF l, where s = "''PING''" and m' = "new_message\<lparr>f_command := ''PING''\<rparr>"]
  note l = live_parameter [OF l, where n = "''n''" and v = "[CHR 0x0A]"
      and m' = "new_message\<lparr>f_command := ''PING'', f_parameters := [(''n'', [CHR 0x0A])]\<rparr>"]
  note l = live_parameter [OF l, where n = "''k''" and v = "''a;b''" and m' = demo_message]
  show ?thesis
    by (rule l) (code_simp+)
qed


text \<open>
  In every life of a message the text \<^verbatim>\<open>to_string()\<close> returns is the rendering
  of the fields it has now; no setter, parameter or parse leaves a stale text cache.
\<close>

theorem to_string_never_stale:
  assumes "live_message trim rep dbl tokens is_double m" and "f_command m \<noteq> []"
  shows "fst (to_string rep m) = Inr (render_message rep m)"
  using live_text_cache [OF assms(1)] assms(2)
  by (auto simp: to_string_def text_cache_ok_def Let_def)

theorem to_string_never_stale_witness:
  "fst (to_string scan_replace demo_message) = Inr (render_message scan_replace demo_message)"
  by (rule to_string_never_stale [OF demo_message_live]) code_simp

text \<open>
  The JSON cache has no such invariant. \<^verbatim>\<open>set_command()\<close> leaves it alone, so a
  message that was rendered as JSON once keeps returning the text of its former command.
\<close>

theorem to_json_stale_after_set_command:
  assumes "fst (to_json rep is_double m) = Inr s"
    and "set_command (snd (to_json rep is_double m)) cmd = Inr m'"
  shows "fst (to_json rep is_double m') = Inr s"
proof -
  have "f_cached_json (snd (to_json rep is_double m)) = s" and "s \<noteq> []"
    using assms(1) by (auto simp: to_json_def json_render_def Let_def split: if_splits)
  moreover have "f_cached_json m' = f_cached_json (snd (to_json rep is_double m))"
    using assms(2) by (auto simp: set_command_def res_bind_eq_Inr split: if_splits)
  ultimately show ?thesis by (simp add: to_json_def)
qed

theorem to_json_stale_after_set_command_witness:
  "fst (to_json scan_replace (\<lambda>_. False)
      (new_message\<lparr>f_command := ''STOP'',
         f_cached_json := json_render scan_replace (\<lambda>_. False) (new_message\<lparr>f_command := ''PING''\<rparr>)\<rparr>))
   = Inr (json_render scan_replace (\<lambda>_. False) (new_message\<lparr>f_command := ''PING''\<rparr>))"
  by (rule to_json_stale_after_set_command [where m = "new_message\<lparr>f_command := ''PING''\<rparr>"
        and cmd = "''STOP''"]) (code_simp+)

text \<open>
  The JSON text of a message with a destination service is not well formed. The
  service name is followed directly by the name of the command field: its closing quote and
  the comma are missing.
\<close>

theorem to_json_service_not_closed:
  assumes "f_service m \<noteq> []"
  shows "\<exists>before after. json_render rep is_double m =
     before @ json_quote ''service'' @ '':'' @ [CHR 0x22] @ f_service m
       @ json_quote ''command'' @ '':'' @ json_quote (f_command m) @ after"
proof -
  let ?a = "if f_sent_from_server m \<noteq> []
        then json_quote ''sent-from-server'' @ '':'' @ json_quote (f_sent_from_server m) @ '','' else []"
  let ?b = "if f_sent_from_service m \<noteq> []
        then json_quote ''sent-from-service'' @ '':'' @ json_quote (f_sent_from_service m) @ '','' else []"
  let ?c = "if f_server m \<noteq> []
        then json_quote ''server'' @ '':'' @ json_quote (f_server m) @ '','' else []"
  let ?d = "if f_parameters m \<noteq> []
        then '','' @ json_quote ''parameters'' @ '':{''
             @ json_render_parameters rep is_double True (f_parameters m) @ ''}'' else []"
  have "json_render rep is_double m =
     (''{'' @ ?a @ ?b @ ?c) @ json_quote ''service'' @ '':'' @ [CHR 0x22] @ f_service m
       @ json_quote ''command'' @ '':'' @ json_quote (f_command m) @ (?d @ ''}'')"
    using assms by (simp only: json_render_def append_assoc if_True not_False_eq_True)
  then show ?thesis by blast
qed

theorem to_json_service_not_closed_witness:
  "\<exists>before after. json_render scan_replace (\<lambda>_. False)
       (new_message\<lparr>f_service := ''lock'', f_command := ''PING''\<rparr>) =
     before @ json_quote ''service'' @ '':'' @ [CHR 0x22] @ ''lock''
       @ json_quote ''command'' @ '':'' @ json_quote ''PING'' @ after"
  using to_json_service_not_closed
    [of "new_message\<lparr>f_service := ''lock'', f_command := ''PING''\<rparr>" scan_replace "\<lambda>_. False"]
  by simp

text \<open>
  \<^verbatim>\<open>from_json()\<close> accepts an object with no command field. The message it builds
  cannot be sent on: \<^verbatim>\<open>to_string()\<close> throws on it.
\<close>

theorem from_json_without_command:
  assumes "tokens msg = [J_open_object, J_string ''server'', J_colon, J_string srv, J_close_object]"
  shows "\<exists>r. from_json dbl rep tokens m msg = (True, r) \<and> f_command r = [] \<and> f_server r = srv
     \<and> fst (to_string rep r) = Inl Invalid_message"
  using assms
  by (simp add: from_json_def json_object.simps json_field_def json_set_field_def json_no_fields_def
      to_string_def)

theorem from_json_without_command_witness:
  "\<exists>r. from_json demo_double scan_replace
       (\<lambda>_. [J_open_object, J_string ''server'', J_colon, J_string ''x'', J_close_object])
       new_message ''{...}'' = (True, r) \<and> f_command r = [] \<and> f_server r = ''x''
     \<and> fst (to_string scan_replace r) = Inl Invalid_message"
  by (rule from_json_without_command) simp

text \<open>
  \<^verbatim>\<open>from_string()\<close> replaces all the fields or none. When it returns false the
  object is untouched; when it returns true the command is not empty and the parameters are
  an ordered map from valid, non-empty names.
\<close>

theorem from_string_all_or_nothing:
  "case from_string trim rep m s of
     (False, r) \<Rightarrow> r = m
   | (True, r) \<Rightarrow> f_command r \<noteq> [] \<and> f_cached_message r = [] \<and> omap_ok (f_parameters r)
       \<and> (\<forall>n v. (n, v) \<in> set (f_parameters r)
             \<longrightarrow> verify_message_name n False True = Inr ())"
proof (cases "parse_message rep (trim s)")
  case None
  then show ?thesis by (simp add: from_string_def)
next
  case (Some x)
  obtain a b c d cmd ps where x: "x = (a, b, c, d, cmd, ps)" by (cases x)
  from parse_message_fields [OF Some [unfolded x]] show ?thesis
    by (force simp: from_string_def Some x verify_message_name_Inr)
qed

theorem from_string_all_or_nothing_witness:
  "case from_string strip_blanks scan_replace new_message ''PING k=1'' of
     (False, r) \<Rightarrow> r = new_message
   | (True, r) \<Rightarrow> f_command r \<noteq> [] \<and> f_cached_message r = [] \<and> omap_ok (f_parameters r)
       \<and> (\<forall>n v. (n, v) \<in> set (f_parameters r)
             \<longrightarrow> verify_message_name n False True = Inr ())"
  by (rule from_string_all_or_nothing)

text \<open>
  A reply goes back to its sender. For any well-formed message received,
  \<^verbatim>\<open>reply_to()\<close> succeeds and addresses the reply to the server and service it was sent from,
  leaving the command and the parameters alone.
\<close>

theorem reply_to_addresses_sender:
  assumes "wf_message received"
  shows "\<exists>r. reply_to m received = Inr r \<and> f_server r = f_sent_from_server received
     \<and> f_service r = f_sent_from_service received \<and> f_command r = f_command m
     \<and> f_parameters r = f_parameters m"
proof -
  have "verify_message_name (f_sent_from_server received) True True = Inr ()"
    and "verify_message_name (f_sent_from_service received) True True = Inr ()"
    using assms by (simp_all add: verify_message_name_Inr wf_message_def)
  then show ?thesis
    by (simp add: reply_to_def set_server_def set_service_def)
qed

theorem reply_to_addresses_sender_witness:
  "\<exists>r. reply_to new_message (new_message\<lparr>f_sent_from_server := ''web1'', f_sent_from_service := ''lock''\<rparr>)
       = Inr r \<and> f_server r = ''web1'' \<and> f_service r = ''lock'' \<and> f_command r = []
     \<and> f_parameters r = []"
proof -
  have "wf_message (new_message\<lparr>f_sent_from_server := ''web1'', f_sent_from_service := ''lock''\<rparr>)"
    by code_simp
  from reply_to_addresses_sender [OF this, of new_message] show ?thesis
    by (simp add: new_message_def)
qed

end
