(* ===== verification/Message_Definition.thy ===== *)
theory Message_Definition
  imports Message
begin

text \<open>
  The definitions a received message is checked against:
  \<^verbatim>\<open>eventdispatcher/message_definition.cpp\<close> and \<^verbatim>\<open>message::check_parameters()\<close>. The
  configuration reader of \<^verbatim>\<open>advgetopt\<close>, the file system and the value validators are not part
  of this repository: they are the fields of \<open>conf_env\<close> and \<open>validators\<close>.
\<close>

unbundle bit_operations_syntax

section \<open>Definitions\<close>

datatype parameter_type_t =
    PARAMETER_TYPE_STRING | PARAMETER_TYPE_INTEGER | PARAMETER_TYPE_ADDRESS | PARAMETER_TYPE_TIMESPEC

type_synonym parameter_flag_t = "32 word"

definition PARAMETER_FLAG_REQUIRED :: parameter_flag_t where
  "PARAMETER_FLAG_REQUIRED = 1"

definition PARAMETER_FLAG_EMPTY :: parameter_flag_t where
  "PARAMETER_FLAG_EMPTY = 2"

definition PARAMETER_FLAG_FORBIDDEN :: parameter_flag_t where
  "PARAMETER_FLAG_FORBIDDEN = 4"

definition PARAMETER_FLAG_DEFAULT :: parameter_flag_t where
  "PARAMETER_FLAG_DEFAULT = PARAMETER_FLAG_REQUIRED OR PARAMETER_FLAG_EMPTY"

lemmas flag_defs =
  PARAMETER_FLAG_REQUIRED_def PARAMETER_FLAG_EMPTY_def PARAMETER_FLAG_FORBIDDEN_def
  PARAMETER_FLAG_DEFAULT_def

record message_parameter =
  p_name :: string
  p_type :: parameter_type_t
  p_flags :: parameter_flag_t

record message_definition =
  d_command :: string
  d_parameters :: "message_parameter list"

definition has_flag :: "message_parameter \<Rightarrow> parameter_flag_t \<Rightarrow> bool" where
  "has_flag p flag \<longleftrightarrow> p_flags p AND flag \<noteq> 0"

section \<open>Checking the parameters of a message\<close>

record validators =
  valid_integer :: "string \<Rightarrow> bool"
  valid_address :: "string \<Rightarrow> bool"
  valid_timespec :: "string \<Rightarrow> bool"

text \<open>One turn of the loop: whether the turn leaves \<^verbatim>\<open>result\<close> alone.\<close>

definition check_parameter :: "validators \<Rightarrow> message \<Rightarrow> message_parameter \<Rightarrow> bool" where
  "check_parameter val m p =
     (case map_of (f_parameters m) (p_name p) of
        None \<Rightarrow> \<not> has_flag p PARAMETER_FLAG_REQUIRED
      | Some v \<Rightarrow>
          if has_flag p PARAMETER_FLAG_FORBIDDEN then False
          else if v = [] then has_flag p PARAMETER_FLAG_EMPTY
          else (case p_type p of
              PARAMETER_TYPE_STRING \<Rightarrow> True
            | PARAMETER_TYPE_INTEGER \<Rightarrow> valid_integer val v
            | PARAMETER_TYPE_ADDRESS \<Rightarrow> valid_address val v
            | PARAMETER_TYPE_TIMESPEC \<Rightarrow> valid_timespec val v))"

definition check_parameters :: "validators \<Rightarrow> message \<Rightarrow> message_parameter list \<Rightarrow> bool" where
  "check_parameters val m defs =
     fold (\<lambda>p result. if check_parameter val m p then result else False) defs True"

lemma check_parameters_fold:
  "fold (\<lambda>p result. if check_parameter val m p then result else False) defs r
     \<longleftrightarrow> r \<and> (\<forall>p \<in> set defs. check_parameter val m p)"
  by (induction defs arbitrary: r) auto

lemma check_parameters_iff:
  "check_parameters val m defs \<longleftrightarrow> (\<forall>p \<in> set defs. check_parameter val m p)"
  by (simp add: check_parameters_def check_parameters_fold)

section \<open>Loading definitions\<close>

text \<open>
  The globals \<^verbatim>\<open>g_message_definition_paths\<close> and \<^verbatim>\<open>g_message_definitions\<close>. A definition is
  shared by pointer, so the entry of the map is the object later reads see.
\<close>

record def_state =
  g_message_definition_paths :: string
  g_message_definitions :: "(string \<times> message_definition) list"

record conf_env =
  tokenize_string :: "string \<Rightarrow> string \<Rightarrow> string list"
  file_exists :: "string \<Rightarrow> bool"
  conf_sections :: "string \<Rightarrow> string list"
  conf_parameter :: "string \<Rightarrow> string \<Rightarrow> string option"
  option_with_underscores :: "string \<Rightarrow> string"

definition set_message_definition_paths :: "def_state \<Rightarrow> string \<Rightarrow> def_state" where
  "set_message_definition_paths st paths = st\<lparr>g_message_definition_paths := paths\<rparr>"

definition parameter_type_of :: "string \<Rightarrow> parameter_type_t result" where
  "parameter_type_of type =
     (if type = ''default'' \<or> type = ''string'' then Inr PARAMETER_TYPE_STRING
      else if type = ''integer'' then Inr PARAMETER_TYPE_INTEGER
      else if type = ''address'' then Inr PARAMETER_TYPE_ADDRESS
      else if type = ''timespec'' then Inr PARAMETER_TYPE_TIMESPEC
      else Inl Invalid_parameter)"

fun parameter_flags_of :: "string list \<Rightarrow> parameter_flag_t \<Rightarrow> parameter_flag_t result" where
  "parameter_flags_of [] flags = Inr flags"
| "parameter_flags_of (f # fs) flags =
     (if f = ''required'' then parameter_flags_of fs (flags OR PARAMETER_FLAG_REQUIRED)
      else if f = ''empty'' then parameter_flags_of fs (flags OR PARAMETER_FLAG_EMPTY)
      else if f = ''forbidden'' then parameter_flags_of fs (flags OR PARAMETER_FLAG_FORBIDDEN)
      else if f \<noteq> ''optional'' \<and> f \<noteq> ''defined'' \<and> f \<noteq> ''allowed'' then Inl Invalid_parameter
      else parameter_flags_of fs flags)"

definition section_parameter :: "conf_env \<Rightarrow> string \<Rightarrow> string \<Rightarrow> message_parameter result" where
  "section_parameter env filename s =
     res_bind
       (case conf_parameter env filename (s @ ''::type'') of
          None \<Rightarrow> Inr PARAMETER_TYPE_STRING
        | Some type \<Rightarrow> parameter_type_of type)
       (\<lambda>ty. res_bind
          (case conf_parameter env filename (s @ ''::flags'') of
             None \<Rightarrow> Inr PARAMETER_FLAG_DEFAULT
           | Some flags \<Rightarrow> parameter_flags_of (tokenize_string env flags '','') 0)
          (\<lambda>fl. Inr \<lparr>p_name = option_with_underscores env s, p_type = ty, p_flags = fl\<rparr>))"

text \<open>
  The sections of one file: the parameters pushed, and the exception that stopped the loop if
  one did. What was pushed before an exception stays in the shared definition.
\<close>

fun read_sections ::
    "conf_env \<Rightarrow> string \<Rightarrow> string list \<Rightarrow> message_parameter list
       \<Rightarrow> message_parameter list \<times> failure option" where
  "read_sections env filename [] ps = (ps, None)"
| "read_sections env filename (s # ss) ps =
     (case section_parameter env filename s of
        Inl e \<Rightarrow> (ps, Some e)
      | Inr p \<Rightarrow> read_sections env filename ss (ps @ [p]))"

definition definition_file :: "conf_env \<Rightarrow> string \<Rightarrow> string \<Rightarrow> string option" where
  "definition_file env paths command =
     find (file_exists env) (map (\<lambda>p. p @ ''/'' @ command @ ''.conf'') (tokenize_string env paths '':''))"

text \<open>
  \<^verbatim>\<open>get_message_definition()\<close> as a release build compiles it (a debug build also throws when no
  file is found): the definition is put in the map before it is read.
\<close>

definition get_message_definition ::
    "conf_env \<Rightarrow> def_state \<Rightarrow> string \<Rightarrow> message_definition result \<times> def_state" where
  "get_message_definition env st command =
     (if g_message_definition_paths st = [] then (Inl Invalid_parameter, st)
      else (case verify_message_name command False True of
          Inl e \<Rightarrow> (Inl e, st)
        | Inr _ \<Rightarrow>
            (case map_of (g_message_definitions st) command of
               Some def \<Rightarrow> (Inr def, st)
             | None \<Rightarrow>
                 let r = (case definition_file env (g_message_definition_paths st) command of
                        None \<Rightarrow> ([], None)
                      | Some filename \<Rightarrow> read_sections env filename (conf_sections env filename) []);
                     def = \<lparr>d_command = command, d_parameters = fst r\<rparr>;
                     st' = st\<lparr>g_message_definitions := omap_put command def (g_message_definitions st)\<rparr>
                 in (case snd r of None \<Rightarrow> (Inr def, st') | Some e \<Rightarrow> (Inl e, st')))))"

text \<open>A definition once returned is returned again: later reads come from the map.\<close>

lemma get_message_definition_cached:
  assumes "get_message_definition env st command = (Inr def, st')"
  shows "get_message_definition env st' command = (Inr def, st')"
  using assms
  by (auto simp: get_message_definition_def Let_def map_of_omap_put
      split: if_splits sum.splits option.splits)

text \<open>
  An invalid definition file is reported once. The call that reads it throws, and
  leaves what it read so far in the map, so the next call for the same command returns that
  partial definition with no error.
\<close>

theorem invalid_definition_reported_once:
  assumes "get_message_definition env st command = (Inl e, st')"
    and "g_message_definition_paths st \<noteq> []"
    and "verify_message_name command False True = Inr ()"
  shows "\<exists>def. get_message_definition env st' command = (Inr def, st')
     \<and> d_command def = command"
  using assms
  by (auto simp: get_message_definition_def Let_def map_of_omap_put split: option.splits)

definition demo_conf :: conf_env where
  "demo_conf = \<lparr>tokenize_string = (\<lambda>s _. [s]), file_exists = (\<lambda>_. True),
     conf_sections = (\<lambda>_. [''serial'', ''stamp'']),
     conf_parameter = (\<lambda>_ n. if n = ''stamp::type'' then Some ''date'' else None),
     option_with_underscores = (\<lambda>s. s)\<rparr>"

theorem invalid_definition_reported_once_witness:
  "\<exists>def. get_message_definition demo_conf
      (snd (get_message_definition demo_conf \<lparr>g_message_definition_paths = ''/m'', g_message_definitions = []\<rparr> ''PING''))
      ''PING''
    = (Inr def, snd (get_message_definition demo_conf
        \<lparr>g_message_definition_paths = ''/m'', g_message_definitions = []\<rparr> ''PING''))
     \<and> d_command def = ''PING''"
  by (rule invalid_definition_reported_once [where e = Invalid_parameter
        and st = "\<lparr>g_message_definition_paths = ''/m'', g_message_definitions = []\<rparr>"]) (code_simp+)

text \<open>
  \<^verbatim>\<open>check_parameters()\<close> accepts a message exactly when every definition is met:
  a required parameter is there, a forbidden one is not, an empty value is allowed by its
  flag, and any other value is valid for its type.
\<close>

theorem check_parameters_spec:
  "check_parameters val m defs \<longleftrightarrow>
     (\<forall>i < length defs.
        (has_flag (defs ! i) PARAMETER_FLAG_REQUIRED \<longrightarrow> map_of (f_parameters m) (p_name (defs ! i)) \<noteq> None) \<and>
        (\<forall>v. map_of (f_parameters m) (p_name (defs ! i)) = Some v \<longrightarrow>
           \<not> has_flag (defs ! i) PARAMETER_FLAG_FORBIDDEN \<and>
           (v = [] \<longrightarrow> has_flag (defs ! i) PARAMETER_FLAG_EMPTY) \<and>
           (v \<noteq> [] \<longrightarrow>
              (p_type (defs ! i) = PARAMETER_TYPE_INTEGER \<longrightarrow> valid_integer val v) \<and>
              (p_type (defs ! i) = PARAMETER_TYPE_ADDRESS \<longrightarrow> valid_address val v) \<and>
              (p_type (defs ! i) = PARAMETER_TYPE_TIMESPEC \<longrightarrow> valid_timespec val v))))"
proof -
  have one: "check_parameter val m p \<longleftrightarrow>
      (has_flag p PARAMETER_FLAG_REQUIRED \<longrightarrow> map_of (f_parameters m) (p_name p) \<noteq> None) \<and>
      (\<forall>v. map_of (f_parameters m) (p_name p) = Some v \<longrightarrow>
         \<not> has_flag p PARAMETER_FLAG_FORBIDDEN \<and>
         (v = [] \<longrightarrow> has_flag p PARAMETER_FLAG_EMPTY) \<and>
         (v \<noteq> [] \<longrightarrow>
            (p_type p = PARAMETER_TYPE_INTEGER \<longrightarrow> valid_integer val v) \<and>
            (p_type p = PARAMETER_TYPE_ADDRESS \<longrightarrow> valid_address val v) \<and>
            (p_type p = PARAMETER_TYPE_TIMESPEC \<longrightarrow> valid_timespec val v)))" for p
    by (cases "p_type p") (auto simp: check_parameter_def split: option.splits)
  show ?thesis
    by (simp only: check_parameters_iff all_set_conv_all_nth one)
qed

theorem check_parameters_spec_witness:
  "check_parameters \<lparr>valid_integer = (\<lambda>_. True), valid_address = (\<lambda>_. True), valid_timespec = (\<lambda>_. False)\<rparr>
     (new_message\<lparr>f_parameters := [(''k'', ''1'')]\<rparr>)
     [\<lparr>p_name = ''k'', p_type = PARAMETER_TYPE_INTEGER, p_flags = PARAMETER_FLAG_DEFAULT\<rparr>]"
  by (subst check_parameters_spec) (simp add: has_flag_def flag_defs new_message_def)

end
