(* ===== verification/Dispatcher.thy ===== *)
theory Dispatcher
  imports Message_Definition Message_Text
begin

text \<open>
  Matching received messages to handlers: \<^verbatim>\<open>dispatcher_match.cpp\<close>, \<^verbatim>\<open>dispatcher.cpp\<close> and
  \<^verbatim>\<open>dispatcher_support.cpp\<close>. The handlers are user code: a callback is a number, and what it
  does to the message and to the program's state \<open>'s\<close> is a field of \<open>dispatch_env\<close>.
\<close>

section \<open>Matches\<close>

datatype match_t = MATCH_FALSE | MATCH_TRUE | MATCH_CALLBACK

text \<open>The four match functions of the library, and a match function of the user.\<close>

datatype match_func_t =
    One_to_one_match | One_to_one_callback_match | Always_match | Callback_match | User_match nat

type_synonym tag_t = "32 word"

record dispatcher_match =
  f_expr :: "string option"
  f_callback :: "nat option"
  f_match :: match_func_t
  f_tag :: tag_t
  f_priority :: nat
  f_message_definition :: "message_definition option"

definition DISPATCHER_MATCH_NO_TAG :: tag_t where
  "DISPATCHER_MATCH_NO_TAG = 0"

definition DISPATCHER_MATCH_DEFAULT_PRIORITY :: nat where
  "DISPATCHER_MATCH_DEFAULT_PRIORITY = 7"

definition DISPATCHER_MATCH_SYSTEM_PRIORITY :: nat where
  "DISPATCHER_MATCH_SYSTEM_PRIORITY = 10"

definition DISPATCHER_MATCH_MAX_PRIORITY :: nat where
  "DISPATCHER_MATCH_MAX_PRIORITY = 15"

record 's dispatch_env =
  user_match :: "nat \<Rightarrow> string option \<Rightarrow> message \<Rightarrow> match_t \<times> message"
  run_callback :: "nat \<Rightarrow> message \<Rightarrow> 's \<Rightarrow> (message \<times> 's) result"
  conf :: conf_env
  vals :: validators
  replace :: replace_many

definition one_to_one_match :: "dispatcher_match \<Rightarrow> message \<Rightarrow> match_t" where
  "one_to_one_match m msg =
     (case f_expr m of
        None \<Rightarrow> MATCH_FALSE
      | Some e \<Rightarrow> if e = f_command msg then MATCH_TRUE else MATCH_FALSE)"

definition one_to_one_callback_match :: "dispatcher_match \<Rightarrow> message \<Rightarrow> match_t" where
  "one_to_one_callback_match m msg =
     (case f_expr m of
        None \<Rightarrow> MATCH_FALSE
      | Some e \<Rightarrow> if e = f_command msg then MATCH_CALLBACK else MATCH_FALSE)"

definition always_match :: "dispatcher_match \<Rightarrow> message \<Rightarrow> match_t" where
  "always_match m msg = MATCH_TRUE"

definition callback_match :: "dispatcher_match \<Rightarrow> message \<Rightarrow> match_t" where
  "callback_match m msg = MATCH_CALLBACK"

text \<open>The call through the pointer \<^verbatim>\<open>f_match\<close>; a user's function may change the message.\<close>

definition call_match :: "'s dispatch_env \<Rightarrow> dispatcher_match \<Rightarrow> message \<Rightarrow> match_t \<times> message" where
  "call_match env m msg =
     (case f_match m of
        One_to_one_match \<Rightarrow> (one_to_one_match m msg, msg)
      | One_to_one_callback_match \<Rightarrow> (one_to_one_callback_match m msg, msg)
      | Always_match \<Rightarrow> (always_match m msg, msg)
      | Callback_match \<Rightarrow> (callback_match m msg, msg)
      | User_match u \<Rightarrow> user_match env u (f_expr m) msg)"

text \<open>
  \<^verbatim>\<open>dispatcher_match::execute()\<close>: whether the search stops, the match with the definition it
  keeps from now on, the message and the state. A message that fails its definition is
  dropped (only a build with the address sanitizer throws).
\<close>

definition execute ::
    "'s dispatch_env \<Rightarrow> dispatcher_match \<Rightarrow> message \<Rightarrow> def_state \<Rightarrow> 's
       \<Rightarrow> (bool \<times> dispatcher_match \<times> message \<times> def_state \<times> 's) result" where
  "execute env m msg ds s =
     (case call_match env m msg of
        (r, msg1) \<Rightarrow>
          if r = MATCH_TRUE \<or> r = MATCH_CALLBACK then
            (case f_callback m of
               None \<Rightarrow> Inl Invalid_callback
             | Some cb \<Rightarrow>
                 let msg2 = mark_processed msg1;
                     def = (case f_message_definition m of
                        None \<Rightarrow> get_message_definition (conf env) ds (f_command msg2)
                      | Some d \<Rightarrow> (Inr d, ds))
                 in res_bind (fst def)
                   (\<lambda>d. res_bind
                      (if check_parameters (vals env) msg2 (d_parameters d)
                       then run_callback env cb msg2 s else Inr (msg2, s))
                      (\<lambda>(msg3, s'). Inr (r = MATCH_TRUE, m\<lparr>f_message_definition := Some d\<rparr>,
                          msg3, snd def, s'))))
          else Inr (False, m, msg1, ds, s))"

definition get_next_tag :: "tag_t \<Rightarrow> tag_t" where
  "get_next_tag g_tag =
     (let t = g_tag + 1 in if t = DISPATCHER_MATCH_NO_TAG then 1 else t)"

text \<open>\<^verbatim>\<open>define_match()\<close>: the arguments left out take the default of their class.\<close>

definition define_match ::
    "string option \<Rightarrow> nat option \<Rightarrow> match_func_t \<Rightarrow> tag_t \<Rightarrow> nat \<Rightarrow> dispatcher_match result" where
  "define_match expr callback func tag priority =
     (let expr' = (if expr = Some [] then None else expr) in
      if callback = None then Inl Parameter_error
      else if func = One_to_one_match \<and> expr' = None then Inl Parameter_error
      else if priority > DISPATCHER_MATCH_MAX_PRIORITY then Inl Parameter_error
      else Inr \<lparr>f_expr = expr', f_callback = callback, f_match = func, f_tag = tag,
             f_priority = priority, f_message_definition = None\<rparr>)"

section \<open>The dispatcher\<close>

record dispatcher =
  f_matches :: "dispatcher_match list"
  f_end :: dispatcher_match
  f_trace :: bool
  f_show_matches :: bool

definition no_match :: dispatcher_match where
  "no_match = \<lparr>f_expr = None, f_callback = None, f_match = One_to_one_match,
     f_tag = DISPATCHER_MATCH_NO_TAG, f_priority = DISPATCHER_MATCH_DEFAULT_PRIORITY,
     f_message_definition = None\<rparr>"

definition new_dispatcher :: dispatcher where
  "new_dispatcher = \<lparr>f_matches = [], f_end = no_match, f_trace = False, f_show_matches = False\<rparr>"

text \<open>\<^verbatim>\<open>find_if\<close> for the first entry with a larger priority, then \<^verbatim>\<open>insert\<close> in front of it.\<close>

fun insert_match :: "dispatcher_match \<Rightarrow> dispatcher_match list \<Rightarrow> dispatcher_match list" where
  "insert_match m [] = [m]"
| "insert_match m (i # is) =
     (if f_priority m < f_priority i then m # i # is else i # insert_match m is)"

definition add_match :: "dispatcher \<Rightarrow> dispatcher_match \<Rightarrow> dispatcher result" where
  "add_match d m =
     (if f_match m = Always_match then
        (if f_callback (f_end d) \<noteq> None then Inl Implementation_error
         else Inr (d\<lparr>f_end := m\<rparr>))
      else Inr (d\<lparr>f_matches := insert_match m (f_matches d)\<rparr>))"

fun add_matches :: "dispatcher \<Rightarrow> dispatcher_match list \<Rightarrow> dispatcher result" where
  "add_matches d [] = Inr d"
| "add_matches d (m # ms) = res_bind (add_match d m) (\<lambda>d'. add_matches d' ms)"

definition remove_matches :: "dispatcher \<Rightarrow> tag_t \<Rightarrow> dispatcher" where
  "remove_matches d tag =
     (if tag = DISPATCHER_MATCH_NO_TAG then d
      else d\<lparr>f_matches := filter (\<lambda>m. f_tag m \<noteq> tag) (f_matches d)\<rparr>)"

text \<open>The commands of \<^verbatim>\<open>add_communicator_commands()\<close>, with the method each one is bound to.\<close>

definition communicator_commands :: "string list" where
  "communicator_commands =
     [''ALIVE'', ''HELP'', ''INVALID'', ''LEAK'', ''LOG_ROTATE'', ''QUITTING'', ''READY'',
      ''RESTART'', ''SERVICE_UNAVAILABLE'', ''STOP'', ''UNKNOWN'']"

fun define_all :: "(string \<times> nat) list \<Rightarrow> dispatcher_match list result" where
  "define_all [] = Inr []"
| "define_all ((cmd, cb) # cs) =
     res_bind (define_match (Some cmd) (Some cb) One_to_one_match DISPATCHER_MATCH_NO_TAG
         DISPATCHER_MATCH_SYSTEM_PRIORITY)
       (\<lambda>m. res_bind (define_all cs) (\<lambda>ms. Inr (m # ms)))"

definition define_catch_all :: "nat \<Rightarrow> dispatcher_match result" where
  "define_catch_all cb =
     define_match None (Some cb) Always_match DISPATCHER_MATCH_NO_TAG DISPATCHER_MATCH_DEFAULT_PRIORITY"

text \<open>\<open>method\<close> gives the callback bound to each command; \<open>unknown\<close> is \<^verbatim>\<open>msg_reply_with_unknown\<close>.\<close>

definition add_communicator_commands ::
    "(string \<Rightarrow> nat) \<Rightarrow> nat \<Rightarrow> dispatcher \<Rightarrow> bool \<Rightarrow> dispatcher result" where
  "add_communicator_commands method unknown d auto_catch_all =
     res_bind (define_all (map (\<lambda>c. (c, method c)) communicator_commands))
       (\<lambda>ms. res_bind (add_matches d ms)
          (\<lambda>d'. if auto_catch_all then res_bind (define_catch_all unknown) (add_match d') else Inr d'))"

text \<open>The loop of \<^verbatim>\<open>dispatch()\<close> over \<^verbatim>\<open>f_matches\<close>, which updates the entries it visits.\<close>

fun dispatch_loop ::
    "'s dispatch_env \<Rightarrow> dispatcher_match list \<Rightarrow> message \<Rightarrow> def_state \<Rightarrow> 's
       \<Rightarrow> (bool \<times> dispatcher_match list \<times> message \<times> def_state \<times> 's) result" where
  "dispatch_loop env [] msg ds s = Inr (False, [], msg, ds, s)"
| "dispatch_loop env (m # ms) msg ds s =
     res_bind (execute env m msg ds s)
       (\<lambda>(stop, m', msg', ds', s').
          if stop then Inr (True, m' # ms, msg', ds', s')
          else res_bind (dispatch_loop env ms msg' ds' s')
            (\<lambda>(stop', ms', rest). Inr (stop', m' # ms', rest)))"

definition dispatch ::
    "'s dispatch_env \<Rightarrow> dispatcher \<Rightarrow> message \<Rightarrow> def_state \<Rightarrow> 's
       \<Rightarrow> (bool \<times> dispatcher \<times> message \<times> def_state \<times> 's) result" where
  "dispatch env d msg ds s =
     res_bind
       (if f_trace d then
          (case to_string (replace env) msg of
             (Inl e, _) \<Rightarrow> Inl e
           | (Inr _, msg') \<Rightarrow> Inr msg')
        else Inr msg)
       (\<lambda>msg0. res_bind (dispatch_loop env (f_matches d) msg0 ds s)
          (\<lambda>(stop, ms, msg1, ds1, s1).
             let d1 = d\<lparr>f_matches := ms\<rparr> in
             if stop then Inr (True, d1, msg1, ds1, s1)
             else if f_processed msg1 then Inr (True, d1, msg1, ds1, s1)
             else if f_callback (f_end d) \<noteq> None then
               res_bind (execute env (f_end d) msg1 ds1 s1)
                 (\<lambda>(r, e, msg2, ds2, s2). Inr (r, d1\<lparr>f_end := e\<rparr>, msg2, ds2, s2))
             else Inr (False, d1, msg1, ds1, s1)))"

text \<open>
  \<^verbatim>\<open>get_commands()\<close>: the commands of the one to one matches added to the set, and whether the
  user has to complete the list.
\<close>

definition get_commands :: "dispatcher \<Rightarrow> string list \<Rightarrow> bool \<times> string list" where
  "get_commands d commands =
     fold (\<lambda>m (help, cs).
        case f_expr m of
          None \<Rightarrow> (help \<or> (f_match m \<noteq> Always_match \<and> f_match m \<noteq> Callback_match), cs)
        | Some e \<Rightarrow>
            if f_match m = One_to_one_match \<or> f_match m = One_to_one_callback_match
            then (help, List.insert e cs) else (True, cs))
       (f_matches d) (f_callback (f_end d) \<noteq> None, commands)"

text \<open>\<^verbatim>\<open>dispatcher_support::dispatch_message()\<close>: the base \<^verbatim>\<open>process_message()\<close> is the argument
  \<open>process\<close>, since a class may override it.\<close>

definition process_message :: "replace_many \<Rightarrow> message \<Rightarrow> 'a result" where
  "process_message rep msg =
     (case fst (to_string rep msg) of Inl e \<Rightarrow> Inl e | Inr _ \<Rightarrow> Inl Implementation_error)"

definition dispatch_message ::
    "'s dispatch_env \<Rightarrow> (message \<Rightarrow> 's \<Rightarrow> (message \<times> 's) result) \<Rightarrow> dispatcher option
       \<Rightarrow> message \<Rightarrow> def_state \<Rightarrow> 's
       \<Rightarrow> (bool \<times> dispatcher option \<times> message \<times> def_state \<times> 's) result" where
  "dispatch_message env process dopt msg ds s =
     res_bind
       (case dopt of
          None \<Rightarrow> Inr (False, None, msg, ds, s)
        | Some d \<Rightarrow> res_bind (dispatch env d msg ds s)
            (\<lambda>(r, d', rest). Inr (r, Some d', rest)))
       (\<lambda>(r, d', msg', ds', s').
          if r then Inr (True, d', msg', ds', s')
          else res_bind (process msg' s') (\<lambda>(msg'', s''). Inr (False, d', msg'', ds', s'')))"

section \<open>The order of the matches\<close>

definition matches_ordered :: "dispatcher \<Rightarrow> bool" where
  "matches_ordered d \<longleftrightarrow> sorted (map f_priority (f_matches d))
     \<and> (\<forall>m \<in> set (f_matches d). f_match m \<noteq> Always_match)
     \<and> (f_callback (f_end d) \<noteq> None \<longrightarrow> f_match (f_end d) = Always_match)"

lemma set_insert_match: "set (insert_match m xs) = insert m (set xs)"
  by (induction xs) auto

lemma sorted_insert_match:
  "sorted (map f_priority xs) \<Longrightarrow> sorted (map f_priority (insert_match m xs))"
  by (induction xs) (auto simp: set_insert_match)

lemma insert_match_stable:
  "sorted (map f_priority xs) \<Longrightarrow>
     filter (\<lambda>i. f_priority i = p) (insert_match m xs) =
     filter (\<lambda>i. f_priority i = p) xs @ (if f_priority m = p then [m] else [])"
proof (induction xs)
  case (Cons i xs)
  show ?case
  proof (cases "f_priority m < f_priority i")
    case True
    with Cons.prems have "\<forall>x \<in> set (i # xs). f_priority x \<noteq> f_priority m" by auto
    then have "filter (\<lambda>x. f_priority x = f_priority m) (i # xs) = []"
      by (simp only: filter_empty_conv simp_thms)
    with True show ?thesis by auto
  next
    case False
    with Cons show ?thesis by auto
  qed
qed simp

lemma add_match_ordered:
  "matches_ordered d \<Longrightarrow> add_match d m = Inr d' \<Longrightarrow> matches_ordered d'"
  by (auto simp: matches_ordered_def add_match_def sorted_insert_match set_insert_match split: if_splits)

lemma remove_matches_ordered: "matches_ordered d \<Longrightarrow> matches_ordered (remove_matches d tag)"
  by (auto simp: matches_ordered_def remove_matches_def intro: sorted_filter)

lemma new_dispatcher_ordered: "matches_ordered new_dispatcher"
  by (simp add: matches_ordered_def new_dispatcher_def no_match_def)

lemma add_matches_ordered:
  "matches_ordered d \<Longrightarrow> add_matches d ms = Inr d' \<Longrightarrow> matches_ordered d'"
  by (induction ms arbitrary: d) (auto simp: res_bind_eq_Inr dest: add_match_ordered)

lemma add_matches_stable:
  assumes "matches_ordered d" and "add_matches d ms = Inr d'"
  shows "filter (\<lambda>i. f_priority i = p) (f_matches d') =
     filter (\<lambda>i. f_priority i = p) (f_matches d)
       @ filter (\<lambda>i. f_priority i = p \<and> f_match i \<noteq> Always_match) ms"
  using assms
proof (induction ms arbitrary: d)
  case (Cons m ms)
  then obtain d1 where d1: "add_match d m = Inr d1" and "add_matches d1 ms = Inr d'"
    by (auto simp: res_bind_eq_Inr)
  moreover have "matches_ordered d1" using Cons.prems(1) d1 by (rule add_match_ordered)
  ultimately show ?case
    using Cons.IH [of d1] Cons.prems(1)
    by (auto simp: add_match_def matches_ordered_def insert_match_stable split: if_splits)
qed simp

section \<open>Which handlers run\<close>

text \<open>
  The abstract view: what a library match says of a command, and the handlers a command
  reaches, in order, up to the first one that stops the search.
\<close>

definition matched :: "string \<Rightarrow> dispatcher_match \<Rightarrow> match_t" where
  "matched cmd m =
     (case f_match m of
        One_to_one_match \<Rightarrow> if f_expr m = Some cmd then MATCH_TRUE else MATCH_FALSE
      | One_to_one_callback_match \<Rightarrow> if f_expr m = Some cmd then MATCH_CALLBACK else MATCH_FALSE
      | Always_match \<Rightarrow> MATCH_TRUE
      | Callback_match \<Rightarrow> MATCH_CALLBACK
      | User_match u \<Rightarrow> MATCH_FALSE)"

fun reached :: "string \<Rightarrow> dispatcher_match list \<Rightarrow> dispatcher_match list" where
  "reached cmd [] = []"
| "reached cmd (m # ms) =
     (case matched cmd m of
        MATCH_FALSE \<Rightarrow> reached cmd ms
      | MATCH_TRUE \<Rightarrow> [m]
      | MATCH_CALLBACK \<Rightarrow> m # reached cmd ms)"

definition library_match :: "dispatcher_match \<Rightarrow> bool" where
  "library_match m \<longleftrightarrow> (case f_match m of User_match u \<Rightarrow> False | _ \<Rightarrow> True)"

text \<open>A callback gets the message by reference; here it may change its parameters but
  neither its command nor the mark that it was processed.\<close>

definition keeps_command :: "'s dispatch_env \<Rightarrow> bool" where
  "keeps_command env \<longleftrightarrow>
     (\<forall>cb msg s msg' s'. run_callback env cb msg s = Inr (msg', s') \<longrightarrow>
        f_command msg' = f_command msg \<and> f_processed msg' = f_processed msg)"

definition drop_matches ::
    "(bool \<times> 'm \<times> message \<times> def_state \<times> 's) result \<Rightarrow> (bool \<times> message \<times> def_state \<times> 's) result" where
  "drop_matches r = res_bind r (\<lambda>(stop, ms, rest). Inr (stop, rest))"

lemma drop_matches_simps [simp]:
  "drop_matches (Inl e) = Inl e"
  "drop_matches (Inr (stop, ms, rest)) = Inr (stop, rest)"
  by (simp_all add: drop_matches_def)

lemma call_match_library:
  "library_match m \<Longrightarrow> call_match env m msg = (matched (f_command msg) m, msg)"
  by (cases "f_match m")
     (auto simp: call_match_def matched_def library_match_def one_to_one_match_def
        one_to_one_callback_match_def always_match_def callback_match_def split: option.splits)

lemma execute_skip:
  "library_match m \<Longrightarrow> matched (f_command msg) m = MATCH_FALSE \<Longrightarrow>
     execute env m msg ds s = Inr (False, m, msg, ds, s)"
  by (simp add: execute_def call_match_library)

lemma execute_cases:
  assumes "library_match m" and "matched (f_command msg) m \<noteq> MATCH_FALSE"
    and "execute env m msg ds s = Inr (stop, m', msg', ds', s')"
  shows "(stop \<longleftrightarrow> matched (f_command msg) m = MATCH_TRUE) \<and>
     (\<exists>cb. f_callback m = Some cb \<and>
       (msg' = mark_processed msg \<or> run_callback env cb (mark_processed msg) s = Inr (msg', s')))"
proof -
  from assms(2) have "matched (f_command msg) m = MATCH_TRUE \<or> matched (f_command msg) m = MATCH_CALLBACK"
    by (cases "matched (f_command msg) m") auto
  with assms(1,3) show ?thesis
    by (auto simp: execute_def call_match_library Let_def res_bind_eq_Inr
        split: option.splits if_splits)
qed

lemma keeps_commandD:
  "keeps_command env \<Longrightarrow> run_callback env cb (mark_processed msg) s = Inr (msg', s') \<Longrightarrow>
     f_command msg' = f_command msg \<and> f_processed msg'"
  by (fastforce simp: keeps_command_def mark_processed_def)

lemma execute_run:
  assumes "library_match m" and "matched (f_command msg) m \<noteq> MATCH_FALSE"
    and "keeps_command env" and "execute env m msg ds s = Inr (stop, m', msg', ds', s')"
  shows "stop \<longleftrightarrow> matched (f_command msg) m = MATCH_TRUE" and "f_command msg' = f_command msg"
    and "f_processed msg'"
  using execute_cases [OF assms(1,2,4)] keeps_commandD [OF assms(3)]
  by (auto simp: mark_processed_def)

lemma dispatch_loop_Cons:
  "drop_matches (dispatch_loop env (m # ms) msg ds s) =
     res_bind (execute env m msg ds s)
       (\<lambda>(stop, m', msg', ds', s').
          if stop then Inr (True, msg', ds', s') else drop_matches (dispatch_loop env ms msg' ds' s'))"
  by (cases "execute env m msg ds s")
     (auto simp: drop_matches_def res_bind_def split: sum.split prod.split)

lemma dispatch_loop_reached:
  assumes "\<forall>m \<in> set ms. library_match m" and "keeps_command env"
  shows "drop_matches (dispatch_loop env (reached (f_command msg) ms) msg ds s)
       = drop_matches (dispatch_loop env ms msg ds s)"
  using assms(1)
proof (induction ms arbitrary: msg ds s)
  case (Cons m ms)
  note lib = Cons.prems [simplified]
  have rest: "drop_matches (dispatch_loop env (reached (f_command msg) ms) msg' ds' s')
      = drop_matches (dispatch_loop env ms msg' ds' s')"
    if "f_command msg' = f_command msg" for msg' ds' s'
    using Cons.IH [of msg' ds' s'] lib that by simp
  show ?case
  proof (cases "matched (f_command msg) m")
    case MATCH_FALSE
    with lib rest show ?thesis
      by (simp add: dispatch_loop_Cons execute_skip del: dispatch_loop.simps(2))
  next
    case MATCH_TRUE
    with lib assms(2) execute_run(1) [of m msg env ds s] show ?thesis
      by (cases "execute env m msg ds s") (auto simp: dispatch_loop_Cons simp del: dispatch_loop.simps(2))
  next
    case MATCH_CALLBACK
    with lib assms(2) rest execute_run(2) [of m msg env ds s] show ?thesis
      by (cases "execute env m msg ds s") (auto simp: dispatch_loop_Cons simp del: dispatch_loop.simps(2))
  qed
qed simp

lemma dispatch_loop_result:
  assumes "\<forall>m \<in> set ms. library_match m" and "keeps_command env"
    and "dispatch_loop env ms msg ds s = Inr (stop, ms', msg', ds', s')"
  shows "f_command msg' = f_command msg \<and>
     (f_processed msg' \<longleftrightarrow> f_processed msg \<or> reached (f_command msg) ms \<noteq> []) \<and>
     (stop \<longrightarrow> reached (f_command msg) ms \<noteq> [])"
  using assms(1,3)
proof (induction ms arbitrary: msg ds s ms')
  case (Cons m ms)
  from Cons.prems(2) obtain st m1 msg1 ds1 s1
    where ex: "execute env m msg ds s = Inr (st, m1, msg1, ds1, s1)"
      and next_: "st \<Longrightarrow> stop \<and> msg' = msg1"
        "\<not> st \<Longrightarrow> \<exists>ms1. dispatch_loop env ms msg1 ds1 s1 = Inr (stop, ms1, msg', ds', s')"
    by (auto simp: res_bind_eq_Inr split: if_splits)
  have lib: "library_match m" "\<forall>m \<in> set ms. library_match m" using Cons.prems(1) by auto
  note IH = Cons.IH [OF lib(2), of msg1 ds1 s1]
  show ?case
  proof (cases "matched (f_command msg) m = MATCH_FALSE")
    case True
    with ex execute_skip [OF lib(1), of msg env ds s] have "\<not> st" "msg1 = msg" by auto
    with True next_(2) IH show ?thesis by auto
  next
    case False
    with next_ IH execute_run [OF lib(1) _ assms(2) ex] show ?thesis
      by (cases "matched (f_command msg) m") auto
  qed
qed simp

section \<open>Properties\<close>

text \<open>
  Registering handlers keeps \<^verbatim>\<open>f_matches\<close> ordered by priority, never lets a
  catch-all into it, and handlers of the same priority stay in the order they were added.
\<close>

theorem add_matches_priority_order:
  assumes "matches_ordered d" and "add_matches d ms = Inr d'"
  shows "matches_ordered d' \<and>
     (\<forall>p. filter (\<lambda>i. f_priority i = p) (f_matches d') =
        filter (\<lambda>i. f_priority i = p) (f_matches d)
          @ filter (\<lambda>i. f_priority i = p \<and> f_match i \<noteq> Always_match) ms)"
  using add_matches_ordered [OF assms] add_matches_stable [OF assms] by blast

definition demo_match :: "string \<Rightarrow> nat \<Rightarrow> nat \<Rightarrow> dispatcher_match" where
  "demo_match cmd cb prio = no_match\<lparr>f_expr := Some cmd, f_callback := Some cb, f_priority := prio\<rparr>"

definition demo_dispatcher :: dispatcher where
  "demo_dispatcher = new_dispatcher\<lparr>f_matches :=
     [demo_match ''PING'' 1 3, demo_match ''STOP'' 0 7, demo_match ''PING'' 2 7]\<rparr>"

theorem add_matches_priority_order_witness:
  "matches_ordered demo_dispatcher \<and>
     (\<forall>p. filter (\<lambda>i. f_priority i = p) (f_matches demo_dispatcher) =
        filter (\<lambda>i. f_priority i = p) (f_matches new_dispatcher)
          @ filter (\<lambda>i. f_priority i = p \<and> f_match i \<noteq> Always_match)
              [demo_match ''STOP'' 0 7, demo_match ''PING'' 1 3, demo_match ''PING'' 2 7])"
  by (rule add_matches_priority_order [OF new_dispatcher_ordered])
     (simp add: demo_match_def demo_dispatcher_def add_match_def new_dispatcher_def no_match_def)


definition demo_env :: "nat list dispatch_env" where
  "demo_env = \<lparr>user_match = (\<lambda>_ _ m. (MATCH_FALSE, m)), run_callback = (\<lambda>c m s. Inr (m, s @ [c])),
     conf = demo_conf,
     vals = \<lparr>valid_integer = (\<lambda>_. True), valid_address = (\<lambda>_. True), valid_timespec = (\<lambda>_. True)\<rparr>,
     replace = scan_replace\<rparr>"

lemma demo_env_keeps: "keeps_command demo_env"
  by (simp add: keeps_command_def demo_env_def)

lemma demo_dispatcher_library: "\<forall>m \<in> set (f_matches demo_dispatcher). library_match m"
  by (simp add: demo_dispatcher_def demo_match_def no_match_def library_match_def)

definition demo_ping :: message where
  "demo_ping = new_message\<lparr>f_command := ''PING''\<rparr>"

definition demo_defs :: def_state where
  "demo_defs = \<lparr>g_message_definition_paths = ''/m'',
     g_message_definitions = [(''PING'', \<lparr>d_command = ''PING'', d_parameters = []\<rparr>)]\<rparr>"


text \<open>
  A dispatch that does not throw says the message was handled exactly when a
  handler was reached, the message had been processed before, or there is a catch-all.
\<close>

theorem dispatch_handled:
  assumes "matches_ordered d" and "\<forall>m \<in> set (f_matches d). library_match m"
    and "keeps_command env" and "\<not> f_trace d"
    and "dispatch env d msg ds s = Inr (r, d', msg', ds', s')"
  shows "r \<longleftrightarrow> reached (f_command msg) (f_matches d) \<noteq> [] \<or> f_processed msg \<or> f_callback (f_end d) \<noteq> None"
proof -
  from assms(4,5) obtain stop ms msg1 ds1 s1
    where loop: "dispatch_loop env (f_matches d) msg ds s = Inr (stop, ms, msg1, ds1, s1)"
      and r: "if stop \<or> f_processed msg1 then r
        else if f_callback (f_end d) \<noteq> None
        then (\<exists>e d2 s2. execute env (f_end d) msg1 ds1 s1 = Inr (r, e, msg', d2, s2)) else \<not> r"
    by (auto simp: dispatch_def Let_def res_bind_eq_Inr split: if_splits)
  have "r" if "execute env (f_end d) msg1 ds1 s1 = Inr (r, e, msg', d2, s2)"
    and "f_callback (f_end d) \<noteq> None" for e d2 s2
  proof -
    have "f_match (f_end d) = Always_match" using assms(1) that(2) by (simp add: matches_ordered_def)
    then have "library_match (f_end d)" "matched (f_command msg1) (f_end d) = MATCH_TRUE"
      by (simp_all add: library_match_def matched_def)
    with execute_run(1) [OF _ _ assms(3) that(1)] show ?thesis by simp
  qed
  with r dispatch_loop_result [OF assms(2,3) loop] show ?thesis
    by (auto split: if_splits)
qed

lemma demo_dispatcher_ordered: "matches_ordered demo_dispatcher"
  by (simp add: matches_ordered_def demo_dispatcher_def demo_match_def new_dispatcher_def no_match_def)

theorem dispatch_handled_witness:
  "case dispatch demo_env demo_dispatcher demo_ping demo_defs [] of
     Inl e \<Rightarrow> False
   | Inr (r, d', msg', ds', s') \<Rightarrow>
       r \<longleftrightarrow> reached (f_command demo_ping) (f_matches demo_dispatcher) \<noteq> [] \<or> f_processed demo_ping
         \<or> f_callback (f_end demo_dispatcher) \<noteq> None"
proof -
  have "case dispatch demo_env demo_dispatcher demo_ping demo_defs [] of
      Inl e \<Rightarrow> False | Inr (r, d', msg', ds', s') \<Rightarrow> s' = [1]"
    by code_simp
  moreover have "\<not> f_trace demo_dispatcher" by (simp add: demo_dispatcher_def new_dispatcher_def)
  ultimately show ?thesis
    using dispatch_handled [OF demo_dispatcher_ordered demo_dispatcher_library demo_env_keeps]
    by (auto split: sum.splits prod.splits)
qed

text \<open>
  A match keeps the definition of the first command it handled. An entry that takes
  any command (\<^verbatim>\<open>callback_match\<close>, \<^verbatim>\<open>always_match\<close>) therefore checks every later message against
  that first definition, and drops a message of another command that does not meet it without
  looking its own definition up.
\<close>

theorem match_keeps_first_definition:
  assumes "library_match m" and "f_message_definition m = None"
    and "matched (f_command msg) m \<noteq> MATCH_FALSE"
    and "execute env m msg ds s = Inr (stop, m', msg', ds', s')"
  shows "\<exists>d. get_message_definition (conf env) ds (f_command msg) = (Inr d, ds') \<and>
     (\<forall>msg2 ds2 s2. matched (f_command msg2) m = MATCH_CALLBACK \<longrightarrow>
        \<not> check_parameters (vals env) msg2 (d_parameters d) \<longrightarrow>
        execute env m' msg2 ds2 s2 = Inr (False, m', mark_processed msg2, ds2, s2))"
proof -
  obtain cb where cb: "f_callback m = Some cb" using execute_cases [OF assms(1,3,4)] by blast
  have mt: "matched (f_command msg) m = MATCH_TRUE \<or> matched (f_command msg) m = MATCH_CALLBACK"
    using assms(3) by (cases "matched (f_command msg) m") auto
  have cmd: "f_command (mark_processed x) = f_command x" for x by (simp add: mark_processed_def)
  obtain d where d: "get_message_definition (conf env) ds (f_command msg) = (Inr d, ds')"
      "m' = m\<lparr>f_message_definition := Some d\<rparr>"
    using assms(4) cb mt
    by (cases "get_message_definition (conf env) ds (f_command msg)")
       (auto simp: execute_def call_match_library [OF assms(1)] assms(2) cmd Let_def res_bind_eq_Inr)
  have m': "library_match m'" "matched c m' = matched c m" "f_callback m' = Some cb" for c
    using assms(1) cb by (simp_all add: d library_match_def matched_def)
  have params: "check_parameters v (mark_processed x) ps = check_parameters v x ps" for v x ps
    by (simp add: check_parameters_iff check_parameter_def mark_processed_def)
  have "execute env m' msg2 ds2 s2 = Inr (False, m', mark_processed msg2, ds2, s2)"
    if "matched (f_command msg2) m = MATCH_CALLBACK"
      "\<not> check_parameters (vals env) msg2 (d_parameters d)" for msg2 ds2 s2
    using that m' params by (simp add: execute_def call_match_library d(2))
  with d(1) show ?thesis by blast
qed

definition demo_any :: dispatcher_match where
  "demo_any = no_match\<lparr>f_callback := Some 4, f_match := Callback_match\<rparr>"

theorem match_keeps_first_definition_witness:
  "\<exists>d ds'. get_message_definition (conf demo_env) demo_defs (f_command demo_ping) = (Inr d, ds') \<and>
     (\<forall>msg2 ds2 s2. matched (f_command msg2) demo_any = MATCH_CALLBACK \<longrightarrow>
        \<not> check_parameters (vals demo_env) msg2 (d_parameters d) \<longrightarrow>
        execute demo_env (demo_any\<lparr>f_message_definition := Some \<lparr>d_command = ''PING'', d_parameters = []\<rparr>\<rparr>) msg2 ds2 s2
        = Inr (False, demo_any\<lparr>f_message_definition := Some \<lparr>d_command = ''PING'', d_parameters = []\<rparr>\<rparr>,
            mark_processed msg2, ds2, s2))"
proof -
  have run: "execute demo_env demo_any demo_ping demo_defs [] =
      Inr (False, demo_any\<lparr>f_message_definition := Some \<lparr>d_command = ''PING'', d_parameters = []\<rparr>\<rparr>,
        mark_processed demo_ping, demo_defs, [4])"
    by code_simp
  have "library_match demo_any" "f_message_definition demo_any = None"
      "matched (f_command demo_ping) demo_any \<noteq> MATCH_FALSE"
    by (simp_all add: demo_any_def no_match_def library_match_def matched_def)
  from match_keeps_first_definition [OF this run] show ?thesis by blast
qed

definition system_match :: "(string \<Rightarrow> nat) \<Rightarrow> string \<Rightarrow> dispatcher_match" where
  "system_match method c = no_match\<lparr>f_expr := Some c, f_callback := Some (method c),
     f_priority := DISPATCHER_MATCH_SYSTEM_PRIORITY\<rparr>"

lemma define_all_Inr:
  "[] \<notin> set cs \<Longrightarrow> define_all (map (\<lambda>c. (c, method c)) cs) = Inr (map (system_match method) cs)"
  by (induction cs) (auto simp: define_match_def no_match_def system_match_def
      DISPATCHER_MATCH_SYSTEM_PRIORITY_def DISPATCHER_MATCH_MAX_PRIORITY_def)

lemma insert_match_last: "\<forall>i \<in> set xs. f_priority i \<le> f_priority m \<Longrightarrow> insert_match m xs = xs @ [m]"
  by (induction xs) auto

lemma add_matches_last:
  "\<forall>i \<in> set (f_matches d). f_priority i \<le> DISPATCHER_MATCH_SYSTEM_PRIORITY \<Longrightarrow>
     add_matches d (map (system_match method) cs)
       = Inr (d\<lparr>f_matches := f_matches d @ map (system_match method) cs\<rparr>)"
proof (induction cs arbitrary: d)
  case (Cons c cs)
  then have "add_match d (system_match method c)
      = Inr (d\<lparr>f_matches := f_matches d @ [system_match method c]\<rparr>)"
    by (simp add: add_match_def system_match_def no_match_def insert_match_last)
  moreover have "\<forall>i \<in> set (f_matches (d\<lparr>f_matches := f_matches d @ [system_match method c]\<rparr>)).
      f_priority i \<le> DISPATCHER_MATCH_SYSTEM_PRIORITY"
    using Cons.prems by (auto simp: system_match_def)
  ultimately show ?case using Cons.IH by simp
qed simp

lemma reached_append:
  "reached cmd (xs @ ys) =
     reached cmd xs @ (if \<exists>m \<in> set xs. matched cmd m = MATCH_TRUE then [] else reached cmd ys)"
  by (induction xs) (auto split: match_t.split)

lemma matched_system: "matched cmd (system_match method c) = (if cmd = c then MATCH_TRUE else MATCH_FALSE)"
  by (auto simp: matched_def system_match_def no_match_def)

lemma reached_system:
  "reached cmd (map (system_match method) cs) = (if cmd \<in> set cs then [system_match method cmd] else [])"
  by (induction cs) (auto simp: matched_system)

lemma add_communicator_commands_matches:
  assumes "\<forall>i \<in> set (f_matches d). f_priority i \<le> DISPATCHER_MATCH_SYSTEM_PRIORITY"
    and "add_communicator_commands method unknown d auto = Inr d'"
  shows "f_matches d' = f_matches d @ map (system_match method) communicator_commands"
proof -
  have "[] \<notin> set communicator_commands" by (simp add: communicator_commands_def)
  with assms show ?thesis
    by (auto simp: add_communicator_commands_def define_all_Inr add_matches_last define_catch_all_def
        define_match_def Let_def add_match_def DISPATCHER_MATCH_DEFAULT_PRIORITY_def
        DISPATCHER_MATCH_MAX_PRIORITY_def split: if_splits)
qed

text \<open>
  The default commands are handled behind the program's own. When its handlers
  have at most the system priority, a command still reaches all of them it did before, and it
  reaches the default handler of that command exactly when none of them stopped the search.
\<close>

theorem default_commands_behind_user_handlers:
  assumes "\<forall>i \<in> set (f_matches d). f_priority i \<le> DISPATCHER_MATCH_SYSTEM_PRIORITY"
    and "add_communicator_commands method unknown d auto = Inr d'"
  shows "map f_callback (reached cmd (f_matches d')) =
     map f_callback (reached cmd (f_matches d)) @
       (if cmd \<in> set communicator_commands \<and> (\<forall>m \<in> set (f_matches d). matched cmd m \<noteq> MATCH_TRUE)
        then [Some (method cmd)] else [])"
  by (auto simp: add_communicator_commands_matches [OF assms] reached_append reached_system system_match_def)

definition demo_default_dispatcher :: "dispatcher" where
  "demo_default_dispatcher = demo_dispatcher\<lparr>
     f_matches := f_matches demo_dispatcher @ map (system_match size) communicator_commands,
     f_end := no_match\<lparr>f_callback := Some 99, f_match := Always_match\<rparr>\<rparr>"

theorem default_commands_behind_user_handlers_witness:
  "map f_callback (reached ''HELP'' (f_matches demo_default_dispatcher)) =
     map f_callback (reached ''HELP'' (f_matches demo_dispatcher)) @
       (if ''HELP'' \<in> set communicator_commands
           \<and> (\<forall>m \<in> set (f_matches demo_dispatcher). matched ''HELP'' m \<noteq> MATCH_TRUE)
        then [Some (length ''HELP'')] else [])"
proof (rule default_commands_behind_user_handlers)
  show "\<forall>i \<in> set (f_matches demo_dispatcher). f_priority i \<le> DISPATCHER_MATCH_SYSTEM_PRIORITY"
    by code_simp
  show "add_communicator_commands size 99 demo_dispatcher True = Inr demo_default_dispatcher"
    by code_simp
qed

end
