(* ===== verification/Connection.thy ===== *)
theory Connection
  imports Prelude "HOL-Library.Signed_Division"
begin

text \<open>
  The state every connection carries: \<^verbatim>\<open>connection.cpp\<close>, \<^verbatim>\<open>connection.h\<close> and \<^verbatim>\<open>timer.cpp\<close>. Dates
  are \<^verbatim>\<open>std::int64_t\<close> microseconds, modelled as \<open>int\<close>; a signed operation that leaves the 64
  bit range is undefined in C++ and is the failure \<open>Undefined_behaviour\<close> here. The current
  date is an argument: what \<^verbatim>\<open>get_current_date()\<close> returned.
\<close>

section \<open>Checked 64 bit arithmetic\<close>

definition i64_range :: "int \<Rightarrow> bool" where
  "i64_range x \<longleftrightarrow> - (2 ^ 63) \<le> x \<and> x < 2 ^ 63"

definition checked :: "int \<Rightarrow> int result" where
  "checked x = (if i64_range x then Inr x else Inl Undefined_behaviour)"

lemma checked_in_range: "i64_range x \<Longrightarrow> checked x = Inr x"
  by (simp add: checked_def)

lemma checked_eq_Inr [simp]: "checked x = Inr y \<longleftrightarrow> i64_range x \<and> y = x"
  by (auto simp: checked_def)

lemma i64_rangeI: "\<bar>x\<bar> < 2 ^ 63 \<Longrightarrow> i64_range x"
  by (auto simp: i64_range_def)

section \<open>The connection\<close>

definition EVENT_MIN_PRIORITY :: int where "EVENT_MIN_PRIORITY = 0"
definition EVENT_DEFAULT_PRIORITY :: int where "EVENT_DEFAULT_PRIORITY = 100"
definition EVENT_MAX_PRIORITY :: int where "EVENT_MAX_PRIORITY = 255"

record connection =
  f_name :: string
  f_enabled :: bool
  f_done :: bool
  f_event_limit :: "8 word"
  f_priority :: int
  f_timeout_delay_start_date :: int
  f_timeout_delay :: int
  f_timeout_next_date :: int
  f_timeout_date :: int
  f_saved_timeout_stamp :: int
  f_processing_time_limit :: int
  f_fds_position :: int

definition new_connection :: connection where
  "new_connection = \<lparr>f_name = [], f_enabled = True, f_done = False, f_event_limit = 5,
     f_priority = EVENT_DEFAULT_PRIORITY, f_timeout_delay_start_date = 0, f_timeout_delay = -1,
     f_timeout_next_date = -1, f_timeout_date = -1, f_saved_timeout_stamp = -1,
     f_processing_time_limit = 500000, f_fds_position = -1\<rparr>"

definition set_name :: "string \<Rightarrow> connection \<Rightarrow> connection" where
  "set_name n c = c\<lparr>f_name := n\<rparr>"

definition set_enable :: "bool \<Rightarrow> connection \<Rightarrow> connection" where
  "set_enable e c = c\<lparr>f_enabled := e\<rparr>"

definition set_event_limit :: "8 word \<Rightarrow> connection \<Rightarrow> connection" where
  "set_event_limit n c = c\<lparr>f_event_limit := n\<rparr>"

definition set_processing_time_limit :: "int \<Rightarrow> connection \<Rightarrow> connection" where
  "set_processing_time_limit us c = c\<lparr>f_processing_time_limit := us\<rparr>"

definition mark_done :: "connection \<Rightarrow> connection" where
  "mark_done c = c\<lparr>f_done := True\<rparr>"

definition mark_not_done :: "connection \<Rightarrow> connection" where
  "mark_not_done c = c\<lparr>f_done := False\<rparr>"

text \<open>The part of \<^verbatim>\<open>set_priority()\<close> on the connection; the communicator's flag is set by
  \<open>set_priority\<close> of the communicator theory.\<close>

definition check_priority :: "int \<Rightarrow> bool" where
  "check_priority p \<longleftrightarrow> \<not> (p < EVENT_MIN_PRIORITY \<or> p > EVENT_MAX_PRIORITY)"

section \<open>Timeouts\<close>

definition set_timeout_delay :: "int \<Rightarrow> int \<Rightarrow> connection \<Rightarrow> connection result" where
  "set_timeout_delay now timeout_us c =
     (if timeout_us \<noteq> -1 \<and> timeout_us < 10 then Inl Parameter_error
      else if timeout_us \<noteq> -1 then
        res_bind (checked (now + timeout_us))
          (\<lambda>d. Inr (c\<lparr>f_timeout_delay := timeout_us, f_timeout_delay_start_date := now,
             f_timeout_next_date := d\<rparr>))
      else Inr (c\<lparr>f_timeout_delay := -1, f_timeout_next_date := -1\<rparr>))"

text \<open>The division is the C++ one, rounding towards zero.\<close>

definition calculate_next_tick :: "int \<Rightarrow> connection \<Rightarrow> connection result" where
  "calculate_next_tick now c =
     (let delay = f_timeout_delay c; start = f_timeout_delay_start_date c in
      if delay = -1 then Inr c
      else if now < f_timeout_next_date c then Inr c
      else if delay = 0 then Inl Undefined_behaviour
      else
        res_bind (checked (now - start)) (\<lambda>gap.
        res_bind (checked (gap + delay)) (\<lambda>up.
        res_bind (checked (up - 1)) (\<lambda>n.
        res_bind (checked (n sdiv delay)) (\<lambda>ticks.
        res_bind (checked (ticks * delay)) (\<lambda>span.
        res_bind (checked (start + span)) (\<lambda>d. Inr (c\<lparr>f_timeout_next_date := d\<rparr>))))))))"

definition set_timeout_date :: "int \<Rightarrow> connection \<Rightarrow> connection result" where
  "set_timeout_date date_us c =
     (if date_us < -1 then Inl Parameter_error else Inr (c\<lparr>f_timeout_date := date_us\<rparr>))"

definition get_timeout_timestamp :: "connection \<Rightarrow> int" where
  "get_timeout_timestamp c =
     (if f_timeout_date c \<noteq> -1 then f_timeout_date c
      else if f_timeout_delay c \<noteq> -1 then f_timeout_next_date c
      else -1)"

definition save_timeout_timestamp :: "connection \<Rightarrow> int \<times> connection" where
  "save_timeout_timestamp c =
     (get_timeout_timestamp c, c\<lparr>f_saved_timeout_stamp := get_timeout_timestamp c\<rparr>)"

text \<open>
  What \<^verbatim>\<open>run()\<close> does to a connection whose saved date is past, before it calls
  \<^verbatim>\<open>process_timeout()\<close>: \<open>now\<close> is the date it compared with, \<open>later\<close> the one
  \<^verbatim>\<open>calculate_next_tick()\<close> reads itself.
\<close>

definition move_timeout :: "int \<Rightarrow> int \<Rightarrow> connection \<Rightarrow> connection result" where
  "move_timeout now later c =
     res_bind (calculate_next_tick later c)
       (\<lambda>c1. if f_timeout_date c1 \<ge> 0 \<and> now \<ge> f_timeout_date c1
              then set_timeout_date (-1) c1 else Inr c1)"

text \<open>The constructor of \<^verbatim>\<open>timer\<close>: zero is a single tick at once.\<close>

definition new_timer :: "int \<Rightarrow> int \<Rightarrow> connection result" where
  "new_timer now timeout_us =
     (if timeout_us = 0 then set_timeout_date now new_connection
      else set_timeout_delay now timeout_us new_connection)"

section \<open>The schedule of the ticks\<close>

text \<open>The invariant of the delay: off, or on with the next date on the schedule.\<close>

definition timer_ok :: "connection \<Rightarrow> bool" where
  "timer_ok c \<longleftrightarrow> f_timeout_date c \<ge> -1 \<and>
     (f_timeout_delay c = -1 \<or>
        f_timeout_delay c \<ge> 10 \<and> f_timeout_next_date c \<ge> f_timeout_delay_start_date c + f_timeout_delay c \<and>
        f_timeout_delay c dvd f_timeout_next_date c - f_timeout_delay_start_date c)"

lemma new_connection_timer_ok: "timer_ok new_connection"
  by (simp add: timer_ok_def new_connection_def)

lemma set_timeout_delay_ok:
  "timer_ok c \<Longrightarrow> set_timeout_delay now us c = Inr c' \<Longrightarrow> timer_ok c'"
  by (auto simp: timer_ok_def set_timeout_delay_def res_bind_eq_Inr split: if_splits)

lemma set_timeout_date_ok: "timer_ok c \<Longrightarrow> set_timeout_date d c = Inr c' \<Longrightarrow> timer_ok c'"
  by (auto simp: timer_ok_def set_timeout_date_def split: if_splits)

lemma save_timeout_timestamp_ok: "timer_ok c \<Longrightarrow> timer_ok (snd (save_timeout_timestamp c))"
  by (simp add: timer_ok_def save_timeout_timestamp_def)

lemma new_timer_ok: "new_timer now us = Inr c \<Longrightarrow> timer_ok c"
  by (auto simp: new_timer_def dest: set_timeout_delay_ok [OF new_connection_timer_ok]
        set_timeout_date_ok [OF new_connection_timer_ok] split: if_splits)

text \<open>Rounding up to the next multiple.\<close>

lemma round_up_bounds:
  fixes x d :: int
  assumes "0 < d" and "0 \<le> x"
  defines "t \<equiv> (x + d - 1) sdiv d"
  shows "x \<le> t * d" and "t * d < x + d" and "0 \<le> t"
proof -
  have t: "t = (x + d - 1) div d" using assms by (simp add: t_def signed_divide_int_def sgn_if)
  have "(x + d - 1) div d * d + (x + d - 1) mod d = x + d - 1" by simp
  moreover have "0 \<le> (x + d - 1) mod d" "(x + d - 1) mod d < d" using assms(1) by simp_all
  ultimately show "x \<le> t * d" "t * d < x + d" unfolding t by linarith+
  have "0 \<le> (x + d - 1) div d" using assms(1,2) by (simp add: pos_imp_zdiv_nonneg_iff)
  then show "0 \<le> t" unfolding t .
qed

lemma round_up_least:
  fixes x d j :: int
  assumes "0 < d" and "0 \<le> x" and "x \<le> j * d"
  shows "(x + d - 1) sdiv d * d \<le> j * d"
proof -
  let ?t = "(x + d - 1) sdiv d"
  have "?t * d < j * d + d" using round_up_bounds(2) [OF assms(1,2)] assms(3) by linarith
  then have "?t * d < (j + 1) * d" by (simp add: algebra_simps)
  then have "?t < j + 1" using assms(1) by (simp add: mult_less_cancel_right)
  then show ?thesis using assms(1) by (simp add: mult_right_mono)
qed

lemma calculate_next_tick_value:
  assumes "timer_ok c" and "f_timeout_delay c \<noteq> -1" and "f_timeout_next_date c \<le> now"
    and "0 \<le> f_timeout_delay_start_date c" and "now < 2 ^ 61" and "f_timeout_delay c < 2 ^ 61"
  shows "calculate_next_tick now c = Inr (c\<lparr>f_timeout_next_date := f_timeout_delay_start_date c +
     (now - f_timeout_delay_start_date c + f_timeout_delay c - 1) sdiv f_timeout_delay c * f_timeout_delay c\<rparr>)"
proof -
  let ?d = "f_timeout_delay c" and ?s = "f_timeout_delay_start_date c"
  let ?t = "(now - ?s + ?d - 1) sdiv ?d"
  have d: "0 < ?d" "10 \<le> ?d" and x: "0 \<le> now - ?s" using assms(1,2,3) by (auto simp: timer_ok_def)
  note b = round_up_bounds [OF d(1) x]
  have "?t * 1 \<le> ?t * ?d" using d b(3) by (intro mult_left_mono) auto
  then have "?t \<le> ?t * ?d" by simp
  with b d x assms(4,5,6) have "i64_range (now - ?s)" "i64_range (now - ?s + ?d)" "i64_range (now - ?s + ?d - 1)"
      "i64_range ?t" "i64_range (?t * ?d)" "i64_range (?s + ?t * ?d)"
    by (auto simp: i64_range_def)
  with assms(2,3) d(1) show ?thesis
    by (simp add: calculate_next_tick_def Let_def checked_in_range)
qed

text \<open>
  The ticks do not slip. When a tick of a running timer is due, the next date is the
  first date of the schedule \<^verbatim>\<open>start + k * delay\<close> that is not before now: it is on the schedule,
  less than one delay away, and no date of the schedule lies between. For dates and delays
  below $2^{61}$ microseconds no step of the computation overflows.
\<close>

theorem next_tick_on_schedule:
  assumes "timer_ok c" and "f_timeout_delay c \<noteq> -1" and "f_timeout_next_date c \<le> now"
    and "0 \<le> f_timeout_delay_start_date c" and "now < 2 ^ 61" and "f_timeout_delay c < 2 ^ 61"
  shows "\<exists>c'. calculate_next_tick now c = Inr c' \<and> timer_ok c' \<and>
     now \<le> f_timeout_next_date c' \<and> f_timeout_next_date c' < now + f_timeout_delay c \<and>
     (\<forall>k. now \<le> f_timeout_delay_start_date c + k * f_timeout_delay c \<longrightarrow>
        f_timeout_next_date c' \<le> f_timeout_delay_start_date c + k * f_timeout_delay c)"
proof -
  let ?d = "f_timeout_delay c" and ?s = "f_timeout_delay_start_date c"
  let ?t = "(now - ?s + ?d - 1) sdiv ?d"
  let ?c = "c\<lparr>f_timeout_next_date := ?s + ?t * ?d\<rparr>"
  have d: "0 < ?d" and x: "0 \<le> now - ?s" "?d \<le> now - ?s"
    using assms(1,2,3) by (auto simp: timer_ok_def)
  note b = round_up_bounds [OF d x(1)]
  have "?d \<le> ?t * ?d" using b(1) x(2) by linarith
  with assms(1,2) have "timer_ok ?c" by (simp add: timer_ok_def)
  moreover have "?s + ?t * ?d \<le> ?s + k * ?d" if "now \<le> ?s + k * ?d" for k
    using round_up_least [OF d x(1), of k] that by linarith
  ultimately show ?thesis
    using calculate_next_tick_value [OF assms] b by auto
qed

definition demo_timer :: connection where
  "demo_timer = new_connection\<lparr>f_timeout_delay := 100, f_timeout_delay_start_date := 1000,
     f_timeout_next_date := 1100\<rparr>"

theorem next_tick_on_schedule_witness:
  "\<exists>c'. calculate_next_tick 1350 demo_timer = Inr c' \<and> timer_ok c' \<and>
     1350 \<le> f_timeout_next_date c' \<and> f_timeout_next_date c' < 1350 + f_timeout_delay demo_timer \<and>
     (\<forall>k. 1350 \<le> f_timeout_delay_start_date demo_timer + k * f_timeout_delay demo_timer \<longrightarrow>
        f_timeout_next_date c' \<le> f_timeout_delay_start_date demo_timer + k * f_timeout_delay demo_timer)"
  by (rule next_tick_on_schedule) (simp_all add: demo_timer_def timer_ok_def new_connection_def)

end
