(* ===== verification/Communicator.thy ===== *)
theory Communicator
  imports Connection "HOL-Library.Word"
begin

unbundle bit_operations_syntax

text \<open>
  The event loop: \<^verbatim>\<open>communicator.cpp\<close>, and the callbacks of the base class of the connections.
  Connections are shared objects, so the state has a heap of them and lists of their
  addresses. The system calls, the virtual functions and the callbacks of derived classes are
  fields of \<open>comm_env\<close>; a callback is an action on the whole state, so it may add, remove and
  change connections. An exception keeps the state it was thrown in.
\<close>

section \<open>State and environment\<close>

type_synonym conn = nat

datatype event =
    Ev_signal | Ev_accept | Ev_read | Ev_write | Ev_error | Ev_hup | Ev_invalid | Ev_timeout
  | Ev_added | Ev_removed | Ev_empty_buffer

record 'u world =
  w_heap :: "conn \<Rightarrow> connection"
  f_connections :: "conn list"
  f_force_sort :: bool
  f_running :: bool
  f_idle :: int
  w_os :: 'u

type_synonym revents = "16 word"

record pollfd =
  fd_fd :: int
  fd_events :: revents
  fd_revents :: revents

datatype errno = EINTR | EFAULT | EINVAL | ENOMEM | EAGAIN | EBADF | Other_errno

record 'u comm_env =
  is_listener :: "conn \<Rightarrow> 'u world \<Rightarrow> bool"
  is_signal :: "conn \<Rightarrow> 'u world \<Rightarrow> bool"
  is_reader :: "conn \<Rightarrow> 'u world \<Rightarrow> bool"
  is_writer :: "conn \<Rightarrow> 'u world \<Rightarrow> bool"
  get_socket :: "conn \<Rightarrow> 'u world \<Rightarrow> int"
  valid_socket :: "conn \<Rightarrow> 'u world \<Rightarrow> bool"
  signal_object :: "conn \<Rightarrow> bool"
  get_current_date :: "'u \<Rightarrow> int \<times> 'u"
  now_ns :: "'u \<Rightarrow> int \<times> 'u"
  poll :: "pollfd list \<Rightarrow> int \<Rightarrow> 'u \<Rightarrow> (errno + nat \<times> revents list) \<times> 'u"
  callback :: "event \<Rightarrow> conn \<Rightarrow> ('u world, unit) act"

definition POLLIN :: revents where "POLLIN = 0x1"
definition POLLPRI :: revents where "POLLPRI = 0x2"
definition POLLOUT :: revents where "POLLOUT = 0x4"
definition POLLERR :: revents where "POLLERR = 0x8"
definition POLLHUP :: revents where "POLLHUP = 0x10"
definition POLLNVAL :: revents where "POLLNVAL = 0x20"
definition POLLRDHUP :: revents where "POLLRDHUP = 0x2000"

lemmas poll_defs = POLLIN_def POLLPRI_def POLLOUT_def POLLERR_def POLLHUP_def POLLNVAL_def POLLRDHUP_def

definition upd_conn :: "conn \<Rightarrow> (connection \<Rightarrow> connection) \<Rightarrow> 'u world \<Rightarrow> 'u world" where
  "upd_conn c f w = w\<lparr>w_heap := (w_heap w)(c := f (w_heap w c))\<rparr>"

definition read_date :: "'u comm_env \<Rightarrow> ('u world, int) act" where
  "read_date env w = (case get_current_date env (w_os w) of (d, os) \<Rightarrow> (Inr d, w\<lparr>w_os := os\<rparr>))"

definition new_communicator :: "(conn \<Rightarrow> connection) \<Rightarrow> 'u \<Rightarrow> 'u world" where
  "new_communicator h os = \<lparr>w_heap = h, f_connections = [], f_force_sort = True, f_running = False,
     f_idle = 0, w_os = os\<rparr>"

section \<open>Adding and removing connections\<close>

text \<open>A null pointer is \<open>None\<close>.\<close>

definition add_connection :: "'u comm_env \<Rightarrow> conn option \<Rightarrow> ('u world, bool) act" where
  "add_connection env copt w =
     (case copt of
        None \<Rightarrow> (Inr False, w)
      | Some c \<Rightarrow>
          if \<not> valid_socket env c w then (Inl Invalid_parameter, w)
          else if c \<in> set (f_connections w) then (Inr False, w)
          else act_bind (callback env Ev_added c) (\<lambda>_. act_return True)
                 (w\<lparr>f_connections := f_connections w @ [c]\<rparr>))"

definition remove_connection :: "'u comm_env \<Rightarrow> conn \<Rightarrow> ('u world, bool) act" where
  "remove_connection env c w =
     (if c \<notin> set (f_connections w) then (Inr False, w)
      else act_bind (callback env Ev_removed c) (\<lambda>_. act_return True)
             (w\<lparr>f_connections := remove1 c (f_connections w)\<rparr>))"

definition set_force_sort :: "bool \<Rightarrow> 'u world \<Rightarrow> 'u world" where
  "set_force_sort status w = w\<lparr>f_force_sort := status\<rparr>"

definition set_priority :: "conn \<Rightarrow> int \<Rightarrow> ('u world, unit) act" where
  "set_priority c p w =
     (if check_priority p
      then (Inr (), set_force_sort True (upd_conn c (\<lambda>x. x\<lparr>f_priority := p\<rparr>) w))
      else (Inl Parameter_error, w))"

definition remove_from_communicator :: "'u comm_env \<Rightarrow> conn \<Rightarrow> ('u world, unit) act" where
  "remove_from_communicator env c = act_bind (remove_connection env c) (\<lambda>_. act_return ())"

text \<open>The callbacks as the base class \<^verbatim>\<open>connection\<close> defines them.\<close>

definition connection_process :: "'u comm_env \<Rightarrow> event \<Rightarrow> conn \<Rightarrow> ('u world, unit) act" where
  "connection_process env e c =
     (case e of
        Ev_error \<Rightarrow> remove_from_communicator env c
      | Ev_hup \<Rightarrow> remove_from_communicator env c
      | Ev_invalid \<Rightarrow> remove_from_communicator env c
      | Ev_empty_buffer \<Rightarrow>
          (\<lambda>w. act_when (f_done (w_heap w c)) (remove_from_communicator env c) w)
      | _ \<Rightarrow> act_return ())"

section \<open>One turn of the loop\<close>

definition poll_events :: "'u comm_env \<Rightarrow> conn \<Rightarrow> 'u world \<Rightarrow> revents" where
  "poll_events env c w =
     (if is_listener env c w \<or> is_signal env c w then POLLIN else 0)
     OR (if is_reader env c w then POLLIN OR POLLPRI OR POLLRDHUP else 0)
     OR (if is_writer env c w then POLLOUT OR POLLRDHUP else 0)"

definition int64_max :: int where "int64_max = 2 ^ 63 - 1"

text \<open>
  The first loop over the copy of the connections: the vector \<^verbatim>\<open>enabled\<close>, the vector \<^verbatim>\<open>fds\<close>, the
  smallest timeout, and the positions and dates saved in the connections.
\<close>

fun prepare :: "'u comm_env \<Rightarrow> conn list \<Rightarrow> bool list \<Rightarrow> pollfd list \<Rightarrow> int \<Rightarrow> 'u world
    \<Rightarrow> bool list \<times> pollfd list \<times> int \<times> 'u world" where
  "prepare env [] enabled fds next_timeout w = (enabled, fds, next_timeout, w)"
| "prepare env (c # cs) enabled fds next_timeout w =
     (let w1 = upd_conn c (\<lambda>x. x\<lparr>f_fds_position := -1\<rparr>) w;
          en = f_enabled (w_heap w1 c)
      in if \<not> en then prepare env cs (enabled @ [en]) fds next_timeout w1
      else
        let timestamp = fst (save_timeout_timestamp (w_heap w1 c));
            w2 = upd_conn c (\<lambda>x. snd (save_timeout_timestamp x)) w1;
            next' = (if timestamp \<noteq> -1 \<and> timestamp < next_timeout then timestamp else next_timeout);
            e = poll_events env c w2
        in if e = 0 \<or> \<not> valid_socket env c w2 then prepare env cs (enabled @ [en]) fds next' w2
        else
          prepare env cs (enabled @ [en])
            (fds @ [\<lparr>fd_fd = get_socket env c w2, fd_events = e, fd_revents = 0\<rparr>]) next'
            (upd_conn c (\<lambda>x. x\<lparr>f_fds_position := int (length fds)\<rparr>) w2))"

text \<open>Microseconds to the milliseconds of \<^verbatim>\<open>poll()\<close>, which takes an \<^verbatim>\<open>int\<close>.\<close>

definition poll_timeout :: "int \<Rightarrow> int \<Rightarrow> int result" where
  "poll_timeout next_timeout now =
     res_bind (checked (next_timeout - now))
       (\<lambda>t. Inr (if t < 0 then 0 else let ms = t sdiv 1000 in if ms = 0 then 1 else ms))"

definition to_int32 :: "int \<Rightarrow> int" where
  "to_int32 x = (x + 2 ^ 31) mod 2 ^ 32 - 2 ^ 31"

definition has_event :: "revents \<Rightarrow> revents \<Rightarrow> bool" where
  "has_event r m \<longleftrightarrow> r AND m \<noteq> 0"

text \<open>The callbacks run for what \<^verbatim>\<open>poll()\<close> reported on one connection.\<close>

definition process_input :: "'u comm_env \<Rightarrow> conn \<Rightarrow> ('u world, unit) act" where
  "process_input env c w =
     (if is_signal env c w then act_when (signal_object env c) (callback env Ev_signal c) w
      else if is_listener env c w then callback env Ev_accept c w
      else callback env Ev_read c w)"

definition process_revents :: "'u comm_env \<Rightarrow> conn \<Rightarrow> revents \<Rightarrow> ('u world, unit) act" where
  "process_revents env c r =
     act_when (r \<noteq> 0)
       (act_bind (act_when (has_event r (POLLIN OR POLLPRI)) (process_input env c)) (\<lambda>_.
        act_bind (act_when (has_event r POLLOUT) (callback env Ev_write c)) (\<lambda>_.
        act_bind (act_when (has_event r POLLERR) (callback env Ev_error c)) (\<lambda>_.
        act_bind (act_when (has_event r (POLLHUP OR POLLRDHUP)) (callback env Ev_hup c)) (\<lambda>_.
        act_when (has_event r POLLNVAL) (callback env Ev_invalid c))))))"

definition process_fd :: "'u comm_env \<Rightarrow> pollfd list \<Rightarrow> conn \<Rightarrow> ('u world, unit) act" where
  "process_fd env fds c w =
     (let pos = f_fds_position (w_heap w c) in
      if pos \<ge> 0 then
        (if nat pos < length fds then process_revents env c (fd_revents (fds ! nat pos)) w
         else (Inl Undefined_behaviour, w))
      else (Inr (), w))"

definition process_saved_timeout :: "'u comm_env \<Rightarrow> conn \<Rightarrow> ('u world, unit) act" where
  "process_saved_timeout env c w =
     (let timestamp = f_saved_timeout_stamp (w_heap w c) in
      if timestamp = -1 then (Inr (), w)
      else act_bind (read_date env)
        (\<lambda>now. act_when (now \<ge> timestamp)
           (act_bind (if f_timeout_delay (w_heap w c) = -1 then act_return 0 else read_date env)
              (\<lambda>later. act_bind
                 (\<lambda>w1. case move_timeout now later (w_heap w1 c) of
                    Inl e \<Rightarrow> (Inl e, w1)
                  | Inr x \<Rightarrow> (Inr (), upd_conn c (\<lambda>_. x) w1))
                 (\<lambda>_. callback env Ev_timeout c)))) w)"

definition process_connection :: "'u comm_env \<Rightarrow> pollfd list \<Rightarrow> conn \<times> bool \<Rightarrow> ('u world, unit) act" where
  "process_connection env fds ce =
     act_when (snd ce)
       (act_bind (process_fd env fds (fst ce)) (\<lambda>_. process_saved_timeout env (fst ce)))"

definition poll_failure :: "errno \<Rightarrow> failure" where
  "poll_failure e =
     (case e of
        EINTR \<Rightarrow> Runtime_error | EFAULT \<Rightarrow> Invalid_parameter | EINVAL \<Rightarrow> Invalid_parameter
      | _ \<Rightarrow> Runtime_error)"

definition call_poll :: "'u comm_env \<Rightarrow> pollfd list \<Rightarrow> int \<Rightarrow> ('u world, pollfd list \<times> nat) act" where
  "call_poll env fds timeout w =
     (let (start_on, os1) = now_ns env (w_os w);
          (r, os2) = poll env fds (to_int32 timeout) os1;
          (end_on, os3) = now_ns env os2;
          w1 = w\<lparr>w_os := os3, f_idle := f_idle w + (end_on - start_on)\<rparr>
      in case r of
           Inl e \<Rightarrow> (Inl (poll_failure e), w1)
         | Inr (n, revs) \<Rightarrow> (Inr (map2 (\<lambda>fd r. fd\<lparr>fd_revents := r\<rparr>) fds revs, n), w1))"

text \<open>
  One turn: \<open>Some b\<close> when \<^verbatim>\<open>run()\<close> returns \<open>b\<close>, \<open>None\<close> when the loop goes on. The stable sort
  of the standard library is \<open>sort_key\<close>.
\<close>

definition sort_connections :: "'u world \<Rightarrow> 'u world" where
  "sort_connections w =
     (if f_force_sort w
      then w\<lparr>f_connections := sort_key (\<lambda>c. f_priority (w_heap w c)) (f_connections w),
             f_force_sort := False\<rparr>
      else w)"

definition poll_wait :: "'u comm_env \<Rightarrow> int \<Rightarrow> ('u world, int) act" where
  "poll_wait env next_timeout =
     (if next_timeout \<noteq> int64_max
      then act_bind (read_date env) (\<lambda>now. act_lift (poll_timeout next_timeout now))
      else act_return (-1))"

definition turn :: "'u comm_env \<Rightarrow> ('u world, bool option) act" where
  "turn env w =
     (if f_connections w = [] then (Inr (Some True), w)
      else
        let w1 = sort_connections w;
            connections = f_connections w1;
            (enabled, fds, next_timeout, w2) = prepare env connections [] [] int64_max w1
        in if next_timeout = int64_max \<and> fds = [] then (Inr (Some False), w2)
        else act_bind (poll_wait env next_timeout)
          (\<lambda>timeout. act_bind (call_poll env fds timeout)
             (\<lambda>(fds', r).
                if r > length connections then act_throw Runtime_error
                else act_bind (act_each (process_connection env fds') (zip connections enabled))
                  (\<lambda>_. act_return None))) w2)"

text \<open>
  \<^verbatim>\<open>run()\<close> with at most \<open>n\<close> turns: \<open>None\<close> in the result when it is still running after them. The
  guard \<^verbatim>\<open>snapdev::safe_variable\<close> clears \<^verbatim>\<open>f_running\<close> however the function is left.
\<close>

fun run_loop :: "nat \<Rightarrow> 'u comm_env \<Rightarrow> ('u world, bool option) act" where
  "run_loop 0 env = act_return None"
| "run_loop (Suc n) env =
     act_bind (turn env)
       (\<lambda>r. case r of None \<Rightarrow> run_loop n env | Some b \<Rightarrow> act_return (Some b))"

definition run :: "nat \<Rightarrow> 'u comm_env \<Rightarrow> ('u world, bool option) act" where
  "run n env w =
     (if f_running w then (Inl Recursive_call, w)
      else case run_loop n env (w\<lparr>f_running := True, f_force_sort := True\<rparr>) of
             (Inr None, w') \<Rightarrow> (Inr None, w')
           | (r, w') \<Rightarrow> (r, w'\<lparr>f_running := False\<rparr>))"

section \<open>Invariants of the loop\<close>

text \<open>
  What the callbacks owe the loop: an invariant that every callback keeps and that does not
  depend on what \<^verbatim>\<open>run()\<close> itself writes is an invariant of \<^verbatim>\<open>run()\<close>.
\<close>

locale loop_invariant =
  fixes env :: "'u comm_env" and I :: "'u world \<Rightarrow> bool"
  assumes callback_keeps: "keeps I (callback env e c)"
    and heap_free: "I w \<Longrightarrow> I (w\<lparr>w_heap := h\<rparr>)"
    and os_free: "I w \<Longrightarrow> I (w\<lparr>w_os := os\<rparr>)"
    and idle_free: "I w \<Longrightarrow> I (w\<lparr>f_idle := i\<rparr>)"
    and force_free: "I w \<Longrightarrow> I (w\<lparr>f_force_sort := b\<rparr>)"
    and running_free: "I w \<Longrightarrow> I (w\<lparr>f_running := b\<rparr>)"
    and sort_keeps: "I w \<Longrightarrow> I (w\<lparr>f_connections := sort_key (k :: conn \<Rightarrow> int) (f_connections w)\<rparr>)"
begin

lemma upd_conn_keeps: "I w \<Longrightarrow> I (upd_conn c f w)"
  by (simp add: upd_conn_def heap_free)

lemma prepare_keeps: "I w \<Longrightarrow> I (snd (snd (snd (prepare env cs en fds nt w))))"
  by (induction env cs en fds nt w rule: prepare.induct)
     (auto simp: Let_def upd_conn_keeps simp del: fun_upd_apply)

lemma read_date_keeps: "keeps I (read_date env)"
  by (auto simp: keeps_def read_date_def os_free split: prod.split)

lemma process_revents_keeps: "keeps I (process_revents env c r)"
proof -
  have "keeps I (process_input env c)"
    using keeps_when [OF callback_keeps, of "signal_object env c" Ev_signal c] callback_keeps
    by (auto simp: keeps_def process_input_def)
  then show ?thesis
    unfolding process_revents_def by (intro keeps_intros callback_keeps)
qed

lemma process_fd_keeps: "keeps I (process_fd env fds c)"
  using process_revents_keeps by (auto simp: keeps_def process_fd_def Let_def)

lemma process_saved_timeout_keeps: "keeps I (process_saved_timeout env c)"
proof -
  have "keeps I (act_bind (read_date env)
        (\<lambda>now. act_when (now \<ge> timestamp)
           (act_bind (if b then act_return 0 else read_date env)
              (\<lambda>later. act_bind
                 (\<lambda>w1. case move_timeout now later (w_heap w1 c) of
                    Inl e \<Rightarrow> (Inl e, w1)
                  | Inr x \<Rightarrow> (Inr (), upd_conn c (\<lambda>_. x) w1))
                 (\<lambda>_. callback env Ev_timeout c)))))" for timestamp b
  proof (intro keeps_intros read_date_keeps callback_keeps)
    show "keeps I (if b then act_return 0 else read_date env)" by (simp add: read_date_keeps)
  next
    fix now later
    show "keeps I (\<lambda>w1. case move_timeout now later (w_heap w1 c) of
        Inl e \<Rightarrow> (Inl e, w1) | Inr x \<Rightarrow> (Inr (), upd_conn c (\<lambda>_. x) w1))"
      by (auto simp: keeps_def upd_conn_keeps split: sum.split)
  qed
  then show ?thesis by (simp add: keeps_def process_saved_timeout_def Let_def)
qed

lemma process_connection_keeps: "keeps I (process_connection env fds ce)"
  unfolding process_connection_def
  by (intro keeps_intros process_fd_keeps process_saved_timeout_keeps)

lemma call_poll_keeps: "keeps I (call_poll env fds t)"
  by (auto simp: keeps_def call_poll_def os_free idle_free Let_def split: prod.split sum.split)

lemma poll_wait_keeps: "keeps I (poll_wait env nt)"
  by (simp add: poll_wait_def keeps_bind read_date_keeps)

lemma sort_connections_keeps: "I w \<Longrightarrow> I (sort_connections w)"
  using force_free [OF sort_keeps] by (simp add: sort_connections_def)

lemma turn_keeps: "keeps I (turn env)"
proof (rule keepsI)
  fix w assume w: "I w"
  let ?w1 = "sort_connections w"
  obtain en fds nt w2 where p: "prepare env (f_connections ?w1) [] [] int64_max ?w1 = (en, fds, nt, w2)"
    by (metis prod.exhaust)
  have "I w2" using prepare_keeps [OF sort_connections_keeps [OF w]] p by (metis snd_conv)
  moreover have "keeps I (act_bind (poll_wait env nt)
          (\<lambda>timeout. act_bind (call_poll env fds timeout)
             (\<lambda>(fds', r).
                if r > length (f_connections ?w1) then act_throw Runtime_error
                else act_bind (act_each (process_connection env fds') (zip (f_connections ?w1) en))
                  (\<lambda>_. act_return None))))"
    by (auto intro!: keeps_intros poll_wait_keeps call_poll_keeps process_connection_keeps)
  ultimately show "I (snd (turn env w))"
    using w p by (auto simp: turn_def Let_def dest: keepsD)
qed

lemma run_loop_keeps: "keeps I (run_loop n env)"
proof (induction n)
  case (Suc n)
  then show ?case by (auto intro!: keeps_bind turn_keeps split: option.split)
qed simp

lemma run_keeps: "keeps I (run n env)"
proof (rule keepsI)
  fix w assume "I w"
  then have "I (snd (run_loop n env (w\<lparr>f_running := True, f_force_sort := True\<rparr>)))"
    by (intro keepsD [OF run_loop_keeps] force_free running_free)
  with \<open>I w\<close> show "I (snd (run n env w))"
    by (auto simp: run_def running_free split: prod.split sum.split option.split)
qed

end

definition distinct_connections :: "'u world \<Rightarrow> bool" where
  "distinct_connections w \<longleftrightarrow> distinct (f_connections w)"

text \<open>The callbacks of the base class, whose own \<^verbatim>\<open>connection_removed()\<close> does nothing.\<close>

definition base_env :: "'u comm_env \<Rightarrow> 'u comm_env" where
  "base_env env = env\<lparr>callback := connection_process (env\<lparr>callback := \<lambda>_ _. act_return ()\<rparr>)\<rparr>"

lemma distinct_loop:
  "(\<And>e c. keeps distinct_connections (callback env e c)) \<Longrightarrow> loop_invariant env distinct_connections"
  by unfold_locales (simp_all add: distinct_connections_def)

lemma add_connection_distinct:
  "(\<And>e c. keeps distinct_connections (callback env e c)) \<Longrightarrow> keeps distinct_connections (add_connection env copt)"
  by (auto simp: keeps_def add_connection_def snd_act_bind distinct_connections_def act_return_def
      split: option.split sum.split)

lemma remove_connection_distinct:
  "(\<And>e c. keeps distinct_connections (callback env e c)) \<Longrightarrow> keeps distinct_connections (remove_connection env c)"
  by (auto simp: keeps_def remove_connection_def snd_act_bind distinct_connections_def act_return_def
      split: sum.split)

lemma base_callback_distinct: "keeps distinct_connections (callback (base_env env) e c)"
proof -
  have "keeps distinct_connections (remove_from_communicator (env\<lparr>callback := \<lambda>_ _. act_return ()\<rparr>) c)"
    unfolding remove_from_communicator_def by (intro keeps_intros remove_connection_distinct) simp
  then show ?thesis
    by (cases e) (auto simp: base_env_def connection_process_def keeps_def act_when_def act_return_def)
qed

interpretation base_loop: loop_invariant "base_env env" distinct_connections for env
  by (rule distinct_loop) (rule base_callback_distinct)

end
