(* ===== verification/Event_Loop.thy ===== *)
theory Event_Loop
  imports Communicator "HOL-Library.Multiset"
begin

unbundle bit_operations_syntax

text \<open>
  What a turn of \<^verbatim>\<open>communicator::run()\<close> does: which descriptors it polls and for how long, which
  callbacks it runs in which order, and which connections are left.
\<close>

section \<open>What is polled\<close>

text \<open>
  The virtual functions of a connection depend on the state of the derived class, which is
  part of \<open>w_os\<close>, and not on the fields \<^verbatim>\<open>run()\<close> itself writes.
\<close>

definition steady :: "'u comm_env \<Rightarrow> bool" where
  "steady env \<longleftrightarrow> (\<forall>c w w'. w_os w = w_os w' \<longrightarrow>
     poll_events env c w = poll_events env c w' \<and> valid_socket env c w = valid_socket env c w' \<and>
     get_socket env c w = get_socket env c w')"

definition polled :: "'u comm_env \<Rightarrow> 'u world \<Rightarrow> conn \<Rightarrow> bool" where
  "polled env w c \<longleftrightarrow> f_enabled (w_heap w c) \<and> poll_events env c w \<noteq> 0 \<and> valid_socket env c w"

definition poll_entry :: "'u comm_env \<Rightarrow> 'u world \<Rightarrow> conn \<Rightarrow> pollfd" where
  "poll_entry env w c = \<lparr>fd_fd = get_socket env c w, fd_events = poll_events env c w, fd_revents = 0\<rparr>"

definition stamp :: "'u world \<Rightarrow> conn \<Rightarrow> int option" where
  "stamp w c = (if f_enabled (w_heap w c) \<and> get_timeout_timestamp (w_heap w c) \<noteq> -1
     then Some (get_timeout_timestamp (w_heap w c)) else None)"

definition earliest :: "int \<Rightarrow> int option \<Rightarrow> int" where
  "earliest nt t = (case t of None \<Rightarrow> nt | Some ts \<Rightarrow> min ts nt)"

definition prepared :: "bool \<Rightarrow> nat \<Rightarrow> connection \<Rightarrow> connection" where
  "prepared p k x =
     (if f_enabled x
      then x\<lparr>f_saved_timeout_stamp := get_timeout_timestamp x, f_fds_position := if p then int k else -1\<rparr>
      else x\<lparr>f_fds_position := -1\<rparr>)"

lemma get_timeout_timestamp_fds [simp]:
  "get_timeout_timestamp (x\<lparr>f_fds_position := i\<rparr>) = get_timeout_timestamp x"
  by (simp add: get_timeout_timestamp_def)

lemma w_os_upd_conn [simp]: "w_os (upd_conn c f w) = w_os w"
  by (simp add: upd_conn_def)

lemma w_heap_upd_conn: "w_heap (upd_conn c f w) d = (if d = c then f (w_heap w c) else w_heap w d)"
  by (simp add: upd_conn_def)

lemma upd_conn_frame [simp]:
  "f_connections (upd_conn c f w) = f_connections w"
  "f_running (upd_conn c f w) = f_running w"
  by (simp_all add: upd_conn_def)

lemma upd_conn_twice: "upd_conn c g (upd_conn c f w) = upd_conn c (\<lambda>x. g (f x)) w"
  by (simp add: upd_conn_def)

lemma steadyD:
  assumes "steady env"
  shows "poll_events env c (upd_conn d f w) = poll_events env c w"
    and "valid_socket env c (upd_conn d f w) = valid_socket env c w"
    and "get_socket env c (upd_conn d f w) = get_socket env c w"
  using assms unfolding steady_def by (metis w_os_upd_conn)+

lemma prepare_Cons:
  assumes "steady env"
  shows "prepare env (c # cs) en fds nt w =
     prepare env cs (en @ [f_enabled (w_heap w c)])
       (fds @ (if polled env w c then [poll_entry env w c] else []))
       (earliest nt (stamp w c)) (upd_conn c (prepared (polled env w c) (length fds)) w)"
proof -
  have upd: "upd_conn c f w = upd_conn c g w" if "f (w_heap w c) = g (w_heap w c)" for f g
    using that by (simp add: upd_conn_def)
  show ?thesis
    by (auto simp: Let_def steadyD [OF assms] upd_conn_twice w_heap_upd_conn polled_def poll_entry_def
        save_timeout_timestamp_def stamp_def earliest_def prepared_def min_def
        intro!: arg_cong [where f = "prepare env cs _ _ _"] upd)
qed

lemma polled_upd_conn: "steady env \<Longrightarrow> c \<noteq> d \<Longrightarrow> polled env (upd_conn d f w) c = polled env w c"
  by (simp add: polled_def steadyD w_heap_upd_conn)

lemma polled_same_os:
  "steady env \<Longrightarrow> w_os w = w_os w' \<Longrightarrow> f_enabled (w_heap w c) = f_enabled (w_heap w' c) \<Longrightarrow>
     polled env w c = polled env w' c"
  unfolding polled_def steady_def by metis

lemma poll_entry_upd_conn: "steady env \<Longrightarrow> poll_entry env (upd_conn d f w) c = poll_entry env w c"
  by (simp add: poll_entry_def steadyD)

lemma stamp_upd_conn: "c \<noteq> d \<Longrightarrow> stamp (upd_conn d f w) c = stamp w c"
  by (simp add: stamp_def w_heap_upd_conn)

definition ready :: "'u comm_env \<Rightarrow> 'u world \<Rightarrow> conn list \<Rightarrow> conn list" where
  "ready env w cs = filter (polled env w) cs"

lemma ready_simps [simp]:
  "ready env w [] = []"
  "ready env w (c # cs) = (if polled env w c then c # ready env w cs else ready env w cs)"
  by (simp_all add: ready_def)

lemma ready_upd_conn: "steady env \<Longrightarrow> d \<notin> set cs \<Longrightarrow> ready env (upd_conn d f w) cs = ready env w cs"
  unfolding ready_def by (rule filter_cong [OF refl]) (metis polled_upd_conn)

text \<open>The result of the first loop, field by field.\<close>

lemma prepare_result:
  assumes "steady env" and "distinct cs" and "prepare env cs en fds nt w = (en', fds', nt', w')"
  shows "en' = en @ map (\<lambda>c. f_enabled (w_heap w c)) cs \<and>
     fds' = fds @ map (poll_entry env w) (ready env w cs) \<and>
     nt' = foldl earliest nt (map (stamp w) cs) \<and>
     w_os w' = w_os w \<and> f_connections w' = f_connections w"
  using assms(2,3)
proof (induction cs arbitrary: en fds nt w)
  case (Cons c cs)
  note step = Cons.prems(2) [unfolded prepare_Cons [OF assms(1)]]
  have c: "c \<notin> set cs" "distinct cs" using Cons.prems(1) by auto
  have "map (stamp (upd_conn c f w)) cs = map (stamp w) cs"
    and "map (\<lambda>d. f_enabled (w_heap (upd_conn c f w) d)) cs = map (\<lambda>d. f_enabled (w_heap w d)) cs" for f
    using c by (auto simp: w_heap_upd_conn intro: stamp_upd_conn)
  with Cons.IH [OF c(2) step] c show ?case
    by (auto simp: ready_upd_conn [OF assms(1)] poll_entry_upd_conn [OF assms(1)])
qed auto

lemma prepare_heap_frame:
  assumes "steady env" and "prepare env cs en fds nt w = (en', fds', nt', w')" and "c \<notin> set cs"
  shows "w_heap w' c = w_heap w c"
  using assms(2,3)
  by (induction cs arbitrary: en fds nt w)
     (auto simp: prepare_Cons [OF assms(1)] w_heap_upd_conn simp del: prepare.simps(2))

lemma prepare_heap:
  assumes "steady env" and "distinct cs" and "prepare env cs en fds nt w = (en', fds', nt', w')"
    and "c \<in> set cs"
  shows "w_heap w' c = prepared (polled env w c)
     (length fds + length (ready env w (takeWhile (\<lambda>d. d \<noteq> c) cs))) (w_heap w c)"
  using assms(2,3,4)
proof (induction cs arbitrary: en fds nt w)
  case (Cons d cs)
  note step = Cons.prems(2) [unfolded prepare_Cons [OF assms(1)]]
  show ?case
  proof (cases "c = d")
    case True
    with Cons.prems(1) have "w_heap w' c = w_heap (upd_conn d (prepared (polled env w d) (length fds)) w) c"
      by (intro prepare_heap_frame [OF assms(1) step]) simp
    with True show ?thesis by (simp add: w_heap_upd_conn ready_def)
  next
    case False
    have d: "d \<notin> set (takeWhile (\<lambda>e. e \<noteq> c) cs)" using Cons.prems(1) by (auto dest: set_takeWhileD)
    with False Cons.IH [OF _ step] Cons.prems(1,3) show ?thesis
      by (auto simp: polled_upd_conn [OF assms(1)] w_heap_upd_conn ready_upd_conn [OF assms(1)])
  qed
qed simp

lemma foldl_earliest_le:
  "foldl earliest nt ts \<le> nt"
  "Some t \<in> set ts \<Longrightarrow> foldl earliest nt ts \<le> t"
proof (induction ts arbitrary: nt)
  case (Cons t' ts)
  { case 1 show ?case using Cons.IH(1) [of "earliest nt t'"] by (auto simp: earliest_def split: option.splits) }
  { case 2 show ?case
      using 2 Cons.IH(1) [of "earliest nt t'"] Cons.IH(2) [of "earliest nt t'"]
      by (auto simp: earliest_def split: option.splits) }
qed simp_all

lemma earliest_cases: "earliest nt t = nt \<or> t = Some (earliest nt t)"
  by (auto simp: earliest_def min_def split: option.split)

lemma foldl_earliest_attained:
  "foldl earliest nt ts = nt \<or> Some (foldl earliest nt ts) \<in> set ts"
proof (induction ts arbitrary: nt)
  case (Cons t' ts)
  show ?case using Cons [of "earliest nt t'"] earliest_cases [of nt t'] by fastforce
qed simp

lemma poll_timeout_bounds:
  assumes "poll_timeout nt now = Inr ms"
  shows "0 \<le> ms" and "ms * 1000 \<le> max 1000 (nt - now)" and "nt - now < (ms + 1) * 1000"
proof -
  have "0 \<le> ms \<and> ms * 1000 \<le> max 1000 (nt - now) \<and> nt - now < (ms + 1) * 1000"
    using assms
    by (auto simp: poll_timeout_def res_bind_eq_Inr Let_def signed_divide_int_def sgn_if split: if_splits)
  then show "0 \<le> ms" and "ms * 1000 \<le> max 1000 (nt - now)" and "nt - now < (ms + 1) * 1000" by simp_all
qed

lemma to_int32_small: "- (2 ^ 31) \<le> x \<Longrightarrow> x < 2 ^ 31 \<Longrightarrow> to_int32 x = x"
  by (simp add: to_int32_def)

section \<open>Properties\<close>


text \<open>
  A timeout more than about 24 days away is lost. \<^verbatim>\<open>poll()\<close> takes an \<^verbatim>\<open>int\<close>, so the 64 bit
  number of milliseconds is narrowed: from $2^{31}$ milliseconds on and below $2^{32}$ the argument is
  negative and \<^verbatim>\<open>poll()\<close> waits with no timeout at all.
\<close>

theorem long_timeout_waits_forever:
  assumes "i64_range (nt - now)" and "2 ^ 31 * 1000 \<le> nt - now" and "nt - now < 2 ^ 32 * 1000"
  shows "\<exists>ms. poll_timeout nt now = Inr ms \<and> to_int32 ms < 0"
proof -
  let ?ms = "(nt - now) div 1000"
  have b: "2 ^ 31 \<le> ?ms" "?ms < 2 ^ 32" using assms(2,3) by (auto simp: div_int_pos_iff)
  then have "(?ms + 2 ^ 31) mod 2 ^ 32 = ?ms + 2 ^ 31 - 2 ^ 32"
    using mod_add_self2 [of "?ms + 2 ^ 31 - 2 ^ 32" "2 ^ 32"] by (simp add: add.commute)
  with b have "to_int32 ?ms < 0" by (simp add: to_int32_def)
  moreover have "poll_timeout nt now = Inr ?ms"
    using assms(1,2) b by (simp add: poll_timeout_def checked_in_range Let_def signed_divide_int_def sgn_if)
  ultimately show ?thesis by blast
qed

theorem long_timeout_waits_forever_witness:
  "\<exists>ms. poll_timeout (1000 + 30 * 86400 * 1000000) 1000 = Inr ms \<and> to_int32 ms < 0"
  by (rule long_timeout_waits_forever) (simp_all add: i64_range_def)

section \<open>A turn with the callbacks of the base class\<close>

definition closes :: "revents \<Rightarrow> bool" where
  "closes r \<longleftrightarrow> has_event r POLLERR \<or> has_event r (POLLHUP OR POLLRDHUP) \<or> has_event r POLLNVAL"

lemma base_remove:
  "remove_from_communicator (env\<lparr>callback := \<lambda>_ _. act_return ()\<rparr>) c w
     = (Inr (), w\<lparr>f_connections := remove1 c (f_connections w)\<rparr>)"
  by (simp add: remove_from_communicator_def remove_connection_def act_bind_def act_return_def remove1_idem)

lemma base_callback:
  "callback (base_env env) e c =
     (case e of
        Ev_error \<Rightarrow> (\<lambda>w. (Inr (), w\<lparr>f_connections := remove1 c (f_connections w)\<rparr>))
      | Ev_hup \<Rightarrow> (\<lambda>w. (Inr (), w\<lparr>f_connections := remove1 c (f_connections w)\<rparr>))
      | Ev_invalid \<Rightarrow> (\<lambda>w. (Inr (), w\<lparr>f_connections := remove1 c (f_connections w)\<rparr>))
      | Ev_empty_buffer \<Rightarrow> (\<lambda>w. (Inr (), if f_done (w_heap w c)
            then w\<lparr>f_connections := remove1 c (f_connections w)\<rparr> else w))
      | _ \<Rightarrow> act_return ())"
  by (cases e) (auto simp: base_env_def connection_process_def base_remove act_when_def act_return_def fun_eq_iff)

lemma remove1_twice: "distinct xs \<Longrightarrow> remove1 c (remove1 c xs) = remove1 c xs"
  by (simp add: remove1_idem)

lemma has_event_0 [simp]: "\<not> has_event 0 m"
  by (simp add: has_event_def)

lemma process_revents_base:
  assumes "distinct_connections w"
  shows "process_revents (base_env env) c r w =
     (Inr (), w\<lparr>f_connections := if closes r then remove1 c (f_connections w) else f_connections w\<rparr>)"
proof -
  have "process_input (base_env env) c v = (Inr (), v)" for v
    by (simp add: process_input_def base_callback act_return_def act_when_def)
  with assms show ?thesis
    by (auto simp: process_revents_def base_callback act_when_def act_bind_def act_return_def closes_def
        distinct_connections_def remove1_twice split: if_splits)
qed

lemma move_timeout_position: "move_timeout now later x = Inr y \<Longrightarrow> f_fds_position y = f_fds_position x"
  by (auto simp: move_timeout_def calculate_next_tick_def set_timeout_date_def Let_def res_bind_eq_Inr
      split: if_splits)

definition same_positions :: "'u world \<Rightarrow> 'u world \<Rightarrow> bool" where
  "same_positions w w' \<longleftrightarrow> (\<forall>c. f_fds_position (w_heap w' c) = f_fds_position (w_heap w c))"

lemma process_saved_timeout_base:
  assumes "process_saved_timeout (base_env env) c w = (r, w')"
  shows "f_connections w' = f_connections w" and "same_positions w w'"
proof -
  have rd: "\<exists>d os. read_date (base_env env) v = (Inr d, v\<lparr>w_os := os\<rparr>)" for v
    by (auto simp: read_date_def split: prod.split)
  obtain d os where rd1: "read_date (base_env env) w = (Inr d, w\<lparr>w_os := os\<rparr>)" using rd by blast
  obtain d2 os2 where rd2: "read_date (base_env env) (w\<lparr>w_os := os\<rparr>) = (Inr d2, w\<lparr>w_os := os2\<rparr>)"
    using rd [of "w\<lparr>w_os := os\<rparr>"] by auto
  have "f_connections w' = f_connections w \<and> same_positions w w'"
    using assms rd1 rd2
    by (auto simp: process_saved_timeout_def Let_def act_bind_def act_when_def act_return_def base_callback
        same_positions_def w_heap_upd_conn move_timeout_position split: if_splits sum.splits)
  then show "f_connections w' = f_connections w" "same_positions w w'" by simp_all
qed

definition closing :: "pollfd list \<Rightarrow> 'u world \<Rightarrow> conn \<Rightarrow> bool" where
  "closing fds w c \<longleftrightarrow> f_fds_position (w_heap w c) \<ge> 0 \<and>
     closes (fd_revents (fds ! nat (f_fds_position (w_heap w c))))"

lemma process_connection_base:
  assumes "distinct_connections w" and "process_connection (base_env env) fds (c, e) w = (Inr (), w')"
  shows "f_connections w' = (if e \<and> closing fds w c then remove1 c (f_connections w) else f_connections w)"
    and "same_positions w w'"
proof -
  have "f_connections w' = (if e \<and> closing fds w c then remove1 c (f_connections w) else f_connections w)
      \<and> same_positions w w'"
  proof (cases e)
    case True
    then obtain w1 where w1: "process_fd (base_env env) fds c w = (Inr (), w1)"
        "process_saved_timeout (base_env env) c w1 = (Inr (), w')"
      using assms(2) by (auto simp: process_connection_def act_when_def act_bind_def split: prod.splits sum.splits)
    have "f_connections w1 = (if closing fds w c then remove1 c (f_connections w) else f_connections w)"
        "w_heap w1 = w_heap w"
      using w1(1) process_revents_base [OF assms(1)]
      by (auto simp: process_fd_def Let_def closing_def split: if_splits)
    with True process_saved_timeout_base [OF w1(2)] show ?thesis by (simp add: same_positions_def)
  next
    case False
    with assms(2) show ?thesis
      by (simp add: process_connection_def act_when_def act_return_def same_positions_def)
  qed
  then show "f_connections w' = (if e \<and> closing fds w c then remove1 c (f_connections w) else f_connections w)"
    and "same_positions w w'" by simp_all
qed

lemma process_connections_base:
  assumes "distinct_connections w"
    and "act_each (process_connection (base_env env) fds) ces w = (Inr (), w')"
  shows "f_connections w' =
     filter (\<lambda>d. \<not> (\<exists>e. (d, e) \<in> set ces \<and> e \<and> closing fds w d)) (f_connections w)"
  using assms
proof (induction ces arbitrary: w)
  case (Cons ce ces)
  obtain c e where ce: "ce = (c, e)" by (cases ce)
  obtain w1 where w1: "process_connection (base_env env) fds (c, e) w = (Inr (), w1)"
      "act_each (process_connection (base_env env) fds) ces w1 = (Inr (), w')"
    using Cons.prems(2) by (auto simp: ce act_bind_def split: prod.splits sum.splits)
  note b = process_connection_base [OF Cons.prems(1) w1(1)]
  have cl: "closing fds w1 d = closing fds w d" for d
    using b(2) by (simp add: closing_def same_positions_def)
  have dist: "distinct (f_connections w)" using Cons.prems(1) by (simp add: distinct_connections_def)
  then have "distinct_connections w1" by (simp add: distinct_connections_def b(1))
  from Cons.IH [OF this w1(2)] dist show ?case
    by (auto simp: b(1) cl ce distinct_remove1_removeAll removeAll_filter_not_eq intro!: filter_cong)
qed (simp add: act_return_def)

lemma poll_fields_base [simp]:
  "poll_events (base_env env) c w = poll_events env c w"
  "steady (base_env env) = steady env"
  "polled (base_env env) w c = polled env w c"
  "poll_entry (base_env env) = poll_entry env"
  "ready (base_env env) w cs = ready env w cs"
  "poll (base_env env) = poll env"
proof -
  show ev: "poll_events (base_env env) c w = poll_events env c w" for c w
    by (simp add: poll_events_def base_env_def)
  show "steady (base_env env) = steady env"
    unfolding steady_def ev by (simp add: base_env_def)
  show p: "polled (base_env env) w c = polled env w c" for c
    unfolding polled_def ev by (simp add: base_env_def)
  show "poll_entry (base_env env) = poll_entry env"
    unfolding poll_entry_def ev by (simp add: base_env_def fun_eq_iff)
  show "ready (base_env env) w cs = ready env w cs" unfolding ready_def p ..
  show "poll (base_env env) = poll env" by (simp add: base_env_def)
qed

lemma ready_distinct: "distinct cs \<Longrightarrow> distinct (ready env w cs)"
  by (simp add: ready_def)

lemma set_ready: "set (ready env w cs) = {c \<in> set cs. polled env w c}"
  by (auto simp: ready_def)

text \<open>The position saved in a connection is its index among those polled.\<close>

lemma ready_takeWhile:
  assumes "distinct cs" and "i < length (ready env w cs)"
  shows "length (ready env w (takeWhile (\<lambda>d. d \<noteq> ready env w cs ! i) cs)) = i"
  using assms
proof (induction cs arbitrary: i)
  case (Cons c cs)
  have mem: "ready env w cs ! j \<in> set cs" if "j < length (ready env w cs)" for j
    using nth_mem [OF that] by (auto simp: set_ready)
  show ?case
  proof (cases "polled env w c")
    case True
    with Cons mem show ?thesis by (cases i) auto
  next
    case False
    with Cons mem [of i] show ?thesis by auto
  qed
qed simp

lemma prepare_positions:
  assumes "steady env" and "distinct cs" and "prepare env cs [] [] nt w = (en', fds', nt', w')"
  shows "i < length (ready env w cs) \<Longrightarrow> f_fds_position (w_heap w' (ready env w cs ! i)) = int i"
    and "c \<in> set cs \<Longrightarrow> \<not> polled env w c \<Longrightarrow> f_fds_position (w_heap w' c) = -1"
proof -
  assume i: "i < length (ready env w cs)"
  let ?c = "ready env w cs ! i"
  have c: "?c \<in> set cs" "polled env w ?c" using nth_mem [OF i] by (auto simp: set_ready)
  then have "f_enabled (w_heap w ?c)" by (simp add: polled_def)
  with c prepare_heap [OF assms c(1)] ready_takeWhile [OF assms(2) i]
  show "f_fds_position (w_heap w' ?c) = int i" by (simp add: prepared_def)
next
  assume "c \<in> set cs" "\<not> polled env w c"
  with prepare_heap [OF assms] show "f_fds_position (w_heap w' c) = -1" by (simp add: prepared_def)
qed

text \<open>
  Every event goes to the connection it was asked for. After the first loop the vector
  given to \<^verbatim>\<open>poll()\<close> has one entry per enabled connection that waits for something on a valid
  socket, in the order of the connections; the position saved in each of those is the index of
  its own entry, and the position of every other connection is -1, so no event is looked up
  outside the vector.
\<close>

theorem fds_positions_exact:
  assumes "steady env" and "distinct cs" and "prepare env cs [] [] nt w = (en, fds, nt', w')" and "c \<in> set cs"
  shows "if polled env w c
     then 0 \<le> f_fds_position (w_heap w' c) \<and> nat (f_fds_position (w_heap w' c)) < length fds \<and>
       fds ! nat (f_fds_position (w_heap w' c)) = poll_entry env w c
     else f_fds_position (w_heap w' c) = -1"
proof (cases "polled env w c")
  case True
  then have "c \<in> set (ready env w cs)" using assms(4) by (simp add: set_ready)
  then obtain i where i: "i < length (ready env w cs)" "c = ready env w cs ! i" by (auto simp: in_set_conv_nth)
  with True prepare_positions(1) [OF assms(1-3) i(1)] prepare_result [OF assms(1-3)] show ?thesis by simp
next
  case False
  with prepare_positions(2) [OF assms] show ?thesis by simp
qed

text \<open>What a turn of the loop that neither throws nor ends it went through.\<close>

lemma turn_steps:
  assumes "turn (base_env env) w = (Inr None, w')"
    and "prepare (base_env env) (f_connections (sort_connections w)) [] [] int64_max (sort_connections w) = (en, fds, nt, w2)"
  obtains t os n revs os' w4 where "poll env fds t os = (Inr (n, revs), os')" "w_heap w4 = w_heap w2"
    "f_connections w4 = f_connections w2"
    "act_each (process_connection (base_env env) (map2 (\<lambda>fd r. fd\<lparr>fd_revents := r\<rparr>) fds revs))
       (zip (f_connections (sort_connections w)) en) w4 = (Inr (), w')"
proof -
  have nonempty: "f_connections w \<noteq> []" using assms(1) by (auto simp: turn_def)
  obtain t w3 fds' n w4 where w3: "poll_wait (base_env env) nt w2 = (Inr t, w3)"
      and w4: "call_poll (base_env env) fds t w3 = (Inr (fds', n), w4)"
      and each: "act_each (process_connection (base_env env) fds') (zip (f_connections (sort_connections w)) en) w4 = (Inr (), w')"
    using assms nonempty
    by (auto simp: turn_def Let_def act_bind_def act_throw_def act_return_def
        split: if_splits prod.splits sum.splits)
  obtain revs os os' where "poll env fds (to_int32 t) os = (Inr (n, revs), os')"
      and fds': "fds' = map2 (\<lambda>fd r. fd\<lparr>fd_revents := r\<rparr>) fds revs"
      and "w_heap w4 = w_heap w3" "f_connections w4 = f_connections w3"
    using w4 by (auto simp: call_poll_def Let_def split: prod.splits sum.splits)
  moreover have "w_heap w3 = w_heap w2" "f_connections w3 = f_connections w2"
    using w3 by (auto simp: poll_wait_def read_date_def act_bind_def act_lift_def act_return_def
        split: if_splits prod.splits sum.splits)
  ultimately show ?thesis using that each by simp
qed

lemma closing_iff_closes:
  assumes st: "steady (base_env env)" and dist: "distinct cs"
    and p: "prepare (base_env env) cs [] [] int64_max w1 = (en, fds, nt, w2)"
    and len: "length revs = length (ready env w1 cs)" and d: "d \<in> set cs"
    and h4: "w_heap w4 = w_heap w2" "f_connections w4 = f_connections w2"
  shows "(\<exists>e. (d, e) \<in> set (zip cs en) \<and> e \<and> closing (map2 (\<lambda>fd r. fd\<lparr>fd_revents := r\<rparr>) fds revs) w4 d) \<longleftrightarrow>
    (\<exists>i < length revs. ready env w1 cs ! i = d \<and> closes (revs ! i))"
proof -
  let ?rd = "ready env w1 cs" and ?fds' = "map2 (\<lambda>fd r. fd\<lparr>fd_revents := r\<rparr>) fds revs"
  note res = prepare_result [OF st dist p, simplified]
  note pos = prepare_positions [OF st dist p, simplified]
  have en: "(d, e) \<in> set (zip cs en) \<longleftrightarrow> e = f_enabled (w_heap w1 d)" for e
    using res d by (auto simp: zip_map2 set_zip in_set_conv_nth)
  have rev: "fd_revents (?fds' ! i) = revs ! i" if "i < length revs" for i
    using that len res by simp
  show ?thesis
  proof (cases "polled env w1 d")
    case True
    then have "d \<in> set ?rd" using d by (simp add: set_ready)
    then obtain i where i: "i < length ?rd" "d = ?rd ! i" by (auto simp: in_set_conv_nth)
    have uniq: "?rd ! j = d \<longleftrightarrow> j = i" if "j < length revs" for j
      using i that len ready_distinct [OF dist, of env w1] by (simp add: nth_eq_iff_index_eq)
    have "f_enabled (w_heap w1 d)" using True by (simp add: polled_def)
    moreover have "closing ?fds' w4 d \<longleftrightarrow> closes (revs ! i)"
      using i pos(1) [OF i(1)] rev [of i] len by (simp add: closing_def h4)
    ultimately show ?thesis using en uniq i len by auto
  next
    case False
    with pos(2) [OF d] have "\<not> closing ?fds' w4 d" by (simp add: closing_def h4)
    moreover have "?rd ! i \<noteq> d" if "i < length revs" for i
      using nth_mem [of i ?rd] that len False by (auto simp: set_ready)
    ultimately show ?thesis by blast
  qed
qed

text \<open>
  C4 (functional): a turn of the loop with the callbacks of the base class. When the turn neither
  throws nor ends the loop, the connections left are, in priority order, exactly those for
  which \<^verbatim>\<open>poll()\<close> reported no error, no hang up and no invalid descriptor; nothing else is
  removed, and each report is applied to the connection it belongs to.
\<close>

theorem turn_removes_closed:
  assumes "steady env" and "distinct_connections w" and "turn (base_env env) w = (Inr None, w')"
  shows "\<exists>timeout os n revs os'.
     poll env (map (poll_entry env (sort_connections w)) (ready env (sort_connections w) (f_connections (sort_connections w))))
       timeout os = (Inr (n, revs), os') \<and>
     (length revs = length (ready env (sort_connections w) (f_connections (sort_connections w))) \<longrightarrow>
      f_connections w' =
        filter (\<lambda>c. \<not> (\<exists>i < length revs.
             ready env (sort_connections w) (f_connections (sort_connections w)) ! i = c \<and> closes (revs ! i)))
          (f_connections (sort_connections w)))"
proof -
  let ?w1 = "sort_connections w"
  let ?cs = "f_connections ?w1"
  let ?rd = "ready env ?w1 ?cs"
  obtain en fds nt w2 where p: "prepare (base_env env) ?cs [] [] int64_max ?w1 = (en, fds, nt, w2)"
    by (metis prod.exhaust)
  have st: "steady (base_env env)" using assms(1) by simp
  have dist: "distinct ?cs" using assms(2) by (simp add: sort_connections_def distinct_connections_def)
  note res = prepare_result [OF st dist p, simplified]
  obtain t os n revs os' w4 where poll: "poll env fds t os = (Inr (n, revs), os')" and h4: "w_heap w4 = w_heap w2"
      "f_connections w4 = f_connections w2" and each: "act_each (process_connection (base_env env)
        (map2 (\<lambda>fd r. fd\<lparr>fd_revents := r\<rparr>) fds revs)) (zip ?cs en) w4 = (Inr (), w')"
    using turn_steps [OF assms(3) p] by blast
  have "f_connections w' = filter (\<lambda>d. \<not> (\<exists>e. (d, e) \<in> set (zip ?cs en) \<and> e \<and>
      closing (map2 (\<lambda>fd r. fd\<lparr>fd_revents := r\<rparr>) fds revs) w4 d)) ?cs"
    using process_connections_base [OF _ each] dist res by (simp add: h4 distinct_connections_def)
  then have "f_connections w' = filter (\<lambda>c. \<not> (\<exists>i < length revs. ?rd ! i = c \<and> closes (revs ! i))) ?cs"
    if "length revs = length ?rd"
    using closing_iff_closes [OF st dist p that _ h4] by (auto cong: filter_cong)
  moreover have "fds = map (poll_entry env ?w1) ?rd" using res by simp
  ultimately show ?thesis using poll by blast
qed

definition input_plan :: "'u comm_env \<Rightarrow> conn \<Rightarrow> revents \<Rightarrow> 'u world \<Rightarrow> event list" where
  "input_plan env c r w =
     (if has_event r (POLLIN OR POLLPRI)
      then (if is_signal env c w then (if signal_object env c then [Ev_signal] else [])
            else if is_listener env c w then [Ev_accept] else [Ev_read]) else [])"

definition event_plan :: "'u comm_env \<Rightarrow> conn \<Rightarrow> revents \<Rightarrow> 'u world \<Rightarrow> event list" where
  "event_plan env c r w =
     input_plan env c r w
     @ (if has_event r POLLOUT then [Ev_write] else [])
     @ (if has_event r POLLERR then [Ev_error] else [])
     @ (if has_event r (POLLHUP OR POLLRDHUP) then [Ev_hup] else [])
     @ (if has_event r POLLNVAL then [Ev_invalid] else [])"

lemma act_bind_unit_cong: "m w = m' w \<Longrightarrow> act_bind m f w = act_bind m' f w"
  by (simp add: act_bind_def)

lemma act_each_single: "act_each f [x] = f x"
proof -
  have "(\<lambda>_::unit. act_return ()) = act_return" by (auto simp: fun_eq_iff)
  then show ?thesis by simp
qed

lemma act_when_each: "act_when b (callback env e c) = act_each (\<lambda>e. callback env e c) (if b then [e] else [])"
  by (simp add: act_when_def act_each_single del: act_each.simps(2))


text \<open>
  A connection is in the communicator at most once. Adding and removing keep the list
  free of duplicates, and so does a whole run, however long it is and whether it returns,
  throws or goes on, as long as the callbacks do.
\<close>

theorem run_keeps_distinct:
  assumes "\<And>e c. keeps distinct_connections (callback env e c)"
  shows "keeps distinct_connections (add_connection env copt) \<and>
     keeps distinct_connections (remove_connection env c) \<and>
     keeps distinct_connections (run n env)"
  using add_connection_distinct [OF assms] remove_connection_distinct [OF assms]
    loop_invariant.run_keeps [OF distinct_loop [OF assms]] by blast

lemma run_loop_last:
  assumes "\<And>e c. keeps distinct_connections (callback env e c)" and "distinct_connections w"
    and "run_loop n env w = (Inr (Some b), w')"
  shows "\<exists>w0. distinct_connections w0 \<and> turn env w0 = (Inr (Some b), w')"
  using assms(2,3)
proof (induction n arbitrary: w)
  case (Suc n)
  obtain r w1 where t: "turn env w = (Inr r, w1)"
    using Suc.prems(2) by (auto simp: act_bind_def split: prod.splits sum.splits)
  have "distinct_connections w1"
    using keepsD [OF loop_invariant.turn_keeps [OF distinct_loop [OF assms(1)]] Suc.prems(1)] t by simp
  with Suc t show ?case
    by (cases r) (auto simp: act_bind_def act_return_def)
qed (simp add: act_return_def)

lemma turn_Some:
  assumes "steady env" and "distinct_connections w" and "turn env w = (Inr (Some b), w')"
  shows "if b then f_connections w' = []
     else f_connections w' \<noteq> [] \<and>
       (\<forall>c \<in> set (f_connections w'). f_enabled (w_heap w' c) \<longrightarrow>
          (get_timeout_timestamp (w_heap w' c) = -1 \<or> int64_max \<le> get_timeout_timestamp (w_heap w' c))
          \<and> \<not> polled env w' c)"
proof (cases "f_connections w = []")
  case True
  with assms(3) show ?thesis by (simp add: turn_def)
next
  case False
  let ?w1 = "sort_connections w"
  let ?cs = "f_connections ?w1"
  obtain en fds nt w2 where p: "prepare env ?cs [] [] int64_max ?w1 = (en, fds, nt, w2)"
    by (metis prod.exhaust)
  have dist: "distinct ?cs" using assms(2) by (simp add: sort_connections_def distinct_connections_def)
  note res = prepare_result [OF assms(1) dist p, simplified]
  have r: "\<not> b" "w' = w2" "nt = int64_max" "fds = []"
    using assms(3) False p
    by (auto simp: turn_def Let_def act_bind_def act_throw_def act_return_def
        split: if_splits prod.splits sum.splits)
  have cs: "?cs \<noteq> []" using False by (auto simp: sort_connections_def dest: arg_cong [where f = length])
  have "(get_timeout_timestamp (w_heap w2 c) = -1 \<or> int64_max \<le> get_timeout_timestamp (w_heap w2 c))
      \<and> \<not> polled env w2 c" if c: "c \<in> set ?cs" "f_enabled (w_heap w2 c)" for c
  proof -
    note h = prepare_heap [OF assms(1) dist p c(1)]
    have en: "f_enabled (w_heap ?w1 c)" using c(2) unfolding h by (simp add: prepared_def split: if_splits)
    have ts: "get_timeout_timestamp (w_heap w2 c) = get_timeout_timestamp (w_heap ?w1 c)"
      unfolding h by (simp add: prepared_def get_timeout_timestamp_def)
    have "w_os w2 = w_os ?w1" using res by simp
    then have "polled env w2 c = polled env ?w1 c"
      using en c(2) by (intro polled_same_os [OF assms(1)]) simp_all
    moreover have "\<not> polled env ?w1 c" using res r(4) c(1) by (auto simp: ready_def filter_empty_conv)
    moreover have "int64_max \<le> t" if "stamp ?w1 c = Some t" for t
      using foldl_earliest_le(2) [of t "map (stamp ?w1) ?cs" int64_max] res r(3) c(1) that by force
    ultimately show ?thesis using en ts by (cases "get_timeout_timestamp (w_heap ?w1 c) = -1") (simp_all add: stamp_def)
  qed
  with r cs res show ?thesis by auto
qed

text \<open>
  What \<^verbatim>\<open>run()\<close> returning means. It returns true only with no connection left, and false
  only when some are left but none of the enabled ones has a timeout or anything to wait for;
  either way it can be called again.
\<close>

theorem run_result:
  assumes "steady env" and "\<And>e c. keeps distinct_connections (callback env e c)" and "distinct_connections w"
    and "run n env w = (Inr (Some b), w')"
  shows "\<not> f_running w' \<and>
     (if b then f_connections w' = []
      else f_connections w' \<noteq> [] \<and>
        (\<forall>c \<in> set (f_connections w'). f_enabled (w_heap w' c) \<longrightarrow>
           (get_timeout_timestamp (w_heap w' c) = -1 \<or> int64_max \<le> get_timeout_timestamp (w_heap w' c))
           \<and> \<not> polled env w' c))"
proof -
  obtain w1 where w1: "run_loop n env (w\<lparr>f_running := True, f_force_sort := True\<rparr>) = (Inr (Some b), w1)"
      "w' = w1\<lparr>f_running := False\<rparr>"
    using assms(4) by (auto simp: run_def split: if_splits prod.splits sum.splits option.splits)
  have "distinct_connections (w\<lparr>f_running := True, f_force_sort := True\<rparr>)"
    using assms(3) by (simp add: distinct_connections_def)
  from run_loop_last [OF assms(2) this w1(1)] obtain w0
    where "distinct_connections w0" "turn env w0 = (Inr (Some b), w1)" by blast
  note t = turn_Some [OF assms(1) this]
  have "polled env w' c = polled env w1 c" for c
    by (rule polled_same_os [OF assms(1)]) (simp_all add: w1(2))
  with t show ?thesis by (auto simp: w1(2))
qed

text \<open>
  Connections are served by priority. When the flag asks for it the list is put in increasing
  priority with equal priorities in their old order, every connection stays, and the flag is
  cleared; \<^verbatim>\<open>set_priority()\<close> with a value in range always asks for it.
\<close>

theorem connections_sorted_by_priority:
  assumes "set_priority c p w = (Inr (), w1)"
  shows "0 \<le> p \<and> p \<le> 255 \<and> w_heap w1 c = (w_heap w c)\<lparr>f_priority := p\<rparr> \<and>
     sorted (map (\<lambda>d. f_priority (w_heap w1 d)) (f_connections (sort_connections w1))) \<and>
     mset (f_connections (sort_connections w1)) = mset (f_connections w) \<and>
     (\<forall>q. filter (\<lambda>d. f_priority (w_heap w1 d) = q) (f_connections (sort_connections w1)) =
        filter (\<lambda>d. f_priority (w_heap w1 d) = q) (f_connections w)) \<and>
     \<not> f_force_sort (sort_connections w1)"
proof -
  have "0 \<le> p" "p \<le> 255" and w1: "w1 = set_force_sort True (upd_conn c (\<lambda>x. x\<lparr>f_priority := p\<rparr>) w)"
    using assms by (auto simp: set_priority_def check_priority_def EVENT_MIN_PRIORITY_def EVENT_MAX_PRIORITY_def
        split: if_splits)
  moreover have "f_force_sort w1" "f_connections w1 = f_connections w" "w_heap w1 c = (w_heap w c)\<lparr>f_priority := p\<rparr>"
    by (simp_all add: w1 set_force_sort_def w_heap_upd_conn)
  ultimately show ?thesis
    by (simp add: sort_connections_def sort_key_stable)
qed

text \<open>
  A connection added while the loop runs is not sorted in. \<^verbatim>\<open>add_connection()\<close> does not ask for a
  sort, so after it the next turn serves the new connection last, whatever its priority.
\<close>

theorem late_connection_served_last:
  assumes "valid_socket env c w" and "c \<notin> set (f_connections w)" and "\<not> f_force_sort w"
    and "callback env Ev_added c = act_return ()"
  shows "\<exists>w1. add_connection env (Some c) w = (Inr True, w1) \<and>
     f_connections (sort_connections w1) = f_connections w @ [c]"
  using assms by (simp add: add_connection_def sort_connections_def act_return_def)

section \<open>Witnesses\<close>

text \<open>Two readers and a timer; the clock moves by a microsecond per reading, and \<^verbatim>\<open>poll()\<close> reports a
  hang up on the sockets of odd number.\<close>

definition demo_comm :: "int comm_env" where
  "demo_comm = \<lparr>is_listener = (\<lambda>_ _. False), is_signal = (\<lambda>_ _. False), is_reader = (\<lambda>c _. c \<noteq> 2),
     is_writer = (\<lambda>_ _. False), get_socket = (\<lambda>c _. int c), valid_socket = (\<lambda>_ _. True),
     signal_object = (\<lambda>_. False), get_current_date = (\<lambda>t. (t, t + 1)), now_ns = (\<lambda>t. (t, t)),
     poll = (\<lambda>fds _ t. (Inr (length fds, map (\<lambda>fd. if odd (fd_fd fd) then POLLHUP else 0) fds), t)),
     callback = (\<lambda>_ _. act_return ())\<rparr>"

definition demo_world :: "int world" where
  "demo_world = (new_communicator (\<lambda>c. if c = 2 then demo_timer else new_connection) 1050)\<lparr>
     f_connections := [0, 1, 2]\<rparr>"

lemma demo_comm_steady: "steady demo_comm"
  by (simp add: steady_def demo_comm_def poll_events_def)

lemma demo_world_distinct: "distinct_connections demo_world"
  by (simp add: distinct_connections_def demo_world_def new_communicator_def)

lemma demo_prepare:
  "prepare demo_comm [0, 1, 2] [] [] int64_max demo_world =
     ([True, True, True],
      [\<lparr>fd_fd = 0, fd_events = POLLIN OR POLLPRI OR POLLRDHUP, fd_revents = 0\<rparr>,
       \<lparr>fd_fd = 1, fd_events = POLLIN OR POLLPRI OR POLLRDHUP, fd_revents = 0\<rparr>], 1100,
      demo_world\<lparr>w_heap := (w_heap demo_world)
        (0 := new_connection\<lparr>f_fds_position := 0\<rparr>, 1 := new_connection\<lparr>f_fds_position := 1\<rparr>,
         2 := demo_timer\<lparr>f_saved_timeout_stamp := 1100\<rparr>)\<rparr>)"
  by (simp add: Let_def upd_conn_def demo_world_def new_communicator_def demo_comm_def poll_events_def poll_defs
      save_timeout_timestamp_def get_timeout_timestamp_def new_connection_def demo_timer_def int64_max_def)


theorem fds_positions_exact_witness:
  "\<exists>en fds nt w'. prepare demo_comm [0, 1, 2] [] [] int64_max demo_world = (en, fds, nt, w') \<and>
     (if polled demo_comm demo_world 1
      then 0 \<le> f_fds_position (w_heap w' 1) \<and> nat (f_fds_position (w_heap w' 1)) < length fds \<and>
        fds ! nat (f_fds_position (w_heap w' 1)) = poll_entry demo_comm demo_world 1
      else f_fds_position (w_heap w' 1) = -1)"
proof -
  have "distinct [0, 1, 2 :: conn]" "1 \<in> set [0, 1, 2 :: conn]" by simp_all
  from fds_positions_exact [OF demo_comm_steady this(1) demo_prepare this(2)] demo_prepare show ?thesis by blast
qed

theorem run_keeps_distinct_witness:
  "distinct_connections (snd (run 5 (base_env demo_comm) demo_world))"
proof -
  have "keeps distinct_connections (run 5 (base_env demo_comm))"
    using run_keeps_distinct [OF base_callback_distinct, where n = 5] by blast
  then show ?thesis by (rule keepsD) (rule demo_world_distinct)
qed

theorem late_connection_served_last_witness:
  "\<exists>w1. add_connection demo_comm (Some 7) (demo_world\<lparr>f_force_sort := False\<rparr>) = (Inr True, w1) \<and>
     f_connections (sort_connections w1) = f_connections (demo_world\<lparr>f_force_sort := False\<rparr>) @ [7]"
  by (rule late_connection_served_last) (simp_all add: demo_comm_def demo_world_def new_communicator_def)

theorem connections_sorted_by_priority_witness:
  "sorted (map (\<lambda>d. f_priority (w_heap (snd (set_priority 2 50 demo_world)) d))
     (f_connections (sort_connections (snd (set_priority 2 50 demo_world)))))"
proof -
  have "set_priority 2 50 demo_world = (Inr (), snd (set_priority 2 50 demo_world))"
    by (simp add: set_priority_def check_priority_def EVENT_MIN_PRIORITY_def EVENT_MAX_PRIORITY_def)
  from connections_sorted_by_priority [OF this] show ?thesis by blast
qed

definition demo_hup :: "int world" where
  "demo_hup = demo_world\<lparr>f_connections := [1]\<rparr>"

lemma demo_hup_runs: "fst (run 3 (base_env demo_comm) demo_hup) = Inr (Some True)"
  by code_simp

theorem run_result_witness:
  "f_connections (snd (run 3 (base_env demo_comm) demo_hup)) = []
   \<and> \<not> f_running (snd (run 3 (base_env demo_comm) demo_hup))"
proof -
  have "run 3 (base_env demo_comm) demo_hup = (Inr (Some True), snd (run 3 (base_env demo_comm) demo_hup))"
    using demo_hup_runs by (metis prod.collapse)
  moreover have "steady (base_env demo_comm)" "distinct_connections demo_hup"
    using demo_comm_steady by (simp_all add: demo_hup_def distinct_connections_def)
  ultimately show ?thesis
    using run_result [OF _ base_callback_distinct, of demo_comm demo_hup 3 True] by simp
qed

theorem turn_removes_closed_witness:
  "\<exists>timeout os n revs os' w'.
     turn (base_env demo_comm) demo_world = (Inr None, w') \<and>
     poll demo_comm (map (poll_entry demo_comm (sort_connections demo_world))
         (ready demo_comm (sort_connections demo_world) (f_connections (sort_connections demo_world))))
       timeout os = (Inr (n, revs), os') \<and>
     (length revs = length (ready demo_comm (sort_connections demo_world) (f_connections (sort_connections demo_world))) \<longrightarrow>
      f_connections w' =
        filter (\<lambda>c. \<not> (\<exists>i < length revs.
             ready demo_comm (sort_connections demo_world) (f_connections (sort_connections demo_world)) ! i = c
             \<and> closes (revs ! i)))
          (f_connections (sort_connections demo_world)))"
proof -
  have "fst (turn (base_env demo_comm) demo_world) = Inr None" by code_simp
  then have t: "turn (base_env demo_comm) demo_world = (Inr None, snd (turn (base_env demo_comm) demo_world))"
    by (metis prod.collapse)
  from turn_removes_closed [OF demo_comm_steady demo_world_distinct t] t show ?thesis by blast
qed

end
