(* ===== verification/Lexer.thy ===== *)
theory Lexer
  imports Prelude "HOL-Library.Word"
begin

unbundle bit_operations_syntax

text \<open>
  The lexer of the reporter's test language: \<^verbatim>\<open>reporter/lexer.cpp\<close> and \<^verbatim>\<open>reporter/token.cpp\<close>. The
  program is the list of code points the UTF-8 iterator of \<^verbatim>\<open>libutf8\<close> gives; past its end the
  iterator keeps giving \<^verbatim>\<open>EOS\<close>. The conversions of \<^verbatim>\<open>libutf8\<close>, \<^verbatim>\<open>advgetopt\<close>, \<^verbatim>\<open>snapdev\<close> and
  \<^verbatim>\<open>libaddr\<close> are fields of \<open>lex_env\<close>, and floating point numbers are a type \<open>'d\<close>.
\<close>

section \<open>Tokens\<close>

datatype token_t =
    TOKEN_EOF
  | TOKEN_ERROR
  | TOKEN_IDENTIFIER
  | TOKEN_FLOATING_POINT
  | TOKEN_INTEGER
  | TOKEN_TIMESPEC
  | TOKEN_ADDRESS
  | TOKEN_VARIABLE
  | TOKEN_COMPARE
  | TOKEN_OPEN_PARENTHESIS
  | TOKEN_CLOSE_PARENTHESIS
  | TOKEN_OPEN_CURLY_BRACE
  | TOKEN_CLOSE_CURLY_BRACE
  | TOKEN_OPEN_SQUARE_BRACE
  | TOKEN_CLOSE_SQUARE_BRACE
  | TOKEN_COMMA
  | TOKEN_COLON
  | TOKEN_DOUBLE_STRING
  | TOKEN_SINGLE_STRING
  | TOKEN_REGEX
  | TOKEN_PLUS
  | TOKEN_MINUS
  | TOKEN_MULTIPLY
  | TOKEN_DIVIDE
  | TOKEN_MODULO

record 'd token =
  t_token :: token_t
  t_line :: "32 word"
  t_column :: "32 word"
  t_integer :: i128
  t_floating_point :: 'd
  t_string :: string

definition set_token :: "token_t \<Rightarrow> 'd token \<Rightarrow> 'd token result" where
  "set_token k t =
     (if t_token t \<noteq> TOKEN_EOF \<and> k \<noteq> TOKEN_ERROR then Inl Implementation_error
      else Inr (t\<lparr>t_token := k\<rparr>))"

section \<open>Reading characters\<close>

type_synonym code_point = nat

definition EOS :: code_point where "EOS = 0xFFFFFFFF"

abbreviation u :: "char \<Rightarrow> code_point" where "u c \<equiv> of_char c"

record lexer =
  f_filename :: string
  f_input :: "code_point list"
  f_unget :: "code_point list"
  f_line :: "32 word"
  f_column :: "32 word"

record 'd lex_env =
  to_u8 :: "code_point \<Rightarrow> string"
  convert_integer :: "string \<Rightarrow> i64 option"
  convert_double :: "string \<Rightarrow> 'd option"
  double_zero :: 'd
  double_nan :: 'd
  timespec_from_date :: "string \<Rightarrow> (i64 \<times> i64) result"
  timespec_from_string :: "string \<Rightarrow> (i64 \<times> i64) result"
  parse_address :: "string \<Rightarrow> string option result"

definition new_lexer :: "string \<Rightarrow> code_point list \<Rightarrow> lexer" where
  "new_lexer filename program = \<lparr>f_filename = filename, f_input = program, f_unget = [],
     f_line = 1, f_column = 1\<rparr>"

text \<open>A carriage return, alone or with the line feed behind it, is read as one line feed.\<close>

definition getc :: "lexer \<Rightarrow> code_point \<times> lexer" where
  "getc lx =
     (case f_unget lx of
        c # cs \<Rightarrow> (c, lx\<lparr>f_unget := cs\<rparr>)
      | [] \<Rightarrow>
          let (c0, rest0) = (case f_input lx of [] \<Rightarrow> (EOS, []) | c # cs \<Rightarrow> (c, cs));
              (c, rest) =
                (if c0 = 0x0D
                 then (0x0A, case rest0 of d # ds \<Rightarrow> (if d = 0x0A then ds else rest0) | [] \<Rightarrow> [])
                 else (c0, rest0));
              lx' = lx\<lparr>f_input := rest\<rparr>
          in (c, if c = 0x0A then lx'\<lparr>f_line := f_line lx + 1, f_column := 1\<rparr>
                 else lx'\<lparr>f_column := f_column lx + 1\<rparr>))"

text \<open>
  The guard compares the number of elements with \<^verbatim>\<open>sizeof(f_unget)\<close>, the 64 bytes of the array of 16
  characters: the elements 16 to 63 are written past its end.
\<close>

definition ungetc :: "code_point \<Rightarrow> lexer \<Rightarrow> lexer result" where
  "ungetc c lx =
     (if c = EOS then Inr lx
      else if length (f_unget lx) \<ge> 64 then Inl Logic_error
      else if length (f_unget lx) \<ge> 16 then Inl Undefined_behaviour
      else Inr (lx\<lparr>f_unget := c # f_unget lx\<rparr>))"

definition lx_size :: "lexer \<Rightarrow> nat" where
  "lx_size lx = length (f_input lx) + length (f_unget lx)"

lemma getc_size [simp]: "lx_size (snd (getc lx)) \<le> lx_size lx"
  by (simp add: getc_def lx_size_def Let_def split: list.split)

lemma getc_size_less: "fst (getc lx) \<noteq> EOS \<Longrightarrow> lx_size (snd (getc lx)) < lx_size lx"
  by (auto simp: getc_def lx_size_def Let_def EOS_def split: list.splits if_splits)

text \<open>The loops that read while a test holds: the characters read, the one that stopped the loop
  (which is consumed too) and the lexer.\<close>

function scan :: "(code_point \<Rightarrow> bool) \<Rightarrow> lexer \<Rightarrow> code_point list \<Rightarrow> code_point list \<times> code_point \<times> lexer" where
  "scan p lx acc =
     (if fst (getc lx) \<noteq> EOS \<and> p (fst (getc lx))
      then scan p (snd (getc lx)) (acc @ [fst (getc lx)])
      else (acc, getc lx))"
  by pat_completeness auto
termination
  by (relation "measure (\<lambda>(p, lx, acc). lx_size lx)") (auto intro: getc_size_less)

declare scan.simps [simp del]

lemma scan_size [simp]: "lx_size (snd (snd (scan p lx acc))) \<le> lx_size lx"
proof (induction p lx acc rule: scan.induct)
  case (1 p lx acc)
  then show ?case
    using getc_size [of lx] by (subst scan.simps) (auto intro: le_trans)
qed

section \<open>The tokens one by one\<close>

definition is_name_char :: "code_point \<Rightarrow> bool" where
  "is_name_char c \<longleftrightarrow> u CHR ''A'' \<le> c \<and> c \<le> u CHR ''Z'' \<or> u CHR ''a'' \<le> c \<and> c \<le> u CHR ''z''
     \<or> u CHR ''0'' \<le> c \<and> c \<le> u CHR ''9'' \<or> c = u CHR ''_''"

definition is_digit_char :: "code_point \<Rightarrow> bool" where
  "is_digit_char c \<longleftrightarrow> u CHR ''0'' \<le> c \<and> c \<le> u CHR ''9''"

definition is_hex_char :: "code_point \<Rightarrow> bool" where
  "is_hex_char c \<longleftrightarrow> is_digit_char c \<or> u CHR ''A'' \<le> c \<and> c \<le> u CHR ''F'' \<or> u CHR ''a'' \<le> c \<and> c \<le> u CHR ''f''"

definition is_number_char :: "code_point \<Rightarrow> bool" where
  "is_number_char c \<longleftrightarrow> is_digit_char c \<or> c \<in> {u CHR ''+'', u CHR ''-'', u CHR ''.'', u CHR ''e'', u CHR ''E''}"

definition hexdigit_to_number :: "code_point \<Rightarrow> nat" where
  "hexdigit_to_number c =
     (if is_digit_char c then c - u CHR ''0''
      else if c \<ge> u CHR ''a'' then c - u CHR ''a'' + 10
      else c - u CHR ''A'' + 10)"

definition to_u8string :: "'d lex_env \<Rightarrow> code_point list \<Rightarrow> string" where
  "to_u8string env cs = concat (map (to_u8 env) cs)"

type_synonym 'd lexed = "('d token \<times> lexer) result"

definition lex_error :: "'d token \<Rightarrow> lexer \<Rightarrow> 'd lexed" where
  "lex_error t lx = Inr (t\<lparr>t_token := TOKEN_ERROR\<rparr>, lx)"

definition lex_variable_name :: "'d lex_env \<Rightarrow> 'd token \<Rightarrow> code_point list \<Rightarrow> lexer \<Rightarrow> 'd lexed" where
  "lex_variable_name env t cs lx =
     (if cs = [] then lex_error t lx
      else if hd cs \<le> u CHR ''9'' then lex_error t lx
      else Inr (t\<lparr>t_token := TOKEN_VARIABLE, t_string := to_u8string env cs\<rparr>, lx))"

text \<open>The character that ends a name without braces is read and not put back.\<close>

definition lex_variable :: "'d lex_env \<Rightarrow> 'd token \<Rightarrow> lexer \<Rightarrow> 'd lexed" where
  "lex_variable env t lx =
     (let (c, lx1) = getc lx in
      if c = u CHR ''{''
      then (case scan is_name_char lx1 [] of
          (cs, stop, lx2) \<Rightarrow>
            if stop = u CHR ''}'' then lex_variable_name env t cs lx2 else lex_error t lx2)
      else if is_name_char c
      then (case scan is_name_char lx1 [c] of (cs, stop, lx2) \<Rightarrow> lex_variable_name env t cs lx2)
      else lex_variable_name env t [] lx1)"

definition timespec_integer :: "i64 \<times> i64 \<Rightarrow> i128" where
  "timespec_integer ts = push_bit 64 (i128_of_i64 (fst ts)) OR i128_of_i64 (snd ts)"

definition timespec_token :: "'d lex_env \<Rightarrow> 'd token \<Rightarrow> string \<Rightarrow> i64 \<times> i64 \<Rightarrow> lexer \<Rightarrow> 'd lexed" where
  "timespec_token env t s ts lx =
     (let t1 = t\<lparr>t_integer := timespec_integer ts\<rparr> in
      if s = [] then lex_error t1 lx
      else Inr (t1\<lparr>t_token := TOKEN_TIMESPEC, t_string := s\<rparr>, lx))"

definition lex_timespec :: "'d lex_env \<Rightarrow> 'd token \<Rightarrow> lexer \<Rightarrow> 'd lexed" where
  "lex_timespec env t lx =
     (let (c, lx1) = getc lx in
      if c = 0x27 \<or> c = 0x22
      then (case scan (\<lambda>d. d \<noteq> c) lx1 [] of
          (cs, stop, lx2) \<Rightarrow>
            if stop = EOS then lex_error t lx2
            else res_bind (timespec_from_date env (to_u8string env cs))
              (\<lambda>ts. timespec_token env t (to_u8string env cs) ts lx2))
      else (case scan (\<lambda>d. is_digit_char d \<or> d = u CHR ''.'' \<or> d = u CHR ''s'') lx1 [c] of
          (cs, stop, lx2) \<Rightarrow>
            res_bind (ungetc stop lx2)
              (\<lambda>lx3. res_bind (timespec_from_string env (to_u8string env cs))
                 (\<lambda>ts. timespec_token env t (to_u8string env cs) ts lx3))))"

definition lex_address :: "'d lex_env \<Rightarrow> 'd token \<Rightarrow> lexer \<Rightarrow> 'd lexed" where
  "lex_address env t lx =
     (case scan (\<lambda>d. d \<noteq> u CHR ''>'') lx [] of
        (cs, stop, lx1) \<Rightarrow>
          let s = to_u8string env cs in
          if stop = EOS then lex_error t lx1
          else if s = [] then lex_error t lx1
          else if s = ''='' then Inr (t\<lparr>t_token := TOKEN_COMPARE\<rparr>, lx1)
          else res_bind (parse_address env s)
            (\<lambda>r. case r of
               None \<Rightarrow> lex_error t lx1
             | Some a \<Rightarrow> Inr (t\<lparr>t_token := TOKEN_ADDRESS, t_string := a\<rparr>, lx1)))"

text \<open>The character after a backslash: the escapes, and those that are refused.\<close>

definition unescape :: "code_point \<Rightarrow> code_point result" where
  "unescape c =
     (if c \<in> {0x5C, 0x27, 0x22, 0x60} then Inr c
      else if c = u CHR ''a'' then Inr 0x07
      else if c = u CHR ''b'' then Inr 0x08
      else if c = u CHR ''f'' then Inr 0x0C
      else if c = u CHR ''n'' then Inr 0x0A
      else if c = u CHR ''r'' then Inr 0x0D
      else if c = u CHR ''t'' then Inr 0x09
      else if c = u CHR ''v'' then Inr 0x0B
      else if c \<in> {u CHR ''x'', u CHR ''u'', u CHR ''U''} \<or> is_digit_char c then Inl Fixme
      else Inl Runtime_error)"

text \<open>The body of a string: \<open>None\<close> when it is not closed on its line.\<close>

function string_body :: "code_point \<Rightarrow> lexer \<Rightarrow> code_point list \<Rightarrow> (code_point list option \<times> lexer) result" where
  "string_body quote lx acc =
     (let c = fst (getc lx); lx1 = snd (getc lx) in
      if c = EOS then Inr (None, lx1)
      else if c = 0x0A then Inr (None, lx1)
      else if c = quote then Inr (Some acc, lx1)
      else if c = 0x5C then
        (let d = fst (getc lx1); lx2 = snd (getc lx1) in
         if d = EOS then Inr (None, lx2)
         else res_bind (unescape d) (\<lambda>e. string_body quote lx2 (acc @ [e])))
      else string_body quote lx1 (acc @ [c]))"
  by pat_completeness auto
termination
  by (relation "measure (\<lambda>(q, lx, acc). lx_size lx)")
     (auto intro: getc_size_less le_less_trans [OF getc_size getc_size_less])

declare string_body.simps [simp del]

definition quote_token :: "code_point \<Rightarrow> token_t" where
  "quote_token q =
     (if q = 0x22 then TOKEN_DOUBLE_STRING else if q = 0x27 then TOKEN_SINGLE_STRING else TOKEN_REGEX)"

definition lex_string :: "'d lex_env \<Rightarrow> 'd token \<Rightarrow> code_point \<Rightarrow> lexer \<Rightarrow> 'd lexed" where
  "lex_string env t quote lx =
     res_bind (string_body quote lx [])
       (\<lambda>(r, lx1). case r of
          None \<Rightarrow> lex_error t lx1
        | Some cs \<Rightarrow> Inr (t\<lparr>t_token := quote_token quote, t_string := to_u8string env cs\<rparr>, lx1))"

definition hex_value :: "code_point list \<Rightarrow> i64" where
  "hex_value cs = foldl (\<lambda>v c. push_bit 4 v OR of_nat (hexdigit_to_number c)) 0 cs"

definition lex_hexadecimal :: "'d token \<Rightarrow> lexer \<Rightarrow> 'd lexed" where
  "lex_hexadecimal t lx =
     (case scan is_hex_char lx [] of
        (cs, stop, lx1) \<Rightarrow>
          if cs = [] then Inl Runtime_error
          else res_bind (ungetc stop lx1)
            (\<lambda>lx2. Inr (t\<lparr>t_token := TOKEN_INTEGER, t_integer := i128_of_i64 (hex_value cs)\<rparr>, lx2)))"

definition lex_decimal :: "'d lex_env \<Rightarrow> 'd token \<Rightarrow> code_point \<Rightarrow> lexer \<Rightarrow> 'd lexed" where
  "lex_decimal env t c lx =
     (case scan is_number_char lx [c] of
        (cs, stop, lx1) \<Rightarrow>
          res_bind (ungetc stop lx1)
            (\<lambda>lx2.
               let s = to_u8string env cs in
               if \<exists>d \<in> set cs. d \<in> {u CHR ''.'', u CHR ''e'', u CHR ''E''} then
                 (case convert_double env (if hd s = CHR ''.'' then CHR ''0'' # s else s) of
                    None \<Rightarrow> lex_error t lx2
                  | Some v \<Rightarrow> Inr (t\<lparr>t_token := TOKEN_FLOATING_POINT, t_floating_point := v\<rparr>, lx2))
               else
                 (case convert_integer env s of
                    None \<Rightarrow> lex_error t lx2
                  | Some v \<Rightarrow> Inr (t\<lparr>t_token := TOKEN_INTEGER, t_integer := i128_of_i64 v\<rparr>, lx2))))"

definition lex_number :: "'d lex_env \<Rightarrow> 'd token \<Rightarrow> code_point \<Rightarrow> lexer \<Rightarrow> 'd lexed" where
  "lex_number env t c lx =
     (if c = u CHR ''0'' then
        (let (d, lx1) = getc lx in
         if d = u CHR ''x'' \<or> d = u CHR ''X'' then lex_hexadecimal t lx1
         else res_bind (ungetc d lx1) (lex_decimal env t c))
      else lex_decimal env t c lx)"

definition lex_identifier :: "'d lex_env \<Rightarrow> 'd token \<Rightarrow> code_point \<Rightarrow> lexer \<Rightarrow> 'd lexed" where
  "lex_identifier env t c lx =
     (case scan is_name_char lx [c] of
        (cs, stop, lx1) \<Rightarrow>
          res_bind (ungetc stop lx1)
            (\<lambda>lx2.
               let s = to_u8string env cs in
               Inr (if s = ''NaN'' then t\<lparr>t_token := TOKEN_FLOATING_POINT, t_floating_point := double_nan env\<rparr>
                    else t\<lparr>t_token := TOKEN_IDENTIFIER, t_string := s\<rparr>, lx2)))"

definition punctuation :: "code_point \<Rightarrow> token_t option" where
  "punctuation c =
     map_of [(u CHR ''('', TOKEN_OPEN_PARENTHESIS), (u CHR '')'', TOKEN_CLOSE_PARENTHESIS),
             (u CHR ''['', TOKEN_OPEN_SQUARE_BRACE), (u CHR '']'', TOKEN_CLOSE_SQUARE_BRACE),
             (u CHR ''{'', TOKEN_OPEN_CURLY_BRACE), (u CHR ''}'', TOKEN_CLOSE_CURLY_BRACE),
             (u CHR '','', TOKEN_COMMA), (u CHR '':'', TOKEN_COLON), (u CHR ''+'', TOKEN_PLUS),
             (u CHR ''-'', TOKEN_MINUS), (u CHR ''*'', TOKEN_MULTIPLY), (u CHR ''%'', TOKEN_MODULO)] c"

definition token_at :: "'d lex_env \<Rightarrow> lexer \<Rightarrow> 'd token" where
  "token_at env lx = \<lparr>t_token = TOKEN_EOF, t_line = f_line lx, t_column = f_column lx, t_integer = 0,
     t_floating_point = double_zero env, t_string = []\<rparr>"

text \<open>One round of the loop of \<^verbatim>\<open>next_token()\<close>: a token, or the lexer from where it goes on after a
  blank or a comment.\<close>

definition lex_step :: "'d lex_env \<Rightarrow> lexer \<Rightarrow> ('d lexed + lexer)" where
  "lex_step env lx =
     (let t = token_at env lx; c = fst (getc lx); lx1 = snd (getc lx) in
      if c = EOS then Inl (Inr (t, lx1))
      else if c \<in> {0x0A, 0x20, 0x09, 0x0C} then Inr lx1
      else if punctuation c \<noteq> None then Inl (Inr (t\<lparr>t_token := the (punctuation c)\<rparr>, lx1))
      else if c = u CHR ''/'' then
        (let d = fst (getc lx1); lx2 = snd (getc lx1) in
         if d = u CHR ''/'' then Inr (snd (snd (scan (\<lambda>e. e \<noteq> 0x0A) lx2 [])))
         else Inl (res_bind (ungetc d lx2) (\<lambda>lx3. Inr (t\<lparr>t_token := TOKEN_DIVIDE\<rparr>, lx3))))
      else if c = u CHR ''$'' then Inl (lex_variable env t lx1)
      else if c = u CHR ''@'' then Inl (lex_timespec env t lx1)
      else if c = u CHR ''<'' then Inl (lex_address env t lx1)
      else if c \<in> {0x22, 0x27, 0x60} then Inl (lex_string env t c lx1)
      else if is_digit_char c \<or> c = u CHR ''.'' then Inl (lex_number env t c lx1)
      else if is_name_char c then Inl (lex_identifier env t c lx1)
      else Inl (lex_error t lx1))"

lemma lex_step_size:
  assumes "lex_step env lx = Inr lx'"
  shows "lx_size lx' < lx_size lx"
proof -
  let ?l1 = "snd (getc lx)"
  have "fst (getc lx) \<noteq> EOS"
    and "lx' = ?l1 \<or> lx' = snd (snd (scan (\<lambda>e. e \<noteq> 0x0A) (snd (getc ?l1)) []))"
    using assms by (simp_all add: lex_step_def Let_def split: if_splits)
  then have "lx_size lx' \<le> lx_size ?l1" and "lx_size ?l1 < lx_size lx"
    using getc_size scan_size le_trans getc_size_less by (metis order_refl, blast)
  then show ?thesis by (rule le_less_trans)
qed

function next_token :: "'d lex_env \<Rightarrow> lexer \<Rightarrow> 'd lexed" where
  "next_token env lx = (case lex_step env lx of Inl r \<Rightarrow> r | Inr lx' \<Rightarrow> next_token env lx')"
  by pat_completeness auto
termination
  by (relation "measure (\<lambda>(env, lx). lx_size lx)") (auto dest: lex_step_size)

declare next_token.simps [simp del]

section \<open>What a token consumes\<close>

text \<open>The external conversions throw only exceptions of the set \<open>E\<close>.\<close>

definition conversions_throw :: "failure set \<Rightarrow> 'd lex_env \<Rightarrow> bool" where
  "conversions_throw E env \<longleftrightarrow>
     (\<forall>s e. (timespec_from_date env s = Inl e \<longrightarrow> e \<in> E) \<and>
        (timespec_from_string env s = Inl e \<longrightarrow> e \<in> E) \<and> (parse_address env s = Inl e \<longrightarrow> e \<in> E))"

text \<open>What every scanner of a token keeps: it consumes no more than the input, leaves at most one
  character put back, and throws only the exceptions of the language and of the conversions.\<close>

definition lexed_ok :: "failure set \<Rightarrow> lexer \<Rightarrow> 'd lexed \<Rightarrow> bool" where
  "lexed_ok E lx r \<longleftrightarrow>
     (case r of Inl e \<Rightarrow> e \<in> E \<union> {Fixme, Runtime_error}
      | Inr (t, lx') \<Rightarrow> lx_size lx' \<le> lx_size lx \<and> length (f_unget lx') \<le> 1)"

lemma lexed_okI [intro]: "lx_size lx' \<le> lx_size lx \<Longrightarrow> length (f_unget lx') \<le> 1 \<Longrightarrow> lexed_ok E lx (Inr (t, lx'))"
  by (simp add: lexed_ok_def)

lemma lexed_ok_error: "lx_size lx' \<le> lx_size lx \<Longrightarrow> length (f_unget lx') \<le> 1 \<Longrightarrow> lexed_ok E lx (lex_error t lx')"
  by (simp add: lex_error_def lexed_ok_def)

lemma lexed_ok_bind:
  "(\<And>e. r = Inl e \<Longrightarrow> e \<in> E) \<Longrightarrow> (\<And>x. r = Inr x \<Longrightarrow> lexed_ok E lx (f x)) \<Longrightarrow> lexed_ok E lx (res_bind r f)"
  by (cases r) (simp_all add: lexed_ok_def)

lemma lexed_ok_mono: "lexed_ok E lx1 r \<Longrightarrow> lx_size lx1 \<le> lx_size lx \<Longrightarrow> lexed_ok E lx r"
  by (auto simp: lexed_ok_def split: sum.splits)

lemma getc_unget [simp]: "length (f_unget lx) \<le> 1 \<Longrightarrow> f_unget (snd (getc lx)) = []"
  by (auto simp: getc_def Let_def split: list.splits)

lemma scan_unget [simp]: "length (f_unget lx) \<le> 1 \<Longrightarrow> f_unget (snd (snd (scan p lx acc))) = []"
proof (induction p lx acc rule: scan.induct)
  case (1 p lx acc)
  then show ?case by (subst scan.simps) auto
qed

lemma scan_stop_size: "fst (snd (scan p lx acc)) \<noteq> EOS \<Longrightarrow> lx_size (snd (snd (scan p lx acc))) < lx_size lx"
proof (induction p lx acc rule: scan.induct)
  case (1 p lx acc)
  show ?case
  proof (cases "fst (getc lx) \<noteq> EOS \<and> p (fst (getc lx))")
    case True
    then have "scan p lx acc = scan p (snd (getc lx)) (acc @ [fst (getc lx)])" by (subst scan.simps) simp
    with 1 True getc_size [of lx] show ?thesis by (metis less_le_trans)
  next
    case False
    then have "scan p lx acc = (acc, getc lx)" by (subst scan.simps) auto
    with 1(2) show ?thesis by (simp add: getc_size_less)
  qed
qed

text \<open>Putting back the character that stopped a loop.\<close>

lemma ungetc_after:
  assumes "f_unget lx1 = []" and "c \<noteq> EOS \<Longrightarrow> lx_size lx1 < lx_size lx" and "lx_size lx1 \<le> lx_size lx"
  shows "\<exists>lx2. ungetc c lx1 = Inr lx2 \<and> lx_size lx2 \<le> lx_size lx \<and> length (f_unget lx2) \<le> 1"
  using assms by (auto simp: ungetc_def lx_size_def)

lemma lexed_ok_ungetc:
  assumes "f_unget lx1 = []" and "c \<noteq> EOS \<Longrightarrow> lx_size lx1 < lx_size lx" and "lx_size lx1 \<le> lx_size lx"
    and "\<And>lx2. lx_size lx2 \<le> lx_size lx \<Longrightarrow> length (f_unget lx2) \<le> 1 \<Longrightarrow> lexed_ok E lx (f lx2)"
  shows "lexed_ok E lx (res_bind (ungetc c lx1) f)"
proof -
  obtain lx2 where "ungetc c lx1 = Inr lx2" "lx_size lx2 \<le> lx_size lx" "length (f_unget lx2) \<le> 1"
    using ungetc_after [OF assms(1-3)] by blast
  with assms(4) show ?thesis by simp
qed

lemma lexed_ok_scan_ungetc:
  assumes "length (f_unget lx) \<le> 1"
    and "\<And>lx2. lx_size lx2 \<le> lx_size lx \<Longrightarrow> length (f_unget lx2) \<le> 1 \<Longrightarrow> lexed_ok E lx (f lx2)"
  shows "lexed_ok E lx (res_bind (ungetc (fst (snd (scan p lx acc))) (snd (snd (scan p lx acc)))) f)"
  by (rule lexed_ok_ungetc) (use assms scan_stop_size in auto)

lemma lex_variable_ok:
  assumes "f_unget lx = []"
  shows "lexed_ok E lx (lex_variable env t lx)"
proof -
  have nm: "lexed_ok E lx (lex_variable_name env t cs lx')" if "lx_size lx' \<le> lx_size lx" "f_unget lx' = []" for cs lx'
    using that by (auto simp: lex_variable_name_def lexed_ok_error)
  have sc: "lx_size (snd (snd (scan p (snd (getc lx)) acc))) \<le> lx_size lx" for p acc
    using getc_size scan_size le_trans by blast
  show ?thesis
    using assms by (auto simp: lex_variable_def Let_def case_prod_beta intro!: nm sc lexed_ok_error)
qed

lemma timespec_token_ok:
  "lx_size lx' \<le> lx_size lx \<Longrightarrow> length (f_unget lx') \<le> 1 \<Longrightarrow> lexed_ok E lx (timespec_token env t s ts lx')"
  by (auto simp: timespec_token_def Let_def lexed_ok_error)

lemma lex_timespec_ok:
  assumes "f_unget lx = []" and "conversions_throw E env"
  shows "lexed_ok E lx (lex_timespec env t lx)"
proof -
  let ?l1 = "snd (getc lx)"
  have sc: "lx_size (snd (snd (scan p ?l1 acc))) \<le> lx_size lx" for p acc
    using getc_size scan_size le_trans by blast
  have num: "lexed_ok E lx (res_bind (ungetc (fst (snd (scan p ?l1 acc))) (snd (snd (scan p ?l1 acc)))) f)"
    if "\<And>lx2. lx_size lx2 \<le> lx_size ?l1 \<Longrightarrow> length (f_unget lx2) \<le> 1 \<Longrightarrow> lexed_ok E ?l1 (f lx2)"
    for p acc and f :: "lexer \<Rightarrow> 'a lexed"
    by (rule lexed_ok_mono [OF lexed_ok_scan_ungetc getc_size]) (use assms(1) that in auto)
  show ?thesis
    using assms
    by (auto simp: lex_timespec_def Let_def case_prod_beta conversions_throw_def
        intro!: lexed_ok_error timespec_token_ok sc num lexed_ok_bind)
qed

lemma lex_address_ok:
  assumes "f_unget lx = []" and "conversions_throw E env"
  shows "lexed_ok E lx (lex_address env t lx)"
  using assms
  by (auto simp: lex_address_def Let_def case_prod_beta conversions_throw_def
      intro!: lexed_okI lexed_ok_error lexed_ok_bind split: option.split)

lemma unescape_errors: "unescape c = Inl e \<Longrightarrow> e \<in> {Fixme, Runtime_error}"
  by (auto simp: unescape_def split: if_splits)

lemma string_body_ok:
  assumes "length (f_unget lx) \<le> 1"
  shows "case string_body q lx acc of
      Inl e \<Rightarrow> e \<in> {Fixme, Runtime_error}
    | Inr (r, lx') \<Rightarrow> lx_size lx' \<le> lx_size lx \<and> f_unget lx' = []"
  using assms
proof (induction q lx acc rule: string_body.induct)
  case (1 q lx acc)
  let ?l1 = "snd (getc lx)" and ?l2 = "snd (getc (snd (getc lx)))"
  have s: "lx_size ?l1 \<le> lx_size lx" "lx_size ?l2 \<le> lx_size lx" "f_unget ?l1 = []" "f_unget ?l2 = []"
    using le_trans [OF getc_size getc_size] 1(3) by auto
  have mono: "case r of Inl e \<Rightarrow> e \<in> {Fixme, Runtime_error} | Inr (r, lx') \<Rightarrow> lx_size lx' \<le> lx_size lx \<and> f_unget lx' = []"
    if "case r of Inl e \<Rightarrow> e \<in> {Fixme, Runtime_error} | Inr (r, lx') \<Rightarrow> lx_size lx' \<le> lx_size l \<and> f_unget lx' = []"
      "lx_size l \<le> lx_size lx" for r :: "(code_point list option \<times> lexer) result" and l
    using that by (auto split: sum.splits)
  show ?case
  proof (cases "fst (getc lx) \<in> {EOS, 0x0A, q}")
    case True
    with s show ?thesis by (subst string_body.simps) (auto simp: Let_def)
  next
    case False
    note F = this
    show ?thesis
    proof (cases "fst (getc lx) = 0x5C")
      case True
      show ?thesis
      proof (cases "unescape (fst (getc ?l1))")
        case (Inl e)
        with True F s unescape_errors [OF Inl] show ?thesis by (subst string_body.simps) (auto simp: Let_def)
      next
        case (Inr d)
        with True F s have "string_body q lx acc =
            (if fst (getc ?l1) = EOS then Inr (None, ?l2) else string_body q ?l2 (acc @ [d]))"
          by (subst string_body.simps) (auto simp: Let_def)
        moreover note 1(1) [OF refl refl _ _ _ True refl refl _ Inr]
        ultimately show ?thesis using F s by (auto intro: mono)
      qed
    next
      case False
      with F have "string_body q lx acc = string_body q ?l1 (acc @ [fst (getc lx)])"
        by (subst string_body.simps) (auto simp: Let_def)
      with F False s 1(2) [OF refl refl] show ?thesis by (auto intro: mono)
    qed
  qed
qed

lemma lex_string_ok:
  assumes "f_unget lx = []"
  shows "lexed_ok E lx (lex_string env t q lx)"
  using string_body_ok [of lx q "[]"] assms
  by (auto simp: lex_string_def lexed_ok_def lex_error_def res_bind_def split: sum.splits option.splits)

lemma lex_hexadecimal_ok:
  assumes "f_unget lx = []"
  shows "lexed_ok E lx (lex_hexadecimal t lx)"
proof -
  have "lexed_ok E lx (Inl Runtime_error)" by (simp add: lexed_ok_def)
  then show ?thesis
    using assms by (auto simp: lex_hexadecimal_def case_prod_beta intro!: lexed_ok_scan_ungetc lexed_okI)
qed

lemma lex_decimal_ok:
  assumes "length (f_unget lx) \<le> 1"
  shows "lexed_ok E lx (lex_decimal env t c lx)"
  unfolding lex_decimal_def case_prod_beta
proof (rule lexed_ok_scan_ungetc [OF assms], goal_cases)
  case (1 lx2)
  then have err: "lexed_ok E lx (lex_error t lx2)" and ok: "lexed_ok E lx (Inr (t', lx2))" for t' :: "'a token"
    by (rule lexed_ok_error, intro lexed_okI)
  have "lexed_ok E lx (if b
      then (case x of None \<Rightarrow> lex_error t lx2 | Some v \<Rightarrow> Inr (f v, lx2))
      else (case y of None \<Rightarrow> lex_error t lx2 | Some v \<Rightarrow> Inr (g v, lx2)))"
    for b and x :: "'a option" and y :: "i64 option" and f g
    using err ok by (simp split: option.split)
  then show ?case unfolding Let_def .
qed

lemma lex_number_ok:
  assumes "f_unget lx = []"
  shows "lexed_ok E lx (lex_number env t c lx)"
proof -
  have hex: "lexed_ok E lx (lex_hexadecimal t (snd (getc lx)))"
    by (rule lexed_ok_mono [OF lex_hexadecimal_ok getc_size]) (simp add: assms)
  have "lexed_ok E lx (res_bind (ungetc (fst (getc lx)) (snd (getc lx))) (lex_decimal env t c))"
    by (rule lexed_ok_ungetc) (auto simp: assms getc_size_less intro!: lexed_ok_mono [OF lex_decimal_ok])
  with hex show ?thesis
    using assms by (auto simp: lex_number_def case_prod_beta intro: lex_decimal_ok)
qed

lemma lex_identifier_ok:
  assumes "f_unget lx = []"
  shows "lexed_ok E lx (lex_identifier env t c lx)"
  unfolding lex_identifier_def case_prod_beta
  by (rule lexed_ok_scan_ungetc) (auto simp: assms Let_def intro!: lexed_okI)

lemma lex_step_ok:
  assumes "length (f_unget lx) \<le> 1" and "conversions_throw E env" and "lex_step env lx = Inl r"
  shows "lexed_ok E (snd (getc lx)) r"
proof -
  let ?l1 = "snd (getc lx)"
  have u: "f_unget ?l1 = []" using assms(1) by simp
  have div: "lexed_ok E ?l1 (res_bind (ungetc (fst (getc ?l1)) (snd (getc ?l1))) (\<lambda>lx3. Inr (t', lx3)))" for t'
    by (rule lexed_ok_ungetc) (auto simp: u getc_size_less intro!: lexed_okI)
  note oks = lex_variable_ok [OF u] lex_timespec_ok [OF u assms(2)] lex_address_ok [OF u assms(2)]
    lex_string_ok [OF u] lex_number_ok [OF u] lex_identifier_ok [OF u]
  show ?thesis
    using assms(3) oks div u
    by (auto simp: lex_step_def Let_def intro!: lexed_okI lexed_ok_error split: if_splits)
qed

lemma lex_step_unget: "length (f_unget lx) \<le> 1 \<Longrightarrow> lex_step env lx = Inr lx' \<Longrightarrow> f_unget lx' = []"
  by (auto simp: lex_step_def Let_def split: if_splits)

lemma lex_step_EOF:
  "lex_step env lx = Inl (Inr (t, lx')) \<Longrightarrow> fst (getc lx) = EOS \<Longrightarrow> t_token t = TOKEN_EOF"
  by (auto simp: lex_step_def Let_def token_at_def)

text \<open>
  The lexer always moves on and never overruns its buffer. Every token but the end of the
  file consumes at least one character of the program, at most one character is put back at
  any time (so the buffer of 16 is never overrun, whatever its guard tests), and the only
  exceptions are those of a bad escape, a bad hexadecimal number and the external conversions.
\<close>

theorem next_token_safe:
  assumes "length (f_unget lx) \<le> 1" and "conversions_throw E env"
  shows "case next_token env lx of
      Inl e \<Rightarrow> e \<in> E \<union> {Fixme, Runtime_error}
    | Inr (t, lx') \<Rightarrow> length (f_unget lx') \<le> 1 \<and>
        (t_token t \<noteq> TOKEN_EOF \<longrightarrow> lx_size lx' < lx_size lx)"
  using assms
proof (induction env lx rule: next_token.induct)
  case (1 env lx)
  show ?case
  proof (cases "lex_step env lx")
    case (Inl r)
    have "lx_size (snd (getc lx)) < lx_size lx \<or> fst (getc lx) = EOS" using getc_size_less by blast
    with Inl lex_step_ok [OF 1(2,3) Inl] lex_step_EOF [of env lx] show ?thesis
      by (subst next_token.simps) (auto simp: lexed_ok_def split: sum.splits)
  next
    case (Inr lx1)
    have "length (f_unget lx1) \<le> 1" using lex_step_unget [OF 1(2) Inr] by simp
    from 1(1) [OF Inr this 1(3)] Inr lex_step_size [OF Inr] show ?thesis
      by (subst next_token.simps) (auto split: sum.splits)
  qed
qed

section \<open>The stream of tokens\<close>

text \<open>What the calls of \<^verbatim>\<open>next_token()\<close> return one after the other, up to the end of the file, an error
  token or an exception, where the parser stops. The test in the recursion always holds
  (\<open>lex_stream_unfold\<close>).\<close>

function lex_stream :: "'d lex_env \<Rightarrow> lexer \<Rightarrow> 'd token result list" where
  "lex_stream env lx =
     (case next_token env lx of
        Inl e \<Rightarrow> [Inl e]
      | Inr (t, lx') \<Rightarrow>
          if t_token t \<notin> {TOKEN_EOF, TOKEN_ERROR} \<and> lx_size lx' < lx_size lx
          then Inr t # lex_stream env lx' else [Inr t])"
  by pat_completeness auto
termination
  by (relation "measure (\<lambda>(env, lx). lx_size lx)") auto

declare lex_stream.simps [simp del]

lemma lex_stream_unfold:
  assumes "length (f_unget lx) \<le> 1"
  shows "lex_stream env lx =
     (case next_token env lx of
        Inl e \<Rightarrow> [Inl e]
      | Inr (t, lx') \<Rightarrow>
          if t_token t \<in> {TOKEN_EOF, TOKEN_ERROR} then [Inr t] else Inr t # lex_stream env lx')"
  using next_token_safe [OF assms, of UNIV env]
  by (subst lex_stream.simps) (auto simp: conversions_throw_def split: sum.split)

lemma lex_stream_length: "length (lex_stream env lx) \<le> lx_size lx + 1"
proof (induction env lx rule: lex_stream.induct)
  case (1 env lx)
  then show ?case
    by (subst lex_stream.simps) (fastforce split: sum.split prod.split)
qed

section \<open>Strings and variables\<close>

lemma getc_plain:
  assumes "f_unget lx = []" and "f_input lx = c # cs" and "c \<noteq> 0x0D"
  shows "fst (getc lx) = c" and "f_input (snd (getc lx)) = cs" and "f_unget (snd (getc lx)) = []"
  using assms by (simp_all add: getc_def Let_def)

definition quote_char :: "code_point \<Rightarrow> code_point list" where
  "quote_char c =
     (if c = 0x5C \<or> c = 0x22 then [0x5C, c]
      else if c = 0x0A then [0x5C, u CHR ''n'']
      else if c = 0x0D then [0x5C, u CHR ''r'']
      else [c])"

definition quote_body :: "code_point list \<Rightarrow> code_point list" where
  "quote_body cs = concat (map quote_char cs)"

lemma string_body_char:
  assumes "f_unget lx = []" and "f_input lx = quote_char c @ cs" and "c \<noteq> EOS"
  shows "\<exists>lx'. string_body 0x22 lx acc = string_body 0x22 lx' (acc @ [c]) \<and> f_unget lx' = [] \<and> f_input lx' = cs"
proof (cases "c \<in> {0x5C, 0x22, 0x0A, 0x0D}")
  case True
  then obtain d where d: "quote_char c = [0x5C, d]" "unescape d = Inr c" "d \<noteq> 0x0D" "d \<noteq> EOS"
    by (auto simp: quote_char_def unescape_def EOS_def)
  let ?l1 = "snd (getc lx)"
  have g1: "fst (getc lx) = 0x5C" "f_input ?l1 = d # cs" "f_unget ?l1 = []"
    using getc_plain [OF assms(1), of "0x5C" "d # cs"] assms(2) d(1) by simp_all
  note g2 = getc_plain [OF g1(3,2) d(3)]
  have "string_body 0x22 lx acc = string_body 0x22 (snd (getc ?l1)) (acc @ [c])"
    using g1(1) g2(1) d by (subst string_body.simps) (simp add: Let_def EOS_def)
  with g2 show ?thesis by blast
next
  case False
  then have q: "quote_char c = [c]" by (simp add: quote_char_def)
  note g = getc_plain [OF assms(1), of c cs]
  have "string_body 0x22 lx acc = string_body 0x22 (snd (getc lx)) (acc @ [c])"
    using g False assms(2,3) q by (subst string_body.simps) (simp add: Let_def)
  with g False assms(2) q show ?thesis by auto
qed

lemma string_body_quoted:
  assumes "f_unget lx = []" and "f_input lx = quote_body cs @ 0x22 # rest" and "EOS \<notin> set cs"
  shows "\<exists>lx'. string_body 0x22 lx acc = Inr (Some (acc @ cs), lx') \<and> f_unget lx' = [] \<and> f_input lx' = rest"
  using assms
proof (induction cs arbitrary: lx acc)
  case Nil
  then have "f_input lx = 0x22 # rest" by (simp add: quote_body_def)
  from getc_plain [OF Nil(1) this] show ?case
    by (subst string_body.simps) (auto simp: Let_def EOS_def)
next
  case (Cons c cs)
  then have "f_input lx = quote_char c @ quote_body cs @ 0x22 # rest" "c \<noteq> EOS" by (auto simp: quote_body_def)
  then obtain l1 where l1: "string_body 0x22 lx acc = string_body 0x22 l1 (acc @ [c])" "f_unget l1 = []"
      "f_input l1 = quote_body cs @ 0x22 # rest"
    using string_body_char [OF Cons.prems(1)] by blast
  from Cons.IH [OF l1(2,3), of "acc @ [c]"] Cons.prems(3) l1(1) show ?case by simp
qed

text \<open>
  Every string can be written as a literal. The characters between double quotes, with
  the backslash, the quote, the line feed and the carriage return escaped, are read back as
  one string token with exactly those characters, and the input goes on right behind it.
\<close>

theorem string_literal_roundtrip:
  assumes "f_unget lx = []" and "f_input lx = 0x22 # quote_body cs @ 0x22 # rest" and "EOS \<notin> set cs"
  shows "\<exists>t lx'. next_token env lx = Inr (t, lx') \<and> t_token t = TOKEN_DOUBLE_STRING \<and>
     t_string t = to_u8string env cs \<and> t_line t = f_line lx \<and> f_input lx' = rest \<and> f_unget lx' = []"
proof -
  have g: "fst (getc lx) = 0x22" "f_input (snd (getc lx)) = quote_body cs @ 0x22 # rest" "f_unget (snd (getc lx)) = []"
    using getc_plain [OF assms(1,2)] by simp_all
  obtain lx' where lx': "string_body 0x22 (snd (getc lx)) [] = Inr (Some cs, lx')" "f_unget lx' = []" "f_input lx' = rest"
    using string_body_quoted [OF g(3,2) assms(3), of "[]"] by auto
  have "lex_step env lx = Inl (lex_string env (token_at env lx) 0x22 (snd (getc lx)))"
    using g(1) by (simp add: lex_step_def Let_def EOS_def punctuation_def)
  then have "next_token env lx = lex_string env (token_at env lx) 0x22 (snd (getc lx))"
    by (subst next_token.simps) simp
  with lx' show ?thesis by (simp add: lex_string_def quote_token_def token_at_def)
qed

lemma scan_stops:
  assumes "f_unget lx = []" and "f_input lx = cs @ d # rest" and "\<forall>c \<in> set cs. p c \<and> c \<noteq> EOS \<and> c \<noteq> 0x0D"
    and "\<not> p d" and "d \<noteq> 0x0D"
  shows "\<exists>lx'. scan p lx acc = (acc @ cs, d, lx') \<and> f_unget lx' = [] \<and> f_input lx' = rest"
  using assms(1-3)
proof (induction cs arbitrary: lx acc)
  case Nil
  then have "f_input lx = d # rest" by simp
  note g = getc_plain [OF Nil(1) this assms(5)]
  then have "scan p lx acc = (acc, getc lx)" using assms(4) by (subst scan.simps) simp
  with g show ?case by (metis append_Nil2 prod.collapse)
next
  case (Cons c cs)
  then have "f_input lx = c # cs @ d # rest" "c \<noteq> 0x0D" by auto
  note g = getc_plain [OF Cons.prems(1) this]
  have "scan p lx acc = scan p (snd (getc lx)) (acc @ [c])"
    using g(1) Cons.prems(3) by (subst scan.simps) simp
  with Cons.IH [OF g(3,2), of "acc @ [c]"] Cons.prems(3) show ?case by simp
qed

text \<open>
  A variable without braces swallows the character behind it. After \<^verbatim>\<open>$name\<close> the character
  that ended the name is lost: the next token is read from the one after it.
\<close>

theorem variable_swallows_next:
  assumes "f_unget lx = []" and "f_input lx = u CHR ''$'' # c # cs @ d # rest"
    and "\<forall>e \<in> set (c # cs). is_name_char e" and "\<not> is_digit_char c" and "\<not> is_name_char d" and "d \<noteq> 0x0D"
  shows "\<exists>t lx'. next_token env lx = Inr (t, lx') \<and> t_token t = TOKEN_VARIABLE \<and>
     t_string t = to_u8string env (c # cs) \<and> f_input lx' = rest \<and> f_unget lx' = []"
proof -
  let ?l1 = "snd (getc lx)" and ?l2 = "snd (getc (snd (getc lx)))"
  have nm: "e \<noteq> EOS \<and> e \<noteq> 0x0D" if "is_name_char e" for e using that by (auto simp: is_name_char_def EOS_def)
  have g1: "fst (getc lx) = u CHR ''$''" "f_input ?l1 = c # cs @ d # rest" "f_unget ?l1 = []"
    using getc_plain [OF assms(1,2)] by simp_all
  have g2: "fst (getc ?l1) = c" "f_input ?l2 = cs @ d # rest" "f_unget ?l2 = []"
    using getc_plain [OF g1(3,2)] assms(3) nm by auto
  obtain lx' where sc: "scan is_name_char ?l2 [c] = (c # cs, d, lx')" "f_unget lx' = []" "f_input lx' = rest"
    using scan_stops [OF g2(3,2), of is_name_char "[c]"] assms(3,5,6) nm by auto
  have c: "is_name_char c" "c \<noteq> u CHR ''{''" "\<not> c \<le> u CHR ''9''"
    using assms(3,4) by (auto simp: is_name_char_def is_digit_char_def)
  have "lex_step env lx = Inl (lex_variable env (token_at env lx) ?l1)"
    using g1(1) by (simp add: lex_step_def Let_def EOS_def punctuation_def)
  then have "next_token env lx = lex_variable env (token_at env lx) ?l1" by (subst next_token.simps) simp
  also have "\<dots> = lex_variable_name env (token_at env lx) (c # cs) lx'"
    using c g2(1) sc(1) by (simp add: lex_variable_def case_prod_beta)
  finally show ?thesis using c(3) sc by (simp add: lex_variable_name_def token_at_def)
qed

definition demo_lex_env :: "unit lex_env" where
  "demo_lex_env = \<lparr>to_u8 = (\<lambda>c. [char_of c]), convert_integer = (\<lambda>s. if s = ''42'' then Some 42 else None),
     convert_double = (\<lambda>_. Some ()), double_zero = (), double_nan = (),
     timespec_from_date = (\<lambda>_. Inl Runtime_error), timespec_from_string = (\<lambda>_. Inr (1, 2)),
     parse_address = (\<lambda>s. Inr (Some s))\<rparr>"

theorem next_token_safe_witness:
  "case next_token demo_lex_env (new_lexer ''a'' [0x28, 0x29]) of
     Inl e \<Rightarrow> False
   | Inr (t, lx') \<Rightarrow> t_token t = TOKEN_OPEN_PARENTHESIS \<and> length (f_unget lx') \<le> 1 \<and> lx_size lx' < 2"
proof -
  let ?lx = "new_lexer ''a'' [0x28, 0x29]"
  have len: "length (f_unget ?lx) \<le> 1" and size: "lx_size ?lx = 2" by (simp_all add: new_lexer_def lx_size_def)
  have "conversions_throw {Runtime_error} demo_lex_env"
    by (simp add: conversions_throw_def demo_lex_env_def)
  note safe = next_token_safe [OF len this, unfolded size]
  have "\<exists>t lx'. next_token demo_lex_env ?lx = Inr (t, lx') \<and> t_token t = TOKEN_OPEN_PARENTHESIS"
    by (subst next_token.simps)
       (simp add: lex_step_def Let_def getc_def new_lexer_def EOS_def punctuation_def)
  then obtain t lx' where run: "next_token demo_lex_env ?lx = Inr (t, lx')" "t_token t = TOKEN_OPEN_PARENTHESIS"
    by blast
  from safe [unfolded run(1)] run(2) show ?thesis unfolding run(1) by simp
qed

theorem string_literal_roundtrip_witness:
  "\<exists>t lx'. next_token demo_lex_env (new_lexer ''a'' (0x22 # quote_body [0x61, 0x22, 0x0A] @ [0x22, 0x29])) = Inr (t, lx') \<and>
     t_token t = TOKEN_DOUBLE_STRING \<and> t_string t = to_u8string demo_lex_env [0x61, 0x22, 0x0A] \<and>
     t_line t = f_line (new_lexer ''a'' (0x22 # quote_body [0x61, 0x22, 0x0A] @ [0x22, 0x29])) \<and>
     f_input lx' = [0x29] \<and> f_unget lx' = []"
  by (rule string_literal_roundtrip) (simp_all add: new_lexer_def EOS_def)

theorem variable_swallows_next_witness:
  "\<exists>t lx'. next_token demo_lex_env (new_lexer ''a'' (u CHR ''$'' # 0x61 # [] @ 0x29 # [0x0A])) = Inr (t, lx') \<and>
     t_token t = TOKEN_VARIABLE \<and> t_string t = to_u8string demo_lex_env (0x61 # []) \<and>
     f_input lx' = [0x0A] \<and> f_unget lx' = []"
  by (rule variable_swallows_next [where d = "0x29 :: nat" and rest = "[0x0A :: nat]" and cs = "[] :: nat list"])
     (simp_all add: new_lexer_def is_name_char_def is_digit_char_def)

end
