(* ===== verification/Instruction_Table.thy ===== *)
theory Instruction_Table
  imports Prelude
begin

text \<open>
  The instructions of the reporter's language and their parameters: \<^verbatim>\<open>reporter/instruction.h\<close>, the
  tables at the top of \<^verbatim>\<open>reporter/basic_instructions.cpp\<close> and the registration of
  \<^verbatim>\<open>reporter/instruction_factory.cpp\<close>.
\<close>

record parameter_declaration =
  pd_name :: string
  pd_type :: string
  pd_required :: bool

definition param :: "string \<Rightarrow> string \<Rightarrow> bool \<Rightarrow> parameter_declaration" where
  "param name type required = \<lparr>pd_name = name, pd_type = type, pd_required = required\<rparr>"

definition g_call_params :: "parameter_declaration list" where
  "g_call_params =
     [param ''label'' ''identifier'' True]"

definition g_compare_params :: "parameter_declaration list" where
  "g_compare_params =
     [param ''expression'' ''integer'' True]"

definition g_exit_params :: "parameter_declaration list" where
  "g_exit_params =
     [param ''error_message'' ''string'' False,
      param ''timeout'' ''number'' False]"

definition g_goto_params :: "parameter_declaration list" where
  "g_goto_params =
     [param ''label'' ''identifier'' True]"

definition g_has_data_params :: "parameter_declaration list" where
  "g_has_data_params =
     [param ''min_size'' ''integer'' False]"

definition g_has_message_params :: "parameter_declaration list" where
  "g_has_message_params =
     [param ''command'' ''identifier'' False]"

definition g_has_type_params :: "parameter_declaration list" where
  "g_has_type_params =
     [param ''name'' ''identifier'' True,
      param ''type'' ''identifier'' True]"

definition g_hex_params :: "parameter_declaration list" where
  "g_hex_params =
     [param ''variable_name'' ''identifier'' True,
      param ''value'' ''integer'' True,
      param ''uppercase'' ''integer'' False,
      param ''width'' ''integer'' False]"

definition g_hostname_params :: "parameter_declaration list" where
  "g_hostname_params =
     [param ''variable_name'' ''identifier'' True]"

definition g_if_params :: "parameter_declaration list" where
  "g_if_params =
     [param ''variable'' ''identifier'' False,
      param ''unordered'' ''identifier'' False,
      param ''ordered'' ''identifier'' False,
      param ''less'' ''identifier'' False,
      param ''less_or_equal'' ''identifier'' False,
      param ''greater'' ''identifier'' False,
      param ''greater_or_equal'' ''identifier'' False,
      param ''equal'' ''identifier'' False,
      param ''false'' ''identifier'' False,
      param ''not_equal'' ''identifier'' False,
      param ''true'' ''identifier'' False]"

definition g_kill_params :: "parameter_declaration list" where
  "g_kill_params =
     [param ''signal'' ''any'' False]"

definition g_label_params :: "parameter_declaration list" where
  "g_label_params =
     [param ''name'' ''identifier'' True]"

definition g_listen_params :: "parameter_declaration list" where
  "g_listen_params =
     [param ''address'' ''address'' True,
      param ''connection_type'' ''identifier'' False]"

definition g_max_pid_params :: "parameter_declaration list" where
  "g_max_pid_params =
     [param ''variable_name'' ''identifier'' True]"

definition g_now_params :: "parameter_declaration list" where
  "g_now_params =
     [param ''variable_name'' ''identifier'' True]"

definition g_print_params :: "parameter_declaration list" where
  "g_print_params =
     [param ''message'' ''string'' True]"

definition g_random_params :: "parameter_declaration list" where
  "g_random_params =
     [param ''variable_name'' ''identifier'' True,
      param ''negative'' ''integer'' False]"

definition g_save_parameter_value_params :: "parameter_declaration list" where
  "g_save_parameter_value_params =
     [param ''parameter_name'' ''identifier'' True,
      param ''variable_name'' ''identifier'' True,
      param ''type'' ''identifier'' False]"

definition g_send_data_params :: "parameter_declaration list" where
  "g_send_data_params =
     [param ''values'' ''array'' True]"

definition g_send_message_params :: "parameter_declaration list" where
  "g_send_message_params =
     [param ''sent_server'' ''string_or_identifier'' False,
      param ''sent_service'' ''string_or_identifier'' False,
      param ''server'' ''string_or_identifier'' False,
      param ''service'' ''string_or_identifier'' False,
      param ''command'' ''identifier'' True,
      param ''parameters'' ''list'' False]"

definition g_set_variable_params :: "parameter_declaration list" where
  "g_set_variable_params =
     [param ''name'' ''identifier'' True,
      param ''value'' ''any'' True,
      param ''type'' ''identifier'' False]"

definition g_show_data_params :: "parameter_declaration list" where
  "g_show_data_params =
     [param ''size'' ''integer'' True]"

definition g_sleep_params :: "parameter_declaration list" where
  "g_sleep_params =
     [param ''seconds'' ''number'' True]"

definition g_sort_params :: "parameter_declaration list" where
  "g_sort_params =
     [param ''var1'' ''string_or_identifier'' True,
      param ''var2'' ''string_or_identifier'' False,
      param ''var3'' ''string_or_identifier'' False,
      param ''var4'' ''string_or_identifier'' False,
      param ''var5'' ''string_or_identifier'' False,
      param ''var6'' ''string_or_identifier'' False,
      param ''var7'' ''string_or_identifier'' False,
      param ''var8'' ''string_or_identifier'' False,
      param ''var9'' ''string_or_identifier'' False,
      param ''var10'' ''string_or_identifier'' False,
      param ''var11'' ''string_or_identifier'' False,
      param ''var12'' ''string_or_identifier'' False,
      param ''var13'' ''string_or_identifier'' False,
      param ''var14'' ''string_or_identifier'' False,
      param ''var15'' ''string_or_identifier'' False,
      param ''var16'' ''string_or_identifier'' False,
      param ''var17'' ''string_or_identifier'' False,
      param ''var18'' ''string_or_identifier'' False,
      param ''var19'' ''string_or_identifier'' False,
      param ''var20'' ''string_or_identifier'' False]"

definition g_strlen_params :: "parameter_declaration list" where
  "g_strlen_params =
     [param ''variable_name'' ''string_or_identifier'' True,
      param ''string'' ''string'' True]"

definition g_unset_variable_params :: "parameter_declaration list" where
  "g_unset_variable_params =
     [param ''name'' ''identifier'' True]"

definition g_verify_data_params :: "parameter_declaration list" where
  "g_verify_data_params =
     [param ''values'' ''array'' True]"

definition g_verify_message_params :: "parameter_declaration list" where
  "g_verify_message_params =
     [param ''sent_server'' ''any'' False,
      param ''sent_service'' ''any'' False,
      param ''server'' ''any'' False,
      param ''service'' ''any'' False,
      param ''command'' ''any'' True,
      param ''required_parameters'' ''list'' False,
      param ''optional_parameters'' ''list'' False,
      param ''forbidden_parameters'' ''list'' False]"

definition g_wait_params :: "parameter_declaration list" where
  "g_wait_params =
     [param ''timeout'' ''number'' True,
      param ''mode'' ''identifier'' False]"

definition g_instructions :: "(string \<times> parameter_declaration list) list" where
  "g_instructions =
     [(''call'', g_call_params),
      (''clear_data'', []),
      (''clear_message'', []),
      (''compare'', g_compare_params),
      (''disconnect'', []),
      (''exit'', g_exit_params),
      (''goto'', g_goto_params),
      (''has_data'', g_has_data_params),
      (''has_message'', g_has_message_params),
      (''has_type'', g_has_type_params),
      (''hex'', g_hex_params),
      (''hostname'', g_hostname_params),
      (''if'', g_if_params),
      (''kill'', g_kill_params),
      (''label'', g_label_params),
      (''listen'', g_listen_params),
      (''max_pid'', g_max_pid_params),
      (''now'', g_now_params),
      (''print'', g_print_params),
      (''random'', g_random_params),
      (''return'', []),
      (''run'', []),
      (''save_parameter_value'', g_save_parameter_value_params),
      (''send_data'', g_send_data_params),
      (''send_message'', g_send_message_params),
      (''set_variable'', g_set_variable_params),
      (''show_data'', g_show_data_params),
      (''show_message'', []),
      (''sleep'', g_sleep_params),
      (''sort'', g_sort_params),
      (''strlen'', g_strlen_params),
      (''unset_variable'', g_unset_variable_params),
      (''verify_data'', g_verify_data_params),
      (''verify_message'', g_verify_message_params),
      (''wait'', g_wait_params)]"

lemmas param_tables = g_call_params_def g_goto_params_def g_label_params_def g_if_params_def
  g_compare_params_def g_set_variable_params_def g_unset_variable_params_def

definition get_instruction :: "string \<Rightarrow> parameter_declaration list option" where
  "get_instruction name = map_of g_instructions name"

lemma g_instructions_distinct: "distinct (map fst g_instructions)"
  by (simp add: g_instructions_def)

lemma get_instruction_label: "get_instruction ''label'' = Some g_label_params"
  by (simp add: get_instruction_def g_instructions_def)

end
