(* ===== verification/Reporter_State.thy ===== *)
theory Reporter_State
  imports Lexer Instruction_Table Message
begin

text \<open>
  The program and the state of the reporter's test language: \<^verbatim>\<open>reporter/expression.cpp\<close>,
  \<^verbatim>\<open>reporter/statement.cpp\<close>, \<^verbatim>\<open>reporter/variable*.cpp\<close> and \<^verbatim>\<open>reporter/state.cpp\<close>. A map of the
  standard library is a list of pairs in key order. A variable object is reached through one map
  only (every instruction stores a fresh copy), so a pointer to a variable is its value, and the
  one instruction that changes objects in place, \<^verbatim>\<open>sort\<close>, works on the names.
\<close>

section \<open>Expressions\<close>

datatype operator_t =
    OPERATOR_NULL
  | OPERATOR_ARRAY
  | OPERATOR_NAMED
  | OPERATOR_LIST
  | OPERATOR_PRIMARY
  | OPERATOR_IDENTITY
  | OPERATOR_NEGATE
  | OPERATOR_COMPARE
  | OPERATOR_ADD
  | OPERATOR_SUBTRACT
  | OPERATOR_MULTIPLY
  | OPERATOR_DIVIDE
  | OPERATOR_MODULO

text \<open>The token is \<open>None\<close> when it was never set.\<close>

datatype 'd expression =
  Expression (get_operator: operator_t) (get_expressions: "'d expression list") (get_token: "'d token option")

definition get_expression :: "'d expression \<Rightarrow> nat \<Rightarrow> 'd expression result" where
  "get_expression e idx =
     (if idx \<ge> length (get_expressions e) then Inl Overflow_error else Inr (get_expressions e ! idx))"

definition token_kind :: "'d expression \<Rightarrow> token_t" where
  "token_kind e = (case get_token e of None \<Rightarrow> TOKEN_EOF | Some t \<Rightarrow> t_token t)"

section \<open>Statements\<close>

record 'd statement =
  sm_instruction :: string
  sm_declarations :: "parameter_declaration list"
  sm_filename :: string
  sm_line :: "32 word"
  sm_parameters :: "(string \<times> 'd expression) list"

definition stmt_add_parameter :: "string \<Rightarrow> 'd expression \<Rightarrow> 'd statement \<Rightarrow> 'd statement result" where
  "stmt_add_parameter name e st =
     (if map_of (sm_parameters st) name \<noteq> None then Inl Runtime_error
      else if list_ex (\<lambda>d. name = pd_name d) (sm_declarations st)
      then Inr (st\<lparr>sm_parameters := omap_put name e (sm_parameters st)\<rparr>)
      else Inl Runtime_error)"

definition stmt_get_parameter :: "'d statement \<Rightarrow> string \<Rightarrow> 'd expression option" where
  "stmt_get_parameter st name = map_of (sm_parameters st) name"

definition verify_parameters :: "'d statement \<Rightarrow> unit result" where
  "verify_parameters st =
     (if list_ex (\<lambda>d. pd_required d \<and> map_of (sm_parameters st) (pd_name d) = None) (sm_declarations st)
      then Inl Runtime_error else Inr ())"

section \<open>Variables\<close>

datatype 'd var_value =
    String_value string
  | Integer_value i64
  | Floating_point_value 'd
  | Address_value string
  | Timestamp_value "i64 \<times> i64"
  | Regex_value string
  | Array_value "'d variable list"
  | List_value "(string \<times> 'd variable) list"
  | Void_value
and 'd variable = Variable (v_name: string) (v_type: string) (v_value: "'d var_value")

definition variable_string :: "string \<Rightarrow> string \<Rightarrow> string \<Rightarrow> 'd variable" where
  "variable_string name type s = Variable name type (String_value s)"

definition variable_integer :: "string \<Rightarrow> i64 \<Rightarrow> 'd variable" where
  "variable_integer name i = Variable name ''integer'' (Integer_value i)"

definition variable_floating_point :: "string \<Rightarrow> 'd \<Rightarrow> 'd variable" where
  "variable_floating_point name d = Variable name ''floating_point'' (Floating_point_value d)"

definition variable_address :: "string \<Rightarrow> string \<Rightarrow> 'd variable" where
  "variable_address name a = Variable name ''address'' (Address_value a)"

definition variable_timestamp :: "string \<Rightarrow> i64 \<times> i64 \<Rightarrow> 'd variable" where
  "variable_timestamp name t = Variable name ''timestamp'' (Timestamp_value t)"

definition variable_regex :: "string \<Rightarrow> string \<Rightarrow> 'd variable" where
  "variable_regex name r = Variable name ''regex'' (Regex_value r)"

definition variable_void :: "string \<Rightarrow> 'd variable" where
  "variable_void name = Variable name ''void'' Void_value"

definition variable_array :: "string \<Rightarrow> 'd variable list \<Rightarrow> 'd variable" where
  "variable_array name items = Variable name ''array'' (Array_value items)"

definition variable_list :: "string \<Rightarrow> (string \<times> 'd variable) list \<Rightarrow> 'd variable" where
  "variable_list name items = Variable name ''list'' (List_value items)"

text \<open>\<^verbatim>\<open>variable_list::add_item()\<close> on the map of the items.\<close>

definition list_add_item :: "'d variable \<Rightarrow> (string \<times> 'd variable) list \<Rightarrow> (string \<times> 'd variable) list result" where
  "list_add_item v items =
     (if map_of items (v_name v) \<noteq> None then Inl Runtime_error
      else Inr (omap_put (v_name v) v items))"

text \<open>A clone has the same value under another name; the copies of the items of an array or of a
  list keep theirs.\<close>

definition clone :: "string \<Rightarrow> 'd variable \<Rightarrow> 'd variable" where
  "clone name v = Variable name (v_type v) (v_value v)"

section \<open>The state\<close>

datatype compare_t =
  COMPARE_UNDEFINED | COMPARE_UNORDERED | COMPARE_LESS | COMPARE_EQUAL | COMPARE_GREATER

datatype connection_type_t = CONNECTION_TYPE_MESSENGER | CONNECTION_TYPE_TCP

type_synonym byte = "8 word"

text \<open>A listening connection remembers which server class it is; a client connection is known by
  its class and a number.\<close>

record 'd state =
  st_ip :: nat
  st_stack :: "nat list"
  st_program :: "'d statement list"
  st_running_statement :: "'d statement option"
  st_parameters :: "(string \<times> 'd variable) list"
  st_variables :: "(string \<times> 'd variable) list"
  st_labels :: "(string \<times> nat) list"
  st_compare :: compare_t
  st_in_thread :: bool
  st_exit_code :: int
  st_message :: "message list"
  st_connection_data :: "byte list list"
  st_data_position :: nat
  st_connection_type :: connection_type_t
  st_listen :: "(connection_type_t \<times> string) option"
  st_connections :: "(connection_type_t \<times> nat) list"

definition new_state :: "'d state" where
  "new_state = \<lparr>st_ip = 0, st_stack = [], st_program = [], st_running_statement = None, st_parameters = [],
     st_variables = [], st_labels = [], st_compare = COMPARE_UNDEFINED, st_in_thread = False,
     st_exit_code = -1, st_message = [], st_connection_data = [], st_data_position = 0,
     st_connection_type = CONNECTION_TYPE_MESSENGER, st_listen = None, st_connections = []\<rparr>"

definition set_ip :: "nat \<Rightarrow> 'd state \<Rightarrow> 'd state result" where
  "set_ip ip s = (if ip > length (st_program s) then Inl Out_of_range else Inr (s\<lparr>st_ip := ip\<rparr>))"

definition push_ip :: "'d state \<Rightarrow> 'd state" where
  "push_ip s = s\<lparr>st_stack := st_ip s # st_stack s\<rparr>"

text \<open>The stack grows at the head of the list; \<^verbatim>\<open>back()\<close> of an empty vector is undefined.\<close>

definition pop_ip :: "'d state \<Rightarrow> 'd state result" where
  "pop_ip s =
     (case st_stack s of
        [] \<Rightarrow> Inl Undefined_behaviour
      | ip # stack \<Rightarrow> Inr (s\<lparr>st_ip := ip, st_stack := stack\<rparr>))"

definition get_statement :: "nat \<Rightarrow> 'd state \<Rightarrow> 'd statement result" where
  "get_statement ip s =
     (if ip \<ge> length (st_program s) then Inl Out_of_range else Inr (st_program s ! ip))"

definition label_name :: "'d statement \<Rightarrow> string result" where
  "label_name st =
     (case stmt_get_parameter st ''name'' of
        None \<Rightarrow> Inl Runtime_error
      | Some e \<Rightarrow>
          if get_operator e \<noteq> OPERATOR_PRIMARY then Inl Runtime_error
          else (case get_token e of
             None \<Rightarrow> Inl Runtime_error
           | Some t \<Rightarrow> if t_token t \<noteq> TOKEN_IDENTIFIER then Inl Runtime_error else Inr (t_string t)))"

definition add_statement :: "'d statement \<Rightarrow> 'd state \<Rightarrow> 'd state result" where
  "add_statement st s =
     res_bind
       (if sm_instruction st = ''label'' then
          res_bind (label_name st)
            (\<lambda>name. if map_of (st_labels s) name \<noteq> None then Inl Runtime_error
               else Inr (s\<lparr>st_labels := omap_put name (length (st_program s)) (st_labels s)\<rparr>))
        else Inr s)
       (\<lambda>s'. Inr (s'\<lparr>st_program := st_program s' @ [st]\<rparr>))"

definition clear_parameters :: "'d state \<Rightarrow> 'd state" where
  "clear_parameters s = s\<lparr>st_parameters := []\<rparr>"

definition st_add_parameter :: "'d variable \<Rightarrow> 'd state \<Rightarrow> 'd state" where
  "st_add_parameter v s = s\<lparr>st_parameters := omap_put (v_name v) v (st_parameters s)\<rparr>"

definition st_get_parameter :: "string \<Rightarrow> bool \<Rightarrow> 'd state \<Rightarrow> 'd variable option result" where
  "st_get_parameter name required s =
     (case map_of (st_parameters s) name of
        None \<Rightarrow> if required then Inl Runtime_error else Inr None
      | Some v \<Rightarrow> Inr (Some v))"

definition get_variable :: "string \<Rightarrow> 'd state \<Rightarrow> 'd variable option" where
  "get_variable name s = map_of (st_variables s) name"

definition set_variable :: "'d variable \<Rightarrow> 'd state \<Rightarrow> 'd state" where
  "set_variable v s = s\<lparr>st_variables := omap_put (v_name v) v (st_variables s)\<rparr>"

definition unset_variable :: "string \<Rightarrow> 'd state \<Rightarrow> 'd state" where
  "unset_variable name s = s\<lparr>st_variables := omap_erase name (st_variables s)\<rparr>"

definition get_label_position :: "string \<Rightarrow> 'd state \<Rightarrow> nat result" where
  "get_label_position name s =
     (case map_of (st_labels s) name of None \<Rightarrow> Inl Runtime_error | Some p \<Rightarrow> Inr p)"

definition get_compare :: "'d state \<Rightarrow> compare_t result" where
  "get_compare s = (if st_compare s = COMPARE_UNDEFINED then Inl Runtime_error else Inr (st_compare s))"

definition set_compare :: "compare_t \<Rightarrow> 'd state \<Rightarrow> 'd state result" where
  "set_compare c s = (if c = COMPARE_UNDEFINED then Inl Runtime_error else Inr (s\<lparr>st_compare := c\<rparr>))"

definition get_message :: "'d state \<Rightarrow> message" where
  "get_message s = (case st_message s of [] \<Rightarrow> new_message | m # _ \<Rightarrow> m)"

definition add_message :: "message \<Rightarrow> 'd state \<Rightarrow> 'd state" where
  "add_message m s = s\<lparr>st_message := st_message s @ [m]\<rparr>"

definition clear_message :: "'d state \<Rightarrow> 'd state" where
  "clear_message s = s\<lparr>st_message := tl (st_message s)\<rparr>"

section \<open>The queue of received bytes\<close>

definition data_size :: "'d state \<Rightarrow> nat" where
  "data_size s = sum_list (map length (st_connection_data s))"

text \<open>The copy of \<^verbatim>\<open>peek_data()\<close>: \<open>n\<close> is what is left to copy.\<close>

fun peek_loop :: "byte list list \<Rightarrow> nat \<Rightarrow> nat \<Rightarrow> byte list \<Rightarrow> byte list" where
  "peek_loop [] pos n acc = acc"
| "peek_loop (c # cs) pos n acc =
     (if n = 0 then acc
      else let k = min (length c - pos) n in peek_loop cs 0 (n - k) (acc @ take k (drop pos c)))"

definition peek_data :: "nat \<Rightarrow> 'd state \<Rightarrow> byte list" where
  "peek_data n s =
     (if st_connection_data s = [] then []
      else peek_loop (st_connection_data s) (st_data_position s) n [])"

function read_loop :: "byte list list \<Rightarrow> nat \<Rightarrow> nat \<Rightarrow> byte list \<Rightarrow> byte list \<times> byte list list \<times> nat" where
  "read_loop [] pos n acc = (acc, [], pos)"
| "read_loop (c # cs) pos n acc =
     (if n = 0 then (acc, c # cs, pos)
      else
        let k = min (length c - pos) n;
            acc' = acc @ take k (drop pos c)
        in if pos + k \<ge> length c then read_loop cs 0 (n - k) acc'
           else read_loop (c # cs) (pos + k) (n - k) acc')"
  by pat_completeness auto
termination
  by (relation "measure (\<lambda>(cs, pos, n, acc). length cs + n)") auto

text \<open>\<open>None\<close> is the result -1 with \<^verbatim>\<open>ENODATA\<close>.\<close>

definition read_data :: "nat \<Rightarrow> 'd state \<Rightarrow> byte list option \<times> 'd state" where
  "read_data n s =
     (if st_connection_data s = [] then (None, s)
      else (case read_loop (st_connection_data s) (st_data_position s) n [] of
              (bytes, cs, pos) \<Rightarrow> (Some bytes, s\<lparr>st_connection_data := cs, st_data_position := pos\<rparr>)))"

definition add_data :: "byte list \<Rightarrow> 'd state \<Rightarrow> 'd state" where
  "add_data d s = s\<lparr>st_connection_data := st_connection_data s @ [d]\<rparr>"

definition clear_data :: "'d state \<Rightarrow> 'd state" where
  "clear_data s = s\<lparr>st_connection_data := [], st_data_position := 0\<rparr>"

definition set_connection_type :: "connection_type_t \<Rightarrow> 'd state \<Rightarrow> 'd state" where
  "set_connection_type t s = s\<lparr>st_connection_type := t\<rparr>"

definition st_listen_on :: "string \<Rightarrow> 'd state \<Rightarrow> 'd state result" where
  "st_listen_on a s =
     (if st_listen s \<noteq> None then Inl Runtime_error else Inr (s\<lparr>st_listen := Some (st_connection_type s, a)\<rparr>))"

definition disconnect :: "'d state \<Rightarrow> 'd state" where
  "disconnect s = s\<lparr>st_listen := None\<rparr>"

definition st_add_connection :: "connection_type_t \<times> nat \<Rightarrow> 'd state \<Rightarrow> 'd state" where
  "st_add_connection c s = s\<lparr>st_connections := st_connections s @ [c]\<rparr>"

section \<open>Labels\<close>

text \<open>The map of the labels says where each \<^verbatim>\<open>label\<close> statement is, and nothing else.\<close>

definition labels_ok :: "'d state \<Rightarrow> bool" where
  "labels_ok s \<longleftrightarrow> (\<forall>name p. map_of (st_labels s) name = Some p \<longleftrightarrow>
     p < length (st_program s) \<and> sm_instruction (st_program s ! p) = ''label'' \<and>
     label_name (st_program s ! p) = Inr name)"

lemma new_state_labels_ok: "labels_ok new_state"
  by (simp add: labels_ok_def new_state_def)

lemma add_statement_program:
  "add_statement st s = Inr s' \<Longrightarrow> st_program s' = st_program s @ [st] \<and> st_ip s' = st_ip s
     \<and> st_variables s' = st_variables s"
  by (auto simp: add_statement_def res_bind_eq_Inr split: if_splits)

lemma labels_unique:
  "labels_ok s \<Longrightarrow> p < length (st_program s) \<Longrightarrow> q < length (st_program s) \<Longrightarrow>
     sm_instruction (st_program s ! p) = ''label'' \<Longrightarrow> sm_instruction (st_program s ! q) = ''label'' \<Longrightarrow>
     label_name (st_program s ! p) = Inr n \<Longrightarrow> label_name (st_program s ! q) = Inr n \<Longrightarrow> p = q"
  unfolding labels_ok_def by (metis option.inject)

lemma label_invariant_step:
  assumes "labels_ok s" and "add_statement st s = Inr s'"
  shows "labels_ok s'"
proof -
  have prog: "st_program s' = st_program s @ [st]" using add_statement_program [OF assms(2)] by blast
  show ?thesis
  proof (cases "sm_instruction st = ''label''")
    case False
    with assms(2) have s': "s' = s\<lparr>st_program := st_program s @ [st]\<rparr>" by (simp add: add_statement_def)
    show ?thesis
      unfolding labels_ok_def
      using assms(1) False by (auto simp: s' labels_ok_def nth_append less_Suc_eq)
  next
    case True
    with assms(2) obtain name where name: "label_name st = Inr name" "map_of (st_labels s) name = None"
        and s': "s' = s\<lparr>st_labels := omap_put name (length (st_program s)) (st_labels s), st_program := st_program s @ [st]\<rparr>"
      by (auto simp: add_statement_def res_bind_eq_Inr split: if_splits)
    show ?thesis
      unfolding labels_ok_def
    proof (intro allI)
      fix n p
      have old: "map_of (st_labels s) n = Some p \<longleftrightarrow> p < length (st_program s) \<and>
          sm_instruction (st_program s ! p) = ''label'' \<and> label_name (st_program s ! p) = Inr n" for n
        using assms(1) by (simp add: labels_ok_def)
      have new: "map_of (st_labels s') n = (if n = name then Some (length (st_program s)) else map_of (st_labels s) n)"
        by (simp add: s' map_of_omap_put)
      show "map_of (st_labels s') n = Some p \<longleftrightarrow>
          p < length (st_program s') \<and> sm_instruction (st_program s' ! p) = ''label'' \<and> label_name (st_program s' ! p) = Inr n"
      proof (cases "p < length (st_program s)")
        case True
        then show ?thesis using old [of n] name(2) by (auto simp: new prog nth_append)
      next
        case False
        then show ?thesis
          using old [of n] name(1) \<open>sm_instruction st = ''label''\<close>
          by (auto simp: new prog nth_append less_Suc_eq)
      qed
    qed
  qed
qed

text \<open>
  Labels are resolved while the program is parsed. Every statement added keeps the map
  of the labels exact: a name is in it if and only if one statement of the program so far is
  the label of that name, and its value is the index of that statement. So a jump to a known
  label always lands inside the program, on that very label.
\<close>

theorem add_statement_labels:
  assumes "labels_ok s" and "add_statement st s = Inr s'"
  shows "labels_ok s' \<and> st_program s' = st_program s @ [st] \<and>
     (\<forall>name p. get_label_position name s' = Inr p \<longrightarrow>
        p < length (st_program s') \<and> label_name (st_program s' ! p) = Inr name \<and>
        set_ip p s' = Inr (s'\<lparr>st_ip := p\<rparr>))"
proof -
  have prog: "st_program s' = st_program s @ [st]" using add_statement_program [OF assms(2)] by blast
  have "labels_ok s'" using assms by (rule label_invariant_step)
  then show ?thesis
    by (auto simp: prog get_label_position_def labels_ok_def set_ip_def split: option.splits)
qed

definition demo_label :: "string \<Rightarrow> unit statement" where
  "demo_label n = \<lparr>sm_instruction = ''label'', sm_declarations = g_label_params, sm_filename = [], sm_line = 1,
     sm_parameters = [(''name'', Expression OPERATOR_PRIMARY []
        (Some \<lparr>t_token = TOKEN_IDENTIFIER, t_line = 1, t_column = 1, t_integer = 0, t_floating_point = (),
           t_string = n\<rparr>))]\<rparr>"

theorem add_statement_labels_witness:
  "\<exists>s'. add_statement (demo_label ''a'') new_state = Inr s' \<and> labels_ok s' \<and> get_label_position ''a'' s' = Inr 0"
proof -
  have run: "add_statement (demo_label ''a'') new_state =
      Inr (new_state\<lparr>st_labels := [(''a'', 0)], st_program := [demo_label ''a'']\<rparr>)"
    by (simp add: add_statement_def demo_label_def label_name_def stmt_get_parameter_def new_state_def)
  from add_statement_labels [OF new_state_labels_ok run] run show ?thesis
    by (simp add: get_label_position_def)
qed

section \<open>The queue of bytes as one sequence\<close>

text \<open>What the clients of the queue rely on: however the data was cut when it was received, it is
  one sequence of bytes, taken from the front.\<close>

locale byte_queue =
  fixes inv :: "'q \<Rightarrow> bool" and bytes :: "'q \<Rightarrow> byte list"
    and add :: "byte list \<Rightarrow> 'q \<Rightarrow> 'q" and read :: "nat \<Rightarrow> 'q \<Rightarrow> byte list option \<times> 'q"
    and peek :: "nat \<Rightarrow> 'q \<Rightarrow> byte list"
  assumes add_inv: "inv q \<Longrightarrow> inv (add d q)"
    and add_bytes: "inv q \<Longrightarrow> bytes (add d q) = bytes q @ d"
    and read_inv: "inv q \<Longrightarrow> inv (snd (read n q))"
    and read_bytes: "inv q \<Longrightarrow> bytes (snd (read n q)) = drop n (bytes q)"
    and read_result: "inv q \<Longrightarrow> fst (read n q) = Some b \<Longrightarrow> b = take n (bytes q)"
    and read_none: "inv q \<Longrightarrow> fst (read n q) = None \<Longrightarrow> bytes q = []"
    and peek_result: "inv q \<Longrightarrow> peek n q = take n (bytes q)"
begin

definition got :: "nat \<Rightarrow> 'q \<Rightarrow> byte list" where
  "got n q = (case fst (read n q) of None \<Rightarrow> [] | Some b \<Rightarrow> b)"

lemma got_take: "inv q \<Longrightarrow> got n q = take n (bytes q)"
  using read_result read_none by (fastforce simp: got_def split: option.split)

lemma peek_then_read: "inv q \<Longrightarrow> got n q = peek n q"
  by (simp add: got_take peek_result)

lemma read_in_two: "inv q \<Longrightarrow> got n q @ got m (snd (read n q)) = got (n + m) q"
  by (simp add: got_take read_inv read_bytes take_add)

lemma chunks_do_not_matter: "inv q \<Longrightarrow> got n (add e (add d q)) = got n (add (d @ e) q)"
  by (simp add: got_take add_inv add_bytes)

end

definition data_ok :: "'d state \<Rightarrow> bool" where
  "data_ok s \<longleftrightarrow>
     (case st_connection_data s of [] \<Rightarrow> st_data_position s = 0 | c # cs \<Rightarrow> st_data_position s \<le> length c)"

definition pending :: "'d state \<Rightarrow> byte list" where
  "pending s = drop (st_data_position s) (concat (st_connection_data s))"

lemma peek_loop_take:
  "(case cs of [] \<Rightarrow> True | c # _ \<Rightarrow> pos \<le> length c) \<Longrightarrow>
     peek_loop cs pos n acc = acc @ take n (drop pos (concat cs))"
proof (induction cs pos n acc rule: peek_loop.induct)
  case (2 c cs pos n acc)
  show ?case
  proof (cases "n = 0")
    case False
    let ?k = "min (length c - pos) n"
    have "peek_loop cs 0 (n - ?k) (acc @ take ?k (drop pos c)) = acc @ take ?k (drop pos c) @ take (n - ?k) (concat cs)"
      using 2(1) [OF False refl] by (simp split: list.split)
    with 2(2) False show ?thesis by (auto simp: Let_def min_def)
  qed simp
qed simp

lemma read_loop_split:
  assumes "case cs of [] \<Rightarrow> pos = 0 | c # _ \<Rightarrow> pos \<le> length c" and "read_loop cs pos n acc = (b, cs', pos')"
  shows "b = acc @ take n (drop pos (concat cs)) \<and> drop pos' (concat cs') = drop n (drop pos (concat cs)) \<and>
     (case cs' of [] \<Rightarrow> pos' = 0 | c # _ \<Rightarrow> pos' \<le> length c)"
  using assms
proof (induction cs pos n acc rule: read_loop.induct)
  case (2 c cs pos n acc)
  show ?case
  proof (cases "n = 0")
    case True
    with 2 show ?thesis by auto
  next
    case False
    let ?k = "min (length c - pos) n"
    show ?thesis
    proof (cases "pos + ?k \<ge> length c")
      case True
      have "case cs of [] \<Rightarrow> (0::nat) = 0 | c # _ \<Rightarrow> 0 \<le> length c" by (simp split: list.split)
      note IH = 2(1) [OF False refl refl True this]
      have "?k = length c - pos" using True 2(3) by simp
      with IH 2(3,4) False True show ?thesis by (auto simp: Let_def)
    next
      case F: False
      then have k: "?k = n" using False 2(3) by auto
      have "read_loop (c # cs) pos n acc = read_loop (c # cs) (pos + n) 0 (acc @ take n (drop pos c))"
        using False F k by (subst read_loop.simps) (simp add: Let_def)
      with 2(4) F k show ?thesis by (auto simp: add.commute)
    qed
  qed
qed simp

lemma read_data_split:
  assumes "data_ok s"
  shows "data_ok (snd (read_data n s)) \<and> pending (snd (read_data n s)) = drop n (pending s) \<and>
     fst (read_data n s) = (if st_connection_data s = [] then None else Some (take n (pending s)))"
proof (cases "st_connection_data s = []")
  case True
  with assms show ?thesis by (simp add: read_data_def pending_def)
next
  case False
  obtain b cs pos where r: "read_loop (st_connection_data s) (st_data_position s) n [] = (b, cs, pos)"
    by (metis prod.exhaust)
  have "case st_connection_data s of [] \<Rightarrow> st_data_position s = 0 | c # _ \<Rightarrow> st_data_position s \<le> length c"
    using assms by (simp add: data_ok_def)
  note parts = read_loop_split [OF this r]
  have "read_data n s = (Some b, s\<lparr>st_connection_data := cs, st_data_position := pos\<rparr>)"
    using False r by (simp add: read_data_def)
  with parts False show ?thesis by (cases cs) (auto simp: data_ok_def pending_def)
qed

lemma pending_empty: "st_connection_data s = [] \<Longrightarrow> pending s = []"
  by (simp add: pending_def)

lemma add_data_pending: "data_ok s \<Longrightarrow> pending (add_data d s) = pending s @ d"
  by (cases "st_connection_data s") (auto simp: pending_def add_data_def data_ok_def)

lemma add_data_ok: "data_ok s \<Longrightarrow> data_ok (add_data d s)"
  by (cases "st_connection_data s") (auto simp: add_data_def data_ok_def)

interpretation data_queue: byte_queue data_ok pending add_data read_data peek_data
proof unfold_locales
  show "peek_data n s = take n (pending s)" if "data_ok s" for n and s :: "'a state"
    using that peek_loop_take [where cs = "st_connection_data s" and pos = "st_data_position s" and n = n and acc = "[]"]
    by (auto simp: peek_data_def pending_def data_ok_def split: list.splits)
qed (auto simp: read_data_split add_data_ok add_data_pending pending_empty split: if_splits)

text \<open>
  The received data is one sequence of bytes. Whatever the sizes of the blocks that were
  received, \<^verbatim>\<open>read_data()\<close> returns the next bytes of their concatenation and leaves the rest,
  \<^verbatim>\<open>peek_data()\<close> shows exactly the bytes the next read returns, and reading in two steps gives
  what one read of both sizes gives.
\<close>

theorem data_is_one_sequence:
  assumes "data_ok s"
  shows "data_ok (snd (read_data n s)) \<and> pending (snd (read_data n s)) = drop n (pending s) \<and>
     data_queue.got n s = take n (pending s) \<and> peek_data n s = take n (pending s) \<and>
     data_queue.got n s @ data_queue.got m (snd (read_data n s)) = data_queue.got (n + m) s \<and>
     pending (add_data d s) = pending s @ d"
  by (intro conjI data_queue.read_inv data_queue.read_bytes data_queue.got_take data_queue.peek_result
      data_queue.read_in_two data_queue.add_bytes assms)

theorem data_is_one_sequence_witness:
  "data_queue.got 3 (add_data [3, 4] (add_data [1, 2] (new_state :: unit state))) = [1, 2, 3]"
proof -
  let ?s = "add_data [3, 4] (add_data [1, 2] (new_state :: unit state))"
  have ok: "data_ok ?s" by (simp add: data_ok_def add_data_def new_state_def)
  have "pending ?s = [1, 2, 3, 4]" by (simp add: pending_def add_data_def new_state_def)
  then show ?thesis using data_is_one_sequence [OF ok, of 3] by simp
qed

text \<open>
  \<^verbatim>\<open>data_size()\<close> counts bytes that were read already. After a read that ends inside a block,
  it still counts the whole block, so it is too large by the position reached in it.
\<close>

theorem data_size_counts_read_bytes:
  assumes "data_ok s"
  shows "data_size s = length (pending s) + st_data_position s"
proof -
  have "st_data_position s \<le> length (concat (st_connection_data s))"
    using assms by (auto simp: data_ok_def split: list.splits)
  then show ?thesis by (simp add: data_size_def pending_def length_concat)
qed

theorem data_size_counts_read_bytes_witness:
  "data_size (snd (read_data 1 (add_data [7, 8] (new_state :: unit state)))) = 2 \<and>
     length (pending (snd (read_data 1 (add_data [7, 8] (new_state :: unit state))))) = 1"
proof -
  let ?s = "snd (read_data 1 (add_data [7, 8] (new_state :: unit state)))"
  have s: "?s = new_state\<lparr>st_connection_data := [[7, 8]], st_data_position := 1\<rparr>"
    by (simp add: read_data_def add_data_def new_state_def)
  have "data_ok ?s" unfolding s by (simp add: data_ok_def)
  from data_size_counts_read_bytes [OF this] show ?thesis unfolding s by (simp add: pending_def)
qed

end
