(* ===== verification/Parser.thy ===== *)
theory Parser
  imports Reporter_State
begin

text \<open>
  The parser of the reporter's test language: \<^verbatim>\<open>reporter/parser.cpp\<close>. It reads the stream of tokens
  the lexer returns, one token ahead. The three functions \<^verbatim>\<open>comparative()\<close>, \<^verbatim>\<open>additive()\<close> and
  \<^verbatim>\<open>multiplicative()\<close> have the same text but for the operators they test and the function
  they call for their operands, so they are levels 0, 1 and 2 of one definition; level 3 is
  \<^verbatim>\<open>primary()\<close>. Their recursion is bounded by the size of what is left to read.
\<close>

section \<open>The current token\<close>

record 'd parser =
  p_token :: "'d token"
  p_rest :: "'d token result list"

abbreviation p_kind :: "'d parser \<Rightarrow> token_t" where
  "p_kind p \<equiv> t_token (p_token p)"

definition p_next :: "'d parser \<Rightarrow> 'd parser result" where
  "p_next p =
     (case p_rest p of
        [] \<Rightarrow> Inr (p\<lparr>p_token := (p_token p)\<lparr>t_token := TOKEN_EOF\<rparr>\<rparr>)
      | Inl e # _ \<Rightarrow> Inl e
      | Inr t # ts \<Rightarrow>
          if t_token t = TOKEN_ERROR then Inl Runtime_error else Inr \<lparr>p_token = t, p_rest = ts\<rparr>)"

definition p_size :: "'d parser \<Rightarrow> nat" where
  "p_size p = length (p_rest p) + (if p_kind p = TOKEN_EOF then 0 else 1)"

section \<open>Expressions\<close>

definition level_op :: "nat \<Rightarrow> token_t \<Rightarrow> operator_t option" where
  "level_op lv k =
     (if lv = 0 then (if k = TOKEN_COMPARE then Some OPERATOR_COMPARE else None)
      else if lv = 1 then
        (if k = TOKEN_PLUS then Some OPERATOR_ADD
         else if k = TOKEN_MINUS then Some OPERATOR_SUBTRACT else None)
      else if lv = 2 then
        (if k = TOKEN_MULTIPLY then Some OPERATOR_MULTIPLY
         else if k = TOKEN_DIVIDE then Some OPERATOR_DIVIDE
         else if k = TOKEN_MODULO then Some OPERATOR_MODULO else None)
      else None)"

definition primary_token :: "token_t \<Rightarrow> bool" where
  "primary_token k \<longleftrightarrow> k \<in> {TOKEN_IDENTIFIER, TOKEN_FLOATING_POINT, TOKEN_INTEGER, TOKEN_ADDRESS, TOKEN_TIMESPEC,
     TOKEN_VARIABLE, TOKEN_DOUBLE_STRING, TOKEN_SINGLE_STRING, TOKEN_REGEX}"

type_synonym 'd parsed = "('d expression \<times> 'd parser) result"

fun expr_level :: "nat \<Rightarrow> nat \<Rightarrow> 'd parser \<Rightarrow> 'd parsed"
  and expr_loop :: "nat \<Rightarrow> nat \<Rightarrow> 'd expression \<Rightarrow> 'd parser \<Rightarrow> 'd parsed"
  and primary :: "nat \<Rightarrow> 'd parser \<Rightarrow> 'd parsed" where
  "expr_level 0 lv p = Inl No_fuel"
| "expr_level (Suc n) lv p =
     (if lv \<ge> 3 then primary n p
      else res_bind (expr_level n (Suc lv) p) (\<lambda>(left, p1). expr_loop n lv left p1))"
| "expr_loop 0 lv left p = Inl No_fuel"
| "expr_loop (Suc n) lv left p =
     (case level_op lv (p_kind p) of
        None \<Rightarrow> Inr (left, p)
      | Some op \<Rightarrow>
          res_bind (p_next p) (\<lambda>p1.
          res_bind (expr_level n (Suc lv) p1) (\<lambda>(right, p2).
          expr_loop n lv (Expression op [left, right] None) p2)))"
| "primary 0 p = Inl No_fuel"
| "primary (Suc n) p =
     (if primary_token (p_kind p) then
        res_bind (p_next p) (\<lambda>p1. Inr (Expression OPERATOR_PRIMARY [] (Some (p_token p)), p1))
      else if p_kind p = TOKEN_PLUS \<or> p_kind p = TOKEN_MINUS then
        res_bind (p_next p) (\<lambda>p1.
        res_bind (primary n p1) (\<lambda>(e, p2).
        Inr (Expression (if p_kind p = TOKEN_PLUS then OPERATOR_IDENTITY else OPERATOR_NEGATE) [e] None, p2)))
      else if p_kind p = TOKEN_OPEN_PARENTHESIS then
        res_bind (p_next p) (\<lambda>p1.
        if p_kind p1 = TOKEN_EOF then Inl Runtime_error
        else res_bind (expr_level n 0 p1) (\<lambda>(e, p2).
          if p_kind p2 \<noteq> TOKEN_CLOSE_PARENTHESIS then Inl Runtime_error
          else res_bind (p_next p2) (\<lambda>p3. Inr (e, p3))))
      else Inl Runtime_error)"

text \<open>The bound given to \<^verbatim>\<open>comparative()\<close>; \<open>comparative_fuel\<close> below shows that it is enough.\<close>

definition comparative :: "'d parser \<Rightarrow> 'd parsed" where
  "comparative p = expr_level (8 * p_size p + 8) 0 p"

section \<open>Lists, arrays and parameters\<close>

definition list_item :: "'d parser \<Rightarrow> 'd parsed" where
  "list_item p =
     (if p_kind p \<noteq> TOKEN_IDENTIFIER then Inl Runtime_error
      else
        let identifier = Expression OPERATOR_PRIMARY [] (Some (p_token p)) in
        res_bind (p_next p) (\<lambda>p1.
        if p_kind p1 = TOKEN_EOF then Inl Runtime_error
        else if p_kind p1 = TOKEN_COLON then
          res_bind (p_next p1) (\<lambda>p2.
          if p_kind p2 = TOKEN_EOF then Inl Runtime_error
          else res_bind (comparative p2) (\<lambda>(e, p3). Inr (Expression OPERATOR_NAMED [identifier, e] None, p3)))
        else Inr (Expression OPERATOR_NAMED [identifier] None, p1)))"

text \<open>The loop that \<^verbatim>\<open>expression_list()\<close> and \<^verbatim>\<open>expression_array()\<close> share: items up to the closing token.\<close>

fun items_loop :: "nat \<Rightarrow> ('d parser \<Rightarrow> 'd parsed) \<Rightarrow> token_t \<Rightarrow> 'd expression list \<Rightarrow> 'd parser
    \<Rightarrow> ('d expression list \<times> 'd parser) result" where
  "items_loop 0 item close acc p = Inl No_fuel"
| "items_loop (Suc n) item close acc p =
     res_bind (item p) (\<lambda>(e, p1).
     if p_kind p1 \<noteq> TOKEN_COMMA then
       (if p_kind p1 \<noteq> close then Inl Runtime_error
        else res_bind (p_next p1) (\<lambda>p2. Inr (acc @ [e], p2)))
     else res_bind (p_next p1) (\<lambda>p2.
       if p_kind p2 = TOKEN_EOF then Inl Runtime_error
       else items_loop n item close (acc @ [e]) p2))"

definition expression_items :: "operator_t \<Rightarrow> ('d parser \<Rightarrow> 'd parsed) \<Rightarrow> token_t \<Rightarrow> 'd parser \<Rightarrow> 'd parsed" where
  "expression_items op item close p =
     (if p_kind p = close then res_bind (p_next p) (\<lambda>p1. Inr (Expression op [] None, p1))
      else res_bind (items_loop (p_size p + 1) item close [] p) (\<lambda>(es, p1). Inr (Expression op es None, p1)))"

definition expression_list :: "'d parser \<Rightarrow> 'd parsed" where
  "expression_list p = expression_items OPERATOR_LIST list_item TOKEN_CLOSE_CURLY_BRACE p"

definition expression_array :: "'d parser \<Rightarrow> 'd parsed" where
  "expression_array p = expression_items OPERATOR_ARRAY comparative TOKEN_CLOSE_SQUARE_BRACE p"

text \<open>The switch of \<^verbatim>\<open>one_parameter()\<close> on the first token of the value.\<close>

definition parameter_value :: "'d parser \<Rightarrow> 'd parsed" where
  "parameter_value p =
     (if p_kind p = TOKEN_OPEN_CURLY_BRACE then res_bind (p_next p) expression_list
      else if p_kind p = TOKEN_OPEN_SQUARE_BRACE then res_bind (p_next p) expression_array
      else comparative p)"

definition one_parameter :: "'d parser \<Rightarrow> 'd statement \<Rightarrow> ('d statement \<times> 'd parser) result" where
  "one_parameter p st =
     (if p_kind p \<noteq> TOKEN_IDENTIFIER then Inl Runtime_error
      else
        let name = t_string (p_token p) in
        res_bind (p_next p) (\<lambda>p1.
        if p_kind p1 = TOKEN_EOF then Inl Runtime_error
        else if p_kind p1 \<noteq> TOKEN_COLON then Inl Runtime_error
        else res_bind (p_next p1) (\<lambda>p2.
          if p_kind p2 = TOKEN_EOF then Inl Runtime_error
          else res_bind (parameter_value p2)
            (\<lambda>(e, p3). res_bind (stmt_add_parameter name e st) (\<lambda>st'. Inr (st', p3))))))"

fun parameters_loop :: "nat \<Rightarrow> 'd parser \<Rightarrow> 'd statement \<Rightarrow> ('d statement \<times> 'd parser) result" where
  "parameters_loop 0 p st = Inl No_fuel"
| "parameters_loop (Suc n) p st =
     res_bind (one_parameter p st) (\<lambda>(st1, p1).
     if p_kind p1 \<noteq> TOKEN_COMMA then Inr (st1, p1)
     else res_bind (p_next p1) (\<lambda>p2. parameters_loop n p2 st1))"

definition parameters :: "'d parser \<Rightarrow> 'd statement \<Rightarrow> ('d statement \<times> 'd parser) result" where
  "parameters p st = parameters_loop (p_size p + 1) p st"

section \<open>Statements and programs\<close>

text \<open>The end of \<^verbatim>\<open>one_statement()\<close>, from the first token behind the opening parenthesis.\<close>

definition statement_end :: "'d statement \<Rightarrow> 'd parser \<Rightarrow> 'd state \<Rightarrow> ('d state \<times> 'd parser) result" where
  "statement_end st p s =
     (if p_kind p \<noteq> TOKEN_CLOSE_PARENTHESIS then Inl Runtime_error
      else res_bind (verify_parameters st) (\<lambda>_. res_bind (add_statement st s) (\<lambda>s1. Inr (s1, p))))"

definition statement_parameters :: "'d statement \<Rightarrow> 'd parser \<Rightarrow> 'd state \<Rightarrow> ('d state \<times> 'd parser) result" where
  "statement_parameters st p s =
     (if p_kind p = TOKEN_EOF then Inl Runtime_error
      else if p_kind p \<noteq> TOKEN_CLOSE_PARENTHESIS
      then res_bind (parameters p st) (\<lambda>(st1, p1). statement_end st1 p1 s)
      else statement_end st p s)"

definition one_statement :: "string \<Rightarrow> 'd parser \<Rightarrow> 'd state \<Rightarrow> ('d state \<times> 'd parser) result" where
  "one_statement filename p s =
     (if p_kind p \<noteq> TOKEN_IDENTIFIER then Inl Runtime_error
      else (case get_instruction (t_string (p_token p)) of
          None \<Rightarrow> Inl Runtime_error
        | Some decls \<Rightarrow>
            let st = \<lparr>sm_instruction = t_string (p_token p), sm_declarations = decls, sm_filename = filename,
                      sm_line = t_line (p_token p), sm_parameters = []\<rparr>
            in res_bind (p_next p) (\<lambda>p1.
               if p_kind p1 = TOKEN_EOF then Inl Runtime_error
               else if p_kind p1 \<noteq> TOKEN_OPEN_PARENTHESIS then Inl Runtime_error
               else res_bind (p_next p1) (\<lambda>p2. statement_parameters st p2 s))))"

fun program_loop :: "nat \<Rightarrow> string \<Rightarrow> 'd parser \<Rightarrow> 'd state \<Rightarrow> 'd state result" where
  "program_loop 0 filename p s = Inl No_fuel"
| "program_loop (Suc n) filename p s =
     res_bind (p_next p) (\<lambda>p1.
     if p_kind p1 = TOKEN_EOF then Inr s
     else res_bind (one_statement filename p1 s) (\<lambda>(s1, p2). program_loop n filename p2 s1))"

text \<open>\<^verbatim>\<open>parse_program()\<close> on the stream of tokens; the parser starts with a default token.\<close>

definition start_parser :: "'d token \<Rightarrow> 'd token result list \<Rightarrow> 'd parser" where
  "start_parser t ts = \<lparr>p_token = t\<lparr>t_token := TOKEN_EOF\<rparr>, p_rest = ts\<rparr>"

definition parse_program :: "'d lex_env \<Rightarrow> lexer \<Rightarrow> 'd state \<Rightarrow> 'd state result" where
  "parse_program env lx s =
     (let ts = lex_stream env lx in
      program_loop (length ts + 2) (f_filename lx) (start_parser (token_at env lx) ts) s)"

end
