(* ===== verification/Parser_Correct.thy ===== *)
theory Parser_Correct
  imports Parser
begin

text \<open>
  The parser always ends, what it accepts is well formed, and expressions are read with the
  precedence and associativity of their operators.
\<close>

section \<open>The bounds are enough\<close>

text \<open>\<open>consumes p k r\<close>: a step that ran from \<open>p\<close> did not run out of fuel and, when it succeeded, left
  the parser at least \<open>k\<close> tokens further.\<close>

definition consumes :: "'d parser \<Rightarrow> nat \<Rightarrow> ('a \<times> 'd parser) result \<Rightarrow> bool" where
  "consumes p k r \<longleftrightarrow>
     (case r of
        Inl e \<Rightarrow> e = No_fuel \<longrightarrow> Inl No_fuel \<in> set (p_rest p)
      | Inr (x, p') \<Rightarrow> p_size p' + k \<le> p_size p \<and> set (p_rest p') \<subseteq> set (p_rest p))"

lemma consumes_Inl [simp]: "e \<noteq> No_fuel \<Longrightarrow> consumes p k (Inl e)"
  by (simp add: consumes_def)

lemma consumes_Inr [simp]:
  "consumes p k (Inr (x, p')) \<longleftrightarrow> p_size p' + k \<le> p_size p \<and> set (p_rest p') \<subseteq> set (p_rest p)"
  by (simp add: consumes_def)

lemma consumes_weaken: "consumes p' j r \<Longrightarrow> p_size p' + k \<le> p_size p + j \<Longrightarrow> set (p_rest p') \<subseteq> set (p_rest p) \<Longrightarrow>
    consumes p k r"
  by (force simp: consumes_def split: sum.splits)

lemma consumes_bind:
  assumes "consumes p j r" and "\<And>x p'. r = Inr (x, p') \<Longrightarrow> p_size p' + j \<le> p_size p \<Longrightarrow> consumes p' 0 (f (x, p'))"
    and "k \<le> j"
  shows "consumes p k (res_bind r f)"
proof (cases r)
  case (Inl e)
  with assms(1) show ?thesis by (simp add: consumes_def)
next
  case (Inr xp)
  obtain x p' where xp: "xp = (x, p')" by (cases xp)
  have "consumes p' 0 (f (x, p'))" "p_size p' + j \<le> p_size p" "set (p_rest p') \<subseteq> set (p_rest p)"
    using assms(1,2) Inr xp by auto
  with assms(3) show ?thesis by (auto simp: Inr xp intro: consumes_weaken)
qed

lemma p_next_size:
  "p_next p = Inr p' \<Longrightarrow> p_size p' + (if p_kind p = TOKEN_EOF then 0 else 1) \<le> p_size p \<and> set (p_rest p') \<subseteq> set (p_rest p)"
  by (auto simp: p_next_def p_size_def split: list.splits sum.splits if_splits)

lemma p_next_fuel: "p_next p = Inl No_fuel \<Longrightarrow> Inl No_fuel \<in> set (p_rest p)"
  by (auto simp: p_next_def split: list.splits sum.splits if_splits)

lemma consumes_next:
  assumes "\<And>p'. p_next p = Inr p' \<Longrightarrow> p_size p' + (if p_kind p = TOKEN_EOF then 0 else 1) \<le> p_size p \<Longrightarrow> consumes p' j (f p')"
    and "k \<le> j + (if p_kind p = TOKEN_EOF then 0 else 1)"
  shows "consumes p k (res_bind (p_next p) f)"
proof (cases "p_next p")
  case (Inl e)
  then show ?thesis using p_next_fuel [of p] by (auto simp: consumes_def)
next
  case (Inr p')
  note sz = p_next_size [OF Inr]
  from assms(1) [OF Inr] sz have "consumes p' j (f p')" by simp
  then show ?thesis using sz assms(2) by (auto simp: Inr intro: consumes_weaken)
qed

lemma expr_fuel:
  "8 * p_size p + 5 - lv \<le> n \<Longrightarrow> lv \<le> 3 \<Longrightarrow> consumes p 1 (expr_level n lv p)"
  "8 * p_size p + 1 \<le> n \<Longrightarrow> lv < 3 \<Longrightarrow> consumes p 0 (expr_loop n lv l p)"
  "8 * p_size p + 1 \<le> n \<Longrightarrow> consumes p 1 (primary n p)"
proof (induction n arbitrary: p lv l)
  case (Suc n)
  { case 1
    show ?case
    proof (cases "lv \<ge> 3")
      case True
      with 1 Suc.IH(3) [of p] show ?thesis by simp
    next
      case False
      have "consumes p 1 (res_bind (expr_level n (Suc lv) p) (\<lambda>(left, p1). expr_loop n lv left p1))"
      proof (rule consumes_bind [where j = 1])
        show "consumes p 1 (expr_level n (Suc lv) p)" using Suc.IH(1) [of p "Suc lv"] 1 False by auto
        show "consumes p' 0 (case (x, p') of (left, p1) \<Rightarrow> expr_loop n lv left p1)"
          if "p_size p' + 1 \<le> p_size p" for x :: "'a expression" and p' :: "'a parser"
          using Suc.IH(2) [of p' lv x] that 1 False by auto
      qed simp
      with False show ?thesis by simp
    qed }
  { case 2
    show ?case
    proof (cases "level_op lv (p_kind p)")
      case None
      then show ?thesis by simp
    next
      case (Some op)
      have ne: "p_kind p \<noteq> TOKEN_EOF" using Some by (auto simp: level_op_def split: if_splits)
      have "consumes p 0 (res_bind (p_next p) (\<lambda>p1. res_bind (expr_level n (Suc lv) p1)
          (\<lambda>(right, p2). expr_loop n lv (Expression op [l, right] None) p2)))"
      proof (rule consumes_next [where j = 0])
        fix p1 :: "'a parser" assume "p_size p1 + (if p_kind p = TOKEN_EOF then 0 else 1) \<le> p_size p"
        then have sz: "p_size p1 + 1 \<le> p_size p" using ne by simp
        show "consumes p1 0 (res_bind (expr_level n (Suc lv) p1)
            (\<lambda>(right, p2). expr_loop n lv (Expression op [l, right] None) p2))"
        proof (rule consumes_bind [where j = 1])
          show "consumes p1 1 (expr_level n (Suc lv) p1)" using Suc.IH(1) [of p1 "Suc lv"] 2 sz by auto
          show "consumes p' 0 (case (x, p') of (right, p2) \<Rightarrow> expr_loop n lv (Expression op [l, right] None) p2)"
            if "p_size p' + 1 \<le> p_size p1" for x :: "'a expression" and p' :: "'a parser"
            using Suc.IH(2) [of p' lv "Expression op [l, x] None"] 2 sz that by auto
        qed simp
      qed simp
      with Some show ?thesis by simp
    qed }
  { case 3
    consider (prim) "primary_token (p_kind p)"
      | (sign) "\<not> primary_token (p_kind p)" "p_kind p = TOKEN_PLUS \<or> p_kind p = TOKEN_MINUS"
      | (paren) "\<not> primary_token (p_kind p)" "p_kind p = TOKEN_OPEN_PARENTHESIS"
      | (other) "\<not> primary_token (p_kind p)" "p_kind p \<noteq> TOKEN_PLUS" "p_kind p \<noteq> TOKEN_MINUS"
          "p_kind p \<noteq> TOKEN_OPEN_PARENTHESIS" by blast
    then show ?case
    proof cases
      case prim
      then have "p_kind p \<noteq> TOKEN_EOF" by (auto simp: primary_token_def)
      then have "consumes p 1 (res_bind (p_next p) (\<lambda>p1. Inr (Expression OPERATOR_PRIMARY [] (Some (p_token p)), p1)))"
        by (intro consumes_next [where j = 0]) auto
      with prim show ?thesis by simp
    next
      case sign
      then have ne: "p_kind p \<noteq> TOKEN_EOF" by auto
      have "consumes p 1 (res_bind (p_next p) (\<lambda>p1. res_bind (primary n p1) (\<lambda>(e, p2).
          Inr (Expression (if p_kind p = TOKEN_PLUS then OPERATOR_IDENTITY else OPERATOR_NEGATE) [e] None, p2))))"
      proof (rule consumes_next [where j = 0])
        fix p1 :: "'a parser" assume "p_size p1 + (if p_kind p = TOKEN_EOF then 0 else 1) \<le> p_size p"
        then have "consumes p1 1 (primary n p1)" using Suc.IH(3) [of p1] 3 ne by simp
        then show "consumes p1 0 (res_bind (primary n p1) (\<lambda>(e, p2).
            Inr (Expression (if p_kind p = TOKEN_PLUS then OPERATOR_IDENTITY else OPERATOR_NEGATE) [e] None, p2)))"
          by (rule consumes_bind) auto
      qed (use ne in simp)
      with sign show ?thesis by simp
    next
      case paren
      then have ne: "p_kind p \<noteq> TOKEN_EOF" by auto
      have "consumes p 1 (res_bind (p_next p) (\<lambda>p1.
          if p_kind p1 = TOKEN_EOF then Inl Runtime_error
          else res_bind (expr_level n 0 p1) (\<lambda>(e, p2).
            if p_kind p2 \<noteq> TOKEN_CLOSE_PARENTHESIS then Inl Runtime_error
            else res_bind (p_next p2) (\<lambda>p3. Inr (e, p3)))))"
      proof (rule consumes_next [where j = 0])
        fix p1 :: "'a parser" assume "p_size p1 + (if p_kind p = TOKEN_EOF then 0 else 1) \<le> p_size p"
        then have "consumes p1 1 (expr_level n 0 p1)" using Suc.IH(1) [of p1 0] 3 ne by simp
        then show "consumes p1 0 (if p_kind p1 = TOKEN_EOF then Inl Runtime_error
          else res_bind (expr_level n 0 p1) (\<lambda>(e, p2).
            if p_kind p2 \<noteq> TOKEN_CLOSE_PARENTHESIS then Inl Runtime_error
            else res_bind (p_next p2) (\<lambda>p3. Inr (e, p3))))"
          by (auto intro!: consumes_bind [where j = 1] consumes_next [where j = 0])
      qed (use ne in simp)
      with paren show ?thesis by simp
    next
      case other
      then show ?thesis by simp
    qed }
qed simp_all

lemma comparative_fuel: "consumes p 1 (comparative p)"
  unfolding comparative_def by (rule expr_fuel(1)) simp_all

lemma consumes_trans_next:
  "consumes p1 0 (res_bind (p_next p1) (\<lambda>p2. Inr (x, p2)))"
  by (rule consumes_next [where j = 0]) auto

lemma list_item_fuel: "consumes p 1 (list_item p)"
proof (cases "p_kind p = TOKEN_IDENTIFIER")
  case True
  have rest: "consumes p1 0 (if p_kind p1 = TOKEN_EOF then Inl Runtime_error
      else if p_kind p1 = TOKEN_COLON then
        res_bind (p_next p1) (\<lambda>p2.
        if p_kind p2 = TOKEN_EOF then Inl Runtime_error
        else res_bind (comparative p2) (\<lambda>(e, p3). Inr (Expression OPERATOR_NAMED [i, e] None, p3)))
      else Inr (Expression OPERATOR_NAMED [i] None, p1))" for i and p1 :: "'a parser"
    by (auto intro!: consumes_next [where j = 0] consumes_bind [OF comparative_fuel])
  with True show ?thesis
    by (auto simp: list_item_def Let_def intro!: consumes_next [where j = 0])
qed (simp add: list_item_def)

lemma items_loop_fuel:
  assumes "\<And>p. consumes p 1 (item p)"
  shows "p_size p < n \<Longrightarrow> consumes p 1 (items_loop n item close acc p)"
proof (induction n arbitrary: p acc)
  case (Suc n)
  have "consumes p1 0 (if p_kind p1 \<noteq> TOKEN_COMMA then
       (if p_kind p1 \<noteq> close then Inl Runtime_error
        else res_bind (p_next p1) (\<lambda>p2. Inr (acc @ [e], p2)))
     else res_bind (p_next p1) (\<lambda>p2.
       if p_kind p2 = TOKEN_EOF then Inl Runtime_error
       else items_loop n item close (acc @ [e]) p2))" if "p_size p1 + 1 \<le> p_size p"
    for e :: "'a expression" and p1 :: "'a parser"
  proof -
    have "consumes p2 0 (items_loop n item close (acc @ [e]) p2)" if "p_size p2 \<le> p_size p1" for p2 :: "'a parser"
      using Suc.IH [of p2 "acc @ [e]"] Suc.prems that \<open>p_size p1 + 1 \<le> p_size p\<close>
      by (auto intro: consumes_weaken)
    then show ?thesis by (auto intro!: consumes_trans_next consumes_next [where j = 0])
  qed
  then show ?case by (auto intro!: consumes_bind [OF assms])
qed simp

lemma expression_items_fuel:
  assumes "\<And>p. consumes p 1 (item p)"
  shows "consumes p 0 (expression_items op item close p)"
proof -
  have "consumes p 1 (items_loop (p_size p + 1) item close [] p)" by (rule items_loop_fuel [OF assms]) simp
  then have "consumes p 0 (res_bind (items_loop (p_size p + 1) item close [] p) (\<lambda>(es, p1). Inr (Expression op es None, p1)))"
    by (rule consumes_bind) auto
  then show ?thesis
    unfolding expression_items_def
    by (cases "p_kind p = close") (simp_all add: consumes_trans_next del: items_loop.simps)
qed

lemma one_parameter_fuel: "consumes p 1 (one_parameter p st)"
proof (cases "p_kind p = TOKEN_IDENTIFIER")
  case True
  have lst: "consumes p 0 (expression_list p)" and arr: "consumes p 0 (expression_array p)" for p :: "'a parser"
    unfolding expression_list_def expression_array_def
    by (rule expression_items_fuel, rule list_item_fuel, rule expression_items_fuel, rule comparative_fuel)
  have comp: "consumes p 0 (comparative p)" for p :: "'a parser"
    using comparative_fuel [of p] by (rule consumes_weaken) auto
  have add: "consumes p3 0 (res_bind (stmt_add_parameter name e st) (\<lambda>st'. Inr (st', p3)))"
    for name e and p3 :: "'a parser"
    by (auto simp: stmt_add_parameter_def)
  have val: "consumes p2 0 (parameter_value p2)" for p2 :: "'a parser"
    by (auto simp: parameter_value_def intro!: consumes_next [where j = 0] lst arr comp)
  show ?thesis
    using True by (auto simp: one_parameter_def Let_def
        intro!: consumes_next [where j = 0] consumes_bind [OF val] add)
qed (simp add: one_parameter_def)

lemma parameters_loop_fuel: "p_size p < n \<Longrightarrow> consumes p 1 (parameters_loop n p st)"
proof (induction n arbitrary: p st)
  case (Suc n)
  have "consumes p1 0 (if p_kind p1 \<noteq> TOKEN_COMMA then Inr (st1, p1)
      else res_bind (p_next p1) (\<lambda>p2. parameters_loop n p2 st1))" if "p_size p1 + 1 \<le> p_size p"
    for st1 :: "'a statement" and p1 :: "'a parser"
  proof -
    have "consumes p2 0 (parameters_loop n p2 st1)" if "p_size p2 \<le> p_size p1" for p2 :: "'a parser"
      using Suc.IH [of p2 st1] Suc.prems that \<open>p_size p1 + 1 \<le> p_size p\<close> by (auto intro: consumes_weaken)
    then show ?thesis by (auto intro!: consumes_next [where j = 0])
  qed
  then show ?case by (auto intro!: consumes_bind [OF one_parameter_fuel])
qed simp

lemma one_statement_fuel: "consumes p 1 (one_statement f p s)"
proof (cases "p_kind p = TOKEN_IDENTIFIER")
  case True
  have par: "consumes p 0 (parameters p st)" for p :: "'a parser" and st
    unfolding parameters_def using parameters_loop_fuel [of p "p_size p + 1" st] by (auto intro: consumes_weaken)
  have fin: "consumes p3 0 (statement_end st1 p3 s)" for p3 :: "'a parser" and st1
    by (auto simp: statement_end_def verify_parameters_def add_statement_def label_name_def split: option.split)
  have "consumes p2 0 (statement_parameters st p2 s)" for p2 :: "'a parser" and st
    by (auto simp: statement_parameters_def fin intro!: consumes_bind [OF par])
  with True show ?thesis
    by (auto simp: one_statement_def Let_def intro!: consumes_next [where j = 0] split: option.split)
qed (simp add: one_statement_def)

lemma program_loop_fuel:
  "p_size p < n \<Longrightarrow> Inl No_fuel \<notin> set (p_rest p) \<Longrightarrow> program_loop n f p s \<noteq> Inl No_fuel"
proof (induction n arbitrary: p s)
  case (Suc n)
  show ?case
  proof (cases "p_next p")
    case (Inl e)
    with p_next_fuel [of p] Suc.prems show ?thesis by auto
  next
    case (Inr p1)
    have rest1: "Inl No_fuel \<notin> set (p_rest p1)" "p_size p1 \<le> p_size p"
      using p_next_size [OF Inr] Suc.prems(2) by (auto split: if_splits)
    show ?thesis
    proof (cases "one_statement f p1 s")
      case (Inl e)
      with one_statement_fuel [of p1 f s] rest1 Inr show ?thesis by (auto simp: consumes_def)
    next
      case (Inr r)
      obtain s1 p2 where r: "r = (s1, p2)" by (cases r)
      have "p_size p2 + 1 \<le> p_size p1" "set (p_rest p2) \<subseteq> set (p_rest p1)"
        using one_statement_fuel [of p1 f s] Inr r by auto
      with Suc.IH [of p2 s1] rest1 Suc.prems(1) show ?thesis
        using Inr r \<open>p_next p = Inr p1\<close> by auto
    qed
  qed
qed simp

lemma lex_stream_no_fuel:
  "conversions_throw E env \<Longrightarrow> No_fuel \<notin> E \<Longrightarrow> length (f_unget lx) \<le> 1 \<Longrightarrow> Inl No_fuel \<notin> set (lex_stream env lx)"
proof (induction env lx rule: lex_stream.induct)
  case (1 env lx)
  note safe = next_token_safe [OF 1(4,2)]
  show ?case
  proof (cases "next_token env lx")
    case (Inl e)
    with safe 1(3) show ?thesis by (subst lex_stream.simps) auto
  next
    case (Inr r)
    obtain t lx' where r: "r = (t, lx')" by (cases r)
    with safe Inr have "length (f_unget lx') \<le> 1" by simp
    with 1(1) [OF Inr r [symmetric] _ 1(2,3)] Inr r show ?thesis by (subst lex_stream.simps) auto
  qed
qed

section \<open>What a parsed program satisfies\<close>

definition declared :: "'d statement \<Rightarrow> bool" where
  "declared st \<longleftrightarrow> get_instruction (sm_instruction st) = Some (sm_declarations st) \<and>
     fst ` set (sm_parameters st) \<subseteq> pd_name ` set (sm_declarations st)"

definition stmt_wf :: "'d statement \<Rightarrow> bool" where
  "stmt_wf st \<longleftrightarrow> declared st \<and>
     (\<forall>d \<in> set (sm_declarations st). pd_required d \<longrightarrow> map_of (sm_parameters st) (pd_name d) \<noteq> None)"

definition program_ok :: "'d state \<Rightarrow> bool" where
  "program_ok s \<longleftrightarrow> labels_ok s \<and> (\<forall>st \<in> set (st_program s). stmt_wf st)"

lemma stmt_add_parameter_declared:
  assumes "declared st" and "stmt_add_parameter name e st = Inr st'"
  shows "declared st'"
proof -
  have "st' = st\<lparr>sm_parameters := omap_put name e (sm_parameters st)\<rparr>"
    and "name \<in> pd_name ` set (sm_declarations st)"
    using assms(2) by (auto simp: stmt_add_parameter_def list_ex_iff split: if_splits)
  with assms(1) show ?thesis by (simp add: declared_def set_fst_omap_put)
qed

lemma one_parameter_declared:
  "declared st \<Longrightarrow> one_parameter p st = Inr (st', p') \<Longrightarrow> declared st'"
  by (auto simp: one_parameter_def Let_def res_bind_eq_Inr stmt_add_parameter_declared split: if_splits)

lemma parameters_loop_declared:
  "declared st \<Longrightarrow> parameters_loop n p st = Inr (st', p') \<Longrightarrow> declared st'"
proof (induction n arbitrary: p st)
  case (Suc n)
  then show ?case
    by (auto simp: res_bind_eq_Inr dest: one_parameter_declared split: if_splits)
qed simp

lemma statement_end_ok:
  assumes "declared st" and "program_ok s" and "statement_end st p s = Inr (s', p')"
  shows "program_ok s'"
proof -
  from assms(3) have v: "verify_parameters st = Inr ()" and a: "add_statement st s = Inr s'"
    by (auto simp: statement_end_def res_bind_eq_Inr split: if_splits)
  have "stmt_wf st" using assms(1) v by (auto simp: stmt_wf_def verify_parameters_def list_ex_iff split: if_splits)
  moreover have "labels_ok s'" using assms(2) a by (auto simp: program_ok_def intro: label_invariant_step)
  moreover have "st_program s' = st_program s @ [st]" using add_statement_program [OF a] by blast
  ultimately show ?thesis using assms(2) by (auto simp: program_ok_def)
qed

lemma one_statement_ok:
  assumes "program_ok s" and "one_statement f p s = Inr (s', p')"
  shows "program_ok s'"
proof -
  from assms(2) obtain decls where d: "get_instruction (t_string (p_token p)) = Some decls"
    by (auto simp: one_statement_def split: if_splits option.splits)
  let ?st = "\<lparr>sm_instruction = t_string (p_token p), sm_declarations = decls, sm_filename = f,
      sm_line = t_line (p_token p), sm_parameters = []\<rparr>"
  have decl: "declared ?st" using d by (simp add: declared_def)
  from assms(2) d obtain p2 where "statement_parameters ?st p2 s = Inr (s', p')"
    by (auto simp: one_statement_def res_bind_eq_Inr Let_def split: if_splits)
  then show ?thesis
    using decl assms(1)
    by (auto simp: statement_parameters_def parameters_def res_bind_eq_Inr
        dest: statement_end_ok parameters_loop_declared simp del: parameters_loop.simps split: if_splits)
qed

lemma program_loop_ok: "program_ok s \<Longrightarrow> program_loop n f p s = Inr s' \<Longrightarrow> program_ok s'"
proof (induction n arbitrary: p s)
  case (Suc n)
  then show ?case
    by (auto simp: res_bind_eq_Inr dest: one_statement_ok split: if_splits)
qed simp

text \<open>
  C17 (termination): parsing always ends. Whatever the text, \<^verbatim>\<open>parse_program()\<close> either throws one of the
  errors of the language or returns: the bounds put on its loops are never what stops it.
\<close>

theorem parse_program_terminates:
  assumes "conversions_throw E env" and "No_fuel \<notin> E"
  shows "parse_program env (new_lexer filename text) s \<noteq> Inl No_fuel"
proof -
  have "length (f_unget (new_lexer filename text)) \<le> 1" by (simp add: new_lexer_def)
  from lex_stream_no_fuel [OF assms this]
  show ?thesis
    unfolding parse_program_def Let_def
    by (intro program_loop_fuel) (simp_all add: start_parser_def p_size_def)
qed


section \<open>Printing and parsing expressions\<close>

text \<open>More fuel does not change a result.\<close>

lemma bind_mono:
  "res_bind r f \<noteq> Inl No_fuel \<Longrightarrow> (r \<noteq> Inl No_fuel \<Longrightarrow> r' = r) \<Longrightarrow>
     (\<And>x. f x \<noteq> Inl No_fuel \<Longrightarrow> f' x = f x) \<Longrightarrow> res_bind r' f' = res_bind r f"
  by (cases r) auto

lemma bind_mono_pair:
  "res_bind r (\<lambda>(a, b). f a b) \<noteq> Inl No_fuel \<Longrightarrow> (r \<noteq> Inl No_fuel \<Longrightarrow> r' = r) \<Longrightarrow>
     (\<And>a b. f a b \<noteq> Inl No_fuel \<Longrightarrow> f' a b = f a b) \<Longrightarrow>
     res_bind r' (\<lambda>(a, b). f' a b) = res_bind r (\<lambda>(a, b). f a b)"
  by (cases r) auto

lemma expr_mono:
  "expr_level n lv p \<noteq> Inl No_fuel \<Longrightarrow> expr_level (Suc n) lv p = expr_level n lv p"
  "expr_loop n lv l p \<noteq> Inl No_fuel \<Longrightarrow> expr_loop (Suc n) lv l p = expr_loop n lv l p"
  "primary n p \<noteq> Inl No_fuel \<Longrightarrow> primary (Suc n) p = primary n p"
proof (induction n arbitrary: p lv l)
  case (Suc n)
  { case 1
    show ?case
    proof (cases "lv \<ge> 3")
      case True
      then have "expr_level (Suc m) lv p = primary m p" for m by simp
      with 1 Suc.IH(3) [of p] show ?thesis by metis
    next
      case False
      then have e: "expr_level (Suc m) lv p = res_bind (expr_level m (Suc lv) p) (\<lambda>(left, p1). expr_loop m lv left p1)" for m
        by simp
      show ?thesis
        unfolding e by (rule bind_mono_pair [OF 1 [unfolded e]]) (fact Suc.IH(1), fact Suc.IH(2))
    qed }
  { case 2
    show ?case
    proof (cases "level_op lv (p_kind p)")
      case None
      then show ?thesis by simp
    next
      case (Some op)
      then have e: "expr_loop (Suc m) lv l p =
          res_bind (p_next p) (\<lambda>p1. res_bind (expr_level m (Suc lv) p1)
            (\<lambda>(right, p2). expr_loop m lv (Expression op [l, right] None) p2))" for m
        by simp
      show ?thesis
        unfolding e
        by (rule bind_mono [OF 2 [unfolded e] refl], erule bind_mono_pair) (fact Suc.IH(1), fact Suc.IH(2))
    qed }
  { case 3
    consider (sign) "\<not> primary_token (p_kind p)" "p_kind p = TOKEN_PLUS \<or> p_kind p = TOKEN_MINUS"
      | (paren) "\<not> primary_token (p_kind p)" "p_kind p = TOKEN_OPEN_PARENTHESIS"
      | (other) "primary_token (p_kind p) \<or> p_kind p \<notin> {TOKEN_PLUS, TOKEN_MINUS, TOKEN_OPEN_PARENTHESIS}" by blast
    then show ?case
    proof cases
      case sign
      let ?op = "if p_kind p = TOKEN_PLUS then OPERATOR_IDENTITY else OPERATOR_NEGATE"
      have e: "primary (Suc m) p = res_bind (p_next p) (\<lambda>p1. res_bind (primary m p1)
          (\<lambda>(e, p2). Inr (Expression ?op [e] None, p2)))" for m
        using sign by auto
      show ?thesis
        unfolding e by (rule bind_mono [OF 3 [unfolded e] refl], erule bind_mono_pair) (fact Suc.IH(3), rule refl)
    next
      case paren
      let ?k = "\<lambda>m p1. if p_kind p1 = TOKEN_EOF then Inl Runtime_error
          else res_bind (expr_level m 0 p1) (\<lambda>(e, p2).
            if p_kind p2 \<noteq> TOKEN_CLOSE_PARENTHESIS then Inl Runtime_error
            else res_bind (p_next p2) (\<lambda>p3. Inr (e, p3)))"
      have e: "primary (Suc m) p = res_bind (p_next p) (?k m)" for m using paren by simp
      have k: "?k (Suc n) p1 = ?k n p1" if "?k n p1 \<noteq> Inl No_fuel" for p1 :: "'a parser"
      proof (cases "p_kind p1 = TOKEN_EOF")
        case False
        then have ke: "?k m p1 = res_bind (expr_level m 0 p1) (\<lambda>(e, p2).
            if p_kind p2 \<noteq> TOKEN_CLOSE_PARENTHESIS then Inl Runtime_error
            else res_bind (p_next p2) (\<lambda>p3. Inr (e, p3)))" for m by (simp only: if_False)
        show ?thesis unfolding ke by (rule bind_mono_pair [OF that [unfolded ke]]) (fact Suc.IH(1), rule refl)
      qed simp
      show ?thesis unfolding e by (rule bind_mono [OF 3 [unfolded e] refl]) (rule k)
    next
      case other
      then show ?thesis by auto
    qed }
qed simp_all

definition ev :: "(nat \<Rightarrow> 'a) \<Rightarrow> 'a \<Rightarrow> bool" where
  "ev f r \<longleftrightarrow> (\<exists>N. \<forall>n \<ge> N. f n = r)"

lemma ev_Suc: "ev (\<lambda>n. f (Suc n)) r \<Longrightarrow> ev f r"
  unfolding ev_def by (metis Suc_le_D Suc_le_mono)

lemma ev_const [simp]: "ev (\<lambda>n. r) r"
  by (simp add: ev_def)

lemma ev_bind: "ev f (Inr x) \<Longrightarrow> ev (\<lambda>n. g n x) r \<Longrightarrow> ev (\<lambda>n. res_bind (f n) (g n)) r"
  unfolding ev_def by (metis (no_types, lifting) max.bounded_iff res_bind_simps(2))

lemma expr_level_ev:
  assumes "ev (\<lambda>n. expr_level n lv p) r" and "expr_level m lv p \<noteq> Inl No_fuel"
  shows "expr_level m lv p = r"
proof -
  obtain N where N: "\<forall>n \<ge> N. expr_level n lv p = r" using assms(1) by (auto simp: ev_def)
  have "expr_level (m + k) lv p = expr_level m lv p" for k
  proof (induction k)
    case (Suc k)
    then show ?case using assms(2) expr_mono(1) [of "m + k" lv p] by (metis add_Suc_right)
  qed simp
  with N show ?thesis by (metis le_add2)
qed

definition at :: "'d token list \<Rightarrow> 'd parser" where
  "at ts = \<lparr>p_token = hd ts, p_rest = map Inr (tl ts)\<rparr>"

lemma p_next_at: "ts \<noteq> [] \<Longrightarrow> t_token (hd ts) \<noteq> TOKEN_ERROR \<Longrightarrow> p_next (at (t # ts)) = Inr (at ts)"
  by (cases ts) (simp_all add: p_next_def at_def)

lemma p_kind_at [simp]: "p_kind (at (t # ts)) = t_token t" "p_token (at (t # ts)) = t"
  by (simp_all add: at_def)

definition no_error :: "'d token list \<Rightarrow> bool" where
  "no_error ts \<longleftrightarrow> (\<forall>t \<in> set ts. t_token t \<noteq> TOKEN_ERROR)"

text \<open>What may come behind an operand of level \<open>lv\<close>: no operator that binds tighter.\<close>

definition follows :: "nat \<Rightarrow> 'd token list \<Rightarrow> bool" where
  "follows lv rest \<longleftrightarrow> rest \<noteq> [] \<and> no_error rest \<and> (\<forall>l > lv. level_op l (t_token (hd rest)) = None)"

text \<open>The tokens \<open>ts\<close> are read at level \<open>lv\<close> as the operand \<open>e\<close>, after which the loop of that level
  goes on.\<close>

definition parses_as :: "nat \<Rightarrow> 'd token list \<Rightarrow> 'd expression \<Rightarrow> bool" where
  "parses_as lv ts e \<longleftrightarrow> (\<forall>rest r. follows lv rest \<longrightarrow>
     (if lv \<ge> 3 then r = Inr (e, at rest) else ev (\<lambda>n. expr_loop n lv e (at rest)) r) \<longrightarrow>
     ev (\<lambda>n. expr_level n lv (at (ts @ rest))) r)"

lemma loop_stops: "rest \<noteq> [] \<Longrightarrow> level_op lv (t_token (hd rest)) = None \<Longrightarrow>
    ev (\<lambda>n. expr_loop n lv e (at rest)) (Inr (e, at rest))"
  by (rule ev_Suc) (simp add: at_def)

lemma parses_full:
  assumes "parses_as lv ts e" and "follows lv rest" and "lv < 3 \<Longrightarrow> level_op lv (t_token (hd rest)) = None"
  shows "ev (\<lambda>n. expr_level n lv (at (ts @ rest))) (Inr (e, at rest))"
  using assms loop_stops [of rest lv e] by (auto simp: parses_as_def follows_def)

lemma parses_down:
  assumes "parses_as (Suc lv) ts e" and "lv < 3"
  shows "parses_as lv ts e"
  unfolding parses_as_def
proof (intro allI impI)
  fix rest r
  assume f: "follows lv rest" and r: "if lv \<ge> 3 then r = Inr (e, at rest) else ev (\<lambda>n. expr_loop n lv e (at rest)) r"
  have "follows (Suc lv) rest" "level_op (Suc lv) (t_token (hd rest)) = None" using f by (auto simp: follows_def)
  then have "ev (\<lambda>n. expr_level n (Suc lv) (at (ts @ rest))) (Inr (e, at rest))" by (intro parses_full assms) auto
  then have "ev (\<lambda>n. res_bind (expr_level n (Suc lv) (at (ts @ rest))) (\<lambda>(left, p1). expr_loop n lv left p1)) r"
    by (rule ev_bind) (use r assms(2) in simp)
  then show "ev (\<lambda>n. expr_level n lv (at (ts @ rest))) r"
    by (intro ev_Suc [where f = "\<lambda>n. expr_level n lv (at (ts @ rest))"]) (use assms(2) in simp)
qed

lemma parses_down_le: "parses_as m ts e \<Longrightarrow> lv \<le> m \<Longrightarrow> m \<le> 3 \<Longrightarrow> parses_as lv ts e"
proof (induction m)
  case (Suc m)
  then show ?case using parses_down [of m ts e] by (cases "lv = Suc m") auto
qed simp

lemma parses_primary:
  assumes "\<And>rest. follows 3 rest \<Longrightarrow> ev (\<lambda>n. primary n (at (ts @ rest))) (Inr (e, at rest))"
  shows "parses_as 3 ts e"
  unfolding parses_as_def using assms by (auto intro!: ev_Suc [where f = "\<lambda>n. expr_level n 3 _"])

lemma parses_leaf:
  assumes "primary_token (t_token t)"
  shows "parses_as 3 [t] (Expression OPERATOR_PRIMARY [] (Some t))"
  using assms
  by (intro parses_primary ev_Suc [where f = "\<lambda>n. primary n _"])
     (auto simp: follows_def no_error_def p_next_at)

lemma parses_sign:
  assumes "parses_as 3 ts e" and "t_token t = TOKEN_PLUS \<or> t_token t = TOKEN_MINUS" and "ts \<noteq> []" and "no_error ts"
  shows "parses_as 3 (t # ts)
     (Expression (if t_token t = TOKEN_PLUS then OPERATOR_IDENTITY else OPERATOR_NEGATE) [e] None)"
proof (intro parses_primary ev_Suc [where f = "\<lambda>n. primary n _"])
  fix rest :: "'a token list" assume f: "follows 3 rest"
  have "ev (\<lambda>n. expr_level n 3 (at (ts @ rest))) (Inr (e, at rest))"
    using assms(1) f by (auto simp: parses_as_def)
  then have "ev (\<lambda>n. expr_level (Suc n) 3 (at (ts @ rest))) (Inr (e, at rest))"
    unfolding ev_def by (meson le_SucI)
  then have p: "ev (\<lambda>n. primary n (at (ts @ rest))) (Inr (e, at rest))" by simp
  have nx: "p_next (at (t # ts @ rest)) = Inr (at (ts @ rest))"
    using assms(3,4) by (intro p_next_at) (auto simp: no_error_def)
  have np: "\<not> primary_token (t_token t)" using assms(2) by (auto simp: primary_token_def)
  show "ev (\<lambda>n. primary (Suc n) (at ((t # ts) @ rest)))
      (Inr (Expression (if t_token t = TOKEN_PLUS then OPERATOR_IDENTITY else OPERATOR_NEGATE) [e] None, at rest))"
    using assms(2) np nx by (auto intro!: ev_bind [OF p])
qed

lemma parses_paren:
  assumes "parses_as 0 ts e" and "t_token t = TOKEN_OPEN_PARENTHESIS" and "t_token c = TOKEN_CLOSE_PARENTHESIS"
    and "ts \<noteq> []" and "no_error ts" and "t_token (hd ts) \<noteq> TOKEN_EOF"
  shows "parses_as 3 (t # ts @ [c]) e"
proof (intro parses_primary ev_Suc [where f = "\<lambda>n. primary n _"])
  fix rest :: "'a token list" assume f: "follows 3 rest"
  have fc: "follows 0 (c # rest)" "level_op 0 (t_token c) = None"
    using f assms(3) by (auto simp: follows_def no_error_def level_op_def)
  have p: "ev (\<lambda>n. expr_level n 0 (at (ts @ c # rest))) (Inr (e, at (c # rest)))"
    using parses_full [OF assms(1) fc(1)] fc(2) by simp
  have nx: "p_next (at (t # ts @ c # rest)) = Inr (at (ts @ c # rest))"
    using assms(4,5) by (intro p_next_at) (auto simp: no_error_def)
  have nc: "p_next (at (c # rest)) = Inr (at rest)" using f by (intro p_next_at) (auto simp: follows_def no_error_def)
  have kind: "p_kind (at (ts @ c # rest)) \<noteq> TOKEN_EOF" using assms(4,6) by (simp add: at_def)
  show "ev (\<lambda>n. primary (Suc n) (at ((t # ts @ [c]) @ rest))) (Inr (e, at rest))"
    using assms(2,3) nx nc kind by (auto simp: primary_token_def intro!: ev_bind [OF p])
qed

lemma parses_bin:
  assumes "parses_as lv ts1 e1" and "parses_as (Suc lv) ts2 e2" and "level_op lv (t_token t) = Some op" and "lv < 3"
    and "ts2 \<noteq> []" and "no_error ts2" and "t_token t \<noteq> TOKEN_ERROR"
  shows "parses_as lv (ts1 @ t # ts2) (Expression op [e1, e2] None)"
  unfolding parses_as_def
proof (intro allI impI)
  fix rest r
  assume f: "follows lv rest"
    and r: "if lv \<ge> 3 then r = Inr (Expression op [e1, e2] None, at rest)
      else ev (\<lambda>n. expr_loop n lv (Expression op [e1, e2] None) (at rest)) r"
  have f2: "follows (Suc lv) rest" "level_op (Suc lv) (t_token (hd rest)) = None" using f by (auto simp: follows_def)
  have p2: "ev (\<lambda>n. expr_level n (Suc lv) (at (ts2 @ rest))) (Inr (e2, at rest))"
    by (rule parses_full [OF assms(2) f2(1)]) (rule f2(2))
  have nx: "p_next (at (t # ts2 @ rest)) = Inr (at (ts2 @ rest))"
    using assms(5,6) by (intro p_next_at) (auto simp: no_error_def)
  have loop: "ev (\<lambda>n. expr_loop n lv e1 (at (t # ts2 @ rest))) r"
    using assms(3,4) nx r by (intro ev_Suc [where f = "\<lambda>n. expr_loop n lv e1 _"]) (auto intro!: ev_bind [OF p2])
  have "level_op l (t_token t) = None" if "l > lv" for l
    using assms(3) that by (auto simp: level_op_def split: if_splits)
  then have "follows lv (t # ts2 @ rest)" using f assms(6,7) by (auto simp: follows_def no_error_def)
  with assms(1,4) loop show "ev (\<lambda>n. expr_level n lv (at ((ts1 @ t # ts2) @ rest))) r"
    by (auto simp: parses_as_def)
qed

datatype 'd ast = Leaf "'d token" | Sign bool "'d ast" | Bin operator_t "'d ast" "'d ast"

definition op_level :: "operator_t \<Rightarrow> nat" where
  "op_level op =
     (if op = OPERATOR_COMPARE then 0 else if op = OPERATOR_ADD \<or> op = OPERATOR_SUBTRACT then 1 else 2)"

definition op_kind :: "operator_t \<Rightarrow> token_t" where
  "op_kind op =
     (if op = OPERATOR_COMPARE then TOKEN_COMPARE
      else if op = OPERATOR_ADD then TOKEN_PLUS
      else if op = OPERATOR_SUBTRACT then TOKEN_MINUS
      else if op = OPERATOR_MULTIPLY then TOKEN_MULTIPLY
      else if op = OPERATOR_DIVIDE then TOKEN_DIVIDE else TOKEN_MODULO)"

fun embed :: "'d ast \<Rightarrow> 'd expression" where
  "embed (Leaf t) = Expression OPERATOR_PRIMARY [] (Some t)"
| "embed (Sign neg a) = Expression (if neg then OPERATOR_NEGATE else OPERATOR_IDENTITY) [embed a] None"
| "embed (Bin op a b) = Expression op [embed a, embed b] None"

fun ast_wf :: "'d ast \<Rightarrow> bool" where
  "ast_wf (Leaf t) \<longleftrightarrow> primary_token (t_token t)"
| "ast_wf (Sign neg a) \<longleftrightarrow> ast_wf a"
| "ast_wf (Bin op a b) \<longleftrightarrow> op \<in> {OPERATOR_COMPARE, OPERATOR_ADD, OPERATOR_SUBTRACT, OPERATOR_MULTIPLY,
     OPERATOR_DIVIDE, OPERATOR_MODULO} \<and> ast_wf a \<and> ast_wf b"

text \<open>The tokens of an expression with the fewest parentheses, in a place that needs level \<open>lv\<close>; \<open>z\<close>
  fills the fields a punctuation token does not use.\<close>

definition sym :: "'d token \<Rightarrow> token_t \<Rightarrow> 'd token" where
  "sym z k = z\<lparr>t_token := k\<rparr>"

fun show_ast :: "'d token \<Rightarrow> nat \<Rightarrow> 'd ast \<Rightarrow> 'd token list" where
  "show_ast z lv (Leaf t) = [t]"
| "show_ast z lv (Sign neg a) = sym z (if neg then TOKEN_MINUS else TOKEN_PLUS) # show_ast z 3 a"
| "show_ast z lv (Bin op a b) =
     (let ts = show_ast z (op_level op) a @ sym z (op_kind op) # show_ast z (Suc (op_level op)) b
      in if op_level op < lv
         then sym z TOKEN_OPEN_PARENTHESIS # ts @ [sym z TOKEN_CLOSE_PARENTHESIS] else ts)"

lemma show_ast_tokens:
  "ast_wf a \<Longrightarrow> show_ast z lv a \<noteq> [] \<and> no_error (show_ast z lv a) \<and> t_token (hd (show_ast z lv a)) \<noteq> TOKEN_EOF"
proof (induction a arbitrary: lv)
  case (Bin op a b)
  then show ?case
    by (auto simp: Let_def no_error_def sym_def op_kind_def hd_append)
qed (auto simp: no_error_def primary_token_def sym_def)

lemma show_parses: "ast_wf a \<Longrightarrow> lv \<le> 3 \<Longrightarrow> parses_as lv (show_ast z lv a) (embed a)"
proof (induction a arbitrary: lv)
  case (Leaf t)
  then show ?case using parses_down_le [OF parses_leaf, of t lv] by simp
next
  case (Sign neg a)
  let ?t = "sym z (if neg then TOKEN_MINUS else TOKEN_PLUS)"
  have "parses_as 3 (?t # show_ast z 3 a)
      (Expression (if t_token ?t = TOKEN_PLUS then OPERATOR_IDENTITY else OPERATOR_NEGATE) [embed a] None)"
    using Sign show_ast_tokens [of a z 3] by (intro parses_sign) (auto simp: sym_def)
  then have "parses_as 3 (show_ast z lv (Sign neg a)) (embed (Sign neg a))"
    by (auto simp: sym_def)
  then show ?case using Sign.prems(2) by (auto intro: parses_down_le)
next
  case (Bin op a b)
  let ?k = "op_level op"
  let ?ts = "show_ast z ?k a @ sym z (op_kind op) # show_ast z (Suc ?k) b"
  have op: "level_op ?k (op_kind op) = Some op" "?k < 3" "op_kind op \<noteq> TOKEN_ERROR"
    using Bin.prems(1) by (auto simp: level_op_def op_level_def op_kind_def)
  have tb: "show_ast z (Suc ?k) b \<noteq> []" "no_error (show_ast z (Suc ?k) b)"
    using show_ast_tokens [of b z "Suc ?k"] Bin.prems(1) by auto
  have k: "parses_as ?k ?ts (embed (Bin op a b))"
    using parses_bin [OF Bin.IH(1) [of ?k] Bin.IH(2) [of "Suc ?k"], of "sym z (op_kind op)" op] op tb Bin.prems(1)
    by (simp add: sym_def)
  show ?case
  proof (cases "?k < lv")
    case True
    have show0: "show_ast z 0 (Bin op a b) = ?ts" by (simp add: Let_def)
    have "parses_as 3 (sym z TOKEN_OPEN_PARENTHESIS # ?ts @ [sym z TOKEN_CLOSE_PARENTHESIS]) (embed (Bin op a b))"
      using show_ast_tokens [OF Bin.prems(1), of z 0, unfolded show0] k op(2)
      by (intro parses_paren parses_down_le [OF k]) (auto simp: sym_def)
    with True Bin.prems(2) show ?thesis by (auto simp: Let_def intro: parses_down_le)
  next
    case False
    with k op(2) show ?thesis by (auto simp: Let_def intro: parses_down_le)
  qed
qed

lemma expression_parses:
  assumes "ast_wf a" and "rest \<noteq> []" and "no_error rest" and "\<forall>lv. level_op lv (t_token (hd rest)) = None"
  shows "comparative (at (show_ast z 0 a @ rest)) = Inr (embed a, at rest)"
proof -
  let ?p = "at (show_ast z 0 a @ rest)"
  have "follows 0 rest" using assms(2-4) by (simp add: follows_def)
  then have ev: "ev (\<lambda>n. expr_level n 0 ?p) (Inr (embed a, at rest))"
    using assms(4) by (intro parses_full show_parses assms(1)) auto
  have "Inl No_fuel \<notin> set (p_rest ?p)" by (auto simp: at_def)
  then have "comparative ?p \<noteq> Inl No_fuel" using comparative_fuel [of ?p] by (auto simp: consumes_def)
  with ev show ?thesis unfolding comparative_def by (rule expr_level_ev)
qed

text \<open>
  C16 (roundtrip): the grammar of expressions. Any expression of the language, written with the fewest
  parentheses its operators' precedence and left associativity allow, is parsed back to the
  same tree, and the parser stops at the first token behind it that is no operator. A sign
  binds tighter than every binary operator.
\<close>

theorem expression_roundtrip:
  assumes "ast_wf a" and "rest \<noteq> []" and "no_error rest" and "\<forall>lv. level_op lv (t_token (hd rest)) = None"
  shows "comparative (at (show_ast z 0 a @ rest)) = Inr (embed a, at rest)"
  using assms by (rule expression_parses)

section \<open>Witnesses\<close>

definition demo_token :: "token_t \<Rightarrow> string \<Rightarrow> unit token" where
  "demo_token k s = \<lparr>t_token = k, t_line = 1, t_column = 1, t_integer = 7, t_floating_point = (), t_string = s\<rparr>"

theorem expression_roundtrip_witness:
  "let z = demo_token TOKEN_EOF []; x = Leaf (demo_token TOKEN_INTEGER []) in
   comparative (at (show_ast z 0 (Bin OPERATOR_SUBTRACT x (Bin OPERATOR_ADD (Sign True x) x)) @ [z]))
   = Inr (embed (Bin OPERATOR_SUBTRACT x (Bin OPERATOR_ADD (Sign True x) x)), at [z])"
  unfolding Let_def
  by (rule expression_roundtrip)
     (simp_all add: demo_token_def primary_token_def no_error_def level_op_def)

lemma demo_lex_env_throws: "conversions_throw {Runtime_error} demo_lex_env"
  by (simp add: conversions_throw_def demo_lex_env_def)

theorem parse_program_terminates_witness:
  "parse_program demo_lex_env (new_lexer ''f'' [0x28]) new_state \<noteq> Inl No_fuel"
  by (rule parse_program_terminates [OF demo_lex_env_throws]) simp

lemma new_state_program_ok: "program_ok new_state"
  by (simp add: program_ok_def new_state_labels_ok) (simp add: new_state_def)


end
