(* ===== verification/Signal_Handler.thy ===== *)
theory Signal_Handler
  imports Prelude
begin

unbundle bit_operations_syntax

text \<open>
  The handler of fatal signals: \<^verbatim>\<open>signal_handler.cpp\<close>. The dispositions the kernel holds are a
  table \<open>sg_kernel\<close>; \<^verbatim>\<open>sigaction()\<close> refuses a change of a signal that is not \<open>catchable\<close>
  (\<^verbatim>\<open>SIGKILL\<close>, \<^verbatim>\<open>SIGSTOP\<close>), and the code does not look at its result. The mutex is not modelled,
  nor is the instance behind \<^verbatim>\<open>get_instance()\<close>.
\<close>

section \<open>State\<close>

record 'c signal_callback_t =
  sc_id :: "32 word"
  sc_sig :: int
  sc_callback :: 'c

record ('c, 'a) signal_handler =
  sg_callbacks :: "'c signal_callback_t list"
  sg_signal_actions :: "'a option list"
  sg_show_stack :: "64 word"
  sg_kernel :: "nat \<Rightarrow> 'a"

definition SIGNALS :: nat where "SIGNALS = 64"

definition ALL_SIGNALS :: "64 word" where "ALL_SIGNALS = 0xFFFFFFFFFFFFFFFE"

definition new_signal_handler :: "64 word \<Rightarrow> (nat \<Rightarrow> 'a) \<Rightarrow> ('c, 'a) signal_handler" where
  "new_signal_handler show kern =
     \<lparr>sg_callbacks = [], sg_signal_actions = replicate SIGNALS None, sg_show_stack = show, sg_kernel = kern\<rparr>"

section \<open>Callbacks\<close>

text \<open>The conversion of a negative number to \<^verbatim>\<open>std::size_t\<close> gives a number above the limit.\<close>

definition sg_add_callback :: "32 word \<Rightarrow> int \<Rightarrow> 'c option \<Rightarrow> ('c, 'a) signal_handler \<Rightarrow> ('c, 'a) signal_handler result" where
  "sg_add_callback cid sig callback h =
     (if sig < 0 \<or> sig \<ge> int SIGNALS then Inl Invalid_signal
      else case callback of
        None \<Rightarrow> Inl Invalid_callback
      | Some f \<Rightarrow> Inr (h\<lparr>sg_callbacks := sg_callbacks h @ [\<lparr>sc_id = cid, sc_sig = sig, sc_callback = f\<rparr>]\<rparr>))"

definition sg_remove_callback :: "32 word \<Rightarrow> ('c, 'a) signal_handler \<Rightarrow> ('c, 'a) signal_handler" where
  "sg_remove_callback cid h = h\<lparr>sg_callbacks := filter (\<lambda>c. sc_id c \<noteq> cid) (sg_callbacks h)\<rparr>"

definition sg_set_show_stack :: "64 word \<Rightarrow> ('c, 'a) signal_handler \<Rightarrow> ('c, 'a) signal_handler" where
  "sg_set_show_stack sigs h = h\<lparr>sg_show_stack := sigs\<rparr>"

section \<open>Installing and removing handlers\<close>

text \<open>\<open>zero\<close> is a default initialised \<^verbatim>\<open>sigaction_t\<close>, which a failing \<^verbatim>\<open>sigaction()\<close> leaves as it is.\<close>

definition sg_install :: "(nat \<Rightarrow> bool) \<Rightarrow> 'a \<Rightarrow> 'a \<Rightarrow> nat \<Rightarrow> ('c, 'a) signal_handler \<Rightarrow> ('c, 'a) signal_handler" where
  "sg_install catchable zero action i h =
     (if catchable i
      then h\<lparr>sg_signal_actions := (sg_signal_actions h)[i := Some (sg_kernel h i)],
             sg_kernel := (sg_kernel h)(i := action)\<rparr>
      else h\<lparr>sg_signal_actions := (sg_signal_actions h)[i := Some zero]\<rparr>)"

fun sg_add_loop :: "(nat \<Rightarrow> bool) \<Rightarrow> 'a \<Rightarrow> 'a \<Rightarrow> 64 word \<Rightarrow> nat list \<Rightarrow> 64 word
    \<Rightarrow> ('c, 'a) signal_handler \<Rightarrow> 64 word \<times> ('c, 'a) signal_handler" where
  "sg_add_loop catchable zero action sigs [] res h = (res, h)"
| "sg_add_loop catchable zero action sigs (i # is) res h =
     (if bit sigs i \<and> sg_signal_actions h ! i = None
      then sg_add_loop catchable zero action sigs is (res OR push_bit i 1) (sg_install catchable zero action i h)
      else sg_add_loop catchable zero action sigs is res h)"

definition add_terminal_signals :: "(nat \<Rightarrow> bool) \<Rightarrow> 'a \<Rightarrow> 'a \<Rightarrow> 64 word \<Rightarrow> ('c, 'a) signal_handler
    \<Rightarrow> 64 word \<times> ('c, 'a) signal_handler" where
  "add_terminal_signals catchable zero terminal sigs h =
     sg_add_loop catchable zero terminal sigs [1..<SIGNALS] 0 h"

definition add_ignored_signals :: "(nat \<Rightarrow> bool) \<Rightarrow> 'a \<Rightarrow> 'a \<Rightarrow> 64 word \<Rightarrow> ('c, 'a) signal_handler
    \<Rightarrow> 64 word \<times> ('c, 'a) signal_handler" where
  "add_ignored_signals catchable zero sig_ign sigs h =
     sg_add_loop catchable zero sig_ign sigs [1..<SIGNALS] 0 h"

fun sg_remove_loop :: "(nat \<Rightarrow> bool) \<Rightarrow> 64 word \<Rightarrow> nat list \<Rightarrow> ('c, 'a) signal_handler \<Rightarrow> ('c, 'a) signal_handler" where
  "sg_remove_loop catchable sigs [] h = h"
| "sg_remove_loop catchable sigs (i # is) h =
     (case sg_signal_actions h ! i of
        Some old \<Rightarrow>
          if bit sigs i then
            sg_remove_loop catchable sigs is
              (h\<lparr>sg_kernel := (if catchable i then (sg_kernel h)(i := old) else sg_kernel h),
                 sg_signal_actions := (sg_signal_actions h)[i := None]\<rparr>)
          else sg_remove_loop catchable sigs is h
      | None \<Rightarrow> sg_remove_loop catchable sigs is h)"

definition remove_signals :: "(nat \<Rightarrow> bool) \<Rightarrow> 64 word \<Rightarrow> ('c, 'a) signal_handler \<Rightarrow> ('c, 'a) signal_handler" where
  "remove_signals catchable sigs h = sg_remove_loop catchable sigs [1..<SIGNALS] h"

definition remove_all_signals :: "(nat \<Rightarrow> bool) \<Rightarrow> ('c, 'a) signal_handler \<Rightarrow> ('c, 'a) signal_handler" where
  "remove_all_signals catchable h = remove_signals catchable ALL_SIGNALS h"

text \<open>\<^verbatim>\<open>create_instance()\<close> on the fresh instance.\<close>

definition create_instance :: "(nat \<Rightarrow> bool) \<Rightarrow> 'a \<Rightarrow> 'a \<Rightarrow> 'a \<Rightarrow> 64 word \<Rightarrow> 64 word \<Rightarrow> 32 word \<Rightarrow> int \<Rightarrow> 'c option
    \<Rightarrow> ('c, 'a) signal_handler option \<Rightarrow> ('c, 'a) signal_handler \<Rightarrow> ('c, 'a) signal_handler result" where
  "create_instance catchable zero terminal_action sig_ign terminal ignored callback_id callback_sig callback current fresh =
     (if current \<noteq> None then Inl Initialization_error
      else
        let h1 = snd (add_terminal_signals catchable zero terminal_action terminal fresh);
            h2 = snd (add_ignored_signals catchable zero sig_ign ignored h1)
        in if callback_sig > 0 then sg_add_callback callback_id callback_sig callback h2 else Inr h2)"

section \<open>Names\<close>

definition NSIG :: int where "NSIG = 65"

text \<open>\<open>abbrev\<close> is \<^verbatim>\<open>sigabbrev_np()\<close> of the C library; \<^verbatim>\<open>name[k]\<close> past the end of the string is NUL.\<close>

definition c_char :: "string \<Rightarrow> nat \<Rightarrow> char" where
  "c_char s k = (if k < length s then s ! k else CHR 0x00)"

definition get_signal_number :: "(string \<Rightarrow> i64 option) \<Rightarrow> (int \<Rightarrow> string option) \<Rightarrow> string \<Rightarrow> int" where
  "get_signal_number convert abbrev str =
     (let name = c_str str in
      if c_char name 0 \<ge> CHR ''0'' \<and> c_char name 1 \<le> CHR ''9'' then
        (case convert name of
           None \<Rightarrow> -1
         | Some sig \<Rightarrow> if sint sig \<ge> NSIG then -1 else sint (int_of_i64 sig))
      else
        let name' = (if take 3 name = ''SIG'' then drop 3 name else name) in
        case find (\<lambda>sig. abbrev sig = Some name') (map int [1..<64]) of
          None \<Rightarrow> -1
        | Some sig \<Rightarrow> sig)"

section \<open>A signal arrives\<close>

datatype signal_outcome = Handled | Terminated bool

text \<open>\<open>call\<close> runs a callback; \<open>Terminated b\<close> is the end of the process by \<^verbatim>\<open>std::terminate()\<close>, \<open>b\<close> telling
  whether the stack was logged.\<close>

fun sg_run_callbacks :: "('c \<Rightarrow> 32 word \<Rightarrow> int \<Rightarrow> 'w \<Rightarrow> bool \<times> 'w) \<Rightarrow> int \<Rightarrow> 'c signal_callback_t list \<Rightarrow> bool \<Rightarrow> 'w
    \<Rightarrow> bool \<times> 'w" where
  "sg_run_callbacks call sig [] handled w = (handled, w)"
| "sg_run_callbacks call sig (c # cs) handled w =
     (if sc_sig c = sig
      then (case call (sc_callback c) (sc_id c) sig w of
              (r, w') \<Rightarrow> sg_run_callbacks call sig cs (handled \<or> r) w')
      else sg_run_callbacks call sig cs handled w)"

definition process_signal :: "('c \<Rightarrow> 32 word \<Rightarrow> int \<Rightarrow> 'w \<Rightarrow> bool \<times> 'w) \<Rightarrow> int \<Rightarrow> ('c, 'a) signal_handler \<Rightarrow> 'w
    \<Rightarrow> signal_outcome \<times> 'w" where
  "process_signal call sig h w =
     (case sg_run_callbacks call sig (sg_callbacks h) False w of
        (handled, w') \<Rightarrow>
          (if handled then Handled else Terminated (bit (sg_show_stack h) (nat sig)), w'))"

section \<open>The original dispositions are never lost\<close>

text \<open>For every signal the handler changed, it holds what the kernel had before; the others are as they
  were.\<close>

definition restorable :: "(nat \<Rightarrow> bool) \<Rightarrow> (nat \<Rightarrow> 'a) \<Rightarrow> ('c, 'a) signal_handler \<Rightarrow> bool" where
  "restorable catchable orig h \<longleftrightarrow> length (sg_signal_actions h) = SIGNALS \<and> sg_signal_actions h ! 0 = None \<and>
     (\<forall>i. \<not> catchable i \<longrightarrow> sg_kernel h i = orig i) \<and>
     (\<forall>i. catchable i \<longrightarrow>
        (if i < SIGNALS \<and> sg_signal_actions h ! i \<noteq> None then sg_signal_actions h ! i = Some (orig i)
         else sg_kernel h i = orig i))"

lemma restorable_new: "restorable catchable kern (new_signal_handler show kern)"
  by (auto simp: restorable_def new_signal_handler_def SIGNALS_def)

lemma restorable_install:
  assumes "restorable catchable orig h" and "i \<in> {1..<SIGNALS}" and "sg_signal_actions h ! i = None"
  shows "restorable catchable orig (sg_install catchable zero action i h)"
  using assms by (auto simp: restorable_def sg_install_def nth_list_update)

lemma restorable_add_loop:
  "restorable catchable orig h \<Longrightarrow> set is \<subseteq> {1..<SIGNALS} \<Longrightarrow>
     restorable catchable orig (snd (sg_add_loop catchable zero action sigs is res h))"
proof (induction "is" arbitrary: res h)
  case (Cons i "is")
  then show ?case
    using restorable_install [of catchable orig h i zero action] by simp
qed simp

lemma restorable_remove_loop:
  "restorable catchable orig h \<Longrightarrow> set is \<subseteq> {1..<SIGNALS} \<Longrightarrow>
     restorable catchable orig (sg_remove_loop catchable sigs is h)"
proof (induction "is" arbitrary: h)
  case (Cons i "is")
  have step: "restorable catchable orig
      (h\<lparr>sg_kernel := (if catchable i then (sg_kernel h)(i := old) else sg_kernel h),
         sg_signal_actions := (sg_signal_actions h)[i := None]\<rparr>)"
    if "sg_signal_actions h ! i = Some old" for old
    using that Cons.prems by (auto simp: restorable_def nth_list_update)
  show ?case
    using Cons.prems Cons.IH [OF Cons.prems(1)] Cons.IH [OF step] by (auto split: option.split)
qed simp

lemma remove_loop_clears:
  "distinct is \<Longrightarrow> set is \<subseteq> {..<length (sg_signal_actions h)} \<Longrightarrow>
     (\<forall>j < length (sg_signal_actions h). sg_signal_actions (sg_remove_loop catchable sigs is h) ! j =
        (if j \<in> set is \<and> bit sigs j then None else sg_signal_actions h ! j))"
proof (induction "is" arbitrary: h)
  case (Cons i "is")
  then show ?case
    by (auto simp: nth_list_update split: option.split if_splits)
qed simp

lemma bit_ALL_SIGNALS:
  assumes "i \<in> {1..<SIGNALS}"
  shows "bit ALL_SIGNALS i"
proof -
  have "ALL_SIGNALS = NOT 1" by (simp add: ALL_SIGNALS_def)
  moreover have "bit (NOT (1 :: 64 word)) i"
    unfolding bit_not_iff using assms by (auto simp: SIGNALS_def bit_1_iff)
  ultimately show ?thesis by simp
qed

text \<open>The requests a program makes of the handler.\<close>

datatype signal_request = Terminal "64 word" | Ignored "64 word" | Remove "64 word"

definition sg_request :: "(nat \<Rightarrow> bool) \<Rightarrow> 'a \<Rightarrow> 'a \<Rightarrow> 'a \<Rightarrow> signal_request \<Rightarrow> ('c, 'a) signal_handler
    \<Rightarrow> ('c, 'a) signal_handler" where
  "sg_request catchable zero terminal sig_ign r h =
     (case r of
        Terminal sigs \<Rightarrow> snd (add_terminal_signals catchable zero terminal sigs h)
      | Ignored sigs \<Rightarrow> snd (add_ignored_signals catchable zero sig_ign sigs h)
      | Remove sigs \<Rightarrow> remove_signals catchable sigs h)"

lemma restorable_request:
  "restorable catchable orig h \<Longrightarrow> restorable catchable orig (sg_request catchable zero terminal sig_ign r h)"
  by (cases r) (auto simp: sg_request_def add_terminal_signals_def add_ignored_signals_def remove_signals_def
      intro!: restorable_add_loop restorable_remove_loop)

lemma restorable_requests:
  "restorable catchable orig h \<Longrightarrow>
     restorable catchable orig (fold (sg_request catchable zero terminal sig_ign) rs h)"
  by (induction rs arbitrary: h) (auto intro: restorable_request)

lemma remove_all_restores:
  assumes "restorable catchable orig h"
  shows "sg_kernel (remove_all_signals catchable h) = orig"
proof
  fix i
  let ?h = "remove_all_signals catchable h"
  have r: "restorable catchable orig ?h"
    using assms unfolding remove_all_signals_def remove_signals_def by (rule restorable_remove_loop) auto
  have "sg_signal_actions ?h ! i = None" if "i < SIGNALS"
  proof (cases "i = 0")
    case False
    then have "bit ALL_SIGNALS i" using that by (intro bit_ALL_SIGNALS) auto
    with False that assms show ?thesis
      using remove_loop_clears [of "[1..<SIGNALS]" h catchable ALL_SIGNALS]
      by (simp add: remove_all_signals_def remove_signals_def restorable_def subset_eq)
  qed (use r in \<open>simp add: restorable_def\<close>)
  with r show "sg_kernel ?h i = orig i"
    by (cases "catchable i") (auto simp: restorable_def split: if_splits)
qed

text \<open>
  C15 (invariant): whatever signals a program asked \<^verbatim>\<open>signal_handler\<close> to terminate on, to ignore or to
  release, and in whatever order, \<^verbatim>\<open>remove_all_signals()\<close> (which the destructor calls) gives the kernel
  back exactly the dispositions it had before the handler was created.\<close>

theorem signals_restored:
  "sg_kernel (remove_all_signals catchable
     (fold (sg_request catchable zero terminal sig_ign) requests (new_signal_handler show kern))) = kern"
  by (intro remove_all_restores restorable_requests restorable_new)

end
