(* ===== verification/Evaluator.thy ===== *)
theory Evaluator
  imports Reporter_State "HOL-Library.Signed_Division"
begin

unbundle bit_operations_syntax

text \<open>
  The expressions of the reporter's language at run time: \<^verbatim>\<open>compute()\<close>, \<^verbatim>\<open>replace_variables()\<close> and
  \<^verbatim>\<open>primary_to_variable()\<close> of \<^verbatim>\<open>reporter/executor.cpp\<close>. Integers are 128 bit words; an operation
  whose exact result does not fit is undefined in C++ and fails with \<open>Undefined_behaviour\<close>.
  Floating point arithmetic, \<^verbatim>\<open>snapdev::timespec_ex\<close> and \<^verbatim>\<open>libaddr\<close> are fields of \<open>eval_env\<close>.
\<close>

section \<open>What the code calls\<close>

type_synonym timespec = "i64 \<times> i64"

record 'd eval_env = "'d lex_env" +
  d_add :: "'d \<Rightarrow> 'd \<Rightarrow> 'd"
  d_sub :: "'d \<Rightarrow> 'd \<Rightarrow> 'd"
  d_mul :: "'d \<Rightarrow> 'd \<Rightarrow> 'd"
  d_div :: "'d \<Rightarrow> 'd \<Rightarrow> 'd"
  d_fmod :: "'d \<Rightarrow> 'd \<Rightarrow> 'd"
  d_neg :: "'d \<Rightarrow> 'd"
  d_less :: "'d \<Rightarrow> 'd \<Rightarrow> bool"
  d_isnan :: "'d \<Rightarrow> bool"
  d_of_int :: "int \<Rightarrow> 'd"
  d_to_string :: "'d \<Rightarrow> string"
  ts_add :: "timespec \<Rightarrow> timespec \<Rightarrow> timespec"
  ts_sub :: "timespec \<Rightarrow> timespec \<Rightarrow> timespec"
  ts_of_double :: "'d \<Rightarrow> timespec"
  ts_to_timestamp :: "timespec \<Rightarrow> string"
  escape_regex :: "string \<Rightarrow> string"
  address_ranges :: "string \<Rightarrow> string list"
  ranges_less :: "string list \<Rightarrow> string list \<Rightarrow> bool"
  range_from :: "string \<Rightarrow> string"
  address_plus :: "string \<Rightarrow> i128 \<Rightarrow> string"
  address_minus :: "string \<Rightarrow> i128 \<Rightarrow> string"
  address_distance :: "string \<Rightarrow> string \<Rightarrow> i128"
  address_port :: "string \<Rightarrow> nat"
  address_string :: "bool \<Rightarrow> string \<Rightarrow> string"

section \<open>Tokens as values\<close>

definition new_token :: "('d, 'z) lex_env_scheme \<Rightarrow> 'd token" where
  "new_token E = \<lparr>t_token = TOKEN_EOF, t_line = 0, t_column = 0, t_integer = 0,
     t_floating_point = double_zero E, t_string = []\<rparr>"

definition token_of :: "('d, 'z) lex_env_scheme \<Rightarrow> 'd expression \<Rightarrow> 'd token" where
  "token_of E e = (case get_token e of None \<Rightarrow> new_token E | Some t \<Rightarrow> t)"

definition int_token :: "('d, 'z) lex_env_scheme \<Rightarrow> token_t \<Rightarrow> i128 \<Rightarrow> 'd token" where
  "int_token E k i = (new_token E)\<lparr>t_token := k, t_integer := i\<rparr>"

definition float_token :: "('d, 'z) lex_env_scheme \<Rightarrow> 'd \<Rightarrow> 'd token" where
  "float_token E d = (new_token E)\<lparr>t_token := TOKEN_FLOATING_POINT, t_floating_point := d\<rparr>"

definition string_token :: "('d, 'z) lex_env_scheme \<Rightarrow> token_t \<Rightarrow> string \<Rightarrow> 'd token" where
  "string_token E k s = (new_token E)\<lparr>t_token := k, t_string := s\<rparr>"

definition primary_expr :: "'d token \<Rightarrow> 'd expression" where
  "primary_expr t = Expression OPERATOR_PRIMARY [] (Some t)"

section \<open>Integers and timestamps\<close>

definition i128_checked :: "int \<Rightarrow> i128 result" where
  "i128_checked i =
     (if - (2 ^ 127) \<le> i \<and> i < 2 ^ 127 then Inr (word_of_int i) else Inl Undefined_behaviour)"

definition i128_divide :: "i128 \<Rightarrow> i128 \<Rightarrow> i128 result" where
  "i128_divide a b =
     (if b = 0 then Inl Undefined_behaviour else i128_checked (sint a sdiv sint b))"

definition i128_modulo :: "i128 \<Rightarrow> i128 \<Rightarrow> i128 result" where
  "i128_modulo a b =
     res_bind (i128_divide a b) (\<lambda>_. Inr (word_of_int (sint a smod sint b)))"

text \<open>A timestamp is one 128 bit integer: the seconds in the upper half, the nanoseconds below.\<close>

definition ts_unpack :: "i128 \<Rightarrow> timespec" where
  "ts_unpack x = (ucast (drop_bit 64 x), ucast x)"

definition ts_pack :: "timespec \<Rightarrow> i128" where
  "ts_pack t = push_bit 64 (scast (fst t)) OR scast (snd t)"

definition ts_token :: "('d, 'z) lex_env_scheme \<Rightarrow> timespec \<Rightarrow> 'd token" where
  "ts_token E t = int_token E TOKEN_TIMESPEC (ts_pack t)"

definition first_address :: "('d, 'z) eval_env_scheme \<Rightarrow> string \<Rightarrow> string result" where
  "first_address E s =
     (case address_ranges E s of [] \<Rightarrow> Inl Undefined_behaviour | r # _ \<Rightarrow> Inr (range_from E r))"

section \<open>The binary operators\<close>

definition three_way :: "bool \<Rightarrow> bool \<Rightarrow> i128" where
  "three_way lo hi = (if lo then -1 else if hi then 1 else 0)"

definition is_text :: "token_t \<Rightarrow> bool" where
  "is_text k \<longleftrightarrow> k = TOKEN_SINGLE_STRING \<or> k = TOKEN_DOUBLE_STRING"

definition op_compare :: "('d, 'z) eval_env_scheme \<Rightarrow> 'd token \<Rightarrow> 'd token \<Rightarrow> 'd token result" where
  "op_compare E lt rt =
     (let answer = (\<lambda>lo hi. Inr (int_token E TOKEN_INTEGER (three_way lo hi)));
          l = t_token lt; r = t_token rt;
          lf = t_floating_point lt; rf = t_floating_point rt;
          li = t_integer lt; ri = t_integer rt
      in if l = TOKEN_FLOATING_POINT \<and> r = TOKEN_FLOATING_POINT then answer (d_less E lf rf) (d_less E rf lf)
      else if l = TOKEN_FLOATING_POINT \<and> r = TOKEN_INTEGER then
        answer (d_less E lf (d_of_int E (sint ri))) (d_less E (d_of_int E (sint ri)) lf)
      else if l = TOKEN_INTEGER \<and> r = TOKEN_FLOATING_POINT then
        answer (d_less E (d_of_int E (sint li)) rf) (d_less E rf (d_of_int E (sint li)))
      else if (l = TOKEN_INTEGER \<and> r = TOKEN_INTEGER) \<or> (l = TOKEN_TIMESPEC \<and> r = TOKEN_TIMESPEC) then
        answer (li <s ri) (ri <s li)
      else if (l = TOKEN_IDENTIFIER \<and> r = TOKEN_IDENTIFIER) \<or> (is_text l \<and> is_text r) then
        answer (t_string lt < t_string rt) (t_string rt < t_string lt)
      else if l = TOKEN_ADDRESS \<and> r = TOKEN_ADDRESS then
        (let la = address_ranges E (t_string lt); ra = address_ranges E (t_string rt)
         in answer (ranges_less E la ra) (ranges_less E ra la))
      else Inl Runtime_error)"

definition op_add :: "('d, 'z) eval_env_scheme \<Rightarrow> 'd token \<Rightarrow> 'd token \<Rightarrow> 'd token result" where
  "op_add E lt rt =
     (let lf = t_floating_point lt; rf = t_floating_point rt;
          li = t_integer lt; ri = t_integer rt; ls = t_string lt; rs = t_string rt
      in case (t_token lt, t_token rt) of
        (TOKEN_FLOATING_POINT, TOKEN_FLOATING_POINT) \<Rightarrow> Inr (float_token E (d_add E lf rf))
      | (TOKEN_FLOATING_POINT, TOKEN_INTEGER) \<Rightarrow> Inr (float_token E (d_add E lf (d_of_int E (sint ri))))
      | (TOKEN_INTEGER, TOKEN_FLOATING_POINT) \<Rightarrow> Inr (float_token E (d_add E (d_of_int E (sint li)) rf))
      | (TOKEN_INTEGER, TOKEN_INTEGER) \<Rightarrow>
          res_bind (i128_checked (sint li + sint ri)) (\<lambda>i. Inr (int_token E TOKEN_INTEGER i))
      | (TOKEN_TIMESPEC, TOKEN_INTEGER) \<Rightarrow> Inr (ts_token E (ts_add E (ts_unpack li) (i64_of_i128 ri, 0)))
      | (TOKEN_INTEGER, TOKEN_TIMESPEC) \<Rightarrow> Inr (ts_token E (ts_add E (ts_unpack ri) (i64_of_i128 li, 0)))
      | (TOKEN_TIMESPEC, TOKEN_FLOATING_POINT) \<Rightarrow> Inr (ts_token E (ts_add E (ts_unpack li) (ts_of_double E rf)))
      | (TOKEN_FLOATING_POINT, TOKEN_TIMESPEC) \<Rightarrow> Inr (ts_token E (ts_add E (ts_unpack ri) (ts_of_double E lf)))
      | (TOKEN_TIMESPEC, TOKEN_TIMESPEC) \<Rightarrow> Inr (ts_token E (ts_add E (ts_unpack li) (ts_unpack ri)))
      | (TOKEN_IDENTIFIER, TOKEN_IDENTIFIER) \<Rightarrow> Inr (string_token E TOKEN_IDENTIFIER (ls @ rs))
      | (TOKEN_SINGLE_STRING, TOKEN_SINGLE_STRING) \<Rightarrow> Inr (string_token E TOKEN_SINGLE_STRING (ls @ rs))
      | (TOKEN_SINGLE_STRING, TOKEN_REGEX) \<Rightarrow> Inr (string_token E TOKEN_REGEX (escape_regex E ls @ rs))
      | (TOKEN_REGEX, TOKEN_SINGLE_STRING) \<Rightarrow> Inr (string_token E TOKEN_REGEX (ls @ escape_regex E rs))
      | (TOKEN_REGEX, TOKEN_REGEX) \<Rightarrow> Inr (string_token E TOKEN_REGEX (ls @ rs))
      | (TOKEN_SINGLE_STRING, TOKEN_INTEGER) \<Rightarrow>
          Inr (string_token E TOKEN_SINGLE_STRING (ls @ std_to_string (sint (i64_of_i128 ri))))
      | (TOKEN_INTEGER, TOKEN_SINGLE_STRING) \<Rightarrow>
          Inr (string_token E TOKEN_SINGLE_STRING (std_to_string (sint (i64_of_i128 li)) @ rs))
      | (TOKEN_ADDRESS, TOKEN_INTEGER) \<Rightarrow>
          res_bind (first_address E ls)
            (\<lambda>a. Inr (string_token E TOKEN_ADDRESS (address_string E True (address_plus E a ri))))
      | (TOKEN_INTEGER, TOKEN_ADDRESS) \<Rightarrow>
          res_bind (first_address E rs)
            (\<lambda>a. Inr (string_token E TOKEN_ADDRESS (address_string E True (address_plus E a li))))
      | _ \<Rightarrow> Inl Runtime_error)"

definition op_subtract :: "('d, 'z) eval_env_scheme \<Rightarrow> 'd token \<Rightarrow> 'd token \<Rightarrow> 'd token result" where
  "op_subtract E lt rt =
     (let lf = t_floating_point lt; rf = t_floating_point rt;
          li = t_integer lt; ri = t_integer rt; ls = t_string lt; rs = t_string rt
      in case (t_token lt, t_token rt) of
        (TOKEN_FLOATING_POINT, TOKEN_FLOATING_POINT) \<Rightarrow> Inr (float_token E (d_sub E lf rf))
      | (TOKEN_FLOATING_POINT, TOKEN_INTEGER) \<Rightarrow> Inr (float_token E (d_sub E lf (d_of_int E (sint ri))))
      | (TOKEN_INTEGER, TOKEN_FLOATING_POINT) \<Rightarrow> Inr (float_token E (d_sub E (d_of_int E (sint li)) rf))
      | (TOKEN_INTEGER, TOKEN_INTEGER) \<Rightarrow>
          res_bind (i128_checked (sint li - sint ri)) (\<lambda>i. Inr (int_token E TOKEN_INTEGER i))
      | (TOKEN_TIMESPEC, TOKEN_INTEGER) \<Rightarrow> Inr (ts_token E (ts_sub E (ts_unpack li) (i64_of_i128 ri, 0)))
      | (TOKEN_INTEGER, TOKEN_TIMESPEC) \<Rightarrow> Inr (ts_token E (ts_sub E (i64_of_i128 li, 0) (ts_unpack ri)))
      | (TOKEN_TIMESPEC, TOKEN_FLOATING_POINT) \<Rightarrow> Inr (ts_token E (ts_sub E (ts_unpack li) (ts_of_double E rf)))
      | (TOKEN_FLOATING_POINT, TOKEN_TIMESPEC) \<Rightarrow> Inr (ts_token E (ts_sub E (ts_of_double E lf) (ts_unpack ri)))
      | (TOKEN_TIMESPEC, TOKEN_TIMESPEC) \<Rightarrow> Inr (ts_token E (ts_sub E (ts_unpack li) (ts_unpack ri)))
      | (TOKEN_ADDRESS, TOKEN_ADDRESS) \<Rightarrow>
          res_bind (first_address E ls) (\<lambda>a. res_bind (first_address E rs)
            (\<lambda>b. Inr (int_token E TOKEN_INTEGER (address_distance E a b))))
      | (TOKEN_ADDRESS, TOKEN_INTEGER) \<Rightarrow>
          res_bind (first_address E ls)
            (\<lambda>a. Inr (string_token E TOKEN_ADDRESS (address_string E True (address_minus E a ri))))
      | _ \<Rightarrow> Inl Runtime_error)"

definition op_negate :: "('d, 'z) eval_env_scheme \<Rightarrow> 'd token \<Rightarrow> 'd token result" where
  "op_negate E lt =
     (case t_token lt of
        TOKEN_FLOATING_POINT \<Rightarrow> Inr (float_token E (d_neg E (t_floating_point lt)))
      | TOKEN_INTEGER \<Rightarrow>
          res_bind (i128_checked (- sint (t_integer lt))) (\<lambda>i. Inr (int_token E TOKEN_INTEGER i))
      | TOKEN_TIMESPEC \<Rightarrow> Inr (ts_token E (ts_sub E (0, 0) (ts_unpack (t_integer lt))))
      | _ \<Rightarrow> Inl Runtime_error)"

text \<open>
  The repetition of a string: \<^verbatim>\<open>resize()\<close> cuts the string or pads it with NULs, then a loop copies
  character \<open>i\<close> over character \<open>len + i\<close> from left to right.
\<close>

definition str_resize :: "nat \<Rightarrow> string \<Rightarrow> string" where
  "str_resize n s = take n s @ replicate (n - length s) (CHR 0x00)"

fun copy_forward :: "nat \<Rightarrow> nat \<Rightarrow> nat \<Rightarrow> string \<Rightarrow> string" where
  "copy_forward 0 s d str = str"
| "copy_forward (Suc k) s d str = copy_forward k (Suc s) (Suc d) (str[d := str ! s])"

definition repeat_string :: "string \<Rightarrow> nat \<Rightarrow> string" where
  "repeat_string str count =
     (let len = length str; size = len * count in copy_forward (size - len) 0 len (str_resize size str))"

definition op_multiply :: "('d, 'z) eval_env_scheme \<Rightarrow> 'd token \<Rightarrow> 'd token \<Rightarrow> 'd token result" where
  "op_multiply E lt rt =
     (let lf = t_floating_point lt; rf = t_floating_point rt;
          li = t_integer lt; ri = t_integer rt;
          repeat = (let count = sint (scast ri :: 32 word)
             in if count < 0 \<or> count > 1000 then Inl Runtime_error
                else Inr (string_token E (t_token lt) (repeat_string (t_string lt) (nat count))))
      in case (t_token lt, t_token rt) of
        (TOKEN_FLOATING_POINT, TOKEN_FLOATING_POINT) \<Rightarrow> Inr (float_token E (d_mul E lf rf))
      | (TOKEN_FLOATING_POINT, TOKEN_INTEGER) \<Rightarrow> Inr (float_token E (d_mul E lf (d_of_int E (sint ri))))
      | (TOKEN_INTEGER, TOKEN_FLOATING_POINT) \<Rightarrow> Inr (float_token E (d_mul E (d_of_int E (sint li)) rf))
      | (TOKEN_INTEGER, TOKEN_INTEGER) \<Rightarrow>
          res_bind (i128_checked (sint li * sint ri)) (\<lambda>i. Inr (int_token E TOKEN_INTEGER i))
      | (TOKEN_SINGLE_STRING, TOKEN_INTEGER) \<Rightarrow> repeat
      | (TOKEN_DOUBLE_STRING, TOKEN_INTEGER) \<Rightarrow> repeat
      | _ \<Rightarrow> Inl Runtime_error)"

definition op_divide :: "('d, 'z) eval_env_scheme \<Rightarrow> 'd token \<Rightarrow> 'd token \<Rightarrow> 'd token result" where
  "op_divide E lt rt =
     (let lf = t_floating_point lt; rf = t_floating_point rt; li = t_integer lt; ri = t_integer rt
      in case (t_token lt, t_token rt) of
        (TOKEN_FLOATING_POINT, TOKEN_FLOATING_POINT) \<Rightarrow> Inr (float_token E (d_div E lf rf))
      | (TOKEN_FLOATING_POINT, TOKEN_INTEGER) \<Rightarrow> Inr (float_token E (d_div E lf (d_of_int E (sint ri))))
      | (TOKEN_INTEGER, TOKEN_FLOATING_POINT) \<Rightarrow> Inr (float_token E (d_div E (d_of_int E (sint li)) rf))
      | (TOKEN_INTEGER, TOKEN_INTEGER) \<Rightarrow>
          res_bind (i128_divide li ri) (\<lambda>i. Inr (int_token E TOKEN_INTEGER i))
      | _ \<Rightarrow> Inl Runtime_error)"

definition op_modulo :: "('d, 'z) eval_env_scheme \<Rightarrow> 'd token \<Rightarrow> 'd token \<Rightarrow> 'd token result" where
  "op_modulo E lt rt =
     (let lf = t_floating_point lt; rf = t_floating_point rt; li = t_integer lt; ri = t_integer rt
      in case (t_token lt, t_token rt) of
        (TOKEN_FLOATING_POINT, TOKEN_FLOATING_POINT) \<Rightarrow> Inr (float_token E (d_fmod E lf rf))
      | (TOKEN_FLOATING_POINT, TOKEN_INTEGER) \<Rightarrow> Inr (float_token E (d_fmod E lf (d_of_int E (sint ri))))
      | (TOKEN_INTEGER, TOKEN_FLOATING_POINT) \<Rightarrow> Inr (float_token E (d_fmod E (d_of_int E (sint li)) rf))
      | (TOKEN_INTEGER, TOKEN_INTEGER) \<Rightarrow>
          res_bind (i128_modulo li ri) (\<lambda>i. Inr (int_token E TOKEN_INTEGER i))
      | _ \<Rightarrow> Inl Runtime_error)"

section \<open>Variables in strings\<close>

text \<open>A variable is read through a cast to the class that fits its type name.\<close>

definition as_string :: "'d variable \<Rightarrow> string result" where
  "as_string v = (case v_value v of String_value x \<Rightarrow> Inr x | _ \<Rightarrow> Inl Bad_cast)"

definition as_integer :: "'d variable \<Rightarrow> i64 result" where
  "as_integer v = (case v_value v of Integer_value x \<Rightarrow> Inr x | _ \<Rightarrow> Inl Bad_cast)"

definition as_floating_point :: "'d variable \<Rightarrow> 'd result" where
  "as_floating_point v = (case v_value v of Floating_point_value x \<Rightarrow> Inr x | _ \<Rightarrow> Inl Bad_cast)"

definition as_timestamp :: "'d variable \<Rightarrow> timespec result" where
  "as_timestamp v = (case v_value v of Timestamp_value x \<Rightarrow> Inr x | _ \<Rightarrow> Inl Bad_cast)"

definition as_address :: "'d variable \<Rightarrow> string result" where
  "as_address v = (case v_value v of Address_value x \<Rightarrow> Inr x | _ \<Rightarrow> Inl Bad_cast)"

definition as_regex :: "'d variable \<Rightarrow> string result" where
  "as_regex v = (case v_value v of Regex_value x \<Rightarrow> Inr x | _ \<Rightarrow> Inl Bad_cast)"

definition as_array :: "'d variable \<Rightarrow> 'd variable list result" where
  "as_array v = (case v_value v of Array_value x \<Rightarrow> Inr x | _ \<Rightarrow> Inl Bad_cast)"

definition as_list :: "'d variable \<Rightarrow> (string \<times> 'd variable) list result" where
  "as_list v = (case v_value v of List_value x \<Rightarrow> Inr x | _ \<Rightarrow> Inl Bad_cast)"

lemmas cast_defs = as_string_def as_integer_def as_floating_point_def as_timestamp_def as_address_def
  as_regex_def as_array_def as_list_def

text \<open>The loop looks for the last character that is not a zero, from the end down to the decimal
  point; the code then compares the position with the character code of a period.\<close>

fun trim_pos :: "string \<Rightarrow> nat \<Rightarrow> nat \<Rightarrow> nat" where
  "trim_pos s dp 0 = 0"
| "trim_pos s dp (Suc z) =
     (if Suc z > dp then (if s ! z \<noteq> CHR ''0'' then z else trim_pos s dp z) else Suc z)"

definition trim_zeroes :: "string \<Rightarrow> string" where
  "trim_zeroes s =
     (let dp = length (takeWhile (\<lambda>c. c \<noteq> CHR ''.'') s) in
      if dp = length s then s
      else let z = trim_pos s dp (length s); z' = (if z \<noteq> 46 then Suc z else z) in str_resize z' s)"

definition variable_text :: "('d, 'z) eval_env_scheme \<Rightarrow> 'd state \<Rightarrow> string \<Rightarrow> string result" where
  "variable_text E st name =
     (case get_variable name st of
        None \<Rightarrow> Inr []
      | Some v \<Rightarrow>
          if v_type v = ''string'' then as_string v
          else if v_type v = ''integer'' then res_bind (as_integer v) (\<lambda>i. Inr (std_to_string (sint i)))
          else if v_type v = ''floating_point'' then
            res_bind (as_floating_point v) (\<lambda>d. Inr (trim_zeroes (d_to_string E d)))
          else if v_type v = ''timestamp'' then res_bind (as_timestamp v) (\<lambda>t. Inr (ts_to_timestamp E t))
          else if v_type v = ''address'' then
            res_bind (as_address v) (\<lambda>a. Inr (address_string E (address_port E a \<noteq> 0) a))
          else Inl Runtime_error)"

lemma length_dropWhile_Cons: "dropWhile P xs = y # ys \<Longrightarrow> length ys < length xs"
  using length_dropWhile_le [of P xs] by simp

function replace_variables :: "('d, 'z) eval_env_scheme \<Rightarrow> 'd state \<Rightarrow> string \<Rightarrow> string result" where
  "replace_variables E st original =
     (let before = takeWhile (\<lambda>c. c \<noteq> CHR ''$'') original in
      case dropWhile (\<lambda>c. c \<noteq> CHR ''$'') original of
        [] \<Rightarrow> Inr before
      | [_] \<Rightarrow> Inr (before @ ''$'')
      | _ # c # rest \<Rightarrow>
          if c = CHR ''{'' then
            (let name = takeWhile (\<lambda>c. c \<noteq> CHR ''}'') rest in
             case dropWhile (\<lambda>c. c \<noteq> CHR ''}'') rest of
               [] \<Rightarrow> Inl Runtime_error
             | _ # after \<Rightarrow>
                 if name = [] then Inl Runtime_error
                 else res_bind (variable_text E st name)
                   (\<lambda>v. res_bind (replace_variables E st after) (\<lambda>r. Inr (before @ v @ r))))
          else res_bind (replace_variables E st (c # rest)) (\<lambda>r. Inr (before @ ''$'' @ r)))"
  by pat_completeness auto
termination
  by (relation "measure (\<lambda>(E, st, original). length original)")
     (auto dest!: length_dropWhile_Cons)

declare replace_variables.simps [simp del]

section \<open>Computing an expression\<close>

definition variable_token :: "('d, 'z) eval_env_scheme \<Rightarrow> 'd variable \<Rightarrow> 'd token result" where
  "variable_token E v =
     (if v_type v = ''integer'' then
        res_bind (as_integer v) (\<lambda>i. Inr (int_token E TOKEN_INTEGER (i128_of_i64 i)))
      else if v_type v = ''floating_point'' then res_bind (as_floating_point v) (\<lambda>d. Inr (float_token E d))
      else if v_type v = ''string'' then
        res_bind (as_string v) (\<lambda>x. Inr (string_token E TOKEN_SINGLE_STRING x))
      else if v_type v = ''identifier'' then
        res_bind (as_string v) (\<lambda>x. Inr (string_token E TOKEN_IDENTIFIER x))
      else if v_type v = ''regex'' then res_bind (as_regex v) (\<lambda>x. Inr (string_token E TOKEN_REGEX x))
      else if v_type v = ''address'' then
        res_bind (as_address v) (\<lambda>a. Inr (string_token E TOKEN_ADDRESS (address_string E True a)))
      else if v_type v = ''timestamp'' then
        res_bind (as_timestamp v) (\<lambda>t. Inr ((ts_token E t)\<lparr>t_string := ts_to_timestamp E t\<rparr>))
      else Inl Runtime_error)"

definition compute_primary :: "('d, 'z) eval_env_scheme \<Rightarrow> 'd state \<Rightarrow> 'd expression \<Rightarrow> 'd expression result" where
  "compute_primary E st e =
     (let t = token_of E e in
      case t_token t of
        TOKEN_VARIABLE \<Rightarrow>
          (case get_variable (t_string t) st of
             None \<Rightarrow> Inr (primary_expr (string_token E TOKEN_SINGLE_STRING []))
           | Some v \<Rightarrow> res_bind (variable_token E v) (\<lambda>x. Inr (primary_expr x)))
      | TOKEN_DOUBLE_STRING \<Rightarrow>
          res_bind (replace_variables E st (t_string t))
            (\<lambda>x. Inr (primary_expr (string_token E TOKEN_SINGLE_STRING x)))
      | _ \<Rightarrow> Inr e)"

definition binary_op :: "('d, 'z) eval_env_scheme \<Rightarrow> operator_t \<Rightarrow> ('d token \<Rightarrow> 'd token \<Rightarrow> 'd token result) option" where
  "binary_op E op =
     (case op of
        OPERATOR_COMPARE \<Rightarrow> Some (op_compare E)
      | OPERATOR_ADD \<Rightarrow> Some (op_add E)
      | OPERATOR_SUBTRACT \<Rightarrow> Some (op_subtract E)
      | OPERATOR_MULTIPLY \<Rightarrow> Some (op_multiply E)
      | OPERATOR_DIVIDE \<Rightarrow> Some (op_divide E)
      | OPERATOR_MODULO \<Rightarrow> Some (op_modulo E)
      | _ \<Rightarrow> None)"

fun compute :: "('d, 'z) eval_env_scheme \<Rightarrow> 'd state \<Rightarrow> 'd expression \<Rightarrow> 'd expression result" where
  "compute E st (Expression op es t) =
     (case op of
        OPERATOR_PRIMARY \<Rightarrow> compute_primary E st (Expression op es t)
      | OPERATOR_IDENTITY \<Rightarrow> (case es of [e] \<Rightarrow> compute E st e | _ \<Rightarrow> Inl Implementation_error)
      | OPERATOR_NEGATE \<Rightarrow>
          (case es of
             [e] \<Rightarrow> res_bind (compute E st e)
               (\<lambda>l. res_bind (op_negate E (token_of E l)) (\<lambda>x. Inr (primary_expr x)))
           | _ \<Rightarrow> Inl Implementation_error)
      | OPERATOR_LIST \<Rightarrow>
          res_bind
            (res_map
               (\<lambda>n. case n of Expression nop nes nt \<Rightarrow>
                  if nop \<noteq> OPERATOR_NAMED then Inl Implementation_error
                  else (case nes of
                     [name] \<Rightarrow> Inr (Expression OPERATOR_NAMED [name] None)
                   | [name, e] \<Rightarrow> res_bind (compute E st e)
                       (\<lambda>item. Inr (Expression OPERATOR_NAMED [name, item] None))
                   | _ \<Rightarrow> Inl Implementation_error)) es)
            (\<lambda>items. Inr (Expression OPERATOR_LIST items None))
      | OPERATOR_ARRAY \<Rightarrow>
          res_bind (res_map (compute E st) es) (\<lambda>items. Inr (Expression OPERATOR_ARRAY items None))
      | _ \<Rightarrow>
          (case binary_op E op of
             None \<Rightarrow> Inl Implementation_error
           | Some f \<Rightarrow>
               (case es of
                  [a, b] \<Rightarrow> res_bind (compute E st a) (\<lambda>l. res_bind (compute E st b)
                    (\<lambda>r. res_bind (f (token_of E l) (token_of E r)) (\<lambda>x. Inr (primary_expr x))))
                | _ \<Rightarrow> Inl Implementation_error)))"

section \<open>From values to variables\<close>

definition primary_to_variable :: "('d, 'z) eval_env_scheme \<Rightarrow> 'd state \<Rightarrow> 'd expression \<Rightarrow> string
    \<Rightarrow> 'd variable result" where
  "primary_to_variable E st value name =
     (let t = token_of E value in
      case t_token t of
        TOKEN_IDENTIFIER \<Rightarrow> Inr (variable_string name ''identifier'' (t_string t))
      | TOKEN_FLOATING_POINT \<Rightarrow> Inr (variable_floating_point name (t_floating_point t))
      | TOKEN_INTEGER \<Rightarrow> Inr (variable_integer name (i64_of_i128 (t_integer t)))
      | TOKEN_REGEX \<Rightarrow>
          res_bind (replace_variables E st (t_string t)) (\<lambda>x. Inr (variable_regex name x))
      | TOKEN_SINGLE_STRING \<Rightarrow> Inr (variable_string name ''string'' (t_string t))
      | TOKEN_ADDRESS \<Rightarrow>
          res_bind (first_address E (t_string t)) (\<lambda>a. Inr (variable_address name a))
      | TOKEN_TIMESPEC \<Rightarrow> Inr (variable_timestamp name (ts_unpack (t_integer t)))
      | _ \<Rightarrow> Inl Runtime_error)"

definition list_item_variable :: "('d, 'z) eval_env_scheme \<Rightarrow> 'd state \<Rightarrow> 'd expression \<Rightarrow> 'd variable result" where
  "list_item_variable E st item =
     (if get_operator item \<noteq> OPERATOR_NAMED then Inl Implementation_error
      else if length (get_expressions item) \<notin> {1, 2} then Inl Implementation_error
      else
        let t = token_of E (get_expressions item ! 0) in
        if t_token t \<noteq> TOKEN_IDENTIFIER then Inl Implementation_error
        else if length (get_expressions item) = 1 then Inr (variable_void (t_string t))
        else primary_to_variable E st (get_expressions item ! 1) (t_string t))"

fun list_items :: "('d, 'z) eval_env_scheme \<Rightarrow> 'd state \<Rightarrow> 'd expression list \<Rightarrow> (string \<times> 'd variable) list
    \<Rightarrow> (string \<times> 'd variable) list result" where
  "list_items E st [] acc = Inr acc"
| "list_items E st (e # es) acc =
     res_bind (list_item_variable E st e)
       (\<lambda>v. res_bind (list_add_item v acc) (\<lambda>acc'. list_items E st es acc'))"

fun array_items :: "('d, 'z) eval_env_scheme \<Rightarrow> 'd state \<Rightarrow> nat \<Rightarrow> 'd expression list \<Rightarrow> 'd variable list result" where
  "array_items E st idx [] = Inr []"
| "array_items E st idx (e # es) =
     res_bind (primary_to_variable E st e (''index'' @ std_to_string (int idx)))
       (\<lambda>v. res_bind (array_items E st (Suc idx) es) (\<lambda>vs. Inr (v # vs)))"

definition value_to_variable :: "('d, 'z) eval_env_scheme \<Rightarrow> 'd state \<Rightarrow> 'd expression \<Rightarrow> string
    \<Rightarrow> 'd variable result" where
  "value_to_variable E st value name =
     (case get_operator value of
        OPERATOR_PRIMARY \<Rightarrow> primary_to_variable E st value name
      | OPERATOR_LIST \<Rightarrow>
          res_bind (list_items E st (get_expressions value) []) (\<lambda>items. Inr (variable_list name items))
      | OPERATOR_ARRAY \<Rightarrow>
          res_bind (array_items E st 0 (get_expressions value)) (\<lambda>items. Inr (variable_array name items))
      | _ \<Rightarrow> Inl Runtime_error)"

end
