(* ===== verification/Instructions.thy ===== *)
theory Instructions
  imports Evaluator Message_Text Communicator Signal_Handler
begin

unbundle bit_operations_syntax

text \<open>
  The instructions of the reporter's language: the \<^verbatim>\<open>func()\<close> of each class of
  \<^verbatim>\<open>reporter/basic_instructions.cpp\<close>. An instruction is an action on the state of the interpreter
  together with the state \<open>'w\<close> of the system; an exception keeps what was done before it. The
  system calls, \<^verbatim>\<open>snapdev\<close>, the regular expressions and the connections are fields of \<open>sys_env\<close>.
\<close>

section \<open>The interpreter and the system\<close>

record ('d, 'w) xworld =
  x_state :: "'d state"
  x_sys :: 'w

type_synonym ('d, 'w, 'a) xact = "(('d, 'w) xworld, 'a) act"

datatype rconn = Listener connection_type_t string | Client connection_type_t nat

record ('d, 'w) sys_env = "'d eval_env" +
  d_equal :: "'d \<Rightarrow> 'd \<Rightarrow> bool"
  int_to_hex :: "32 word \<Rightarrow> bool \<Rightarrow> 32 word \<Rightarrow> string"
  to_upper :: "string \<Rightarrow> string"
  string_replace_many :: replace_many
  regex_match :: "string \<Rightarrow> string \<Rightarrow> bool result"
  ts_to_short_timestamp :: "timespec \<Rightarrow> string"
  sigabbrev :: "int \<Rightarrow> string option"
  sys_gethostname :: "'w \<Rightarrow> string \<times> 'w"
  sys_get_pid_max :: "'w \<Rightarrow> i64 \<times> 'w"
  sys_now :: "'w \<Rightarrow> timespec \<times> 'w"
  sys_rand :: "'w \<Rightarrow> 32 word \<times> 'w"
  sys_cout :: "string \<Rightarrow> 'w \<Rightarrow> 'w"
  sys_cerr :: "string \<Rightarrow> 'w \<Rightarrow> 'w"
  sys_nanosleep :: "timespec \<Rightarrow> 'w \<Rightarrow> bool \<times> 'w"
  sys_pthread_kill :: "int \<Rightarrow> 'w \<Rightarrow> bool \<times> 'w"
  sys_ppoll :: "pollfd list \<Rightarrow> timespec \<Rightarrow> 'w \<Rightarrow> (errno + revents list) \<times> 'w"
  c_is_listener :: "rconn \<Rightarrow> 'w \<Rightarrow> bool"
  c_is_signal :: "rconn \<Rightarrow> 'w \<Rightarrow> bool"
  c_signal_object :: "rconn \<Rightarrow> bool"
  c_is_reader :: "rconn \<Rightarrow> 'w \<Rightarrow> bool"
  c_is_writer :: "rconn \<Rightarrow> 'w \<Rightarrow> bool"
  c_get_socket :: "rconn \<Rightarrow> 'w \<Rightarrow> int"
  c_open :: "connection_type_t \<Rightarrow> string \<Rightarrow> 'w \<Rightarrow> unit result \<times> 'w"
  c_process :: "event \<Rightarrow> rconn \<Rightarrow> ('d, 'w, unit) xact"
  c_write :: "connection_type_t \<times> nat \<Rightarrow> byte list \<Rightarrow> ('d, 'w, unit) xact"
  c_send_message :: "connection_type_t \<times> nat \<Rightarrow> message \<Rightarrow> ('d, 'w, unit) xact"

definition x_read :: "('d state \<Rightarrow> 'a result) \<Rightarrow> ('d, 'w, 'a) xact" where
  "x_read f w = (f (x_state w), w)"

definition x_update :: "('d state \<Rightarrow> 'd state) \<Rightarrow> ('d, 'w, unit) xact" where
  "x_update f w = (Inr (), w\<lparr>x_state := f (x_state w)\<rparr>)"

definition x_change :: "('d state \<Rightarrow> 'd state result) \<Rightarrow> ('d, 'w, unit) xact" where
  "x_change f w = (case f (x_state w) of Inl e \<Rightarrow> (Inl e, w) | Inr s \<Rightarrow> (Inr (), w\<lparr>x_state := s\<rparr>))"

definition x_system :: "('w \<Rightarrow> 'a \<times> 'w) \<Rightarrow> ('d, 'w, 'a) xact" where
  "x_system f w = (case f (x_sys w) of (a, sys) \<Rightarrow> (Inr a, w\<lparr>x_sys := sys\<rparr>))"

definition x_output :: "('w \<Rightarrow> 'w) \<Rightarrow> ('d, 'w, unit) xact" where
  "x_output f w = (Inr (), w\<lparr>x_sys := f (x_sys w)\<rparr>)"

lemmas x_defs = x_read_def x_update_def x_change_def x_system_def x_output_def

definition optional :: "string \<Rightarrow> ('d, 'w, 'd variable option) xact" where
  "optional name = x_read (st_get_parameter name False)"

definition required :: "string \<Rightarrow> ('d, 'w, 'd variable) xact" where
  "required name = x_read (\<lambda>s. res_bind (st_get_parameter name True s)
     (\<lambda>v. case v of None \<Rightarrow> Inl Undefined_behaviour | Some x \<Rightarrow> Inr x))"

definition required_string :: "string \<Rightarrow> ('d, 'w, string) xact" where
  "required_string name = act_bind (required name) (\<lambda>v. act_lift (as_string v))"

definition jump :: "string \<Rightarrow> ('d, 'w, unit) xact" where
  "jump name = act_bind (x_read (get_label_position name)) (\<lambda>ip. x_change (set_ip ip))"

definition set_test :: "bool \<Rightarrow> ('d, 'w, unit) xact" where
  "set_test b = x_change (set_compare (if b then COMPARE_GREATER else COMPARE_EQUAL))"

section \<open>Control flow\<close>

definition inst_call :: "('d, 'w, unit) xact" where
  "inst_call = act_bind (x_update push_ip) (\<lambda>_. act_bind (required_string ''label'') jump)"

definition inst_goto :: "('d, 'w, unit) xact" where
  "inst_goto = act_bind (required_string ''label'') jump"

definition inst_return :: "('d, 'w, unit) xact" where
  "inst_return = x_change pop_ip"

definition inst_label :: "('d, 'w, unit) xact" where
  "inst_label = act_return ()"

definition inst_run :: "('d, 'w, unit) xact" where
  "inst_run = act_throw Implementation_error"

definition compare_value :: "32 word \<Rightarrow> compare_t option" where
  "compare_value v =
     (if v = -2 then Some COMPARE_UNORDERED else if v = -1 then Some COMPARE_LESS
      else if v = 0 then Some COMPARE_EQUAL else if v = 1 then Some COMPARE_GREATER else None)"

definition inst_compare :: "('d, 'w, unit) xact" where
  "inst_compare =
     act_bind (required ''expression'') (\<lambda>v. act_bind (act_lift (as_integer v))
       (\<lambda>i. case compare_value (int_of_i64 i) of
              None \<Rightarrow> act_throw Runtime_error
            | Some c \<Rightarrow> x_change (set_compare c)))"

definition compare_number :: "('d, 'w) sys_env \<Rightarrow> 'd variable \<Rightarrow> compare_t result" where
  "compare_number E v =
     (if v_type v = ''integer'' then
        res_bind (as_integer v) (\<lambda>i. let n = int_of_i64 i in
          Inr (if n = 0 then COMPARE_EQUAL else if n <s 0 then COMPARE_LESS else COMPARE_GREATER))
      else if v_type v = ''floating_point'' then
        res_bind (as_floating_point v) (\<lambda>d.
          Inr (if d_isnan E d then COMPARE_UNORDERED
               else if d_equal E d (double_zero E) then COMPARE_EQUAL
               else if d_less E d (double_zero E) then COMPARE_LESS else COMPARE_GREATER))
      else Inl Runtime_error)"

definition if_compare :: "('d, 'w) sys_env \<Rightarrow> ('d, 'w, compare_t) xact" where
  "if_compare E =
     act_bind (optional ''variable'') (\<lambda>var_name.
       case var_name of
         None \<Rightarrow> x_read get_compare
       | Some v \<Rightarrow> act_bind (act_lift (as_string v)) (\<lambda>name.
           x_read (\<lambda>s. case get_variable name s of
                         None \<Rightarrow> Inr COMPARE_UNORDERED
                       | Some x \<Rightarrow> compare_number E x)))"

text \<open>The labels \<^verbatim>\<open>if()\<close> looks at, in order; the first one given is taken.\<close>

definition if_labels :: "compare_t \<Rightarrow> string list" where
  "if_labels c =
     (case c of
        COMPARE_UNDEFINED \<Rightarrow> []
      | COMPARE_UNORDERED \<Rightarrow> [''unordered'']
      | COMPARE_LESS \<Rightarrow> [''less'', ''less_or_equal'', ''not_equal'', ''true'', ''ordered'']
      | COMPARE_EQUAL \<Rightarrow> [''equal'', ''less_or_equal'', ''greater_or_equal'', ''false'', ''ordered'']
      | COMPARE_GREATER \<Rightarrow> [''greater'', ''greater_or_equal'', ''not_equal'', ''true'', ''ordered''])"

fun first_parameter :: "string list \<Rightarrow> ('d, 'w, 'd variable option) xact" where
  "first_parameter [] = act_return None"
| "first_parameter (n # ns) =
     act_bind (optional n) (\<lambda>v. case v of None \<Rightarrow> first_parameter ns | Some x \<Rightarrow> act_return (Some x))"

definition inst_if :: "('d, 'w) sys_env \<Rightarrow> ('d, 'w, unit) xact" where
  "inst_if E =
     act_bind (if_compare E) (\<lambda>c.
       if c = COMPARE_UNDEFINED then act_throw Implementation_error
       else act_bind (first_parameter (if_labels c)) (\<lambda>label_name.
         case label_name of
           None \<Rightarrow> act_return ()
         | Some v \<Rightarrow> act_bind (act_lift (as_string v)) jump))"

section \<open>Variables\<close>

definition inst_set_variable :: "('d, 'w) sys_env \<Rightarrow> ('d, 'w, unit) xact" where
  "inst_set_variable E =
     act_bind (required ''name'') (\<lambda>name. act_bind (required ''value'') (\<lambda>v.
     act_bind (optional ''type'') (\<lambda>ty.
     act_bind (act_lift (case ty of None \<Rightarrow> Inr [] | Some t \<Rightarrow> as_string t)) (\<lambda>cast.
     act_bind (act_lift (as_string name)) (\<lambda>var_name.
       let var = clone var_name v in
       if cast = [] then x_update (set_variable var)
       else if v_type var = ''string'' then
         (if cast = ''string'' then x_update (set_variable var)
          else if cast = ''timestamp'' then
            act_bind (act_lift (as_string var)) (\<lambda>s.
              case convert_double E s of
                None \<Rightarrow> act_throw Runtime_error
              | Some d \<Rightarrow> x_update (set_variable (variable_timestamp var_name (ts_of_double E d))))
          else act_throw Runtime_error)
       else if v_type var = ''timestamp'' \<and> cast = ''timestamp'' then x_update (set_variable var)
       else act_throw Runtime_error)))))"

definition inst_unset_variable :: "('d, 'w, unit) xact" where
  "inst_unset_variable = act_bind (required_string ''name'') (\<lambda>n. x_update (unset_variable n))"

definition inst_has_type :: "('d, 'w, unit) xact" where
  "inst_has_type =
     act_bind (required_string ''name'') (\<lambda>name.
     act_bind (x_read (\<lambda>s. Inr (get_variable name s))) (\<lambda>var.
       case var of
         None \<Rightarrow> x_change (set_compare COMPARE_UNORDERED)
       | Some v \<Rightarrow> act_bind (required_string ''type'') (\<lambda>ty. set_test (v_type v = ty))))"

definition inst_strlen :: "('d, 'w, unit) xact" where
  "inst_strlen =
     act_bind (required ''string'') (\<lambda>st. act_bind (required_string ''variable_name'') (\<lambda>name.
     act_bind (act_lift (as_string st)) (\<lambda>s.
       x_update (set_variable (variable_integer name (word_of_nat (length s)))))))"

definition inst_hex :: "('d, 'w) sys_env \<Rightarrow> ('d, 'w, unit) xact" where
  "inst_hex E =
     act_bind (required_string ''variable_name'') (\<lambda>name.
     act_bind (required ''value'') (\<lambda>i. act_bind (act_lift (as_integer i)) (\<lambda>v.
     act_bind (optional ''uppercase'') (\<lambda>uc.
     act_bind (act_lift (case uc of None \<Rightarrow> Inr False | Some v \<Rightarrow> res_bind (as_integer v) (\<lambda>x. Inr (x \<noteq> 0)))) (\<lambda>upper.
     act_bind (optional ''width'') (\<lambda>w.
       let width = (case w of
                      Some (Variable _ _ (Integer_value x)) \<Rightarrow> int_of_i64 x
                    | _ \<Rightarrow> 1)
       in x_update (set_variable (variable_string name ''string'' (int_to_hex E (int_of_i64 v) upper width)))))))))"

definition inst_hostname :: "('d, 'w) sys_env \<Rightarrow> ('d, 'w, unit) xact" where
  "inst_hostname E =
     act_bind (required_string ''variable_name'') (\<lambda>name. act_bind (x_system (sys_gethostname E))
       (\<lambda>h. x_update (set_variable (variable_string name ''string'' h))))"

definition inst_max_pid :: "('d, 'w) sys_env \<Rightarrow> ('d, 'w, unit) xact" where
  "inst_max_pid E =
     act_bind (required_string ''variable_name'') (\<lambda>name. act_bind (x_system (sys_get_pid_max E))
       (\<lambda>p. x_update (set_variable (variable_integer name p))))"

definition inst_now :: "('d, 'w) sys_env \<Rightarrow> ('d, 'w, unit) xact" where
  "inst_now E =
     act_bind (required_string ''variable_name'') (\<lambda>name. act_bind (x_system (sys_now E))
       (\<lambda>t. x_update (set_variable (variable_timestamp name t))))"

text \<open>The four calls of \<^verbatim>\<open>rand()\<close> are made from left to right.\<close>

definition mix_random :: "32 word \<Rightarrow> 32 word \<Rightarrow> 32 word \<Rightarrow> 32 word \<Rightarrow> i64" where
  "mix_random a b c d =
     push_bit 48 (scast a) XOR push_bit 32 (scast b) XOR push_bit 16 (scast c) XOR scast d"

definition inst_random :: "('d, 'w) sys_env \<Rightarrow> ('d, 'w, unit) xact" where
  "inst_random E =
     act_bind (required_string ''variable_name'') (\<lambda>name.
     act_bind (optional ''negative'') (\<lambda>p.
     act_bind (act_lift (case p of None \<Rightarrow> Inr True | Some v \<Rightarrow> res_bind (as_integer v) (\<lambda>i. Inr (i \<noteq> 0)))) (\<lambda>negative.
     act_bind (x_system (sys_rand E)) (\<lambda>a. act_bind (x_system (sys_rand E)) (\<lambda>b.
     act_bind (x_system (sys_rand E)) (\<lambda>c. act_bind (x_system (sys_rand E)) (\<lambda>d.
       let r = mix_random a b c d in
       x_update (set_variable (variable_integer name
         (if negative then r else r AND 0x7FFFFFFFFFFFFFFF))))))))))"

section \<open>Sorting variables\<close>

text \<open>
  The keys of a \<^verbatim>\<open>std::map\<close>: a value equivalent to one already there is not added.
\<close>

fun map_insert :: "('a \<Rightarrow> 'a \<Rightarrow> bool) \<Rightarrow> 'a \<Rightarrow> 'a list \<Rightarrow> 'a list" where
  "map_insert lt x [] = [x]"
| "map_insert lt x (y # ys) =
     (if lt x y then x # y # ys else if lt y x then y # map_insert lt x ys else y # ys)"

definition map_keys :: "('a \<Rightarrow> 'a \<Rightarrow> bool) \<Rightarrow> 'a list \<Rightarrow> 'a list" where
  "map_keys lt xs = foldl (\<lambda>keys x. map_insert lt x keys) [] xs"

text \<open>The vector \<^verbatim>\<open>array\<close> has pointers to the objects in the map of the variables; here it has their
  names and values, and the name stands for the object. The second loop writes the keys into the
  objects in turn; to read the iterator at the end of the map is undefined.\<close>

definition assign_value :: "string \<times> 'd variable \<Rightarrow> 'd var_value \<Rightarrow> 'd state \<Rightarrow> 'd state" where
  "assign_value nv x s =
     s\<lparr>st_variables := omap_put (fst nv) (Variable (v_name (snd nv)) (v_type (snd nv)) x) (st_variables s)\<rparr>"

fun write_back :: "(string \<times> 'd variable) list \<Rightarrow> 'd var_value list \<Rightarrow> ('d, 'w, unit) xact" where
  "write_back [] ks = act_return ()"
| "write_back (nv # nvs) [] = act_throw Undefined_behaviour"
| "write_back (nv # nvs) (k # ks) =
     act_bind (x_update (assign_value nv k)) (\<lambda>_. write_back nvs ks)"

definition sortable :: "string \<Rightarrow> bool" where
  "sortable ty \<longleftrightarrow> ty = ''string'' \<or> ty = ''integer'' \<or> ty = ''floating_point''"

text \<open>The first loop: the variables and their common type. It has at most one turn more than there are
  parameters.\<close>

fun sort_array :: "nat \<Rightarrow> int \<Rightarrow> (string \<times> 'd variable) list \<Rightarrow> string
    \<Rightarrow> ('d, 'w, (string \<times> 'd variable) list \<times> string) xact" where
  "sort_array 0 i arr ty = act_throw No_fuel"
| "sort_array (Suc n) i arr ty =
     act_bind (optional (''var'' @ std_to_string i)) (\<lambda>p.
       case p of
         None \<Rightarrow> act_return (arr, ty)
       | Some v \<Rightarrow> act_bind (act_lift (as_string v)) (\<lambda>name.
           act_bind (x_read (\<lambda>s. Inr (get_variable name s))) (\<lambda>var.
             case var of
               None \<Rightarrow> act_throw Runtime_error
             | Some x \<Rightarrow>
                 if ty = [] then
                   (if sortable (v_type x) then sort_array n (i + 1) (arr @ [(name, x)]) (v_type x)
                    else act_throw Runtime_error)
                 else if v_type x = ty then sort_array n (i + 1) (arr @ [(name, x)]) ty
                 else act_throw Runtime_error)))"

definition sort_values :: "('d, 'w) sys_env \<Rightarrow> string \<Rightarrow> 'd variable list \<Rightarrow> 'd var_value list result" where
  "sort_values E ty vars =
     (if ty = ''string'' then
        res_bind (res_map as_string vars) (\<lambda>xs. Inr (map String_value (map_keys (<) xs)))
      else if ty = ''integer'' then
        res_bind (res_map as_integer vars) (\<lambda>xs. Inr (map Integer_value (map_keys (<s) xs)))
      else
        res_bind (res_map as_floating_point vars) (\<lambda>xs. Inr (map Floating_point_value (map_keys (d_less E) xs))))"

definition inst_sort :: "('d, 'w) sys_env \<Rightarrow> ('d, 'w, unit) xact" where
  "inst_sort E =
     act_bind (\<lambda>w. sort_array (Suc (length (st_parameters (x_state w)))) 1 [] [] w) (\<lambda>(arr, ty).
       if sortable ty then
         act_bind (act_lift (sort_values E ty (map snd arr))) (write_back arr)
       else act_return ())"

section \<open>Received data and messages\<close>

definition inst_clear_data :: "('d, 'w, unit) xact" where
  "inst_clear_data = x_update clear_data"

definition inst_clear_message :: "('d, 'w, unit) xact" where
  "inst_clear_message = x_update clear_message"

definition inst_disconnect :: "('d, 'w, unit) xact" where
  "inst_disconnect = x_update disconnect"

definition inst_has_data :: "('d, 'w, unit) xact" where
  "inst_has_data =
     act_bind (x_read (\<lambda>s. Inr (data_size s))) (\<lambda>size.
       if size = 0 then set_test False
       else act_bind (optional ''min_size'') (\<lambda>p.
         case p of
           None \<Rightarrow> set_test True
         | Some v \<Rightarrow> act_bind (act_lift (as_integer v)) (\<lambda>m. set_test (int size \<ge> sint m))))"

definition inst_has_message :: "('d, 'w, unit) xact" where
  "inst_has_message =
     act_bind (x_read (\<lambda>s. Inr (f_command (get_message s)))) (\<lambda>command.
       if command = [] then set_test False
       else act_bind (optional ''command'') (\<lambda>p.
         case p of
           None \<Rightarrow> set_test True
         | Some v \<Rightarrow> act_bind (act_lift (as_string v)) (\<lambda>name. set_test (command = name))))"

definition message_field :: "message \<Rightarrow> string \<Rightarrow> string result" where
  "message_field msg name =
     res_bind (has_parameter msg name) (\<lambda>has.
       if has then get_parameter msg name
       else Inr (if name = ''sent_server'' then f_sent_from_server msg
                 else if name = ''sent_service'' then f_sent_from_service msg
                 else if name = ''server'' then f_server msg
                 else if name = ''service'' then f_service msg
                 else if name = ''command'' then f_command msg else []))"

definition inst_save_parameter_value :: "('d, 'w) sys_env \<Rightarrow> ('d, 'w, unit) xact" where
  "inst_save_parameter_value E =
     act_bind (x_read (\<lambda>s. Inr (get_message s))) (\<lambda>msg.
     act_bind (required_string ''parameter_name'') (\<lambda>pname.
     act_bind (act_lift (message_field msg pname)) (\<lambda>v.
     act_bind (required_string ''variable_name'') (\<lambda>name.
     act_bind (optional ''type'') (\<lambda>p.
     act_bind (act_lift (case p of None \<Rightarrow> Inr ''string'' | Some t \<Rightarrow> as_string t)) (\<lambda>ty.
       if ty = ''string'' \<or> ty = ''identifier'' then x_update (set_variable (variable_string name ty v))
       else if ty = ''integer'' then
         (if v = [] then x_update (set_variable (variable_integer name 0))
          else case convert_integer E v of
                 None \<Rightarrow> act_throw Runtime_error
               | Some i \<Rightarrow> x_update (set_variable (variable_integer name i)))
       else if ty = ''timestamp'' then
         (if v = [] then x_update (set_variable (variable_timestamp name (0, 0)))
          else act_bind (act_lift (timespec_from_string E v))
            (\<lambda>t. x_update (set_variable (variable_timestamp name t))))
       else act_throw Runtime_error))))))"

definition byte_value :: "'d variable \<Rightarrow> byte result" where
  "byte_value v =
     res_bind (as_integer v) (\<lambda>i.
       if sint i < -128 \<or> sint i > 255 then Inl Runtime_error else Inr (ucast i))"

definition inst_send_data :: "('d, 'w) sys_env \<Rightarrow> ('d, 'w, unit) xact" where
  "inst_send_data E =
     act_bind (x_read (\<lambda>s. Inr (st_connections s))) (\<lambda>cs.
       case cs of
         [] \<Rightarrow> act_throw Runtime_error
       | c # _ \<Rightarrow>
           act_bind (required ''values'') (\<lambda>p. act_bind (act_lift (as_array p)) (\<lambda>items.
             if items = [] then act_throw Runtime_error
             else act_bind (act_lift (res_map byte_value items)) (c_write E c))))"

text \<open>A setter that is called only when the parameter is given.\<close>

definition set_from :: "string \<Rightarrow> (message \<Rightarrow> string \<Rightarrow> message result) \<Rightarrow> message \<Rightarrow> ('d, 'w, message) xact" where
  "set_from name setter msg =
     act_bind (optional name) (\<lambda>p.
       case p of
         None \<Rightarrow> act_return msg
       | Some v \<Rightarrow> act_lift (res_bind (as_string v) (setter msg)))"

definition add_list_parameter :: "('d, 'w) sys_env \<Rightarrow> 'd variable \<Rightarrow> message \<Rightarrow> message result" where
  "add_list_parameter E v msg =
     (if v_type v = ''integer'' then res_bind (as_integer v) (add_integer_parameter msg (v_name v))
      else if v_type v = ''string'' \<or> v_type v = ''identifier'' then
        res_bind (as_string v) (add_parameter msg (v_name v))
      else if v_type v = ''timestamp'' then
        res_bind (as_timestamp v) (\<lambda>t. add_parameter msg (v_name v) (ts_to_short_timestamp E t))
      else Inl Runtime_error)"

fun add_list_parameters :: "('d, 'w) sys_env \<Rightarrow> (string \<times> 'd variable) list \<Rightarrow> message \<Rightarrow> message result" where
  "add_list_parameters E [] msg = Inr msg"
| "add_list_parameters E ((n, v) # vs) msg =
     res_bind (add_list_parameter E v msg) (add_list_parameters E vs)"

definition build_message :: "('d, 'w) sys_env \<Rightarrow> ('d, 'w, message) xact" where
  "build_message E =
     act_bind (set_from ''sent_server'' set_sent_from_server new_message) (\<lambda>m1.
     act_bind (set_from ''sent_service'' set_sent_from_service m1) (\<lambda>m2.
     act_bind (set_from ''server'' set_server m2) (\<lambda>m3.
     act_bind (set_from ''service'' set_service m3) (\<lambda>m4.
     act_bind (required_string ''command'') (\<lambda>command.
     act_bind (act_lift (set_command m4 command)) (\<lambda>m5.
     act_bind (optional ''parameters'') (\<lambda>p.
       case p of
         None \<Rightarrow> act_return m5
       | Some v \<Rightarrow> act_lift (res_bind (as_list v) (\<lambda>items. add_list_parameters E items m5)))))))))"

definition inst_send_message :: "('d, 'w) sys_env \<Rightarrow> ('d, 'w, unit) xact" where
  "inst_send_message E =
     act_bind (x_read (\<lambda>s. Inr (st_connections s))) (\<lambda>cs.
       case cs of
         [] \<Rightarrow> act_throw Runtime_error
       | c # _ \<Rightarrow>
           if fst c \<noteq> CONNECTION_TYPE_MESSENGER then act_throw Runtime_error
           else act_bind (build_message E) (c_send_message E c))"

section \<open>Checking what was received\<close>

text \<open>The byte is unsigned, the value it is compared with is not.\<close>

fun same_bytes :: "byte list \<Rightarrow> 'd variable list \<Rightarrow> unit result" where
  "same_bytes (b # bs) (v # vs) =
     res_bind (as_integer v) (\<lambda>i. if uint b \<noteq> sint i then Inl Runtime_error else same_bytes bs vs)"
| "same_bytes _ _ = Inr ()"

definition inst_verify_data :: "('d, 'w, unit) xact" where
  "inst_verify_data =
     act_bind (required ''values'') (\<lambda>p. act_bind (act_lift (as_array p)) (\<lambda>items.
       if items = [] then act_throw Runtime_error
       else act_bind (\<lambda>w. case read_data (length items) (x_state w) of
              (r, s) \<Rightarrow> (Inr r, w\<lparr>x_state := s\<rparr>)) (\<lambda>r.
         case r of
           None \<Rightarrow> act_throw Runtime_error
         | Some buf \<Rightarrow>
             if length buf \<noteq> length items then act_throw Runtime_error
             else act_lift (same_bytes buf items))))"

definition check_value :: "('d, 'w) sys_env \<Rightarrow> string \<Rightarrow> string \<Rightarrow> ('d, 'w, unit) xact" where
  "check_value E name v =
     act_bind (optional name) (\<lambda>p.
       case p of
         None \<Rightarrow> act_return ()
       | Some x \<Rightarrow> act_lift
           (if v_type x = ''string'' \<or> v_type x = ''identifier'' then
              res_bind (as_string x) (\<lambda>s. if s \<noteq> v then Inl Runtime_error else Inr ())
            else if v_type x = ''regex'' then
              res_bind (as_regex x) (\<lambda>re. res_bind (regex_match E re v)
                (\<lambda>m. if m then Inr () else Inl Runtime_error))
            else Inl Runtime_error))"

definition check_list_item :: "('d, 'w) sys_env \<Rightarrow> message \<Rightarrow> bool \<Rightarrow> bool \<Rightarrow> 'd variable \<Rightarrow> unit result" where
  "check_list_item E msg opt forbidden v =
     (let name = v_name v in
      res_bind (has_parameter msg name) (\<lambda>has.
        if has \<and> forbidden then Inl Runtime_error
        else if \<not> has then (if opt \<or> forbidden then Inr () else Inl Runtime_error)
        else if v_type v = ''integer'' then
          res_bind (get_integer_parameter (convert_integer E) msg name) (\<lambda>i.
            res_bind (as_integer v) (\<lambda>x. if x \<noteq> i then Inl Runtime_error else Inr ()))
        else if v_type v = ''string'' \<or> v_type v = ''identifier'' then
          res_bind (get_parameter msg name) (\<lambda>s.
            res_bind (as_string v) (\<lambda>x. if x \<noteq> s then Inl Runtime_error else Inr ()))
        else if v_type v = ''regex'' then
          res_bind (get_parameter msg name) (\<lambda>s.
            res_bind (as_regex v) (\<lambda>re. res_bind (regex_match E re s)
              (\<lambda>m. if m then Inr () else Inl Runtime_error)))
        else if v_type v = ''timestamp'' then
          res_bind (get_timespec_parameter (timespec_from_string E) msg name) (\<lambda>t.
            res_bind (as_timestamp v) (\<lambda>x. if x \<noteq> t then Inl Runtime_error else Inr ()))
        else if v_type v = ''void'' then Inr ()
        else Inl Runtime_error))"

definition check_list :: "('d, 'w) sys_env \<Rightarrow> message \<Rightarrow> string \<Rightarrow> bool \<Rightarrow> bool \<Rightarrow> ('d, 'w, unit) xact" where
  "check_list E msg list_name opt forbidden =
     act_bind (optional list_name) (\<lambda>p.
       case p of
         None \<Rightarrow> act_return ()
       | Some x \<Rightarrow> act_bind (act_lift (as_list x)) (\<lambda>items.
           act_lift (res_bind (res_map (\<lambda>(n, v). check_list_item E msg opt forbidden v) items) (\<lambda>_. Inr ()))))"

definition inst_verify_message :: "('d, 'w) sys_env \<Rightarrow> ('d, 'w, unit) xact" where
  "inst_verify_message E =
     act_bind (x_read (\<lambda>s. Inr (get_message s))) (\<lambda>msg.
     act_bind (check_value E ''sent_server'' (f_sent_from_server msg)) (\<lambda>_.
     act_bind (check_value E ''sent_service'' (f_sent_from_service msg)) (\<lambda>_.
     act_bind (check_value E ''server'' (f_server msg)) (\<lambda>_.
     act_bind (check_value E ''service'' (f_service msg)) (\<lambda>_.
     act_bind (check_value E ''command'' (f_command msg)) (\<lambda>_.
     act_bind (check_list E msg ''required_parameters'' False False) (\<lambda>_.
     act_bind (check_list E msg ''optional_parameters'' True False) (\<lambda>_.
     check_list E msg ''forbidden_parameters'' False True))))))))"

section \<open>Output and the system\<close>

definition inst_print :: "('d, 'w) sys_env \<Rightarrow> ('d, 'w, unit) xact" where
  "inst_print E = act_bind (required_string ''message'')
     (\<lambda>m. x_output (sys_cout E (''--- message: '' @ m @ [CHR 0x0A])))"

definition inst_show_message :: "('d, 'w) sys_env \<Rightarrow> ('d, 'w, unit) xact" where
  "inst_show_message E =
     act_bind (x_read (\<lambda>s. fst (to_string (string_replace_many E) (get_message s))))
       (\<lambda>m. x_output (sys_cout E (''--- message: '' @ m @ [CHR 0x0A])))"

definition hex_char :: "nat \<Rightarrow> char" where
  "hex_char n = ''0123456789abcdef'' ! (n mod 16)"

fun hex_digits :: "nat \<Rightarrow> string" where
  "hex_digits n = (if n < 16 then [hex_char n] else hex_digits (n div 16) @ [hex_char n])"

declare hex_digits.simps [simp del]

definition hex_field :: "nat \<Rightarrow> nat \<Rightarrow> string" where
  "hex_field width n = (let s = hex_digits n in replicate (width - length s) (CHR ''0'') @ s)"

definition printable :: "byte \<Rightarrow> char" where
  "printable b = (if 0x20 \<le> b \<and> b \<le> 0x7E then char_of (unat b) else CHR ''.'')"

definition show_line :: "nat \<Rightarrow> byte list \<Rightarrow> string" where
  "show_line i bs =
     ''  '' @ hex_field 4 i @ '': '' @ concat (map (\<lambda>b. CHR '' '' # hex_field 2 (unat b)) bs)
     @ replicate ((16 - length bs) * 3) (CHR '' '') @ ''   '' @ map printable bs @ [CHR 0x0A]"

function show_lines :: "nat \<Rightarrow> byte list \<Rightarrow> string" where
  "show_lines i bs = (if bs = [] then [] else show_line i (take 16 bs) @ show_lines (i + 16) (drop 16 bs))"
  by pat_completeness auto
termination
  by (relation "measure (\<lambda>(i, bs). length bs)") auto

declare show_lines.simps [simp del]

text \<open>\<^verbatim>\<open>peek_data()\<close> never returns a negative size.\<close>

definition inst_show_data :: "('d, 'w) sys_env \<Rightarrow> ('d, 'w, unit) xact" where
  "inst_show_data E =
     act_bind (required ''size'') (\<lambda>v. act_bind (act_lift (as_integer v)) (\<lambda>n.
     act_bind (x_read (\<lambda>s. Inr (peek_data (unat n) s))) (\<lambda>buf.
       x_output (sys_cout E
         (if buf = [] then ''--- data: <empty>'' @ [CHR 0x0A]
          else ''--- data:'' @ [CHR 0x0A] @ show_lines 0 buf)))))"

definition kill_signal :: "('d, 'w) sys_env \<Rightarrow> 'd variable \<Rightarrow> int result" where
  "kill_signal E v =
     res_bind
       (if v_type v = ''integer'' then res_bind (as_integer v) (\<lambda>i. Inr (sint (int_of_i64 i)))
        else if v_type v = ''string'' \<or> v_type v = ''identifier'' then
          res_bind (as_string v)
            (\<lambda>n. Inr (get_signal_number (convert_integer E) (sigabbrev E) (to_upper E n)))
        else Inl Runtime_error)
       (\<lambda>sig. if sig < 1 \<or> sig \<ge> NSIG then Inl Runtime_error else Inr sig)"

definition inst_kill :: "('d, 'w) sys_env \<Rightarrow> ('d, 'w, unit) xact" where
  "inst_kill E =
     act_bind (optional ''signal'') (\<lambda>p.
     act_bind (act_lift (case p of None \<Rightarrow> Inr 2 | Some v \<Rightarrow> kill_signal E v)) (\<lambda>sig.
     act_bind (x_system (sys_pthread_kill E sig)) (\<lambda>ok. if ok then act_return () else act_throw Runtime_error)))"

definition inst_listen :: "('d, 'w) sys_env \<Rightarrow> ('d, 'w, unit) xact" where
  "inst_listen E =
     act_bind (x_update (set_connection_type CONNECTION_TYPE_MESSENGER)) (\<lambda>_.
     act_bind (optional ''connection_type'') (\<lambda>p.
     act_bind (case p of
         None \<Rightarrow> act_return ()
       | Some v \<Rightarrow> act_bind (act_lift (as_string v)) (\<lambda>ty.
           if ty = ''tcp'' then x_update (set_connection_type CONNECTION_TYPE_TCP)
           else if ty = ''messenger'' then x_update (set_connection_type CONNECTION_TYPE_MESSENGER)
           else act_throw Runtime_error)) (\<lambda>_.
     act_bind (required ''address'') (\<lambda>v. act_bind (act_lift (as_address v)) (\<lambda>a.
     act_bind (x_read (\<lambda>s. if st_listen s \<noteq> None then Inl Runtime_error else Inr (st_connection_type s))) (\<lambda>ty.
     act_bind (x_system (c_open E ty a)) (\<lambda>r.
     act_bind (act_lift r) (\<lambda>_. x_change (st_listen_on a)))))))))"

text \<open>The class of the object decides: an integer is a number of seconds, otherwise it must be a
  floating point.\<close>

definition duration :: "('d, 'w) sys_env \<Rightarrow> 'd variable \<Rightarrow> timespec result" where
  "duration E v =
     (case v_value v of
        Integer_value i \<Rightarrow> Inr (i, 0)
      | Floating_point_value d \<Rightarrow> Inr (ts_of_double E d)
      | _ \<Rightarrow> Inl Bad_cast)"

definition inst_sleep :: "('d, 'w) sys_env \<Rightarrow> ('d, 'w, unit) xact" where
  "inst_sleep E =
     act_bind (required ''seconds'') (\<lambda>v. act_bind (act_lift (duration E v)) (\<lambda>t.
     act_bind (x_system (sys_nanosleep E t)) (\<lambda>ok. if ok then act_return () else act_throw Runtime_error)))"

section \<open>Polling the connections of the interpreter\<close>

definition all_connections :: "'d state \<Rightarrow> rconn list" where
  "all_connections s =
     map (\<lambda>(ty, n). Client ty n) (st_connections s)
     @ (case st_listen s of None \<Rightarrow> [] | Some (ty, a) \<Rightarrow> [Listener ty a])"

definition c_events :: "('d, 'w) sys_env \<Rightarrow> bool \<Rightarrow> rconn \<Rightarrow> 'w \<Rightarrow> revents" where
  "c_events E drain c sys =
     (if drain then 0
      else (if c_is_listener E c sys \<or> c_is_signal E c sys then POLLIN else 0)
        OR (if c_is_reader E c sys then POLLIN OR POLLPRI OR POLLRDHUP else 0))
     OR (if c_is_writer E c sys then POLLOUT OR POLLRDHUP else 0)"

fun fds_of :: "('d, 'w) sys_env \<Rightarrow> bool \<Rightarrow> 'w \<Rightarrow> rconn list \<Rightarrow> pollfd list \<Rightarrow> (rconn \<times> nat) list
    \<Rightarrow> pollfd list \<times> (rconn \<times> nat) list" where
  "fds_of E drain sys [] fds pos = (fds, pos)"
| "fds_of E drain sys (c # cs) fds pos =
     (let e = c_events E drain c sys in
      if e = 0 then fds_of E drain sys cs fds pos
      else fds_of E drain sys cs (fds @ [\<lparr>fd_fd = c_get_socket E c sys, fd_events = e, fd_revents = 0\<rparr>])
             ((c, length fds) # pos))"

text \<open>\<^verbatim>\<open>fds[position[c.get()]]\<close>: a connection that is not in the map is added to it with position 0.\<close>

definition revents_of :: "(rconn \<times> nat) list \<Rightarrow> revents list \<Rightarrow> rconn \<Rightarrow> revents result" where
  "revents_of pos revs c =
     (let i = (case map_of pos c of None \<Rightarrow> 0 | Some i \<Rightarrow> i) in
      if i < length revs then Inr (revs ! i) else Inl Undefined_behaviour)"

fun exit_scan :: "('d, 'w) sys_env \<Rightarrow> (rconn \<times> nat) list \<Rightarrow> revents list \<Rightarrow> rconn list \<Rightarrow> ('d, 'w, int) xact" where
  "exit_scan E pos revs [] = act_return 0"
| "exit_scan E pos revs (c # cs) =
     act_bind (act_lift (revents_of pos revs c)) (\<lambda>r.
       if r = 0 then exit_scan E pos revs cs
       else if r AND (POLLHUP OR POLLRDHUP) \<noteq> 0 then
         act_bind (c_process E Ev_hup c) (\<lambda>_. exit_scan E pos revs cs)
       else act_return 1)"

definition exit_poll :: "('d, 'w) sys_env \<Rightarrow> timespec \<Rightarrow> ('d, 'w, int) xact" where
  "exit_poll E t w =
     (let conns = all_connections (x_state w);
          (fds, pos) = fds_of E False (x_sys w) conns [] []
      in if fds = [] then (Inr 0, w)
         else act_bind (x_system (sys_ppoll E fds t)) (\<lambda>r.
           case r of
             Inl e \<Rightarrow> act_throw Runtime_error
           | Inr revs \<Rightarrow> exit_scan E pos revs conns) w)"

definition inst_exit :: "('d, 'w) sys_env \<Rightarrow> ('d, 'w, unit) xact" where
  "inst_exit E =
     act_bind (x_update (\<lambda>s. s\<lparr>st_exit_code := 0\<rparr>)) (\<lambda>_.
     act_bind (optional ''timeout'') (\<lambda>timeout. act_bind (optional ''error_message'') (\<lambda>error_message.
     act_bind
       (case error_message of
          Some m \<Rightarrow>
            (if timeout \<noteq> None then act_throw Runtime_error
             else act_bind (act_lift (as_string m)) (\<lambda>text.
               act_bind (x_output (sys_cerr E ([CHR 0x1B] @ ''[31merror: '' @ text @ [CHR 0x1B] @ ''[0m'' @ [CHR 0x0A])))
                 (\<lambda>_. x_update (\<lambda>s. s\<lparr>st_exit_code := 1\<rparr>))))
        | None \<Rightarrow>
            (case timeout of
               None \<Rightarrow> act_return ()
             | Some v \<Rightarrow> act_bind (act_lift (duration E v)) (\<lambda>t. act_bind (exit_poll E t)
                 (\<lambda>code. x_update (\<lambda>s. s\<lparr>st_exit_code := code\<rparr>)))))
       (\<lambda>_. x_change (\<lambda>s. set_ip (length (st_program s)) s)))))"

datatype wait_mode = MODE_WAIT | MODE_DRAIN | MODE_TIMEOUT

definition wait_mode_of :: "string \<Rightarrow> wait_mode result" where
  "wait_mode_of m =
     (if m = ''wait'' then Inr MODE_WAIT else if m = ''drain'' then Inr MODE_DRAIN
      else if m = ''timeout'' then Inr MODE_TIMEOUT else Inl Runtime_error)"

definition c_input :: "('d, 'w) sys_env \<Rightarrow> rconn \<Rightarrow> ('d, 'w, unit) xact" where
  "c_input E c w =
     (if c_is_signal E c (x_sys w) then act_when (c_signal_object E c) (c_process E Ev_signal c) w
      else if c_is_listener E c (x_sys w) then c_process E Ev_accept c w
      else c_process E Ev_read c w)"

definition c_revents :: "('d, 'w) sys_env \<Rightarrow> rconn \<Rightarrow> revents \<Rightarrow> ('d, 'w, unit) xact" where
  "c_revents E c r =
     act_bind (act_when (r AND (POLLIN OR POLLPRI) \<noteq> 0) (c_input E c)) (\<lambda>_.
     act_bind (act_when (r AND POLLOUT \<noteq> 0) (c_process E Ev_write c)) (\<lambda>_.
     act_bind (act_when (r AND POLLERR \<noteq> 0) (c_process E Ev_error c)) (\<lambda>_.
     act_bind (act_when (r AND (POLLHUP OR POLLRDHUP) \<noteq> 0) (c_process E Ev_hup c)) (\<lambda>_.
     act_when (r AND POLLNVAL \<noteq> 0) (c_process E Ev_invalid c)))))"

fun wait_scan :: "('d, 'w) sys_env \<Rightarrow> (rconn \<times> nat) list \<Rightarrow> revents list \<Rightarrow> bool \<Rightarrow> rconn list
    \<Rightarrow> ('d, 'w, bool) xact" where
  "wait_scan E pos revs timed_out [] = act_return timed_out"
| "wait_scan E pos revs timed_out (c # cs) =
     act_bind (act_lift (revents_of pos revs c)) (\<lambda>r.
       if r = 0 then wait_scan E pos revs timed_out cs
       else act_bind (c_revents E c r) (\<lambda>_. wait_scan E pos revs False cs))"

text \<open>\<^verbatim>\<open>ppoll()\<close> is called again each time a signal interrupts it; the fuel bounds how often.\<close>

fun ppoll_retry :: "nat \<Rightarrow> ('d, 'w) sys_env \<Rightarrow> pollfd list \<Rightarrow> timespec \<Rightarrow> ('d, 'w, revents list) xact" where
  "ppoll_retry 0 E fds t = act_throw No_fuel"
| "ppoll_retry (Suc n) E fds t =
     act_bind (x_system (sys_ppoll E fds t)) (\<lambda>r.
       case r of
         Inr revs \<Rightarrow> act_return revs
       | Inl e \<Rightarrow> if e = EINTR then ppoll_retry n E fds t else act_throw Runtime_error)"

definition wait_poll :: "nat \<Rightarrow> ('d, 'w) sys_env \<Rightarrow> timespec \<Rightarrow> wait_mode \<Rightarrow> ('d, 'w, nat) xact" where
  "wait_poll fuel E t mode w =
     (let conns = all_connections (x_state w);
          (fds, pos) = fds_of E (mode = MODE_DRAIN) (x_sys w) conns [] []
      in if fds = [] then (Inr 0, w)
         else act_bind (ppoll_retry fuel E fds t) (\<lambda>revs.
           act_bind (wait_scan E pos revs True conns) (\<lambda>timed_out.
             if timed_out \<and> mode \<noteq> MODE_TIMEOUT then act_throw Runtime_error
             else act_return (length fds))) w)"

fun wait_loop :: "nat \<Rightarrow> nat \<Rightarrow> ('d, 'w) sys_env \<Rightarrow> timespec \<Rightarrow> wait_mode \<Rightarrow> ('d, 'w, unit) xact" where
  "wait_loop 0 fuel E t mode = act_throw No_fuel"
| "wait_loop (Suc n) fuel E t mode =
     act_bind (wait_poll fuel E t mode) (\<lambda>r.
       if r = 0 then (if mode = MODE_DRAIN then act_return () else act_throw Runtime_error)
       else if mode \<noteq> MODE_DRAIN then act_return ()
       else wait_loop n fuel E t mode)"

definition inst_wait :: "nat \<Rightarrow> ('d, 'w) sys_env \<Rightarrow> ('d, 'w, unit) xact" where
  "inst_wait fuel E =
     act_bind (x_read (\<lambda>s. if st_in_thread s then Inr () else Inl Runtime_error)) (\<lambda>_.
     act_bind (required ''timeout'') (\<lambda>v. act_bind (act_lift (duration E v)) (\<lambda>t.
     act_bind (optional ''mode'') (\<lambda>p.
     act_bind (act_lift (case p of None \<Rightarrow> Inr MODE_WAIT | Some m \<Rightarrow> res_bind (as_string m) wait_mode_of)) (\<lambda>mode.
     wait_loop fuel fuel E t mode)))))"

section \<open>The instruction of a name\<close>

definition inst_func :: "nat \<Rightarrow> ('d, 'w) sys_env \<Rightarrow> string \<Rightarrow> ('d, 'w, unit) xact" where
  "inst_func fuel E name =
     (case map_of
        [(''call'', inst_call), (''clear_data'', inst_clear_data), (''clear_message'', inst_clear_message),
         (''compare'', inst_compare), (''disconnect'', inst_disconnect), (''exit'', inst_exit E),
         (''goto'', inst_goto), (''has_data'', inst_has_data), (''has_message'', inst_has_message),
         (''has_type'', inst_has_type), (''hex'', inst_hex E), (''hostname'', inst_hostname E),
         (''if'', inst_if E), (''kill'', inst_kill E), (''label'', inst_label), (''listen'', inst_listen E),
         (''max_pid'', inst_max_pid E), (''now'', inst_now E), (''print'', inst_print E),
         (''random'', inst_random E), (''return'', inst_return), (''run'', inst_run),
         (''save_parameter_value'', inst_save_parameter_value E), (''send_data'', inst_send_data E),
         (''send_message'', inst_send_message E), (''set_variable'', inst_set_variable E),
         (''show_data'', inst_show_data E), (''show_message'', inst_show_message E), (''sleep'', inst_sleep E),
         (''sort'', inst_sort E), (''strlen'', inst_strlen), (''unset_variable'', inst_unset_variable),
         (''verify_data'', inst_verify_data), (''verify_message'', inst_verify_message E),
         (''wait'', inst_wait fuel E)] name of
        None \<Rightarrow> act_throw Undefined_behaviour
      | Some f \<Rightarrow> f)"

end
