(* ===== verification/Executor.thy ===== *)
theory Executor
  imports Instructions Parser_Correct
begin

text \<open>
  The executor of the reporter's language: \<^verbatim>\<open>execute_instruction()\<close> of \<^verbatim>\<open>reporter/executor.cpp\<close>, the
  loop of \<^verbatim>\<open>executor::start()\<close> and the loop of the background thread. \<open>fuel\<close> bounds the waiting loops
  of the \<^verbatim>\<open>wait()\<close> instruction, \<open>n\<close> the number of instructions. The thread itself, the signal that
  tells the communicator the thread is done, and the trace callback are left out, except that the
  callback is an action of the caller.
\<close>

section \<open>One instruction\<close>

datatype step_t = STEP_START | STEP_DONE | STEP_CONTINUE

definition type_accepts :: "string \<Rightarrow> string \<Rightarrow> bool" where
  "type_accepts decl actual \<longleftrightarrow> decl = actual \<or> decl = ''any''
     \<or> decl = ''number'' \<and> (actual = ''integer'' \<or> actual = ''floating_point'')
     \<or> decl = ''string_or_identifier'' \<and> (actual = ''identifier'' \<or> actual = ''string'')"

definition bind_parameter :: "('d, 'z) eval_env_scheme \<Rightarrow> 'd statement \<Rightarrow> parameter_declaration \<Rightarrow> 'd state
    \<Rightarrow> 'd state result" where
  "bind_parameter E stmt decl s =
     (case stmt_get_parameter stmt (pd_name decl) of
        None \<Rightarrow> if pd_required decl then Inl Runtime_error else Inr s
      | Some expr \<Rightarrow>
          res_bind (compute E s expr) (\<lambda>v. res_bind (value_to_variable E s v (pd_name decl))
            (\<lambda>p. if type_accepts (pd_type decl) (v_type p) then Inr (st_add_parameter p s)
                 else Inl Runtime_error)))"

fun bind_parameters :: "('d, 'w) sys_env \<Rightarrow> 'd statement \<Rightarrow> parameter_declaration list \<Rightarrow> ('d, 'w, unit) xact" where
  "bind_parameters E stmt [] = act_return ()"
| "bind_parameters E stmt (d # ds) =
     act_bind (x_change (bind_parameter E stmt d)) (\<lambda>_. bind_parameters E stmt ds)"

definition execute_instruction :: "nat \<Rightarrow> ('d, 'w) sys_env \<Rightarrow> (bool \<Rightarrow> ('d, 'w, unit) xact) option
    \<Rightarrow> ('d, 'w, step_t) xact" where
  "execute_instruction fuel E trace w =
     (let s = x_state w; ip = st_ip s in
      if ip \<ge> length (st_program s) then (Inr STEP_DONE, w)
      else act_bind (x_read (get_statement ip)) (\<lambda>stmt.
        act_bind (x_update (\<lambda>s. s\<lparr>st_running_statement := Some stmt\<rparr>)) (\<lambda>_.
        act_bind (x_change (set_ip (ip + 1))) (\<lambda>_.
        act_bind (x_update clear_parameters) (\<lambda>_.
          if sm_instruction stmt = ''run'' then
            act_bind (x_read (\<lambda>s. if st_in_thread s then Inl Runtime_error else Inr ()))
              (\<lambda>_. act_return STEP_START)
          else
            act_bind (bind_parameters E stmt (sm_declarations stmt)) (\<lambda>_.
            act_bind (case trace of None \<Rightarrow> act_return () | Some f \<Rightarrow> f False) (\<lambda>_.
            act_bind (inst_func fuel E (sm_instruction stmt)) (\<lambda>_.
            act_bind (case trace of None \<Rightarrow> act_return () | Some f \<Rightarrow> f True) (\<lambda>_.
            act_return STEP_CONTINUE)))))))) w)"

section \<open>The loops\<close>

text \<open>\<^verbatim>\<open>executor::start()\<close> up to the start of the thread: \<open>True\<close> when the thread has to be started,
  \<open>False\<close> when the program ended before.\<close>

fun start_loop :: "nat \<Rightarrow> nat \<Rightarrow> ('d, 'w) sys_env \<Rightarrow> (bool \<Rightarrow> ('d, 'w, unit) xact) option \<Rightarrow> ('d, 'w, bool) xact" where
  "start_loop 0 fuel E trace = act_throw No_fuel"
| "start_loop (Suc n) fuel E trace =
     act_bind (execute_instruction fuel E trace) (\<lambda>step.
       case step of
         STEP_DONE \<Rightarrow> act_return False
       | STEP_START \<Rightarrow> act_return True
       | STEP_CONTINUE \<Rightarrow> start_loop n fuel E trace)"

text \<open>\<^verbatim>\<open>background_executor::enter()\<close>, \<^verbatim>\<open>run()\<close> and \<^verbatim>\<open>leave()\<close>. \<open>continue_running\<close> is what the thread
  says before each instruction.\<close>

fun thread_loop :: "nat \<Rightarrow> nat \<Rightarrow> ('d, 'w) sys_env \<Rightarrow> ('w \<Rightarrow> bool) \<Rightarrow> (bool \<Rightarrow> ('d, 'w, unit) xact) option
    \<Rightarrow> ('d, 'w, unit) xact" where
  "thread_loop 0 fuel E continue_running trace = act_throw No_fuel"
| "thread_loop (Suc n) fuel E continue_running trace =
     (\<lambda>w. if \<not> continue_running (x_sys w) then (Inr (), w)
          else act_bind (execute_instruction fuel E trace) (\<lambda>step.
            if step = STEP_DONE then act_return () else thread_loop n fuel E continue_running trace) w)"

definition background_executor :: "nat \<Rightarrow> nat \<Rightarrow> ('d, 'w) sys_env \<Rightarrow> ('w \<Rightarrow> bool)
    \<Rightarrow> (bool \<Rightarrow> ('d, 'w, unit) xact) option \<Rightarrow> ('d, 'w, unit) xact" where
  "background_executor n fuel E continue_running trace w =
     (case thread_loop n fuel E continue_running trace (w\<lparr>x_state := (x_state w)\<lparr>st_in_thread := True\<rparr>\<rparr>) of
        (r, w') \<Rightarrow> (r, w'\<lparr>x_state := (x_state w')\<lparr>st_in_thread := False\<rparr>\<rparr>))"

end
