(* ===== verification/Executor_Types.thy ===== *)
theory Executor_Types
  imports Executor
begin

text \<open>
  Type safety of the executor. The code checks the type name of each parameter against its
  declaration and then reads the objects through unchecked casts; the lemmas of this theory show,
  instruction by instruction, that the check is enough, and that no instruction takes the
  instruction pointer out of the program.
\<close>

section \<open>Well-typed variables\<close>

definition types_of :: "'d var_value \<Rightarrow> string list" where
  "types_of v =
     (case v of
        String_value _ \<Rightarrow> [''string'', ''identifier'']
      | Integer_value _ \<Rightarrow> [''integer'']
      | Floating_point_value _ \<Rightarrow> [''floating_point'']
      | Address_value _ \<Rightarrow> [''address'']
      | Timestamp_value _ \<Rightarrow> [''timestamp'']
      | Regex_value _ \<Rightarrow> [''regex'']
      | Array_value _ \<Rightarrow> [''array'']
      | List_value _ \<Rightarrow> [''list'']
      | Void_value \<Rightarrow> [''void''])"

definition scalar_ok :: "'d variable \<Rightarrow> bool" where
  "scalar_ok v \<longleftrightarrow> v_type v \<in> set (types_of (v_value v))"

definition var_ok :: "'d variable \<Rightarrow> bool" where
  "var_ok v \<longleftrightarrow> scalar_ok v \<and>
     (case v_value v of
        Array_value vs \<Rightarrow> list_all scalar_ok vs
      | List_value ps \<Rightarrow> list_all (\<lambda>p. scalar_ok (snd p)) ps
      | _ \<Rightarrow> True)"

lemmas typed_defs = scalar_ok_def types_of_def

lemma cast_string: "scalar_ok v \<Longrightarrow> v_type v = ''string'' \<or> v_type v = ''identifier'' \<Longrightarrow> \<exists>x. as_string v = Inr x"
  by (cases "v_value v") (auto simp: typed_defs as_string_def)

lemma cast_integer: "scalar_ok v \<Longrightarrow> v_type v = ''integer'' \<Longrightarrow> \<exists>x. as_integer v = Inr x"
  by (cases "v_value v") (auto simp: typed_defs as_integer_def)

lemma cast_floating_point: "scalar_ok v \<Longrightarrow> v_type v = ''floating_point'' \<Longrightarrow> \<exists>x. as_floating_point v = Inr x"
  by (cases "v_value v") (auto simp: typed_defs as_floating_point_def)

lemma cast_timestamp: "scalar_ok v \<Longrightarrow> v_type v = ''timestamp'' \<Longrightarrow> \<exists>x. as_timestamp v = Inr x"
  by (cases "v_value v") (auto simp: typed_defs as_timestamp_def)

lemma cast_address: "scalar_ok v \<Longrightarrow> v_type v = ''address'' \<Longrightarrow> \<exists>x. as_address v = Inr x"
  by (cases "v_value v") (auto simp: typed_defs as_address_def)

lemma cast_regex: "scalar_ok v \<Longrightarrow> v_type v = ''regex'' \<Longrightarrow> \<exists>x. as_regex v = Inr x"
  by (cases "v_value v") (auto simp: typed_defs as_regex_def)

lemma cast_array: "scalar_ok v \<Longrightarrow> v_type v = ''array'' \<Longrightarrow> \<exists>x. as_array v = Inr x"
  by (cases "v_value v") (auto simp: typed_defs as_array_def)

lemma cast_list: "var_ok v \<Longrightarrow> v_type v = ''list'' \<Longrightarrow> \<exists>x. as_list v = Inr x \<and> list_all (\<lambda>p. scalar_ok (snd p)) x"
  by (cases "v_value v") (auto simp: var_ok_def typed_defs as_list_def)

lemma var_ok_scalar: "var_ok v \<Longrightarrow> scalar_ok v"
  by (simp add: var_ok_def)

lemma var_ok_clone: "var_ok v \<Longrightarrow> var_ok (clone n v)"
  by (simp add: var_ok_def clone_def scalar_ok_def)

lemma var_ok_mk [simp]:
  "var_ok (variable_integer n i)" "var_ok (variable_floating_point n d)" "var_ok (variable_address n a)"
  "var_ok (variable_timestamp n t)" "var_ok (variable_regex n r)" "var_ok (variable_void n)"
  "var_ok (variable_string n ty s) \<longleftrightarrow> ty = ''string'' \<or> ty = ''identifier''"
  "var_ok (variable_array n vs) \<longleftrightarrow> list_all scalar_ok vs"
  "var_ok (variable_list n ps) \<longleftrightarrow> list_all (\<lambda>p. scalar_ok (snd p)) ps"
  by (auto simp: var_ok_def typed_defs variable_integer_def variable_floating_point_def variable_address_def
      variable_timestamp_def variable_regex_def variable_void_def variable_string_def variable_array_def
      variable_list_def)

section \<open>The invariant of the executor\<close>

text \<open>\<open>P\<close> is the program, which no instruction changes.\<close>

definition vars_ok :: "(string \<times> 'd variable) list \<Rightarrow> bool" where
  "vars_ok xs \<longleftrightarrow> (\<forall>k v. map_of xs k = Some v \<longrightarrow> var_ok v)"

definition exec_ok :: "'d statement list \<Rightarrow> 'd state \<Rightarrow> bool" where
  "exec_ok P s \<longleftrightarrow> st_program s = P \<and> program_ok s \<and> st_ip s \<le> length (st_program s) \<and>
     (\<forall>p \<in> set (st_stack s). p \<le> length (st_program s)) \<and> vars_ok (st_variables s)"

text \<open>The parameters are among those the declarations \<open>ds\<close> allow, with a type they accept.\<close>

definition decl_type :: "parameter_declaration list \<Rightarrow> string \<Rightarrow> string option" where
  "decl_type ds n = map_of (map (\<lambda>d. (pd_name d, pd_type d)) ds) n"

definition bound :: "parameter_declaration list \<Rightarrow> 'd state \<Rightarrow> bool" where
  "bound ds s \<longleftrightarrow>
     (\<forall>k v. map_of (st_parameters s) k = Some v \<longrightarrow>
        var_ok v \<and> (\<exists>ty. decl_type ds k = Some ty \<and> type_accepts ty (v_type v)))"

definition exec_inv :: "'d statement list \<Rightarrow> parameter_declaration list \<Rightarrow> ('d, 'w) xworld \<Rightarrow> bool" where
  "exec_inv P ds w \<longleftrightarrow> exec_ok P (x_state w) \<and> bound ds (x_state w)"

text \<open>An action is \<open>good\<close> when it keeps the invariant, also when it throws, never uses a wrong cast, and
  its result satisfies \<open>F\<close>.\<close>

definition good :: "('x \<Rightarrow> bool) \<Rightarrow> ('x, 'a) act \<Rightarrow> ('a \<Rightarrow> bool) \<Rightarrow> bool" where
  "good I m F \<longleftrightarrow> (\<forall>w. I w \<longrightarrow> I (snd (m w)) \<and> fst (m w) \<noteq> Inl Bad_cast \<and> (\<forall>a. fst (m w) = Inr a \<longrightarrow> F a))"

named_theorems good_rules \<open>rules for good actions\<close>

lemma good_bind [good_rules]:
  assumes "good I m F" and "\<And>a. F a \<Longrightarrow> good I (f a) G"
  shows "good I (act_bind m f) G"
  using assms by (auto simp: good_def act_bind_def split: prod.split sum.split)

lemma good_return [good_rules]: "F a \<Longrightarrow> good I (act_return a) F"
  by (simp add: good_def act_return_def)

lemma good_throw [good_rules]: "e \<noteq> Bad_cast \<Longrightarrow> good I (act_throw e) F"
  by (simp add: good_def act_throw_def)

lemma good_lift: "r \<noteq> Inl Bad_cast \<Longrightarrow> (\<And>a. r = Inr a \<Longrightarrow> F a) \<Longrightarrow> good I (act_lift r) F"
  by (simp add: good_def act_lift_def)

lemma good_when [good_rules]: "good I m F \<Longrightarrow> F () \<Longrightarrow> good I (act_when b m) F"
  by (simp add: act_when_def good_return)

lemma good_weaken: "good I m F \<Longrightarrow> (\<And>a. F a \<Longrightarrow> G a) \<Longrightarrow> good I m G"
  by (auto simp: good_def)

lemma good_read:
  "(\<And>s w. I w \<Longrightarrow> x_state w = s \<Longrightarrow> f s \<noteq> Inl Bad_cast \<and> (\<forall>a. f s = Inr a \<longrightarrow> F a)) \<Longrightarrow> good I (x_read f) F"
  by (simp add: good_def x_read_def)

lemma good_update:
  "(\<And>w. I w \<Longrightarrow> I (w\<lparr>x_state := f (x_state w)\<rparr>)) \<Longrightarrow> good I (x_update f) (\<lambda>_. True)"
  by (simp add: good_def x_update_def)

lemma good_change:
  "(\<And>w. I w \<Longrightarrow> f (x_state w) \<noteq> Inl Bad_cast) \<Longrightarrow>
   (\<And>w s. I w \<Longrightarrow> f (x_state w) = Inr s \<Longrightarrow> I (w\<lparr>x_state := s\<rparr>)) \<Longrightarrow> good I (x_change f) (\<lambda>_. True)"
  by (auto simp: good_def x_change_def split: sum.split)

lemma exec_inv_x_sys [simp]: "exec_inv P ds (w\<lparr>x_sys := y\<rparr>) \<longleftrightarrow> exec_inv P ds w"
  by (simp add: exec_inv_def)

lemma good_system [good_rules]: "good (exec_inv P ds) (x_system f) (\<lambda>_. True)"
  by (auto simp: good_def x_system_def split: prod.split)

lemma good_output [good_rules]: "good (exec_inv P ds) (x_output f) (\<lambda>_. True)"
  by (simp add: good_def x_output_def)

section \<open>The state operations keep the invariant\<close>

text \<open>What the invariant depends on.\<close>

definition core :: "'d state \<Rightarrow> nat \<times> nat list \<times> 'd statement list \<times> (string \<times> 'd variable) list
    \<times> (string \<times> 'd variable) list \<times> (string \<times> nat) list" where
  "core s = (st_ip s, st_stack s, st_program s, st_parameters s, st_variables s, st_labels s)"

lemma core_labels_ok: "core s = core s' \<Longrightarrow> labels_ok s \<longleftrightarrow> labels_ok s'"
  by (simp add: core_def labels_ok_def)

lemma core_exec_ok: "core s = core s' \<Longrightarrow> exec_ok P s \<longleftrightarrow> exec_ok P s'"
  using core_labels_ok [of s s'] by (simp add: core_def exec_ok_def program_ok_def)

lemma core_bound: "core s = core s' \<Longrightarrow> bound ds s \<longleftrightarrow> bound ds s'"
  by (simp add: core_def bound_def)

lemma exec_inv_core: "exec_inv P ds w \<Longrightarrow> core (x_state w') = core (x_state w) \<Longrightarrow> exec_inv P ds w'"
  using core_exec_ok core_bound unfolding exec_inv_def by metis

lemma good_quiet_update: "(\<And>s. core (f s) = core s) \<Longrightarrow> good (exec_inv P ds) (x_update f) (\<lambda>_. True)"
  by (rule good_update) (auto elim: exec_inv_core)

lemma labels_ok_upd [simp]:
  "labels_ok (s\<lparr>st_ip := i\<rparr>) = labels_ok s" "labels_ok (s\<lparr>st_stack := st\<rparr>) = labels_ok s"
  "labels_ok (s\<lparr>st_variables := v\<rparr>) = labels_ok s" "labels_ok (s\<lparr>st_parameters := v\<rparr>) = labels_ok s"
  by (simp_all add: labels_ok_def)

lemma exec_ok_set_ip: "exec_ok P s \<Longrightarrow> set_ip i s = Inr s' \<Longrightarrow> exec_ok P s'"
  by (auto simp: set_ip_def exec_ok_def program_ok_def split: if_splits)

lemma exec_ok_push_ip: "exec_ok P s \<Longrightarrow> exec_ok P (push_ip s)"
  by (auto simp: push_ip_def exec_ok_def program_ok_def)

lemma exec_ok_pop_ip: "exec_ok P s \<Longrightarrow> pop_ip s = Inr s' \<Longrightarrow> exec_ok P s'"
  by (auto simp: pop_ip_def exec_ok_def program_ok_def split: list.splits)

lemma exec_ok_put_variable:
  "exec_ok P s \<Longrightarrow> var_ok v \<Longrightarrow> exec_ok P (s\<lparr>st_variables := omap_put n v (st_variables s)\<rparr>)"
  by (auto simp: exec_ok_def program_ok_def vars_ok_def map_of_omap_put)

lemma exec_ok_unset_variable: "exec_ok P s \<Longrightarrow> exec_ok P (unset_variable n s)"
  by (auto simp: unset_variable_def exec_ok_def program_ok_def vars_ok_def map_of_omap_erase)

lemma bound_upd [simp]:
  "bound ds (s\<lparr>st_ip := i\<rparr>) = bound ds s" "bound ds (s\<lparr>st_stack := st\<rparr>) = bound ds s"
  "bound ds (s\<lparr>st_variables := v\<rparr>) = bound ds s"
  by (simp_all add: bound_def)

lemma good_set_variable [good_rules]: "var_ok v \<Longrightarrow> good (exec_inv P ds) (x_update (set_variable v)) (\<lambda>_. True)"
  by (rule good_update) (simp add: exec_inv_def set_variable_def exec_ok_put_variable)

lemma good_unset_variable [good_rules]: "good (exec_inv P ds) (x_update (unset_variable n)) (\<lambda>_. True)"
  by (rule good_update) (simp add: exec_inv_def exec_ok_unset_variable, simp add: unset_variable_def)

lemma good_push_ip [good_rules]: "good (exec_inv P ds) (x_update push_ip) (\<lambda>_. True)"
  by (rule good_update) (simp add: exec_inv_def exec_ok_push_ip, simp add: push_ip_def)

lemma good_set_ip [good_rules]: "good (exec_inv P ds) (x_change (set_ip i)) (\<lambda>_. True)"
  by (rule good_change) (auto simp: exec_inv_def exec_ok_set_ip, auto simp: set_ip_def split: if_splits)

lemma good_set_ip_end [good_rules]: "good (exec_inv P ds) (x_change (\<lambda>s. set_ip (length (st_program s)) s)) (\<lambda>_. True)"
  by (rule good_change) (auto simp: exec_inv_def exec_ok_set_ip, auto simp: set_ip_def split: if_splits)

lemma good_pop_ip [good_rules]: "good (exec_inv P ds) (x_change pop_ip) (\<lambda>_. True)"
  by (rule good_change) (auto simp: exec_inv_def exec_ok_pop_ip, auto simp: pop_ip_def split: list.splits)

lemma good_set_compare [good_rules]: "good (exec_inv P ds) (x_change (set_compare c)) (\<lambda>_. True)"
  by (rule good_change)
     (auto simp: set_compare_def split: if_splits elim!: exec_inv_core simp: core_def)

lemma good_set_test [good_rules]: "good (exec_inv P ds) (set_test b) (\<lambda>_. True)"
  unfolding set_test_def by (rule good_rules)

lemma good_set_exit_code [good_rules]: "good (exec_inv P ds) (x_update (\<lambda>s. s\<lparr>st_exit_code := c\<rparr>)) (\<lambda>_. True)"
  by (rule good_quiet_update) (simp add: core_def)

lemma good_quiet_updates [good_rules]:
  "good (exec_inv P ds) (x_update clear_data) (\<lambda>_. True)" "good (exec_inv P ds) (x_update clear_message) (\<lambda>_. True)"
  "good (exec_inv P ds) (x_update disconnect) (\<lambda>_. True)" "good (exec_inv P ds) (x_update (set_connection_type ty)) (\<lambda>_. True)"
  by (rule good_quiet_update, simp add: core_def clear_data_def clear_message_def disconnect_def
      set_connection_type_def)+

lemma good_listen_on [good_rules]: "good (exec_inv P ds) (x_change (st_listen_on a)) (\<lambda>_. True)"
  by (rule good_change)
     (auto simp: st_listen_on_def split: if_splits elim!: exec_inv_core simp: core_def)

lemma good_jump [good_rules]: "good (exec_inv P ds) (jump n) (\<lambda>_. True)"
  unfolding jump_def
  by (rule good_rules, rule good_read [where F = "\<lambda>_. True"])
     (auto simp: get_label_position_def split: option.split intro: good_rules)

lemma good_get [good_rules]: "good (exec_inv P ds) (x_read (\<lambda>s. Inr (f s))) (\<lambda>_. True)"
  by (rule good_read) simp

lemma good_get_variable [good_rules]:
  "good (exec_inv P ds) (x_read (\<lambda>s. Inr (get_variable n s))) (\<lambda>r. \<forall>v. r = Some v \<longrightarrow> var_ok v)"
  by (rule good_read) (auto simp: exec_inv_def exec_ok_def vars_ok_def get_variable_def)

section \<open>Parameters\<close>

definition has_decl :: "parameter_declaration list \<Rightarrow> string \<Rightarrow> 'd variable \<Rightarrow> bool" where
  "has_decl ds n v \<longleftrightarrow> var_ok v \<and> (\<exists>ty. decl_type ds n = Some ty \<and> type_accepts ty (v_type v))"

lemma good_optional [good_rules]: "good (exec_inv P ds) (optional n) (\<lambda>r. \<forall>v. r = Some v \<longrightarrow> has_decl ds n v)"
  unfolding optional_def
  by (rule good_read) (auto simp: st_get_parameter_def exec_inv_def bound_def has_decl_def split: option.splits)

lemma good_required [good_rules]: "good (exec_inv P ds) (required n) (has_decl ds n)"
  unfolding required_def
  by (rule good_read) (auto simp: st_get_parameter_def exec_inv_def bound_def has_decl_def split: option.splits)

definition text_type :: "string option \<Rightarrow> bool" where
  "text_type ty \<longleftrightarrow> ty = Some ''identifier'' \<or> ty = Some ''string'' \<or> ty = Some ''string_or_identifier''"

lemma has_decl_string: "has_decl ds n v \<Longrightarrow> text_type (decl_type ds n) \<Longrightarrow> \<exists>x. as_string v = Inr x"
  by (cases "v_value v") (auto simp: has_decl_def var_ok_def typed_defs text_type_def type_accepts_def as_string_def)

lemma has_decl_integer: "has_decl ds n v \<Longrightarrow> decl_type ds n = Some ''integer'' \<Longrightarrow> \<exists>x. as_integer v = Inr x"
  by (rule cast_integer) (auto simp: has_decl_def var_ok_scalar type_accepts_def)

lemma has_decl_address: "has_decl ds n v \<Longrightarrow> decl_type ds n = Some ''address'' \<Longrightarrow> \<exists>x. as_address v = Inr x"
  by (rule cast_address) (auto simp: has_decl_def var_ok_scalar type_accepts_def)

lemma has_decl_list:
  "has_decl ds n v \<Longrightarrow> decl_type ds n = Some ''list'' \<Longrightarrow>
     \<exists>x. as_list v = Inr x \<and> list_all (\<lambda>p. scalar_ok (snd p)) x"
  by (rule cast_list) (auto simp: has_decl_def type_accepts_def)

lemma has_decl_duration: "has_decl ds n v \<Longrightarrow> decl_type ds n = Some ''number'' \<Longrightarrow> \<exists>x. duration E v = Inr x"
  by (cases "v_value v") (auto simp: has_decl_def var_ok_def typed_defs type_accepts_def duration_def)

lemma has_decl_var_ok: "has_decl ds n v \<Longrightarrow> var_ok v"
  by (simp add: has_decl_def)

lemma good_cast: "\<exists>x. r = Inr x \<Longrightarrow> good I (act_lift r) (\<lambda>_. True)"
  by (auto intro: good_lift)

lemma good_required_string [good_rules]:
  "text_type (decl_type ds n) \<Longrightarrow> good (exec_inv P ds) (required_string n) (\<lambda>_. True)"
  unfolding required_string_def
  by (rule good_bind, rule good_required, rule good_cast) (rule has_decl_string)

section \<open>The instructions\<close>

definition quiet :: "('d, 'w, 'a) xact \<Rightarrow> bool" where
  "quiet m \<longleftrightarrow> (\<forall>w. core (x_state (snd (m w))) = core (x_state w) \<and> fst (m w) \<noteq> Inl Bad_cast)"

lemma good_quiet: "quiet m \<Longrightarrow> good (exec_inv P ds) m (\<lambda>_. True)"
  by (auto simp: good_def quiet_def elim: exec_inv_core)

text \<open>What the executor relies on: the callbacks of its connections add messages, data and connections
  to the state and leave the program, its variables and the instruction pointer alone
  (\<^verbatim>\<open>direct_tcp_server_client\<close>, \<^verbatim>\<open>messenger_tcp_server_client\<close> and the two servers do that).\<close>

definition env_ok :: "('d, 'w) sys_env \<Rightarrow> bool" where
  "env_ok E \<longleftrightarrow> (\<forall>e c. quiet (c_process E e c)) \<and> (\<forall>c b. quiet (c_write E c b)) \<and>
     (\<forall>c m. quiet (c_send_message E c m)) \<and> (\<forall>re s. regex_match E re s \<noteq> Inl Bad_cast) \<and>
     (\<forall>s. timespec_from_string E s \<noteq> Inl Bad_cast) \<and> (\<forall>ty a w. fst (c_open E ty a w) \<noteq> Inl Bad_cast)"

lemma env_ok_good:
  assumes "env_ok E"
  shows "good (exec_inv P ds) (c_process E e c) (\<lambda>_. True)" "good (exec_inv P ds) (c_write E cc b) (\<lambda>_. True)"
    "good (exec_inv P ds) (c_send_message E cc m) (\<lambda>_. True)"
  using assms unfolding env_ok_def by (blast intro: good_quiet)+

lemma bind_no_cast: "r \<noteq> Inl Bad_cast \<Longrightarrow> (\<And>x. r = Inr x \<Longrightarrow> f x \<noteq> Inl Bad_cast) \<Longrightarrow> res_bind r f \<noteq> Inl Bad_cast"
  by (cases r) auto

lemma decl_type_Cons [simp]:
  "decl_type [] n = None"
  "decl_type (param m ty r # ds) n = (if n = m then Some ty else decl_type ds n)"
  by (simp_all add: decl_type_def param_def)

lemmas table_defs =
  g_call_params_def g_compare_params_def g_exit_params_def g_goto_params_def g_has_data_params_def
  g_has_message_params_def g_has_type_params_def g_hex_params_def g_hostname_params_def g_if_params_def
  g_kill_params_def g_label_params_def g_listen_params_def g_max_pid_params_def g_now_params_def
  g_print_params_def g_random_params_def g_save_parameter_value_params_def g_send_data_params_def
  g_send_message_params_def g_set_variable_params_def g_show_data_params_def g_sleep_params_def
  g_sort_params_def g_strlen_params_def g_unset_variable_params_def g_verify_data_params_def
  g_verify_message_params_def g_wait_params_def

lemma decl_types [simp]:
  "decl_type g_call_params ''label'' = Some ''identifier''" "decl_type g_compare_params ''expression'' = Some ''integer''"
  "decl_type g_exit_params ''error_message'' = Some ''string''" "decl_type g_exit_params ''timeout'' = Some ''number''"
  "decl_type g_goto_params ''label'' = Some ''identifier''" "decl_type g_has_data_params ''min_size'' = Some ''integer''"
  "decl_type g_has_message_params ''command'' = Some ''identifier''" "decl_type g_has_type_params ''name'' = Some ''identifier''"
  "decl_type g_has_type_params ''type'' = Some ''identifier''" "decl_type g_hex_params ''variable_name'' = Some ''identifier''"
  "decl_type g_hex_params ''value'' = Some ''integer''" "decl_type g_hex_params ''uppercase'' = Some ''integer''"
  "decl_type g_hex_params ''width'' = Some ''integer''" "decl_type g_hostname_params ''variable_name'' = Some ''identifier''"
  "decl_type g_if_params ''variable'' = Some ''identifier''" "decl_type g_if_params ''unordered'' = Some ''identifier''"
  "decl_type g_if_params ''ordered'' = Some ''identifier''" "decl_type g_if_params ''less'' = Some ''identifier''"
  "decl_type g_if_params ''less_or_equal'' = Some ''identifier''" "decl_type g_if_params ''greater'' = Some ''identifier''"
  "decl_type g_if_params ''greater_or_equal'' = Some ''identifier''" "decl_type g_if_params ''equal'' = Some ''identifier''"
  "decl_type g_if_params ''false'' = Some ''identifier''" "decl_type g_if_params ''not_equal'' = Some ''identifier''"
  "decl_type g_if_params ''true'' = Some ''identifier''" "decl_type g_kill_params ''signal'' = Some ''any''"
  "decl_type g_label_params ''name'' = Some ''identifier''" "decl_type g_listen_params ''address'' = Some ''address''"
  "decl_type g_listen_params ''connection_type'' = Some ''identifier''" "decl_type g_max_pid_params ''variable_name'' = Some ''identifier''"
  "decl_type g_now_params ''variable_name'' = Some ''identifier''" "decl_type g_print_params ''message'' = Some ''string''"
  "decl_type g_random_params ''variable_name'' = Some ''identifier''" "decl_type g_random_params ''negative'' = Some ''integer''"
  "decl_type g_save_parameter_value_params ''parameter_name'' = Some ''identifier''" "decl_type g_save_parameter_value_params ''variable_name'' = Some ''identifier''"
  "decl_type g_save_parameter_value_params ''type'' = Some ''identifier''" "decl_type g_send_data_params ''values'' = Some ''array''"
  "decl_type g_send_message_params ''sent_server'' = Some ''string_or_identifier''" "decl_type g_send_message_params ''sent_service'' = Some ''string_or_identifier''"
  "decl_type g_send_message_params ''server'' = Some ''string_or_identifier''" "decl_type g_send_message_params ''service'' = Some ''string_or_identifier''"
  "decl_type g_send_message_params ''command'' = Some ''identifier''" "decl_type g_send_message_params ''parameters'' = Some ''list''"
  "decl_type g_set_variable_params ''name'' = Some ''identifier''" "decl_type g_set_variable_params ''value'' = Some ''any''"
  "decl_type g_set_variable_params ''type'' = Some ''identifier''" "decl_type g_show_data_params ''size'' = Some ''integer''"
  "decl_type g_sleep_params ''seconds'' = Some ''number''" "decl_type g_strlen_params ''variable_name'' = Some ''string_or_identifier''"
  "decl_type g_strlen_params ''string'' = Some ''string''" "decl_type g_unset_variable_params ''name'' = Some ''identifier''"
  "decl_type g_verify_data_params ''values'' = Some ''array''" "decl_type g_verify_message_params ''sent_server'' = Some ''any''"
  "decl_type g_verify_message_params ''sent_service'' = Some ''any''" "decl_type g_verify_message_params ''server'' = Some ''any''"
  "decl_type g_verify_message_params ''service'' = Some ''any''" "decl_type g_verify_message_params ''command'' = Some ''any''"
  "decl_type g_verify_message_params ''required_parameters'' = Some ''list''" "decl_type g_verify_message_params ''optional_parameters'' = Some ''list''"
  "decl_type g_verify_message_params ''forbidden_parameters'' = Some ''list''" "decl_type g_wait_params ''timeout'' = Some ''number''"
  "decl_type g_wait_params ''mode'' = Some ''identifier''"
  by (simp_all add: table_defs)

lemma decl_type_sort: "decl_type g_sort_params n = Some ty \<Longrightarrow> ty = ''string_or_identifier''"
  by (simp add: g_sort_params_def split: if_splits)

lemma good_call: "good (exec_inv P g_call_params) inst_call (\<lambda>_. True)"
  unfolding inst_call_def by (rule good_rules | simp add: text_type_def)+

lemma good_goto: "good (exec_inv P g_goto_params) inst_goto (\<lambda>_. True)"
  unfolding inst_goto_def by (rule good_rules | simp add: text_type_def)+

lemma good_compare: "good (exec_inv P g_compare_params) inst_compare (\<lambda>_. True)"
  unfolding inst_compare_def
  by (rule good_bind, rule good_required, rule good_bind, rule good_cast, erule has_decl_integer)
     (auto split: option.split intro: good_rules)

lemma compare_number_cast: "var_ok v \<Longrightarrow> compare_number E v \<noteq> Inl Bad_cast"
  using cast_integer [of v] cast_floating_point [of v]
  by (auto simp: compare_number_def Let_def dest!: var_ok_scalar)

text \<open>An optional parameter: nothing to do without it, or an action on a value of the declared type.\<close>

lemma good_option:
  "good I m F \<Longrightarrow> (\<And>v. r = Some v \<Longrightarrow> good I (f v) F) \<Longrightarrow> good I (case r of None \<Rightarrow> m | Some v \<Rightarrow> f v) F"
  by (cases r) auto

lemma good_string_of: "has_decl ds n v \<Longrightarrow> text_type (decl_type ds n) \<Longrightarrow> good I (act_lift (as_string v)) (\<lambda>_. True)"
  by (rule good_cast) (rule has_decl_string)

lemma good_integer_of:
  "has_decl ds n v \<Longrightarrow> decl_type ds n = Some ''integer'' \<Longrightarrow> good I (act_lift (as_integer v)) (\<lambda>_. True)"
  by (rule good_cast) (rule has_decl_integer)

lemma good_duration_of:
  "has_decl ds n v \<Longrightarrow> decl_type ds n = Some ''number'' \<Longrightarrow> good I (act_lift (duration E v)) (\<lambda>_. True)"
  by (rule good_cast) (rule has_decl_duration)

lemma good_get_compare [good_rules]: "good I (x_read get_compare) (\<lambda>_. True)"
  by (rule good_read) (simp add: get_compare_def)

lemma good_compare_variable [good_rules]:
  "good (exec_inv P ds) (x_read (\<lambda>s. case get_variable n s of None \<Rightarrow> Inr COMPARE_UNORDERED | Some x \<Rightarrow> compare_number E x))
     (\<lambda>_. True)"
  by (rule good_read)
     (auto simp: exec_inv_def exec_ok_def vars_ok_def get_variable_def compare_number_cast split: option.split)

lemma good_if_compare: "good (exec_inv P g_if_params) (if_compare E) (\<lambda>_. True)"
  unfolding if_compare_def
  by (rule good_bind, rule good_optional, rule good_option, rule good_rules)
     (rule good_bind, rule good_string_of, (simp add: text_type_def good_rules)+)

lemma good_first_parameter:
  "good (exec_inv P ds) (first_parameter ns) (\<lambda>r. \<forall>v. r = Some v \<longrightarrow> (\<exists>n \<in> set ns. has_decl ds n v))"
proof (induction ns)
  case Nil
  show ?case by (auto intro: good_return)
next
  case (Cons n ns)
  show ?case
    by (simp, rule good_bind, rule good_optional)
       (auto split: option.split intro: good_return good_weaken [OF Cons.IH])
qed

lemma if_labels_text: "n \<in> set (if_labels c) \<Longrightarrow> text_type (decl_type g_if_params n)"
  by (cases c) (auto simp: if_labels_def text_type_def)

lemma good_cond [good_rules]:
  "(b \<Longrightarrow> good I m F) \<Longrightarrow> (\<not> b \<Longrightarrow> good I n F) \<Longrightarrow> good I (if b then m else n) F"
  by simp

lemma good_if: "good (exec_inv P g_if_params) (inst_if E) (\<lambda>_. True)"
  unfolding inst_if_def
  by (rule good_bind [OF good_if_compare], rule good_cond, rule good_throw, simp,
      rule good_bind [OF good_first_parameter], rule good_option, rule good_return, simp,
      rule good_bind [OF good_cast])
     (auto intro: has_decl_string if_labels_text good_jump)

lemma good_set_variable_inst: "good (exec_inv P g_set_variable_params) (inst_set_variable E) (\<lambda>_. True)"
proof -
  have ty: "good I (act_lift (case r of None \<Rightarrow> Inr [] | Some v \<Rightarrow> as_string v)) (\<lambda>_. True)"
    if "\<forall>v. r = Some v \<longrightarrow> has_decl g_set_variable_params ''type'' v" for r :: "'a variable option"
      and I :: "('a, 'b) xworld \<Rightarrow> bool"
    using that by (cases r) (auto intro!: good_cast has_decl_string [where ds = g_set_variable_params] simp: text_type_def)
  have str: "good I (act_lift (as_string (clone n v))) (\<lambda>_. True)"
    if "var_ok v" "v_type (clone n v) = ''string''" for n and v :: "'a variable" and I :: "('a, 'b) xworld \<Rightarrow> bool"
    using that by (intro good_cast cast_string) (auto intro: var_ok_scalar var_ok_clone)
  show ?thesis
    unfolding inst_set_variable_def Let_def
    by (rule good_bind, rule good_required, rule good_bind, rule good_required, rule good_bind, rule good_optional,
        rule good_bind, erule ty, rule good_bind, erule good_string_of, simp add: text_type_def)
       (auto dest!: has_decl_var_ok intro!: good_rules var_ok_clone good_option str
         intro: good_bind [OF str])
qed

lemma good_unset: "good (exec_inv P g_unset_variable_params) inst_unset_variable (\<lambda>_. True)"
  unfolding inst_unset_variable_def by (rule good_rules | simp add: text_type_def)+

lemma good_has_type: "good (exec_inv P g_has_type_params) inst_has_type (\<lambda>_. True)"
  unfolding inst_has_type_def
  by (rule good_bind, rule good_required_string, simp add: text_type_def, rule good_bind, rule good_get_variable,
      rule good_option, rule good_rules, rule good_bind, rule good_required_string, simp add: text_type_def, rule good_rules)

lemma good_strlen: "good (exec_inv P g_strlen_params) inst_strlen (\<lambda>_. True)"
  unfolding inst_strlen_def
  by (rule good_bind, rule good_required, rule good_bind, rule good_required_string, simp add: text_type_def,
      rule good_bind, erule good_string_of, simp add: text_type_def, rule good_rules, simp)

lemma good_flag:
  "(\<And>v. r = Some v \<Longrightarrow> has_decl ds n v) \<Longrightarrow> decl_type ds n = Some ''integer'' \<Longrightarrow>
     good I (act_lift (case r of None \<Rightarrow> Inr b | Some v \<Rightarrow> res_bind (as_integer v) (\<lambda>i. Inr (i \<noteq> 0)))) (\<lambda>_. True)"
  by (cases r) (auto intro!: good_cast dest: has_decl_integer)

lemma good_hex: "good (exec_inv P g_hex_params) (inst_hex E) (\<lambda>_. True)"
  unfolding inst_hex_def Let_def
  by (rule good_bind, rule good_required_string, simp add: text_type_def, rule good_bind, rule good_required,
      rule good_bind, erule good_integer_of, simp, rule good_bind, rule good_optional, rule good_bind,
      rule good_flag [where n = "''uppercase''" and ds = g_hex_params], blast, simp,
      rule good_bind, rule good_optional, rule good_rules, simp)

lemma good_hostname: "good (exec_inv P g_hostname_params) (inst_hostname E) (\<lambda>_. True)"
  unfolding inst_hostname_def by (rule good_rules | simp add: text_type_def)+

lemma good_max_pid: "good (exec_inv P g_max_pid_params) (inst_max_pid E) (\<lambda>_. True)"
  unfolding inst_max_pid_def by (rule good_rules | simp add: text_type_def)+

lemma good_now: "good (exec_inv P g_now_params) (inst_now E) (\<lambda>_. True)"
  unfolding inst_now_def by (rule good_rules | simp add: text_type_def)+

lemma good_random: "good (exec_inv P g_random_params) (inst_random E) (\<lambda>_. True)"
  unfolding inst_random_def Let_def
  by (rule good_bind, rule good_required_string, simp add: text_type_def, rule good_bind, rule good_optional,
      rule good_bind, rule good_flag [where n = "''negative''" and ds = g_random_params], blast, simp)
     (rule good_rules | simp)+

lemma good_has_data: "good (exec_inv P g_has_data_params) inst_has_data (\<lambda>_. True)"
  unfolding inst_has_data_def
  by (rule good_bind, rule good_get, rule good_cond, rule good_rules, rule good_bind, rule good_optional,
      rule good_option, rule good_rules, rule good_bind, rule good_integer_of [where ds = g_has_data_params], blast,
      simp, rule good_rules)

lemma good_has_message: "good (exec_inv P g_has_message_params) inst_has_message (\<lambda>_. True)"
  unfolding inst_has_message_def
  by (rule good_bind, rule good_get, rule good_cond, rule good_rules, rule good_bind, rule good_optional,
      rule good_option, rule good_rules, rule good_bind, rule good_string_of [where ds = g_has_message_params], blast,
      simp add: text_type_def, rule good_rules)

lemma good_print: "good (exec_inv P g_print_params) (inst_print E) (\<lambda>_. True)"
  unfolding inst_print_def by (rule good_rules | simp add: text_type_def)+

lemma good_sleep: "good (exec_inv P g_sleep_params) (inst_sleep E) (\<lambda>_. True)"
  unfolding inst_sleep_def
  by (rule good_bind, rule good_required, rule good_bind, erule good_duration_of, simp)
     (rule good_rules | simp)+

lemma good_show_data: "good (exec_inv P g_show_data_params) (inst_show_data E) (\<lambda>_. True)"
  unfolding inst_show_data_def
  by (rule good_bind, rule good_required, rule good_bind, erule good_integer_of, simp)
     (rule good_rules | simp)+

text \<open>The messages never report a wrong cast.\<close>

lemma verify_no_cast: "verify_message_name s e l \<noteq> Inl Bad_cast"
  using verify_message_name_fails by fastforce

lemma message_no_cast:
  "has_parameter m n \<noteq> Inl Bad_cast" "get_parameter m n \<noteq> Inl Bad_cast" "add_parameter m n v \<noteq> Inl Bad_cast"
  "add_integer_parameter m n i \<noteq> Inl Bad_cast" "get_integer_parameter f m n \<noteq> Inl Bad_cast"
  "set_command m n \<noteq> Inl Bad_cast"
  by (auto simp: has_parameter_def get_parameter_def add_parameter_def add_integer_parameter_def
      get_integer_parameter_def set_command_def verify_no_cast res_bind_eq_Inl split: option.splits if_splits)

lemma setter_shape_no_cast:
  "(if a then res_bind (if b then verify_message_name s e l else Inr ()) (\<lambda>_. Inr y) else Inr x) \<noteq> Inl Bad_cast"
  "(if a then res_bind (verify_message_name s e l) (\<lambda>_. Inr y) else Inr x) \<noteq> Inl Bad_cast"
  by (simp_all add: res_bind_eq_Inl verify_no_cast)

lemma setter_no_cast:
  "set_sent_from_server m s \<noteq> Inl Bad_cast" "set_sent_from_service m s \<noteq> Inl Bad_cast"
  "set_server m s \<noteq> Inl Bad_cast" "set_service m s \<noteq> Inl Bad_cast"
  unfolding set_sent_from_server_def set_sent_from_service_def set_server_def set_service_def
  by (rule setter_shape_no_cast)+

lemma message_field_no_cast: "message_field m n \<noteq> Inl Bad_cast"
  unfolding message_field_def by (rule bind_no_cast) (auto simp: message_no_cast)

lemma good_save: 
  assumes "env_ok E"
  shows "good (exec_inv P g_save_parameter_value_params) (inst_save_parameter_value E) (\<lambda>_. True)"
proof -
  have ty: "good I (act_lift (case r of None \<Rightarrow> Inr ''string'' | Some v \<Rightarrow> as_string v)) (\<lambda>_. True)"
    if "\<forall>v. r = Some v \<longrightarrow> has_decl g_save_parameter_value_params ''type'' v" for r :: "'a variable option"
      and I :: "('a, 'b) xworld \<Rightarrow> bool"
    using that
    by (cases r) (auto intro!: good_cast has_decl_string [where ds = g_save_parameter_value_params] simp: text_type_def)
  have f: "good I (act_lift (message_field m n)) (\<lambda>_. True)" for I :: "('a, 'b) xworld \<Rightarrow> bool" and m n
    by (rule good_lift) (auto simp: message_field_no_cast)
  have t: "good I (act_lift (timespec_from_string E v)) (\<lambda>_. True)" for I :: "('a, 'b) xworld \<Rightarrow> bool" and v
    using assms by (intro good_lift) (auto simp: env_ok_def)
  show ?thesis
    unfolding inst_save_parameter_value_def
    by (rule good_bind, rule good_get, rule good_bind, rule good_required_string, simp add: text_type_def,
        rule good_bind, rule f, rule good_bind, rule good_required_string, simp add: text_type_def,
        rule good_bind, rule good_optional, rule good_bind, erule ty)
       (intro good_cond good_option good_throw good_set_variable good_bind [OF t]; simp)
qed

lemma good_set_from:
  assumes "text_type (decl_type ds n)" and "\<And>m s. setter m s \<noteq> Inl Bad_cast"
  shows "good (exec_inv P ds) (set_from n setter msg) (\<lambda>_. True)"
  unfolding set_from_def
  by (rule good_bind, rule good_optional, rule good_option, rule good_rules, simp, rule good_lift)
     (use assms in \<open>auto dest: has_decl_string intro!: bind_no_cast\<close>)

lemma add_list_parameter_no_cast: "scalar_ok v \<Longrightarrow> add_list_parameter E v m \<noteq> Inl Bad_cast"
  using cast_integer [of v] cast_string [of v] cast_timestamp [of v]
  by (auto simp: add_list_parameter_def message_no_cast)

lemma add_list_parameters_no_cast:
  "list_all (\<lambda>p. scalar_ok (snd p)) vs \<Longrightarrow> add_list_parameters E vs m \<noteq> Inl Bad_cast"
  by (induction E vs m rule: add_list_parameters.induct)
     (auto simp: add_list_parameter_no_cast res_bind_eq_Inl)

lemma good_build_message: "good (exec_inv P g_send_message_params) (build_message E) (\<lambda>_. True)"
  unfolding build_message_def
  by (rule good_bind, rule good_set_from, simp add: text_type_def, rule setter_no_cast,
      rule good_bind, rule good_set_from, simp add: text_type_def, rule setter_no_cast,
      rule good_bind, rule good_set_from, simp add: text_type_def, rule setter_no_cast,
      rule good_bind, rule good_set_from, simp add: text_type_def, rule setter_no_cast,
      rule good_bind, rule good_required_string, simp add: text_type_def,
      rule good_bind, rule good_lift, rule message_no_cast, rule TrueI,
      rule good_bind, rule good_optional, rule good_option, rule good_rules, simp, rule good_lift)
     (auto dest!: has_decl_list simp: add_list_parameters_no_cast)

lemma good_list_head:
  "good I m F \<Longrightarrow> (\<And>x xs. r = x # xs \<Longrightarrow> good I (f x xs) F) \<Longrightarrow> good I (case r of [] \<Rightarrow> m | x # xs \<Rightarrow> f x xs) F"
  by (cases r) auto

lemma good_send_message:
  assumes "env_ok E"
  shows "good (exec_inv P g_send_message_params) (inst_send_message E) (\<lambda>_. True)"
  unfolding inst_send_message_def
  by (rule good_bind, rule good_get, rule good_list_head, rule good_rules, simp, rule good_cond, rule good_rules, simp,
      rule good_bind, rule good_build_message, rule env_ok_good [OF assms])

lemma res_cond_no_cast:
  "(b \<Longrightarrow> r \<noteq> Inl Bad_cast) \<Longrightarrow> (\<not> b \<Longrightarrow> q \<noteq> Inl Bad_cast) \<Longrightarrow> (if b then r else q) \<noteq> Inl Bad_cast"
  by simp

lemma good_check_value:
  assumes "env_ok E" and "decl_type ds n = Some ''any''"
  shows "good (exec_inv P ds) (check_value E n v) (\<lambda>_. True)"
proof -
  have re: "regex_match E r s \<noteq> Inl Bad_cast" for r s using assms(1) by (simp add: env_ok_def)
  have "good I (act_lift
           (if v_type x = ''string'' \<or> v_type x = ''identifier'' then
              res_bind (as_string x) (\<lambda>s. if s \<noteq> v then Inl Runtime_error else Inr ())
            else if v_type x = ''regex'' then
              res_bind (as_regex x) (\<lambda>re. res_bind (regex_match E re v)
                (\<lambda>m. if m then Inr () else Inl Runtime_error))
            else Inl Runtime_error)) (\<lambda>_. True)" if "has_decl ds n x" for x and I :: "('a, 'b) xworld \<Rightarrow> bool"
  proof (rule good_lift, intro res_cond_no_cast bind_no_cast re)
    have ok: "scalar_ok x" using that by (simp add: has_decl_def var_ok_scalar)
    show "as_string x \<noteq> Inl Bad_cast" if "v_type x = ''string'' \<or> v_type x = ''identifier''"
      using cast_string [OF ok that] by auto
    show "as_regex x \<noteq> Inl Bad_cast" if "v_type x = ''regex''"
      using cast_regex [OF ok that] by auto
  qed simp_all
  then show ?thesis
    unfolding check_value_def
    by (intro good_bind [OF good_optional] good_option good_return) blast+
qed

lemma check_list_item_no_cast:
  assumes "env_ok E" and "scalar_ok v"
  shows "check_list_item E msg opt forbidden v \<noteq> Inl Bad_cast"
proof -
  have ts: "get_timespec_parameter (timespec_from_string E) msg n \<noteq> Inl Bad_cast" for n
    using assms(1) by (auto simp: get_timespec_parameter_def env_ok_def verify_no_cast res_bind_eq_Inl split: option.splits)
  have re: "regex_match E r s \<noteq> Inl Bad_cast" for r s using assms(1) by (simp add: env_ok_def)
  have as: "v_type v = ''integer'' \<Longrightarrow> as_integer v \<noteq> Inl Bad_cast"
    "v_type v = ''string'' \<or> v_type v = ''identifier'' \<Longrightarrow> as_string v \<noteq> Inl Bad_cast"
    "v_type v = ''regex'' \<Longrightarrow> as_regex v \<noteq> Inl Bad_cast" "v_type v = ''timestamp'' \<Longrightarrow> as_timestamp v \<noteq> Inl Bad_cast"
    using cast_integer [OF assms(2)] cast_string [OF assms(2)] cast_regex [OF assms(2)] cast_timestamp [OF assms(2)]
    by fastforce+
  show ?thesis
    unfolding check_list_item_def Let_def
    by (intro res_cond_no_cast bind_no_cast re ts as message_no_cast; (simp; fail)?; assumption?)
qed

lemma res_map_no_cast: "(\<And>x. x \<in> set xs \<Longrightarrow> f x \<noteq> Inl Bad_cast) \<Longrightarrow> res_map f xs \<noteq> Inl Bad_cast"
  by (induction xs) (auto simp: res_bind_eq_Inl)

lemma good_check_list:
  assumes "env_ok E" and "decl_type ds n = Some ''list''"
  shows "good (exec_inv P ds) (check_list E msg n opt forbidden) (\<lambda>_. True)"
proof -
  have "good I (act_bind (act_lift (as_list x)) (\<lambda>items.
           act_lift (res_bind (res_map (\<lambda>(n, v). check_list_item E msg opt forbidden v) items) (\<lambda>_. Inr ())))) (\<lambda>_. True)"
    if "has_decl ds n x" for x and I :: "('a, 'b) xworld \<Rightarrow> bool"
    using has_decl_list [OF that assms(2)]
    by (intro good_bind [where F = "list_all (\<lambda>p. scalar_ok (snd p))"] good_lift bind_no_cast res_map_no_cast)
       (auto simp: list_all_iff check_list_item_no_cast [OF assms(1)])
  then show ?thesis
    unfolding check_list_def
    by (intro good_bind [OF good_optional] good_option good_return) auto
qed

lemma good_verify_message:
  assumes "env_ok E"
  shows "good (exec_inv P g_verify_message_params) (inst_verify_message E) (\<lambda>_. True)"
  unfolding inst_verify_message_def
  by (intro good_bind [OF good_get] good_bind [OF good_check_value [OF assms]] good_bind [OF good_check_list [OF assms]]
      good_check_list assms) simp_all

lemma good_show_message: "good (exec_inv P ds) (inst_show_message E) (\<lambda>_. True)"
proof -
  have "fst (to_string rep m) \<noteq> Inl Bad_cast" for rep and m :: message
    by (simp add: to_string_def Let_def)
  then show ?thesis
    unfolding inst_show_message_def by (intro good_bind [OF good_read] good_rules) auto
qed

lemma kill_signal_no_cast: "has_decl g_kill_params ''signal'' v \<Longrightarrow> kill_signal E v \<noteq> Inl Bad_cast"
  using cast_integer [of v] cast_string [of v]
  unfolding kill_signal_def has_decl_def
  by (intro bind_no_cast res_cond_no_cast) (auto dest!: var_ok_scalar)

lemma good_kill: "good (exec_inv P g_kill_params) (inst_kill E) (\<lambda>_. True)"
proof -
  have sig: "good I (act_lift (case p of None \<Rightarrow> Inr 2 | Some v \<Rightarrow> kill_signal E v)) (\<lambda>_. True)"
    if "\<forall>v. p = Some v \<longrightarrow> has_decl g_kill_params ''signal'' v" for p and I :: "('a, 'b) xworld \<Rightarrow> bool"
    using that by (cases p) (simp_all add: good_lift kill_signal_no_cast)
  show ?thesis
    unfolding inst_kill_def
    by (rule good_bind, rule good_optional, rule good_bind, erule sig)
       (intro good_bind [OF good_system] good_cond good_rules; simp)
qed

lemma good_address_of:
  "has_decl ds n v \<Longrightarrow> decl_type ds n = Some ''address'' \<Longrightarrow> good I (act_lift (as_address v)) (\<lambda>_. True)"
  by (rule good_cast) (rule has_decl_address)

lemma good_open:
  assumes "env_ok E"
  shows "good (exec_inv P ds) (act_bind (x_system (c_open E ty a)) (\<lambda>r. act_bind (act_lift r) (\<lambda>_. x_change (st_listen_on a))))
    (\<lambda>_. True)"
proof (rule good_bind [where F = "\<lambda>r. r \<noteq> Inl Bad_cast"])
  show "good (exec_inv P ds) (x_system (c_open E ty a)) (\<lambda>r. r \<noteq> Inl Bad_cast)"
    using assms by (auto simp: good_def x_system_def env_ok_def split: prod.split) (metis fst_conv)
next
  fix r :: "unit result"
  assume "r \<noteq> Inl Bad_cast"
  then show "good (exec_inv P ds) (act_bind (act_lift r) (\<lambda>_. x_change (st_listen_on a))) (\<lambda>_. True)"
    by (intro good_bind [where F = "\<lambda>_. True"] good_lift good_listen_on) simp_all
qed

lemma good_listen:
  assumes "env_ok E"
  shows "good (exec_inv P g_listen_params) (inst_listen E) (\<lambda>_. True)"
  unfolding inst_listen_def
  by (rule good_bind, rule good_quiet_updates, rule good_bind, rule good_optional,
      rule good_bind, rule good_option, rule good_return, rule TrueI,
      rule good_bind, rule good_string_of [where ds = g_listen_params], blast, simp add: text_type_def,
      rule good_cond, rule good_quiet_updates, rule good_cond, rule good_quiet_updates, rule good_throw, simp,
      rule good_bind, rule good_required, rule good_bind, erule good_address_of, simp,
      rule good_bind, rule good_read [where F = "\<lambda>_. True"], simp, rule good_open [OF assms])

lemma revents_of_no_cast: "revents_of pos revs c \<noteq> Inl Bad_cast"
  by (simp add: revents_of_def Let_def)

lemma good_exit_scan:
  assumes "env_ok E"
  shows "good (exec_inv P ds) (exit_scan E pos revs cs) (\<lambda>_. True)"
proof (induction cs)
  case (Cons c cs)
  then show ?case
    unfolding exit_scan.simps
    by (intro good_bind [where F = "\<lambda>_. True", OF good_lift] good_cond good_return revents_of_no_cast
        good_bind [OF env_ok_good(1) [OF assms]]) simp_all
qed (simp add: good_return)

lemma good_exit_poll:
  assumes "env_ok E"
  shows "good (exec_inv P ds) (exit_poll E t) (\<lambda>_. True)"
proof -
  have "good (exec_inv P ds) (act_bind (x_system (sys_ppoll E fds t)) (\<lambda>r.
      case r of Inl e \<Rightarrow> act_throw Runtime_error | Inr revs \<Rightarrow> exit_scan E pos revs conns)) (\<lambda>_. True)" for fds pos conns
    by (rule good_bind [OF good_system]) (auto split: sum.split intro: good_throw good_exit_scan assms)
  then show ?thesis
    unfolding good_def exit_poll_def Let_def by (auto split: prod.split)
qed

lemma good_exit:
  assumes "env_ok E"
  shows "good (exec_inv P g_exit_params) (inst_exit E) (\<lambda>_. True)"
  unfolding inst_exit_def
  by (rule good_bind, rule good_set_exit_code, rule good_bind, rule good_optional, rule good_bind, rule good_optional,
      rule good_bind, rule good_option, rule good_option, rule good_return, rule TrueI,
      rule good_bind, rule good_duration_of [where ds = g_exit_params], blast, simp,
      rule good_bind, rule good_exit_poll [OF assms], rule good_set_exit_code,
      rule good_cond, rule good_throw, simp, rule good_bind, rule good_string_of [where ds = g_exit_params], blast,
      simp add: text_type_def, rule good_bind, rule good_output, rule good_set_exit_code, rule good_set_ip_end)

lemma good_input:
  assumes "env_ok E"
  shows "good (exec_inv P ds) (c_input E c) (\<lambda>_. True)"
  using env_ok_good(1) [OF assms] good_when [OF env_ok_good(1) [OF assms]]
  unfolding good_def c_input_def by auto

lemma good_revents:
  assumes "env_ok E"
  shows "good (exec_inv P ds) (c_revents E c r) (\<lambda>_. True)"
  unfolding c_revents_def by (intro good_bind [where F = "\<lambda>_. True"] good_when good_input [OF assms] env_ok_good(1) [OF assms]) simp_all

lemma good_wait_scan:
  assumes "env_ok E"
  shows "good (exec_inv P ds) (wait_scan E pos revs to cs) (\<lambda>_. True)"
proof (induction cs arbitrary: to)
  case (Cons c cs)
  then show ?case
    by (auto intro!: good_bind [OF good_lift] good_bind [OF good_revents [OF assms]] good_cond simp: revents_of_no_cast)
qed (simp add: good_return)

lemma good_ppoll_retry: "good (exec_inv P ds) (ppoll_retry n E fds t) (\<lambda>_. True)"
proof (induction n)
  case (Suc n)
  then show ?case
    by (auto intro!: good_bind [OF good_system] good_rules split: sum.split)
qed (simp add: good_throw)

lemma good_wait_poll:
  assumes "env_ok E"
  shows "good (exec_inv P ds) (wait_poll fuel E t mode) (\<lambda>_. True)"
proof -
  have "good (exec_inv P ds) (act_bind (ppoll_retry fuel E fds t) (\<lambda>revs.
           act_bind (wait_scan E pos revs True conns) (\<lambda>timed_out.
             if timed_out \<and> mode \<noteq> MODE_TIMEOUT then act_throw Runtime_error
             else act_return (length fds)))) (\<lambda>_. True)" for fds pos conns
    by (intro good_bind [OF good_ppoll_retry] good_bind [OF good_wait_scan [OF assms]] good_cond good_rules) simp_all
  then show ?thesis
    unfolding good_def wait_poll_def Let_def by (auto split: prod.split)
qed

lemma good_wait_loop:
  assumes "env_ok E"
  shows "good (exec_inv P ds) (wait_loop n fuel E t mode) (\<lambda>_. True)"
proof (induction n)
  case (Suc n)
  then show ?case
    by (auto intro!: good_bind [OF good_wait_poll [OF assms]] good_rules)
qed (simp add: good_throw)

lemma wait_mode_no_cast: "wait_mode_of m \<noteq> Inl Bad_cast"
  unfolding wait_mode_of_def by (intro res_cond_no_cast) simp_all

lemma good_wait:
  assumes "env_ok E"
  shows "good (exec_inv P g_wait_params) (inst_wait fuel E) (\<lambda>_. True)"
proof -
  have mode: "good (exec_inv P g_wait_params)
      (act_lift (case p of None \<Rightarrow> Inr MODE_WAIT | Some m \<Rightarrow> res_bind (as_string m) wait_mode_of) :: ('a, 'b, wait_mode) xact)
      (\<lambda>_. True)" if "\<forall>v. p = Some v \<longrightarrow> has_decl g_wait_params ''mode'' v" for p :: "'a variable option"
    using that
    by (cases p) (auto intro!: good_lift bind_no_cast dest!: has_decl_string simp: text_type_def wait_mode_no_cast)
  show ?thesis
    unfolding inst_wait_def
    by (rule good_bind, rule good_read [where F = "\<lambda>_. True"], simp, rule good_bind, rule good_required,
        rule good_bind, erule good_duration_of, simp, rule good_bind, rule good_optional, rule good_bind, erule mode,
        rule good_wait_loop [OF assms])
qed

lemma good_sort_array:
  "list_all (\<lambda>nv. var_ok (snd nv) \<and> v_type (snd nv) = ty) arr \<Longrightarrow>
     good (exec_inv P g_sort_params) (sort_array n i arr ty)
       (\<lambda>(arr', ty'). list_all (\<lambda>nv. var_ok (snd nv) \<and> v_type (snd nv) = ty') arr')"
proof (induction n arbitrary: i arr ty)
  case (Suc n)
  have str: "good I (act_lift (as_string v)) (\<lambda>_. True)"
    if "has_decl g_sort_params m v" for m and v :: "'a variable" and I :: "('a, 'b) xworld \<Rightarrow> bool"
    using that decl_type_sort
    by (intro good_string_of [OF that]) (auto simp: has_decl_def text_type_def)
  have nil: "arr = []" if "ty = []"
    using Suc.prems that by (cases arr) (auto dest!: var_ok_scalar simp: typed_defs split: var_value.splits)
  show ?case
    unfolding sort_array.simps
    by (rule good_bind, rule good_optional, rule good_option, rule good_return, simp add: Suc.prems,
        rule good_bind, rule str, blast, rule good_bind, rule good_get_variable,
        rule good_option, rule good_throw, simp)
       (intro good_cond good_throw Suc.IH; use Suc.prems nil in auto)
qed (simp add: good_throw)

lemma sort_values_ok:
  assumes "list_all (\<lambda>v. var_ok v \<and> v_type v = ty) vars" and "sortable ty"
  shows "\<exists>ks. sort_values E ty vars = Inr ks \<and> list_all (\<lambda>k. ty \<in> set (types_of k)) ks"
proof -
  have ok: "\<exists>ys. res_map f vars = Inr ys" if "\<And>v. scalar_ok v \<Longrightarrow> v_type v = ty \<Longrightarrow> \<exists>x. f v = Inr x" for f :: "'a variable \<Rightarrow> 'c result"
    using assms(1) by (induction vars) (auto dest!: var_ok_scalar that)
  consider "ty = ''string''" | "ty = ''integer''" | "ty = ''floating_point''"
    using assms(2) by (auto simp: sortable_def)
  then show ?thesis
  proof cases
    case 1
    then obtain ys where "res_map as_string vars = Inr ys" using ok [of as_string] cast_string by blast
    with 1 show ?thesis by (auto simp: sort_values_def types_of_def list_all_iff)
  next
    case 2
    then obtain ys where "res_map as_integer vars = Inr ys" using ok [of as_integer] cast_integer by blast
    with 2 show ?thesis by (auto simp: sort_values_def types_of_def list_all_iff)
  next
    case 3
    then obtain ys where "res_map as_floating_point vars = Inr ys"
      using ok [of as_floating_point] cast_floating_point by blast
    with 3 show ?thesis by (auto simp: sort_values_def types_of_def list_all_iff)
  qed
qed

lemma good_write_back:
  "list_all (\<lambda>nv. v_type (snd nv) = ty) arr \<Longrightarrow> list_all (\<lambda>k. ty \<in> set (types_of k)) ks \<Longrightarrow> sortable ty \<Longrightarrow>
     good (exec_inv P ds) (write_back arr ks) (\<lambda>_. True)"
proof (induction arr ks rule: write_back.induct)
  case (3 nv nvs k ks)
  have "var_ok (Variable (v_name (snd nv)) (v_type (snd nv)) k)"
    using "3.prems" by (auto simp: var_ok_def scalar_ok_def types_of_def sortable_def split: var_value.splits)
  then have "good (exec_inv P ds) (x_update (assign_value nv k)) (\<lambda>_. True)"
    by (intro good_update) (simp add: exec_inv_def assign_value_def exec_ok_put_variable)
  then show ?case using 3 by (auto intro: good_bind)
qed (simp_all add: good_return good_throw)

lemma good_sort: "good (exec_inv P g_sort_params) (inst_sort E) (\<lambda>_. True)"
proof -
  let ?F = "\<lambda>(arr, ty). list_all (\<lambda>nv. var_ok (snd nv) \<and> v_type (snd nv) = ty) arr"
  have arr: "good (exec_inv P g_sort_params) (\<lambda>w. sort_array (Suc (length (st_parameters (x_state w)))) 1 [] [] w) ?F"
    using good_sort_array [of "[]" "[]"] unfolding good_def by (simp del: sort_array.simps) blast
  have "good (exec_inv P g_sort_params)
      (if sortable ty then act_bind (act_lift (sort_values E ty (map snd arr))) (write_back arr) else act_return ()) (\<lambda>_. True)"
    if "?F (arr, ty)" for arr ty
  proof (rule good_cond)
    assume "sortable ty"
    moreover from that have "list_all (\<lambda>v. var_ok v \<and> v_type v = ty) (map snd arr)"
      by (simp add: list.pred_map comp_def)
    ultimately obtain ks where "sort_values E ty (map snd arr) = Inr ks" and "list_all (\<lambda>k. ty \<in> set (types_of k)) ks"
      using sort_values_ok by blast
    with that \<open>sortable ty\<close>
    show "good (exec_inv P g_sort_params) (act_bind (act_lift (sort_values E ty (map snd arr))) (write_back arr)) (\<lambda>_. True)"
      by (intro good_bind [where F = "\<lambda>x. x = ks"] good_lift) (auto intro!: good_write_back simp: list_all_iff)
  qed (rule good_return, simp)
  then show ?thesis
    unfolding inst_sort_def by (intro good_bind [OF arr]) auto
qed

section \<open>Every instruction\<close>

definition unchecked_items :: "string \<Rightarrow> bool" where
  "unchecked_items name \<longleftrightarrow> name = ''send_data'' \<or> name = ''verify_data''"

text \<open>The two instructions that read the items of an array as integers still keep the invariant.\<close>

lemma good_keeps: "good I m F \<Longrightarrow> keeps I m"
  by (simp add: good_def keeps_def)

lemma keeps_send_data:
  assumes "env_ok E"
  shows "keeps (exec_inv P ds) (inst_send_data E)"
  unfolding inst_send_data_def
  by (rule keeps_bind, rule good_keeps [OF good_get])
     (auto split: list.split intro!: keeps_intros good_keeps [OF good_required] good_keeps [OF env_ok_good(2) [OF assms]])

lemma keeps_read_data:
  "keeps (exec_inv P ds) (\<lambda>w. case read_data n (x_state w) of (r, s) \<Rightarrow> (Inr r, w\<lparr>x_state := s\<rparr>))"
proof (rule keepsI)
  fix w :: "('a, 'b) xworld"
  assume "exec_inv P ds w"
  moreover have "core (snd (read_data n (x_state w))) = core (x_state w)"
    by (auto simp: read_data_def core_def split: prod.split)
  ultimately show "exec_inv P ds (snd (case read_data n (x_state w) of (r, s) \<Rightarrow> (Inr r, w\<lparr>x_state := s\<rparr>)))"
    by (auto elim: exec_inv_core split: prod.split)
qed

lemma keeps_verify_data: "keeps (exec_inv P ds) inst_verify_data"
  unfolding inst_verify_data_def
  by (auto intro!: keeps_intros keeps_read_data good_keeps [OF good_required] split: option.split)

lemmas good_instructions = good_call good_goto good_compare good_if good_set_variable_inst good_unset good_has_type
  good_strlen good_hex good_hostname good_max_pid good_now good_random good_has_data good_has_message good_print
  good_sleep good_show_data good_show_message good_kill good_sort

lemma inst_func_ok:
  assumes E: "env_ok E" and ds: "get_instruction name = Some ds"
  shows "keeps (exec_inv P ds) (inst_func fuel E name)"
    and "\<not> unchecked_items name \<Longrightarrow> good (exec_inv P ds) (inst_func fuel E name) (\<lambda>_. True)"
proof -
  have "\<not> unchecked_items name \<longrightarrow> good (exec_inv P ds) (inst_func fuel E name) (\<lambda>_. True)"
    and "unchecked_items name \<longrightarrow> keeps (exec_inv P ds) (inst_func fuel E name)"
    using ds unfolding get_instruction_def
    by (auto simp: g_instructions_def inst_func_def unchecked_items_def split: if_split_asm
        simp: good_instructions good_save [OF E] good_send_message [OF E] good_verify_message [OF E] good_listen [OF E]
          good_exit [OF E] good_wait [OF E] keeps_send_data [OF E] keeps_verify_data
          inst_clear_data_def inst_clear_message_def inst_disconnect_def inst_label_def inst_run_def inst_return_def
        intro: good_rules)
  then show "keeps (exec_inv P ds) (inst_func fuel E name)"
    and "\<not> unchecked_items name \<Longrightarrow> good (exec_inv P ds) (inst_func fuel E name) (\<lambda>_. True)"
    using good_keeps by blast+
qed

section \<open>Binding the parameters\<close>

lemma variable_text_no_cast: "vars_ok (st_variables st) \<Longrightarrow> variable_text E st n \<noteq> Inl Bad_cast"
proof -
  assume ok: "vars_ok (st_variables st)"
  have "scalar_ok v" if "get_variable n st = Some v" for v
    using ok that by (simp add: vars_ok_def get_variable_def var_ok_scalar)
  then show ?thesis
    using cast_string cast_integer cast_floating_point cast_timestamp cast_address
    unfolding variable_text_def
    by (auto split: option.split simp: res_bind_eq_Inl) fastforce+
qed

lemma replace_variables_no_cast:
  assumes "vars_ok (st_variables st)"
  shows "replace_variables E st s \<noteq> Inl Bad_cast"
proof (induction s rule: length_induct)
  case (1 s)
  have IH: "replace_variables E st x \<noteq> Inl Bad_cast" if "length x < length s" for x
    using "1.IH" that by blast
  show ?case
  proof (cases "dropWhile (\<lambda>c. c \<noteq> CHR ''$'') s")
    case Nil
    show ?thesis by (subst replace_variables.simps, subst Nil) (simp add: Let_def)
  next
    case (Cons d rest)
    then have len: "length rest < length s" by (rule length_dropWhile_Cons)
    show ?thesis
    proof (cases rest)
      case Nil
      then show ?thesis using Cons by (subst replace_variables.simps) (simp add: Let_def)
    next
      case (Cons c rest')
      have more: "length ys < length s" if "dropWhile P rest' = y # ys" for P y ys
        using length_dropWhile_Cons [OF that] len Cons by simp
      show ?thesis
        using \<open>dropWhile _ s = d # rest\<close> len Cons
        by (subst replace_variables.simps)
           (auto simp: Let_def res_bind_eq_Inl variable_text_no_cast [OF assms] IH dest!: more split: list.split)
    qed
  qed
qed

lemma variable_token_no_cast: "scalar_ok v \<Longrightarrow> variable_token E v \<noteq> Inl Bad_cast"
  using cast_string [of v] cast_integer [of v] cast_floating_point [of v] cast_timestamp [of v] cast_address [of v]
    cast_regex [of v]
  unfolding variable_token_def by (intro res_cond_no_cast bind_no_cast) auto

lemma compute_primary_no_cast: "vars_ok (st_variables st) \<Longrightarrow> compute_primary E st e \<noteq> Inl Bad_cast"
  unfolding compute_primary_def Let_def
  by (auto split: token_t.split option.split simp: res_bind_eq_Inl replace_variables_no_cast
      dest: variable_token_no_cast var_ok_scalar simp: vars_ok_def get_variable_def)

lemma first_address_no_cast: "first_address E s \<noteq> Inl Bad_cast"
  by (simp add: first_address_def split: list.split)

lemma arith_no_cast: "i128_checked i \<noteq> Inl Bad_cast" "i128_divide a b \<noteq> Inl Bad_cast" "i128_modulo a b \<noteq> Inl Bad_cast"
  by (simp_all add: i128_checked_def i128_divide_def i128_modulo_def res_bind_eq_Inl)

lemma op_no_cast:
  "op_compare E l r \<noteq> Inl Bad_cast" "op_add E l r \<noteq> Inl Bad_cast" "op_subtract E l r \<noteq> Inl Bad_cast"
  "op_multiply E l r \<noteq> Inl Bad_cast" "op_divide E l r \<noteq> Inl Bad_cast" "op_modulo E l r \<noteq> Inl Bad_cast"
  "op_negate E l \<noteq> Inl Bad_cast"
  unfolding op_compare_def op_add_def op_subtract_def op_multiply_def op_divide_def op_modulo_def op_negate_def Let_def
  by (auto split: token_t.split simp: res_bind_eq_Inl first_address_no_cast arith_no_cast)

lemma binary_op_no_cast: "binary_op E op = Some f \<Longrightarrow> f l r \<noteq> Inl Bad_cast"
  by (cases op) (auto simp: binary_op_def op_no_cast)

lemma size_sub_expression: "x \<in> set es \<Longrightarrow> size x < size (Expression op es t)"
  by (simp add: size_list_estimation' less_Suc_eq_le trans_le_add1)

lemma compute_no_cast:
  assumes "vars_ok (st_variables st)"
  shows "compute E st e \<noteq> Inl Bad_cast"
proof (induction e rule: measure_induct_rule [of size])
  case (less e)
  obtain op es t where e: "e = Expression op es t" by (cases e)
  have IH: "compute E st x \<noteq> Inl Bad_cast" if "x \<in> set es" for x
    using less size_sub_expression [OF that] by (simp add: e)
  have named: "compute E st x \<noteq> Inl Bad_cast" if "Expression nop nes nt \<in> set es" "x \<in> set nes" for x nop nes nt
    using less [of x] size_sub_expression [OF that(1), of op t] size_sub_expression [OF that(2), of nop nt]
    unfolding e by simp
  have item: "(case n of Expression nop nes nt \<Rightarrow>
                  if nop \<noteq> OPERATOR_NAMED then Inl Implementation_error
                  else (case nes of
                     [name] \<Rightarrow> Inr (Expression OPERATOR_NAMED [name] None)
                   | [name, e] \<Rightarrow> res_bind (compute E st e)
                       (\<lambda>item. Inr (Expression OPERATOR_NAMED [name, item] None))
                   | _ \<Rightarrow> Inl Implementation_error)) \<noteq> Inl Bad_cast" if "n \<in> set es" for n
    using that named by (auto split: expression.split list.split simp: res_bind_eq_Inl)
  show ?case
  proof (cases op)
    case OPERATOR_LIST
    then show ?thesis
      unfolding e compute.simps by (simp only: operator_t.case) (intro bind_no_cast res_map_no_cast item; simp)
  next
    case OPERATOR_ARRAY
    then show ?thesis
      unfolding e compute.simps by (simp only: operator_t.case) (intro bind_no_cast res_map_no_cast IH; simp)
  next
    case OPERATOR_PRIMARY
    then show ?thesis
      unfolding e compute.simps by (simp only: operator_t.case) (rule compute_primary_no_cast [OF assms])
  qed (use IH in \<open>auto simp: e res_bind_eq_Inl binary_op_def op_no_cast split: list.split\<close>)
qed

end
