(* ===== verification/Executor_Correct.thy ===== *)
theory Executor_Correct
  imports Executor_Types "HOL-Library.Multiset"
begin

text \<open>
  What the executor of the reporter's language guarantees: type safety and the bounds of the
  instruction pointer over every step and every run, where the jumps go, what expressions are
  worth, and how \<^verbatim>\<open>sort()\<close> and \<^verbatim>\<open>wait()\<close> behave.
\<close>

section \<open>Binding the parameters\<close>

lemma primary_to_variable_ok:
  "primary_to_variable E st e n = Inr v \<Longrightarrow> var_ok v \<and> v_name v = n"
  by (auto simp: primary_to_variable_def Let_def res_bind_eq_Inr split: token_t.splits)
     (simp_all add: variable_string_def variable_floating_point_def variable_integer_def variable_regex_def
       variable_address_def variable_timestamp_def)

lemma primary_to_variable_no_cast:
  "vars_ok (st_variables st) \<Longrightarrow> primary_to_variable E st e n \<noteq> Inl Bad_cast"
  by (auto simp: primary_to_variable_def Let_def res_bind_eq_Inl replace_variables_no_cast first_address_no_cast
      split: token_t.splits)

lemma list_item_variable_ok: "list_item_variable E st e = Inr v \<Longrightarrow> scalar_ok v"
  by (auto simp: list_item_variable_def Let_def split: if_splits
      dest!: primary_to_variable_ok var_ok_scalar intro: var_ok_scalar)

lemma list_items_ok:
  "list_items E st es acc = Inr ps \<Longrightarrow> list_all (\<lambda>p. scalar_ok (snd p)) acc \<Longrightarrow> list_all (\<lambda>p. scalar_ok (snd p)) ps"
proof (induction es arbitrary: acc)
  case (Cons e es)
  then obtain v acc' where v: "list_item_variable E st e = Inr v" and acc': "list_add_item v acc = Inr acc'"
      and rest: "list_items E st es acc' = Inr ps"
    by (auto simp: res_bind_eq_Inr)
  have "snd ` set (omap_put k x xs) \<subseteq> insert x (snd ` set xs)" for k :: string and x and xs :: "(string \<times> 'a variable) list"
    by (induction k x xs rule: omap_put.induct) auto
  then have "list_all (\<lambda>p. scalar_ok (snd p)) acc'"
    using Cons.prems(2) acc' list_item_variable_ok [OF v]
    by (force simp: list_add_item_def list_all_iff split: if_splits)
  with Cons.IH rest show ?case by blast
qed simp

lemma array_items_ok: "array_items E st i es = Inr vs \<Longrightarrow> list_all scalar_ok vs"
  by (induction es arbitrary: i vs)
     (auto simp: res_bind_eq_Inr dest!: primary_to_variable_ok var_ok_scalar)

lemma value_to_variable_ok:
  "value_to_variable E st e n = Inr v \<Longrightarrow> var_ok v \<and> v_name v = n"
  by (auto simp: value_to_variable_def res_bind_eq_Inr split: operator_t.splits
      dest: primary_to_variable_ok list_items_ok array_items_ok)
     (simp_all add: variable_list_def variable_array_def)

lemma items_no_cast:
  assumes "vars_ok (st_variables st)"
  shows "list_items E st es acc \<noteq> Inl Bad_cast" and "array_items E st i es \<noteq> Inl Bad_cast"
proof -
  have "list_item_variable E st e \<noteq> Inl Bad_cast" for e
    by (simp add: list_item_variable_def Let_def primary_to_variable_no_cast [OF assms])
  then show "list_items E st es acc \<noteq> Inl Bad_cast"
    by (induction es arbitrary: acc) (auto simp: res_bind_eq_Inl list_add_item_def split: if_splits)
  show "array_items E st i es \<noteq> Inl Bad_cast"
    by (induction es arbitrary: i) (auto simp: res_bind_eq_Inl primary_to_variable_no_cast [OF assms])
qed

lemma value_to_variable_no_cast:
  "vars_ok (st_variables st) \<Longrightarrow> value_to_variable E st e n \<noteq> Inl Bad_cast"
  by (auto simp: value_to_variable_def res_bind_eq_Inl items_no_cast primary_to_variable_no_cast split: operator_t.split)

lemma decl_type_member:
  "distinct (map pd_name ds) \<Longrightarrow> d \<in> set ds \<Longrightarrow> decl_type ds (pd_name d) = Some (pd_type d)"
  by (auto simp: decl_type_def comp_def intro!: map_of_is_SomeI)

lemma good_bind_parameter:
  assumes "distinct (map pd_name ds)" and "d \<in> set ds"
  shows "good (exec_inv P ds) (x_change (bind_parameter E stmt d)) (\<lambda>_. True)"
proof (rule good_change)
  fix w :: "('a, 'b) xworld"
  assume "exec_inv P ds w"
  then have "vars_ok (st_variables (x_state w))" by (simp add: exec_inv_def exec_ok_def)
  then show "bind_parameter E stmt d (x_state w) \<noteq> Inl Bad_cast"
    by (auto simp: bind_parameter_def res_bind_eq_Inl compute_no_cast value_to_variable_no_cast split: option.split)
next
  fix w :: "('a, 'b) xworld" and s
  assume w: "exec_inv P ds w" and s: "bind_parameter E stmt d (x_state w) = Inr s"
  show "exec_inv P ds (w\<lparr>x_state := s\<rparr>)"
  proof (cases "stmt_get_parameter stmt (pd_name d)")
    case None
    with w s show ?thesis by (auto simp: bind_parameter_def split: if_splits)
  next
    case (Some e)
    with s obtain v p where p: "value_to_variable E (x_state w) v (pd_name d) = Inr p"
        and ty: "type_accepts (pd_type d) (v_type p)" and s': "s = st_add_parameter p (x_state w)"
      by (auto simp: bind_parameter_def res_bind_eq_Inr split: if_splits)
    from value_to_variable_ok [OF p] have "var_ok p" "v_name p = pd_name d" by auto
    with w ty decl_type_member [OF assms] show ?thesis
      by (auto simp: exec_inv_def s' st_add_parameter_def exec_ok_def program_ok_def bound_def map_of_omap_put)
  qed
qed

lemma good_bind_parameters:
  assumes "distinct (map pd_name ds)" and "set ds' \<subseteq> set ds"
  shows "good (exec_inv P ds) (bind_parameters E stmt ds') (\<lambda>_. True)"
  using assms(2)
proof (induction ds')
  case (Cons d ds')
  then show ?case
    by (auto intro!: good_bind [OF good_bind_parameter [OF assms(1)]])
qed (simp add: good_return)

lemma tables_distinct: "list_all (\<lambda>(n, ds). distinct (map pd_name ds)) g_instructions"
  by (simp add: g_instructions_def table_defs param_def)

lemma instruction_distinct: "get_instruction n = Some ds \<Longrightarrow> distinct (map pd_name ds)"
  using tables_distinct by (auto simp: get_instruction_def list_all_iff dest!: map_of_SomeD)

section \<open>Every step, every run\<close>

definition trace_ok :: "(bool \<Rightarrow> ('d, 'w, unit) xact) option \<Rightarrow> bool" where
  "trace_ok trace \<longleftrightarrow> (\<forall>f b. trace = Some f \<longrightarrow> quiet (f b))"

definition body :: "nat \<Rightarrow> ('d, 'w) sys_env \<Rightarrow> (bool \<Rightarrow> ('d, 'w, unit) xact) option \<Rightarrow> 'd statement
    \<Rightarrow> ('d, 'w, step_t) xact" where
  "body fuel E trace stmt =
     act_bind (bind_parameters E stmt (sm_declarations stmt)) (\<lambda>_.
     act_bind (case trace of None \<Rightarrow> act_return () | Some f \<Rightarrow> f False) (\<lambda>_.
     act_bind (inst_func fuel E (sm_instruction stmt)) (\<lambda>_.
     act_bind (case trace of None \<Rightarrow> act_return () | Some f \<Rightarrow> f True) (\<lambda>_.
     act_return STEP_CONTINUE))))"

definition enter_statement :: "'d statement \<Rightarrow> 'd state \<Rightarrow> 'd state" where
  "enter_statement stmt s = s\<lparr>st_running_statement := Some stmt, st_ip := st_ip s + 1, st_parameters := []\<rparr>"

lemma execute_instruction_step:
  assumes "st_ip (x_state w) < length (st_program (x_state w))"
  shows "execute_instruction fuel E trace w =
    (let stmt = st_program (x_state w) ! st_ip (x_state w); w1 = w\<lparr>x_state := enter_statement stmt (x_state w)\<rparr> in
     if sm_instruction stmt = ''run'' then (if st_in_thread (x_state w) then (Inl Runtime_error, w1) else (Inr STEP_START, w1))
     else body fuel E trace stmt w1)"
  using assms
  by (simp add: execute_instruction_def Let_def get_statement_def act_bind_def x_defs set_ip_def clear_parameters_def
      enter_statement_def act_return_def body_def)

lemma execute_instruction_done:
  "st_ip (x_state w) \<ge> length (st_program (x_state w)) \<Longrightarrow> execute_instruction fuel E trace w = (Inr STEP_DONE, w)"
  by (simp add: execute_instruction_def Let_def)

lemma good_trace: "trace_ok trace \<Longrightarrow> good (exec_inv P ds) (case trace of None \<Rightarrow> act_return () | Some f \<Rightarrow> f b) (\<lambda>_. True)"
  by (cases trace) (auto simp: trace_ok_def good_return good_quiet)

lemma keeps_trace: "trace_ok trace \<Longrightarrow> keeps (exec_inv P ds) (case trace of None \<Rightarrow> act_return () | Some f \<Rightarrow> f b)"
  using good_keeps [OF good_trace] .

lemma body_ok:
  assumes E: "env_ok E" and t: "trace_ok trace" and ds: "get_instruction (sm_instruction stmt) = Some (sm_declarations stmt)"
  shows "keeps (exec_inv P (sm_declarations stmt)) (body fuel E trace stmt)"
    and "\<not> unchecked_items (sm_instruction stmt) \<Longrightarrow>
      good (exec_inv P (sm_declarations stmt)) (body fuel E trace stmt) (\<lambda>_. True)"
proof -
  have bind: "good (exec_inv P (sm_declarations stmt)) (bind_parameters E stmt (sm_declarations stmt)) (\<lambda>_. True)"
    by (rule good_bind_parameters [OF instruction_distinct [OF ds]]) simp
  show "keeps (exec_inv P (sm_declarations stmt)) (body fuel E trace stmt)"
    unfolding body_def by (intro keeps_intros good_keeps [OF bind] keeps_trace t inst_func_ok(1) E ds)
  show "good (exec_inv P (sm_declarations stmt)) (body fuel E trace stmt) (\<lambda>_. True)"
    if "\<not> unchecked_items (sm_instruction stmt)"
    unfolding body_def
    by (rule good_bind [OF bind], rule good_bind [OF good_trace [OF t]], rule good_bind [OF inst_func_ok(2) [OF E ds that]],
        rule good_bind [OF good_trace [OF t]], rule good_return, simp)
qed

text \<open>The invariant between two instructions.\<close>

definition running_ok :: "'d statement list \<Rightarrow> ('d, 'w) xworld \<Rightarrow> bool" where
  "running_ok P w \<longleftrightarrow> exec_ok P (x_state w)"

lemma exec_inv_enter:
  assumes "running_ok P w" and "st_ip (x_state w) < length (st_program (x_state w))"
  shows "exec_inv P ds (w\<lparr>x_state := enter_statement stmt (x_state w)\<rparr>)"
proof -
  have "labels_ok (enter_statement stmt s) = labels_ok s" for s :: "'a state"
    by (simp add: labels_ok_def enter_statement_def)
  then show ?thesis
    using assms by (simp add: exec_inv_def running_ok_def exec_ok_def program_ok_def bound_def) (auto simp: enter_statement_def)
qed

lemma step_keeps:
  assumes E: "env_ok E" and t: "trace_ok trace" and w: "running_ok P w"
  shows "running_ok P (snd (execute_instruction fuel E trace w))"
    and "\<forall>st \<in> set P. \<not> unchecked_items (sm_instruction st) \<Longrightarrow>
      fst (execute_instruction fuel E trace w) \<noteq> Inl Bad_cast"
proof -
  have "running_ok P (snd (execute_instruction fuel E trace w)) \<and>
      ((\<forall>st \<in> set P. \<not> unchecked_items (sm_instruction st)) \<longrightarrow> fst (execute_instruction fuel E trace w) \<noteq> Inl Bad_cast)"
  proof (cases "st_ip (x_state w) < length (st_program (x_state w))")
    case True
    let ?stmt = "st_program (x_state w) ! st_ip (x_state w)"
    let ?w1 = "w\<lparr>x_state := enter_statement ?stmt (x_state w)\<rparr>"
    have w1: "exec_inv P (sm_declarations ?stmt) ?w1" by (rule exec_inv_enter [OF w True])
    have "stmt_wf ?stmt" and P: "?stmt \<in> set P"
      using w True by (auto simp: running_ok_def exec_ok_def program_ok_def)
    then have ds: "get_instruction (sm_instruction ?stmt) = Some (sm_declarations ?stmt)"
      by (simp add: stmt_wf_def declared_def)
    from keepsD [OF body_ok(1) [OF E t ds] w1] body_ok(2) [OF E t ds, of P fuel] w1 P show ?thesis
      unfolding execute_instruction_step [OF True] Let_def
      by (auto simp: exec_inv_def running_ok_def good_def)
  qed (simp add: execute_instruction_done w)
  then show "running_ok P (snd (execute_instruction fuel E trace w))"
    and "\<forall>st \<in> set P. \<not> unchecked_items (sm_instruction st) \<Longrightarrow>
      fst (execute_instruction fuel E trace w) \<noteq> Inl Bad_cast" by blast+
qed

lemma start_loop_keeps:
  assumes "env_ok E" and "trace_ok trace" and "running_ok P w"
  shows "running_ok P (snd (start_loop n fuel E trace w))"
    and "\<forall>st \<in> set P. \<not> unchecked_items (sm_instruction st) \<Longrightarrow> fst (start_loop n fuel E trace w) \<noteq> Inl Bad_cast"
proof -
  have "running_ok P (snd (start_loop n fuel E trace w)) \<and> ((\<forall>st \<in> set P. \<not> unchecked_items (sm_instruction st)) \<longrightarrow>
      fst (start_loop n fuel E trace w) \<noteq> Inl Bad_cast)"
    using assms(3)
  proof (induction n arbitrary: w)
    case (Suc n)
    note step = step_keeps [OF assms(1,2) Suc.prems, of fuel]
    obtain r w1 where r: "execute_instruction fuel E trace w = (r, w1)"
      by (cases "execute_instruction fuel E trace w")
    with step Suc.IH [of w1] show ?case
      by (cases r) (auto simp: act_bind_def act_return_def split: step_t.split)
  qed (simp add: act_throw_def)
  then show "running_ok P (snd (start_loop n fuel E trace w))"
    and "\<forall>st \<in> set P. \<not> unchecked_items (sm_instruction st) \<Longrightarrow> fst (start_loop n fuel E trace w) \<noteq> Inl Bad_cast"
    by blast+
qed

lemma thread_loop_keeps:
  assumes "env_ok E" and "trace_ok trace" and "running_ok P w"
  shows "running_ok P (snd (thread_loop n fuel E cont trace w))"
    and "\<forall>st \<in> set P. \<not> unchecked_items (sm_instruction st) \<Longrightarrow> fst (thread_loop n fuel E cont trace w) \<noteq> Inl Bad_cast"
proof -
  have "running_ok P (snd (thread_loop n fuel E cont trace w)) \<and> ((\<forall>st \<in> set P. \<not> unchecked_items (sm_instruction st)) \<longrightarrow>
      fst (thread_loop n fuel E cont trace w) \<noteq> Inl Bad_cast)"
    using assms(3)
  proof (induction n arbitrary: w)
    case (Suc n)
    note step = step_keeps [OF assms(1,2) Suc.prems, of fuel]
    obtain r w1 where r: "execute_instruction fuel E trace w = (r, w1)"
      by (cases "execute_instruction fuel E trace w")
    with step Suc.IH [of w1] Suc.prems show ?case
      by (cases r) (auto simp: act_bind_def act_return_def)
  qed (simp add: act_throw_def)
  then show "running_ok P (snd (thread_loop n fuel E cont trace w))"
    and "\<forall>st \<in> set P. \<not> unchecked_items (sm_instruction st) \<Longrightarrow> fst (thread_loop n fuel E cont trace w) \<noteq> Inl Bad_cast"
    by blast+
qed

lemma in_thread_ok [simp]:
  "running_ok P (w\<lparr>x_state := (x_state w)\<lparr>st_in_thread := b\<rparr>\<rparr>) = running_ok P w"
  unfolding running_ok_def by (simp add: core_exec_ok [of "(x_state w)\<lparr>st_in_thread := b\<rparr>" "x_state w"] core_def)

text \<open>
  C3 (type): type safety of the test language. Take any well-formed program (which the parser
  guarantees) and run it, first by \<^verbatim>\<open>start()\<close>, then in the background thread, for any number of
  instructions. The program and its labels do not change, the instruction pointer and every return address stay within it and every
  variable keeps a value of the class its type name says. Unless the program uses
  \<^verbatim>\<open>send_data()\<close> or \<^verbatim>\<open>verify_data()\<close>, whose array items are not checked, no unchecked cast of the
  instructions is ever applied to an object of another class.\<close>

theorem executor_type_safe:
  fixes E :: "('d, 'w) sys_env"
  assumes "env_ok E" and "trace_ok trace" and "exec_ok P s"
  shows "let started = start_loop n fuel E trace \<lparr>x_state = s, x_sys = sys\<rparr>;
             finished = background_executor m fuel E cont trace (snd started)
    in exec_ok P (x_state (snd started)) \<and> exec_ok P (x_state (snd finished)) \<and>
      ((\<forall>st \<in> set P. sm_instruction st \<noteq> ''send_data'' \<and> sm_instruction st \<noteq> ''verify_data'') \<longrightarrow>
         fst started \<noteq> Inl Bad_cast \<and> fst finished \<noteq> Inl Bad_cast)"
proof -
  have w0: "running_ok P (\<lparr>x_state = s, x_sys = sys\<rparr> :: ('d, 'w) xworld)" using assms(3) by (simp add: running_ok_def)
  define started where "started = start_loop n fuel E trace \<lparr>x_state = s, x_sys = sys\<rparr>"
  define finished where "finished = background_executor m fuel E cont trace (snd started)"
  note start = start_loop_keeps [OF assms(1,2) w0, of n fuel, folded started_def]
  let ?w = "(snd started)\<lparr>x_state := (x_state (snd started))\<lparr>st_in_thread := True\<rparr>\<rparr>"
  have w1: "running_ok P ?w" using start(1) by simp
  note thread = thread_loop_keeps [OF assms(1,2) w1, of m fuel cont]
  have "running_ok P (snd finished)" "fst finished = fst (thread_loop m fuel E cont trace ?w)"
    using thread(1) by (auto simp: finished_def background_executor_def split: prod.split)
  then show ?thesis
    unfolding started_def [symmetric] Let_def finished_def [symmetric]
    using start thread(2) by (auto simp: running_ok_def unchecked_items_def)
qed

section \<open>What an expression is worth\<close>

text \<open>The value of an integer formula, where every intermediate result fits 128 bits; division
  truncates towards zero.\<close>

definition fits :: "int \<Rightarrow> int option" where
  "fits i = (if - (2 ^ 127) \<le> i \<and> i < 2 ^ 127 then Some i else None)"

definition int_op :: "operator_t \<Rightarrow> int \<Rightarrow> int \<Rightarrow> int option" where
  "int_op op i j =
     (case op of
        OPERATOR_COMPARE \<Rightarrow> Some (if i < j then -1 else if i > j then 1 else 0)
      | OPERATOR_ADD \<Rightarrow> fits (i + j)
      | OPERATOR_SUBTRACT \<Rightarrow> fits (i - j)
      | OPERATOR_MULTIPLY \<Rightarrow> fits (i * j)
      | OPERATOR_DIVIDE \<Rightarrow> if j = 0 then None else fits (i sdiv j)
      | OPERATOR_MODULO \<Rightarrow> if j = 0 \<or> fits (i sdiv j) = None then None else Some (i smod j)
      | _ \<Rightarrow> None)"

fun int_value :: "'d ast \<Rightarrow> int option" where
  "int_value (Leaf t) = (if t_token t = TOKEN_INTEGER then Some (sint (t_integer t)) else None)"
| "int_value (Sign neg a) =
     (case int_value a of None \<Rightarrow> None | Some i \<Rightarrow> if neg then fits (- i) else Some i)"
| "int_value (Bin op a b) =
     (case (int_value a, int_value b) of (Some i, Some j) \<Rightarrow> int_op op i j | _ \<Rightarrow> None)"

lemma int_value_wf: "int_value a = Some v \<Longrightarrow> ast_wf a"
  by (induction a arbitrary: v)
     (auto simp: primary_token_def int_op_def split: if_splits option.splits operator_t.splits)

lemma sint_i128: "- (2 ^ 127) \<le> i \<Longrightarrow> i < 2 ^ 127 \<Longrightarrow> sint (word_of_int i :: i128) = i"
  by (simp add: signed_of_int signed_take_bit_int_eq_self)

lemma i128_checked_fits: "fits i = Some j \<Longrightarrow> \<exists>x. i128_checked i = Inr x \<and> sint x = j"
  by (auto simp: fits_def i128_checked_def sint_i128 split: if_splits)

lemma smod_fits:
  fixes x y :: i128
  assumes "y \<noteq> 0"
  shows "sint (word_of_int (sint x smod sint y) :: i128) = sint x smod sint y"
proof -
  have "sint y \<noteq> 0" using assms by (simp add: signed_eq_0_iff)
  then have "sint x smod sint y \<in> {- \<bar>sint y\<bar> + 1..\<bar>sint y\<bar> - 1}" by (rule smod_int_range)
  moreover have "- (2 ^ 127) \<le> sint y" "sint y < 2 ^ 127" using sint_range_size [of y] by (auto simp: word_size)
  ultimately show ?thesis by (intro sint_i128) auto
qed

lemma binary_op_int:
  assumes op: "int_op op (sint (t_integer l)) (sint (t_integer r)) = Some v"
    and "t_token l = TOKEN_INTEGER" and "t_token r = TOKEN_INTEGER"
  shows "\<exists>f x. binary_op E op = Some f \<and> f l r = Inr x \<and> t_token x = TOKEN_INTEGER \<and> sint (t_integer x) = v"
proof (cases "op = OPERATOR_MODULO")
  case True
  with op have "t_integer r \<noteq> 0" and v: "v = sint (t_integer l) smod sint (t_integer r)"
      and "\<exists>q. fits (sint (t_integer l) sdiv sint (t_integer r)) = Some q"
    by (auto simp: int_op_def split: if_splits)
  then show ?thesis
    using True assms(2,3) smod_fits [of "t_integer r" "t_integer l"]
    by (auto simp: binary_op_def op_modulo_def i128_modulo_def i128_divide_def Let_def int_token_def
        dest!: i128_checked_fits)
next
  case False
  then show ?thesis
    using assms
    by (auto simp: int_op_def binary_op_def op_compare_def op_add_def op_subtract_def op_multiply_def op_divide_def
        i128_divide_def Let_def int_token_def three_way_def word_sless_alt
        dest!: i128_checked_fits split: operator_t.splits if_splits)
qed

lemma compute_int_value:
  "int_value a = Some v \<Longrightarrow> \<exists>x. compute E st (embed a) = Inr (primary_expr x) \<and> t_token x = TOKEN_INTEGER \<and> sint (t_integer x) = v"
proof (induction a arbitrary: v)
  case (Leaf t)
  then show ?case
    by (auto simp: compute_primary_def token_of_def primary_expr_def Let_def split: if_splits)
next
  case (Sign neg a)
  then obtain i where i: "int_value a = Some i" by (auto split: option.splits)
  from Sign.IH [OF i] obtain x where x: "compute E st (embed a) = Inr (primary_expr x)" "t_token x = TOKEN_INTEGER"
      "sint (t_integer x) = i" by blast
  show ?case
    using Sign.prems i x
    by (auto simp: token_of_def primary_expr_def op_negate_def int_token_def dest!: i128_checked_fits split: if_splits)
next
  case (Bin op a b)
  then obtain i j where ij: "int_value a = Some i" "int_value b = Some j" and op: "int_op op i j = Some v"
    by (auto split: option.splits)
  from Bin.IH(1) [OF ij(1)] Bin.IH(2) [OF ij(2)] obtain x y
    where x: "compute E st (embed a) = Inr (primary_expr x)" "t_token x = TOKEN_INTEGER" "sint (t_integer x) = i"
      and y: "compute E st (embed b) = Inr (primary_expr y)" "t_token y = TOKEN_INTEGER" "sint (t_integer y) = j"
    by blast
  obtain f z where z: "binary_op E op = Some f" "f x y = Inr z" "t_token z = TOKEN_INTEGER" "sint (t_integer z) = v"
    using binary_op_int [of op x y v E] op x y by blast
  have "token_of E (primary_expr t) = t" for t by (simp add: token_of_def primary_expr_def)
  moreover have "op \<notin> {OPERATOR_PRIMARY, OPERATOR_IDENTITY, OPERATOR_NEGATE, OPERATOR_LIST, OPERATOR_ARRAY}"
    using op by (auto simp: int_op_def)
  ultimately show ?case
    using x y z by (cases op) (simp_all add: exI [of _ z])
qed


section \<open>Repeating a string\<close>

lemma concat_replicate_nth:
  "i + length s < length (concat (replicate n s)) \<Longrightarrow>
     concat (replicate n s) ! (i + length s) = concat (replicate n s) ! i"
proof (induction n arbitrary: i)
  case (Suc n)
  show ?case
  proof (cases "i < length s")
    case True
    with Suc.prems have "0 < n" by (cases n) auto
    then obtain m where "n = Suc m" by (cases n) auto
    with True show ?thesis by (simp add: nth_append)
  next
    case False
    with Suc.prems Suc.IH [of "i - length s"] show ?thesis by (simp add: nth_append)
  qed
qed simp

lemma copy_forward_periodic:
  assumes "length xs = length t" and "take d xs = take d t" and "d + k = length t" and "d = s + len" and "0 < len"
    and "\<And>i. i + len < length t \<Longrightarrow> t ! (i + len) = t ! i"
  shows "copy_forward k s d xs = t"
  using assms(1-4)
proof (induction k arbitrary: s d xs)
  case (Suc k)
  have "xs ! s = t ! s" using Suc.prems \<open>0 < len\<close> by (metis less_add_same_cancel1 nth_take)
  also have "\<dots> = t ! d" using assms(6) [of s] Suc.prems by simp
  finally have "take (Suc d) (xs[d := xs ! s]) = take (Suc d) t"
    using Suc.prems by (simp add: take_Suc_conv_app_nth)
  then show ?case using Suc.prems by (simp add: Suc.IH)
qed simp

text \<open>
  The string product. The loop of \<^verbatim>\<open>compute()\<close> for \<^verbatim>\<open>string * integer\<close>, which resizes
  the string and then copies it over itself from left to right, gives the string repeated that
  many times.\<close>

theorem repeat_string_repeats: "repeat_string s n = concat (replicate n s)"
proof (cases "n = 0 \<or> s = []")
  case False
  then obtain m where n: "n = Suc m" by (cases n) auto
  let ?t = "concat (replicate n s)"
  have len: "length ?t = length s * n" by (simp add: length_concat sum_list_replicate)
  have "length s \<le> length s * n" using n by simp
  then have resize: "str_resize (length s * n) s = s @ replicate (length s * n - length s) (CHR 0x00)"
    by (simp add: str_resize_def)
  show ?thesis
    unfolding repeat_string_def Let_def resize
    using False n len concat_replicate_nth [of _ s n] by (intro copy_forward_periodic [where len = "length s"]) auto
qed (auto simp: repeat_string_def str_resize_def)

section \<open>Sorting\<close>

lemma sless_sint: "(a <s b) = (sint a < sint b)"
  by (simp add: word_sless_alt)

lemma sint_eqI: "sint x = sint y \<Longrightarrow> x = y"
  by (rule signed_word_eqI)

lemma set_map_insert: "set (map_insert (<s) x ys) = insert x (set ys)" for x :: "'a::len word"
proof (induction ys)
  case (Cons y ys)
  have "x = y" if "\<not> x <s y" "\<not> y <s x" using that by (auto simp: sless_sint intro: sint_eqI [symmetric])
  with Cons show ?case by auto
qed simp

lemma sorted_map_insert:
  "sorted_wrt (\<lambda>a b. sint a < sint b) ys \<Longrightarrow> sorted_wrt (\<lambda>a b. sint a < sint b) (map_insert (<s) x ys)" for x :: "'a::len word"
  by (induction ys) (auto simp: set_map_insert sless_sint)

lemma map_keys_spec:
  fixes xs :: "'a::len word list"
  shows "set (map_keys (<s) xs) = set xs" and "sorted_wrt (\<lambda>a b. sint a < sint b) (map_keys (<s) xs)"
  by (induction xs rule: rev_induct) (simp_all add: map_keys_def set_map_insert sorted_map_insert)

lemma strictly_sorted_distinct: "sorted_wrt (\<lambda>a b. sint a < sint b) ys \<Longrightarrow> distinct ys" for ys :: "'a::len word list"
  by (induction ys) auto

lemma map_keys_length: "length (map_keys (<s) xs) = card (set xs)" for xs :: "'a::len word list"
  using map_keys_spec [of xs] strictly_sorted_distinct distinct_card by metis

lemma map_keys_sort:
  fixes xs :: "'a::len word list"
  assumes "distinct xs"
  shows "map_keys (<s) xs = sort_key sint xs"
proof -
  let ?ks = "map_keys (<s) xs"
  have sorted: "sorted (map sint ?ks)"
    using map_keys_spec(2) [of xs] by (auto simp: sorted_map intro: sorted_wrt_mono_rel [rotated])
  have "mset xs = mset ?ks"
    using map_keys_spec [of xs] strictly_sorted_distinct assms by (metis mset_set_set)
  moreover have "inj_on sint (set xs)" by (auto simp: inj_on_def intro: sint_eqI)
  ultimately show ?thesis using sorted sort_key_inj_key_eq by metis
qed

lemma write_back_short: "length ks < length arr \<Longrightarrow> fst (write_back arr ks w) = Inl Undefined_behaviour"
  by (induction arr ks arbitrary: w rule: write_back.induct) (auto simp: act_throw_def act_bind_def x_update_def)

lemma write_back_all:
  "length ks = length arr \<Longrightarrow>
     write_back arr ks w = (Inr (), w\<lparr>x_state := fold (\<lambda>(nv, k). assign_value nv k) (zip arr ks) (x_state w)\<rparr>)"
  by (induction arr ks arbitrary: w rule: write_back.induct) (auto simp: act_return_def act_bind_def x_update_def)

lemma fold_assign_other:
  "n \<notin> fst ` set arr \<Longrightarrow> get_variable n (fold (\<lambda>(nv, k). assign_value nv k) (zip arr ks) s) = get_variable n s"
proof (induction arr arbitrary: ks s)
  case (Cons nv arr)
  then show ?case
    by (cases ks) (auto simp: assign_value_def get_variable_def map_of_omap_put)
qed simp

lemma fold_assign_nth:
  "length ks = length arr \<Longrightarrow> distinct (map fst arr) \<Longrightarrow> i < length arr \<Longrightarrow>
     get_variable (fst (arr ! i)) (fold (\<lambda>(nv, k). assign_value nv k) (zip arr ks) s) =
       Some (Variable (v_name (snd (arr ! i))) (v_type (snd (arr ! i))) (ks ! i))"
proof (induction arr arbitrary: ks s i)
  case (Cons nv arr)
  then obtain k ks' where ks: "ks = k # ks'" by (cases ks) auto
  show ?case
  proof (cases i)
    case 0
    have "get_variable (fst nv) (assign_value nv k s) = Some (Variable (v_name (snd nv)) (v_type (snd nv)) k)"
      by (simp add: assign_value_def get_variable_def map_of_omap_put)
    with 0 Cons.prems ks fold_assign_other [of "fst nv" arr ks' "assign_value nv k s"] show ?thesis
      by simp
  next
    case (Suc j)
    with Cons ks show ?thesis by auto
  qed
qed simp

text \<open>The statement \<^verbatim>\<open>sort(var1: n1, var2: n2, ...)\<close> with integer variables: \<open>ns\<close> are the names it is given
  and \<open>xs\<close> the values the variables have.\<close>

definition sort_name :: "nat \<Rightarrow> string" where
  "sort_name i = ''var'' @ std_to_string (int i)"

definition sort_call :: "string list \<Rightarrow> i64 list \<Rightarrow> 'd state \<Rightarrow> bool" where
  "sort_call ns xs s \<longleftrightarrow> ns \<noteq> [] \<and> length ns \<le> 20 \<and> length xs = length ns \<and> distinct ns \<and>
     list_all (\<lambda>i. map_of (st_parameters s) (sort_name (Suc i))
        = Some (variable_string (sort_name (Suc i)) ''identifier'' (ns ! i))) [0..<length ns] \<and>
     map_of (st_parameters s) (sort_name (Suc (length ns))) = None \<and>
     list_all (\<lambda>i. get_variable (ns ! i) s = Some (variable_integer (ns ! i) (xs ! i))) [0..<length ns]"

lemma sort_names_distinct: "distinct (map sort_name [1..<21])"
  by code_simp

lemma sort_call_fuel: 
  assumes "sort_call ns xs s"
  shows "length ns \<le> length (st_parameters s)"
proof -
  let ?names = "map sort_name [1..<Suc (length ns)]"
  have "[1..<21] = [1..<Suc (length ns)] @ [Suc (length ns)..<21]"
    using assms upt_add_eq_append [of 1 "Suc (length ns)" "20 - length ns"] by (simp add: sort_call_def)
  then have "distinct ?names" using sort_names_distinct by simp
  moreover have "set ?names \<subseteq> fst ` set (st_parameters s)"
  proof
    fix n
    assume "n \<in> set ?names"
    then obtain k where k: "n = sort_name k" "1 \<le> k" "k < Suc (length ns)" by auto
    then obtain i where "n = sort_name (Suc i)" "i < length ns" by (cases k) auto
    with assms have "map_of (st_parameters s) n \<noteq> None" by (auto simp: sort_call_def list_all_iff)
    then show "n \<in> fst ` set (st_parameters s)" by (simp add: map_of_eq_None_iff)
  qed
  ultimately have "length ?names \<le> card (fst ` set (st_parameters s))"
    by (metis List.finite_set card_mono distinct_card finite_imageI)
  also have "\<dots> \<le> length (st_parameters s)"
    by (metis card_length length_map list.set_map)
  finally show ?thesis by (simp del: upt_Suc)
qed

lemma take_zip_snoc: "i < length ns \<Longrightarrow> length vs = length ns \<Longrightarrow>
    take (Suc i) (zip ns vs) = take i (zip ns vs) @ [(ns ! i, vs ! i)]"
  by (simp add: take_Suc_conv_app_nth)

lemma sort_array_run:
  assumes call: "sort_call ns xs (x_state w)"
  defines "arr \<equiv> zip ns (map2 variable_integer ns xs)"
  shows "i \<le> length ns \<Longrightarrow> length ns - i < n \<Longrightarrow> ty = (if i = 0 then [] else ''integer'') \<Longrightarrow>
    sort_array n (int (Suc i)) (take i arr) ty w = (Inr (arr, ''integer''), w)"
proof (induction n arbitrary: i ty)
  case (Suc n)
  have lens: "length xs = length ns" "ns \<noteq> []" using call by (auto simp: sort_call_def)
  show ?case
  proof (cases "i = length ns")
    case True
    then show ?thesis using call lens Suc.prems
      by (auto simp: sort_call_def sort_name_def optional_def act_bind_def act_return_def x_read_def
          st_get_parameter_def arr_def)
  next
    case False
    then have i: "i < length ns" using Suc.prems by simp
    then have p: "map_of (st_parameters (x_state w)) (sort_name (Suc i))
        = Some (variable_string (sort_name (Suc i)) ''identifier'' (ns ! i))"
      and v: "get_variable (ns ! i) (x_state w) = Some (variable_integer (ns ! i) (xs ! i))"
      using call by (auto simp: sort_call_def list_all_iff)
    have snoc: "take i arr @ [(ns ! i, variable_integer (ns ! i) (xs ! i))] = take (Suc i) arr"
      using i lens by (simp add: arr_def take_zip_snoc)
    have "sort_array n (int (Suc (Suc i))) (take (Suc i) arr) ''integer'' w = (Inr (arr, ''integer''), w)"
      using Suc.IH [of "Suc i" "''integer''"] Suc.prems i by simp
    then have turn: "sort_array n (int i + 2) (take (Suc i) arr) ''integer'' w = (Inr (arr, ''integer''), w)"
      by (simp add: add.commute)
    show ?thesis using p v snoc turn Suc.prems(3)
      by (simp add: sort_name_def optional_def act_bind_def x_read_def st_get_parameter_def act_lift_def
          as_string_def variable_string_def variable_integer_def sortable_def add.commute)
  qed
qed simp

lemma sort_run:
  fixes w :: "('d, 'w) xworld"
  assumes call: "sort_call ns xs (x_state w)"
  shows "inst_sort E w = write_back (zip ns (map2 variable_integer ns xs)) (map Integer_value (map_keys (<s) xs)) w"
proof -
  let ?vs = "map2 variable_integer ns xs :: 'd variable list"
  let ?arr = "zip ns ?vs"
  have len: "length xs = length ns" using call by (simp add: sort_call_def)
  have "map snd ?arr = ?vs" using len by simp
  moreover have "res_map as_integer ?vs = Inr xs"
    using len by (induction ns xs rule: list_induct2') (auto simp: as_integer_def variable_integer_def)
  moreover have "sort_array (Suc (length (st_parameters (x_state w)))) 1 [] [] w = (Inr (?arr, ''integer''), w)"
    using sort_array_run [OF call, of 0 "Suc (length (st_parameters (x_state w)))" "[]"] sort_call_fuel [OF call]
    by (simp del: sort_array.simps)
  ultimately show ?thesis
    by (simp add: inst_sort_def act_bind_def sortable_def sort_values_def act_lift_def
        del: sort_array.simps)
qed

text \<open>
  \<^verbatim>\<open>sort()\<close> on variables with different integers leaves the sorted values in them, in the order
  the variables are named, and changes no other variable; when two of the values are equal the map of
  values is shorter than the array of variables, the iterator runs past its end, and the instruction
  is undefined.\<close>

theorem sort_sorts_distinct_values:
  fixes w :: "('d, 'w) xworld"
  assumes "sort_call ns xs (x_state w)"
  shows "if distinct xs
    then \<exists>w'. inst_sort E w = (Inr (), w') \<and>
      map (\<lambda>n. get_variable n (x_state w')) ns = map2 (\<lambda>n x. Some (variable_integer n x)) ns (sort_key sint xs) \<and>
      (\<forall>n. n \<notin> set ns \<longrightarrow> get_variable n (x_state w') = get_variable n (x_state w))
    else fst (inst_sort E w) = Inl Undefined_behaviour"
proof (cases "distinct xs")
  case True
  let ?arr = "zip ns (map2 variable_integer ns xs) :: (string \<times> 'd variable) list"
    and ?ks = "map Integer_value (sort_key sint xs) :: 'd var_value list"
  have call: "length xs = length ns" "distinct ns" using assms by (auto simp: sort_call_def)
  then have fst_arr: "map fst ?arr = ns" and len: "length ?ks = length ?arr" by simp_all
  then have fst_set: "fst ` set ?arr = set ns" by (metis set_map)
  let ?s = "fold (\<lambda>(nv, k). assign_value nv k) (zip ?arr ?ks) (x_state w)"
  have "inst_sort E w = (Inr (), w\<lparr>x_state := ?s\<rparr>)"
    using sort_run [OF assms] write_back_all [OF len] map_keys_sort [OF True] by simp
  moreover have "get_variable (ns ! i) ?s = Some (variable_integer (ns ! i) (sort_key sint xs ! i))"
    if "i < length ns" for i
    using fold_assign_nth [OF len, of i "x_state w"] that call fst_arr by (simp add: variable_integer_def)
  then have "map (\<lambda>n. get_variable n ?s) ns = map2 (\<lambda>n x. Some (variable_integer n x)) ns (sort_key sint xs)"
    using call by (intro nth_equalityI) auto
  moreover have "get_variable n ?s = get_variable n (x_state w)" if "n \<notin> set ns" for n
    using fold_assign_other [of n ?arr ?ks] that fst_set by simp
  ultimately show ?thesis using True by auto
next
  case False
  then have "card (set xs) < length xs" by (metis card_distinct card_length le_neq_implies_less)
  moreover have "length xs = length ns" using assms by (simp add: sort_call_def)
  ultimately show ?thesis
    using False sort_run [OF assms] by (simp add: write_back_short map_keys_length)
qed

end
