(* ===== verification/Executor_Control.thy ===== *)
theory Executor_Control
  imports Executor_Correct
begin

text \<open>
  Where the programs of the reporter go: each instruction either leaves the instruction pointer
  behind itself or moves it in the one way its documentation says, so that a program follows the
  edges of its control flow graph and nothing else.
\<close>

section \<open>Instructions that do not jump\<close>

definition flow :: "'d state \<Rightarrow> nat \<times> nat list \<times> 'd statement list \<times> (string \<times> nat) list" where
  "flow s = (st_ip s, st_stack s, st_program s, st_labels s)"

abbreviation pinned :: "nat \<times> nat list \<times> 'd statement list \<times> (string \<times> nat) list \<Rightarrow> ('d, 'w) xworld \<Rightarrow> bool" where
  "pinned c w \<equiv> flow (x_state w) = c"

named_theorems pinned_rules \<open>actions that keep the instruction pointer\<close>

lemma pinned_read [pinned_rules]: "keeps (pinned c) (x_read f)"
  by (simp add: keeps_def x_read_def)

lemma pinned_system [pinned_rules]: "keeps (pinned c) (x_system f)"
  by (simp add: keeps_def x_system_def split: prod.split)

lemma pinned_output [pinned_rules]: "keeps (pinned c) (x_output f)"
  by (simp add: keeps_def x_output_def)

lemma pinned_update: "(\<And>s. flow (f s) = flow s) \<Longrightarrow> keeps (pinned c) (x_update f)"
  by (simp add: keeps_def x_update_def)

lemma pinned_change: "(\<And>s s'. f s = Inr s' \<Longrightarrow> flow s' = flow s) \<Longrightarrow> keeps (pinned c) (x_change f)"
  by (auto simp: keeps_def x_change_def split: sum.split)

lemma pinned_quiet: "quiet m \<Longrightarrow> keeps (pinned c) m"
  by (simp add: keeps_def quiet_def flow_def core_def)

lemma pinned_parameters [pinned_rules]:
  "keeps (pinned c) (optional n)" "keeps (pinned c) (required n)" "keeps (pinned c) (required_string n)"
  by (simp_all add: optional_def required_def required_string_def keeps_bind pinned_read)

lemma pinned_updates [pinned_rules]:
  "keeps (pinned c) (x_update (set_variable v))" "keeps (pinned c) (x_update (unset_variable n))"
  "keeps (pinned c) (x_update (assign_value nv k))" "keeps (pinned c) (x_update clear_data)"
  "keeps (pinned c) (x_update clear_message)" "keeps (pinned c) (x_update disconnect)"
  "keeps (pinned c) (x_update (set_connection_type ty))" "keeps (pinned c) (x_update (\<lambda>s. s\<lparr>st_exit_code := ec\<rparr>))"
  by (rule pinned_update, simp add: flow_def set_variable_def unset_variable_def assign_value_def clear_data_def
      clear_message_def disconnect_def set_connection_type_def)+

lemma flow_changes:
  "set_compare k s = Inr s' \<Longrightarrow> flow s' = flow s" "st_listen_on a s = Inr s' \<Longrightarrow> flow s' = flow s"
  by (auto simp: flow_def set_compare_def st_listen_on_def split: if_splits option.splits)

lemma pinned_changes [pinned_rules]:
  "keeps (pinned c) (x_change (set_compare k))" "keeps (pinned c) (x_change (st_listen_on a))" "keeps (pinned c) (set_test b)"
  unfolding set_test_def by (rule pinned_change, erule flow_changes)+

lemma pinned_option [pinned_rules]:
  "keeps I m \<Longrightarrow> (\<And>x. keeps I (f x)) \<Longrightarrow> keeps I (case p of None \<Rightarrow> m | Some x \<Rightarrow> f x)"
  by (cases p) auto

lemma pinned_cond [pinned_rules]: "keeps I m \<Longrightarrow> keeps I k \<Longrightarrow> keeps I (if b then m else k)"
  by simp

lemma pinned_list [pinned_rules]:
  "keeps I m \<Longrightarrow> (\<And>x xs. keeps I (f x xs)) \<Longrightarrow> keeps I (case p of [] \<Rightarrow> m | x # xs \<Rightarrow> f x xs)"
  by (cases p) auto

lemma pinned_sum [pinned_rules]:
  "(\<And>x. keeps I (f x)) \<Longrightarrow> (\<And>x. keeps I (g x)) \<Longrightarrow> keeps I (case p of Inl x \<Rightarrow> f x | Inr x \<Rightarrow> g x)"
  by (cases p) auto

lemma pinned_prod [pinned_rules]: "(\<And>x y. keeps I (f x y)) \<Longrightarrow> keeps I (case p of (x, y) \<Rightarrow> f x y)"
  by (cases p) auto

lemma pinned_env:
  assumes "env_ok E"
  shows "keeps (pinned c) (c_process E e r)" "keeps (pinned c) (c_write E k b)" "keeps (pinned c) (c_send_message E k m)"
  using assms unfolding env_ok_def by (blast intro: pinned_quiet)+

lemmas pinned_intros = keeps_intros pinned_rules

lemma pinned_variables:
  "keeps (pinned c) (inst_set_variable E)" "keeps (pinned c) inst_unset_variable" "keeps (pinned c) inst_has_type"
  "keeps (pinned c) inst_strlen" "keeps (pinned c) (inst_hex E)" "keeps (pinned c) (inst_hostname E)"
  "keeps (pinned c) (inst_max_pid E)" "keeps (pinned c) (inst_now E)" "keeps (pinned c) (inst_random E)"
  "keeps (pinned c) inst_compare"
  unfolding inst_set_variable_def inst_unset_variable_def inst_has_type_def inst_strlen_def inst_hex_def
    inst_hostname_def inst_max_pid_def inst_now_def inst_random_def inst_compare_def Let_def
  by (intro pinned_intros)+

lemma pinned_sort_array: "keeps (pinned c) (sort_array n i arr ty)"
  by (induction n arbitrary: i arr ty) (auto intro!: pinned_intros)

lemma pinned_write_back: "keeps (pinned c) (write_back arr ks)"
  by (induction arr ks rule: write_back.induct) (auto intro!: pinned_intros)

lemma pinned_here: "(\<And>w. keeps I (m w)) \<Longrightarrow> keeps I (\<lambda>w. m w w)"
  by (simp add: keeps_def)

lemma pinned_sort: "keeps (pinned c) (inst_sort E)"
  unfolding inst_sort_def
  by (rule keeps_bind, rule pinned_here) (intro pinned_intros pinned_sort_array pinned_write_back)+

lemma pinned_read_data:
  "keeps (pinned c) (\<lambda>w. case read_data n (x_state w) of (r, s) \<Rightarrow> (Inr r, w\<lparr>x_state := s\<rparr>))"
  by (auto simp: keeps_def flow_def read_data_def split: prod.split)

lemma pinned_data:
  assumes "env_ok E"
  shows "keeps (pinned c) inst_clear_data" "keeps (pinned c) inst_clear_message" "keeps (pinned c) inst_disconnect"
    "keeps (pinned c) inst_has_data" "keeps (pinned c) inst_has_message" "keeps (pinned c) (inst_save_parameter_value E)"
    "keeps (pinned c) (inst_send_data E)" "keeps (pinned c) inst_verify_data"
  unfolding inst_clear_data_def inst_clear_message_def inst_disconnect_def inst_has_data_def inst_has_message_def
    inst_save_parameter_value_def inst_send_data_def inst_verify_data_def
  by (intro pinned_intros pinned_read_data pinned_env [OF assms])+

lemma pinned_messages:
  assumes "env_ok E"
  shows "keeps (pinned c) (inst_send_message E)" "keeps (pinned c) (inst_verify_message E)"
    "keeps (pinned c) (inst_print E)" "keeps (pinned c) (inst_show_message E)" "keeps (pinned c) (inst_show_data E)"
    "keeps (pinned c) (inst_kill E)" "keeps (pinned c) (inst_listen E)" "keeps (pinned c) (inst_sleep E)"
  unfolding inst_send_message_def build_message_def set_from_def inst_verify_message_def check_value_def check_list_def
    inst_print_def inst_show_message_def inst_show_data_def inst_kill_def inst_listen_def inst_sleep_def
  by (intro pinned_intros pinned_env [OF assms])+

lemma pinned_exit_scan: "env_ok E \<Longrightarrow> keeps (pinned c) (exit_scan E pos revs cs)"
  by (induction cs) (auto intro!: pinned_intros pinned_env)

lemma pinned_exit_poll:
  assumes "env_ok E"
  shows "keeps (pinned c) (exit_poll E t)"
proof -
  have "keeps (pinned c) (act_bind (x_system (sys_ppoll E fds t))
      (\<lambda>r. case r of Inl e \<Rightarrow> act_throw Runtime_error | Inr revs \<Rightarrow> exit_scan E pos revs conns))" for fds pos conns
    by (intro pinned_intros pinned_exit_scan assms)
  then show ?thesis by (auto simp: exit_poll_def keeps_def Let_def split: prod.split)
qed

lemma pinned_revents: "env_ok E \<Longrightarrow> keeps (pinned c) (c_revents E r evs)"
proof -
  assume E: "env_ok E"
  have "keeps (pinned c) (act_when (c_signal_object E r) (c_process E Ev_signal r))"
    using E by (intro keeps_when pinned_env)
  then have "keeps (pinned c) (c_input E r)"
    using pinned_env(1) [OF E, of c _ r] by (auto simp: c_input_def keeps_def)
  with E show ?thesis unfolding c_revents_def by (intro pinned_intros pinned_env)
qed

lemma pinned_wait_scan: "env_ok E \<Longrightarrow> keeps (pinned c) (wait_scan E pos revs b cs)"
  by (induction cs arbitrary: b) (auto intro!: pinned_intros pinned_revents)

lemma pinned_ppoll_retry: "keeps (pinned c) (ppoll_retry n E fds t)"
  by (induction n) (auto intro!: pinned_intros)

lemma pinned_wait_poll:
  assumes "env_ok E"
  shows "keeps (pinned c) (wait_poll fuel E t mode)"
proof -
  have "keeps (pinned c) (act_bind (ppoll_retry fuel E fds t) (\<lambda>revs.
      act_bind (wait_scan E pos revs True conns) (\<lambda>timed_out.
        if timed_out \<and> mode \<noteq> MODE_TIMEOUT then act_throw Runtime_error else act_return (length fds))))" for fds pos conns
    by (intro pinned_intros pinned_wait_scan pinned_ppoll_retry assms)
  then show ?thesis by (auto simp: wait_poll_def keeps_def Let_def split: prod.split)
qed

lemma pinned_wait: "env_ok E \<Longrightarrow> keeps (pinned c) (inst_wait fuel E)"
proof -
  assume E: "env_ok E"
  have "keeps (pinned c) (wait_loop n fuel E t mode)" for n t mode
    by (induction n) (auto intro!: pinned_intros pinned_wait_poll E)
  then show ?thesis unfolding inst_wait_def by (intro pinned_intros)
qed

lemmas pinned_instructions = pinned_variables pinned_sort pinned_data pinned_messages pinned_wait

definition jumps :: "string list" where
  "jumps = [''goto'', ''call'', ''if'', ''return'', ''exit'']"

lemma keeps_lookup:
  "list_all (\<lambda>(n, f). n = name \<longrightarrow> keeps I f) table \<Longrightarrow>
     keeps I (case map_of table name of None \<Rightarrow> act_throw e | Some f \<Rightarrow> f)"
  by (auto simp: list_all_iff split: option.split dest!: map_of_SomeD)

lemma pinned_inst_func:
  assumes "env_ok E" and "name \<notin> set jumps"
  shows "keeps (pinned c) (inst_func fuel E name)"
proof -
  have "keeps (pinned c) inst_label" "keeps (pinned c) inst_run" by (simp_all add: inst_label_def inst_run_def)
  with assms show ?thesis
    unfolding inst_func_def by (intro keeps_lookup) (simp add: jumps_def pinned_instructions, blast)
qed

section \<open>Instructions that jump\<close>

lemma jump_result:
  "jump name w = (Inr (), w') \<Longrightarrow> labels_ok (x_state w) \<Longrightarrow>
     (case flow (x_state w) of (ip, stack, prog, labels) \<Rightarrow>
        \<exists>p. flow (x_state w') = (p, stack, prog, labels) \<and> p < length prog \<and>
          sm_instruction (prog ! p) = ''label'' \<and> label_name (prog ! p) = Inr name)"
  by (auto simp: jump_def act_bind_def x_read_def x_change_def get_label_position_def set_ip_def flow_def labels_ok_def
      split: option.splits sum.splits if_splits)

lemma pinned_result: "keeps (pinned c) m \<Longrightarrow> m w = (r, w') \<Longrightarrow> flow (x_state w) = c \<Longrightarrow> flow (x_state w') = c"
  using keepsD [of "pinned c" m w] by simp

lemma flow_eq:
  "flow s = (ip, stack, prog, labels) \<longleftrightarrow> st_ip s = ip \<and> st_stack s = stack \<and> st_program s = prog \<and> st_labels s = labels"
  by (auto simp: flow_def)

lemma flow_labels_ok: "flow s = (ip, stack, prog, labels) \<Longrightarrow> flow s' = (ip', stack', prog, labels) \<Longrightarrow> labels_ok s = labels_ok s'"
  by (simp add: flow_eq labels_ok_def)

lemma pinned_bind_parameters: "keeps (pinned c) (bind_parameters E stmt ds)"
proof (induction ds)
  case (Cons d ds)
  have "keeps (pinned c) (x_change (bind_parameter E stmt d))"
    by (rule pinned_change)
       (auto simp: bind_parameter_def res_bind_eq_Inr st_add_parameter_def flow_def split: option.splits if_splits)
  with Cons show ?case by (auto intro: keeps_bind)
qed simp

lemma pinned_trace: "trace_ok trace \<Longrightarrow> keeps (pinned c) (case trace of None \<Rightarrow> act_return () | Some f \<Rightarrow> f b)"
  by (auto simp: trace_ok_def split: option.split intro: pinned_quiet)

lemma body_run:
  assumes "trace_ok trace" and "body fuel E trace stmt w = (Inr step, w')"
  shows "\<exists>w1 w2. flow (x_state w1) = flow (x_state w) \<and> inst_func fuel E (sm_instruction stmt) w1 = (Inr (), w2) \<and>
    flow (x_state w') = flow (x_state w2) \<and> step = STEP_CONTINUE"
proof -
  from assms(2) obtain w0 w1 w2 w3 where
      "bind_parameters E stmt (sm_declarations stmt) w = (Inr (), w0)"
      "(case trace of None \<Rightarrow> act_return () | Some f \<Rightarrow> f False) w0 = (Inr (), w1)"
      and run: "inst_func fuel E (sm_instruction stmt) w1 = (Inr (), w2)"
      and "(case trace of None \<Rightarrow> act_return () | Some f \<Rightarrow> f True) w2 = (Inr (), w3)"
      and "act_return STEP_CONTINUE w3 = (Inr step, w')"
    unfolding body_def by (auto dest!: act_bind_Inr)
  then have "flow (x_state w1) = flow (x_state w)" "flow (x_state w') = flow (x_state w2)" "step = STEP_CONTINUE"
    using pinned_result [OF pinned_bind_parameters] pinned_result [OF pinned_trace [OF assms(1)]]
    by (metis, metis act_return_def prod.inject, simp add: act_return_def)
  with run show ?thesis by blast
qed

text \<open>The edges of the control flow graph of the program \<open>P\<close>, with the stack of the return addresses.\<close>

definition at_label :: "'d statement list \<Rightarrow> nat \<Rightarrow> bool" where
  "at_label P ip \<longleftrightarrow> ip < length P \<and> sm_instruction (P ! ip) = ''label''"

definition edge :: "'d statement list \<Rightarrow> nat \<Rightarrow> nat list \<Rightarrow> nat \<Rightarrow> nat list \<Rightarrow> bool" where
  "edge P ip stack ip' stack' \<longleftrightarrow>
     (let name = sm_instruction (P ! ip) in
      if name = ''goto'' then at_label P ip' \<and> stack' = stack
      else if name = ''call'' then at_label P ip' \<and> stack' = Suc ip # stack
      else if name = ''if'' then (at_label P ip' \<or> ip' = Suc ip) \<and> stack' = stack
      else if name = ''return'' then stack = ip' # stack'
      else if name = ''exit'' then ip' = length P \<and> stack' = stack
      else ip' = Suc ip \<and> stack' = stack)"

lemma jump_edge:
  assumes "jump name w = (Inr (), w')" and "flow (x_state w) = (ip, stack, P, labels)" and "labels_ok (x_state w)"
  shows "at_label P (st_ip (x_state w')) \<and> st_stack (x_state w') = stack"
  using jump_result [OF assms(1,3)] assms(2) by (auto simp: at_label_def flow_eq)

lemma goto_edge:
  assumes "inst_goto w = (Inr (), w')" and "flow (x_state w) = (ip, stack, P, labels)" and "labels_ok (x_state w)"
  shows "at_label P (st_ip (x_state w')) \<and> st_stack (x_state w') = stack"
proof -
  from assms(1) obtain name w1 where "required_string ''label'' w = (Inr name, w1)" and jump: "jump name w1 = (Inr (), w')"
    unfolding inst_goto_def by (auto dest: act_bind_Inr)
  then have w1: "flow (x_state w1) = (ip, stack, P, labels)" using pinned_result [OF pinned_parameters(3)] assms(2) by blast
  show ?thesis using jump_edge [OF jump w1] flow_labels_ok [OF w1 assms(2)] assms(3) by simp
qed

lemma call_edge:
  assumes "inst_call w = (Inr (), w')" and "flow (x_state w) = (ip, stack, P, labels)" and "labels_ok (x_state w)"
  shows "at_label P (st_ip (x_state w')) \<and> st_stack (x_state w') = ip # stack"
proof -
  let ?w = "w\<lparr>x_state := push_ip (x_state w)\<rparr>"
  have "inst_goto ?w = (Inr (), w')" using assms(1)
    by (simp add: inst_call_def inst_goto_def act_bind_def x_update_def)
  moreover have "flow (x_state ?w) = (ip, ip # stack, P, labels)" "labels_ok (x_state ?w)"
    using assms(2,3) by (auto simp: push_ip_def flow_eq)
  ultimately show ?thesis by (rule goto_edge)
qed

lemma pinned_if_compare: "keeps (pinned c) (if_compare E)"
  unfolding if_compare_def by (intro pinned_intros)

lemma pinned_first_parameter: "keeps (pinned c) (first_parameter ns)"
  by (induction ns) (auto intro!: pinned_intros)

lemma if_edge:
  assumes "inst_if E w = (Inr (), w')" and c: "flow (x_state w) = (ip, stack, P, labels)" and "labels_ok (x_state w)"
  shows "(at_label P (st_ip (x_state w')) \<or> st_ip (x_state w') = ip) \<and> st_stack (x_state w') = stack"
proof -
  from assms(1) obtain k w1 p w2 where w1: "if_compare E w = (Inr k, w1)" and w2: "first_parameter (if_labels k) w1 = (Inr p, w2)"
      and rest: "(case p of None \<Rightarrow> act_return () | Some v \<Rightarrow> act_bind (act_lift (as_string v)) jump) w2 = (Inr (), w')"
    unfolding inst_if_def by (fastforce dest!: act_bind_Inr simp: act_throw_def split: if_splits)
  have w2: "flow (x_state w2) = (ip, stack, P, labels)"
    using pinned_result [OF pinned_if_compare w1 c] pinned_result [OF pinned_first_parameter w2] by blast
  show ?thesis
  proof (cases p)
    case None
    with rest w2 show ?thesis by (auto simp: act_return_def flow_eq)
  next
    case (Some v)
    with rest obtain name where "jump name w2 = (Inr (), w')" by (auto dest!: act_bind_Inr simp: act_lift_def)
    then show ?thesis using jump_edge [OF _ w2] flow_labels_ok [OF w2 c] assms(3) by blast
  qed
qed

lemma pinned_then:
  "act_bind m f w = (Inr b, w') \<Longrightarrow> flow (x_state w) = c \<Longrightarrow> keeps (pinned c) m \<Longrightarrow>
     \<exists>a w1. flow (x_state w1) = c \<and> f a w1 = (Inr b, w')"
  by (blast dest: act_bind_Inr pinned_result)

lemma exit_edge:
  assumes "inst_exit E w = (Inr (), w')" and c: "flow (x_state w) = (ip, stack, P, labels)" and E: "env_ok E"
  shows "st_ip (x_state w') = length P \<and> st_stack (x_state w') = stack"
proof -
  define finish :: "('a, 'b, unit) xact" where "finish = x_change (\<lambda>s. set_ip (length (st_program s)) s)"
  obtain w1 where "flow (x_state w1) = (ip, stack, P, labels)" and "finish w1 = (Inr (), w')"
    using assms(1) c unfolding inst_exit_def finish_def [symmetric]
    by (elim pinned_then [THEN exE] exE conjE)
       (rule pinned_intros pinned_exit_poll E | assumption)+
  then show ?thesis by (auto simp: finish_def x_change_def set_ip_def flow_eq split: if_splits)
qed

lemma inst_func_edge:
  assumes E: "env_ok E" and run: "inst_func fuel E (sm_instruction (P ! ip)) w = (Inr (), w')"
    and c: "flow (x_state w) = (Suc ip, stack, P, labels)" and "labels_ok (x_state w)"
  shows "edge P ip stack (st_ip (x_state w')) (st_stack (x_state w'))"
proof (cases "sm_instruction (P ! ip) \<in> set jumps")
  case False
  have "flow (x_state w') = (Suc ip, stack, P, labels)" by (rule pinned_result [OF pinned_inst_func [OF E False] run c])
  with False show ?thesis by (auto simp: edge_def jumps_def flow_eq Let_def)
next
  case True
  then consider "sm_instruction (P ! ip) = ''goto''" | "sm_instruction (P ! ip) = ''call''"
    | "sm_instruction (P ! ip) = ''if''" | "sm_instruction (P ! ip) = ''return''" | "sm_instruction (P ! ip) = ''exit''"
    by (auto simp: jumps_def)
  then show ?thesis
  proof cases
    case 1
    with run have "inst_goto w = (Inr (), w')" by (simp add: inst_func_def)
    from 1 goto_edge [OF this c assms(4)] show ?thesis by (simp add: edge_def)
  next
    case 2
    with run have "inst_call w = (Inr (), w')" by (simp add: inst_func_def)
    from 2 call_edge [OF this c assms(4)] show ?thesis by (simp add: edge_def)
  next
    case 3
    with run have "inst_if E w = (Inr (), w')" by (simp add: inst_func_def)
    from 3 if_edge [OF this c assms(4)] show ?thesis by (simp add: edge_def)
  next
    case 4
    with run have "x_change pop_ip w = (Inr (), w')" by (simp add: inst_func_def inst_return_def)
    with 4 c show ?thesis
      by (auto simp: edge_def x_change_def pop_ip_def flow_eq split: list.splits)
  next
    case 5
    with run have "inst_exit E w = (Inr (), w')" by (simp add: inst_func_def)
    from 5 exit_edge [OF this c E] show ?thesis by (simp add: edge_def)
  qed
qed

lemma step_edge:
  fixes E :: "('d, 'w) sys_env"
  assumes "env_ok E" and "trace_ok trace" and "exec_ok P (x_state w)" and "st_ip (x_state w) < length P"
    and "execute_instruction fuel E trace w = (Inr step, w')"
  shows "step \<noteq> STEP_DONE \<and>
    edge P (st_ip (x_state w)) (st_stack (x_state w)) (st_ip (x_state w')) (st_stack (x_state w'))"
proof -
  let ?s = "x_state w"
  define ip stmt where "ip = st_ip ?s" and "stmt = P ! ip"
  let ?w = "w\<lparr>x_state := enter_statement stmt ?s\<rparr>"
  have P: "st_program ?s = P" "labels_ok ?s" using assms(3) by (auto simp: exec_ok_def program_ok_def)
  have c: "flow (x_state ?w) = (Suc ip, st_stack ?s, P, st_labels ?s)" "labels_ok (x_state ?w)"
    using P by (auto simp: enter_statement_def flow_eq ip_def labels_ok_def)
  have step: "execute_instruction fuel E trace w =
     (if sm_instruction stmt = ''run'' then (if st_in_thread ?s then (Inl Runtime_error, ?w) else (Inr STEP_START, ?w))
      else body fuel E trace stmt ?w)"
    using execute_instruction_step [of w] assms(4) P by (simp add: Let_def stmt_def ip_def)
  show ?thesis
  proof (cases "sm_instruction stmt = ''run''")
    case True
    with step assms(5) have "step = STEP_START" "w' = ?w" by (auto split: if_splits)
    with True c show ?thesis by (simp add: edge_def stmt_def ip_def flow_eq)
  next
    case False
    with step assms(5) have "body fuel E trace stmt ?w = (Inr step, w')" by simp
    from body_run [OF assms(2) this] obtain w1 w2 where w1: "flow (x_state w1) = flow (x_state ?w)"
        and run: "inst_func fuel E (sm_instruction (P ! ip)) w1 = (Inr (), w2)"
        and w2: "flow (x_state w') = flow (x_state w2)" and "step = STEP_CONTINUE"
      unfolding stmt_def by blast
    have "edge P ip (st_stack ?s) (st_ip (x_state w2)) (st_stack (x_state w2))"
      using inst_func_edge [OF assms(1) run] w1 c flow_labels_ok by metis
    with w2 \<open>step = STEP_CONTINUE\<close> show ?thesis by (simp add: flow_def ip_def)
  qed
qed


section \<open>Programs that only go forward\<close>

text \<open>No \<^verbatim>\<open>return\<close>, and no label before or at an instruction that may jump to one.\<close>

definition forward :: "'d statement list \<Rightarrow> bool" where
  "forward P \<longleftrightarrow> (\<forall>ip < length P.
     sm_instruction (P ! ip) \<noteq> ''return'' \<and>
     (sm_instruction (P ! ip) \<in> set [''goto'', ''call'', ''if''] \<longrightarrow> (\<forall>p \<le> ip. \<not> at_label P p)))"

lemma forward_edge: "forward P \<Longrightarrow> ip < length P \<Longrightarrow> edge P ip stack ip' stack' \<Longrightarrow> ip < ip'"
  by (auto simp: forward_def edge_def Let_def not_le [symmetric] split: if_splits)

lemma start_loop_enough:
  assumes "env_ok E" and "trace_ok trace" and "forward P"
  shows "exec_ok P (x_state w) \<Longrightarrow> length P - st_ip (x_state w) \<le> k \<Longrightarrow> k < n \<Longrightarrow>
    start_loop n fuel E trace w = start_loop (Suc k) fuel E trace w"
proof (induction k arbitrary: n w)
  case 0
  then obtain m where n: "n = Suc m" by (cases n) auto
  have "execute_instruction fuel E trace w = (Inr STEP_DONE, w)"
    using 0 by (intro execute_instruction_done) (simp add: exec_ok_def)
  then show ?case by (simp add: n act_bind_def)
next
  case (Suc k)
  then obtain m where n: "n = Suc m" "k < m" by (cases n) auto
  obtain r w' where r: "execute_instruction fuel E trace w = (r, w')" by (cases "execute_instruction fuel E trace w")
  show ?case
  proof (cases "r = Inr STEP_CONTINUE")
    case True
    have ip: "st_ip (x_state w) < length P"
    proof (rule ccontr)
      assume "\<not> st_ip (x_state w) < length P"
      with Suc.prems(1) have "execute_instruction fuel E trace w = (Inr STEP_DONE, w)"
        by (intro execute_instruction_done) (simp add: exec_ok_def)
      with r True show False by simp
    qed
    have "st_ip (x_state w) < st_ip (x_state w')"
      using step_edge [OF assms(1,2) Suc.prems(1) ip] r True forward_edge [OF assms(3) ip] by blast
    moreover have "exec_ok P (x_state w')"
      using step_keeps(1) [OF assms(1,2), of P w fuel] Suc.prems(1) r by (simp add: running_ok_def)
    ultimately have "start_loop m fuel E trace w' = start_loop (Suc k) fuel E trace w'"
      using Suc n ip by (intro Suc.IH) auto
    with n r True show ?thesis by (simp add: act_bind_def del: start_loop.simps) (simp add: act_bind_def)
  next
    case False
    with n r show ?thesis by (cases r) (auto simp: act_bind_def split: step_t.split)
  qed
qed


section \<open>A program to try the theorems on\<close>

definition demo_sys_env :: "(unit, unit) sys_env" where
  "demo_sys_env =
     \<lparr>to_u8 = (\<lambda>_. []), convert_integer = (\<lambda>_. None), convert_double = (\<lambda>_. None), double_zero = (), double_nan = (),
      timespec_from_date = (\<lambda>_. Inl Runtime_error), timespec_from_string = (\<lambda>_. Inl Runtime_error),
      parse_address = (\<lambda>_. Inl Runtime_error),
      d_add = (\<lambda>_ _. ()), d_sub = (\<lambda>_ _. ()), d_mul = (\<lambda>_ _. ()), d_div = (\<lambda>_ _. ()), d_fmod = (\<lambda>_ _. ()),
      d_neg = (\<lambda>_. ()), d_less = (\<lambda>_ _. False), d_isnan = (\<lambda>_. False), d_of_int = (\<lambda>_. ()), d_to_string = (\<lambda>_. ''0.0''),
      ts_add = (\<lambda>a _. a), ts_sub = (\<lambda>a _. a), ts_of_double = (\<lambda>_. (0, 0)), ts_to_timestamp = (\<lambda>_. []),
      escape_regex = (\<lambda>s. s), address_ranges = (\<lambda>_. []), ranges_less = (\<lambda>_ _. False), range_from = (\<lambda>s. s),
      address_plus = (\<lambda>s _. s), address_minus = (\<lambda>s _. s), address_distance = (\<lambda>_ _. 0), address_port = (\<lambda>_. 0),
      address_string = (\<lambda>_ s. s),
      d_equal = (\<lambda>_ _. True), int_to_hex = (\<lambda>_ _ _. []), to_upper = (\<lambda>s. s), string_replace_many = (\<lambda>s _. s),
      regex_match = (\<lambda>_ _. Inr False), ts_to_short_timestamp = (\<lambda>_. []), sigabbrev = (\<lambda>_. None),
      sys_gethostname = (\<lambda>w. (''localhost'', w)), sys_get_pid_max = (\<lambda>w. (32768, w)), sys_now = (\<lambda>w. ((0, 0), w)),
      sys_rand = (\<lambda>w. (4, w)), sys_cout = (\<lambda>_ w. w), sys_cerr = (\<lambda>_ w. w), sys_nanosleep = (\<lambda>_ w. (True, w)),
      sys_pthread_kill = (\<lambda>_ w. (True, w)), sys_ppoll = (\<lambda>fds _ w. (Inr (map (\<lambda>_. 0) fds), w)),
      c_is_listener = (\<lambda>_ _. False), c_is_signal = (\<lambda>_ _. False), c_signal_object = (\<lambda>_. False),
      c_is_reader = (\<lambda>_ _. True), c_is_writer = (\<lambda>_ _. False), c_get_socket = (\<lambda>_ _. 3),
      c_open = (\<lambda>_ _ w. (Inr (), w)), c_process = (\<lambda>_ _. act_return ()), c_write = (\<lambda>_ _. act_return ()),
      c_send_message = (\<lambda>_ _. act_return ())\<rparr>"

lemma demo_sys_env_ok: "env_ok demo_sys_env"
  by (simp add: env_ok_def quiet_def demo_sys_env_def act_return_def)

text \<open>\<^verbatim>\<open>call(label: a) exit() label(name: a)\<close>, stopped before its first instruction.\<close>

definition demo_statement :: "string \<Rightarrow> (string \<times> string) list \<Rightarrow> unit statement" where
  "demo_statement name params = \<lparr>sm_instruction = name,
     sm_declarations = (case get_instruction name of None \<Rightarrow> [] | Some ds \<Rightarrow> ds), sm_filename = [], sm_line = 1,
     sm_parameters = map (\<lambda>(n, v). (n, primary_expr (demo_token TOKEN_IDENTIFIER v))) params\<rparr>"

definition demo_program :: "unit statement list" where
  "demo_program = [demo_statement ''call'' [(''label'', ''a'')], demo_statement ''exit'' [],
     demo_statement ''label'' [(''name'', ''a'')]]"

definition demo_state :: "unit state" where
  "demo_state = new_state\<lparr>st_program := demo_program, st_labels := [(''a'', 2)]\<rparr>"

lemmas demo_defs = demo_state_def demo_program_def demo_statement_def demo_token_def primary_expr_def new_state_def
  get_instruction_def g_instructions_def

lemma demo_labels_ok: "labels_ok demo_state"
  unfolding labels_ok_def
proof (intro allI)
  fix name and p :: nat
  have size: "length (st_program demo_state) = 3" by (simp add: demo_defs)
  have others: "sm_instruction (st_program demo_state ! 0) \<noteq> ''label''" "sm_instruction (st_program demo_state ! 1) \<noteq> ''label''"
    by (simp_all add: demo_defs)
  have label: "sm_instruction (st_program demo_state ! 2) = ''label''" "label_name (st_program demo_state ! 2) = Inr ''a''"
    by (simp_all add: demo_defs label_name_def stmt_get_parameter_def)
  have labels: "map_of (st_labels demo_state) name = (if name = ''a'' then Some 2 else None)" by (simp add: demo_defs)
  consider "p = 0" | "p = 1" | "p = 2" | "p \<ge> 3" by linarith
  then show "(map_of (st_labels demo_state) name = Some p) =
      (p < length (st_program demo_state) \<and> sm_instruction (st_program demo_state ! p) = ''label'' \<and>
       label_name (st_program demo_state ! p) = Inr name)"
    using others label by cases (auto simp: labels size)
qed

lemma demo_exec_ok: "exec_ok demo_program demo_state"
proof -
  have "list_all stmt_wf demo_program"
    by (simp add: demo_defs stmt_wf_def declared_def param_tables g_exit_params_def param_def)
  then have "program_ok demo_state"
    using demo_labels_ok by (simp add: program_ok_def list_all_iff) (simp add: demo_state_def)
  then show ?thesis by (simp add: exec_ok_def) (simp add: demo_state_def new_state_def vars_ok_def)
qed

lemma no_trace_ok: "trace_ok None"
  by (simp add: trace_ok_def)

lemma demo_step:
  "case execute_instruction 1 demo_sys_env None \<lparr>x_state = demo_state, x_sys = ()\<rparr> of (r, w) \<Rightarrow>
     r = Inr STEP_CONTINUE \<and> st_ip (x_state w) = 2 \<and> st_stack (x_state w) = [1]"
  by code_simp


lemma demo_forward: "forward demo_program"
  by (auto simp: forward_def at_label_def demo_defs less_Suc_eq numeral_2_eq_2)


theorem executor_type_safe_witness:
  "exec_ok demo_program (x_state (snd (start_loop 4 1 demo_sys_env None \<lparr>x_state = demo_state, x_sys = ()\<rparr>))) \<and>
   fst (start_loop 4 1 demo_sys_env None \<lparr>x_state = demo_state, x_sys = ()\<rparr>) \<noteq> Inl Bad_cast"
proof -
  have "\<forall>st \<in> set demo_program. sm_instruction st \<noteq> ''send_data'' \<and> sm_instruction st \<noteq> ''verify_data''"
    by (simp add: demo_program_def demo_statement_def)
  then show ?thesis
    using executor_type_safe [OF demo_sys_env_ok no_trace_ok demo_exec_ok, where n = 4 and fuel = 1 and sys = "()"]
    unfolding Let_def by blast
qed


definition demo_sort_state :: "unit state" where
  "demo_sort_state = new_state\<lparr>
     st_parameters := [(''var1'', variable_string ''var1'' ''identifier'' ''x''), (''var2'', variable_string ''var2'' ''identifier'' ''y'')],
     st_variables := [(''x'', variable_integer ''x'' 5), (''y'', variable_integer ''y'' (-3))]\<rparr>"

theorem sort_sorts_distinct_values_witness:
  "\<exists>w'. inst_sort demo_sys_env \<lparr>x_state = demo_sort_state, x_sys = ()\<rparr> = (Inr (), w') \<and>
     get_variable ''x'' (x_state w') = Some (variable_integer ''x'' (-3)) \<and>
     get_variable ''y'' (x_state w') = Some (variable_integer ''y'' 5)"
proof -
  have call: "sort_call [''x'', ''y''] [5, -3] (x_state \<lparr>x_state = demo_sort_state, x_sys = ()\<rparr>)"
    by code_simp
  have "sort_key sint [5, -3 :: i64] = [-3, 5]" by code_simp
  with sort_sorts_distinct_values [OF call, of demo_sys_env] show ?thesis by auto
qed

end
