(* ===== verification/Executor_Poll.thy ===== *)
theory Executor_Poll
  imports Executor_Control
begin

text \<open>
  How \<^verbatim>\<open>wait()\<close> and \<^verbatim>\<open>exit(timeout: ...)\<close> of the reporter's language poll the connections of the
  interpreter: which events a connection is told about, and when waiting comes to an end.
\<close>

section \<open>Whose events\<close>

definition pollfd_of :: "('d, 'w) sys_env \<Rightarrow> bool \<Rightarrow> 'w \<Rightarrow> rconn \<Rightarrow> pollfd" where
  "pollfd_of E drain sys c = \<lparr>fd_fd = c_get_socket E c sys, fd_events = c_events E drain c sys, fd_revents = 0\<rparr>"

lemma fds_of_positions:
  assumes "fds_of E drain sys cs fds pos = (fds', pos')"
    and "\<And>c i. map_of pos c = Some i \<Longrightarrow> i < length fds \<and> fds ! i = pollfd_of E drain sys c"
  shows "map_of pos' c = Some i \<Longrightarrow> i < length fds' \<and> fds' ! i = pollfd_of E drain sys c"
    and "map_of pos' c \<noteq> None \<longleftrightarrow> map_of pos c \<noteq> None \<or> c \<in> set cs \<and> c_events E drain c sys \<noteq> 0"
proof -
  have "(\<forall>i. map_of pos' c = Some i \<longrightarrow> i < length fds' \<and> fds' ! i = pollfd_of E drain sys c) \<and>
    (map_of pos' c \<noteq> None \<longleftrightarrow> map_of pos c \<noteq> None \<or> c \<in> set cs \<and> c_events E drain c sys \<noteq> 0)"
    using assms
  proof (induction cs arbitrary: fds pos)
    case (Cons d cs)
    show ?case
    proof (cases "c_events E drain d sys = 0")
      case True
      with Cons.IH [of fds pos] Cons.prems show ?thesis by (auto simp: Let_def)
    next
      case False
      let ?fds = "fds @ [pollfd_of E drain sys d]" and ?pos = "(d, length fds) # pos"
      have "fds_of E drain sys cs ?fds ?pos = (fds', pos')"
        using Cons.prems(1) False by (simp add: Let_def pollfd_of_def)
      moreover have "i < length ?fds \<and> ?fds ! i = pollfd_of E drain sys e" if "map_of ?pos e = Some i" for e i
        using that Cons.prems(2) [of e i] by (auto simp: nth_append split: if_splits)
      ultimately show ?thesis using Cons.IH [of ?fds ?pos] False by auto
    qed
  qed simp
  then show "map_of pos' c = Some i \<Longrightarrow> i < length fds' \<and> fds' ! i = pollfd_of E drain sys c"
    and "map_of pos' c \<noteq> None \<longleftrightarrow> map_of pos c \<noteq> None \<or> c \<in> set cs \<and> c_events E drain c sys \<noteq> 0"
    by blast+
qed

text \<open>
  The instructions \<^verbatim>\<open>wait()\<close> and \<^verbatim>\<open>exit()\<close> look the events of a connection up in a map of
  positions. A connection that was given to \<^verbatim>\<open>ppoll()\<close> gets the events of its own descriptor. One
  that was not, for example a reader while \<^verbatim>\<open>wait()\<close> drains the output, has no position; the map
  then gives 0, and the connection is called with the events of the first descriptor.
\<close>

theorem unpolled_connection_gets_first_events:
  assumes "fds_of E drain sys conns [] [] = (fds, pos)" and "fds \<noteq> []" and "length revs = length fds"
    and "c \<in> set conns"
  shows "if c_events E drain c sys = 0 then revents_of pos revs c = Inr (hd revs)
     else \<exists>i < length fds. revents_of pos revs c = Inr (revs ! i) \<and> fds ! i = pollfd_of E drain sys c"
proof (cases "c_events E drain c sys = 0")
  case True
  with fds_of_positions(2) [OF assms(1), of c] have "map_of pos c = None" by simp
  with True assms(2,3) show ?thesis by (cases revs) (auto simp: revents_of_def)
next
  case False
  with fds_of_positions(2) [OF assms(1), of c] assms(4) obtain i where "map_of pos c = Some i" by auto
  with False fds_of_positions(1) [OF assms(1), of c i] assms(3) show ?thesis by (auto simp: revents_of_def)
qed

definition demo_poll_env :: "(unit, unit) sys_env" where
  "demo_poll_env = demo_sys_env\<lparr>c_is_writer := (\<lambda>c _. c = Client CONNECTION_TYPE_TCP 1)\<rparr>"

theorem unpolled_connection_gets_first_events_witness:
  "revents_of [(Client CONNECTION_TYPE_TCP 1, 0)] [POLLOUT] (Client CONNECTION_TYPE_TCP 2) = Inr POLLOUT"
proof -
  let ?conns = "[Client CONNECTION_TYPE_TCP 1, Client CONNECTION_TYPE_TCP 2]"
  have fds: "fds_of demo_poll_env True () ?conns [] [] =
      ([pollfd_of demo_poll_env True () (Client CONNECTION_TYPE_TCP 1)], [(Client CONNECTION_TYPE_TCP 1, 0)])"
    by code_simp
  have none: "c_events demo_poll_env True (Client CONNECTION_TYPE_TCP 2) () = 0" by code_simp
  show ?thesis
    using unpolled_connection_gets_first_events [OF fds, of "[POLLOUT]" "Client CONNECTION_TYPE_TCP 2"] none by simp
qed

end
