(* ===== verification/Line_Buffer.thy ===== *)
theory Line_Buffer
  imports Communicator
begin

text \<open>
  The connections that read lines and buffer what they write: \<^verbatim>\<open>tcp_client_buffer_connection.cpp\<close>,
  \<^verbatim>\<open>tcp_server_client_buffer_connection.cpp\<close>, \<^verbatim>\<open>fd_buffer_connection.cpp\<close>, \<^verbatim>\<open>pipe_buffer_connection.cpp\<close> and
  the two \<^verbatim>\<open>local_stream_*_buffer_connection.cpp\<close>. The six classes have the same state and the same
  code but for the test that the descriptor is valid, the attempt to write at once and what a hang
  up does; the common code is written once and each class says what it has of it.
\<close>

section \<open>State and environment\<close>

text \<open>\<open>lb_peer\<close> is everything else: the descriptor, the rest of the connection and the program.\<close>

record 'u line_buffer =
  lb_line :: string
  lb_output :: string
  lb_position :: nat
  lb_peer :: 'u

type_synonym ('u, 'a) bact = "('u line_buffer, 'a) act"

text \<open>
  \<open>bf_read\<close> and \<open>bf_write\<close> are \<^verbatim>\<open>read()\<close> and \<^verbatim>\<open>write()\<close> of the base class; a negative result is \<open>Inl\<close> with
  \<^verbatim>\<open>errno\<close>, \<open>None\<close> when it is still 0. The \<open>bf_next\<close> fields are the callbacks of the base class, the
  others are virtual functions. On Linux \<^verbatim>\<open>EWOULDBLOCK\<close> is \<^verbatim>\<open>EAGAIN\<close>.
\<close>

record 'u buffer_env =
  bf_valid_socket :: "'u \<Rightarrow> bool"
  bf_fd_is_writer :: "'u \<Rightarrow> bool"
  bf_is_non_blocking :: "'u \<Rightarrow> bool"
  bf_read :: "nat \<Rightarrow> 'u \<Rightarrow> (errno option + string) \<times> 'u"
  bf_write :: "string \<Rightarrow> 'u \<Rightarrow> (errno option + nat) \<times> 'u"
  bf_current_date :: "'u \<Rightarrow> int \<times> 'u"
  bf_event_limit :: "'u \<Rightarrow> nat"
  bf_processing_time_limit :: "'u \<Rightarrow> int"
  bf_close :: "'u \<Rightarrow> 'u"
  bf_process_line :: "string \<Rightarrow> ('u, unit) bact"
  bf_process_empty_buffer :: "('u, unit) bact"
  bf_process_error :: "('u, unit) bact"
  bf_next_read :: "('u, unit) bact"
  bf_next_write :: "('u, unit) bact"
  bf_next_hup :: "('u, unit) bact"

definition new_line_buffer :: "'u \<Rightarrow> 'u line_buffer" where
  "new_line_buffer u = \<lparr>lb_line = [], lb_output = [], lb_position = 0, lb_peer = u\<rparr>"

definition bf_system :: "('u \<Rightarrow> 'a \<times> 'u) \<Rightarrow> ('u, 'a) bact" where
  "bf_system f w = (case f (lb_peer w) of (a, u) \<Rightarrow> (Inr a, w\<lparr>lb_peer := u\<rparr>))"

definition bf_update :: "('u line_buffer \<Rightarrow> 'u line_buffer) \<Rightarrow> ('u, unit) bact" where
  "bf_update f w = (Inr (), f w)"

text \<open>An error that is none: nothing to read or no room to write at this time.\<close>

definition would_block :: "errno option \<Rightarrow> bool" where
  "would_block e \<longleftrightarrow> e = None \<or> e = Some EAGAIN"

section \<open>The common code\<close>

definition bf_has_input :: "'u line_buffer \<Rightarrow> bool" where
  "bf_has_input w \<longleftrightarrow> lb_line w \<noteq> []"

definition bf_has_output :: "'u line_buffer \<Rightarrow> bool" where
  "bf_has_output w \<longleftrightarrow> lb_output w \<noteq> []"

definition buffer_cache :: "string \<Rightarrow> nat \<Rightarrow> ('u, errno + nat) bact" where
  "buffer_cache data n = act_bind (bf_update (\<lambda>w. w\<lparr>lb_output := lb_output w @ data\<rparr>)) (\<lambda>_. act_return (Inr n))"

text \<open>\<open>valid\<close> and \<open>at_once\<close> are the tests the classes differ in. A write that claims to have written more
  than it was given would move the pointer out of the data.\<close>

definition buffer_write :: "('u \<Rightarrow> bool) \<Rightarrow> ('u \<Rightarrow> bool) \<Rightarrow> 'u buffer_env \<Rightarrow> string \<Rightarrow> ('u, errno + nat) bact" where
  "buffer_write valid at_once E data w =
     (if \<not> valid (lb_peer w) then (Inr (Inl EBADF), w)
      else if data \<noteq> [] then
        (if lb_output w = [] \<and> at_once (lb_peer w) then
           act_bind (bf_system (bf_write E data)) (\<lambda>r.
             case r of
               Inl e \<Rightarrow> buffer_cache data (length data)
             | Inr n \<Rightarrow>
                 if n > length data then act_throw Undefined_behaviour
                 else if n = length data then
                   act_bind (bf_process_empty_buffer E) (\<lambda>_. act_return (Inr (length data)))
                 else buffer_cache (drop n data) (length data)) w
         else buffer_cache data (length data) w)
      else
        act_bind (act_when (lb_output w = []) (bf_process_empty_buffer E)) (\<lambda>_. act_return (Inr 0)) w)"

lemma length_dropWhile_less: "xs \<noteq> [] \<Longrightarrow> length (dropWhile P xs) - Suc 0 < length xs"
  using length_dropWhile_le [of P xs] by (cases xs) auto

text \<open>The inner loop: the characters \<^verbatim>\<open>read()\<close> returned, cut at the new lines; the result is the number of
  lines.\<close>

function chunk_loop :: "'u buffer_env \<Rightarrow> string \<Rightarrow> nat \<Rightarrow> ('u, nat) bact" where
  "chunk_loop E buf count =
     (if buf = [] then act_return count
      else
        let pre = takeWhile (\<lambda>c. c \<noteq> CHR 0x0A) buf; post = dropWhile (\<lambda>c. c \<noteq> CHR 0x0A) buf in
        act_bind (bf_update (\<lambda>w. w\<lparr>lb_line := lb_line w @ pre\<rparr>)) (\<lambda>_.
          if post = [] then act_return count
          else act_bind (\<lambda>w. bf_process_line E (lb_line w) w) (\<lambda>_.
            act_bind (bf_update (\<lambda>w. w\<lparr>lb_line := []\<rparr>)) (\<lambda>_.
            chunk_loop E (tl post) (count + 1)))))"
  by pat_completeness auto
termination
  by (relation "measure (\<lambda>(E, buf, count). length buf)") (auto simp: length_dropWhile_less)

declare chunk_loop.simps [simp del]

text \<open>The outer loop; its result says whether the callback of the base class is called next. The
  peer may send for ever, so it counts its turns.\<close>

fun read_lines :: "nat \<Rightarrow> 'u buffer_env \<Rightarrow> nat \<Rightarrow> int \<Rightarrow> ('u, bool) bact" where
  "read_lines 0 E count date_limit = act_throw No_fuel"
| "read_lines (Suc fuel) E count date_limit =
     act_bind (bf_system (bf_read E 1024)) (\<lambda>r.
       case r of
         Inr buf \<Rightarrow>
           if buf \<noteq> [] then
             act_bind (chunk_loop E buf count) (\<lambda>count'. \<lambda>w.
               if count' \<ge> bf_event_limit E (lb_peer w) then (Inr True, w)
               else act_bind (bf_system (bf_current_date E)) (\<lambda>date.
                 if date \<ge> date_limit then act_return True else read_lines fuel E count' date_limit) w)
           else act_return True
       | Inl e \<Rightarrow> if would_block e then act_return True
                else act_bind (bf_process_error E) (\<lambda>_. act_return False))"

definition buffer_process_read :: "nat \<Rightarrow> 'u buffer_env \<Rightarrow> ('u, unit) bact" where
  "buffer_process_read fuel E w =
     (if bf_valid_socket E (lb_peer w) then
        act_bind (bf_system (bf_current_date E)) (\<lambda>date. \<lambda>w'.
          act_bind (read_lines fuel E 0 (date + bf_processing_time_limit E (lb_peer w')))
            (\<lambda>ok. act_when ok (bf_next_read E)) w') w
      else bf_next_read E w)"

text \<open>\<^verbatim>\<open>&f_output[f_position]\<close> is undefined behind the end of the vector.\<close>

definition buffer_process_write :: "'u buffer_env \<Rightarrow> ('u, unit) bact" where
  "buffer_process_write E w =
     (if bf_valid_socket E (lb_peer w) then
        if lb_position w \<ge> length (lb_output w) then (Inl Undefined_behaviour, w)
        else act_bind (bf_system (bf_write E (drop (lb_position w) (lb_output w)))) (\<lambda>r.
          case r of
            Inr n \<Rightarrow>
              act_bind
                (if n > 0 then
                   (\<lambda>w. if lb_position w + n \<ge> length (lb_output w)
                        then act_bind (bf_update (\<lambda>w. w\<lparr>lb_output := [], lb_position := 0\<rparr>))
                               (\<lambda>_. bf_process_empty_buffer E) w
                        else bf_update (\<lambda>w. w\<lparr>lb_position := lb_position w + n\<rparr>) w)
                 else act_return ()) (\<lambda>_. bf_next_write E)
          | Inl e \<Rightarrow> if would_block e then bf_next_write E else bf_process_error E) w
      else bf_next_write E w)"

definition buffer_process_hup :: "'u buffer_env \<Rightarrow> ('u, unit) bact" where
  "buffer_process_hup E =
     act_bind (bf_update (\<lambda>w. w\<lparr>lb_peer := bf_close E (lb_peer w)\<rparr>)) (\<lambda>_. bf_next_hup E)"

section \<open>The classes\<close>

definition tcp_client_is_writer :: "'u buffer_env \<Rightarrow> 'u line_buffer \<Rightarrow> bool" where
  "tcp_client_is_writer E w \<longleftrightarrow> bf_valid_socket E (lb_peer w) \<and> bf_has_output w"

definition tcp_client_write :: "'u buffer_env \<Rightarrow> string \<Rightarrow> ('u, errno + nat) bact" where
  "tcp_client_write E = buffer_write (bf_valid_socket E) (bf_is_non_blocking E) E"

definition tcp_client_process_read :: "nat \<Rightarrow> 'u buffer_env \<Rightarrow> ('u, unit) bact" where
  "tcp_client_process_read = buffer_process_read"

definition tcp_client_process_write :: "'u buffer_env \<Rightarrow> ('u, unit) bact" where
  "tcp_client_process_write = buffer_process_write"

definition tcp_client_process_hup :: "'u buffer_env \<Rightarrow> ('u, unit) bact" where
  "tcp_client_process_hup = buffer_process_hup"

definition tcp_server_client_is_writer :: "'u buffer_env \<Rightarrow> 'u line_buffer \<Rightarrow> bool" where
  "tcp_server_client_is_writer E w \<longleftrightarrow> bf_valid_socket E (lb_peer w) \<and> lb_output w \<noteq> []"

definition tcp_server_client_write :: "'u buffer_env \<Rightarrow> string \<Rightarrow> ('u, errno + nat) bact" where
  "tcp_server_client_write E = buffer_write (bf_valid_socket E) (bf_is_non_blocking E) E"

definition tcp_server_client_process_read :: "nat \<Rightarrow> 'u buffer_env \<Rightarrow> ('u, unit) bact" where
  "tcp_server_client_process_read = buffer_process_read"

definition tcp_server_client_process_write :: "'u buffer_env \<Rightarrow> ('u, unit) bact" where
  "tcp_server_client_process_write = buffer_process_write"

definition tcp_server_client_process_hup :: "'u buffer_env \<Rightarrow> ('u, unit) bact" where
  "tcp_server_client_process_hup = buffer_process_hup"

definition fd_is_writer :: "'u buffer_env \<Rightarrow> 'u line_buffer \<Rightarrow> bool" where
  "fd_is_writer E w \<longleftrightarrow> lb_output w \<noteq> [] \<and> bf_fd_is_writer E (lb_peer w)"

definition fd_write :: "'u buffer_env \<Rightarrow> string \<Rightarrow> ('u, errno + nat) bact" where
  "fd_write E = buffer_write (\<lambda>u. bf_valid_socket E u \<and> bf_fd_is_writer E u) (\<lambda>_. False) E"

definition fd_process_read :: "nat \<Rightarrow> 'u buffer_env \<Rightarrow> ('u, unit) bact" where
  "fd_process_read = buffer_process_read"

definition fd_process_write :: "'u buffer_env \<Rightarrow> ('u, unit) bact" where
  "fd_process_write = buffer_process_write"

text \<open>The descriptor belongs to someone else and is not closed.\<close>

definition fd_process_hup :: "'u buffer_env \<Rightarrow> ('u, unit) bact" where
  "fd_process_hup E = bf_next_hup E"

definition local_client_is_writer :: "'u buffer_env \<Rightarrow> 'u line_buffer \<Rightarrow> bool" where
  "local_client_is_writer E w \<longleftrightarrow> bf_valid_socket E (lb_peer w) \<and> lb_output w \<noteq> []"

definition local_client_write :: "'u buffer_env \<Rightarrow> string \<Rightarrow> ('u, errno + nat) bact" where
  "local_client_write E = buffer_write (bf_valid_socket E) (\<lambda>_. False) E"

definition local_client_process_read :: "nat \<Rightarrow> 'u buffer_env \<Rightarrow> ('u, unit) bact" where
  "local_client_process_read = buffer_process_read"

definition local_client_process_write :: "'u buffer_env \<Rightarrow> ('u, unit) bact" where
  "local_client_process_write = buffer_process_write"

definition local_client_process_hup :: "'u buffer_env \<Rightarrow> ('u, unit) bact" where
  "local_client_process_hup = buffer_process_hup"

definition local_server_client_is_writer :: "'u buffer_env \<Rightarrow> 'u line_buffer \<Rightarrow> bool" where
  "local_server_client_is_writer E w \<longleftrightarrow> bf_valid_socket E (lb_peer w) \<and> lb_output w \<noteq> []"

definition local_server_client_write :: "'u buffer_env \<Rightarrow> string \<Rightarrow> ('u, errno + nat) bact" where
  "local_server_client_write E = buffer_write (bf_valid_socket E) (\<lambda>_. False) E"

definition local_server_client_process_read :: "nat \<Rightarrow> 'u buffer_env \<Rightarrow> ('u, unit) bact" where
  "local_server_client_process_read = buffer_process_read"

definition local_server_client_process_write :: "'u buffer_env \<Rightarrow> ('u, unit) bact" where
  "local_server_client_process_write = buffer_process_write"

definition local_server_client_process_hup :: "'u buffer_env \<Rightarrow> ('u, unit) bact" where
  "local_server_client_process_hup = buffer_process_hup"

definition pipe_is_writer :: "'u buffer_env \<Rightarrow> 'u line_buffer \<Rightarrow> bool" where
  "pipe_is_writer E w \<longleftrightarrow> bf_valid_socket E (lb_peer w) \<and> lb_output w \<noteq> []"

definition pipe_write :: "'u buffer_env \<Rightarrow> string \<Rightarrow> ('u, errno + nat) bact" where
  "pipe_write E = buffer_write (bf_valid_socket E) (\<lambda>_. False) E"

definition pipe_process_read :: "nat \<Rightarrow> 'u buffer_env \<Rightarrow> ('u, unit) bact" where
  "pipe_process_read = buffer_process_read"

definition pipe_process_write :: "'u buffer_env \<Rightarrow> ('u, unit) bact" where
  "pipe_process_write = buffer_process_write"

definition pipe_process_hup :: "'u buffer_env \<Rightarrow> ('u, unit) bact" where
  "pipe_process_hup = buffer_process_hup"

section \<open>What is read\<close>

definition join_lines :: "string list \<Rightarrow> string" where
  "join_lines ls = concat (map (\<lambda>l. l @ [CHR 0x0A]) ls)"

definition one_line :: "string \<Rightarrow> bool" where
  "one_line l \<longleftrightarrow> CHR 0x0A \<notin> set l"

text \<open>The bytes a peer sent so far (\<open>got\<close>) and the lines given to \<^verbatim>\<open>process_line()\<close> so far (\<open>seen\<close>) are
  read off the rest of the world: \<^verbatim>\<open>read()\<close> adds to the former, \<^verbatim>\<open>process_line()\<close> to the latter.\<close>

definition untouched :: "('u \<Rightarrow> string) \<Rightarrow> ('u \<Rightarrow> string list) \<Rightarrow> ('u, 'a) bact \<Rightarrow> bool" where
  "untouched got seen m \<longleftrightarrow> (\<forall>w. let w' = snd (m w) in
     got (lb_peer w') = got (lb_peer w) \<and> seen (lb_peer w') = seen (lb_peer w) \<and> lb_line w' = lb_line w)"

definition reads_lines :: "('u \<Rightarrow> string) \<Rightarrow> ('u \<Rightarrow> string list) \<Rightarrow> 'u buffer_env \<Rightarrow> bool" where
  "reads_lines got seen E \<longleftrightarrow>
     (\<forall>n u. let (r, u') = bf_read E n u in
        got u' = got u @ (case r of Inl e \<Rightarrow> [] | Inr buf \<Rightarrow> buf) \<and> seen u' = seen u) \<and>
     (\<forall>u. got (snd (bf_current_date E u)) = got u \<and> seen (snd (bf_current_date E u)) = seen u) \<and>
     (\<forall>l w w'. bf_process_line E l w = (Inr (), w') \<longrightarrow>
        got (lb_peer w') = got (lb_peer w) \<and> seen (lb_peer w') = seen (lb_peer w) @ [l] \<and> lb_line w' = lb_line w) \<and>
     untouched got seen (bf_process_error E) \<and> untouched got seen (bf_next_read E)"

text \<open>With \<open>buf\<close> still to be looked at.\<close>

definition in_step :: "('u \<Rightarrow> string) \<Rightarrow> ('u \<Rightarrow> string list) \<Rightarrow> string \<Rightarrow> 'u line_buffer \<Rightarrow> bool" where
  "in_step got seen buf w \<longleftrightarrow>
     got (lb_peer w) = join_lines (seen (lb_peer w)) @ lb_line w @ buf \<and>
     list_all one_line (seen (lb_peer w)) \<and> one_line (lb_line w)"

lemma join_lines_snoc: "join_lines (ls @ [l]) = join_lines ls @ l @ [CHR 0x0A]"
  by (simp add: join_lines_def)

lemma newline_cut: "dropWhile (\<lambda>c. c \<noteq> CHR 0x0A) buf = [] \<or> dropWhile (\<lambda>c. c \<noteq> CHR 0x0A) buf = CHR 0x0A # tl (dropWhile (\<lambda>c. c \<noteq> CHR 0x0A) buf)"
  by (induction buf) auto

lemma one_line_takeWhile: "one_line (takeWhile (\<lambda>c. c \<noteq> CHR 0x0A) buf)"
  by (auto simp: one_line_def dest: set_takeWhileD)

lemma one_line_append [simp]: "one_line (a @ b) \<longleftrightarrow> one_line a \<and> one_line b"
  by (auto simp: one_line_def)

lemma chunk_loop_Nil [simp]: "chunk_loop E [] n = act_return n"
  by (simp add: chunk_loop.simps)

lemma chunk_loop_rest: "one_line buf \<Longrightarrow> chunk_loop E buf n w = (Inr n, w\<lparr>lb_line := lb_line w @ buf\<rparr>)"
proof -
  assume "one_line buf"
  then have "takeWhile (\<lambda>c. c \<noteq> CHR 0x0A) buf = buf" "dropWhile (\<lambda>c. c \<noteq> CHR 0x0A) buf = []"
    by (auto simp: one_line_def takeWhile_eq_all_conv dropWhile_eq_Nil_conv)
  then show ?thesis
    by (cases "buf = []") (simp_all add: chunk_loop.simps [of E buf] act_bind_def bf_update_def act_return_def)
qed

lemma chunk_loop_line:
  assumes "one_line l"
  shows "chunk_loop E (l @ CHR 0x0A # rest) n w =
    act_bind (bf_process_line E (lb_line w @ l))
      (\<lambda>_ w'. chunk_loop E rest (n + 1) (w'\<lparr>lb_line := []\<rparr>)) (w\<lparr>lb_line := lb_line w @ l\<rparr>)"
proof -
  have "takeWhile (\<lambda>c. c \<noteq> CHR 0x0A) (l @ CHR 0x0A # rest) = l"
    "dropWhile (\<lambda>c. c \<noteq> CHR 0x0A) (l @ CHR 0x0A # rest) = CHR 0x0A # rest"
    using assms by (auto simp: one_line_def takeWhile_append dropWhile_append)
  then show ?thesis
    by (simp add: chunk_loop.simps [of E "l @ CHR 0x0A # rest"] act_bind_def bf_update_def split: prod.split sum.split)
qed

lemma line_cases:
  obtains (rest) "one_line buf" | (line) l r where "buf = l @ CHR 0x0A # r" "one_line l" "length r < length buf"
proof (cases "one_line buf")
  case False
  then obtain l r where "buf = l @ CHR 0x0A # r" "CHR 0x0A \<notin> set l"
    using split_list_first [of "CHR 0x0A" buf] by (auto simp: one_line_def)
  then show ?thesis by (intro line [of l r]) (auto simp: one_line_def)
qed (rule rest)

lemma chunk_in_step:
  assumes E: "reads_lines got seen E"
  shows "in_step got seen buf w \<Longrightarrow> chunk_loop E buf n w = (Inr m, w') \<Longrightarrow> in_step got seen [] w'"
proof (induction "length buf" arbitrary: buf n w rule: less_induct)
  case less
  show ?case
  proof (cases buf rule: line_cases)
    case rest
    with less.prems show ?thesis by (auto simp: chunk_loop_rest in_step_def)
  next
    case (line l r)
    let ?w = "w\<lparr>lb_line := lb_line w @ l\<rparr>"
    from less.prems(2) obtain w1 where w1: "bf_process_line E (lb_line w @ l) ?w = (Inr (), w1)"
        and run: "chunk_loop E r (n + 1) (w1\<lparr>lb_line := []\<rparr>) = (Inr m, w')"
      unfolding line(1) chunk_loop_line [OF line(2)] by (auto dest!: act_bind_Inr)
    have "got (lb_peer w1) = got (lb_peer w)" "seen (lb_peer w1) = seen (lb_peer w) @ [lb_line w @ l]"
      using E w1 unfolding reads_lines_def by (metis (no_types, lifting) line_buffer.select_convs(4) line_buffer.surjective line_buffer.update_convs(1))+
    then have "in_step got seen r (w1\<lparr>lb_line := []\<rparr>)"
      using less.prems(1) line by (simp add: in_step_def join_lines_snoc) (simp add: one_line_def)
    then show ?thesis by (rule less.hyps [OF line(3) _ run])
  qed
qed

lemma system_in_step:
  assumes "bf_system f w = (Inr a, w')" and "\<And>u. got (snd (f u)) = got u \<and> seen (snd (f u)) = seen u"
  shows "in_step got seen buf w' = in_step got seen buf w"
proof -
  have "w' = w\<lparr>lb_peer := snd (f (lb_peer w))\<rparr>" using assms(1) by (auto simp: bf_system_def split: prod.splits)
  with assms(2) show ?thesis by (simp add: in_step_def)
qed

lemma untouched_in_step: "untouched got seen m \<Longrightarrow> m w = (r, w') \<Longrightarrow> in_step got seen buf w' = in_step got seen buf w"
  unfolding untouched_def Let_def in_step_def by (metis snd_conv)

lemma read_in_step:
  assumes "reads_lines got seen E" and "in_step got seen [] w" and "bf_system (bf_read E n) w = (Inr r, w')"
  shows "in_step got seen (case r of Inl e \<Rightarrow> [] | Inr buf \<Rightarrow> buf) w'"
proof -
  obtain u' where u: "bf_read E n (lb_peer w) = (r, u')" "w' = w\<lparr>lb_peer := u'\<rparr>"
    using assms(3) by (auto simp: bf_system_def split: prod.splits)
  have "got u' = got (lb_peer w) @ (case r of Inl e \<Rightarrow> [] | Inr buf \<Rightarrow> buf)" "seen u' = seen (lb_peer w)"
    using assms(1) u(1) unfolding reads_lines_def by (auto simp: Let_def dest!: spec [of _ n] spec [of _ "lb_peer w"])
  with assms(2) show ?thesis by (simp add: in_step_def u(2))
qed

lemma read_lines_in_step:
  assumes E: "reads_lines got seen E"
  shows "in_step got seen [] w \<Longrightarrow> read_lines fuel E n limit w = (Inr ok, w') \<Longrightarrow> in_step got seen [] w'"
proof (induction fuel arbitrary: n w)
  case (Suc fuel)
  obtain r w1 where w1: "bf_system (bf_read E 1024) w = (Inr r, w1)"
    by (cases "bf_read E 1024 (lb_peer w)") (simp add: bf_system_def)
  note step = read_in_step [OF E Suc.prems(1) w1]
  show ?case
  proof (cases r)
    case (Inl e)
    have "untouched got seen (bf_process_error E)" using E by (simp add: reads_lines_def)
    with step Inl Suc.prems(2) w1 show ?thesis
      by (auto simp: act_bind_def act_return_def dest: untouched_in_step split: if_splits prod.splits sum.splits)
  next
    case (Inr buf)
    show ?thesis
    proof (cases "buf = []")
      case True
      with Inr step Suc.prems(2) w1 show ?thesis by (simp add: act_bind_def act_return_def)
    next
      case False
      with Inr Suc.prems(2) w1 obtain m w2 where w2: "chunk_loop E buf n w1 = (Inr m, w2)"
          and rest: "(if m \<ge> bf_event_limit E (lb_peer w2) then (Inr True, w2)
             else act_bind (bf_system (bf_current_date E)) (\<lambda>date.
                 if date \<ge> limit then act_return True else read_lines fuel E m limit) w2) = (Inr ok, w')"
        by (auto simp: act_bind_def split: prod.splits sum.splits)
      have in2: "in_step got seen [] w2" using chunk_in_step [OF E _ w2] step Inr by simp
      show ?thesis
      proof (cases "m \<ge> bf_event_limit E (lb_peer w2)")
        case False
        with rest obtain date w3 where w3: "bf_system (bf_current_date E) w2 = (Inr date, w3)"
            and "(if date \<ge> limit then act_return True else read_lines fuel E m limit) w3 = (Inr ok, w')"
          by (auto dest!: act_bind_Inr)
        moreover have "in_step got seen [] w3"
          using system_in_step [OF w3] in2 E by (auto simp: reads_lines_def)
        ultimately show ?thesis using Suc.IH by (auto simp: act_return_def split: if_splits)
      qed (use rest in2 in auto)
    qed
  qed
qed (simp add: act_throw_def)

lemma process_read_in_step:
  assumes "reads_lines got seen E" and "in_step got seen [] w" and "buffer_process_read fuel E w = (Inr (), w')"
  shows "in_step got seen [] w'"
proof -
  have after: "untouched got seen (bf_next_read E)" using assms(1) by (simp add: reads_lines_def)
  show ?thesis
  proof (cases "bf_valid_socket E (lb_peer w)")
    case False
    with assms(2,3) untouched_in_step [OF after] show ?thesis by (simp add: buffer_process_read_def)
  next
    case True
    with assms(3) obtain date w1 where w1: "bf_system (bf_current_date E) w = (Inr date, w1)"
        and run: "act_bind (read_lines fuel E 0 (date + bf_processing_time_limit E (lb_peer w1)))
            (\<lambda>ok. act_when ok (bf_next_read E)) w1 = (Inr (), w')"
      unfolding buffer_process_read_def by (simp, blast dest: act_bind_Inr)
    from act_bind_Inr [OF run] obtain ok w2
      where w2: "read_lines fuel E 0 (date + bf_processing_time_limit E (lb_peer w1)) w1 = (Inr ok, w2)"
        and last: "act_when ok (bf_next_read E) w2 = (Inr (), w')" by blast
    have "in_step got seen [] w1" using system_in_step [OF w1] assms(1,2) by (auto simp: reads_lines_def)
    then have "in_step got seen [] w2" by (rule read_lines_in_step [OF assms(1) _ w2])
    with last untouched_in_step [OF after] show ?thesis
      by (cases ok) (auto simp: act_when_def act_return_def)
  qed
qed

text \<open>
  C7 (invariant): however the peer and the kernel cut the stream into pieces, and wherever the limits on
  lines and time interrupt the reading, the lines given to \<^verbatim>\<open>process_line()\<close> are at any time exactly
  the complete lines among the bytes received, each once and in order and without its new line,
  and \<^verbatim>\<open>f_line\<close> holds the characters of the line that is not complete.\<close>

theorem lines_are_exact:
  assumes "reads_lines got seen E" and "in_step got seen [] w" and "buffer_process_read fuel E w = (Inr (), w')"
  shows "got (lb_peer w') = join_lines (seen (lb_peer w')) @ lb_line w' \<and>
    (\<forall>l \<in> set (lb_line w' # seen (lb_peer w')). CHR 0x0A \<notin> set l)"
  using process_read_in_step [OF assms] by (auto simp: in_step_def one_line_def list_all_iff)

section \<open>What is written\<close>

text \<open>The bytes given to the kernel so far (\<open>sent\<close>), then the bytes that wait: what the connection was
  asked to write. The documented behaviour of \<^verbatim>\<open>write()\<close>: it takes a prefix.\<close>

definition stream :: "('u \<Rightarrow> string) \<Rightarrow> 'u line_buffer \<Rightarrow> string" where
  "stream sent w = sent (lb_peer w) @ drop (lb_position w) (lb_output w)"

definition output_ok :: "'u line_buffer \<Rightarrow> bool" where
  "output_ok w \<longleftrightarrow> (if lb_output w = [] then lb_position w = 0 else lb_position w < length (lb_output w))"

definition steady_stream :: "('u \<Rightarrow> string) \<Rightarrow> ('u, 'a) bact \<Rightarrow> bool" where
  "steady_stream sent m \<longleftrightarrow> (\<forall>w. output_ok w \<longrightarrow>
     output_ok (snd (m w)) \<and> stream sent (snd (m w)) = stream sent w \<and> fst (m w) \<noteq> Inl Undefined_behaviour)"

definition writes_prefix :: "('u \<Rightarrow> string) \<Rightarrow> 'u buffer_env \<Rightarrow> bool" where
  "writes_prefix sent E \<longleftrightarrow>
     (\<forall>d u. case bf_write E d u of
        (Inr n, u') \<Rightarrow> n \<le> length d \<and> sent u' = sent u @ take n d
      | (Inl e, u') \<Rightarrow> sent u' = sent u) \<and>
     steady_stream sent (bf_process_empty_buffer E) \<and> steady_stream sent (bf_process_error E) \<and>
     steady_stream sent (bf_next_write E)"

lemma writes_prefixD:
  assumes "writes_prefix sent E"
  shows "bf_write E d u = (Inr n, u') \<Longrightarrow> n \<le> length d \<and> sent u' = sent u @ take n d"
    and "bf_write E d u = (Inl e, u') \<Longrightarrow> sent u' = sent u"
  using assms unfolding writes_prefix_def by (auto dest!: spec [of _ d] spec [of _ u])

text \<open>Every result an action can return with satisfies \<open>Q\<close>, and it is not undefined.\<close>

definition wp :: "('a \<Rightarrow> 'u line_buffer \<Rightarrow> bool) \<Rightarrow> ('u, 'a) bact \<Rightarrow> 'u line_buffer \<Rightarrow> bool" where
  "wp Q m w \<longleftrightarrow> (case m w of (Inr a, w') \<Rightarrow> Q a w' | (Inl e, w') \<Rightarrow> e \<noteq> Undefined_behaviour)"

lemma wp_bind: "wp Q (act_bind m f) = wp (\<lambda>a. wp Q (f a)) m"
  by (auto simp: wp_def act_bind_def fun_eq_iff split: prod.splits sum.splits)

lemma wp_return: "wp Q (act_return a) = Q a"
  by (simp add: wp_def act_return_def fun_eq_iff)

lemma wp_update: "wp Q (bf_update g) = (\<lambda>w. Q () (g w))"
  by (simp add: wp_def bf_update_def fun_eq_iff)

lemmas wp_simps = wp_bind wp_return wp_update

lemma wp_steady:
  assumes "steady_stream sent m" and "output_ok w"
    and "\<And>a w'. output_ok w' \<Longrightarrow> stream sent w' = stream sent w \<Longrightarrow> Q a w'"
  shows "wp Q m w"
  using assms(1) [unfolded steady_stream_def, rule_format, OF assms(2)] assms(3)
  by (auto simp: wp_def split: prod.splits sum.splits)

lemma wp_write:
  assumes "writes_prefix sent E"
    and "\<And>n u'. n \<le> length d \<Longrightarrow> sent u' = sent (lb_peer w) @ take n d \<Longrightarrow> Q (Inr n) (w\<lparr>lb_peer := u'\<rparr>)"
    and "\<And>e u'. sent u' = sent (lb_peer w) \<Longrightarrow> Q (Inl e) (w\<lparr>lb_peer := u'\<rparr>)"
  shows "wp Q (bf_system (bf_write E d)) w"
proof (cases "bf_write E d (lb_peer w)")
  case (Pair r u')
  then show ?thesis
    using assms(2,3) writes_prefixD [OF assms(1)] by (cases r) (auto simp: wp_def bf_system_def)
qed

definition accepted :: "string \<Rightarrow> errno + nat \<Rightarrow> string" where
  "accepted data r = (case r of Inl e \<Rightarrow> [] | Inr n \<Rightarrow> data)"

definition written :: "('u \<Rightarrow> string) \<Rightarrow> string \<Rightarrow> 'u line_buffer \<Rightarrow> bool" where
  "written sent s w \<longleftrightarrow> output_ok w \<and> stream sent w = s"

lemma wp_cong: "m w = m' w \<Longrightarrow> wp Q m w = wp Q m' w"
  by (simp add: wp_def)

lemma wp_cache: "wp Q (buffer_cache data n) w = Q (Inr n) (w\<lparr>lb_output := lb_output w @ data\<rparr>)"
  by (simp add: buffer_cache_def wp_def act_bind_def bf_update_def act_return_def)

lemma written_append:
  "output_ok w \<Longrightarrow> data \<noteq> [] \<Longrightarrow> written sent (stream sent w @ data) (w\<lparr>lb_output := lb_output w @ data\<rparr>)"
  by (auto simp: written_def stream_def output_ok_def split: if_splits)

lemma buffer_write_written:
  assumes E: "writes_prefix sent E" and w: "output_ok w"
  shows "wp (\<lambda>r. written sent (stream sent w @ accepted data r)) (buffer_write valid at_once E data) w"
    (is "wp ?Q _ _")
proof -
  have empty: "steady_stream sent (bf_process_empty_buffer E)" using E by (simp add: writes_prefix_def)
  consider "\<not> valid (lb_peer w)" | "valid (lb_peer w)" "data = []"
    | "valid (lb_peer w)" "data \<noteq> []" "\<not> (lb_output w = [] \<and> at_once (lb_peer w))"
    | "valid (lb_peer w)" "data \<noteq> []" "lb_output w = []" "at_once (lb_peer w)" by blast
  then show ?thesis
  proof cases
    case 1
    then show ?thesis using w by (simp add: wp_def buffer_write_def written_def accepted_def)
  next
    case 2
    have "wp ?Q (act_bind (act_when (lb_output w = []) (bf_process_empty_buffer E)) (\<lambda>_. act_return (Inr 0))) w"
      using w wp_steady [OF empty w] 2 by (simp add: wp_simps act_when_def written_def accepted_def)
    with 2 show ?thesis by (simp add: buffer_write_def wp_def)
  next
    case 3
    with written_append [OF w 3(2)] have "wp ?Q (buffer_cache data (length data)) w"
      by (simp add: wp_cache accepted_def)
    with 3 show ?thesis by (auto simp: buffer_write_def wp_def)
  next
    case 4
    let ?m = "act_bind (bf_system (bf_write E data)) (\<lambda>r.
             case r of
               Inl e \<Rightarrow> buffer_cache data (length data)
             | Inr n \<Rightarrow>
                 if n > length data then act_throw Undefined_behaviour
                 else if n = length data then
                   act_bind (bf_process_empty_buffer E) (\<lambda>_. act_return (Inr (length data)))
                 else buffer_cache (drop n data) (length data))"
    have pos: "lb_position w = 0" using w 4 by (simp add: output_ok_def)
    have "wp ?Q ?m w"
      unfolding wp_simps
    proof (rule wp_write [OF E])
      fix n u'
      assume n: "n \<le> length data" and u': "sent u' = sent (lb_peer w) @ take n data"
      let ?w = "w\<lparr>lb_peer := u'\<rparr>"
      have ok: "output_ok ?w" and st: "stream sent ?w @ drop n data = stream sent w @ data"
        using w 4 pos u' by (simp_all add: output_ok_def stream_def)
      show "wp ?Q (case Inr n of
               Inl e \<Rightarrow> buffer_cache data (length data)
             | Inr n \<Rightarrow>
                 if n > length data then act_throw Undefined_behaviour
                 else if n = length data then
                   act_bind (bf_process_empty_buffer E) (\<lambda>_. act_return (Inr (length data)))
                 else buffer_cache (drop n data) (length data)) ?w"
      proof (cases "n = length data")
        case True
        with st have "written sent (stream sent w @ data) v" if "output_ok v" "stream sent v = stream sent ?w" for v
          using that by (simp add: written_def)
        with True show ?thesis by (simp add: wp_simps accepted_def) (rule wp_steady [OF empty ok], simp)
      next
        case False
        with n st written_append [OF ok, of "drop n data" sent] show ?thesis by (simp add: wp_cache accepted_def)
      qed
    next
      fix e u'
      assume u': "sent u' = sent (lb_peer w)"
      let ?w = "w\<lparr>lb_peer := u'\<rparr>"
      have ok: "output_ok ?w" and st: "stream sent ?w = stream sent w"
        using w u' by (simp_all add: output_ok_def stream_def)
      show "wp ?Q (case Inl e of
               Inl e \<Rightarrow> buffer_cache data (length data)
             | Inr n \<Rightarrow>
                 if n > length data then act_throw Undefined_behaviour
                 else if n = length data then
                   act_bind (bf_process_empty_buffer E) (\<lambda>_. act_return (Inr (length data)))
                 else buffer_cache (drop n data) (length data)) ?w"
        using st written_append [OF ok 4(2), of sent] by (simp add: wp_cache accepted_def)
    qed
    moreover have "buffer_write valid at_once E data w = ?m w" using 4 by (simp add: buffer_write_def)
    ultimately show ?thesis by (simp add: wp_cong [of "buffer_write valid at_once E data"])
  qed
qed

lemma buffer_process_write_written:
  assumes E: "writes_prefix sent E" and w: "output_ok w" "lb_output w \<noteq> []"
  shows "wp (\<lambda>_. written sent (stream sent w)) (buffer_process_write E) w" (is "wp ?Q _ _")
proof -
  have steady: "steady_stream sent (bf_process_empty_buffer E)" "steady_stream sent (bf_next_write E)"
    "steady_stream sent (bf_process_error E)" using E by (simp_all add: writes_prefix_def)
  have last: "wp ?Q m v" if "steady_stream sent m" "written sent (stream sent w) v" for m :: "('a, unit) bact" and v
    using that by (auto simp: written_def intro: wp_steady)
  define finish where "finish n = act_bind
                (if n > 0 then
                   (\<lambda>w. if lb_position w + n \<ge> length (lb_output w)
                        then act_bind (bf_update (\<lambda>w. w\<lparr>lb_output := [], lb_position := 0\<rparr>))
                               (\<lambda>_. bf_process_empty_buffer E) w
                        else bf_update (\<lambda>w. w\<lparr>lb_position := lb_position w + n\<rparr>) w)
                 else act_return ()) (\<lambda>_. bf_next_write E)" for n
  let ?d = "drop (lb_position w) (lb_output w)"
  have finish: "wp ?Q (finish n) (w\<lparr>lb_peer := u'\<rparr>)"
    if n: "n \<le> length ?d" and u': "sent u' = sent (lb_peer w) @ take n ?d" for n u'
  proof -
    let ?v = "w\<lparr>lb_peer := u'\<rparr>"
    consider "n = 0" | "n > 0" "lb_position w + n \<ge> length (lb_output w)" | "n > 0" "lb_position w + n < length (lb_output w)"
      by linarith
    then show ?thesis
    proof cases
      case 1
      with w u' have "written sent (stream sent w) ?v" by (simp add: written_def output_ok_def stream_def)
      with 1 show ?thesis by (simp add: finish_def wp_simps last [OF steady(2)])
    next
      case 2
      let ?v' = "?v\<lparr>lb_output := [], lb_position := 0\<rparr>"
      have v': "written sent (stream sent w) ?v'" using n u' 2 w by (simp add: written_def output_ok_def stream_def)
      have "wp (\<lambda>_. wp ?Q (bf_next_write E)) (bf_process_empty_buffer E) ?v'"
        using v' last [OF steady(2)] by (intro wp_steady [OF steady(1)]) (auto simp: written_def)
      with 2 show ?thesis
        by (simp add: finish_def wp_simps) (simp add: wp_def act_bind_def bf_update_def)
    next
      case 3
      let ?v' = "?v\<lparr>lb_position := lb_position w + n\<rparr>"
      have "written sent (stream sent w) ?v'" using u' 3 w by (auto simp: written_def output_ok_def stream_def)
          (metis append_assoc append_take_drop_id drop_drop add.commute)
      then have "wp ?Q (bf_next_write E) ?v'" by (rule last [OF steady(2)])
      with 3 show ?thesis
        by (simp add: finish_def wp_simps) (simp add: wp_def bf_update_def)
    qed
  qed
  show ?thesis
  proof (cases "bf_valid_socket E (lb_peer w)")
    case False
    with w last [OF steady(2), of w] show ?thesis by (simp add: buffer_process_write_def wp_def written_def)
  next
    case True
    let ?m = "act_bind (bf_system (bf_write E ?d)) (\<lambda>r. case r of
       Inr n \<Rightarrow> finish n | Inl e \<Rightarrow> if would_block e then bf_next_write E else bf_process_error E)"
    have "wp ?Q ?m w"
      unfolding wp_simps
    proof (rule wp_write [OF E])
      fix n u'
      assume "n \<le> length ?d" "sent u' = sent (lb_peer w) @ take n ?d"
      from finish [OF this] show "wp ?Q (case Inr n of Inr n \<Rightarrow> finish n
          | Inl e \<Rightarrow> if would_block e then bf_next_write E else bf_process_error E) (w\<lparr>lb_peer := u'\<rparr>)" by simp
    next
      fix e u'
      assume "sent u' = sent (lb_peer w)"
      with w have "written sent (stream sent w) (w\<lparr>lb_peer := u'\<rparr>)" by (simp add: written_def output_ok_def stream_def)
      with last [OF steady(2)] last [OF steady(3)] show "wp ?Q (case Inl e of Inr n \<Rightarrow> finish n
          | Inl e \<Rightarrow> if would_block e then bf_next_write E else bf_process_error E) (w\<lparr>lb_peer := u'\<rparr>)" by simp
    qed
    moreover have "buffer_process_write E w = ?m w"
      unfolding buffer_process_write_def finish_def using True w by (simp add: output_ok_def)
    ultimately show ?thesis by (simp add: wp_def)
  qed
qed

text \<open>What the program and the event loop do with the output of a connection: \<^verbatim>\<open>write()\<close> any number of
  times, and \<^verbatim>\<open>process_write()\<close> when \<^verbatim>\<open>is_writer()\<close> said that there is output. The result is the
  data of the writes that were accepted.\<close>

datatype output_step = Write string | Writable

fun output_steps :: "('u \<Rightarrow> bool) \<Rightarrow> ('u \<Rightarrow> bool) \<Rightarrow> 'u buffer_env \<Rightarrow> output_step list \<Rightarrow> string \<Rightarrow> ('u, string) bact" where
  "output_steps valid at_once E [] acc = act_return acc"
| "output_steps valid at_once E (Write data # steps) acc =
     act_bind (buffer_write valid at_once E data) (\<lambda>r. output_steps valid at_once E steps (acc @ accepted data r))"
| "output_steps valid at_once E (Writable # steps) acc =
     (\<lambda>w. if bf_has_output w
          then act_bind (buffer_process_write E) (\<lambda>_. output_steps valid at_once E steps acc) w
          else output_steps valid at_once E steps acc w)"

lemma wp_mono: "wp P m w \<Longrightarrow> (\<And>a w'. P a w' \<Longrightarrow> Q a w') \<Longrightarrow> wp Q m w"
  by (auto simp: wp_def split: prod.splits sum.splits)

lemma output_steps_written:
  assumes E: "writes_prefix sent E"
  shows "written sent (s @ acc) w \<Longrightarrow>
    wp (\<lambda>acc'. written sent (s @ acc')) (output_steps valid at_once E steps acc) w"
proof (induction steps arbitrary: acc w)
  case Nil
  then show ?case by (simp add: wp_simps)
next
  case (Cons step steps)
  have ok: "output_ok w" and st: "stream sent w = s @ acc" using Cons.prems by (simp_all add: written_def)
  show ?case
  proof (cases step)
    case (Write data)
    then show ?thesis
      using wp_mono [OF buffer_write_written [OF E ok, of data valid at_once]] Cons.IH st by (simp add: wp_simps)
  next
    case Writable
    show ?thesis
    proof (cases "lb_output w = []")
      case True
      with Writable Cons.IH [OF Cons.prems] show ?thesis by (simp add: wp_def bf_has_output_def)
    next
      case False
      have "wp (\<lambda>_. wp (\<lambda>acc'. written sent (s @ acc')) (output_steps valid at_once E steps acc)) (buffer_process_write E) w"
        using wp_mono [OF buffer_process_write_written [OF E ok False]] Cons.IH st by simp
      with Writable False show ?thesis
        by (simp add: wp_bind [symmetric]) (simp add: wp_def bf_has_output_def)
    qed
  qed
qed

text \<open>
  C8 (refinement): the output buffer is a queue of bytes. Whatever the sequence of writes and of
  \<^verbatim>\<open>process_write()\<close> calls, and however little of the data the kernel takes each time, the bytes
  given to the kernel and the bytes that wait are, together, the data of the accepted writes in their
  order: nothing is lost, repeated or reordered. The position stays inside the buffer and no access is undefined.\<close>

theorem output_is_a_queue:
  assumes "writes_prefix sent E" and "output_ok w"
  shows "case output_steps valid at_once E steps [] w of
      (Inr acc, w') \<Rightarrow> output_ok w' \<and>
        sent (lb_peer w') @ drop (lb_position w') (lb_output w') =
          sent (lb_peer w) @ drop (lb_position w) (lb_output w) @ acc
    | (Inl e, w') \<Rightarrow> e \<noteq> Undefined_behaviour"
  using output_steps_written [OF assms(1), of "stream sent w" "[]" w valid at_once steps] assms(2)
  by (simp add: wp_def written_def stream_def split: prod.splits sum.splits)

section \<open>A kernel to try the theorems on\<close>

text \<open>It delivers the pieces of a list, takes at most three bytes at a time, and records what was
  read, which lines were processed and what was sent.\<close>

record demo_peer =
  dp_pieces :: "string list"
  dp_got :: string
  dp_seen :: "string list"
  dp_sent :: string

definition demo_buffer_env :: "demo_peer buffer_env" where
  "demo_buffer_env = \<lparr>bf_valid_socket = (\<lambda>_. True), bf_fd_is_writer = (\<lambda>_. True), bf_is_non_blocking = (\<lambda>_. True),
     bf_read = (\<lambda>n u. case dp_pieces u of [] \<Rightarrow> (Inl (Some EAGAIN), u)
        | p # ps \<Rightarrow> (Inr p, u\<lparr>dp_pieces := ps, dp_got := dp_got u @ p\<rparr>)),
     bf_write = (\<lambda>d u. (Inr (length (take 3 d)), u\<lparr>dp_sent := dp_sent u @ take 3 d\<rparr>)),
     bf_current_date = (\<lambda>u. (0, u)), bf_event_limit = (\<lambda>_. 5), bf_processing_time_limit = (\<lambda>_. 500000),
     bf_close = (\<lambda>u. u),
     bf_process_line = (\<lambda>l. bf_update (\<lambda>w. w\<lparr>lb_peer := (lb_peer w)\<lparr>dp_seen := dp_seen (lb_peer w) @ [l]\<rparr>\<rparr>)),
     bf_process_empty_buffer = act_return (), bf_process_error = act_return (), bf_next_read = act_return (),
     bf_next_write = act_return (), bf_next_hup = act_return ()\<rparr>"

definition demo_peer :: "string list \<Rightarrow> demo_peer" where
  "demo_peer ps = \<lparr>dp_pieces = ps, dp_got = [], dp_seen = [], dp_sent = []\<rparr>"

lemma demo_reads_lines: "reads_lines dp_got dp_seen demo_buffer_env"
  by (auto simp: reads_lines_def untouched_def demo_buffer_env_def act_return_def bf_update_def split: list.split)

lemma demo_writes_prefix: "writes_prefix dp_sent demo_buffer_env"
  by (auto simp: writes_prefix_def steady_stream_def demo_buffer_env_def act_return_def take_take min_def)

theorem lines_are_exact_witness:
  "\<exists>w'. buffer_process_read 9 demo_buffer_env (new_line_buffer (demo_peer [''PI'', ''NG'' @ [CHR 0x0A] @ ''ST'', ''OP'' @ [CHR 0x0A] @ ''X'']))
      = (Inr (), w') \<and>
     dp_got (lb_peer w') = join_lines (dp_seen (lb_peer w')) @ lb_line w' \<and> dp_seen (lb_peer w') = [''PING'', ''STOP'']"
proof -
  let ?w = "new_line_buffer (demo_peer [''PI'', ''NG'' @ [CHR 0x0A] @ ''ST'', ''OP'' @ [CHR 0x0A] @ ''X''])"
  have run: "case buffer_process_read 9 demo_buffer_env ?w of (r, w') \<Rightarrow> r = Inr () \<and> dp_seen (lb_peer w') = [''PING'', ''STOP'']"
    by code_simp
  have "in_step dp_got dp_seen [] ?w"
    by (simp add: in_step_def new_line_buffer_def demo_peer_def join_lines_def one_line_def)
  with run lines_are_exact [OF demo_reads_lines this] show ?thesis by (auto split: prod.splits)
qed

theorem output_is_a_queue_witness:
  "case output_steps (\<lambda>_. True) (\<lambda>_. True) demo_buffer_env [Write ''PING'', Write ''STOP'', Writable] [] (new_line_buffer (demo_peer [])) of
      (Inr acc, w') \<Rightarrow> dp_sent (lb_peer w') @ drop (lb_position w') (lb_output w') = acc
    | (Inl e, w') \<Rightarrow> e \<noteq> Undefined_behaviour"
proof -
  have "output_ok (new_line_buffer (demo_peer []))" by (simp add: output_ok_def new_line_buffer_def)
  from output_is_a_queue [OF demo_writes_prefix this, of "\<lambda>_. True" "\<lambda>_. True" "[Write ''PING'', Write ''STOP'', Writable]"]
  show ?thesis by (simp add: new_line_buffer_def demo_peer_def split: prod.splits sum.splits del: output_steps.simps)
qed

end
