(* ===== verification/Message_Connection.thy ===== *)
theory Message_Connection
  imports Line_Buffer Message_Json
begin

text \<open>
  The connections that carry messages: one message per line over the buffered streams
  (\<^verbatim>\<open>tcp_client_message_connection.cpp\<close>, \<^verbatim>\<open>tcp_server_client_message_connection.cpp\<close>,
  \<^verbatim>\<open>pipe_message_connection.cpp\<close> and the two \<^verbatim>\<open>local_stream_*_message_connection.cpp\<close>), one message per
  packet over datagrams (\<^verbatim>\<open>udp_server_message_connection.cpp\<close>, \<^verbatim>\<open>local_dgram_server_message_connection.cpp\<close>).
\<close>

section \<open>Streams\<close>

text \<open>\<open>mc_dispatch\<close> is \<^verbatim>\<open>dispatch_message()\<close> with the dispatcher and the program behind it. The other fields are
  what \<^verbatim>\<open>message\<close> needs.\<close>

record ('d, 'u) message_env =
  mc_trim :: "string \<Rightarrow> string"
  mc_replace :: replace_many
  mc_double :: "'d json_double"
  mc_tokens :: "string \<Rightarrow> 'd jtoken list"
  mc_is_double :: "string \<Rightarrow> bool"
  mc_dispatch :: "message \<Rightarrow> ('u, unit) bact"

definition mc_from_message :: "('d, 'u) message_env \<Rightarrow> string \<Rightarrow> bool \<times> message" where
  "mc_from_message M = from_message (mc_double M) (mc_trim M) (mc_replace M) (mc_tokens M) new_message"

definition stream_process_line :: "('d, 'u) message_env \<Rightarrow> string \<Rightarrow> ('u, unit) bact" where
  "stream_process_line M line =
     (if line = [] then act_return ()
      else case mc_from_message M line of
             (True, msg) \<Rightarrow> mc_dispatch M msg
           | (False, _) \<Rightarrow> act_return ())"

text \<open>The message is given back with the text \<^verbatim>\<open>to_message()\<close> keeps in it.\<close>

definition stream_send_message :: "('d, 'u) message_env \<Rightarrow> (string \<Rightarrow> ('u, errno + nat) bact) \<Rightarrow> message
    \<Rightarrow> ('u, bool \<times> message) bact" where
  "stream_send_message M write msg =
     (case to_message (mc_replace M) (mc_is_double M) MESSAGE_FORMAT_STRING msg of
        (Inl e, _) \<Rightarrow> act_throw e
      | (Inr s, msg') \<Rightarrow>
          let buf = s @ [CHR 0x0A] in
          act_bind (write buf) (\<lambda>r. act_return (r = Inr (length buf), msg')))"

definition tcp_client_process_line :: "('d, 'u) message_env \<Rightarrow> string \<Rightarrow> ('u, unit) bact" where
  "tcp_client_process_line = stream_process_line"

definition tcp_client_send_message :: "('d, 'u) message_env \<Rightarrow> 'u buffer_env \<Rightarrow> message \<Rightarrow> ('u, bool \<times> message) bact" where
  "tcp_client_send_message M E = stream_send_message M (tcp_client_write E)"

definition tcp_server_client_process_line :: "('d, 'u) message_env \<Rightarrow> string \<Rightarrow> ('u, unit) bact" where
  "tcp_server_client_process_line = stream_process_line"

definition tcp_server_client_send_message :: "('d, 'u) message_env \<Rightarrow> 'u buffer_env \<Rightarrow> message
    \<Rightarrow> ('u, bool \<times> message) bact" where
  "tcp_server_client_send_message M E = stream_send_message M (tcp_server_client_write E)"

definition local_client_process_line :: "('d, 'u) message_env \<Rightarrow> string \<Rightarrow> ('u, unit) bact" where
  "local_client_process_line = stream_process_line"

definition local_client_send_message :: "('d, 'u) message_env \<Rightarrow> 'u buffer_env \<Rightarrow> message
    \<Rightarrow> ('u, bool \<times> message) bact" where
  "local_client_send_message M E = stream_send_message M (local_client_write E)"

definition local_server_client_process_line :: "('d, 'u) message_env \<Rightarrow> string \<Rightarrow> ('u, unit) bact" where
  "local_server_client_process_line = stream_process_line"

definition local_server_client_send_message :: "('d, 'u) message_env \<Rightarrow> 'u buffer_env \<Rightarrow> message
    \<Rightarrow> ('u, bool \<times> message) bact" where
  "local_server_client_send_message M E = stream_send_message M (local_server_client_write E)"

definition pipe_process_line :: "('d, 'u) message_env \<Rightarrow> string \<Rightarrow> ('u, unit) bact" where
  "pipe_process_line = stream_process_line"

definition pipe_send_message :: "('d, 'u) message_env \<Rightarrow> 'u buffer_env \<Rightarrow> message \<Rightarrow> ('u, bool \<times> message) bact" where
  "pipe_send_message M E = stream_send_message M (pipe_write E)"

section \<open>Datagrams\<close>

text \<open>
  \<open>dg_client\<close> is \<^verbatim>\<open>f_udp_client\<close> or \<^verbatim>\<open>f_dgram_client\<close>, \<open>dg_open\<close> makes a client of an address, \<open>dg_send\<close> is its
  \<^verbatim>\<open>send()\<close>; \<open>dg_recv\<close> is \<^verbatim>\<open>recv()\<close>, \<open>None\<close> when it returned nothing or an error. \<open>dg_max\<close> is
  \<^verbatim>\<open>DATAGRAM_MAX_SIZE\<close> of the class and \<open>dg_address\<close> the text of \<^verbatim>\<open>get_address()\<close>.
\<close>

record ('d, 'c, 'u) datagram_env = "('d, 'u) message_env" +
  dg_client :: "'u \<Rightarrow> 'c option"
  dg_address :: "'u \<Rightarrow> string"
  dg_secret_code :: "'u \<Rightarrow> string"
  dg_open :: "string \<Rightarrow> 'u \<Rightarrow> 'c \<times> 'u"
  dg_send :: "'c \<Rightarrow> string \<Rightarrow> 'u \<Rightarrow> (errno option + nat) \<times> 'u"
  dg_recv :: "nat \<Rightarrow> 'u \<Rightarrow> string option \<times> 'u"
  dg_max :: nat

type_synonym ('u, 'a) dact = "('u, 'a) act"

definition dg_system :: "('u \<Rightarrow> 'a \<times> 'u) \<Rightarrow> ('u, 'a) dact" where
  "dg_system f u = (case f u of (a, u') \<Rightarrow> (Inr a, u'))"

text \<open>The text of the packet: a copy of the message gets the secret code, so the message itself does not
  change (but for its cache when there is no code).\<close>

definition datagram_text :: "('d, 'c, 'u) datagram_env \<Rightarrow> message \<Rightarrow> string \<Rightarrow> string result" where
  "datagram_text E msg secret_code =
     (if secret_code \<noteq> [] then
        res_bind (add_parameter msg ''secret_code'' secret_code)
          (\<lambda>m. fst (to_message (mc_replace E) (mc_is_double E) MESSAGE_FORMAT_STRING m))
      else fst (to_message (mc_replace E) (mc_is_double E) MESSAGE_FORMAT_STRING msg))"

definition send_datagram :: "('d, 'c, 'u) datagram_env \<Rightarrow> 'c \<Rightarrow> message \<Rightarrow> string \<Rightarrow> ('u, bool) dact" where
  "send_datagram E client msg secret_code =
     act_bind (act_lift (datagram_text E msg secret_code)) (\<lambda>buf.
       if length buf > dg_max E then act_throw Invalid_message
       else act_bind (dg_system (dg_send E client buf)) (\<lambda>r. act_return (r = Inr (length buf))))"

definition udp_send_to_client :: "('d, 'c, 'u) datagram_env \<Rightarrow> 'c \<Rightarrow> message \<Rightarrow> string \<Rightarrow> ('u, bool) dact" where
  "udp_send_to_client = send_datagram"

definition udp_send_to_address :: "('d, 'c, 'u) datagram_env \<Rightarrow> string \<Rightarrow> message \<Rightarrow> string \<Rightarrow> ('u, bool) dact" where
  "udp_send_to_address E address msg secret_code =
     act_bind (dg_system (dg_open E address)) (\<lambda>client. udp_send_to_client E client msg secret_code)"

text \<open>The copy \<^verbatim>\<open>with_address\<close> is made and filled, and then it is not used.\<close>

definition udp_send_with_code :: "('d, 'c, 'u) datagram_env \<Rightarrow> message \<Rightarrow> string \<Rightarrow> ('u, bool) dact" where
  "udp_send_with_code E msg secret_code u =
     (case dg_client E u of
        None \<Rightarrow> (Inl Initialization_missing, u)
      | Some client \<Rightarrow>
          act_bind (act_lift (add_parameter msg ''reply_to'' (dg_address E u))) (\<lambda>with_address.
            udp_send_to_client E client msg secret_code) u)"

definition udp_send_message :: "('d, 'c, 'u) datagram_env \<Rightarrow> message \<Rightarrow> ('u, bool) dact" where
  "udp_send_message E msg u = udp_send_with_code E msg (dg_secret_code E u) u"

text \<open>The Unix socket builds the packet before it opens the client.\<close>

definition dgram_send_to_client :: "('d, 'c, 'u) datagram_env \<Rightarrow> 'c \<Rightarrow> message \<Rightarrow> string \<Rightarrow> ('u, bool) dact" where
  "dgram_send_to_client = send_datagram"

definition dgram_send_to_address :: "('d, 'c, 'u) datagram_env \<Rightarrow> string \<Rightarrow> message \<Rightarrow> string \<Rightarrow> ('u, bool) dact" where
  "dgram_send_to_address E address msg secret_code =
     act_bind (act_lift (datagram_text E msg secret_code)) (\<lambda>buf.
       if length buf > dg_max E then act_throw Invalid_message
       else act_bind (dg_system (dg_open E address)) (\<lambda>client.
         act_bind (dg_system (dg_send E client buf)) (\<lambda>r. act_return (r = Inr (length buf)))))"

definition dgram_send_with_code :: "('d, 'c, 'u) datagram_env \<Rightarrow> message \<Rightarrow> string \<Rightarrow> ('u, bool) dact" where
  "dgram_send_with_code E msg secret_code u =
     (case dg_client E u of
        None \<Rightarrow> (Inl Initialization_missing, u)
      | Some client \<Rightarrow>
          act_bind (act_lift (add_parameter msg ''reply_to'' (dg_address E u))) (\<lambda>with_address.
            dgram_send_to_client E client msg secret_code) u)"

definition dgram_send_message :: "('d, 'c, 'u) datagram_env \<Rightarrow> message \<Rightarrow> ('u, bool) dact" where
  "dgram_send_message E msg u = dgram_send_with_code E msg (dg_secret_code E u) u"

text \<open>What the secret codes decide: \<open>Some True\<close> to dispatch, \<open>Some False\<close> to stop reading.\<close>

definition code_accepted :: "string \<Rightarrow> message \<Rightarrow> bool result" where
  "code_accepted expected msg =
     res_bind (has_parameter msg ''secret_code'') (\<lambda>has.
       if has then
         res_bind (get_parameter msg ''secret_code'') (\<lambda>secret.
           Inr (secret = expected \<or> expected = []))
       else Inr (expected = []))"

text \<open>The program behind \<^verbatim>\<open>dispatch_message()\<close>; peers may send for ever, so the turns are counted.\<close>

fun read_datagrams :: "nat \<Rightarrow> ('d, 'c, 'u) datagram_env \<Rightarrow> (message \<Rightarrow> ('u, unit) dact) \<Rightarrow> ('u, unit) dact" where
  "read_datagrams 0 E dispatch = act_throw No_fuel"
| "read_datagrams (Suc fuel) E dispatch =
     act_bind (dg_system (dg_recv E (dg_max E))) (\<lambda>r.
       case r of
         None \<Rightarrow> act_return ()
       | Some packet \<Rightarrow>
           (case from_message (mc_double E) (mc_trim E) (mc_replace E) (mc_tokens E) new_message packet of
              (False, _) \<Rightarrow> read_datagrams fuel E dispatch
            | (True, msg) \<Rightarrow> (\<lambda>u.
                act_bind (act_lift (code_accepted (dg_secret_code E u) msg)) (\<lambda>ok.
                  if \<not> ok then act_return ()
                  else act_bind (dispatch msg) (\<lambda>_. read_datagrams fuel E dispatch)) u)))"

definition udp_process_read :: "nat \<Rightarrow> ('d, 'c, 'u) datagram_env \<Rightarrow> (message \<Rightarrow> ('u, unit) dact) \<Rightarrow> ('u, unit) dact" where
  "udp_process_read = read_datagrams"

definition dgram_process_read :: "nat \<Rightarrow> ('d, 'c, 'u) datagram_env \<Rightarrow> (message \<Rightarrow> ('u, unit) dact) \<Rightarrow> ('u, unit) dact" where
  "dgram_process_read = read_datagrams"

section \<open>The text of a message is one line\<close>

lemma name_one_line: "name_ok n \<Longrightarrow> one_line n" and dest_one_line: "dest_ok n \<Longrightarrow> one_line n"
  using name_chars(2) [of n "CHR 0x0A"] dest_chars(2) [of n "CHR 0x0A"] by (auto simp: one_line_def is_blank_def)

lemma name_no_brace: "name_ok n \<Longrightarrow> CHR ''{'' \<notin> set n"
  by (auto simp: name_ok_def is_lower_def is_upper_def is_digit_def less_eq_char_def)

lemma dest_no_brace: "dest_ok n \<Longrightarrow> CHR ''{'' \<notin> set n"
  using name_no_brace [of n] by (auto simp: dest_ok_def)

lemma one_line_Nil [simp]: "one_line []"
  by (simp add: one_line_def)

lemma one_line_Cons [simp]: "one_line (c # s) \<longleftrightarrow> c \<noteq> CHR 0x0A \<and> one_line s"
  by (auto simp: one_line_def)

context snapdev_text
begin

lemma rep_escapes_one_line: "one_line (rep v (text_escapes q))"
  by (induction v) (auto simp: rep_escapes_Cons rep_Nil)

lemma render_value_one_line: "one_line (render_value rep v)"
  by (simp add: render_value_def rep_escapes_one_line)

lemma render_parameters_one_line:
  "\<forall>n \<in> fst ` set ps. name_ok n \<Longrightarrow> sep \<noteq> CHR 0x0A \<Longrightarrow> one_line (render_parameters rep sep ps)"
proof (induction ps arbitrary: sep)
  case (Cons p ps)
  then have "one_line (fst p)" "one_line (render_parameters rep CHR '';'' ps)" by (simp_all add: name_one_line)
  with Cons.prems show ?case by (cases p) (simp add: render_value_one_line)
qed simp

lemma render_message_one_line: "wf_message m \<Longrightarrow> one_line (render_message rep m)"
proof -
  assume wf: "wf_message m"
  then have "one_line (f_sent_from_server m)" "one_line (f_sent_from_service m)" "one_line (f_server m)"
      "one_line (f_service m)" "one_line (f_command m)"
    unfolding wf_message_def command_ok_def by (blast intro: name_one_line dest_one_line)+
  moreover have "one_line (render_parameters rep CHR '' '' (f_parameters m))"
    using wf by (intro render_parameters_one_line) (auto simp: wf_message_def)
  ultimately show ?thesis by (simp add: render_message_def render_sent_from_def render_destination_def)
qed

lemma render_message_no_brace:
  assumes "wf_message m" and "f_command m \<noteq> []"
  shows "hd (render_message rep m) \<noteq> CHR ''{''"
proof -
  define U where "U = set (f_server m) \<union> set (f_service m) \<union> set (f_command m)"
  have "dest_ok (f_server m)" "dest_ok (f_service m)" "name_ok (f_command m)"
    using assms(1) by (simp_all add: wf_message_def command_ok_def)
  then have no: "CHR ''{'' \<notin> U" by (simp add: U_def name_no_brace dest_no_brace)
  have "hd (render_message rep m) \<in> insert (CHR ''<'') U"
    using assms(2) by (simp add: U_def render_message_def render_sent_from_def render_destination_def hd_append)
  then show ?thesis
  proof
    assume "hd (render_message rep m) \<in> U"
    with no show ?thesis by metis
  qed simp
qed

lemma from_message_render:
  assumes "wf_message m" and "text_safe m" and "f_command m \<noteq> []"
  shows "\<exists>r. from_message dbl trim rep tokens m0 (render_message rep m) = (True, r) \<and> same_fields r m"
proof -
  have "render_message rep m \<noteq> []" using assms(3) by (simp add: render_message_def)
  then show ?thesis
    using from_string_render [OF assms, of m0] render_message_no_brace [OF assms(1,3)] trim_render_message [OF assms]
    by (auto simp: from_message_def Let_def)
qed

end

section \<open>From end to end\<close>

text \<open>A message the setters can have built and whose values survive the text form.\<close>

definition sendable :: "('d, 'u) message_env \<Rightarrow> message \<Rightarrow> bool" where
  "sendable M m \<longleftrightarrow> wf_message m \<and> text_safe m \<and> f_command m \<noteq> [] \<and> text_cache_ok (mc_replace M) m"

text \<open>The sender: messages are sent (\<open>Some m\<close>), and between them the event loop calls \<^verbatim>\<open>process_write()\<close>. It
  stops at the first message that \<^verbatim>\<open>send_message()\<close> did not take.\<close>

fun send_steps :: "('d, 'u) message_env \<Rightarrow> (string \<Rightarrow> ('u, errno + nat) bact) \<Rightarrow> 'u buffer_env \<Rightarrow> message option list
    \<Rightarrow> ('u, bool) bact" where
  "send_steps M write E [] = act_return True"
| "send_steps M write E (Some m # steps) =
     act_bind (stream_send_message M write m)
       (\<lambda>(ok, m'). if ok then send_steps M write E steps else act_return False)"
| "send_steps M write E (None # steps) =
     (\<lambda>w. if bf_has_output w then act_bind (buffer_process_write E) (\<lambda>_. send_steps M write E steps) w
          else send_steps M write E steps w)"

definition sent_messages :: "message option list \<Rightarrow> message list" where
  "sent_messages steps = map the (filter (\<lambda>s. s \<noteq> None) steps)"

lemma send_steps_written:
  assumes E: "writes_prefix sent E" and "\<forall>m \<in> set (sent_messages steps). sendable M m"
    and "written sent s w"
  shows "wp (\<lambda>ok w'. ok \<longrightarrow> written sent (s @ join_lines (map (render_message (mc_replace M)) (sent_messages steps))) w')
    (send_steps M (buffer_write valid at_once E) E steps) w"
  using assms(2,3)
proof (induction steps arbitrary: s w)
  case Nil
  then show ?case by (simp add: wp_simps sent_messages_def join_lines_def)
next
  case (Cons step steps)
  let ?put = "buffer_write valid at_once E" and ?render = "render_message (mc_replace M)"
  let ?post = "\<lambda>s steps ok w'. ok \<longrightarrow> written sent (s @ join_lines (map ?render (sent_messages steps))) w'"
  have ok: "output_ok w" and st: "stream sent w = s" using Cons.prems(2) by (simp_all add: written_def)
  show ?case
  proof (cases step)
    case None
    then have prems: "\<forall>m \<in> set (sent_messages steps). sendable M m" and same: "sent_messages (step # steps) = sent_messages steps"
      using Cons.prems(1) by (simp_all add: sent_messages_def)
    show ?thesis
    proof (cases "lb_output w = []")
      case True
      with None same Cons.IH [OF prems Cons.prems(2)] show ?thesis by (simp add: wp_def bf_has_output_def)
    next
      case False
      have "wp (\<lambda>_. wp (?post s steps) (send_steps M ?put E steps)) (buffer_process_write E) w"
        using wp_mono [OF buffer_process_write_written [OF E ok False]] Cons.IH [OF prems] st by simp
      with None False same show ?thesis
        by (simp add: wp_bind [symmetric]) (simp add: wp_def bf_has_output_def)
    qed
  next
    case (Some m)
    then have prems: "\<forall>m \<in> set (sent_messages steps). sendable M m" and m: "sendable M m"
      and more: "sent_messages (step # steps) = m # sent_messages steps"
      using Cons.prems(1) by (simp_all add: sent_messages_def)
    obtain m' where rendered: "to_message (mc_replace M) (mc_is_double M) MESSAGE_FORMAT_STRING m = (Inr (?render m), m')"
      using m by (auto simp: sendable_def to_message_def to_string_def text_cache_ok_def Let_def render_message_def)
    let ?line = "?render m @ [CHR 0x0A]"
    have "wp (\<lambda>r. wp (?post s (step # steps)) (if r = Inr (length ?line) then send_steps M ?put E steps else act_return False))
        (?put ?line) w"
    proof (rule wp_mono [OF buffer_write_written [OF E ok]])
      fix r w'
      assume w': "written sent (stream sent w @ accepted ?line r) w'"
      show "wp (?post s (step # steps)) (if r = Inr (length ?line) then send_steps M ?put E steps else act_return False) w'"
      proof (cases "r = Inr (length ?line)")
        case True
        with w' st have "written sent (s @ ?line) w'" by (simp add: accepted_def)
        from Cons.IH [OF prems this] True show ?thesis by (simp add: more join_lines_def)
      qed (simp add: wp_simps)
    qed
    with Some rendered show ?thesis
      by (simp add: wp_bind stream_send_message_def Let_def wp_return split_def if_distrib [of "\<lambda>x. wp _ x"])
  qed
qed

lemma newline_split:
  "x @ CHR 0x0A # s = y @ CHR 0x0A # t \<Longrightarrow> CHR 0x0A \<notin> set x \<Longrightarrow> CHR 0x0A \<notin> set y \<Longrightarrow> x = y \<and> s = t"
proof (induction x arbitrary: y)
  case Nil
  then show ?case by (cases y) auto
next
  case (Cons c x)
  then show ?case by (cases y) auto
qed

lemma join_lines_unique:
  "join_lines xs @ r = join_lines ys @ r' \<Longrightarrow> list_all one_line xs \<Longrightarrow> list_all one_line ys \<Longrightarrow> one_line r \<Longrightarrow> one_line r' \<Longrightarrow>
     xs = ys \<and> r = r'"
proof (induction xs arbitrary: ys)
  case Nil
  then show ?case by (cases ys) (auto simp: join_lines_def one_line_def)
next
  case (Cons x xs)
  then obtain y ys' where ys: "ys = y # ys'" by (cases ys) (auto simp: join_lines_def one_line_def)
  have "x @ CHR 0x0A # (join_lines xs @ r) = y @ CHR 0x0A # (join_lines ys' @ r')"
    using Cons.prems(1) by (simp add: ys join_lines_def)
  moreover have "CHR 0x0A \<notin> set x" "CHR 0x0A \<notin> set y" using Cons.prems by (simp_all add: ys one_line_def)
  ultimately have "x = y \<and> join_lines xs @ r = join_lines ys' @ r'" by (intro newline_split)
  with Cons show ?case by (simp add: ys)
qed

text \<open>The receiver: \<^verbatim>\<open>process_read()\<close> any number of times.\<close>

inductive received :: "'u buffer_env \<Rightarrow> 'u line_buffer \<Rightarrow> 'u line_buffer \<Rightarrow> bool" for R w where
  received_nothing: "received R w w"
| received_more: "received R w w1 \<Longrightarrow> buffer_process_read fuel R w1 = (Inr (), w2) \<Longrightarrow> received R w w2"

lemma received_in_step:
  "received R w x \<Longrightarrow> reads_lines got seen R \<Longrightarrow> in_step got seen [] w \<Longrightarrow> in_step got seen [] x"
  by (induction rule: received.induct) (auto intro: process_read_in_step)


section \<open>Datagrams\<close>

text \<open>A callback that fails when it gets a message without the secret code that is expected.\<close>

definition insist_on_code :: "('d, 'c, 'u) datagram_env \<Rightarrow> (message \<Rightarrow> ('u, unit) dact) \<Rightarrow> message \<Rightarrow> ('u, unit) dact" where
  "insist_on_code E dispatch msg u =
     (if dg_secret_code E u \<noteq> [] \<and> get_parameter msg ''secret_code'' \<noteq> Inr (dg_secret_code E u)
      then (Inl Implementation_error, u) else dispatch msg u)"

lemma code_accepted_insist:
  "code_accepted (dg_secret_code E u) msg = Inr True \<Longrightarrow> insist_on_code E dispatch msg u = dispatch msg u"
  by (auto simp: code_accepted_def insist_on_code_def res_bind_eq_Inr split: if_splits)

lemma read_datagrams_insist: "read_datagrams n E dispatch = read_datagrams n E (insist_on_code E dispatch)"
proof (induction n)
  case (Suc n)
  have step: "(\<lambda>u. act_bind (act_lift (code_accepted (dg_secret_code E u) msg)) (\<lambda>ok.
          if \<not> ok then act_return ()
          else act_bind (dispatch msg) (\<lambda>_. read_datagrams n E dispatch)) u) =
      (\<lambda>u. act_bind (act_lift (code_accepted (dg_secret_code E u) msg)) (\<lambda>ok.
          if \<not> ok then act_return ()
          else act_bind (insist_on_code E dispatch msg) (\<lambda>_. read_datagrams n E (insist_on_code E dispatch))) u)" for msg
    unfolding Suc [symmetric] using code_accepted_insist [of E _ msg dispatch]
    by (auto simp: fun_eq_iff act_bind_def act_lift_def split: sum.split)
  show ?case by (simp only: read_datagrams.simps step) (simp only: Suc [symmetric])
qed simp

text \<open>
  C9 (safety): a server with a secret code only obeys messages that carry it. Whatever packets arrive, no
  message reaches the dispatcher unless its \<^verbatim>\<open>secret_code\<close> parameter is the code of the server: the
  server behaves the same with a dispatcher that fails on every other message. \<close>

theorem only_messages_with_code_dispatched:
  "udp_process_read n E dispatch = udp_process_read n E (insist_on_code E dispatch) \<and>
   dgram_process_read n E dispatch = dgram_process_read n E (insist_on_code E dispatch)"
  unfolding udp_process_read_def dgram_process_read_def using read_datagrams_insist by blast

text \<open>
  The return address is never sent. \<^verbatim>\<open>send_message()\<close> of both datagram servers makes a copy of the
  message with the address of the server in \<^verbatim>\<open>reply_to\<close>, then sends the message it was given and not the
  copy: the packet is the one the function that adds no address sends.\<close>

theorem reply_address_not_sent:
  "udp_send_with_code E msg code u =
     (case dg_client E u of None \<Rightarrow> (Inl Initialization_missing, u) | Some c \<Rightarrow> udp_send_to_client E c msg code u) \<and>
   dgram_send_with_code E msg code u =
     (case dg_client E u of None \<Rightarrow> (Inl Initialization_missing, u) | Some c \<Rightarrow> dgram_send_to_client E c msg code u)"
proof -
  have "verify_message_name ''reply_to'' False True = Inr ()" by code_simp
  then have "\<exists>m. add_parameter msg ''reply_to'' (dg_address E u) = Inr m" by (simp add: add_parameter_def)
  then show ?thesis
    by (auto simp: udp_send_with_code_def dgram_send_with_code_def act_bind_def act_lift_def split: option.split)
qed

section \<open>A connection to try the theorems on\<close>

definition demo_message_env :: "(unit, demo_peer) message_env" where
  "demo_message_env = \<lparr>mc_trim = strip_blanks, mc_replace = scan_replace, mc_double = demo_double, mc_tokens = (\<lambda>_. []),
     mc_is_double = (\<lambda>_. False), mc_dispatch = (\<lambda>_. act_return ())\<rparr>"

definition demo_steps :: "message option list" where
  "demo_steps = [Some demo_message, None, Some (new_message\<lparr>f_command := ''STOP''\<rparr>)] @ replicate 9 None"

lemma demo_sent: "case send_steps demo_message_env (buffer_write (\<lambda>_. True) (\<lambda>_. True) demo_buffer_env) demo_buffer_env demo_steps
    (new_line_buffer (demo_peer [])) of (r, w) \<Rightarrow> r = Inr True \<and> \<not> bf_has_output w \<and>
      dp_sent (lb_peer w) = ''PING k='' @ [CHR 0x22] @ ''a;b'' @ [CHR 0x22] @ '';n='' @ [CHR 0x5C] @ ''n'' @ [CHR 0x0A] @ ''STOP'' @ [CHR 0x0A]"
  by code_simp


end
