(* ===== verification/Message_Sender.thy ===== *)
theory Message_Sender
  imports Dispatcher
begin

text \<open>
  \<^verbatim>\<open>connection_with_send_message.cpp\<close>: the messages every service answers (\<^verbatim>\<open>ALIVE\<close>, \<^verbatim>\<open>HELP\<close>, \<^verbatim>\<open>READY\<close>, \<^verbatim>\<open>STOP\<close>
  and so on), and how it registers with the communicator daemon.
\<close>

section \<open>State and environment\<close>

text \<open>\<open>cw_peer\<close> is the rest of the object and the program. The address is its text.\<close>

record 'u sender =
  cw_service_name :: string
  cw_ready :: bool
  cw_my_address :: string
  cw_peer :: 'u

type_synonym ('u, 'a) sact = "('u sender, 'a) act"

text \<open>\<open>cw_send_message\<close> is the pure virtual \<^verbatim>\<open>send_message()\<close>; the \<open>on\<close> fields are virtual functions a service
  overrides, \<open>help_callbacks\<close> is the manager of the help callbacks, \<open>get_dispatcher\<close> the dispatcher of the object if it has
  one. The others are functions of \<^verbatim>\<open>snapdev\<close>, \<^verbatim>\<open>libaddr\<close>, the logger and the communicator.\<close>

record 'u sender_env =
  cw_send_message :: "message \<Rightarrow> bool \<Rightarrow> ('u, bool) sact"
  on_ready :: "message \<Rightarrow> ('u, unit) sact"
  on_restart :: "message \<Rightarrow> ('u, unit) sact"
  on_stop :: "bool \<Rightarrow> ('u, unit) sact"
  help_callbacks :: "string list \<Rightarrow> ('u, string list) sact"
  get_dispatcher :: "'u \<Rightarrow> dispatcher option"
  is_connection :: "'u \<Rightarrow> bool"
  mark_done :: "'u \<Rightarrow> 'u"
  remove_from_communicator :: "'u \<Rightarrow> 'u"
  leak_check :: "'u \<Rightarrow> 'u"
  logger_is_configured :: "'u \<Rightarrow> bool"
  logger_reopen :: "'u \<Rightarrow> 'u"
  timestamp_now :: "'u \<Rightarrow> string \<times> 'u"
  string_to_addr :: "string \<Rightarrow> string result"
  join_strings :: "string set \<Rightarrow> string \<Rightarrow> string"

definition cw_system :: "('u \<Rightarrow> 'a \<times> 'u) \<Rightarrow> ('u, 'a) sact" where
  "cw_system f w = (case f (cw_peer w) of (a, u) \<Rightarrow> (Inr a, w\<lparr>cw_peer := u\<rparr>))"

definition cw_change :: "('u \<Rightarrow> 'u) \<Rightarrow> ('u, unit) sact" where
  "cw_change f w = (Inr (), w\<lparr>cw_peer := f (cw_peer w)\<rparr>)"

definition new_sender :: "string \<Rightarrow> 'u \<Rightarrow> 'u sender result" where
  "new_sender service_name u =
     res_bind (verify_message_name service_name True True)
       (\<lambda>_. Inr \<lparr>cw_service_name = service_name, cw_ready = False, cw_my_address = [], cw_peer = u\<rparr>)"

section \<open>The messages\<close>

definition copy_parameter :: "string \<Rightarrow> message \<Rightarrow> message \<Rightarrow> message result" where
  "copy_parameter name msg m =
     res_bind (has_parameter msg name) (\<lambda>has.
       if has then res_bind (get_parameter msg name) (add_parameter m name) else Inr m)"

definition absolutely_message :: "message \<Rightarrow> string \<Rightarrow> message result" where
  "absolutely_message msg now =
     res_bind (reply_to new_message msg) (\<lambda>m1.
     res_bind (set_command m1 ''ABSOLUTELY'') (\<lambda>m2.
     res_bind (copy_parameter ''serial'' msg m2) (\<lambda>m3.
     res_bind (copy_parameter ''timestamp'' msg m3) (\<lambda>m4.
     add_parameter m4 ''reply_timestamp'' now))))"

text \<open>The clock is read when the last parameter is added, which is after the steps that can fail.\<close>

definition msg_alive :: "'u sender_env \<Rightarrow> message \<Rightarrow> ('u, unit) sact" where
  "msg_alive E msg =
     act_bind (act_lift (absolutely_message msg [])) (\<lambda>_.
     act_bind (cw_system (timestamp_now E)) (\<lambda>now.
     act_bind (act_lift (absolutely_message msg now)) (\<lambda>absolutely.
     act_bind (cw_send_message E absolutely False) (\<lambda>_. act_return ()))))"

definition msg_leak :: "'u sender_env \<Rightarrow> message \<Rightarrow> ('u, unit) sact" where
  "msg_leak E msg = cw_change (leak_check E)"

definition msg_log_rotate :: "'u sender_env \<Rightarrow> message \<Rightarrow> ('u, unit) sact" where
  "msg_log_rotate E msg w =
     (if logger_is_configured E (cw_peer w) then cw_change (logger_reopen E) w else (Inr (), w))"

definition msg_quitting :: "'u sender_env \<Rightarrow> message \<Rightarrow> ('u, unit) sact" where
  "msg_quitting E msg = on_stop E True"

definition msg_ready :: "'u sender_env \<Rightarrow> message \<Rightarrow> ('u, unit) sact" where
  "msg_ready E msg =
     act_bind (act_lift (has_parameter msg ''my_address'')) (\<lambda>has.
     act_bind
       (if has then
          act_bind (act_lift (res_bind (get_parameter msg ''my_address'') (string_to_addr E)))
            (\<lambda>a w. (Inr (), w\<lparr>cw_my_address := a\<rparr>))
        else act_return ()) (\<lambda>_.
     act_bind (on_ready E msg) (\<lambda>_.
     \<lambda>w. (Inr (), w\<lparr>cw_ready := True\<rparr>))))"

definition msg_restart :: "'u sender_env \<Rightarrow> message \<Rightarrow> ('u, unit) sact" where
  "msg_restart E msg = on_restart E msg"

definition msg_service_unavailable :: "message \<Rightarrow> ('u, unit) sact" where
  "msg_service_unavailable msg = act_return ()"

definition msg_stop :: "'u sender_env \<Rightarrow> message \<Rightarrow> ('u, unit) sact" where
  "msg_stop E msg = on_stop E False"

text \<open>It only writes a log message, but to look the parameters up cannot fail.\<close>

definition msg_log_unknown :: "message \<Rightarrow> ('u, unit) sact" where
  "msg_log_unknown msg =
     act_bind (act_lift (res_bind (has_parameter msg ''command'')
        (\<lambda>has. if has then get_parameter msg ''command'' else Inr ''<undefined>''))) (\<lambda>_.
     act_bind (act_lift (res_bind (has_parameter msg ''message'')
        (\<lambda>has. if has then get_parameter msg ''message'' else Inr []))) (\<lambda>_. act_return ()))"

definition unknown_message :: "message \<Rightarrow> message result" where
  "unknown_message msg =
     res_bind (reply_to new_message msg) (\<lambda>m1.
     res_bind (set_command m1 ''UNKNOWN'') (\<lambda>m2.
     add_parameter m2 ''command'' (f_command msg)))"

definition msg_reply_with_unknown :: "'u sender_env \<Rightarrow> message \<Rightarrow> ('u, unit) sact" where
  "msg_reply_with_unknown E msg =
     act_bind (act_lift (unknown_message msg)) (\<lambda>unknown.
     act_bind (cw_send_message E unknown False) (\<lambda>_. act_return ()))"

definition get_service_name :: "bool \<Rightarrow> 'u sender \<Rightarrow> string result" where
  "get_service_name required w =
     (if required \<and> cw_service_name w = [] then Inl Name_undefined else Inr (cw_service_name w))"

definition register_message :: "string \<Rightarrow> message result" where
  "register_message name =
     res_bind (set_command new_message ''REGISTER'') (\<lambda>m1.
     res_bind (add_parameter m1 ''service'' name) add_version_parameter)"

definition register_service :: "'u sender_env \<Rightarrow> ('u, bool) sact" where
  "register_service E w =
     act_bind (act_lift (get_service_name False w)) (\<lambda>name.
     act_bind (act_lift (register_message name)) (\<lambda>m. cw_send_message E m False)) w"

definition unregister_message :: "string \<Rightarrow> message result" where
  "unregister_message name =
     res_bind (set_command new_message ''UNREGISTER'') (\<lambda>m. add_parameter m ''service'' name)"

definition unregister_service :: "'u sender_env \<Rightarrow> ('u, unit) sact" where
  "unregister_service E w =
     (if \<not> is_connection E (cw_peer w) then (Inl Implementation_error, w)
      else
        act_bind (cw_change (mark_done E)) (\<lambda>_. \<lambda>w.
          act_bind (act_lift (get_service_name True w)) (\<lambda>name.
          act_bind (act_lift (unregister_message name)) (\<lambda>m.
          act_bind (cw_send_message E m False) (\<lambda>ok.
            act_when (\<not> ok) (cw_change (remove_from_communicator E))))) w) w)"

definition commands_message :: "message option \<Rightarrow> string \<Rightarrow> message result" where
  "commands_message msg list =
     res_bind
       (case msg of
          Some m \<Rightarrow> reply_to new_message m
        | None \<Rightarrow> res_bind (set_server new_message ''.'') (\<lambda>m1. set_service m1 ''communicatord''))
       (\<lambda>m2. res_bind (set_command m2 ''COMMANDS'') (\<lambda>m3. add_parameter m3 ''list'' list))"

definition sender_help :: "'u sender_env \<Rightarrow> string list \<Rightarrow> ('u, string list) sact" where
  "sender_help E commands = help_callbacks E commands"

definition send_commands :: "'u sender_env \<Rightarrow> message option \<Rightarrow> ('u, unit) sact" where
  "send_commands E msg w =
     (if (case msg of None \<Rightarrow> False | Some m \<Rightarrow> f_command m \<noteq> ''HELP'') then (Inr (), w)
      else
        let (need_user_help, commands) =
              (case get_dispatcher E (cw_peer w) of None \<Rightarrow> (True, []) | Some d \<Rightarrow> get_commands d [])
        in act_bind (if need_user_help then sender_help E commands else act_return commands) (\<lambda>commands.
             if commands = [] then act_throw Implementation_error
             else act_bind (act_lift (commands_message msg (join_strings E (set commands) '',''))) (\<lambda>m.
                    act_bind (cw_send_message E m False) (\<lambda>_. act_return ()))) w)"

definition msg_help :: "'u sender_env \<Rightarrow> message \<Rightarrow> ('u, unit) sact" where
  "msg_help E msg = send_commands E (Some msg)"

section \<open>What is answered\<close>

lemma reply_ok:
  assumes "wf_message msg"
  shows "\<exists>r. reply_to new_message msg = Inr r \<and> f_server r = f_sent_from_server msg \<and> f_service r = f_sent_from_service msg
    \<and> f_command r = [] \<and> f_parameters r = [] \<and> wf_message r"
proof -
  have "verify_message_name (f_sent_from_server msg) True True = Inr ()"
    and "verify_message_name (f_sent_from_service msg) True True = Inr ()"
    using assms by (simp_all add: verify_message_name_Inr wf_message_def)
  then have "\<exists>r. reply_to new_message msg = Inr r \<and> f_server r = f_sent_from_server msg \<and>
      f_service r = f_sent_from_service msg \<and> f_command r = [] \<and> f_parameters r = []"
    by (auto simp: reply_to_def set_server_def set_service_def new_message_def)
  then obtain r where r: "reply_to new_message msg = Inr r" "f_server r = f_sent_from_server msg"
      "f_service r = f_sent_from_service msg" "f_command r = []" "f_parameters r = []"
    by blast
  with wf_reply_to [OF wf_new_message r(1)] show ?thesis by blast
qed

lemma names_ok [simp]:
  "verify_message_name ''serial'' False True = Inr ()" "verify_message_name ''timestamp'' False True = Inr ()"
  "verify_message_name ''reply_timestamp'' False True = Inr ()" "verify_message_name ''command'' False True = Inr ()"
  "verify_message_name ''service'' False True = Inr ()" "verify_message_name ''list'' False True = Inr ()"
  "verify_message_name ''message'' False True = Inr ()"
  "verify_message_name ''ABSOLUTELY'' False False = Inr ()" "verify_message_name ''UNKNOWN'' False False = Inr ()"
  "verify_message_name ''COMMANDS'' False False = Inr ()" "verify_message_name ''REGISTER'' False False = Inr ()"
  "verify_message_name ''UNREGISTER'' False False = Inr ()"
  by code_simp+

lemma copy_parameter_ok:
  "verify_message_name name False True = Inr () \<Longrightarrow>
     \<exists>m'. copy_parameter name msg m = Inr m' \<and> f_server m' = f_server m \<and> f_service m' = f_service m \<and> f_command m' = f_command m
       \<and> map_of (f_parameters m') = (case map_of (f_parameters msg) name of None \<Rightarrow> map_of (f_parameters m)
            | Some v \<Rightarrow> (map_of (f_parameters m))(name \<mapsto> v))"
  by (auto simp: copy_parameter_def has_parameter_def get_parameter_def add_parameter_def map_of_omap_put split: option.split)

lemma set_command_ok:
  "verify_message_name c False False = Inr () \<Longrightarrow> \<exists>m'. set_command m c = Inr m' \<and> f_server m' = f_server m \<and>
     f_service m' = f_service m \<and> f_command m' = c \<and> f_parameters m' = f_parameters m"
  by (auto simp: set_command_def)

lemma add_parameter_ok:
  "verify_message_name n False True = Inr () \<Longrightarrow> \<exists>m'. add_parameter m n v = Inr m' \<and> f_server m' = f_server m \<and>
     f_service m' = f_service m \<and> f_command m' = f_command m \<and> f_parameters m' = omap_put n v (f_parameters m)"
  by (auto simp: add_parameter_def)

lemma absolutely_ok:
  assumes "wf_message msg"
  shows "\<exists>m. absolutely_message msg now = Inr m \<and> f_server m = f_sent_from_server msg \<and>
    f_service m = f_sent_from_service msg \<and> f_command m = ''ABSOLUTELY'' \<and>
    map_of (f_parameters m) = (map_of (f_parameters msg) |` {''serial'', ''timestamp''})(''reply_timestamp'' \<mapsto> now)"
proof -
  obtain m1 where m1: "reply_to new_message msg = Inr m1" "f_server m1 = f_sent_from_server msg"
      "f_service m1 = f_sent_from_service msg" "f_parameters m1 = []"
    using reply_ok [OF assms] by blast
  obtain m2 where m2: "set_command m1 ''ABSOLUTELY'' = Inr m2" "f_server m2 = f_server m1" "f_service m2 = f_service m1"
      "f_command m2 = ''ABSOLUTELY''" "f_parameters m2 = []"
    using set_command_ok [of "''ABSOLUTELY''" m1] m1 by auto
  obtain m3 where m3: "copy_parameter ''serial'' msg m2 = Inr m3" "f_server m3 = f_server m2" "f_service m3 = f_service m2"
      "f_command m3 = f_command m2" "map_of (f_parameters m3) = map_of (f_parameters msg) |` {''serial''}"
    using copy_parameter_ok [of "''serial''" msg m2] m2 by (auto simp: fun_eq_iff restrict_map_def split: option.splits)
  obtain m4 where m4: "copy_parameter ''timestamp'' msg m3 = Inr m4" "f_server m4 = f_server m3" "f_service m4 = f_service m3"
      "f_command m4 = f_command m3" "map_of (f_parameters m4) = map_of (f_parameters msg) |` {''serial'', ''timestamp''}"
    using copy_parameter_ok [of "''timestamp''" msg m3] m3 by (auto simp: fun_eq_iff restrict_map_def split: option.splits)
  obtain m5 where "add_parameter m4 ''reply_timestamp'' now = Inr m5" "f_server m5 = f_server m4" "f_service m5 = f_service m4"
      "f_command m5 = f_command m4" "f_parameters m5 = omap_put ''reply_timestamp'' now (f_parameters m4)"
    using add_parameter_ok [of "''reply_timestamp''" m4 now] by auto
  with m1 m2 m3 m4 show ?thesis by (simp add: absolutely_message_def map_of_omap_put)
qed

text \<open>The answer to \<^verbatim>\<open>ALIVE\<close> goes back to the sender, with the serial number and the time stamp it came with.\<close>

lemma alive_answered:
  assumes "wf_message msg" and t: "timestamp_now E (cw_peer w) = (now, u)"
  shows "\<exists>m. msg_alive E msg w = act_bind (cw_send_message E m False) (\<lambda>_. act_return ()) (w\<lparr>cw_peer := u\<rparr>) \<and>
    f_server m = f_sent_from_server msg \<and> f_service m = f_sent_from_service msg \<and> f_command m = ''ABSOLUTELY'' \<and>
    map_of (f_parameters m) = (map_of (f_parameters msg) |` {''serial'', ''timestamp''})(''reply_timestamp'' \<mapsto> now)"
proof -
  obtain m0 where m0: "absolutely_message msg [] = Inr m0" using absolutely_ok [OF assms(1)] by blast
  obtain m where m: "absolutely_message msg now = Inr m" "f_server m = f_sent_from_server msg"
    "f_service m = f_sent_from_service msg" "f_command m = ''ABSOLUTELY''"
    "map_of (f_parameters m) = (map_of (f_parameters msg) |` {''serial'', ''timestamp''})(''reply_timestamp'' \<mapsto> now)"
    using absolutely_ok [OF assms(1)] by blast
  moreover have "msg_alive E msg w = act_bind (cw_send_message E m False) (\<lambda>_. act_return ()) (w\<lparr>cw_peer := u\<rparr>)"
    using m(1) m0 t by (simp add: msg_alive_def act_bind_def act_lift_def cw_system_def)
  ultimately show ?thesis by blast
qed

lemma commands_message_ok:
  assumes "wf_message msg"
  shows "\<exists>m. commands_message (Some msg) l = Inr m \<and> f_server m = f_sent_from_server msg \<and>
    f_service m = f_sent_from_service msg \<and> f_command m = ''COMMANDS'' \<and> f_parameters m = [(''list'', l)]"
proof -
  obtain m1 where m1: "reply_to new_message msg = Inr m1" "f_server m1 = f_sent_from_server msg"
      "f_service m1 = f_sent_from_service msg" "f_parameters m1 = []"
    using reply_ok [OF assms] by blast
  obtain m2 where m2: "set_command m1 ''COMMANDS'' = Inr m2" "f_server m2 = f_server m1" "f_service m2 = f_service m1"
      "f_command m2 = ''COMMANDS''" "f_parameters m2 = []"
    using set_command_ok [of "''COMMANDS''" m1] m1 by auto
  with m1 add_parameter_ok [of "''list''" m2 l] show ?thesis by (auto simp: commands_message_def)
qed

text \<open>\<open>named_commands\<close> is what a reader of the table of the dispatcher expects \<^verbatim>\<open>HELP\<close> to list.\<close>

definition named_commands :: "dispatcher \<Rightarrow> string set" where
  "named_commands d = {e. \<exists>k \<in> set (f_matches d). f_expr k = Some e \<and> (f_match k = One_to_one_match \<or> f_match k = One_to_one_callback_match)}"

lemma get_commands_named: "set (snd (get_commands d cs)) = set cs \<union> named_commands d"
proof -
  have "set (snd (fold (\<lambda>m (help, cs). case f_expr m of
          None \<Rightarrow> (help \<or> (f_match m \<noteq> Always_match \<and> f_match m \<noteq> Callback_match), cs)
        | Some e \<Rightarrow> if f_match m = One_to_one_match \<or> f_match m = One_to_one_callback_match
            then (help, List.insert e cs) else (True, cs)) ks p)) =
      set (snd p) \<union> {e. \<exists>k \<in> set ks. f_expr k = Some e \<and> (f_match k = One_to_one_match \<or> f_match k = One_to_one_callback_match)}" for ks p
    by (induction ks arbitrary: p) (auto split: option.splits if_splits prod.splits)
  from this [of "f_matches d" "(f_callback (f_end d) \<noteq> None, cs)"] show ?thesis
    unfolding get_commands_def named_commands_def by simp
qed

text \<open>
  \<^verbatim>\<open>HELP\<close> is answered with every command. A service whose dispatcher names at least one command
  answers a \<^verbatim>\<open>HELP\<close> message with one \<^verbatim>\<open>COMMANDS\<close> message, sent back to where \<^verbatim>\<open>HELP\<close> came from and not cached. Its
  only parameter is the list of the commands, which has all those the dispatcher names, and only those when no
  entry of the table needs the help of the user. The callbacks may add commands; they are assumed not to remove any.\<close>

theorem help_lists_every_command:
  assumes "wf_message msg" and "f_command msg = ''HELP''"
    and d: "get_dispatcher E (cw_peer w) = Some d" and some: "named_commands d \<noteq> {}"
    and grow: "\<And>cs w. \<exists>cs' w'. help_callbacks E cs w = (Inr cs', w') \<and> set cs \<subseteq> set cs'"
  shows "\<exists>S m w'. msg_help E msg w = act_bind (cw_send_message E m False) (\<lambda>_. act_return ()) w' \<and>
    f_server m = f_sent_from_server msg \<and> f_service m = f_sent_from_service msg \<and> f_command m = ''COMMANDS'' \<and>
    f_parameters m = [(''list'', join_strings E S '','')] \<and> named_commands d \<subseteq> S \<and>
    (\<not> fst (get_commands d []) \<longrightarrow> S = named_commands d \<and> w' = w)"
proof -
  obtain need cs where g: "get_commands d [] = (need, cs)" by (cases "get_commands d []")
  have cs: "set cs = named_commands d" using get_commands_named [of d "[]"] g by simp
  obtain cs' w' where h: "(if need then sender_help E cs else act_return cs) w = (Inr cs', w')" "set cs \<subseteq> set cs'"
      "\<not> need \<longrightarrow> cs' = cs \<and> w' = w"
    using grow [of cs w] by (cases need) (auto simp: sender_help_def act_return_def)
  obtain m where m: "commands_message (Some msg) (join_strings E (set cs') '','') = Inr m" "f_server m = f_sent_from_server msg"
    "f_service m = f_sent_from_service msg" "f_command m = ''COMMANDS''" "f_parameters m = [(''list'', join_strings E (set cs') '','')]"
    using commands_message_ok [OF assms(1)] by blast
  have "cs' \<noteq> []" using h(2) cs some by auto
  with h(1) m(1) g d assms(2)
  have "msg_help E msg w = act_bind (cw_send_message E m False) (\<lambda>_. act_return ()) w'"
    by (simp add: msg_help_def send_commands_def Let_def act_bind_def act_lift_def)
  with m h cs g show ?thesis by (intro exI [of _ "set cs'"] exI [of _ m] exI [of _ w']) auto
qed

text \<open>\<^verbatim>\<open>register_service()\<close> is documented to throw \<^verbatim>\<open>name_undefined\<close> when the service has no name, as
  \<^verbatim>\<open>unregister_service()\<close> does; it sends the empty name.\<close>

lemma register_without_name:
  assumes "cw_service_name w = []" and "add_version_parameter (new_message\<lparr>f_command := ''REGISTER'', f_parameters := [(''service'', [])]\<rparr>) = Inr m"
  shows "register_service E w = cw_send_message E m False w"
    and "is_connection E (cw_peer w) \<Longrightarrow> fst (unregister_service E w) = Inl Name_undefined"
  using assms
  by (simp_all add: register_service_def unregister_service_def get_service_name_def register_message_def set_command_def
      add_parameter_def new_message_def act_bind_def act_lift_def cw_change_def)

section \<open>A service to try the theorems on\<close>

text \<open>The rest of the program is the list of the messages that were sent.\<close>

definition demo_sender_env :: "message list sender_env" where
  "demo_sender_env = \<lparr>cw_send_message = (\<lambda>m cache w. (Inr True, w\<lparr>cw_peer := cw_peer w @ [m]\<rparr>)),
     on_ready = (\<lambda>_. act_return ()), on_restart = (\<lambda>_. act_return ()), on_stop = (\<lambda>_. act_return ()),
     help_callbacks = (\<lambda>cs. act_return (cs @ [''LOCK''])), get_dispatcher = (\<lambda>_. Some demo_dispatcher),
     is_connection = (\<lambda>_. True), mark_done = id, remove_from_communicator = id, leak_check = id,
     logger_is_configured = (\<lambda>_. True), logger_reopen = id, timestamp_now = (\<lambda>u. (''1.5'', u)),
     string_to_addr = Inr, join_strings = (\<lambda>S sep. concat (map (\<lambda>s. s @ sep) (sorted_list_of_set S)))\<rparr>"

definition demo_help :: message where
  "demo_help = new_message\<lparr>f_command := ''HELP'', f_sent_from_server := ''srv'', f_sent_from_service := ''communicatord''\<rparr>"

definition demo_sender :: "message list sender" where
  "demo_sender = \<lparr>cw_service_name = ''web'', cw_ready = False, cw_my_address = [], cw_peer = []\<rparr>"

theorem help_lists_every_command_witness:
  "named_commands demo_dispatcher = {''PING'', ''STOP''} \<and>
   (\<exists>S m w'. msg_help demo_sender_env demo_help demo_sender =
      act_bind (cw_send_message demo_sender_env m False) (\<lambda>_. act_return ()) w' \<and>
    f_server m = f_sent_from_server demo_help \<and> f_service m = f_sent_from_service demo_help \<and> f_command m = ''COMMANDS'' \<and>
    f_parameters m = [(''list'', join_strings demo_sender_env S '','')] \<and> named_commands demo_dispatcher \<subseteq> S \<and>
    (\<not> fst (get_commands demo_dispatcher []) \<longrightarrow> S = named_commands demo_dispatcher \<and> w' = demo_sender))"
proof
  show named: "named_commands demo_dispatcher = {''PING'', ''STOP''}"
    by (auto simp: named_commands_def demo_dispatcher_def demo_match_def no_match_def new_dispatcher_def)
  have wf: "wf_message demo_help" by code_simp
  have cmd: "f_command demo_help = ''HELP''" by (simp add: demo_help_def)
  have d: "get_dispatcher demo_sender_env (cw_peer demo_sender) = Some demo_dispatcher" by (simp add: demo_sender_env_def)
  have some: "named_commands demo_dispatcher \<noteq> {}" by (simp add: named)
  have grow: "\<exists>cs' w'. help_callbacks demo_sender_env cs w = (Inr cs', w') \<and> set cs \<subseteq> set cs'" for cs w
    by (auto simp: demo_sender_env_def act_return_def)
  show "\<exists>S m w'. msg_help demo_sender_env demo_help demo_sender =
      act_bind (cw_send_message demo_sender_env m False) (\<lambda>_. act_return ()) w' \<and>
    f_server m = f_sent_from_server demo_help \<and> f_service m = f_sent_from_service demo_help \<and> f_command m = ''COMMANDS'' \<and>
    f_parameters m = [(''list'', join_strings demo_sender_env S '','')] \<and> named_commands demo_dispatcher \<subseteq> S \<and>
    (\<not> fst (get_commands demo_dispatcher []) \<longrightarrow> S = named_commands demo_dispatcher \<and> w' = demo_sender)"
    by (rule help_lists_every_command [OF wf cmd d some grow])
qed

end
