(* ===== verification/Pause_Durations.thy ===== *)
theory Pause_Durations
  imports Prelude
begin

text \<open>
  \<^verbatim>\<open>pause_durations.cpp\<close>: how long a permanent connection waits before it tries to connect again.
\<close>

text \<open>\<open>'d\<close> is \<^verbatim>\<open>double\<close>. The fields are the comparisons with zero, \<^verbatim>\<open>fabs()\<close>, the sign, the conversion from
  microseconds, the text to seconds conversion of \<^verbatim>\<open>advgetopt\<close>, and the product by a million as the
  \<^verbatim>\<open>std::int64_t\<close> a timer takes.\<close>

record 'd pause_env =
  pd_zero :: 'd
  pd_minus_one :: 'd
  pd_negative :: "'d \<Rightarrow> bool"
  pd_positive :: "'d \<Rightarrow> bool"
  pd_minus :: "'d \<Rightarrow> 'd"
  pd_fabs :: "'d \<Rightarrow> 'd"
  pd_of_us :: "int \<Rightarrow> 'd"
  pd_to_us :: "'d \<Rightarrow> int"
  pd_split :: "string \<Rightarrow> string list"
  pd_seconds :: "string \<Rightarrow> 'd option"

record 'd pause_durations =
  f_pause :: "'d list"
  f_pause_pos :: "8 word"

definition DEFAULT_PAUSE_BEFORE_RECONNECTING :: int where
  "DEFAULT_PAUSE_BEFORE_RECONNECTING = 60000000"

definition pause_restart :: "'d pause_env \<Rightarrow> 'd pause_durations \<Rightarrow> 'd pause_durations" where
  "pause_restart D p =
     (if length (f_pause p) = 1 \<or> pd_positive D (hd (f_pause p)) then p\<lparr>f_pause_pos := 0\<rparr> else p\<lparr>f_pause_pos := 1\<rparr>)"

definition pause_of_int :: "'d pause_env \<Rightarrow> int \<Rightarrow> 'd pause_durations" where
  "pause_of_int D us = pause_restart D \<lparr>f_pause = [pd_of_us D us], f_pause_pos = 1\<rparr>"

fun parse_pauses :: "'d pause_env \<Rightarrow> string list \<Rightarrow> 'd list \<Rightarrow> 'd list result" where
  "parse_pauses D [] ps = Inr ps"
| "parse_pauses D (d # ds) ps =
     (if length ps \<ge> 254 then Inl Invalid_parameter
      else case pd_seconds D d of
             None \<Rightarrow> Inl Invalid_parameter
           | Some s \<Rightarrow> parse_pauses D ds (ps @ [s]))"

definition parse_pause_list :: "'d pause_env \<Rightarrow> string \<Rightarrow> 'd list result" where
  "parse_pause_list D pause =
     res_bind (parse_pauses D (pd_split D pause) [])
       (\<lambda>ps. Inr (if ps = [] then [pd_of_us D DEFAULT_PAUSE_BEFORE_RECONNECTING] else ps))"

definition pause_of_string :: "'d pause_env \<Rightarrow> string \<Rightarrow> 'd pause_durations result" where
  "pause_of_string D value =
     res_bind (parse_pause_list D value) (\<lambda>ps. Inr (pause_restart D \<lparr>f_pause = ps, f_pause_pos = 1\<rparr>))"

definition initial_timer_value :: "'d pause_env \<Rightarrow> 'd pause_durations \<Rightarrow> 'd" where
  "initial_timer_value D p = (if pd_negative D (hd (f_pause p)) then pd_minus D (hd (f_pause p)) else pd_zero D)"

definition get_next_delay :: "'d pause_env \<Rightarrow> 'd pause_durations \<Rightarrow> 'd \<times> 'd pause_durations" where
  "get_next_delay D p =
     (if unat (f_pause_pos p) < length (f_pause p)
      then (pd_fabs D (f_pause p ! unat (f_pause_pos p)), p\<lparr>f_pause_pos := f_pause_pos p + 1\<rparr>)
      else (pd_minus_one D, p))"

section \<open>The pauses come in order\<close>

text \<open>The limit of 254 entries keeps the 8 bit position from wrapping.\<close>

definition pause_ok :: "'d pause_durations \<Rightarrow> bool" where
  "pause_ok p \<longleftrightarrow> f_pause p \<noteq> [] \<and> length (f_pause p) \<le> 254 \<and> unat (f_pause_pos p) \<le> length (f_pause p)"

lemma parse_pauses_length: "parse_pauses D ds ps = Inr ps' \<Longrightarrow> length ps \<le> 254 \<Longrightarrow> length ps' \<le> 254"
  by (induction D ds ps rule: parse_pauses.induct) (auto split: if_splits option.splits)

lemma pause_restart_ok: "f_pause p \<noteq> [] \<Longrightarrow> length (f_pause p) \<le> 254 \<Longrightarrow> pause_ok (pause_restart D p)"
  by (cases "f_pause p") (auto simp: pause_ok_def pause_restart_def)

lemma pause_of_int_ok: "pause_ok (pause_of_int D us)"
  unfolding pause_of_int_def by (rule pause_restart_ok) simp_all

lemma pause_of_string_ok: "pause_of_string D s = Inr p \<Longrightarrow> pause_ok p"
  by (auto simp: pause_of_string_def parse_pause_list_def res_bind_eq_Inr intro!: pause_restart_ok dest!: parse_pauses_length split: if_splits)

lemma get_next_delay_ok: "pause_ok p \<Longrightarrow> pause_ok (snd (get_next_delay D p))"
  by (auto simp: pause_ok_def get_next_delay_def unat_word_ariths)

lemma pause_restart_again: "pause_ok p \<Longrightarrow> pause_ok (pause_restart D p)"
  by (auto simp: pause_ok_def intro!: pause_restart_ok [unfolded pause_ok_def])

lemma pause_restart_pauses [simp]: "f_pause (pause_restart D p) = f_pause p"
  by (simp add: pause_restart_def)

lemma pause_restart_pos: "pause_ok p \<Longrightarrow> unat (f_pause_pos (pause_restart D p)) < length (f_pause p)"
  by (cases "f_pause p"; cases "tl (f_pause p)") (auto simp: pause_ok_def pause_restart_def)

text \<open>The delays of \<open>n\<close> calls.\<close>

fun next_delays :: "'d pause_env \<Rightarrow> nat \<Rightarrow> 'd pause_durations \<Rightarrow> 'd list" where
  "next_delays D 0 p = []"
| "next_delays D (Suc n) p = (case get_next_delay D p of (d, p') \<Rightarrow> d # next_delays D n p')"

lemma next_delays_from:
  "pause_ok p \<Longrightarrow> next_delays D n p =
     take n (map (pd_fabs D) (drop (unat (f_pause_pos p)) (f_pause p)) @ replicate n (pd_minus_one D))"
proof (induction n arbitrary: p)
  case (Suc n)
  have ok: "pause_ok (snd (get_next_delay D p))" by (rule get_next_delay_ok [OF Suc.prems])
  show ?case
  proof (cases "unat (f_pause_pos p) < length (f_pause p)")
    case True
    then have pos: "unat (f_pause_pos p + 1) = Suc (unat (f_pause_pos p))"
      using Suc.prems by (simp add: pause_ok_def unat_word_ariths)
    have "take k (x # replicate n x) = replicate (min k (Suc n)) x" for k and x :: 'a
      by (metis replicate_Suc take_replicate)
    then show ?thesis using True Suc.IH [OF ok] pos
      by (simp add: get_next_delay_def Cons_nth_drop_Suc [symmetric] min_absorb1)
  next
    case False
    then show ?thesis using Suc.IH [OF ok] by (simp add: get_next_delay_def)
  qed
qed simp

end
