(* ===== verification/Permanent.thy ===== *)
theory Permanent
  imports Message_Connection Pause_Durations
begin

text \<open>
  The connections that connect again when the link is lost: \<^verbatim>\<open>tcp_client_permanent_message_connection.cpp\<close>
  and \<^verbatim>\<open>local_stream_client_permanent_message_connection.cpp\<close>. The object is a timer; it tries to connect
  when the timer ticks, in a thread of its own when asked to, and then owns a messenger, a connection that
  carries messages. The two files are the same code over two kinds of messenger.
\<close>

section \<open>State and environment\<close>

text \<open>Where the background thread is: not started or joined, in \<^verbatim>\<open>connect()\<close>, about to write in the pipe, at its
  end.\<close>

datatype thread_state = Thread_idle | Thread_connecting | Thread_connected | Thread_ended

text \<open>The objects of this connection that the communicator may have in its list.\<close>

datatype member = Member_self | Member_signal | Member_messenger

text \<open>
  \<open>'k\<close> is a connected socket. \<open>pm_timer\<close> is the base class, \<open>f_tcp_connection\<close> what the thread connected
  (\<^verbatim>\<open>f_messenger\<close> of the runner in the local class), \<open>pm_pipe\<close> the number of bytes in the pipe of
  \<^verbatim>\<open>thread_done_signal\<close>, \<open>f_thread_done\<close> whether that object was made, \<open>pm_members\<close> the part of the list of
  the communicator that is about this object.
\<close>

record ('d, 'k, 'x) permanent =
  pm_timer :: connection
  f_pause_durations :: "'d pause_durations"
  f_use_thread :: bool
  f_addresses :: "string list"
  f_index :: nat
  f_tcp_connection :: "'k option"
  f_thread :: thread_state
  f_thread_done :: bool
  pm_pipe :: nat
  f_messenger :: "'k option"
  pm_messenger_done :: bool
  f_message_cache :: "message list"
  impl_done :: bool
  pm_members :: "member list"
  pm_os :: 'x

text \<open>The whole state: the buffers of the messenger around the object.\<close>

type_synonym ('d, 'k, 'x) pstate = "('d, 'k, 'x) permanent line_buffer"
type_synonym ('d, 'k, 'x, 'a) pact = "(('d, 'k, 'x) permanent, 'a) bact"

datatype permanent_class = Tcp_permanent | Local_permanent

text \<open>The system under the connection. \<open>pm_connect\<close> is the constructor that opens the socket, \<open>None\<close> when it
  throws; \<open>pm_dispatch\<close> the dispatcher and the program behind it.\<close>

record ('d, 'k, 'x) permanent_env =
  pm_class :: permanent_class
  pm_pause :: "'d pause_env"
  pm_message :: "('d, ('d, 'k, 'x) permanent) message_env"
  pm_connect :: "string \<Rightarrow> 'x \<Rightarrow> 'k option \<times> 'x"
  pm_thread_start :: "'x \<Rightarrow> bool \<times> 'x"
  pm_current_date :: "'x \<Rightarrow> int \<times> 'x"
  pm_read :: "'k \<Rightarrow> nat \<Rightarrow> 'x \<Rightarrow> (errno option + string) \<times> 'x"
  pm_write :: "'k \<Rightarrow> string \<Rightarrow> 'x \<Rightarrow> (errno option + nat) \<times> 'x"
  pm_valid_socket :: "'k \<Rightarrow> 'x \<Rightarrow> bool"
  pm_is_non_blocking :: "'k \<Rightarrow> 'x \<Rightarrow> bool"
  pm_close :: "'k \<Rightarrow> 'x \<Rightarrow> 'x"
  pm_event_limit :: nat
  pm_processing_time_limit :: int

definition pm_change :: "(('d, 'k, 'x) permanent \<Rightarrow> ('d, 'k, 'x) permanent) \<Rightarrow> ('d, 'k, 'x, unit) pact" where
  "pm_change f = bf_update (\<lambda>w. w\<lparr>lb_peer := f (lb_peer w)\<rparr>)"

definition pm_system :: "('x \<Rightarrow> 'a \<times> 'x) \<Rightarrow> ('d, 'k, 'x, 'a) pact" where
  "pm_system f = bf_system (\<lambda>p. case f (pm_os p) of (a, x) \<Rightarrow> (a, p\<lparr>pm_os := x\<rparr>))"

definition set_timer :: "(connection \<Rightarrow> connection) \<Rightarrow> ('d, 'k, 'x, unit) pact" where
  "set_timer f = pm_change (\<lambda>p. p\<lparr>pm_timer := f (pm_timer p)\<rparr>)"

section \<open>The list of the communicator\<close>

text \<open>\<^verbatim>\<open>connection_removed()\<close> does nothing for the signal and the messenger; for the object itself it disconnects.\<close>

definition drop_member :: "member \<Rightarrow> ('d, 'k, 'x, unit) pact" where
  "drop_member m = pm_change (\<lambda>p. p\<lparr>pm_members := remove1 m (pm_members p)\<rparr>)"

definition add_member :: "bool \<Rightarrow> member \<Rightarrow> ('d, 'k, 'x, unit) pact" where
  "add_member valid m w =
     (if \<not> valid then (Inl Invalid_parameter, w)
      else pm_change (\<lambda>p. p\<lparr>pm_members := (if m \<in> set (pm_members p) then pm_members p else pm_members p @ [m])\<rparr>) w)"

definition impl_disconnect :: "('d, 'k, 'x, unit) pact" where
  "impl_disconnect w =
     (if f_messenger (lb_peer w) = None then (Inr (), w)
      else act_bind (drop_member Member_messenger)
             (\<lambda>_. pm_change (\<lambda>p. p\<lparr>f_messenger := None, f_tcp_connection := None\<rparr>)) w)"

definition connection_removed :: "('d, 'k, 'x, unit) pact" where
  "connection_removed = impl_disconnect"

definition remove_self :: "('d, 'k, 'x, unit) pact" where
  "remove_self w =
     (if Member_self \<notin> set (pm_members (lb_peer w)) then (Inr (), w)
      else act_bind (drop_member Member_self) (\<lambda>_. connection_removed) w)"

section \<open>The callbacks of the messenger\<close>

definition permanent_process_empty_buffer :: "('d, 'k, 'x, unit) pact" where
  "permanent_process_empty_buffer w = act_when (f_done (pm_timer (lb_peer w))) remove_self w"

definition permanent_process_error :: "('d, 'k, 'x, unit) pact" where
  "permanent_process_error w =
     (if f_done (pm_timer (lb_peer w)) then remove_self w
      else act_bind impl_disconnect (\<lambda>_. set_timer (set_enable True)) w)"

definition permanent_process_hup :: "('d, 'k, 'x, unit) pact" where
  "permanent_process_hup w =
     (if f_done (pm_timer (lb_peer w)) then remove_self w
      else act_bind impl_disconnect (\<lambda>_. set_timer (set_enable True)) w)"

definition permanent_process_invalid :: "('d, 'k, 'x, unit) pact" where
  "permanent_process_invalid w =
     (if f_done (pm_timer (lb_peer w)) then remove_self w
      else act_bind impl_disconnect (\<lambda>_. set_timer (set_enable True)) w)"

definition messenger_process_empty_buffer :: "('d, 'k, 'x, unit) pact" where
  "messenger_process_empty_buffer w =
     act_bind (act_when (pm_messenger_done (lb_peer w)) (drop_member Member_messenger))
       (\<lambda>_. permanent_process_empty_buffer) w"

definition messenger_process_error :: "('d, 'k, 'x, unit) pact" where
  "messenger_process_error = act_bind (drop_member Member_messenger) (\<lambda>_. permanent_process_error)"

definition messenger_process_invalid :: "('d, 'k, 'x, unit) pact" where
  "messenger_process_invalid = act_bind (drop_member Member_messenger) (\<lambda>_. permanent_process_invalid)"

text \<open>The buffered connection the messenger is, with the callbacks it overrides. A socket that is gone
  answers like a closed descriptor.\<close>

definition messenger_buffer :: "('d, 'k, 'x) permanent_env \<Rightarrow> ('d, 'k, 'x) permanent buffer_env" where
  "messenger_buffer E = \<lparr>
     bf_valid_socket = (\<lambda>p. case f_messenger p of None \<Rightarrow> False | Some k \<Rightarrow> pm_valid_socket E k (pm_os p)),
     bf_fd_is_writer = (\<lambda>_. True),
     bf_is_non_blocking = (\<lambda>p. case f_messenger p of None \<Rightarrow> False | Some k \<Rightarrow> pm_is_non_blocking E k (pm_os p)),
     bf_read = (\<lambda>n p. case f_messenger p of None \<Rightarrow> (Inl (Some EBADF), p)
        | Some k \<Rightarrow> (case pm_read E k n (pm_os p) of (r, x) \<Rightarrow> (r, p\<lparr>pm_os := x\<rparr>))),
     bf_write = (\<lambda>d p. case f_messenger p of None \<Rightarrow> (Inl (Some EBADF), p)
        | Some k \<Rightarrow> (case pm_write E k d (pm_os p) of (r, x) \<Rightarrow> (r, p\<lparr>pm_os := x\<rparr>))),
     bf_current_date = (\<lambda>p. case pm_current_date E (pm_os p) of (d, x) \<Rightarrow> (d, p\<lparr>pm_os := x\<rparr>)),
     bf_event_limit = (\<lambda>_. pm_event_limit E),
     bf_processing_time_limit = (\<lambda>_. pm_processing_time_limit E),
     bf_close = (\<lambda>p. case f_messenger p of None \<Rightarrow> p | Some k \<Rightarrow> p\<lparr>pm_os := pm_close E k (pm_os p)\<rparr>),
     bf_process_line = stream_process_line (pm_message E),
     bf_process_empty_buffer = messenger_process_empty_buffer,
     bf_process_error = messenger_process_error,
     bf_next_read = act_return (),
     bf_next_write = act_return (),
     bf_next_hup = drop_member Member_messenger\<rparr>"

definition messenger_process_hup :: "('d, 'k, 'x) permanent_env \<Rightarrow> ('d, 'k, 'x, unit) pact" where
  "messenger_process_hup E = act_bind (buffer_process_hup (messenger_buffer E)) (\<lambda>_. permanent_process_hup)"

definition messenger_process_read :: "nat \<Rightarrow> ('d, 'k, 'x) permanent_env \<Rightarrow> ('d, 'k, 'x, unit) pact" where
  "messenger_process_read fuel E = buffer_process_read fuel (messenger_buffer E)"

definition messenger_process_write :: "('d, 'k, 'x) permanent_env \<Rightarrow> ('d, 'k, 'x, unit) pact" where
  "messenger_process_write E = buffer_process_write (messenger_buffer E)"

definition messenger_send :: "('d, 'k, 'x) permanent_env \<Rightarrow> message \<Rightarrow> ('d, 'k, 'x, bool \<times> message) pact" where
  "messenger_send E =
     (case pm_class E of
        Tcp_permanent \<Rightarrow> tcp_server_client_send_message (pm_message E) (messenger_buffer E)
      | Local_permanent \<Rightarrow> local_client_send_message (pm_message E) (messenger_buffer E))"

section \<open>The background thread\<close>

text \<open>\<^verbatim>\<open>runner::connect()\<close>: on failure the next address is the one to try.\<close>

definition runner_connect :: "('d, 'k, 'x) permanent_env \<Rightarrow> ('d, 'k, 'x, unit) pact" where
  "runner_connect E w =
     (let p = lb_peer w in
      if f_index p \<ge> length (f_addresses p) then (Inl Undefined_behaviour, w)
      else act_bind (pm_system (pm_connect E (f_addresses p ! f_index p)))
             (\<lambda>r. case r of
                 Some k \<Rightarrow> pm_change (\<lambda>p. p\<lparr>f_tcp_connection := Some k\<rparr>)
               | None \<Rightarrow> pm_change (\<lambda>p. p\<lparr>f_tcp_connection := None,
                    f_index := (if f_index p + 1 \<ge> length (f_addresses p) then 0 else f_index p + 1)\<rparr>)) w)"

definition trigger_thread_done :: "('d, 'k, 'x, unit) pact" where
  "trigger_thread_done = pm_change (\<lambda>p. p\<lparr>pm_pipe := pm_pipe p + 1\<rparr>)"

text \<open>\<^verbatim>\<open>runner::run()\<close> in the two steps other threads can come between.\<close>

definition thread_step :: "('d, 'k, 'x) permanent_env \<Rightarrow> ('d, 'k, 'x, unit) pact" where
  "thread_step E w =
     (case f_thread (lb_peer w) of
        Thread_connecting \<Rightarrow> act_bind (runner_connect E) (\<lambda>_. pm_change (\<lambda>p. p\<lparr>f_thread := Thread_connected\<rparr>)) w
      | Thread_connected \<Rightarrow> act_bind trigger_thread_done (\<lambda>_. pm_change (\<lambda>p. p\<lparr>f_thread := Thread_ended\<rparr>)) w
      | _ \<Rightarrow> (Inr (), w))"

text \<open>\<^verbatim>\<open>f_thread.stop()\<close> waits for the end of \<^verbatim>\<open>run()\<close>.\<close>

definition thread_stop :: "('d, 'k, 'x) permanent_env \<Rightarrow> ('d, 'k, 'x, unit) pact" where
  "thread_stop E =
     act_bind (thread_step E) (\<lambda>_. act_bind (thread_step E) (\<lambda>_. pm_change (\<lambda>p. p\<lparr>f_thread := Thread_idle\<rparr>)))"

definition release_client :: "('d, 'k, 'x, 'k option) pact" where
  "release_client w = (Inr (f_tcp_connection (lb_peer w)), w\<lparr>lb_peer := (lb_peer w)\<lparr>f_tcp_connection := None\<rparr>\<rparr>)"

section \<open>The implementation object\<close>

definition process_connection_failed :: "('d, 'k, 'x, unit) pact" where
  "process_connection_failed = set_timer (set_enable True)"

definition process_connected :: "('d, 'k, 'x) permanent_env \<Rightarrow> ('d, 'k, 'x, unit) pact" where
  "process_connected E =
     act_bind (pm_change (\<lambda>p. p\<lparr>f_pause_durations := pause_restart (pm_pause E) (f_pause_durations p)\<rparr>))
       (\<lambda>_. set_timer (set_enable False))"

text \<open>The loop that empties the cache. \<^verbatim>\<open>send_message()\<close> cannot add to the cache, so its length bounds the loop.\<close>

fun flush_cache :: "nat \<Rightarrow> ('d, 'k, 'x) permanent_env \<Rightarrow> ('d, 'k, 'x, unit) pact" where
  "flush_cache 0 E w = (if f_message_cache (lb_peer w) = [] then (Inr (), w) else (Inl No_fuel, w))"
| "flush_cache (Suc n) E w =
     (case f_message_cache (lb_peer w) of
        [] \<Rightarrow> (Inr (), w)
      | m # _ \<Rightarrow>
          if f_messenger (lb_peer w) = None then (Inl Undefined_behaviour, w)
          else act_bind (messenger_send E m)
                 (\<lambda>_ w. case f_message_cache (lb_peer w) of
                          [] \<Rightarrow> (Inl Undefined_behaviour, w)
                        | _ # ms \<Rightarrow> act_bind (pm_change (\<lambda>p. p\<lparr>f_message_cache := ms\<rparr>)) (\<lambda>_. flush_cache n E) w) w)"

text \<open>\<^verbatim>\<open>make_shared<messenger>()\<close> in the TCP class, the pointer of the runner in the local one.\<close>

definition new_messenger :: "'k \<Rightarrow> ('d, 'k, 'x, unit) pact" where
  "new_messenger k = bf_update (\<lambda>w. w\<lparr>lb_line := [], lb_output := [], lb_position := 0,
     lb_peer := (lb_peer w)\<lparr>f_messenger := Some k, pm_messenger_done := False\<rparr>\<rparr>)"

definition connection_made :: "('d, 'k, 'x) permanent_env \<Rightarrow> 'k \<Rightarrow> ('d, 'k, 'x, unit) pact" where
  "connection_made E k =
     act_bind (new_messenger k) (\<lambda>_.
     act_bind (\<lambda>w. add_member (pm_valid_socket E k (pm_os (lb_peer w))) Member_messenger w) (\<lambda>_.
     act_bind (\<lambda>w. flush_cache (length (f_message_cache (lb_peer w))) E w) (\<lambda>_. process_connected E)))"

definition impl_thread_done :: "('d, 'k, 'x) permanent_env \<Rightarrow> ('d, 'k, 'x, unit) pact" where
  "impl_thread_done E =
     act_bind (drop_member Member_signal) (\<lambda>_.
     act_bind (thread_stop E) (\<lambda>_.
     act_bind release_client (\<lambda>client. \<lambda>w.
       if impl_done (lb_peer w) then (Inr (), w)
       else case client of
              None \<Rightarrow> process_connection_failed w
            | Some k \<Rightarrow> connection_made E k w)))"

definition impl_connect :: "('d, 'k, 'x) permanent_env \<Rightarrow> ('d, 'k, 'x, unit) pact" where
  "impl_connect E w =
     (if impl_done (lb_peer w) then (Inr (), w)
      else act_bind (runner_connect E) (\<lambda>_. impl_thread_done E) w)"

definition background_connect :: "('d, 'k, 'x) permanent_env \<Rightarrow> ('d, 'k, 'x, bool) pact" where
  "background_connect E w =
     (if impl_done (lb_peer w) then (Inr False, w)
      else if f_thread (lb_peer w) \<noteq> Thread_idle then (Inr False, w)
      else act_bind (pm_change (\<lambda>p. p\<lparr>f_thread_done := True\<rparr>)) (\<lambda>_.
           act_bind (add_member True Member_signal) (\<lambda>_.
           act_bind (pm_system (pm_thread_start E)) (\<lambda>ok.
             if ok then act_bind (pm_change (\<lambda>p. p\<lparr>f_thread := Thread_connecting\<rparr>)) (\<lambda>_. act_return True)
             else act_return False))) w)"

definition impl_send_message :: "('d, 'k, 'x) permanent_env \<Rightarrow> message \<Rightarrow> bool \<Rightarrow> ('d, 'k, 'x, bool \<times> message) pact" where
  "impl_send_message E msg cache w =
     (if f_messenger (lb_peer w) \<noteq> None then messenger_send E msg w
      else act_bind
             (act_when (cache \<and> \<not> impl_done (lb_peer w)) (pm_change (\<lambda>p. p\<lparr>f_message_cache := f_message_cache p @ [msg]\<rparr>)))
             (\<lambda>_. act_return (False, msg)) w)"

definition impl_mark_done :: "('d, 'k, 'x, unit) pact" where
  "impl_mark_done = pm_change (\<lambda>p. p\<lparr>impl_done := True, f_message_cache := [],
     pm_messenger_done := (f_messenger p \<noteq> None \<or> pm_messenger_done p)\<rparr>)"

definition impl_is_connected :: "('d, 'k, 'x) pstate \<Rightarrow> bool" where
  "impl_is_connected w \<longleftrightarrow> f_messenger (lb_peer w) \<noteq> None"

definition impl_destroy :: "('d, 'k, 'x) permanent_env \<Rightarrow> ('d, 'k, 'x, unit) pact" where
  "impl_destroy E =
     act_bind (thread_stop E) (\<lambda>_. act_bind (drop_member Member_signal) (\<lambda>_. impl_disconnect))"

section \<open>The connection\<close>

text \<open>The constructor, and the new object in the list of the communicator.\<close>

definition new_permanent :: "('d, 'k, 'x) permanent_env \<Rightarrow> string list \<Rightarrow> 'd pause_durations \<Rightarrow> bool \<Rightarrow> 'x
    \<Rightarrow> ('d, 'k, 'x) pstate result" where
  "new_permanent E addresses durations use_thread x =
     (case pm_current_date E x of (now, x') \<Rightarrow>
        res_bind (new_timer now (pd_to_us (pm_pause E) (initial_timer_value (pm_pause E) durations))) (\<lambda>t.
          Inr (new_line_buffer \<lparr>pm_timer = t, f_pause_durations = durations, f_use_thread = use_thread,
            f_addresses = addresses, f_index = 0, f_tcp_connection = None, f_thread = Thread_idle, f_thread_done = False,
            pm_pipe = 0, f_messenger = None, pm_messenger_done = False, f_message_cache = [], impl_done = False,
            pm_members = [Member_self], pm_os = x'\<rparr>)))"

definition permanent_mark_done :: "bool \<Rightarrow> ('d, 'k, 'x, unit) pact" where
  "permanent_mark_done messenger = act_bind (set_timer mark_done) (\<lambda>_. act_when messenger impl_mark_done)"

definition next_pause :: "('d, 'k, 'x) permanent_env \<Rightarrow> ('d, 'k, 'x, unit) pact" where
  "next_pause E w =
     (case get_next_delay (pm_pause E) (f_pause_durations (lb_peer w)) of (delay, ps) \<Rightarrow>
        act_bind (pm_change (\<lambda>p. p\<lparr>f_pause_durations := ps\<rparr>)) (\<lambda>_.
          act_when (pd_positive (pm_pause E) delay)
            (act_bind (pm_system (pm_current_date E)) (\<lambda>now w.
               act_bind (act_lift (set_timeout_delay now (pd_to_us (pm_pause E) delay) (pm_timer (lb_peer w))))
                 (\<lambda>t. pm_change (\<lambda>p. p\<lparr>pm_timer := t\<rparr>)) w))) w)"

definition permanent_process_timeout :: "('d, 'k, 'x) permanent_env \<Rightarrow> ('d, 'k, 'x, unit) pact" where
  "permanent_process_timeout E w =
     (if f_done (pm_timer (lb_peer w)) then (Inr (), w)
      else act_bind (next_pause E) (\<lambda>_ w.
        if f_use_thread (lb_peer w)
        then act_bind (background_connect E) (\<lambda>ok. act_when ok (set_timer (set_enable False))) w
        else impl_connect E w) w)"

definition signal_process_read :: "('d, 'k, 'x) permanent_env \<Rightarrow> ('d, 'k, 'x, unit) pact" where
  "signal_process_read E = act_bind (pm_change (\<lambda>p. p\<lparr>pm_pipe := pm_pipe p - 1\<rparr>)) (\<lambda>_. impl_thread_done E)"

section \<open>The local class\<close>

text \<open>The class over Unix sockets: the messenger queues what it is given, and there is one address.\<close>

definition local_class :: "('d, 'k, 'x) permanent_env \<Rightarrow> ('d, 'k, 'x) permanent_env" where
  "local_class E = E\<lparr>pm_class := Local_permanent\<rparr>"

definition new_local_permanent :: "('d, 'k, 'x) permanent_env \<Rightarrow> string \<Rightarrow> 'd pause_durations \<Rightarrow> bool \<Rightarrow> 'x
    \<Rightarrow> ('d, 'k, 'x) pstate result" where
  "new_local_permanent E address = new_permanent (local_class E) [address]"

definition local_messenger_process_empty_buffer :: "('d, 'k, 'x, unit) pact" where
  "local_messenger_process_empty_buffer = messenger_process_empty_buffer"

definition local_messenger_process_error :: "('d, 'k, 'x, unit) pact" where
  "local_messenger_process_error = messenger_process_error"

definition local_messenger_process_invalid :: "('d, 'k, 'x, unit) pact" where
  "local_messenger_process_invalid = messenger_process_invalid"

definition local_trigger_thread_done :: "('d, 'k, 'x, unit) pact" where
  "local_trigger_thread_done = trigger_thread_done"

definition local_release_client :: "('d, 'k, 'x, 'k option) pact" where
  "local_release_client = release_client"

definition local_impl_disconnect :: "('d, 'k, 'x, unit) pact" where
  "local_impl_disconnect = impl_disconnect"

definition local_impl_mark_done :: "('d, 'k, 'x, unit) pact" where
  "local_impl_mark_done = impl_mark_done"

definition local_process_error :: "('d, 'k, 'x, unit) pact" where
  "local_process_error = permanent_process_error"

definition local_process_hup :: "('d, 'k, 'x, unit) pact" where
  "local_process_hup = permanent_process_hup"

definition local_process_invalid :: "('d, 'k, 'x, unit) pact" where
  "local_process_invalid = permanent_process_invalid"

definition local_connection_removed :: "('d, 'k, 'x, unit) pact" where
  "local_connection_removed = connection_removed"

definition local_process_connection_failed :: "('d, 'k, 'x, unit) pact" where
  "local_process_connection_failed = process_connection_failed"

definition local_messenger_process_hup :: "('d, 'k, 'x) permanent_env \<Rightarrow> ('d, 'k, 'x, unit) pact" where
  "local_messenger_process_hup E = messenger_process_hup (local_class E)"

definition local_runner_connect :: "('d, 'k, 'x) permanent_env \<Rightarrow> ('d, 'k, 'x, unit) pact" where
  "local_runner_connect E = runner_connect (local_class E)"

definition local_thread_step :: "('d, 'k, 'x) permanent_env \<Rightarrow> ('d, 'k, 'x, unit) pact" where
  "local_thread_step E = thread_step (local_class E)"

definition local_impl_destroy :: "('d, 'k, 'x) permanent_env \<Rightarrow> ('d, 'k, 'x, unit) pact" where
  "local_impl_destroy E = impl_destroy (local_class E)"

definition local_impl_connect :: "('d, 'k, 'x) permanent_env \<Rightarrow> ('d, 'k, 'x, unit) pact" where
  "local_impl_connect E = impl_connect (local_class E)"

definition local_background_connect :: "('d, 'k, 'x) permanent_env \<Rightarrow> ('d, 'k, 'x, bool) pact" where
  "local_background_connect E = background_connect (local_class E)"

definition local_impl_thread_done :: "('d, 'k, 'x) permanent_env \<Rightarrow> ('d, 'k, 'x, unit) pact" where
  "local_impl_thread_done E = impl_thread_done (local_class E)"

definition local_impl_send_message :: "('d, 'k, 'x) permanent_env \<Rightarrow> message \<Rightarrow> bool \<Rightarrow> ('d, 'k, 'x, bool \<times> message) pact" where
  "local_impl_send_message E = impl_send_message (local_class E)"

definition local_process_timeout :: "('d, 'k, 'x) permanent_env \<Rightarrow> ('d, 'k, 'x, unit) pact" where
  "local_process_timeout E = permanent_process_timeout (local_class E)"

definition local_process_connected :: "('d, 'k, 'x) permanent_env \<Rightarrow> ('d, 'k, 'x, unit) pact" where
  "local_process_connected E = process_connected (local_class E)"

definition local_signal_process_read :: "('d, 'k, 'x) permanent_env \<Rightarrow> ('d, 'k, 'x, unit) pact" where
  "local_signal_process_read E = signal_process_read (local_class E)"

definition local_mark_done :: "bool \<Rightarrow> ('d, 'k, 'x, unit) pact" where
  "local_mark_done = permanent_mark_done"

definition local_is_connected :: "('d, 'k, 'x) pstate \<Rightarrow> bool" where
  "local_is_connected = impl_is_connected"

end
