(* ===== verification/Buffer_Keeps.thy ===== *)
theory Buffer_Keeps
  imports Message_Connection
begin

text \<open>
  The buffered connections seen from the object that owns one: what the owner relies on is kept.
\<close>

section \<open>Invariants of the owner of a buffered connection\<close>

text \<open>An invariant of the owner that neither the kernel nor the callbacks break is kept by the connection.\<close>

definition peer_system :: "('u \<Rightarrow> bool) \<Rightarrow> 'u buffer_env \<Rightarrow> bool" where
  "peer_system P E \<longleftrightarrow>
     (\<forall>u d. P u \<longrightarrow> P (snd (bf_write E d u))) \<and> (\<forall>u n. P u \<longrightarrow> P (snd (bf_read E n u))) \<and>
     (\<forall>u. P u \<longrightarrow> P (snd (bf_current_date E u))) \<and> (\<forall>u. P u \<longrightarrow> P (bf_close E u))"

lemma keeps_bf_system: "(\<And>u. P u \<Longrightarrow> P (snd (f u))) \<Longrightarrow> keeps (\<lambda>w. P (lb_peer w)) (bf_system f)"
  by (force simp: keeps_def bf_system_def split: prod.splits)

lemma keeps_bf_update: "(\<And>w. P (lb_peer w) \<Longrightarrow> P (lb_peer (g w))) \<Longrightarrow> keeps (\<lambda>w. P (lb_peer w)) (bf_update g)"
  by (simp add: keeps_def bf_update_def)

lemma keeps_here: "(\<And>w. I w \<Longrightarrow> keeps I (m w)) \<Longrightarrow> keeps I (\<lambda>w. m w w)"
  by (simp add: keeps_def)

lemma keeps_buffer_cache: "keeps (\<lambda>w. P (lb_peer w)) (buffer_cache data n)"
  unfolding buffer_cache_def by (intro keeps_bind keeps_bf_update) simp_all

lemma keeps_buffer_write:
  assumes "peer_system P E" and "keeps (\<lambda>w. P (lb_peer w)) (bf_process_empty_buffer E)"
  shows "keeps (\<lambda>w. P (lb_peer w)) (buffer_write valid at_once E data)"
proof -
  let ?I = "\<lambda>w. P (lb_peer w)"
  have sys: "keeps ?I (bf_system (bf_write E data))" using assms(1) by (intro keeps_bf_system) (simp add: peer_system_def)
  have empty: "keeps ?I (act_bind (bf_process_empty_buffer E) (\<lambda>_. act_return r))" for r :: "errno + nat"
    by (intro keeps_bind assms(2)) simp
  have "keeps ?I (act_bind (bf_system (bf_write E data)) (\<lambda>r.
             case r of
               Inl e \<Rightarrow> buffer_cache data (length data)
             | Inr n \<Rightarrow>
                 if n > length data then act_throw Undefined_behaviour
                 else if n = length data then
                   act_bind (bf_process_empty_buffer E) (\<lambda>_. act_return (Inr (length data)))
                 else buffer_cache (drop n data) (length data)))"
    by (intro keeps_bind sys) (auto intro: empty keeps_buffer_cache split: sum.split)
  moreover have "keeps ?I (act_bind (act_when b (bf_process_empty_buffer E)) (\<lambda>_. act_return (Inr 0)))" for b
    by (intro keeps_bind keeps_when assms(2)) simp
  moreover have "keeps ?I (buffer_cache data (length data))" by (rule keeps_buffer_cache)
  ultimately show ?thesis unfolding keeps_def by (auto simp: buffer_write_def)
qed

lemma keeps_chunk_loop:
  assumes "\<And>l. keeps (\<lambda>w. P (lb_peer w)) (bf_process_line E l)"
  shows "keeps (\<lambda>w. P (lb_peer w)) (chunk_loop E buf n)"
  using assms
proof (induction E buf n rule: chunk_loop.induct)
  case (1 E buf n)
  have "keeps (\<lambda>w. P (lb_peer w)) (\<lambda>w. bf_process_line E (lb_line w) w)" by (rule keeps_here) (rule 1)
  with 1 show ?case
    by (subst chunk_loop.simps) (auto simp: Let_def intro!: keeps_bind keeps_bf_update)
qed

lemma keeps_read_lines:
  assumes "peer_system P E" and "\<And>l. keeps (\<lambda>w. P (lb_peer w)) (bf_process_line E l)"
    and "keeps (\<lambda>w. P (lb_peer w)) (bf_process_error E)"
  shows "keeps (\<lambda>w. P (lb_peer w)) (read_lines fuel E n date)"
proof (induction fuel arbitrary: n)
  case (Suc fuel)
  let ?I = "\<lambda>w. P (lb_peer w)"
  have read: "keeps ?I (bf_system (bf_read E k))" and date: "keeps ?I (bf_system (bf_current_date E))" for k
    using assms(1) by (intro keeps_bf_system; simp add: peer_system_def)+
  have next_turn: "keeps ?I (\<lambda>w. if m \<ge> bf_event_limit E (lb_peer w) then (Inr True, w)
        else act_bind (bf_system (bf_current_date E)) (\<lambda>d. if d \<ge> date then act_return True else read_lines fuel E m date) w)" for m
  proof -
    have "keeps ?I (act_bind (bf_system (bf_current_date E)) (\<lambda>d. if d \<ge> date then act_return True else read_lines fuel E m date))"
      by (intro keeps_bind date) (simp add: Suc.IH)
    then show ?thesis by (auto simp: keeps_def)
  qed
  show ?case
    by (auto intro!: keeps_bind read keeps_chunk_loop next_turn assms(2,3) split: sum.split)
qed simp

lemma keeps_buffer_process_read:
  assumes "peer_system P E" and "\<And>l. keeps (\<lambda>w. P (lb_peer w)) (bf_process_line E l)"
    and "keeps (\<lambda>w. P (lb_peer w)) (bf_process_error E)" and "keeps (\<lambda>w. P (lb_peer w)) (bf_next_read E)"
  shows "keeps (\<lambda>w. P (lb_peer w)) (buffer_process_read fuel E)"
proof -
  let ?I = "\<lambda>w. P (lb_peer w)"
  have date: "keeps ?I (bf_system (bf_current_date E))"
    using assms(1) by (intro keeps_bf_system) (simp add: peer_system_def)
  have "keeps ?I (\<lambda>w. act_bind (read_lines fuel E 0 (d + bf_processing_time_limit E (lb_peer w)))
            (\<lambda>ok. act_when ok (bf_next_read E)) w)" for d
    by (rule keeps_here) (intro keeps_bind keeps_when keeps_read_lines assms)
  then have "keeps ?I (act_bind (bf_system (bf_current_date E)) (\<lambda>d w. act_bind (read_lines fuel E 0 (d + bf_processing_time_limit E (lb_peer w)))
            (\<lambda>ok. act_when ok (bf_next_read E)) w))"
    by (intro keeps_bind date)
  with assms(4) show ?thesis by (auto simp: keeps_def buffer_process_read_def)
qed

lemma keeps_buffer_process_write:
  assumes "peer_system P E" and "keeps (\<lambda>w. P (lb_peer w)) (bf_process_empty_buffer E)"
    and "keeps (\<lambda>w. P (lb_peer w)) (bf_process_error E)" and "keeps (\<lambda>w. P (lb_peer w)) (bf_next_write E)"
  shows "keeps (\<lambda>w. P (lb_peer w)) (buffer_process_write E)"
proof -
  let ?I = "\<lambda>w. P (lb_peer w)"
  have sys: "keeps ?I (bf_system (bf_write E d))" for d using assms(1) by (intro keeps_bf_system) (simp add: peer_system_def)
  have clear: "keeps ?I (act_bind (bf_update (\<lambda>w. w\<lparr>lb_output := [], lb_position := 0\<rparr>)) (\<lambda>_. bf_process_empty_buffer E))"
    by (intro keeps_bind keeps_bf_update assms) simp
  have move: "keeps ?I (bf_update (\<lambda>w. w\<lparr>lb_position := lb_position w + n\<rparr>))" for n
    by (intro keeps_bf_update) simp
  have "keeps ?I (\<lambda>w. if lb_position w + n \<ge> length (lb_output w)
      then act_bind (bf_update (\<lambda>w. w\<lparr>lb_output := [], lb_position := 0\<rparr>)) (\<lambda>_. bf_process_empty_buffer E) w
      else bf_update (\<lambda>w. w\<lparr>lb_position := lb_position w + n\<rparr>) w)" for n
    using clear move [of n] by (auto simp: keeps_def)
  then have "keeps ?I (act_bind (bf_system (bf_write E d)) (\<lambda>r.
          case r of
            Inr n \<Rightarrow> act_bind (if n > 0 then
                   (\<lambda>w. if lb_position w + n \<ge> length (lb_output w)
                        then act_bind (bf_update (\<lambda>w. w\<lparr>lb_output := [], lb_position := 0\<rparr>))
                               (\<lambda>_. bf_process_empty_buffer E) w
                        else bf_update (\<lambda>w. w\<lparr>lb_position := lb_position w + n\<rparr>) w)
                 else act_return ()) (\<lambda>_. bf_next_write E)
          | Inl e \<Rightarrow> if would_block e then bf_next_write E else bf_process_error E))" for d
    by (auto intro!: keeps_bind sys assms(3,4) split: sum.split)
  with assms(4) show ?thesis by (auto simp: keeps_def buffer_process_write_def)
qed

lemma keeps_buffer_process_hup:
  assumes "peer_system P E" and "keeps (\<lambda>w. P (lb_peer w)) (bf_next_hup E)"
  shows "keeps (\<lambda>w. P (lb_peer w)) (buffer_process_hup E)"
  unfolding buffer_process_hup_def using assms
  by (intro keeps_bind keeps_bf_update) (simp_all add: peer_system_def)

lemma keeps_stream_send_message:
  "(\<And>d. keeps I (send d)) \<Longrightarrow> keeps I (stream_send_message M send msg)"
  by (auto simp: stream_send_message_def Let_def intro!: keeps_bind split: prod.split sum.split)

lemma keeps_stream_process_line:
  "(\<And>m. keeps I (mc_dispatch M m)) \<Longrightarrow> keeps I (stream_process_line M line)"
  by (auto simp: stream_process_line_def split: prod.split bool.split)

end
