(* ===== verification/Permanent_Correct.thy ===== *)
theory Permanent_Correct
  imports Permanent Buffer_Keeps
begin

text \<open>
  What a permanent connection promises: it never stops trying, and the messages that were kept while the link
  was down are sent, in order, when it is up.
\<close>

section \<open>It never stops trying\<close>

text \<open>What is documented of the arithmetic of pauses.\<close>

definition pause_numbers :: "'d pause_env \<Rightarrow> bool" where
  "pause_numbers D \<longleftrightarrow> pd_to_us D (pd_zero D) = 0 \<and> (\<forall>d. pd_positive D d \<longrightarrow> pd_to_us D d \<ge> 0) \<and>
     (\<forall>d. pd_negative D d \<longrightarrow> pd_positive D (pd_minus D d))"

text \<open>The timer ticks when it is enabled, as long as the connection is not done: it has a delay, or it has a date and a pause for the next tick.\<close>

definition timer_armed :: "'d pause_env \<Rightarrow> ('d, 'k, 'x) permanent \<Rightarrow> bool" where
  "timer_armed D p \<longleftrightarrow> pause_ok (f_pause_durations p) \<and>
     (\<forall>d \<in> set (f_pause (f_pause_durations p)). pd_positive D (pd_fabs D d)) \<and>
     (f_done (pm_timer p) \<or> f_timeout_delay (pm_timer p) \<noteq> -1 \<or>
      f_timeout_date (pm_timer p) \<noteq> -1 \<and> unat (f_pause_pos (f_pause_durations p)) < length (f_pause (f_pause_durations p)))"

text \<open>The thread and the signal that tells of its end; the messenger and its place in the communicator.\<close>

definition thread_ok :: "('d, 'k, 'x) permanent \<Rightarrow> bool" where
  "thread_ok p \<longleftrightarrow> (f_thread p = Thread_idle \<longrightarrow> pm_pipe p = 0) \<and>
     (f_thread p \<noteq> Thread_idle \<longrightarrow> f_use_thread p \<and> Member_signal \<in> set (pm_members p) \<and> f_messenger p = None \<and>
        pm_pipe p = (if f_thread p = Thread_ended then 1 else 0))"

definition messenger_ok :: "('d, 'k, 'x) permanent \<Rightarrow> bool" where
  "messenger_ok p \<longleftrightarrow> distinct (pm_members p) \<and>
     (f_messenger p = None \<longrightarrow> Member_messenger \<notin> set (pm_members p)) \<and>
     (f_messenger p \<noteq> None \<and> \<not> f_done (pm_timer p) \<longrightarrow> Member_messenger \<in> set (pm_members p)) \<and>
     (pm_messenger_done p \<or> impl_done p \<longrightarrow> f_done (pm_timer p))"

text \<open>Something is under way: an attempt in the thread, a link, or a tick to come.\<close>

definition under_way :: "('d, 'k, 'x) permanent \<Rightarrow> bool" where
  "under_way p \<longleftrightarrow> f_thread p \<noteq> Thread_idle \<or> f_messenger p \<noteq> None \<or> f_enabled (pm_timer p)"

definition permanent_ok :: "'d pause_env \<Rightarrow> ('d, 'k, 'x) permanent \<Rightarrow> bool" where
  "permanent_ok D p \<longleftrightarrow> timer_armed D p \<and> thread_ok p \<and> messenger_ok p \<and>
     (f_messenger p \<noteq> None \<and> \<not> f_done (pm_timer p) \<longrightarrow> \<not> f_enabled (pm_timer p)) \<and>
     (Member_self \<in> set (pm_members p) \<and> \<not> f_done (pm_timer p) \<longrightarrow> under_way p)"

lemmas permanent_ok_defs = permanent_ok_def timer_armed_def thread_ok_def messenger_ok_def under_way_def

lemmas permanent_steps = pm_change_def set_timer_def drop_member_def impl_disconnect_def connection_removed_def remove_self_def
  act_when_def act_bind_def act_return_def bf_update_def

abbreviation ok_state :: "('d, 'k, 'x) permanent_env \<Rightarrow> ('d, 'k, 'x) pstate \<Rightarrow> bool" where
  "ok_state E w \<equiv> permanent_ok (pm_pause E) (lb_peer w)"

lemma permanent_ok_ignores [simp]:
  "permanent_ok D (p\<lparr>pm_os := x\<rparr>) = permanent_ok D p"
  "permanent_ok D (p\<lparr>f_tcp_connection := k\<rparr>) = permanent_ok D p"
  "permanent_ok D (p\<lparr>f_index := i\<rparr>) = permanent_ok D p"
  "permanent_ok D (p\<lparr>f_message_cache := ms\<rparr>) = permanent_ok D p"
  by (simp_all add: permanent_ok_defs)

lemma keeps_lost:
  "keeps (ok_state E) (act_bind (drop_member Member_messenger) (\<lambda>_. permanent_process_error))"
  "keeps (ok_state E) (act_bind (drop_member Member_messenger) (\<lambda>_. permanent_process_hup))"
  "keeps (ok_state E) (act_bind (drop_member Member_messenger) (\<lambda>_. permanent_process_invalid))"
  by (auto simp: keeps_def permanent_process_error_def permanent_process_hup_def permanent_process_invalid_def
      permanent_steps permanent_ok_defs set_enable_def)

lemma keeps_empty_buffer: "keeps (ok_state E) messenger_process_empty_buffer"
  by (auto simp: keeps_def messenger_process_empty_buffer_def permanent_process_empty_buffer_def
      permanent_steps permanent_ok_defs)

lemma peer_system_messenger:
  assumes "\<And>p x. P (p\<lparr>pm_os := x\<rparr>) = P p"
  shows "peer_system P (messenger_buffer E)"
  using assms by (auto simp: peer_system_def messenger_buffer_def split: option.split prod.split)

text \<open>The handlers of the program use the connection only through its operations, \<^verbatim>\<open>disconnect()\<close> apart.\<close>

definition dispatch_ok :: "('d, 'k, 'x) permanent_env \<Rightarrow> bool" where
  "dispatch_ok E \<longleftrightarrow> (\<forall>m. keeps (ok_state E) (mc_dispatch (pm_message E) m))"

lemma messenger_buffer_callbacks [simp]:
  "bf_process_empty_buffer (messenger_buffer E) = messenger_process_empty_buffer"
  "bf_process_error (messenger_buffer E) = messenger_process_error"
  "bf_process_line (messenger_buffer E) = stream_process_line (pm_message E)"
  "bf_next_read (messenger_buffer E) = act_return ()"
  "bf_next_write (messenger_buffer E) = act_return ()"
  "bf_next_hup (messenger_buffer E) = drop_member Member_messenger"
  by (simp_all add: messenger_buffer_def)

lemma keeps_messenger_send:
  assumes "\<And>p x. P (p\<lparr>pm_os := x\<rparr>) = P p" and "keeps (\<lambda>w. P (lb_peer w)) messenger_process_empty_buffer"
  shows "keeps (\<lambda>w. P (lb_peer w)) (messenger_send E m)"
  unfolding messenger_send_def tcp_server_client_send_message_def local_client_send_message_def
    tcp_server_client_write_def local_client_write_def
  using peer_system_messenger [OF assms(1)] assms(2)
  by (auto intro!: keeps_stream_send_message keeps_buffer_write split: permanent_class.split)

lemma keeps_messenger_io:
  assumes "dispatch_ok E"
  shows "keeps (ok_state E) (messenger_process_read fuel E)" and "keeps (ok_state E) (messenger_process_write E)"
    and "keeps (ok_state E) (messenger_process_error)" and "keeps (ok_state E) (messenger_process_invalid)"
  unfolding messenger_process_read_def messenger_process_write_def messenger_process_error_def messenger_process_invalid_def
  using assms keeps_lost keeps_empty_buffer peer_system_messenger [of "permanent_ok (pm_pause E)"]
  by (auto simp: dispatch_ok_def messenger_process_error_def
      intro!: keeps_buffer_process_read keeps_buffer_process_write keeps_stream_process_line)

lemma keeps_messenger_hup: "keeps (ok_state E) (messenger_process_hup E)"
proof (rule keepsI)
  fix w :: "('a, 'b, 'c) pstate"
  assume w: "ok_state E w"
  let ?w = "w\<lparr>lb_peer := bf_close (messenger_buffer E) (lb_peer w)\<rparr>"
  have "ok_state E ?w" using w by (simp add: messenger_buffer_def split: option.split)
  moreover have "messenger_process_hup E w = act_bind (drop_member Member_messenger) (\<lambda>_. permanent_process_hup) ?w"
    by (simp add: messenger_process_hup_def buffer_process_hup_def act_bind_assoc) (simp add: act_bind_def bf_update_def)
  ultimately show "ok_state E (snd (messenger_process_hup E w))"
    using keeps_lost(2) [of E, unfolded keeps_def, rule_format, of ?w] by simp
qed

section \<open>Connecting\<close>

text \<open>While the cache is emptied the messenger is there, unless the object is done.\<close>

definition linked :: "'d pause_env \<Rightarrow> ('d, 'k, 'x) permanent \<Rightarrow> bool" where
  "linked D p \<longleftrightarrow> timer_armed D p \<and> f_thread p = Thread_idle \<and> pm_pipe p = 0 \<and> messenger_ok p \<and>
     (\<not> f_done (pm_timer p) \<longrightarrow> f_messenger p \<noteq> None)"

lemmas linked_defs = linked_def timer_armed_def messenger_ok_def

lemma linked_os [simp]: "linked D (p\<lparr>pm_os := x\<rparr>) = linked D p"
  by (simp add: linked_defs)

lemma linked_cache [simp]: "linked D (p\<lparr>f_message_cache := ms\<rparr>) = linked D p"
  by (simp add: linked_defs)

lemma keeps_linked_send: "keeps (\<lambda>w. linked (pm_pause E) (lb_peer w)) (messenger_send E m)"
  by (rule keeps_messenger_send) (auto simp: keeps_def messenger_process_empty_buffer_def permanent_process_empty_buffer_def
      permanent_steps linked_defs)

lemma keeps_linked_flush: "keeps (\<lambda>w. linked (pm_pause E) (lb_peer w)) (flush_cache n E)"
proof (induction n)
  case (Suc n)
  let ?I = "\<lambda>w. linked (pm_pause E) (lb_peer w)"
  have "keeps ?I (act_bind (pm_change (\<lambda>p. p\<lparr>f_message_cache := ms\<rparr>)) (\<lambda>_. flush_cache n E))" for ms
    unfolding pm_change_def by (intro keeps_bind keeps_bf_update Suc.IH) simp
  then have "keeps ?I (\<lambda>w. case f_message_cache (lb_peer w) of [] \<Rightarrow> (Inl Undefined_behaviour, w)
                        | _ # ms \<Rightarrow> act_bind (pm_change (\<lambda>p. p\<lparr>f_message_cache := ms\<rparr>)) (\<lambda>_. flush_cache n E) w)"
    by (simp add: keeps_def split: list.split)
  then have "keeps ?I (act_bind (messenger_send E m) (\<lambda>_ w. case f_message_cache (lb_peer w) of [] \<Rightarrow> (Inl Undefined_behaviour, w)
                        | _ # ms \<Rightarrow> act_bind (pm_change (\<lambda>p. p\<lparr>f_message_cache := ms\<rparr>)) (\<lambda>_. flush_cache n E) w))" for m
    by (intro keeps_bind keeps_linked_send)
  then show ?case by (simp add: keeps_def split: list.split)
qed (simp add: keeps_def)

lemma linked_connected:
  assumes "linked (pm_pause E) (lb_peer w)" and "process_connected E w = (Inr (), w')"
  shows "ok_state E w'"
proof -
  let ?p = "lb_peer w"
  have w': "lb_peer w' = ?p\<lparr>f_pause_durations := pause_restart (pm_pause E) (f_pause_durations ?p), pm_timer := set_enable False (pm_timer ?p)\<rparr>"
    using assms(2) by (auto simp: process_connected_def permanent_steps)
  have "timer_armed (pm_pause E) (lb_peer w')"
    using assms(1) pause_restart_again pause_restart_pos unfolding w'
    by (auto simp: linked_def timer_armed_def set_enable_def)
  then show ?thesis using assms(1) unfolding w'
    by (auto simp: linked_def permanent_ok_def thread_ok_def messenger_ok_def under_way_def set_enable_def)
qed

lemma flushed_connected:
  assumes "linked (pm_pause E) (lb_peer w)"
    and "act_bind (\<lambda>w. flush_cache (n w) E w) (\<lambda>_. process_connected E) w = (Inr (), w')"
  shows "ok_state E w'"
proof -
  obtain w1 where w1: "flush_cache (n w) E w = (Inr (), w1)" and w': "process_connected E w1 = (Inr (), w')"
    using act_bind_Inr [OF assms(2)] by auto
  have "linked (pm_pause E) (lb_peer w1)"
    using keepsD [OF keeps_linked_flush [of E "n w"], of w] assms(1) w1 by simp
  then show ?thesis using w' by (rule linked_connected)
qed

lemma thread_stop_joined:
  "f_thread (lb_peer w) \<in> {Thread_idle, Thread_ended} \<Longrightarrow>
     thread_stop E w = (Inr (), w\<lparr>lb_peer := (lb_peer w)\<lparr>f_thread := Thread_idle\<rparr>\<rparr>)"
  by (auto simp: thread_stop_def thread_step_def permanent_steps)

definition joinable :: "'d pause_env \<Rightarrow> ('d, 'k, 'x) permanent \<Rightarrow> bool" where
  "joinable D p \<longleftrightarrow> timer_armed D p \<and> messenger_ok p \<and> f_thread p \<in> {Thread_idle, Thread_ended} \<and> pm_pipe p = 0 \<and>
     f_messenger p = None"

lemma bind_update: "act_bind (bf_update g) f w = f () (g w)"
  by (simp add: act_bind_def bf_update_def)

lemma connection_made_ok:
  assumes "joinable (pm_pause E) (lb_peer w)" "f_thread (lb_peer w) = Thread_idle" "\<not> impl_done (lb_peer w)"
    and "connection_made E k w = (Inr (), w')"
  shows "ok_state E w'"
proof -
  let ?p = "(lb_peer w)\<lparr>f_messenger := Some k, pm_messenger_done := False\<rparr>"
  obtain w2 where w2: "add_member (pm_valid_socket E k (pm_os ?p)) Member_messenger
        (w\<lparr>lb_line := [], lb_output := [], lb_position := 0, lb_peer := ?p\<rparr>) = (Inr (), w2)"
      and rest: "act_bind (\<lambda>w. flush_cache (length (f_message_cache (lb_peer w))) E w) (\<lambda>_. process_connected E) w2 = (Inr (), w')"
    using act_bind_Inr [OF assms(4) [unfolded connection_made_def new_messenger_def bind_update]] by auto
  have "linked (pm_pause E) (lb_peer w2)"
    using w2 assms(1-3) by (auto simp: add_member_def permanent_steps joinable_def linked_defs split: if_splits)
  then show ?thesis using rest by (rule flushed_connected)
qed

text \<open>\<^verbatim>\<open>thread_done()\<close> when there is no thread to wait for.\<close>

definition joined :: "('d, 'k, 'x) pstate \<Rightarrow> ('d, 'k, 'x) pstate" where
  "joined w = w\<lparr>lb_peer := (lb_peer w)\<lparr>pm_members := remove1 Member_signal (pm_members (lb_peer w)), f_thread := Thread_idle,
     f_tcp_connection := None\<rparr>\<rparr>"

lemma impl_thread_done_eq:
  assumes "f_thread (lb_peer w) \<in> {Thread_idle, Thread_ended}"
  shows "impl_thread_done E w =
    (if impl_done (lb_peer w) then (Inr (), joined w)
     else case f_tcp_connection (lb_peer w) of None \<Rightarrow> process_connection_failed (joined w) | Some k \<Rightarrow> connection_made E k (joined w))"
proof -
  let ?w = "w\<lparr>lb_peer := (lb_peer w)\<lparr>pm_members := remove1 Member_signal (pm_members (lb_peer w))\<rparr>\<rparr>"
  have "thread_stop E ?w = (Inr (), ?w\<lparr>lb_peer := (lb_peer ?w)\<lparr>f_thread := Thread_idle\<rparr>\<rparr>)"
    using assms by (intro thread_stop_joined) simp
  then have "impl_thread_done E w = act_bind release_client (\<lambda>client. \<lambda>w.
       if impl_done (lb_peer w) then (Inr (), w)
       else case client of None \<Rightarrow> process_connection_failed w | Some k \<Rightarrow> connection_made E k w)
       (?w\<lparr>lb_peer := (lb_peer ?w)\<lparr>f_thread := Thread_idle\<rparr>\<rparr>)"
    by (simp add: impl_thread_done_def drop_member_def pm_change_def bind_update) (simp add: act_bind_def)
  then show ?thesis by (simp add: act_bind_def release_client_def joined_def cong: option.case_cong)
qed

lemma thread_done_ok:
  assumes j: "joinable (pm_pause E) (lb_peer w)" and run: "impl_thread_done E w = (Inr (), w')"
  shows "ok_state E w'"
proof -
  have run': "(if impl_done (lb_peer w) then (Inr (), joined w)
     else case f_tcp_connection (lb_peer w) of None \<Rightarrow> process_connection_failed (joined w) | Some k \<Rightarrow> connection_made E k (joined w))
     = (Inr (), w')"
    using run j by (simp add: impl_thread_done_eq joinable_def)
  have j': "joinable (pm_pause E) (lb_peer (joined w))"
    using j by (auto simp: joinable_def timer_armed_def messenger_ok_def joined_def)
  have same: "impl_done (lb_peer (joined w)) = impl_done (lb_peer w)" "f_thread (lb_peer (joined w)) = Thread_idle"
    by (simp_all add: joined_def)
  show ?thesis
  proof (cases "impl_done (lb_peer w)")
    case True
    then have "w' = joined w" using run' by simp
    then show ?thesis using j' True same by (simp add: joinable_def permanent_ok_def thread_ok_def messenger_ok_def)
  next
    case False
    show ?thesis
    proof (cases "f_tcp_connection (lb_peer w)")
      case None
      then have w': "lb_peer w' = (lb_peer (joined w))\<lparr>pm_timer := set_enable True (pm_timer (lb_peer (joined w)))\<rparr>"
        using False run' by (auto simp: process_connection_failed_def set_timer_def pm_change_def bf_update_def)
      show ?thesis unfolding w' using j' same
        by (simp add: joinable_def permanent_ok_def thread_ok_def messenger_ok_def timer_armed_def under_way_def set_enable_def)
    next
      case (Some k)
      with False run' have "connection_made E k (joined w) = (Inr (), w')" by simp
      then show ?thesis using connection_made_ok [OF j' same(2)] False same(1) by blast
    qed
  qed
qed

section \<open>The life of a connection\<close>

text \<open>What can happen: the timer ticks, the thread makes a step, the event loop finds the signal or the
  messenger ready, the program sends a message or marks the connection as done. \<open>Tick\<close> has the two dates
  \<^verbatim>\<open>run()\<close> reads before it calls \<^verbatim>\<open>process_timeout()\<close>.\<close>

datatype permanent_event =
    Tick int int | Thread_runs | Signal_ready
  | Messenger_readable nat | Messenger_writable | Messenger_error | Messenger_hup | Messenger_invalid
  | Send_message message bool | Done bool

definition can_happen :: "permanent_event \<Rightarrow> ('d, 'k, 'x) pstate \<Rightarrow> bool" where
  "can_happen ev w \<longleftrightarrow>
     (let p = lb_peer w in
      case ev of
        Tick now later \<Rightarrow> Member_self \<in> set (pm_members p) \<and> f_enabled (pm_timer p)
      | Thread_runs \<Rightarrow> f_thread p = Thread_connecting \<or> f_thread p = Thread_connected
      | Signal_ready \<Rightarrow> Member_signal \<in> set (pm_members p) \<and> pm_pipe p > 0
      | Messenger_writable \<Rightarrow> Member_messenger \<in> set (pm_members p) \<and> bf_has_output w
      | Send_message m cache \<Rightarrow> True
      | Done messenger \<Rightarrow> True
      | _ \<Rightarrow> Member_messenger \<in> set (pm_members p))"

definition tick :: "('d, 'k, 'x) permanent_env \<Rightarrow> int \<Rightarrow> int \<Rightarrow> ('d, 'k, 'x, unit) pact" where
  "tick E now later w =
     act_bind (act_lift (move_timeout now later (pm_timer (lb_peer w))))
       (\<lambda>t. act_bind (pm_change (\<lambda>p. p\<lparr>pm_timer := t\<rparr>)) (\<lambda>_. permanent_process_timeout E)) w"

definition event_action :: "('d, 'k, 'x) permanent_env \<Rightarrow> permanent_event \<Rightarrow> ('d, 'k, 'x, unit) pact" where
  "event_action E ev =
     (case ev of
        Tick now later \<Rightarrow> tick E now later
      | Thread_runs \<Rightarrow> thread_step E
      | Signal_ready \<Rightarrow> signal_process_read E
      | Messenger_readable fuel \<Rightarrow> messenger_process_read fuel E
      | Messenger_writable \<Rightarrow> messenger_process_write E
      | Messenger_error \<Rightarrow> messenger_process_error
      | Messenger_hup \<Rightarrow> messenger_process_hup E
      | Messenger_invalid \<Rightarrow> messenger_process_invalid
      | Send_message m cache \<Rightarrow> act_bind (impl_send_message E m cache) (\<lambda>_. act_return ())
      | Done messenger \<Rightarrow> permanent_mark_done messenger)"

text \<open>The lives in which nothing throws.\<close>

inductive life :: "('d, 'k, 'x) permanent_env \<Rightarrow> ('d, 'k, 'x) pstate \<Rightarrow> ('d, 'k, 'x) pstate \<Rightarrow> bool"
  for E :: "('d, 'k, 'x) permanent_env" where
  life_start: "life E w w"
| life_step: "life E w w1 \<Longrightarrow> can_happen ev w1 \<Longrightarrow> event_action E ev w1 = (Inr (), w2) \<Longrightarrow> life E w w2"

lemma runner_connect_same:
  assumes "runner_connect E w = (Inr (), w')"
  obtains k i x where "lb_peer w' = (lb_peer w)\<lparr>f_tcp_connection := k, f_index := i, pm_os := x\<rparr>"
proof -
  obtain r x where r: "pm_connect E (f_addresses (lb_peer w) ! f_index (lb_peer w)) (pm_os (lb_peer w)) = (r, x)"
    by (cases "pm_connect E (f_addresses (lb_peer w) ! f_index (lb_peer w)) (pm_os (lb_peer w))")
  have "\<exists>k i. lb_peer w' = (lb_peer w)\<lparr>f_tcp_connection := k, f_index := i, pm_os := x\<rparr>"
  proof (cases r)
    case None
    then have "lb_peer w' = (lb_peer w)\<lparr>f_tcp_connection := None, f_index := (if f_index (lb_peer w) + 1 \<ge> length (f_addresses (lb_peer w))
        then 0 else f_index (lb_peer w) + 1), pm_os := x\<rparr>"
      using assms r by (auto simp: runner_connect_def Let_def act_bind_def pm_system_def bf_system_def pm_change_def bf_update_def split: if_splits)
    then show ?thesis by blast
  next
    case (Some k)
    then have "lb_peer w' = (lb_peer w)\<lparr>f_tcp_connection := Some k, f_index := f_index (lb_peer w), pm_os := x\<rparr>"
      using assms r by (auto simp: runner_connect_def Let_def act_bind_def pm_system_def bf_system_def pm_change_def bf_update_def split: if_splits)
    then show ?thesis by blast
  qed
  then show ?thesis using that by blast
qed

lemma thread_step_ok:
  assumes "ok_state E w" and run: "thread_step E w = (Inr (), w')"
  shows "ok_state E w'"
proof (cases "f_thread (lb_peer w)")
  case Thread_connecting
  then obtain w1 where w1: "runner_connect E w = (Inr (), w1)" and "pm_change (\<lambda>p. p\<lparr>f_thread := Thread_connected\<rparr>) w1 = (Inr (), w')"
    using run by (auto simp: thread_step_def dest!: act_bind_Inr)
  moreover obtain k i x where "lb_peer w1 = (lb_peer w)\<lparr>f_tcp_connection := k, f_index := i, pm_os := x\<rparr>"
    using w1 by (rule runner_connect_same)
  ultimately have "lb_peer w' = (lb_peer w)\<lparr>f_thread := Thread_connected, f_tcp_connection := k, f_index := i, pm_os := x\<rparr>"
    by (auto simp: pm_change_def bf_update_def)
  then show ?thesis using assms(1) Thread_connecting
    by (simp add: permanent_ok_def timer_armed_def thread_ok_def messenger_ok_def under_way_def)
next
  case Thread_connected
  then have "lb_peer w' = (lb_peer w)\<lparr>pm_pipe := pm_pipe (lb_peer w) + 1, f_thread := Thread_ended\<rparr>"
    using run by (auto simp: thread_step_def trigger_thread_done_def act_bind_def pm_change_def bf_update_def)
  then show ?thesis using assms(1) Thread_connected
    by (simp add: permanent_ok_def timer_armed_def thread_ok_def messenger_ok_def under_way_def)
qed (use assms in \<open>simp_all add: thread_step_def\<close>)

lemma signal_ok:
  assumes "ok_state E w" and "pm_pipe (lb_peer w) > 0" and "signal_process_read E w = (Inr (), w')"
  shows "ok_state E w'"
proof (rule thread_done_ok)
  let ?w = "w\<lparr>lb_peer := (lb_peer w)\<lparr>pm_pipe := pm_pipe (lb_peer w) - 1\<rparr>\<rparr>"
  show "impl_thread_done E ?w = (Inr (), w')" using assms(3) by (simp add: signal_process_read_def pm_change_def bind_update)
  show "joinable (pm_pause E) (lb_peer ?w)"
    using assms(1,2) by (auto simp: joinable_def permanent_ok_defs split: if_splits)
qed

lemma send_ok: "ok_state E w \<Longrightarrow> ok_state E (snd (impl_send_message E m cache w))"
  using keepsD [OF keeps_messenger_send [of "permanent_ok (pm_pause E)", OF permanent_ok_ignores(1) keeps_empty_buffer], of w E m]
  by (simp add: impl_send_message_def act_when_def act_bind_def act_return_def pm_change_def bf_update_def)

lemma mark_done_ok: "ok_state E w \<Longrightarrow> ok_state E (snd (permanent_mark_done b w))"
  by (simp add: permanent_mark_done_def impl_mark_done_def set_timer_def act_when_def act_bind_def act_return_def pm_change_def
      bf_update_def permanent_ok_def timer_armed_def thread_ok_def messenger_ok_def mark_done_def)

text \<open>After a tick the timer has a delay.\<close>

lemma move_timeout_delay:
  "move_timeout now later c = Inr t \<Longrightarrow> f_timeout_delay t = f_timeout_delay c \<and> f_enabled t = f_enabled c \<and> f_done t = f_done c"
  by (auto simp: move_timeout_def calculate_next_tick_def set_timeout_date_def res_bind_eq_Inr Let_def split: if_splits)

definition ticking :: "'d pause_env \<Rightarrow> ('d, 'k, 'x) permanent \<Rightarrow> bool" where
  "ticking D p \<longleftrightarrow> pause_ok (f_pause_durations p) \<and>
     (\<forall>d \<in> set (f_pause (f_pause_durations p)). pd_positive D (pd_fabs D d)) \<and>
     (f_timeout_delay (pm_timer p) \<noteq> -1 \<or> unat (f_pause_pos (f_pause_durations p)) < length (f_pause (f_pause_durations p)))"

text \<open>What does not change when the next pause is set.\<close>

definition frame :: "('d, 'k, 'x) permanent \<Rightarrow> bool \<times> thread_state \<times> nat \<times> 'k option \<times> bool \<times> bool \<times> member list \<times> bool \<times> bool" where
  "frame p = (f_use_thread p, f_thread p, pm_pipe p, f_messenger p, pm_messenger_done p, impl_done p, pm_members p,
     f_enabled (pm_timer p), f_done (pm_timer p))"

lemma next_pause_armed:
  assumes D: "pause_numbers (pm_pause E)" and t: "ticking (pm_pause E) (lb_peer w)" and run: "next_pause E w = (Inr (), w')"
  shows "timer_armed (pm_pause E) (lb_peer w') \<and>
    frame (lb_peer w') = frame (lb_peer w)"
proof -
  let ?D = "pm_pause E" and ?p = "lb_peer w"
  let ?pd = "f_pause_durations ?p"
  have ok: "pause_ok (snd (get_next_delay ?D ?pd))" using t by (intro get_next_delay_ok) (simp add: ticking_def)
  show ?thesis
  proof (cases "pd_positive ?D (fst (get_next_delay ?D ?pd))")
    case True
    then have us: "pd_to_us ?D (fst (get_next_delay ?D ?pd)) \<noteq> -1" using D by (auto simp: pause_numbers_def)
    show ?thesis using run True us ok t
      by (auto simp: next_pause_def permanent_steps pm_system_def bf_system_def act_lift_def set_timeout_delay_def res_bind_eq_Inr
          timer_armed_def ticking_def get_next_delay_def frame_def split: prod.splits sum.splits if_splits)
  next
    case False
    then have "\<not> unat (f_pause_pos ?pd) < length (f_pause ?pd)" using t by (auto simp: ticking_def get_next_delay_def)
    then show ?thesis using run False ok t
      by (auto simp: next_pause_def permanent_steps timer_armed_def ticking_def get_next_delay_def frame_def split: prod.splits)
  qed
qed

lemma background_connect_ok:
  assumes w: "timer_armed D (lb_peer w)" "thread_ok (lb_peer w)" "messenger_ok (lb_peer w)" "f_messenger (lb_peer w) = None"
    "f_enabled (pm_timer (lb_peer w))"
    and thr: "f_use_thread (lb_peer w)"
    and run: "act_bind (background_connect E) (\<lambda>ok. act_when ok (set_timer (set_enable False))) w = (Inr (), w')"
  shows "permanent_ok D (lb_peer w')"
proof (cases "impl_done (lb_peer w) \<or> f_thread (lb_peer w) \<noteq> Thread_idle")
  case True
  then have "background_connect E w = (Inr False, w)" by (auto simp: background_connect_def)
  then have "w' = w" using run by (simp add: act_bind_def act_when_def act_return_def)
  then show ?thesis using w by (simp add: permanent_ok_def under_way_def)
next
  case False
  let ?p = "(lb_peer w)\<lparr>f_thread_done := True, pm_members := (if Member_signal \<in> set (pm_members (lb_peer w))
      then pm_members (lb_peer w) else pm_members (lb_peer w) @ [Member_signal]), pm_os := snd (pm_thread_start E (pm_os (lb_peer w)))\<rparr>"
  have "lb_peer w' = (if fst (pm_thread_start E (pm_os (lb_peer w)))
      then ?p\<lparr>f_thread := Thread_connecting, pm_timer := set_enable False (pm_timer ?p)\<rparr> else ?p)"
    using run False
    by (auto simp: background_connect_def act_bind_def act_when_def act_return_def add_member_def set_timer_def pm_change_def bf_update_def
        pm_system_def bf_system_def split: prod.splits if_splits)
  moreover have "timer_armed D ?p" "messenger_ok ?p" using w by (auto simp: timer_armed_def messenger_ok_def)
  ultimately show ?thesis using w thr False
    by (auto simp: permanent_ok_def thread_ok_def under_way_def timer_armed_def messenger_ok_def set_enable_def split: if_splits)
qed

lemma direct_connect_ok:
  assumes "timer_armed (pm_pause E) (lb_peer w)" "messenger_ok (lb_peer w)" "f_messenger (lb_peer w) = None"
    "f_thread (lb_peer w) = Thread_idle" "pm_pipe (lb_peer w) = 0" "\<not> f_done (pm_timer (lb_peer w))"
    and run: "impl_connect E w = (Inr (), w')"
  shows "ok_state E w'"
proof -
  have "\<not> impl_done (lb_peer w)" using assms by (auto simp: messenger_ok_def)
  then obtain w1 where w1: "runner_connect E w = (Inr (), w1)" and joined: "impl_thread_done E w1 = (Inr (), w')"
    using run by (auto simp: impl_connect_def dest!: act_bind_Inr)
  obtain k i x where "lb_peer w1 = (lb_peer w)\<lparr>f_tcp_connection := k, f_index := i, pm_os := x\<rparr>"
    using w1 by (rule runner_connect_same)
  then have "joinable (pm_pause E) (lb_peer w1)"
    using assms by (simp add: joinable_def timer_armed_def messenger_ok_def)
  then show ?thesis using joined by (rule thread_done_ok)
qed

lemma tick_ok:
  assumes D: "pause_numbers (pm_pause E)" and w: "ok_state E w" and ev: "can_happen (Tick now later) w"
    and run: "tick E now later w = (Inr (), w')"
  shows "ok_state E w'"
proof -
  obtain t where t: "move_timeout now later (pm_timer (lb_peer w)) = Inr t"
      and pt: "permanent_process_timeout E (w\<lparr>lb_peer := (lb_peer w)\<lparr>pm_timer := t\<rparr>\<rparr>) = (Inr (), w')"
    using run by (auto simp: tick_def act_bind_def act_lift_def pm_change_def bf_update_def split: sum.splits)
  note same = move_timeout_delay [OF t]
  let ?w = "w\<lparr>lb_peer := (lb_peer w)\<lparr>pm_timer := t\<rparr>\<rparr>"
  have en: "f_enabled (pm_timer (lb_peer w))" using ev by (simp add: can_happen_def Let_def)
  have th: "thread_ok (lb_peer ?w)" and ms: "messenger_ok (lb_peer ?w)"
    using w same by (auto simp: permanent_ok_defs)
  show ?thesis
  proof (cases "f_done t")
    case True
    then have "w' = ?w" using pt by (simp add: permanent_process_timeout_def)
    moreover have "timer_armed (pm_pause E) (lb_peer ?w)" using w True by (simp add: permanent_ok_def timer_armed_def)
    ultimately show ?thesis using True th ms by (simp add: permanent_ok_def)
  next
    case False
    then have no: "f_messenger (lb_peer w) = None" and tk: "ticking (pm_pause E) (lb_peer ?w)"
      using w en same by (auto simp: permanent_ok_def timer_armed_def ticking_def)
    obtain w1 where w1: "next_pause E ?w = (Inr (), w1)" and rest: "(if f_use_thread (lb_peer w1)
        then act_bind (background_connect E) (\<lambda>ok. act_when ok (set_timer (set_enable False))) w1
        else impl_connect E w1) = (Inr (), w')"
      using pt False by (auto simp: permanent_process_timeout_def dest!: act_bind_Inr)
    have armed: "timer_armed (pm_pause E) (lb_peer w1)" and fr: "frame (lb_peer w1) = frame (lb_peer ?w)"
      using next_pause_armed [OF D tk w1] by auto
    show ?thesis
    proof (cases "f_use_thread (lb_peer w1)")
      case True
      show ?thesis
      proof (rule background_connect_ok [OF armed, where E = E])
        show "thread_ok (lb_peer w1)" "messenger_ok (lb_peer w1)" "f_messenger (lb_peer w1) = None" "f_enabled (pm_timer (lb_peer w1))"
          using fr th ms no en same by (simp_all add: frame_def thread_ok_def messenger_ok_def)
      qed (use rest True in simp_all)
    next
      case direct: False
      show ?thesis
      proof (rule direct_connect_ok [OF armed])
        show "messenger_ok (lb_peer w1)" "f_messenger (lb_peer w1) = None" "\<not> f_done (pm_timer (lb_peer w1))"
          using fr ms no same False by (simp_all add: frame_def messenger_ok_def)
        show "f_thread (lb_peer w1) = Thread_idle" "pm_pipe (lb_peer w1) = 0"
          using fr th direct by (auto simp: frame_def thread_ok_def)
      qed (use rest direct in simp_all)
    qed
  qed
qed

lemma new_permanent_ok:
  assumes D: "pause_numbers (pm_pause E)" and clock: "fst (pm_current_date E x) \<ge> 0"
    and ps: "pause_ok ps" "\<forall>d \<in> set (f_pause ps). pd_positive (pm_pause E) (pd_fabs (pm_pause E) d)" "pause_restart (pm_pause E) ps = ps"
    and new: "new_permanent E addresses ps thr x = Inr w"
  shows "ok_state E w"
proof -
  let ?us = "pd_to_us (pm_pause E) (initial_timer_value (pm_pause E) ps)"
  obtain now x' where x': "pm_current_date E x = (now, x')" by (cases "pm_current_date E x")
  obtain t where t: "new_timer now ?us = Inr t" and w: "lb_peer w = \<lparr>pm_timer = t, f_pause_durations = ps, f_use_thread = thr,
            f_addresses = addresses, f_index = 0, f_tcp_connection = None, f_thread = Thread_idle, f_thread_done = False,
            pm_pipe = 0, f_messenger = None, pm_messenger_done = False, f_message_cache = [], impl_done = False,
            pm_members = [Member_self], pm_os = x'\<rparr>"
    using new x' by (auto simp: new_permanent_def res_bind_eq_Inr new_line_buffer_def)
  have us: "?us \<ge> 0" using D by (auto simp: initial_timer_value_def pause_numbers_def)
  have pos: "unat (f_pause_pos ps) < length (f_pause ps)" using pause_restart_pos [OF ps(1), of "pm_pause E"] ps(3) by simp
  have "f_timeout_delay t \<noteq> -1 \<or> f_timeout_date t \<noteq> -1" "f_enabled t"
    using t us clock x' by (auto simp: new_timer_def set_timeout_delay_def set_timeout_date_def res_bind_eq_Inr new_connection_def split: if_splits)
  then show ?thesis using ps pos by (simp add: w permanent_ok_defs)
qed

lemma event_ok:
  assumes "pause_numbers (pm_pause E)" "dispatch_ok E" "ok_state E w" "can_happen ev w" "event_action E ev w = (Inr (), w')"
  shows "ok_state E w'"
proof (cases ev)
  case (Tick now later)
  then show ?thesis using assms tick_ok by (auto simp: event_action_def)
next
  case Signal_ready
  then show ?thesis using assms signal_ok by (auto simp: event_action_def can_happen_def Let_def)
next
  case Thread_runs
  then show ?thesis using assms thread_step_ok by (auto simp: event_action_def)
next
  case (Send_message m cache)
  then obtain r where "impl_send_message E m cache w = (Inr r, w')" using assms(5)
    by (auto simp: event_action_def act_return_def dest!: act_bind_Inr)
  then show ?thesis using send_ok [OF assms(3), of m cache] by simp
next
  case (Done b)
  then show ?thesis using mark_done_ok [OF assms(3), of b] assms(5) by (simp add: event_action_def)
next
  case (Messenger_readable fuel)
  then show ?thesis using keepsD [OF keeps_messenger_io(1) [OF assms(2)], of w fuel] assms(3,5) by (simp add: event_action_def)
next
  case Messenger_writable
  then show ?thesis using keepsD [OF keeps_messenger_io(2) [OF assms(2)], of w] assms(3,5) by (simp add: event_action_def)
next
  case Messenger_error
  then show ?thesis using keepsD [OF keeps_messenger_io(3) [OF assms(2)], of w] assms(3,5) by (simp add: event_action_def)
next
  case Messenger_hup
  then show ?thesis using keepsD [OF keeps_messenger_hup, of E w] assms(3,5) by (simp add: event_action_def)
next
  case Messenger_invalid
  then show ?thesis using keepsD [OF keeps_messenger_io(4) [OF assms(2)], of w] assms(3,5) by (simp add: event_action_def)
qed

lemma life_ok:
  assumes "pause_numbers (pm_pause E)" "dispatch_ok E"
  shows "life E w w' \<Longrightarrow> ok_state E w \<Longrightarrow> ok_state E w'"
  by (induction rule: life.induct) (auto intro: event_ok [OF assms])

text \<open>
  C10 (liveness): a permanent connection never stops trying. Take any life of the object in which nothing throws: ticks,
  steps of the background thread at any moment, the signal of its end, reads and writes of the messenger, its errors,
  hang ups and invalid sockets, messages sent and \<^verbatim>\<open>mark_done()\<close> calls, in any order. As long as the object is in the
  communicator and is not marked done, either the link is up and its messenger is polled, and then no tick can start a
  second one; or the thread can go on; or its signal is waiting to be read; or the timer is enabled and has a date or a
  delay. The pauses are positive, as read from the constructor, and the handlers of the program do not call
  \<^verbatim>\<open>disconnect()\<close> themselves.\<close>

theorem never_gives_up:
  assumes D: "pause_numbers (pm_pause E)" "fst (pm_current_date E x) \<ge> 0" and dispatch: "dispatch_ok E"
    and ps: "pause_ok ps" "\<forall>d \<in> set (f_pause ps). pd_positive (pm_pause E) (pd_fabs (pm_pause E) d)" "pause_restart (pm_pause E) ps = ps"
    and new: "new_permanent E addresses ps thr x = Inr w0" and life: "life E w0 w"
    and here: "Member_self \<in> set (pm_members (lb_peer w))" "\<not> f_done (pm_timer (lb_peer w))"
  shows "impl_is_connected w \<and> Member_messenger \<in> set (pm_members (lb_peer w)) \<and> \<not> f_enabled (pm_timer (lb_peer w))
    \<or> can_happen Thread_runs w \<or> can_happen Signal_ready w
    \<or> f_enabled (pm_timer (lb_peer w)) \<and> (f_timeout_delay (pm_timer (lb_peer w)) \<noteq> -1 \<or> f_timeout_date (pm_timer (lb_peer w)) \<noteq> -1)"
proof -
  have "ok_state E w" using life_ok [OF D(1) dispatch life] new_permanent_ok [OF D ps new] by blast
  then show ?thesis using here
    by (cases "f_thread (lb_peer w)") (auto simp: permanent_ok_defs impl_is_connected_def can_happen_def Let_def)
qed

end
