(* ===== verification/Permanent_Cache.thy ===== *)
theory Permanent_Cache
  imports Permanent_Correct
begin

text \<open>
  The messages a permanent connection keeps while the link is down, what becomes of them when it is up, and a
  connection to try the theorems on.
\<close>

section \<open>The messages of the cache\<close>

text \<open>\<open>out\<close> is what the kernel took so far; it takes a prefix of what it is given.\<close>

definition takes_prefix :: "('x \<Rightarrow> string) \<Rightarrow> ('d, 'k, 'x) permanent_env \<Rightarrow> bool" where
  "takes_prefix out E \<longleftrightarrow> (\<forall>k d x. case pm_write E k d x of
     (Inr n, x') \<Rightarrow> n \<le> length d \<and> out x' = out x @ take n d | (Inl e, x') \<Rightarrow> out x' = out x)"

definition taken :: "('x \<Rightarrow> string) \<Rightarrow> ('d, 'k, 'x) permanent \<Rightarrow> string" where
  "taken out p = out (pm_os p)"

definition line_of :: "('d, 'k, 'x) permanent_env \<Rightarrow> message \<Rightarrow> string" where
  "line_of E m = render_message (mc_replace (pm_message E)) m @ [CHR 0x0A]"

lemma messenger_empty_idle:
  "\<not> f_done (pm_timer (lb_peer w)) \<Longrightarrow> \<not> pm_messenger_done (lb_peer w) \<Longrightarrow> messenger_process_empty_buffer w = (Inr (), w)"
  by (simp add: messenger_process_empty_buffer_def permanent_process_empty_buffer_def act_when_def act_bind_def act_return_def)

lemma write_delivers:
  fixes E :: "('d, 'k, 'x) permanent_env" and w :: "('d, 'k, 'x) pstate"
  assumes live: "\<not> f_done (pm_timer (lb_peer w))" "\<not> pm_messenger_done (lb_peer w)" and k: "f_messenger (lb_peer w) = Some k"
    and valid: "valid (lb_peer w)" and out: "takes_prefix out E" and ok: "output_ok w" and d: "d \<noteq> []"
  obtains w' x where "buffer_write valid at_once (messenger_buffer E) d w = (Inr (Inr (length d)), w')"
    "output_ok w'" "stream (taken out) w' = stream (taken out) w @ d" "lb_peer w' = (lb_peer w)\<lparr>pm_os := x\<rparr>"
proof -
  have cached: "output_ok (v\<lparr>lb_output := lb_output v @ data\<rparr>) \<and>
      stream (taken out) (v\<lparr>lb_output := lb_output v @ data\<rparr>) = stream (taken out) v @ data"
    if "output_ok v" "data \<noteq> []" for v :: "('d, 'k, 'x) pstate" and data
    using written_append [OF that, of "taken out"] by (simp add: written_def)
  show ?thesis
  proof (cases "lb_output w = [] \<and> at_once (lb_peer w)")
    case False
    then have "buffer_write valid at_once (messenger_buffer E) d w = (Inr (Inr (length d)), w\<lparr>lb_output := lb_output w @ d\<rparr>)"
      using valid d by (auto simp: buffer_write_def buffer_cache_def act_bind_def bf_update_def act_return_def)
    then show ?thesis using that [of _ "pm_os (lb_peer w)"] cached [OF ok d] by simp
  next
    case True
    obtain r x where x: "pm_write E k d (pm_os (lb_peer w)) = (r, x)" by (cases "pm_write E k d (pm_os (lb_peer w))")
    let ?v = "w\<lparr>lb_peer := (lb_peer w)\<lparr>pm_os := x\<rparr>\<rparr>"
    have pos: "lb_position w = 0" using ok True by (simp add: output_ok_def)
    have sys: "bf_system (bf_write (messenger_buffer E) d) w = (Inr r, ?v)" using k x by (simp add: bf_system_def messenger_buffer_def)
    have okv: "output_ok ?v" using True pos by (simp add: output_ok_def)
    show ?thesis
    proof (cases r)
      case (Inl e)
      then have "out x = out (pm_os (lb_peer w))" using out x by (auto simp: takes_prefix_def dest!: spec [of _ k] spec [of _ d] spec [of _ "pm_os (lb_peer w)"])
      then have "stream (taken out) ?v = stream (taken out) w" by (simp add: stream_def taken_def)
      moreover have "buffer_write valid at_once (messenger_buffer E) d w = (Inr (Inr (length d)), ?v\<lparr>lb_output := lb_output ?v @ d\<rparr>)"
        using True valid d sys Inl by (simp add: buffer_write_def buffer_cache_def act_bind_def bf_update_def act_return_def)
      ultimately show ?thesis using that [of _ x] cached [OF okv d] by simp
    next
      case (Inr n)
      then have n: "n \<le> length d" "out x = out (pm_os (lb_peer w)) @ take n d"
        using out x by (auto simp: takes_prefix_def dest!: spec [of _ k] spec [of _ d] spec [of _ "pm_os (lb_peer w)"])
      have st: "stream (taken out) ?v @ drop n d = stream (taken out) w @ d" using n True by (simp add: stream_def taken_def)
      show ?thesis
      proof (cases "n = length d")
        case full: True
        have "messenger_process_empty_buffer ?v = (Inr (), ?v)" using live by (simp add: messenger_empty_idle)
        then have "buffer_write valid at_once (messenger_buffer E) d w = (Inr (Inr (length d)), ?v)"
          using True valid d sys Inr full by (simp add: buffer_write_def act_bind_def act_return_def)
        then show ?thesis using that [of ?v x] okv st full by simp
      next
        case False
        then have "buffer_write valid at_once (messenger_buffer E) d w = (Inr (Inr (length d)), ?v\<lparr>lb_output := lb_output ?v @ drop n d\<rparr>)"
          using True valid d sys Inr n by (simp add: buffer_write_def buffer_cache_def act_bind_def bf_update_def act_return_def)
        moreover have "drop n d \<noteq> []" using False n by simp
        ultimately show ?thesis using that [of _ x] cached [OF okv, of "drop n d"] st by simp
      qed
    qed
  qed
qed

lemma rendered:
  "sendable M m \<Longrightarrow> \<exists>m'. to_message (mc_replace M) (mc_is_double M) MESSAGE_FORMAT_STRING m = (Inr (render_message (mc_replace M) m), m')"
  by (auto simp: sendable_def to_message_def to_string_def text_cache_ok_def Let_def render_message_def)

lemma messenger_send_eq:
  assumes "sendable (pm_message E) m"
  obtains m' at_once where "messenger_send E m = act_bind (buffer_write (bf_valid_socket (messenger_buffer E)) at_once (messenger_buffer E) (line_of E m))
     (\<lambda>r. act_return (r = Inr (length (line_of E m)), m'))"
    and "pm_class E = Tcp_permanent \<Longrightarrow> at_once = bf_is_non_blocking (messenger_buffer E)"
proof -
  obtain m' where m': "to_message (mc_replace (pm_message E)) (mc_is_double (pm_message E)) MESSAGE_FORMAT_STRING m
      = (Inr (render_message (mc_replace (pm_message E)) m), m')"
    using rendered [OF assms] by blast
  show ?thesis
  proof (cases "pm_class E")
    case Tcp_permanent
    then show ?thesis using m'
      by (intro that [of "bf_is_non_blocking (messenger_buffer E)" m'])
        (simp_all add: messenger_send_def tcp_server_client_send_message_def tcp_server_client_write_def stream_send_message_def line_of_def Let_def)
  next
    case Local_permanent
    then show ?thesis using m'
      by (intro that [of "\<lambda>_. False" m'])
        (simp_all add: messenger_send_def local_client_send_message_def local_client_write_def stream_send_message_def line_of_def Let_def)
  qed
qed

definition link_up :: "('d, 'k, 'x) permanent_env \<Rightarrow> 'k \<Rightarrow> ('d, 'k, 'x) permanent \<Rightarrow> bool" where
  "link_up E k p \<longleftrightarrow> \<not> f_done (pm_timer p) \<and> \<not> pm_messenger_done p \<and> f_messenger p = Some k \<and> (\<forall>x. pm_valid_socket E k x)"

lemma send_delivers:
  assumes live: "link_up E k (lb_peer w)" and out: "takes_prefix out E" and ok: "output_ok w" and m: "sendable (pm_message E) m"
  obtains r w' x where "messenger_send E m w = (Inr r, w')" "output_ok w'"
    "stream (taken out) w' = stream (taken out) w @ line_of E m" "lb_peer w' = (lb_peer w)\<lparr>pm_os := x\<rparr>"
proof -
  obtain m' at_once where send: "messenger_send E m = act_bind (buffer_write (bf_valid_socket (messenger_buffer E)) at_once (messenger_buffer E) (line_of E m))
     (\<lambda>r. act_return (r = Inr (length (line_of E m)), m'))"
    using messenger_send_eq [OF m] by blast
  have valid: "bf_valid_socket (messenger_buffer E) (lb_peer w)" using live by (simp add: link_up_def messenger_buffer_def)
  have up: "\<not> f_done (pm_timer (lb_peer w))" "\<not> pm_messenger_done (lb_peer w)" "f_messenger (lb_peer w) = Some k"
    using live by (simp_all add: link_up_def)
  have d: "line_of E m \<noteq> []" by (simp add: line_of_def)
  obtain w' x where "buffer_write (bf_valid_socket (messenger_buffer E)) at_once (messenger_buffer E) (line_of E m) w = (Inr (Inr (length (line_of E m))), w')"
    "output_ok w'" "stream (taken out) w' = stream (taken out) w @ line_of E m" "lb_peer w' = (lb_peer w)\<lparr>pm_os := x\<rparr>"
    by (rule write_delivers [where valid = "bf_valid_socket (messenger_buffer E)" and at_once = at_once, OF up valid out ok d])
  then show ?thesis by (intro that [of _ w' x]) (simp_all add: send act_bind_def act_return_def)
qed

lemma flush_delivers:
  assumes "link_up E k (lb_peer w)" and out: "takes_prefix out E" and "output_ok w"
    and "\<forall>m \<in> set (f_message_cache (lb_peer w)). sendable (pm_message E) m" and "length (f_message_cache (lb_peer w)) \<le> n"
  shows "\<exists>w' x. flush_cache n E w = (Inr (), w') \<and> output_ok w' \<and>
    stream (taken out) w' = stream (taken out) w @ concat (map (line_of E) (f_message_cache (lb_peer w))) \<and>
    lb_peer w' = (lb_peer w)\<lparr>f_message_cache := [], pm_os := x\<rparr>"
  using assms(1,3-)
proof (induction n arbitrary: w)
  case 0
  then have "f_message_cache (lb_peer w) = []" by simp
  with 0 show ?case by (intro exI [of _ w] exI [of _ "pm_os (lb_peer w)"]) simp
next
  case (Suc n)
  show ?case
  proof (cases "f_message_cache (lb_peer w)")
    case Nil
    with Suc.prems show ?thesis by (intro exI [of _ w] exI [of _ "pm_os (lb_peer w)"]) simp
  next
    case (Cons m ms)
    have m: "sendable (pm_message E) m" using Suc.prems(3) Cons by simp
    obtain r w1 x1 where send: "messenger_send E m w = (Inr r, w1)" "output_ok w1"
      "stream (taken out) w1 = stream (taken out) w @ line_of E m" and p1: "lb_peer w1 = (lb_peer w)\<lparr>pm_os := x1\<rparr>"
      using send_delivers [OF Suc.prems(1) out Suc.prems(2) m] by blast
    let ?w = "w1\<lparr>lb_peer := (lb_peer w1)\<lparr>f_message_cache := ms\<rparr>\<rparr>"
    have up: "link_up E k (lb_peer ?w)" using Suc.prems(1) p1 by (simp add: link_up_def)
    have ok: "output_ok ?w" using send by (simp add: output_ok_def)
    have same: "f_message_cache (lb_peer ?w) = ms" by simp
    have rest: "\<forall>m \<in> set ms. sendable (pm_message E) m" "length ms \<le> n" using Suc.prems(3,4) Cons by simp_all
    obtain w' x where "flush_cache n E ?w = (Inr (), w')" "output_ok w'"
      "stream (taken out) w' = stream (taken out) ?w @ concat (map (line_of E) ms)"
      "lb_peer w' = (lb_peer ?w)\<lparr>f_message_cache := [], pm_os := x\<rparr>"
      using Suc.IH [OF up ok] rest unfolding same by blast
    moreover have "stream (taken out) ?w = stream (taken out) w1" by (simp add: stream_def taken_def)
    moreover have "flush_cache (Suc n) E w = flush_cache n E ?w"
      using Cons send Suc.prems(1) p1 by (simp add: link_up_def act_bind_def pm_change_def bf_update_def)
    ultimately show ?thesis using Cons send p1 by (intro exI [of _ w'] exI [of _ x]) simp
  qed
qed

text \<open>The state in which the cache is emptied.\<close>

definition fresh_link :: "'k \<Rightarrow> ('d, 'k, 'x) pstate \<Rightarrow> ('d, 'k, 'x) pstate" where
  "fresh_link k w = (let p = lb_peer w; ms = remove1 Member_signal (pm_members p) in
     w\<lparr>lb_line := [], lb_output := [], lb_position := 0, lb_peer := p\<lparr>f_thread := Thread_idle, f_tcp_connection := None,
       f_messenger := Some k, pm_messenger_done := False,
       pm_members := (if Member_messenger \<in> set ms then ms else ms @ [Member_messenger])\<rparr>\<rparr>)"

lemma thread_done_links:
  assumes "f_thread (lb_peer w) \<in> {Thread_idle, Thread_ended}" and "f_tcp_connection (lb_peer w) = Some k"
    and "\<not> impl_done (lb_peer w)" and "\<forall>x. pm_valid_socket E k x"
  shows "impl_thread_done E w =
     act_bind (flush_cache (length (f_message_cache (lb_peer w))) E) (\<lambda>_. process_connected E) (fresh_link k w)"
proof -
  have "add_member (pm_valid_socket E k (pm_os (lb_peer (joined w)))) Member_messenger ((joined w)\<lparr>lb_line := [], lb_output := [],
      lb_position := 0, lb_peer := (lb_peer (joined w))\<lparr>f_messenger := Some k, pm_messenger_done := False\<rparr>\<rparr>) = (Inr (), fresh_link k w)"
    using assms(4) by (simp add: add_member_def pm_change_def bf_update_def fresh_link_def joined_def Let_def)
  moreover have "f_message_cache (lb_peer (fresh_link k w)) = f_message_cache (lb_peer w)" by (simp add: fresh_link_def Let_def)
  ultimately have "connection_made E k (joined w) =
     act_bind (flush_cache (length (f_message_cache (lb_peer w))) E) (\<lambda>_. process_connected E) (fresh_link k w)"
    using assms(4) by (simp add: connection_made_def new_messenger_def bind_update) (simp add: act_bind_def)
  then show ?thesis using impl_thread_done_eq [OF assms(1)] assms(2,3) by simp
qed


text \<open>A message that cannot be rendered stops the loop: the messages behind it stay in the cache, the exception leaves
  \<^verbatim>\<open>thread_done()\<close> before \<^verbatim>\<open>process_connected()\<close>, and so at every attempt to come.\<close>

lemma unsendable_message_stops_flush:
  assumes "f_thread (lb_peer w) \<in> {Thread_idle, Thread_ended}" and "f_tcp_connection (lb_peer w) = Some k"
    and "\<not> impl_done (lb_peer w)" and "\<forall>x. pm_valid_socket E k x"
    and "f_message_cache (lb_peer w) = m # ms" and "f_command m = []" "f_cached_message m = []"
  shows "fst (impl_thread_done E w) = Inl Invalid_message \<and> f_message_cache (lb_peer (snd (impl_thread_done E w))) = m # ms"
proof -
  have v: "f_messenger (lb_peer (fresh_link k w)) \<noteq> None" "f_message_cache (lb_peer (fresh_link k w)) = m # ms"
    using assms(5) by (simp_all add: fresh_link_def Let_def)
  have "messenger_send E m (fresh_link k w) = (Inl Invalid_message, fresh_link k w)"
    using assms(6,7) by (simp add: messenger_send_def tcp_server_client_send_message_def local_client_send_message_def
        stream_send_message_def to_message_def to_string_def act_throw_def split: permanent_class.split)
  then show ?thesis using thread_done_links [OF assms(1-4)] assms(5) v by (simp add: act_bind_def)
qed

lemma empty_when_done:
  assumes "f_done (pm_timer (lb_peer v))" "\<not> pm_messenger_done (lb_peer v)" "Member_self \<in> set (pm_members (lb_peer v))"
    "f_messenger (lb_peer v) = Some k"
  obtains u where "messenger_process_empty_buffer v = (Inr (), u)" "f_messenger (lb_peer u) = None"
    "f_message_cache (lb_peer u) = f_message_cache (lb_peer v)"
  using assms by (simp add: messenger_process_empty_buffer_def permanent_process_empty_buffer_def permanent_steps)

text \<open>
  A connection that was marked done only on the outside can crash. \<^verbatim>\<open>mark_done()\<close> without the messenger leaves
  the cache and the attempt of the thread alone. If the attempt succeeds with two messages or more in the cache and the kernel
  takes the first line whole, \<^verbatim>\<open>process_empty_buffer()\<close> removes the object from the communicator, \<^verbatim>\<open>connection_removed()\<close>
  drops the messenger, and the loop over the cache goes on through the null pointer.\<close>

theorem done_connection_flushes_into_nothing:
  assumes joined: "f_thread (lb_peer w) \<in> {Thread_idle, Thread_ended}" and k: "f_tcp_connection (lb_peer w) = Some k"
    and half: "f_done (pm_timer (lb_peer w))" "\<not> impl_done (lb_peer w)" "Member_self \<in> set (pm_members (lb_peer w))"
    and cache: "f_message_cache (lb_peer w) = m1 # m2 # ms" "sendable (pm_message E) m1"
    and sock: "pm_class E = Tcp_permanent" "\<forall>x. pm_valid_socket E k x" "\<forall>x. pm_is_non_blocking E k x"
    and whole: "\<forall>x. \<exists>x'. pm_write E k (line_of E m1) x = (Inr (length (line_of E m1)), x')"
  shows "fst (impl_thread_done E w) = Inl Undefined_behaviour"
proof -
  let ?v = "fresh_link k w"
  obtain m' at_once where send: "messenger_send E m1 = act_bind (buffer_write (bf_valid_socket (messenger_buffer E)) at_once (messenger_buffer E) (line_of E m1))
     (\<lambda>r. act_return (r = Inr (length (line_of E m1)), m'))" and now: "at_once = bf_is_non_blocking (messenger_buffer E)"
    using messenger_send_eq [OF cache(2)] sock(1) by metis
  have v: "f_messenger (lb_peer ?v) = Some k" "f_message_cache (lb_peer ?v) = m1 # m2 # ms" "lb_output ?v = []"
    "f_done (pm_timer (lb_peer ?v))" "\<not> pm_messenger_done (lb_peer ?v)" "Member_self \<in> set (pm_members (lb_peer ?v))"
    using half cache by (simp_all add: fresh_link_def Let_def)
  obtain x where x: "pm_write E k (line_of E m1) (pm_os (lb_peer ?v)) = (Inr (length (line_of E m1)), x)" using whole by blast
  let ?u = "?v\<lparr>lb_peer := (lb_peer ?v)\<lparr>pm_os := x\<rparr>\<rparr>"
  have sys: "bf_system (bf_write (messenger_buffer E) (line_of E m1)) ?v = (Inr (Inr (length (line_of E m1))), ?u)"
    using x v by (simp add: bf_system_def messenger_buffer_def)
  obtain u where gone: "messenger_process_empty_buffer ?u = (Inr (), u)" "f_messenger (lb_peer u) = None"
    "f_message_cache (lb_peer u) = m1 # m2 # ms"
    using empty_when_done [of ?u k] v by auto
  have "bf_valid_socket (messenger_buffer E) (lb_peer ?v)" "at_once (lb_peer ?v)" "line_of E m1 \<noteq> []"
    using sock now v by (simp_all add: messenger_buffer_def line_of_def)
  then have "messenger_send E m1 ?v = (Inr (True, m'), u)"
    using sys gone(1) v(3) by (simp add: send buffer_write_def act_bind_def act_return_def)
  then have "fst (flush_cache (length (f_message_cache (lb_peer w))) E ?v) = Inl Undefined_behaviour"
    using gone v cache by (simp add: act_bind_def pm_change_def bf_update_def)
  then show ?thesis
    using thread_done_links [OF joined k half(2) sock(2)]
    by (cases "flush_cache (length (f_message_cache (lb_peer w))) E ?v") (auto simp: act_bind_def)
qed

section \<open>A connection to try the theorems on\<close>

text \<open>Pauses in microseconds; the system is the list of what the next attempts give, and the bytes the kernel took, at most
  \<open>n\<close> at a time.\<close>

definition demo_pause_env :: "int pause_env" where
  "demo_pause_env = \<lparr>pd_zero = 0, pd_minus_one = -1000000, pd_negative = (\<lambda>d. d < 0), pd_positive = (\<lambda>d. d > 0),
     pd_minus = uminus, pd_fabs = abs, pd_of_us = id, pd_to_us = id, pd_split = (\<lambda>s. [s]), pd_seconds = (\<lambda>_. Some 5000000)\<rparr>"

type_synonym demo_system = "nat option list \<times> string"

definition demo_int_double :: "int json_double" where
  "demo_int_double = \<lparr>is_whole = (\<lambda>_. True), to_i64 = word_of_int, double_to_string = (\<lambda>_. [])\<rparr>"

definition demo_permanent_env :: "nat \<Rightarrow> (int, nat, demo_system) permanent_env" where
  "demo_permanent_env n = \<lparr>pm_class = Tcp_permanent, pm_pause = demo_pause_env,
     pm_message = \<lparr>mc_trim = strip_blanks, mc_replace = scan_replace, mc_double = demo_int_double, mc_tokens = (\<lambda>_. []),
       mc_is_double = (\<lambda>_. False), mc_dispatch = (\<lambda>_. act_return ())\<rparr>,
     pm_connect = (\<lambda>a (cs, s). case cs of [] \<Rightarrow> (None, (cs, s)) | c # cs \<Rightarrow> (c, (cs, s))),
     pm_thread_start = (\<lambda>x. (True, x)), pm_current_date = (\<lambda>x. (1000, x)), pm_read = (\<lambda>k m x. (Inl None, x)),
     pm_write = (\<lambda>k d (cs, s). (Inr (min n (length d)), (cs, s @ take n d))),
     pm_valid_socket = (\<lambda>k x. True), pm_is_non_blocking = (\<lambda>k x. True), pm_close = (\<lambda>k x. x),
     pm_event_limit = 5, pm_processing_time_limit = 500000\<rparr>"

fun run_events :: "('d, 'k, 'x) permanent_env \<Rightarrow> permanent_event list \<Rightarrow> ('d, 'k, 'x) pstate \<Rightarrow> ('d, 'k, 'x) pstate option" where
  "run_events E [] w = Some w"
| "run_events E (ev # evs) w =
     (if can_happen ev w then (case event_action E ev w of (Inr _, w') \<Rightarrow> run_events E evs w' | _ \<Rightarrow> None) else None)"

lemma run_events_life: "life E w0 w \<Longrightarrow> run_events E evs w = Some w' \<Longrightarrow> life E w0 w'"
  by (induction evs arbitrary: w) (auto intro: life_step split: if_splits prod.splits sum.splits)

definition demo_start :: "nat option list \<Rightarrow> (int, nat, demo_system) pstate" where
  "demo_start cs = (case new_permanent (demo_permanent_env 4) [''a'', ''b''] (pause_of_int demo_pause_env 5000000) True (cs, []) of
     Inr w \<Rightarrow> w | Inl _ \<Rightarrow> new_line_buffer undefined)"

definition demo_events :: "permanent_event list" where
  "demo_events = [Tick 1000 1000, Send_message demo_message True, Thread_runs, Thread_runs, Signal_ready,
     Tick 6000000 6000000, Thread_runs]"

lemma demo_dispatch_ok: "dispatch_ok (demo_permanent_env n)"
  by (simp add: dispatch_ok_def demo_permanent_env_def)

lemma demo_takes_prefix: "takes_prefix snd (demo_permanent_env n)"
  by (auto simp: takes_prefix_def demo_permanent_env_def min_def)

theorem never_gives_up_witness:
  "\<exists>w. run_events (demo_permanent_env 4) demo_events (demo_start [None, Some 7]) = Some w \<and>
     f_thread (lb_peer w) = Thread_connected \<and> f_index (lb_peer w) = 1 \<and>
    (impl_is_connected w \<and> Member_messenger \<in> set (pm_members (lb_peer w)) \<and> \<not> f_enabled (pm_timer (lb_peer w))
    \<or> can_happen Thread_runs w \<or> can_happen Signal_ready w
    \<or> f_enabled (pm_timer (lb_peer w)) \<and> (f_timeout_delay (pm_timer (lb_peer w)) \<noteq> -1 \<or> f_timeout_date (pm_timer (lb_peer w)) \<noteq> -1))"
proof -
  let ?E = "demo_permanent_env 4" and ?ps = "pause_of_int demo_pause_env 5000000"
  have "case run_events ?E demo_events (demo_start [None, Some 7]) of None \<Rightarrow> False | Some w \<Rightarrow>
      f_thread (lb_peer w) = Thread_connected \<and> f_index (lb_peer w) = 1 \<and> Member_self \<in> set (pm_members (lb_peer w)) \<and>
      \<not> f_done (pm_timer (lb_peer w))"
    by code_simp
  then obtain w where w: "run_events ?E demo_events (demo_start [None, Some 7]) = Some w" "f_thread (lb_peer w) = Thread_connected"
      "f_index (lb_peer w) = 1" "Member_self \<in> set (pm_members (lb_peer w))" "\<not> f_done (pm_timer (lb_peer w))"
    by (auto split: option.splits)
  have "case new_permanent ?E [''a'', ''b''] ?ps True ([None, Some 7], []) of Inl _ \<Rightarrow> False | Inr _ \<Rightarrow> True" by code_simp
  then have new: "new_permanent ?E [''a'', ''b''] ?ps True ([None, Some 7], []) = Inr (demo_start [None, Some 7])"
    by (auto simp: demo_start_def split: sum.splits)
  have D: "pause_numbers (pm_pause ?E)" "fst (pm_current_date ?E ([None, Some 7], [])) \<ge> 0"
    by (simp_all add: pause_numbers_def demo_permanent_env_def demo_pause_env_def)
  have ps: "\<forall>d \<in> set (f_pause ?ps). pd_positive (pm_pause ?E) (pd_fabs (pm_pause ?E) d)" "pause_restart (pm_pause ?E) ?ps = ?ps"
    by (simp_all add: demo_permanent_env_def pause_of_int_def demo_pause_env_def pause_restart_def)
  have "life ?E (demo_start [None, Some 7]) w" using run_events_life [OF life_start w(1)] .
  from never_gives_up [OF D demo_dispatch_ok pause_of_int_ok ps new this w(4,5)] w(1-3) show ?thesis by blast
qed

text \<open>The link comes up with two messages in the cache.\<close>

definition demo_link :: "bool \<Rightarrow> (int, nat, demo_system) pstate" where
  "demo_link finished = (let w = demo_start [] in w\<lparr>lb_peer := (lb_peer w)\<lparr>f_tcp_connection := Some 7, f_thread := Thread_ended,
     pm_timer := (pm_timer (lb_peer w))\<lparr>f_done := finished\<rparr>,
     f_message_cache := [demo_message, new_message\<lparr>f_command := ''STOP''\<rparr>]\<rparr>\<rparr>)"

lemma demo_sendable:
  "sendable (pm_message (demo_permanent_env n)) demo_message" "sendable (pm_message (demo_permanent_env n)) (new_message\<lparr>f_command := ''STOP''\<rparr>)"
  unfolding demo_permanent_env_def by code_simp+


theorem done_connection_flushes_into_nothing_witness:
  "fst (impl_thread_done (demo_permanent_env 100) (demo_link True)) = Inl Undefined_behaviour"
proof -
  have w: "f_thread (lb_peer (demo_link True)) \<in> {Thread_idle, Thread_ended}" "f_tcp_connection (lb_peer (demo_link True)) = Some 7"
    "f_done (pm_timer (lb_peer (demo_link True)))" by (simp_all add: demo_link_def Let_def)
  have half: "\<not> impl_done (lb_peer (demo_link True))" "Member_self \<in> set (pm_members (lb_peer (demo_link True)))" by code_simp+
  have cache: "f_message_cache (lb_peer (demo_link True)) = demo_message # new_message\<lparr>f_command := ''STOP''\<rparr> # []"
    by (simp add: demo_link_def Let_def)
  have "pm_class (demo_permanent_env 100) = Tcp_permanent" "\<forall>x. pm_valid_socket (demo_permanent_env 100) 7 x"
    "\<forall>x. pm_is_non_blocking (demo_permanent_env 100) 7 x" by (simp_all add: demo_permanent_env_def)
  moreover have "length (line_of (demo_permanent_env 100) demo_message) < 100" by code_simp
  then have "\<forall>x. \<exists>x'. pm_write (demo_permanent_env 100) 7 (line_of (demo_permanent_env 100) demo_message) x =
      (Inr (length (line_of (demo_permanent_env 100) demo_message)), x')"
    by (simp add: demo_permanent_env_def [of 100])
  ultimately show ?thesis by (rule done_connection_flushes_into_nothing [OF w half cache demo_sendable(1)])
qed

end
