(* ===== verification/Inter_Thread.thy ===== *)
theory Inter_Thread
  imports Message Communicator
begin

text \<open>
  \<^verbatim>\<open>inter_thread_message_connection.cpp\<close>: two threads that exchange messages through two FIFOs, each with an
  eventfd semaphore that counts what is in it. The operations are cut into the steps the other thread can come
  between.
\<close>

section \<open>State and operations\<close>

text \<open>\<open>Side_a\<close> is the thread that made the object.\<close>

datatype side = Side_a | Side_b

fun other_side :: "side \<Rightarrow> side" where
  "other_side Side_a = Side_b"
| "other_side Side_b = Side_a"

text \<open>\<open>'q\<close> is \<^verbatim>\<open>cppthread::fifo<message>\<close>. A semaphore is its count, \<open>None\<close> once it is closed.\<close>

record ('q, 'u) inter_thread =
  f_thread_a :: "nat option"
  f_thread_b :: "nat option"
  f_message_a :: 'q
  f_message_b :: 'q
  it_enabled :: bool
  it_peer :: 'u

type_synonym ('q, 'u, 'a) iact = "(('q, 'u) inter_thread, 'a) act"

record ('q, 'u) inter_thread_env =
  fifo_push :: "message \<Rightarrow> 'q \<Rightarrow> 'q"
  fifo_pop :: "'q \<Rightarrow> message option \<times> 'q"
  fifo_empty :: 'q
  it_eventfd :: "'u \<Rightarrow> bool \<times> 'u"
  it_poll :: "side \<Rightarrow> int \<Rightarrow> ('q, 'u) inter_thread \<Rightarrow> (errno + nat \<times> revents) \<times> ('q, 'u) inter_thread"
  it_process_message :: "side \<Rightarrow> message \<Rightarrow> ('q, 'u, unit) iact"
  it_process_error :: "('q, 'u, unit) iact"
  it_process_hup :: "('q, 'u, unit) iact"
  it_process_invalid :: "('q, 'u, unit) iact"

definition eventfd_max :: nat where
  "eventfd_max = 2 ^ 64 - 2"

definition new_inter_thread :: "('q, 'u) inter_thread_env \<Rightarrow> 'u \<Rightarrow> ('q, 'u) inter_thread result \<times> 'u" where
  "new_inter_thread E u =
     (case it_eventfd E u of
        (False, u1) \<Rightarrow> (Inl Initialization_error, u1)
      | (True, u1) \<Rightarrow>
          (case it_eventfd E u1 of
             (False, u2) \<Rightarrow> (Inl Initialization_error, u2)
           | (True, u2) \<Rightarrow> (Inr \<lparr>f_thread_a = Some 0, f_thread_b = Some 0, f_message_a = fifo_empty E,
               f_message_b = fifo_empty E, it_enabled = True, it_peer = u2\<rparr>, u2)))"

definition it_close :: "('q, 'u) inter_thread \<Rightarrow> ('q, 'u) inter_thread" where
  "it_close w = w\<lparr>f_thread_a := None, f_thread_b := None\<rparr>"

text \<open>\<^verbatim>\<open>get_socket()\<close> of the thread that asks.\<close>

fun semaphore :: "side \<Rightarrow> ('q, 'u) inter_thread \<Rightarrow> nat option" where
  "semaphore Side_a w = f_thread_a w"
| "semaphore Side_b w = f_thread_b w"

fun set_semaphore :: "side \<Rightarrow> nat \<Rightarrow> ('q, 'u) inter_thread \<Rightarrow> ('q, 'u) inter_thread" where
  "set_semaphore Side_a n w = w\<lparr>f_thread_a := Some n\<rparr>"
| "set_semaphore Side_b n w = w\<lparr>f_thread_b := Some n\<rparr>"

fun fifo :: "side \<Rightarrow> ('q, 'u) inter_thread \<Rightarrow> 'q" where
  "fifo Side_a w = f_message_a w"
| "fifo Side_b w = f_message_b w"

fun set_fifo :: "side \<Rightarrow> 'q \<Rightarrow> ('q, 'u) inter_thread \<Rightarrow> ('q, 'u) inter_thread" where
  "set_fifo Side_a q w = w\<lparr>f_message_a := q\<rparr>"
| "set_fifo Side_b q w = w\<lparr>f_message_b := q\<rparr>"

text \<open>The two steps of \<^verbatim>\<open>send_message()\<close>, towards \<open>to\<close>.\<close>

definition it_push :: "('q, 'u) inter_thread_env \<Rightarrow> side \<Rightarrow> message \<Rightarrow> ('q, 'u, unit) iact" where
  "it_push E to msg w = (Inr (), set_fifo to (fifo_push E msg (fifo to w)) w)"

definition it_signal :: "side \<Rightarrow> ('q, 'u, bool) iact" where
  "it_signal to w =
     (case semaphore to w of
        None \<Rightarrow> (Inr False, w)
      | Some n \<Rightarrow> if n + 1 > eventfd_max then (Inr False, w) else (Inr True, set_semaphore to (n + 1) w))"

definition it_send_message :: "('q, 'u) inter_thread_env \<Rightarrow> side \<Rightarrow> message \<Rightarrow> bool \<Rightarrow> ('q, 'u, bool) iact" where
  "it_send_message E from_side msg cache =
     act_bind (it_push E (other_side from_side) msg) (\<lambda>_. it_signal (other_side from_side))"

text \<open>The three steps of \<^verbatim>\<open>process_read()\<close>. A semaphore read at zero fails with \<^verbatim>\<open>EAGAIN\<close>.\<close>

definition it_pop :: "('q, 'u) inter_thread_env \<Rightarrow> side \<Rightarrow> ('q, 'u, message option) iact" where
  "it_pop E s w = (case fifo_pop E (fifo s w) of (m, q) \<Rightarrow> (Inr m, set_fifo s q w))"

definition it_take :: "side \<Rightarrow> ('q, 'u, unit) iact" where
  "it_take s w =
     (case semaphore s w of
        Some (Suc n) \<Rightarrow> (Inr (), set_semaphore s n w)
      | _ \<Rightarrow> (Inl Runtime_error, w))"

definition it_process_read :: "('q, 'u) inter_thread_env \<Rightarrow> side \<Rightarrow> ('q, 'u, unit) iact" where
  "it_process_read E s =
     act_bind (it_pop E s) (\<lambda>got.
     act_bind (it_take s) (\<lambda>_.
       case got of None \<Rightarrow> act_return () | Some m \<Rightarrow> it_process_message E s m))"

section \<open>Waiting in the thread\<close>

definition it_poll_failure :: "errno \<Rightarrow> failure" where
  "it_poll_failure e = (if e = EFAULT \<or> e = EINVAL then Parameter_error else Runtime_error)"

definition poll_milliseconds :: "int \<Rightarrow> int" where
  "poll_milliseconds timeout =
     (if timeout > 0 then (let ms = timeout div 1000 in if ms = 0 then 1 else ms) else 0)"

text \<open>The variable \<^verbatim>\<open>timeout\<close> is divided where it is, so the next turn divides it again. The result is that of
  the function.\<close>

fun it_poll_loop :: "nat \<Rightarrow> ('q, 'u) inter_thread_env \<Rightarrow> side \<Rightarrow> int \<Rightarrow> ('q, 'u, int) iact" where
  "it_poll_loop 0 E s timeout w = (Inl No_fuel, w)"
| "it_poll_loop (Suc fuel) E s timeout w =
     (if semaphore s w = None \<or> \<not> it_enabled w then (Inr (-1), w)
      else
        let ms = poll_milliseconds timeout in
        case it_poll E s ms w of
          (Inl e, w1) \<Rightarrow> (Inl (it_poll_failure e), w1)
        | (Inr (r, revents), w1) \<Rightarrow>
            if r = 0 then (Inr 0, w1)
            else
              act_bind (act_when (has_event revents (POLLIN OR POLLPRI)) (it_process_read E s)) (\<lambda>_.
              act_bind (act_when (has_event revents POLLERR) (it_process_error E)) (\<lambda>_.
              act_bind (act_when (has_event revents (POLLHUP OR POLLRDHUP)) (it_process_hup E)) (\<lambda>_.
              act_bind (act_when (has_event revents POLLNVAL) (it_process_invalid E)) (\<lambda>_.
                it_poll_loop fuel E s ms)))) w1)"

section \<open>Every message arrives once\<close>

text \<open>What is documented of the FIFO, \<open>contents\<close> being what is in it.\<close>

definition fifo_laws :: "('q \<Rightarrow> message list) \<Rightarrow> ('q, 'u) inter_thread_env \<Rightarrow> bool" where
  "fifo_laws contents E \<longleftrightarrow> contents (fifo_empty E) = [] \<and> (\<forall>m q. contents (fifo_push E m q) = contents q @ [m]) \<and>
     (\<forall>q. case contents q of
        [] \<Rightarrow> fst (fifo_pop E q) = None \<and> contents (snd (fifo_pop E q)) = []
      | m # ms \<Rightarrow> fst (fifo_pop E q) = Some m \<and> contents (snd (fifo_pop E q)) = ms)"

text \<open>One direction, cut at its steps: \<open>ch_sent\<close> what was pushed, \<open>ch_unsignalled\<close> the senders between the two
  steps of \<^verbatim>\<open>send_message()\<close>, \<open>ch_reader\<close> what the reader popped before it reads the semaphore, \<open>ch_received\<close>
  what it gave to \<^verbatim>\<open>process_message\<close>.\<close>

record channel =
  ch_sent :: "message list"
  ch_unsignalled :: nat
  ch_reader :: "message option option"
  ch_received :: "message list"

text \<open>The threads: any number of senders, and the one thread of the side that reads. The reader starts when
  \<^verbatim>\<open>poll()\<close> says that its semaphore is not zero.\<close>

inductive exchange :: "('q, 'u) inter_thread_env \<Rightarrow> ('q, 'u) inter_thread \<Rightarrow> (side \<Rightarrow> channel) \<Rightarrow> bool"
  for E :: "('q, 'u) inter_thread_env" where
  ex_start: "fst (new_inter_thread E u) = Inr w \<Longrightarrow>
     exchange E w (\<lambda>_. \<lparr>ch_sent = [], ch_unsignalled = 0, ch_reader = None, ch_received = []\<rparr>)"
| ex_push: "exchange E w h \<Longrightarrow> it_push E to m w = (Inr (), w') \<Longrightarrow>
     exchange E w' (h(to := (h to)\<lparr>ch_sent := ch_sent (h to) @ [m], ch_unsignalled := ch_unsignalled (h to) + 1\<rparr>))"
| ex_signal: "exchange E w h \<Longrightarrow> ch_unsignalled (h to) > 0 \<Longrightarrow> it_signal to w = (Inr True, w') \<Longrightarrow>
     exchange E w' (h(to := (h to)\<lparr>ch_unsignalled := ch_unsignalled (h to) - 1\<rparr>))"
| ex_pop: "exchange E w h \<Longrightarrow> ch_reader (h s) = None \<Longrightarrow> semaphore s w = Some (Suc n) \<Longrightarrow> it_pop E s w = (Inr got, w') \<Longrightarrow>
     exchange E w' (h(s := (h s)\<lparr>ch_reader := Some got\<rparr>))"
| ex_take: "exchange E w h \<Longrightarrow> ch_reader (h s) = Some got \<Longrightarrow> it_take s w = (Inr (), w') \<Longrightarrow>
     exchange E w' (h(s := (h s)\<lparr>ch_reader := None,
       ch_received := ch_received (h s) @ (case got of None \<Rightarrow> [] | Some m \<Rightarrow> [m])\<rparr>))"

definition channel_ok :: "('q \<Rightarrow> message list) \<Rightarrow> ('q, 'u) inter_thread \<Rightarrow> (side \<Rightarrow> channel) \<Rightarrow> side \<Rightarrow> bool" where
  "channel_ok contents w h s \<longleftrightarrow>
     (\<exists>n. semaphore s w = Some n \<and>
        (case ch_reader (h s) of
           None \<Rightarrow> ch_sent (h s) = ch_received (h s) @ contents (fifo s w) \<and>
                   n + ch_unsignalled (h s) = length (contents (fifo s w))
         | Some got \<Rightarrow> (\<exists>m. got = Some m \<and> ch_sent (h s) = ch_received (h s) @ m # contents (fifo s w) \<and>
                   n + ch_unsignalled (h s) = length (contents (fifo s w)) + 1 \<and> n > 0)))"

lemma side_simps [simp]:
  "semaphore s (set_fifo t q w) = semaphore s w"
  "fifo s (set_fifo t q w) = (if s = t then q else fifo s w)"
  "semaphore s (set_semaphore t n w) = (if s = t then Some n else semaphore s w)"
  "fifo s (set_semaphore t n w) = fifo s w"
  by (cases s; cases t; simp)+

lemma channel_ok_other:
  "channel_ok contents w h s \<Longrightarrow> h' s = h s \<Longrightarrow> fifo s w' = fifo s w \<Longrightarrow> semaphore s w' = semaphore s w \<Longrightarrow>
     channel_ok contents w' h' s"
  by (simp add: channel_ok_def cong: option.case_cong)

lemma exchange_ok:
  assumes laws: "fifo_laws contents E"
  shows "exchange E w h \<Longrightarrow> channel_ok contents w h s"
proof (induction rule: exchange.induct)
  case (ex_start u w)
  then have "w = \<lparr>f_thread_a = Some 0, f_thread_b = Some 0, f_message_a = fifo_empty E, f_message_b = fifo_empty E,
      it_enabled = True, it_peer = it_peer w\<rparr>"
    by (auto simp: new_inter_thread_def split: prod.splits bool.splits)
  then have "semaphore s w = Some 0" "fifo s w = fifo_empty E" by (cases s; metis inter_thread.select_convs semaphore.simps fifo.simps)+
  then show ?case using laws by (simp add: channel_ok_def fifo_laws_def)
next
  case (ex_push w h to m w')
  then show ?case using laws
    by (cases "s = to") (auto simp: it_push_def channel_ok_def fifo_laws_def split: option.splits)
next
  case (ex_signal w h to w')
  then show ?case
    by (cases "s = to") (auto simp: it_signal_def channel_ok_def split: option.splits if_splits)
next
  case (ex_pop w h t n got w')
  then show ?case
  proof (cases "s = t")
    case True
    then have "contents (fifo s w) \<noteq> []" using ex_pop by (auto simp: channel_ok_def)
    then obtain m ms where "contents (fifo s w) = m # ms" by (cases "contents (fifo s w)") auto
    moreover from this have "fst (fifo_pop E (fifo s w)) = Some m" "contents (snd (fifo_pop E (fifo s w))) = ms"
      using laws by (auto simp: fifo_laws_def dest: spec [of _ "fifo s w"])
    ultimately show ?thesis using True ex_pop by (auto simp: it_pop_def channel_ok_def split: prod.splits)
  qed (use ex_pop in \<open>auto simp: it_pop_def intro: channel_ok_other split: prod.splits\<close>)
next
  case (ex_take w h t got w')
  then show ?case
    by (cases "s = t") (auto simp: it_take_def channel_ok_def split: option.splits nat.splits)
qed


text \<open>
  The timeout of \<^verbatim>\<open>poll()\<close> shrinks a thousand times with every message. The conversion to milliseconds is done
  in the loop, on the variable itself: a thread that asked to wait \<open>t\<close> microseconds waits, once a first message was
  handled, at most \<open>t\<close> millionths of a millisecond rounded up to one, and one millisecond from then on.\<close>

theorem poll_timeout_shrinks:
  assumes "semaphore s w \<noteq> None" "it_enabled w" and "t \<ge> 1000"
    and ready: "it_poll E s (t div 1000) w = (Inr (1, POLLIN), w1)" and read: "it_process_read E s w1 = (Inr (), w2)"
    and again: "semaphore s w2 \<noteq> None" "it_enabled w2"
  shows "it_poll_loop (Suc (Suc fuel)) E s t w =
      (case it_poll E s (max 1 (t div 1000000)) w2 of
        (Inl e, w3) \<Rightarrow> (Inl (it_poll_failure e), w3)
      | (Inr (r, revents), w3) \<Rightarrow>
          if r = 0 then (Inr 0, w3)
          else
              act_bind (act_when (has_event revents (POLLIN OR POLLPRI)) (it_process_read E s)) (\<lambda>_.
              act_bind (act_when (has_event revents POLLERR) (it_process_error E)) (\<lambda>_.
              act_bind (act_when (has_event revents (POLLHUP OR POLLRDHUP)) (it_process_hup E)) (\<lambda>_.
              act_bind (act_when (has_event revents POLLNVAL) (it_process_invalid E)) (\<lambda>_.
                it_poll_loop fuel E s (max 1 (t div 1000000)))))) w3)"
proof -
  have ms: "poll_milliseconds t = t div 1000" "poll_milliseconds (t div 1000) = max 1 (t div 1000000)"
    using assms(3) by (auto simp: poll_milliseconds_def Let_def max_def zdiv_zmult2_eq [symmetric])
  have ev: "has_event POLLIN (POLLIN OR POLLPRI)" "\<not> has_event POLLIN POLLERR" "\<not> has_event POLLIN (POLLHUP OR POLLRDHUP)"
    "\<not> has_event POLLIN POLLNVAL"
    by (simp_all add: has_event_def poll_defs)
  have "it_poll_loop (Suc k) E s t w = it_poll_loop k E s (t div 1000) w2" for k
    using assms(1,2) ready read by (auto simp: ms ev Let_def act_when_def act_bind_def act_return_def)
  from this [of "Suc fuel"] show ?thesis using again by (simp only: it_poll_loop.simps ms Let_def) simp
qed

section \<open>Two threads to try the theorems on\<close>

text \<open>\<open>it_peer\<close> is the list of the timeouts \<^verbatim>\<open>poll()\<close> was given; it answers as the semaphore says.\<close>

definition demo_thread_env :: "(message list, int list) inter_thread_env" where
  "demo_thread_env = \<lparr>fifo_push = (\<lambda>m q. q @ [m]), fifo_pop = (\<lambda>q. case q of [] \<Rightarrow> (None, []) | m # ms \<Rightarrow> (Some m, ms)),
     fifo_empty = [], it_eventfd = (\<lambda>u. (True, u)),
     it_poll = (\<lambda>s t w. (Inr (if semaphore s w = Some 0 then (0, 0) else (1, POLLIN)), w\<lparr>it_peer := it_peer w @ [t]\<rparr>)),
     it_process_message = (\<lambda>s m. act_return ()), it_process_error = act_return (), it_process_hup = act_return (),
     it_process_invalid = act_return ()\<rparr>"

definition demo_two :: "(message list, int list) inter_thread" where
  "demo_two = \<lparr>f_thread_a = Some 1, f_thread_b = Some 0, f_message_a = [new_message], f_message_b = [], it_enabled = True, it_peer = []\<rparr>"

lemma demo_fifo_laws: "fifo_laws id demo_thread_env"
  by (simp add: fifo_laws_def demo_thread_env_def split: list.split)


theorem poll_timeout_shrinks_witness:
  "\<exists>w. it_poll_loop 2 demo_thread_env Side_a 5000000 demo_two = (Inr 0, w) \<and> it_peer w = [5000, 5]"
proof -
  let ?E = demo_thread_env
  let ?w1 = "demo_two\<lparr>it_peer := [5000]\<rparr>" and ?w2 = "demo_two\<lparr>it_peer := [5000], f_thread_a := Some 0, f_message_a := []\<rparr>"
  have start: "semaphore Side_a demo_two \<noteq> None" "it_enabled demo_two" "semaphore Side_a ?w2 \<noteq> None" "it_enabled ?w2"
    by (simp_all add: demo_two_def)
  have ready: "it_poll ?E Side_a (5000000 div 1000) demo_two = (Inr (1, POLLIN), ?w1)" by (simp add: demo_thread_env_def demo_two_def)
  have read: "it_process_read ?E Side_a ?w1 = (Inr (), ?w2)"
    by (simp add: it_process_read_def it_pop_def it_take_def act_bind_def act_return_def demo_thread_env_def demo_two_def)
  have "it_poll ?E Side_a (max 1 (5000000 div 1000000)) ?w2 = (Inr (0, 0), ?w2\<lparr>it_peer := [5000, 5]\<rparr>)"
    by (simp add: demo_thread_env_def demo_two_def)
  then show ?thesis using poll_timeout_shrinks [OF start(1,2) _ ready read start(3,4), of 0] by (simp add: numeral_2_eq_2)
qed

end
