(* ===== verification/Blocking.thy ===== *)
theory Blocking
  imports Message_Connection
begin

text \<open>
  The clients that wait for their messages outside of the event loop:
  \<^verbatim>\<open>tcp_blocking_client_message_connection.cpp\<close> and \<^verbatim>\<open>local_stream_blocking_client_message_connection.cpp\<close>, which read
  the socket one character at a time.
\<close>

section \<open>State and environment\<close>

record 'u blocking =
  bk_connection :: connection
  bk_line :: string
  bk_peer :: 'u

type_synonym ('u, 'a) kact = "('u blocking, 'a) act"

text \<open>\<open>bk_poll\<close> and \<open>bk_read\<close> are the system calls on the socket, the callbacks are virtual functions.\<close>

record 'u blocking_env =
  bk_socket :: "'u \<Rightarrow> int"
  bk_poll :: "int \<Rightarrow> 'u \<Rightarrow> (errno + nat \<times> revents) \<times> 'u"
  bk_read :: "nat \<Rightarrow> 'u \<Rightarrow> (errno + string) \<times> 'u"
  bk_write :: "string \<Rightarrow> 'u \<Rightarrow> (errno + nat) \<times> 'u"
  bk_current_date :: "'u \<Rightarrow> int \<times> 'u"
  bk_process_line :: "string \<Rightarrow> ('u, unit) kact"
  bk_process_error :: "('u, unit) kact"
  bk_process_hup :: "('u, unit) kact"
  bk_process_invalid :: "('u, unit) kact"
  bk_process_timeout :: "('u, unit) kact"

definition bk_system :: "('u \<Rightarrow> 'a \<times> 'u) \<Rightarrow> ('u, 'a) kact" where
  "bk_system f w = (case f (bk_peer w) of (a, u) \<Rightarrow> (Inr a, w\<lparr>bk_peer := u\<rparr>))"

definition bk_update :: "('u blocking \<Rightarrow> 'u blocking) \<Rightarrow> ('u, unit) kact" where
  "bk_update f w = (Inr (), f w)"

section \<open>Reading\<close>

text \<open>The three tests behind the read, which end the function. \<open>next_turn\<close> is the next turn of the loop.\<close>

definition bad_events :: "'u blocking_env \<Rightarrow> revents \<Rightarrow> ('u, bool) kact \<Rightarrow> ('u, bool) kact" where
  "bad_events E revents next_turn =
     (if has_event revents POLLERR then act_bind (bk_process_error E) (\<lambda>_. act_return False)
      else if has_event revents (POLLHUP OR POLLRDHUP) then act_bind (bk_process_hup E) (\<lambda>_. act_return False)
      else if has_event revents POLLNVAL then act_bind (bk_process_invalid E) (\<lambda>_. act_return False)
      else next_turn)"

text \<open>One character, and what follows it; \<open>failed\<close> is what the function throws when there is none. A NUL ends the C
  string it is appended as, so it is lost.\<close>

definition read_char :: "'u blocking_env \<Rightarrow> failure \<Rightarrow> revents \<Rightarrow> ('u, bool) kact \<Rightarrow> ('u, bool) kact" where
  "read_char E failed revents next_turn =
     (if has_event revents (POLLIN OR POLLPRI) then
        act_bind (bk_system (bk_read E 1)) (\<lambda>r.
          case r of
            Inr [c] \<Rightarrow>
              if c = CHR 0x0A then act_return True
              else act_bind (bk_update (\<lambda>w. w\<lparr>bk_line := bk_line w @ c_str [c]\<rparr>)) (\<lambda>_. bad_events E revents next_turn)
          | _ \<Rightarrow> act_bind (bk_process_error E) (\<lambda>_. act_throw failed))
      else bad_events E revents next_turn)"

definition run_poll_failure :: "errno \<Rightarrow> failure" where
  "run_poll_failure e = (if e = EINTR \<or> e = EFAULT \<or> e = ENOMEM then Runtime_error else Invalid_parameter)"

definition peek_poll_failure :: "errno \<Rightarrow> failure" where
  "peek_poll_failure e = (if e = EFAULT \<or> e = EINVAL then Invalid_parameter else Runtime_error)"

text \<open>The inner loop of \<^verbatim>\<open>run()\<close>: the result says whether a line is complete or the function returned.\<close>

fun run_line :: "nat \<Rightarrow> 'u blocking_env \<Rightarrow> ('u, bool) kact" where
  "run_line 0 E w = (Inl No_fuel, w)"
| "run_line (Suc fuel) E w =
     (if bk_socket E (bk_peer w) < 0 \<or> \<not> f_enabled (bk_connection w)
      then act_bind (bk_process_error E) (\<lambda>_. act_return False) w
      else
        let next_timeout_timestamp = fst (save_timeout_timestamp (bk_connection w)) in
        act_bind (bk_update (\<lambda>w. w\<lparr>bk_connection := snd (save_timeout_timestamp (bk_connection w))\<rparr>)) (\<lambda>_.
        act_bind (bk_system (bk_current_date E)) (\<lambda>now.
          let timeout = (next_timeout_timestamp - now) sdiv 1000 in
          if timeout \<le> 0 then
            act_bind (bk_process_timeout E) (\<lambda>_ w.
              if f_done (bk_connection w) then (Inr False, w) else (Inl Runtime_error, w))
          else
            act_bind (bk_system (bk_poll E (to_int32 timeout))) (\<lambda>r.
              case r of
                Inl e \<Rightarrow> act_throw (run_poll_failure e)
              | Inr (n, revents) \<Rightarrow> read_char E Invalid_parameter revents (run_line fuel E)))) w)"

text \<open>The outer loop; the fuel bounds the lines and, for each, the turns.\<close>

fun run_lines :: "nat \<Rightarrow> 'u blocking_env \<Rightarrow> ('u, unit) kact" where
  "run_lines 0 E w = (Inl No_fuel, w)"
| "run_lines (Suc fuel) E w =
     act_bind (run_line fuel E) (\<lambda>complete.
       if \<not> complete then act_return ()
       else act_bind (\<lambda>w. bk_process_line E (bk_line w) w) (\<lambda>_.
            act_bind (bk_update (\<lambda>w. w\<lparr>bk_line := []\<rparr>)) (\<lambda>_ w.
              if f_done (bk_connection w) then (Inr (), w) else run_lines fuel E w))) w"

definition blocking_run :: "nat \<Rightarrow> 'u blocking_env \<Rightarrow> ('u, unit) kact" where
  "blocking_run fuel E =
     act_bind (bk_update (\<lambda>w. w\<lparr>bk_connection := mark_not_done (bk_connection w)\<rparr>)) (\<lambda>_. run_lines fuel E)"

fun peek_line :: "nat \<Rightarrow> 'u blocking_env \<Rightarrow> ('u, bool) kact" where
  "peek_line 0 E w = (Inl No_fuel, w)"
| "peek_line (Suc fuel) E w =
     (if bk_socket E (bk_peer w) < 0 \<or> \<not> f_enabled (bk_connection w)
      then act_bind (bk_process_error E) (\<lambda>_. act_return False) w
      else
        act_bind (bk_system (bk_poll E 0)) (\<lambda>r.
          case r of
            Inl e \<Rightarrow> act_throw (peek_poll_failure e)
          | Inr (n, revents) \<Rightarrow>
              if n = 0 then act_return False else read_char E Runtime_error revents (peek_line fuel E)) w)"

fun blocking_peek :: "nat \<Rightarrow> 'u blocking_env \<Rightarrow> ('u, unit) kact" where
  "blocking_peek 0 E w = (Inl No_fuel, w)"
| "blocking_peek (Suc fuel) E w =
     act_bind (peek_line fuel E) (\<lambda>complete.
       if \<not> complete then act_return ()
       else act_bind (\<lambda>w. bk_process_line E (bk_line w) w) (\<lambda>_.
            act_bind (bk_update (\<lambda>w. w\<lparr>bk_line := []\<rparr>)) (\<lambda>_ w.
              if f_done (bk_connection w) then (Inr (), w) else blocking_peek fuel E w))) w"

definition blocking_send_message :: "replace_many \<Rightarrow> (string \<Rightarrow> bool) \<Rightarrow> 'u blocking_env \<Rightarrow> message \<Rightarrow> bool \<Rightarrow> ('u, bool \<times> message) kact" where
  "blocking_send_message rep is_double E msg cache w =
     (if bk_socket E (bk_peer w) \<ge> 0 then
        case to_message rep is_double MESSAGE_FORMAT_STRING msg of
          (Inl e, _) \<Rightarrow> (Inl e, w)
        | (Inr s, msg') \<Rightarrow>
            let buf = s @ [CHR 0x0A] in
            act_bind (bk_system (bk_write E buf)) (\<lambda>r. act_return (r = Inr (length buf), msg')) w
      else (Inr (False, msg), w))"

section \<open>The local class\<close>

definition local_blocking_run :: "nat \<Rightarrow> 'u blocking_env \<Rightarrow> ('u, unit) kact" where
  "local_blocking_run = blocking_run"

definition local_blocking_peek :: "nat \<Rightarrow> 'u blocking_env \<Rightarrow> ('u, unit) kact" where
  "local_blocking_peek = blocking_peek"

definition local_blocking_send_message :: "replace_many \<Rightarrow> (string \<Rightarrow> bool) \<Rightarrow> 'u blocking_env \<Rightarrow> message \<Rightarrow> bool
    \<Rightarrow> ('u, bool \<times> message) kact" where
  "local_blocking_send_message = blocking_send_message"

section \<open>What is read\<close>

text \<open>\<open>got\<close> is what the kernel returned and \<open>seen\<close> the lines that were processed. The callbacks leave the line and what
  was read alone.\<close>

definition leaves :: "('u \<Rightarrow> string) \<Rightarrow> ('u \<Rightarrow> string list) \<Rightarrow> ('u, 'a) kact \<Rightarrow> bool" where
  "leaves got seen m \<longleftrightarrow> (\<forall>w. bk_line (snd (m w)) = bk_line w \<and> got (bk_peer (snd (m w))) = got (bk_peer w) \<and>
     seen (bk_peer (snd (m w))) = seen (bk_peer w))"

definition reads_chars :: "('u \<Rightarrow> string) \<Rightarrow> ('u \<Rightarrow> string list) \<Rightarrow> 'u blocking_env \<Rightarrow> bool" where
  "reads_chars got seen E \<longleftrightarrow>
     (\<forall>n u. case bk_read E n u of
        (Inr s, u') \<Rightarrow> length s \<le> n \<and> got u' = got u @ s \<and> seen u' = seen u
      | (Inl e, u') \<Rightarrow> got u' = got u \<and> seen u' = seen u) \<and>
     (\<forall>t u. got (snd (bk_poll E t u)) = got u \<and> seen (snd (bk_poll E t u)) = seen u) \<and>
     (\<forall>u. got (snd (bk_current_date E u)) = got u \<and> seen (snd (bk_current_date E u)) = seen u) \<and>
     (\<forall>l w. bk_line (snd (bk_process_line E l w)) = bk_line w \<and> got (bk_peer (snd (bk_process_line E l w))) = got (bk_peer w) \<and>
        seen (bk_peer (snd (bk_process_line E l w))) = seen (bk_peer w) @ [l]) \<and>
     leaves got seen (bk_process_error E) \<and> leaves got seen (bk_process_hup E) \<and>
     leaves got seen (bk_process_invalid E) \<and> leaves got seen (bk_process_timeout E)"

text \<open>Between two lines; \<open>read_ok\<close> is also true inside of one. NUL characters are lost.\<close>

definition no_NUL :: "string \<Rightarrow> string" where
  "no_NUL = filter (\<lambda>c. c \<noteq> CHR 0x00)"

definition read_ok :: "('u \<Rightarrow> string) \<Rightarrow> ('u \<Rightarrow> string list) \<Rightarrow> 'u blocking \<Rightarrow> bool" where
  "read_ok got seen w \<longleftrightarrow> no_NUL (got (bk_peer w)) = join_lines (seen (bk_peer w)) @ bk_line w \<and>
     (\<forall>l \<in> set (bk_line w # seen (bk_peer w)). CHR 0x0A \<notin> set l)"

lemma reads_charsD:
  assumes "reads_chars got seen E"
  shows "bk_read E n u = (Inr s, u') \<Longrightarrow> got u' = got u @ s \<and> seen u' = seen u"
    and "bk_poll E t u = (r, u') \<Longrightarrow> got u' = got u \<and> seen u' = seen u"
    and "bk_current_date E u = (d, u') \<Longrightarrow> got u' = got u \<and> seen u' = seen u"
  using assms unfolding reads_chars_def by (auto dest!: spec [of _ n] spec [of _ u] spec [of _ t] split: prod.splits)

lemma no_NUL_char: "c_str [c] = no_NUL [c]"
  by (simp add: c_str_def no_NUL_def)

text \<open>An action that keeps \<open>read_ok\<close>, and says with \<open>True\<close> that the line is complete: then the new line was read too.\<close>

definition line_read :: "('u \<Rightarrow> string) \<Rightarrow> ('u \<Rightarrow> string list) \<Rightarrow> bool \<Rightarrow> 'u blocking \<Rightarrow> bool" where
  "line_read got seen complete w \<longleftrightarrow>
     no_NUL (got (bk_peer w)) = join_lines (seen (bk_peer w)) @ bk_line w @ (if complete then [CHR 0x0A] else []) \<and>
     (\<forall>l \<in> set (bk_line w # seen (bk_peer w)). CHR 0x0A \<notin> set l)"

lemma line_read_leaves: "leaves got seen m \<Longrightarrow> line_read got seen b w \<Longrightarrow> line_read got seen b (snd (m w))"
  by (auto simp: leaves_def line_read_def)

lemma bad_events_line_read:
  assumes E: "reads_chars got seen E" and w: "line_read got seen False w"
    and next_turn: "\<And>b w w'. line_read got seen False w \<Longrightarrow> next_turn w = (Inr b, w') \<Longrightarrow> line_read got seen b w'"
    and run: "bad_events E revents next_turn w = (Inr b, w')"
  shows "line_read got seen b w'"
proof -
  have "line_read got seen b w'" if m: "leaves got seen m" and r: "act_bind m (\<lambda>_. act_return False) w = (Inr b, w')" for m :: "('a, unit) kact"
    using line_read_leaves [OF m w] r by (auto simp: act_return_def dest!: act_bind_Inr)
  then show ?thesis using E run next_turn [OF w] by (auto simp: bad_events_def reads_chars_def split: if_splits)
qed

lemma read_char_line_read:
  assumes E: "reads_chars got seen E" and w: "line_read got seen False w"
    and next_turn: "\<And>b w w'. line_read got seen False w \<Longrightarrow> next_turn w = (Inr b, w') \<Longrightarrow> line_read got seen b w'"
    and run: "read_char E failed revents next_turn w = (Inr b, w')"
  shows "line_read got seen b w'"
proof (cases "has_event revents (POLLIN OR POLLPRI)")
  case False
  then show ?thesis using bad_events_line_read [OF E w next_turn] run by (simp add: read_char_def)
next
  case True
  obtain r u where r: "bk_read E 1 (bk_peer w) = (r, u)" by (cases "bk_read E 1 (bk_peer w)")
  let ?w = "w\<lparr>bk_peer := u\<rparr>"
  have sys: "bk_system (bk_read E 1) w = (Inr r, ?w)" using r by (simp add: bk_system_def)
  show ?thesis
  proof (cases "\<exists>c. r = Inr [c]")
    case False
    then have "(case r of Inr [c] \<Rightarrow> f c | _ \<Rightarrow> g) = g" for f :: "char \<Rightarrow> ('a, bool) kact" and g
      by (auto split: sum.split list.split)
    then show ?thesis using run True sys by (auto simp: read_char_def act_bind_def act_throw_def split: prod.splits sum.splits)
  next
    case char: True
    then obtain c where c: "r = Inr [c]" by blast
    then have got: "got u = got (bk_peer w) @ [c]" "seen u = seen (bk_peer w)"
      using reads_charsD(1) [OF E] r by auto
    show ?thesis
    proof (cases "c = CHR 0x0A")
      case True
      then have "b" "w' = ?w" using run \<open>has_event revents (POLLIN OR POLLPRI)\<close> sys c by (auto simp: read_char_def act_bind_def act_return_def)
      then show ?thesis using w got True by (simp add: line_read_def no_NUL_def)
    next
      case False
      let ?v = "?w\<lparr>bk_line := bk_line w @ c_str [c]\<rparr>"
      have "bad_events E revents next_turn ?v = (Inr b, w')"
        using run \<open>has_event revents (POLLIN OR POLLPRI)\<close> sys c False
        by (simp add: read_char_def act_bind_def bk_update_def)
      moreover have "line_read got seen False ?v" using w got False by (auto simp: line_read_def no_NUL_char no_NUL_def)
      ultimately show ?thesis using bad_events_line_read [OF E, where w = ?v and next_turn = next_turn] next_turn by blast
    qed
  qed
qed

lemma run_line_read:
  assumes E: "reads_chars got seen E"
  shows "line_read got seen False w \<Longrightarrow> run_line fuel E w = (Inr b, w') \<Longrightarrow> line_read got seen b w'"
proof (induction fuel arbitrary: b w w')
  case (Suc fuel)
  have peer: "line_read got seen False (v\<lparr>bk_peer := u\<rparr>)"
    if "line_read got seen False v" "got u = got (bk_peer v)" "seen u = seen (bk_peer v)" for v u
    using that by (simp add: line_read_def)
  show ?case
  proof (cases "bk_socket E (bk_peer w) < 0 \<or> \<not> f_enabled (bk_connection w)")
    case True
    then have "act_bind (bk_process_error E) (\<lambda>_. act_return False) w = (Inr b, w')" using Suc.prems(2) by simp
    then show ?thesis using line_read_leaves [of got seen "bk_process_error E" False w] E Suc.prems(1)
      by (auto simp: reads_chars_def act_return_def dest!: act_bind_Inr)
  next
    case False
    obtain now u1 where now: "bk_current_date E (bk_peer w) = (now, u1)" by (cases "bk_current_date E (bk_peer w)")
    define v where "v = w\<lparr>bk_connection := snd (save_timeout_timestamp (bk_connection w)), bk_peer := u1\<rparr>"
    define timeout where "timeout = (fst (save_timeout_timestamp (bk_connection w)) - now) sdiv 1000"
    have v: "line_read got seen False v"
      using Suc.prems(1) reads_charsD(3) [OF E now] by (simp add: line_read_def v_def)
    have run: "(if timeout \<le> 0 then act_bind (bk_process_timeout E) (\<lambda>_ w. if f_done (bk_connection w) then (Inr False, w) else (Inl Runtime_error, w))
          else act_bind (bk_system (bk_poll E (to_int32 timeout))) (\<lambda>r. case r of Inl e \<Rightarrow> act_throw (run_poll_failure e)
              | Inr (n, revents) \<Rightarrow> read_char E Invalid_parameter revents (run_line fuel E))) v = (Inr b, w')"
      using Suc.prems(2) False now
      by (simp add: act_bind_def [of "bk_update _"] act_bind_def [of "bk_system (bk_current_date E)"] bk_update_def bk_system_def Let_def v_def timeout_def
          split: if_split_asm)
    show ?thesis
    proof (cases "timeout \<le> 0")
      case True
      then show ?thesis using run line_read_leaves [of got seen "bk_process_timeout E" False v] E v
        by (auto simp: reads_chars_def dest!: act_bind_Inr split: if_splits)
    next
      case False
      then obtain n revents u where poll: "bk_poll E (to_int32 timeout) (bk_peer v) = (Inr (n, revents), u)"
          and rd: "read_char E Invalid_parameter revents (run_line fuel E) (v\<lparr>bk_peer := u\<rparr>) = (Inr b, w')"
        using run by (auto simp: bk_system_def act_bind_def act_throw_def split: prod.splits sum.splits)
      have "line_read got seen False (v\<lparr>bk_peer := u\<rparr>)" using peer [OF v] reads_charsD(2) [OF E poll] by blast
      then show ?thesis by (rule read_char_line_read [OF E _ Suc.IH rd])
    qed
  qed
qed simp

text \<open>
  C13 (invariant): the blocking client processes the lines of the stream. Whatever the pieces the peer sends and whatever else
  ends the loop, when \<^verbatim>\<open>run()\<close> returns, the characters read (less the NULs, which are lost) are the lines given to
  \<^verbatim>\<open>process_line()\<close>, in order and each with its new line, followed by the unfinished line kept for the next call.\<close>

theorem blocking_lines_exact:
  assumes E: "reads_chars got seen E" and start: "read_ok got seen w" and run: "blocking_run fuel E w = (Inr (), w')"
  shows "read_ok got seen w'"
proof -
  have lines: "line_read got seen False w'" if "line_read got seen False w" "run_lines fuel E w = (Inr (), w')" for fuel w w'
    using that
  proof (induction fuel arbitrary: w)
    case (Suc fuel)
    obtain b w1 where w1: "run_line fuel E w = (Inr b, w1)" and rest: "(if \<not> b then act_return ()
       else act_bind (\<lambda>w. bk_process_line E (bk_line w) w) (\<lambda>_. act_bind (bk_update (\<lambda>w. w\<lparr>bk_line := []\<rparr>)) (\<lambda>_ w.
              if f_done (bk_connection w) then (Inr (), w) else run_lines fuel E w))) w1 = (Inr (), w')"
      using Suc.prems(2) by (auto dest!: act_bind_Inr)
    have l1: "line_read got seen b w1" by (rule run_line_read [OF E Suc.prems(1) w1])
    show ?case
    proof (cases b)
      case False
      then show ?thesis using rest l1 by (simp add: act_return_def)
    next
      case True
      obtain w2 where w2: "bk_process_line E (bk_line w1) w1 = (Inr (), w2)"
          and w3: "(if f_done (bk_connection w2) then (Inr (), w2\<lparr>bk_line := []\<rparr>) else run_lines fuel E (w2\<lparr>bk_line := []\<rparr>)) = (Inr (), w')"
        using rest True by (auto simp: act_bind_def bk_update_def split: prod.splits sum.splits)
      have "bk_line (snd (bk_process_line E (bk_line w1) w1)) = bk_line w1"
        "got (bk_peer (snd (bk_process_line E (bk_line w1) w1))) = got (bk_peer w1)"
        "seen (bk_peer (snd (bk_process_line E (bk_line w1) w1))) = seen (bk_peer w1) @ [bk_line w1]"
        using E unfolding reads_chars_def by blast+
      then have "line_read got seen False (w2\<lparr>bk_line := []\<rparr>)"
        using l1 True w2 by (auto simp: line_read_def join_lines_snoc)
      then show ?thesis using w3 Suc.IH by (auto split: if_splits)
    qed
  qed simp
  have "line_read got seen False (w\<lparr>bk_connection := mark_not_done (bk_connection w)\<rparr>)"
    using start by (simp add: read_ok_def line_read_def)
  then have "line_read got seen False w'"
    using run lines by (simp add: blocking_run_def act_bind_def bk_update_def)
  then show ?thesis by (simp add: read_ok_def line_read_def)
qed

text \<open>
  A peer that says goodbye and closes is not heard. \<^verbatim>\<open>run()\<close> reads one character per turn and then looks at the other
  events of the same \<^verbatim>\<open>poll()\<close>: when the peer has closed its side while data is waiting, \<^verbatim>\<open>POLLIN\<close> and \<^verbatim>\<open>POLLRDHUP\<close>
  come together, so a single character is read and the function returns through \<^verbatim>\<open>process_hup()\<close>, whatever was behind it.\<close>

theorem hang_up_loses_input:
  assumes "bk_socket E (bk_peer w) \<ge> 0" "f_enabled (bk_connection w)"
    and date: "bk_current_date E (bk_peer w) = (now, u1)"
    and timeout: "(get_timeout_timestamp (bk_connection w) - now) sdiv 1000 = t" "t > 0"
    and ready: "bk_poll E (to_int32 t) u1 = (Inr (1, POLLIN OR POLLRDHUP), u2)"
    and char: "bk_read E 1 u2 = (Inr [c], u3)" "c \<noteq> CHR 0x0A"
  shows "\<exists>v. run_lines (Suc (Suc fuel)) E w = act_bind (bk_process_hup E) (\<lambda>_. act_return ()) v \<and>
    bk_peer v = u3 \<and> bk_line v = bk_line w @ c_str [c]"
proof -
  let ?v = "w\<lparr>bk_connection := snd (save_timeout_timestamp (bk_connection w)), bk_peer := u3, bk_line := bk_line w @ c_str [c]\<rparr>"
  have ev: "has_event (POLLIN OR POLLRDHUP) (POLLIN OR POLLPRI)" "\<not> has_event (POLLIN OR POLLRDHUP) POLLERR"
    "has_event (POLLIN OR POLLRDHUP) (POLLHUP OR POLLRDHUP)"
    by (simp_all add: has_event_def poll_defs)
  have stamp: "fst (save_timeout_timestamp (bk_connection w)) = get_timeout_timestamp (bk_connection w)"
    by (simp add: save_timeout_timestamp_def)
  have "run_line (Suc fuel) E w = act_bind (bk_process_hup E) (\<lambda>_. act_return False) ?v"
    using assms ev by (simp add: stamp read_char_def bad_events_def act_bind_def [of "bk_update _"] act_bind_def [of "bk_system _"]
        bk_update_def bk_system_def Let_def)
  then have "run_lines (Suc (Suc fuel)) E w = act_bind (bk_process_hup E) (\<lambda>_. act_return ()) ?v"
    by (simp only: run_lines.simps) (simp add: act_bind_def act_return_def split: prod.split sum.split)
  then show ?thesis by (intro exI [of _ ?v]) simp
qed

section \<open>A peer to try the theorems on\<close>

text \<open>The peer is what is left to read, what was read, the lines and the number of hang ups; it closed its side.\<close>

type_synonym demo_stream = "string \<times> string \<times> string list \<times> nat"

definition demo_blocking_env :: "revents \<Rightarrow> demo_stream blocking_env" where
  "demo_blocking_env ev = \<lparr>bk_socket = (\<lambda>_. 3), bk_poll = (\<lambda>t u. (Inr (1, ev), u)),
     bk_read = (\<lambda>n (input, got, rest). case input of [] \<Rightarrow> (Inr [], input, got, rest) | c # cs \<Rightarrow>
        if n = 0 then (Inr [], input, got, rest) else (Inr [c], cs, got @ [c], rest)),
     bk_write = (\<lambda>s u. (Inr (length s), u)), bk_current_date = (\<lambda>u. (0, u)),
     bk_process_line = (\<lambda>l w. case bk_peer w of (input, got, seen, hups) \<Rightarrow>
        (Inr (), w\<lparr>bk_peer := (input, got, seen @ [l], hups), bk_connection := mark_done (bk_connection w)\<rparr>)),
     bk_process_error = act_return (),
     bk_process_hup = (\<lambda>w. case bk_peer w of (input, got, seen, hups) \<Rightarrow> (Inr (), w\<lparr>bk_peer := (input, got, seen, Suc hups)\<rparr>)),
     bk_process_invalid = act_return (), bk_process_timeout = act_return ()\<rparr>"

definition demo_blocking :: "string \<Rightarrow> demo_stream blocking" where
  "demo_blocking s = \<lparr>bk_connection = new_connection\<lparr>f_timeout_date := 1000000\<rparr>, bk_line = [], bk_peer = (s, [], [], 0)\<rparr>"

lemma demo_reads_chars: "reads_chars (\<lambda>u. fst (snd u)) (\<lambda>u. fst (snd (snd u))) (demo_blocking_env ev)"
  by (auto simp: reads_chars_def leaves_def demo_blocking_env_def act_return_def split: list.split prod.split)

theorem blocking_lines_exact_witness:
  "\<exists>w'. blocking_run 9 (demo_blocking_env POLLIN) (demo_blocking [CHR ''a'', CHR 0x0A, CHR ''b'']) = (Inr (), w') \<and>
     read_ok (\<lambda>u. fst (snd u)) (\<lambda>u. fst (snd (snd u))) w' \<and> fst (snd (snd (bk_peer w'))) = [''a'']"
proof -
  let ?w = "demo_blocking [CHR ''a'', CHR 0x0A, CHR ''b'']"
  have start: "read_ok (\<lambda>u. fst (snd u)) (\<lambda>u. fst (snd (snd u))) ?w"
    by (simp add: read_ok_def demo_blocking_def no_NUL_def join_lines_def)
  define w' where "w' = snd (blocking_run 9 (demo_blocking_env POLLIN) ?w)"
  have "fst (blocking_run 9 (demo_blocking_env POLLIN) ?w) = Inr ()" by code_simp
  then have run: "blocking_run 9 (demo_blocking_env POLLIN) ?w = (Inr (), w')" by (simp add: w'_def prod_eq_iff)
  have "fst (snd (snd (bk_peer w'))) = [''a'']" unfolding w'_def by code_simp
  then show ?thesis using blocking_lines_exact [OF demo_reads_chars start run] run by blast
qed

theorem hang_up_loses_input_witness:
  "\<exists>v. run_lines 2 (demo_blocking_env (POLLIN OR POLLRDHUP)) (demo_blocking ''STOP'') =
       act_bind (bk_process_hup (demo_blocking_env (POLLIN OR POLLRDHUP))) (\<lambda>_. act_return ()) v \<and>
     bk_peer v = (''TOP'', ''S'', [], 0) \<and> bk_line v = ''S''"
  using hang_up_loses_input [of "demo_blocking_env (POLLIN OR POLLRDHUP)" "demo_blocking ''STOP''" 0 "bk_peer (demo_blocking ''STOP'')"
      1000 "bk_peer (demo_blocking ''STOP'')" "CHR ''S''" "(''TOP'', ''S'', [], 0)" 0]
  by (simp add: demo_blocking_env_def demo_blocking_def new_connection_def get_timeout_timestamp_def c_str_def numeral_2_eq_2)

end
