(* ===== verification/Signal_Child.thy ===== *)
theory Signal_Child
  imports Communicator "HOL-Library.Multiset"
begin

unbundle bit_operations_syntax

text \<open>
  The children of the process: \<^verbatim>\<open>signal_child.cpp\<close>. One connection hears \<^verbatim>\<open>SIGCHLD\<close> and tells the listeners of a
  child what happened to it; it is in the communicator while it has listeners. The communicator is the part of
  \<^verbatim>\<open>add_connection()\<close> and \<^verbatim>\<open>remove_connection()\<close> that is about this connection.
\<close>

section \<open>The status of a child\<close>

record siginfo =
  si_pid :: int
  si_uid :: int
  si_code :: int
  si_status :: int

definition CLD_EXITED :: int where "CLD_EXITED = 1"
definition CLD_KILLED :: int where "CLD_KILLED = 2"
definition CLD_DUMPED :: int where "CLD_DUMPED = 3"
definition CLD_TRAPPED :: int where "CLD_TRAPPED = 4"
definition CLD_STOPPED :: int where "CLD_STOPPED = 5"
definition CLD_CONTINUED :: int where "CLD_CONTINUED = 6"

lemmas cld_defs = CLD_EXITED_def CLD_KILLED_def CLD_DUMPED_def CLD_TRAPPED_def CLD_STOPPED_def CLD_CONTINUED_def

type_synonym flag_t = "32 word"

definition SIGNAL_CHILD_FLAG_RUNNING :: flag_t where "SIGNAL_CHILD_FLAG_RUNNING = 0x01"
definition SIGNAL_CHILD_FLAG_EXITED :: flag_t where "SIGNAL_CHILD_FLAG_EXITED = 0x02"
definition SIGNAL_CHILD_FLAG_SIGNALED :: flag_t where "SIGNAL_CHILD_FLAG_SIGNALED = 0x04"
definition SIGNAL_CHILD_FLAG_STOPPED :: flag_t where "SIGNAL_CHILD_FLAG_STOPPED = 0x08"
definition SIGNAL_CHILD_FLAG_CONTINUED :: flag_t where "SIGNAL_CHILD_FLAG_CONTINUED = 0x10"

lemmas child_flag_defs = SIGNAL_CHILD_FLAG_RUNNING_def SIGNAL_CHILD_FLAG_EXITED_def SIGNAL_CHILD_FLAG_SIGNALED_def
  SIGNAL_CHILD_FLAG_STOPPED_def SIGNAL_CHILD_FLAG_CONTINUED_def

definition is_exited :: "siginfo \<Rightarrow> bool" where "is_exited i \<longleftrightarrow> si_code i = CLD_EXITED"

definition is_signaled :: "siginfo \<Rightarrow> bool" where
  "is_signaled i \<longleftrightarrow> si_code i = CLD_KILLED \<or> si_code i = CLD_DUMPED"

definition is_core_dumped :: "siginfo \<Rightarrow> bool" where "is_core_dumped i \<longleftrightarrow> si_code i = CLD_DUMPED"

definition is_stopped :: "siginfo \<Rightarrow> bool" where
  "is_stopped i \<longleftrightarrow> si_code i = CLD_STOPPED \<or> si_code i = CLD_TRAPPED"

definition is_continued :: "siginfo \<Rightarrow> bool" where "is_continued i \<longleftrightarrow> si_code i = CLD_CONTINUED"

definition is_running :: "siginfo \<Rightarrow> bool" where
  "is_running i \<longleftrightarrow> \<not> is_exited i \<and> \<not> is_signaled i \<and> \<not> is_stopped i"

definition status_mask :: "siginfo \<Rightarrow> flag_t" where
  "status_mask i =
     (if is_running i then SIGNAL_CHILD_FLAG_RUNNING
      else if is_exited i then SIGNAL_CHILD_FLAG_EXITED
      else if is_signaled i then SIGNAL_CHILD_FLAG_SIGNALED
      else if is_stopped i then SIGNAL_CHILD_FLAG_STOPPED
      else if is_continued i then SIGNAL_CHILD_FLAG_CONTINUED
      else 0)"

definition exit_code :: "siginfo \<Rightarrow> int" where "exit_code i = (if is_exited i then si_status i else -1)"

definition terminate_signal :: "siginfo \<Rightarrow> int" where "terminate_signal i = (if is_signaled i then si_status i else -1)"

definition stop_signal :: "siginfo \<Rightarrow> int" where "stop_signal i = (if is_stopped i then si_status i else -1)"

section \<open>The connection\<close>

text \<open>Callbacks are numbers. \<open>sc_registered\<close> says whether the connection is in the list of the communicator.\<close>

record listener =
  f_child :: int
  f_callback :: nat
  f_flags :: flag_t

record 'u signal_child =
  f_listeners :: "listener list"
  f_count :: "32 word"
  f_adding_to_communicator :: bool
  f_removing_from_communicator :: bool
  sc_socket :: int
  sc_registered :: bool
  sc_os :: 'u

type_synonym ('u, 'a) scact = "('u signal_child, 'a) act"

text \<open>\<open>se_waitid\<close> is the call with \<^verbatim>\<open>P_ALL\<close> and \<^verbatim>\<open>WEXITED | WSTOPPED | WCONTINUED | WNOHANG | WNOWAIT\<close>, \<open>se_reap\<close>
  the one with \<^verbatim>\<open>P_PID\<close> and \<^verbatim>\<open>WEXITED\<close>, whose result is ignored.\<close>

record 'u child_env =
  se_waitid :: "'u \<Rightarrow> (errno + siginfo) \<times> 'u"
  se_reap :: "int \<Rightarrow> 'u \<Rightarrow> 'u"
  se_callback :: "nat \<Rightarrow> siginfo \<Rightarrow> ('u, unit) scact"

definition sc_update :: "('u signal_child \<Rightarrow> 'u signal_child) \<Rightarrow> ('u, unit) scact" where
  "sc_update f w = (Inr (), f w)"

definition sc_system :: "('u \<Rightarrow> 'a \<times> 'u) \<Rightarrow> ('u, 'a) scact" where
  "sc_system f w = (case f (sc_os w) of (a, u) \<Rightarrow> (Inr a, w\<lparr>sc_os := u\<rparr>))"

definition new_signal_child :: "int \<Rightarrow> 'u \<Rightarrow> 'u signal_child" where
  "new_signal_child socket u = \<lparr>f_listeners = [], f_count = 0, f_adding_to_communicator = False,
     f_removing_from_communicator = False, sc_socket = socket, sc_registered = False, sc_os = u\<rparr>"

definition sc_connection_added :: "('u, unit) scact" where
  "sc_connection_added w = (if f_adding_to_communicator w then (Inr (), w) else (Inl Runtime_error, w))"

definition sc_connection_removed :: "('u, unit) scact" where
  "sc_connection_removed w = (if f_removing_from_communicator w then (Inr (), w) else (Inl Runtime_error, w))"

text \<open>The communicator's side of the two calls.\<close>

definition communicator_add :: "('u, unit) scact" where
  "communicator_add w =
     (if sc_socket w < 0 then (Inl Invalid_parameter, w)
      else if sc_registered w then (Inr (), w)
      else sc_connection_added (w\<lparr>sc_registered := True\<rparr>))"

definition communicator_remove :: "('u, unit) scact" where
  "communicator_remove w =
     (if sc_registered w then sc_connection_removed (w\<lparr>sc_registered := False\<rparr>) else (Inr (), w))"

text \<open>\<^verbatim>\<open>safe_variable\<close> puts the flag back when the block is left, by an exception too.\<close>

definition safely :: "('u signal_child \<Rightarrow> 'u signal_child) \<Rightarrow> ('u signal_child \<Rightarrow> 'u signal_child) \<Rightarrow> ('u, unit) scact \<Rightarrow> ('u, unit) scact" where
  "safely set_on set_off m w = (case m (set_on w) of (r, w') \<Rightarrow> (r, set_off w'))"

definition sc_add_connection :: "('u, unit) scact" where
  "sc_add_connection w =
     act_bind (if f_count w = 0
               then safely (f_adding_to_communicator_update (\<lambda>_. True)) (f_adding_to_communicator_update (\<lambda>_. False)) communicator_add
               else act_return ())
       (\<lambda>_. sc_update (\<lambda>w. w\<lparr>f_count := f_count w + 1\<rparr>)) w"

definition sc_remove_connection :: "('u, unit) scact" where
  "sc_remove_connection w =
     (if f_count w = 0 then (Inl Count_mismatch, w)
      else act_bind (sc_update (\<lambda>w. w\<lparr>f_count := f_count w - 1\<rparr>)) (\<lambda>_ w.
        if f_count w = 0
        then safely (f_removing_from_communicator_update (\<lambda>_. True)) (f_removing_from_communicator_update (\<lambda>_. False))
               communicator_remove w
        else (Inr (), w)) w)"

definition add_listener :: "int \<Rightarrow> nat option \<Rightarrow> flag_t \<Rightarrow> ('u, unit) scact" where
  "add_listener child func flags w =
     (if child \<le> 0 then (Inl Invalid_parameter, w)
      else case func of
        None \<Rightarrow> (Inl Invalid_parameter, w)
      | Some cb \<Rightarrow>
          if flags = 0 then (Inl Invalid_parameter, w)
          else act_bind (sc_update (\<lambda>w. w\<lparr>f_listeners := f_listeners w @ [\<lparr>f_child = child, f_callback = cb, f_flags = flags\<rparr>]\<rparr>))
                 (\<lambda>_. sc_add_connection) w)"

text \<open>The loop: what is kept of the list, and what is left of it.\<close>

fun remove_loop :: "int \<Rightarrow> listener list \<Rightarrow> listener list \<Rightarrow> ('u, unit) scact" where
  "remove_loop child kept [] = act_return ()"
| "remove_loop child kept (l # ls) =
     (if f_child l = child
      then act_bind (sc_update (\<lambda>w. w\<lparr>f_listeners := kept @ ls\<rparr>)) (\<lambda>_.
           act_bind sc_remove_connection (\<lambda>_. remove_loop child kept ls))
      else remove_loop child (kept @ [l]) ls)"

definition remove_listener :: "int \<Rightarrow> ('u, unit) scact" where
  "remove_listener child w = remove_loop child [] (f_listeners w) w"

definition tell_listener :: "'u child_env \<Rightarrow> siginfo \<Rightarrow> listener \<Rightarrow> ('u, unit) scact" where
  "tell_listener E i l =
     (if f_child l = si_pid i \<and> f_flags l AND status_mask i \<noteq> 0 then se_callback E (f_callback l) i else act_return ())"

text \<open>One child of the loop.\<close>

definition handle_child :: "'u child_env \<Rightarrow> siginfo \<Rightarrow> ('u, unit) scact" where
  "handle_child E i w =
     act_bind (act_each (tell_listener E i) (f_listeners w)) (\<lambda>_.
       if is_exited i \<or> is_signaled i
       then act_bind (sc_update (\<lambda>w. w\<lparr>sc_os := se_reap E (si_pid i) (sc_os w)\<rparr>)) (\<lambda>_. remove_listener (si_pid i))
       else act_return ()) w"

fun process_signal :: "nat \<Rightarrow> 'u child_env \<Rightarrow> ('u, unit) scact" where
  "process_signal 0 E w = (Inl No_fuel, w)"
| "process_signal (Suc fuel) E w =
     act_bind (sc_system (se_waitid E)) (\<lambda>r.
       case r of
         Inl e \<Rightarrow> act_return ()
       | Inr i \<Rightarrow>
           if si_pid i = 0 then act_return ()
           else act_bind (handle_child E i) (\<lambda>_. process_signal fuel E)) w"

section \<open>Counting the listeners\<close>

definition sc_ok :: "'u signal_child \<Rightarrow> bool" where
  "sc_ok w \<longleftrightarrow> f_count w = of_nat (length (f_listeners w)) \<and> length (f_listeners w) < 2 ^ 32 \<and>
     sc_registered w = (f_listeners w \<noteq> []) \<and> \<not> f_adding_to_communicator w \<and> \<not> f_removing_from_communicator w \<and> sc_socket w \<ge> 0"

definition with_listeners :: "listener list \<Rightarrow> 'u signal_child \<Rightarrow> 'u signal_child" where
  "with_listeners ls w = w\<lparr>f_listeners := ls, f_count := of_nat (length ls), sc_registered := (ls \<noteq> [])\<rparr>"

lemma with_listeners_ok: "sc_ok w \<Longrightarrow> length ls < 2 ^ 32 \<Longrightarrow> sc_ok (with_listeners ls w)"
  by (simp add: sc_ok_def with_listeners_def)

lemma with_listeners_simps [simp]:
  "f_listeners (with_listeners ls w) = ls"
  "sc_os (with_listeners ls w) = sc_os w"
  "with_listeners ls (with_listeners ls' w) = with_listeners ls w"
  by (simp_all add: with_listeners_def)

lemma with_listeners_self: "sc_ok w \<Longrightarrow> with_listeners (f_listeners w) w = w"
  by (simp add: sc_ok_def with_listeners_def)

lemma count_zero: "n < 2 ^ 32 \<Longrightarrow> (of_nat n :: 32 word) = 0 \<longleftrightarrow> n = 0"
  by (auto simp: word_of_nat_eq_0_iff dest: dvd_imp_le)

lemma sc_remove_connection_one:
  assumes "f_count w = of_nat (Suc (length (f_listeners w)))" "Suc (length (f_listeners w)) < 2 ^ 32"
    "sc_registered w" "\<not> f_removing_from_communicator w"
  shows "sc_remove_connection w = (Inr (), with_listeners (f_listeners w) w)"
proof -
  have "f_count w \<noteq> 0" using assms(1,2) count_zero [OF assms(2)] by simp
  moreover have "f_count w - 1 = of_nat (length (f_listeners w))" using assms(1) by simp
  moreover have "(of_nat (length (f_listeners w)) :: 32 word) = 0 \<longleftrightarrow> f_listeners w = []" using count_zero assms(2) by simp
  ultimately show ?thesis using assms(3,4)
    by (simp add: sc_remove_connection_def act_bind_def sc_update_def safely_def communicator_remove_def sc_connection_removed_def
        with_listeners_def)
qed

lemma remove_loop_filter:
  "sc_ok w \<Longrightarrow> f_listeners w = kept @ ls \<Longrightarrow>
     remove_loop child kept ls w = (Inr (), with_listeners (kept @ filter (\<lambda>l. f_child l \<noteq> child) ls) w)"
proof (induction ls arbitrary: kept w)
  case Nil
  then show ?case using with_listeners_self [of w] by (simp add: act_return_def)
next
  case (Cons l ls)
  show ?case
  proof (cases "f_child l = child")
    case True
    let ?w = "w\<lparr>f_listeners := kept @ ls\<rparr>"
    have "sc_remove_connection ?w = (Inr (), with_listeners (f_listeners ?w) ?w)"
      using Cons.prems by (intro sc_remove_connection_one) (simp_all add: sc_ok_def)
    moreover have "with_listeners (f_listeners ?w) ?w = with_listeners (kept @ ls) w" by (simp add: with_listeners_def)
    moreover have "sc_ok (with_listeners (kept @ ls) w)" using Cons.prems by (intro with_listeners_ok) (auto simp: sc_ok_def)
    ultimately show ?thesis using True Cons.IH [of "with_listeners (kept @ ls) w" kept]
      by (simp add: act_bind_def sc_update_def)
  next
    case False
    then show ?thesis using Cons.IH [of w "kept @ [l]"] Cons.prems by simp
  qed
qed

lemma remove_listener_filter:
  "sc_ok w \<Longrightarrow> remove_listener child w = (Inr (), with_listeners (filter (\<lambda>l. f_child l \<noteq> child) (f_listeners w)) w)"
  using remove_loop_filter [of w "[]"] by (simp add: remove_listener_def)

lemma add_listener_appends:
  assumes w: "sc_ok w" and room: "Suc (length (f_listeners w)) < 2 ^ 32" and args: "child > 0" "flags \<noteq> 0"
  shows "add_listener child (Some cb) flags w =
    (Inr (), with_listeners (f_listeners w @ [\<lparr>f_child = child, f_callback = cb, f_flags = flags\<rparr>]) w)"
  using assms count_zero [of "length (f_listeners w)"]
  by (cases "f_listeners w = []")
    (simp_all add: add_listener_def act_bind_def act_return_def sc_update_def sc_add_connection_def safely_def communicator_add_def
      sc_connection_added_def with_listeners_def sc_ok_def)

lemma add_listener_keeps:
  assumes "sc_ok w" and "Suc (length (f_listeners w)) < 2 ^ 32"
  shows "sc_ok (snd (add_listener child func flags w))"
proof (cases "child \<le> 0 \<or> func = None \<or> flags = 0")
  case True
  then show ?thesis using assms(1) by (auto simp: add_listener_def split: option.split)
next
  case False
  then show ?thesis using add_listener_appends [OF assms] assms by (auto intro!: with_listeners_ok)
qed

lemma filter_room: "sc_ok w \<Longrightarrow> length (filter P (f_listeners w)) < 2 ^ 32"
  using length_filter_le [of P "f_listeners w"] unfolding sc_ok_def by linarith

lemma keeps_remove_listener: "keeps sc_ok (remove_listener child)"
proof (rule keepsI)
  fix w :: "'a signal_child"
  assume w: "sc_ok w"
  then have "length (filter (\<lambda>l. f_child l \<noteq> child) (f_listeners w)) < 2 ^ 32" by (rule filter_room)
  then show "sc_ok (snd (remove_listener child w))" using w by (simp add: remove_listener_filter with_listeners_ok)
qed

lemma keeps_system: "keeps sc_ok (sc_system f)"
  by (auto simp: keeps_def sc_system_def sc_ok_def split: prod.split)

definition callbacks_keep :: "'u child_env \<Rightarrow> bool" where
  "callbacks_keep E \<longleftrightarrow> (\<forall>c i. keeps sc_ok (se_callback E c i))"

lemma keeps_handle_child:
  assumes E: "callbacks_keep E"
  shows "keeps sc_ok (handle_child E i)"
proof -
  have "keeps sc_ok (act_each (tell_listener E i) ls)" for ls
    using E by (intro keeps_each) (simp add: tell_listener_def callbacks_keep_def)
  moreover have "keeps sc_ok (sc_update (\<lambda>w. w\<lparr>sc_os := u w\<rparr>))" for u
    by (simp add: keeps_def sc_update_def sc_ok_def)
  ultimately have "keeps sc_ok (act_bind (act_each (tell_listener E i) ls) (\<lambda>_.
       if is_exited i \<or> is_signaled i
       then act_bind (sc_update (\<lambda>w. w\<lparr>sc_os := se_reap E (si_pid i) (sc_os w)\<rparr>)) (\<lambda>_. remove_listener (si_pid i))
       else act_return ()))" for ls
    using keeps_remove_listener by (intro keeps_bind) (auto intro!: keeps_bind)
  then show ?thesis by (simp add: keeps_def handle_child_def)
qed

lemma keeps_process_signal: "callbacks_keep E \<Longrightarrow> keeps sc_ok (process_signal fuel E)"
proof (induction fuel)
  case 0
  then show ?case by (simp add: keeps_def)
next
  case (Suc fuel)
  have "keeps sc_ok (act_bind (sc_system (se_waitid E)) (\<lambda>r. case r of Inl e \<Rightarrow> act_return () | Inr i \<Rightarrow>
           if si_pid i = 0 then act_return () else act_bind (handle_child E i) (\<lambda>_. process_signal fuel E)))"
    using Suc keeps_handle_child [OF Suc.prems] by (intro keeps_bind keeps_system) (auto split: sum.split intro: keeps_bind)
  then show ?case by (simp add: keeps_def)
qed

text \<open>What can happen to the connection, in any order; the calls may throw.\<close>

inductive child_life :: "'u child_env \<Rightarrow> 'u signal_child \<Rightarrow> bool" for E where
  cl_new: "socket \<ge> 0 \<Longrightarrow> child_life E (new_signal_child socket u)"
| cl_add: "child_life E w \<Longrightarrow> Suc (length (f_listeners w)) < 2 ^ 32 \<Longrightarrow> add_listener child func flags w = (r, w') \<Longrightarrow> child_life E w'"
| cl_remove: "child_life E w \<Longrightarrow> remove_listener child w = (r, w') \<Longrightarrow> child_life E w'"
| cl_signal: "child_life E w \<Longrightarrow> process_signal fuel E w = (r, w') \<Longrightarrow> child_life E w'"

text \<open>
  C22 (invariant): the connection is in the communicator exactly while somebody listens. Whatever sequence of listeners added
  and removed and of signals, with callbacks that themselves add and remove listeners or throw, the counter is the number of
  listeners, so \<^verbatim>\<open>count_mismatch\<close> is never thrown and \<^verbatim>\<open>remove_listener()\<close> always succeeds; and the connection is
  registered if and only if there is a listener. At most \<open>2 ^ 32 - 1\<close> listeners are alive.\<close>

theorem listeners_counted:
  assumes E: "callbacks_keep E" and life: "child_life E w"
  shows "unat (f_count w) = length (f_listeners w) \<and> (sc_registered w \<longleftrightarrow> f_listeners w \<noteq> []) \<and>
    fst (remove_listener child w) = Inr ()"
proof -
  have ok: "sc_ok w"
    using life
  proof induction
    case (cl_new socket u)
    then show ?case by (simp add: sc_ok_def new_signal_child_def)
  next
    case (cl_add w child func flags r w')
    then show ?case using add_listener_keeps [of w child func flags] by simp
  next
    case (cl_remove w child r w')
    then show ?case using keepsD [OF keeps_remove_listener, of w child] by simp
  next
    case (cl_signal w fuel r w')
    then show ?case using keepsD [OF keeps_process_signal [OF E], of w fuel] by simp
  qed
  then have "unat (f_count w) = length (f_listeners w)" by (simp add: sc_ok_def unat_of_nat)
  then show ?thesis using ok remove_listener_filter [OF ok] by (simp add: sc_ok_def)
qed

section \<open>The children are reported\<close>

text \<open>
  \<open>pending\<close> is the list of the children whose state changed, one entry each, \<open>heard\<close> the calls of the callbacks.
  \<^verbatim>\<open>waitid()\<close> returns one of the children, in an order of its own, and with \<^verbatim>\<open>WNOWAIT\<close> leaves it waitable; the
  second call takes a dead child away. The callbacks do not wait for children themselves.
\<close>

definition wait_laws :: "('u \<Rightarrow> siginfo list) \<Rightarrow> ('u \<Rightarrow> (nat \<times> siginfo) list) \<Rightarrow> 'u child_env \<Rightarrow> bool" where
  "wait_laws pending heard E \<longleftrightarrow>
     (\<forall>u. pending (snd (se_waitid E u)) = pending u \<and> heard (snd (se_waitid E u)) = heard u \<and>
        (case fst (se_waitid E u) of
           Inl e \<Rightarrow> pending u = []
         | Inr i \<Rightarrow> if si_pid i = 0 then pending u = [] else i \<in> set (pending u))) \<and>
     (\<forall>p u. heard (se_reap E p u) = heard u \<and>
        pending (se_reap E p u) = filter (\<lambda>i. \<not> (si_pid i = p \<and> (is_exited i \<or> is_signaled i))) (pending u)) \<and>
     (\<forall>c i w. \<exists>u. se_callback E c i w = (Inr (), w\<lparr>sc_os := u\<rparr>) \<and> pending u = pending (sc_os w) \<and>
        heard u = heard (sc_os w) @ [(c, i)])"

lemma wait_law_waitid:
  assumes "wait_laws pending heard E" and "se_waitid E u = (r, u')"
  shows "pending u' = pending u \<and> heard u' = heard u"
    and "r = Inl e \<Longrightarrow> pending u = []"
    and "r = Inr i \<Longrightarrow> si_pid i = 0 \<Longrightarrow> pending u = []"
    and "r = Inr i \<Longrightarrow> si_pid i \<noteq> 0 \<Longrightarrow> i \<in> set (pending u)"
proof -
  have "pending (snd (se_waitid E u)) = pending u \<and> heard (snd (se_waitid E u)) = heard u \<and>
        (case fst (se_waitid E u) of
           Inl e \<Rightarrow> pending u = []
         | Inr i \<Rightarrow> if si_pid i = 0 then pending u = [] else i \<in> set (pending u))"
    using assms(1) unfolding wait_laws_def by blast
  then show "pending u' = pending u \<and> heard u' = heard u" and "r = Inl e \<Longrightarrow> pending u = []"
    and "r = Inr i \<Longrightarrow> si_pid i = 0 \<Longrightarrow> pending u = []" and "r = Inr i \<Longrightarrow> si_pid i \<noteq> 0 \<Longrightarrow> i \<in> set (pending u)"
    using assms(2) by auto
qed

lemma wait_laws_rest:
  assumes "wait_laws pending heard E"
  shows "\<exists>u. se_callback E c i w = (Inr (), w\<lparr>sc_os := u\<rparr>) \<and> pending u = pending (sc_os w) \<and> heard u = heard (sc_os w) @ [(c, i)]"
    and "heard (se_reap E p u) = heard u"
    and "pending (se_reap E p u) = filter (\<lambda>i. \<not> (si_pid i = p \<and> (is_exited i \<or> is_signaled i))) (pending u)"
  using assms unfolding wait_laws_def by blast+

definition told :: "listener list \<Rightarrow> siginfo \<Rightarrow> (nat \<times> siginfo) list" where
  "told ls i = map (\<lambda>l. (f_callback l, i)) (filter (\<lambda>l. f_child l = si_pid i \<and> f_flags l AND status_mask i \<noteq> 0) ls)"

lemma told_other: "si_pid i \<noteq> p \<Longrightarrow> told (filter (\<lambda>l. f_child l \<noteq> p) ls) i = told ls i"
  by (auto simp: told_def intro!: arg_cong [where f = "map _"] filter_cong)

lemma tell_listeners:
  assumes E: "wait_laws pending heard E"
  shows "\<exists>u. act_each (tell_listener E i) ls w = (Inr (), w\<lparr>sc_os := u\<rparr>) \<and> pending u = pending (sc_os w) \<and>
    heard u = heard (sc_os w) @ told ls i"
proof (induction ls arbitrary: w)
  case Nil
  show ?case by (intro exI [of _ "sc_os w"]) (simp add: act_return_def told_def)
next
  case (Cons l ls)
  show ?case
  proof (cases "f_child l = si_pid i \<and> f_flags l AND status_mask i \<noteq> 0")
    case True
    obtain u where u: "se_callback E (f_callback l) i w = (Inr (), w\<lparr>sc_os := u\<rparr>)" "pending u = pending (sc_os w)"
        "heard u = heard (sc_os w) @ [(f_callback l, i)]"
      using wait_laws_rest(1) [OF E] by blast
    then show ?thesis using True Cons.IH [of "w\<lparr>sc_os := u\<rparr>"] by (simp add: act_bind_def tell_listener_def told_def)
  next
    case False
    then have "tell_listener E i l = act_return ()" "told (l # ls) i = told ls i" by (auto simp: tell_listener_def told_def)
    then show ?thesis using Cons.IH [of w] by simp
  qed
qed

lemma filter_key: "distinct (map f xs) \<Longrightarrow> x \<in> set xs \<Longrightarrow> filter (\<lambda>y. f y = f x) xs = [x]"
  by (induction xs) (auto simp: filter_empty_conv image_iff)

definition dead :: "siginfo \<Rightarrow> bool" where
  "dead i \<longleftrightarrow> is_exited i \<or> is_signaled i"

lemma handle_dead_child:
  assumes E: "wait_laws pending heard E" and w: "sc_ok w" and i: "dead i"
  shows "\<exists>u. handle_child E i w = (Inr (), with_listeners (filter (\<lambda>l. f_child l \<noteq> si_pid i) (f_listeners w)) (w\<lparr>sc_os := u\<rparr>)) \<and>
    pending u = filter (\<lambda>j. \<not> (si_pid j = si_pid i \<and> dead j)) (pending (sc_os w)) \<and>
    heard u = heard (sc_os w) @ told (f_listeners w) i"
proof -
  obtain u where u: "act_each (tell_listener E i) (f_listeners w) w = (Inr (), w\<lparr>sc_os := u\<rparr>)"
      "pending u = pending (sc_os w)" "heard u = heard (sc_os w) @ told (f_listeners w) i"
    using tell_listeners [OF E] by blast
  have "sc_ok (w\<lparr>sc_os := se_reap E (si_pid i) u\<rparr>)" using w by (simp add: sc_ok_def)
  from remove_listener_filter [OF this, of "si_pid i"]
  have "handle_child E i w = (Inr (), with_listeners (filter (\<lambda>l. f_child l \<noteq> si_pid i) (f_listeners w)) (w\<lparr>sc_os := se_reap E (si_pid i) u\<rparr>))"
    using u(1) i by (simp add: handle_child_def act_bind_def sc_update_def dead_def)
  then show ?thesis using u wait_laws_rest(2,3) [OF E, of "si_pid i" u] by (auto simp: dead_def)
qed

text \<open>
  C23 (termination): a burst of dead children is handled whole. When every child that changed has exited or was killed,
  \<^verbatim>\<open>process_signal()\<close> returns after one turn per child and one more, whatever the order \<^verbatim>\<open>waitid()\<close> finds them in.
  No zombie is left; the callbacks called are, child by child, those of the listeners of that child whose mask has its
  status, in the order they were added; and the listeners left are those of the other children.\<close>

theorem dead_children_reported:
  assumes E: "wait_laws pending heard E" and w: "sc_ok w"
    and dead: "\<forall>i \<in> set (pending (sc_os w)). dead i" and pids: "distinct (map si_pid (pending (sc_os w)))"
      "\<forall>i \<in> set (pending (sc_os w)). si_pid i > 0"
    and fuel: "fuel > length (pending (sc_os w))"
  shows "\<exists>w' order. process_signal fuel E w = (Inr (), w') \<and> pending (sc_os w') = [] \<and>
    mset order = mset (pending (sc_os w)) \<and>
    heard (sc_os w') = heard (sc_os w) @ concat (map (told (f_listeners w)) order) \<and>
    f_listeners w' = filter (\<lambda>l. f_child l \<notin> si_pid ` set (pending (sc_os w))) (f_listeners w) \<and> sc_ok w'"
  using w dead pids fuel
proof (induction fuel arbitrary: w)
  case (Suc fuel)
  obtain r u where r: "se_waitid E (sc_os w) = (r, u)" by (cases "se_waitid E (sc_os w)")
  note law = wait_law_waitid [OF E r]
  note same = law(1)
  let ?w = "w\<lparr>sc_os := u\<rparr>"
  have ok: "sc_ok ?w" using Suc.prems(1) by (simp add: sc_ok_def)
  have sys: "sc_system (se_waitid E) w = (Inr r, ?w)" using r by (simp add: sc_system_def)
  show ?case
  proof (cases "pending (sc_os w) = []")
    case True
    then have "r = Inr i \<Longrightarrow> si_pid i = 0" for i using law(4) by fastforce
    then have "(case r of Inl e \<Rightarrow> act_return () | Inr i \<Rightarrow>
           if si_pid i = 0 then act_return () else act_bind (handle_child E i) (\<lambda>_. process_signal fuel E)) = act_return ()"
      by (auto split: sum.split)
    then have "process_signal (Suc fuel) E w = (Inr (), ?w)" using sys by (simp add: act_bind_def act_return_def)
    then show ?thesis using True same ok by (intro exI [of _ ?w] exI [of _ "[]"]) simp
  next
    case False
    then obtain i where ri: "r = Inr i" using law(2) by (cases r) auto
    then have i: "i \<in> set (pending (sc_os w))" using law(3,4) False by blast
    let ?ls = "filter (\<lambda>l. f_child l \<noteq> si_pid i) (f_listeners w)" and ?ps = "pending (sc_os w)"
    obtain v where step: "handle_child E i ?w = (Inr (), with_listeners ?ls (w\<lparr>sc_os := v\<rparr>))"
        and v: "pending v = filter (\<lambda>j. \<not> (si_pid j = si_pid i \<and> dead j)) ?ps" "heard v = heard (sc_os w) @ told (f_listeners w) i"
      using handle_dead_child [OF E ok, of i] Suc.prems(2) i same by auto
    define w1 where "w1 = with_listeners ?ls (w\<lparr>sc_os := v\<rparr>)"
    have rest: "pending v = filter (\<lambda>j. si_pid j \<noteq> si_pid i) ?ps" using v(1) Suc.prems(2) by (auto intro: filter_cong)
    have ps: "mset ?ps = add_mset i (mset (pending v))"
    proof -
      have "filter (\<lambda>j. si_pid j = si_pid i) ?ps = [i]" by (rule filter_key [OF Suc.prems(3) i])
      then show ?thesis using multiset_partition [of "mset ?ps" "\<lambda>j. si_pid j = si_pid i"] rest
        by (simp flip: mset_filter)
    qed
    have w1: "sc_ok w1" "sc_os w1 = v" "f_listeners w1 = ?ls"
      using with_listeners_ok [of "w\<lparr>sc_os := v\<rparr>" ?ls] filter_room [OF Suc.prems(1)] Suc.prems(1)
      by (simp_all add: w1_def sc_ok_def)
    have "length (pending v) < fuel" using arg_cong [OF ps, of size] Suc.prems(5) by simp
    then obtain w' order where ih: "process_signal fuel E w1 = (Inr (), w')" "pending (sc_os w') = []" "mset order = mset (pending v)"
        "heard (sc_os w') = heard v @ concat (map (told ?ls) order)"
        "f_listeners w' = filter (\<lambda>l. f_child l \<notin> si_pid ` set (pending v)) ?ls" "sc_ok w'"
      using Suc.IH [of w1] w1 rest Suc.prems(2-4) by (auto simp: distinct_map_filter)
    have "si_pid i \<noteq> 0" using Suc.prems(4) i by fastforce
    then have "process_signal (Suc fuel) E w = (Inr (), w')"
      using sys ri step ih(1) by (simp add: act_bind_def w1_def)
    moreover have "set order = set (pending v)" using ih(3) by (metis set_mset_mset)
    then have others: "map (told ?ls) order = map (told (f_listeners w)) order" using rest by (auto simp: told_other)
    have "heard (sc_os w') = heard (sc_os w) @ concat (map (told (f_listeners w)) (i # order))"
      using ih(4) v(2) unfolding others by simp
    moreover have "f_listeners w' = filter (\<lambda>l. f_child l \<notin> si_pid ` set ?ps) (f_listeners w)"
      using ih(5) arg_cong [OF ps, of set_mset] by (auto intro: filter_cong)
    moreover have "mset (i # order) = mset ?ps" using ps ih(3) by simp
    ultimately show ?thesis using ih(2,6) by blast
  qed
qed simp

text \<open>
  C39 (error): a child that is stopped hangs the process. \<^verbatim>\<open>waitid()\<close> is told to leave the child waitable, and the second call,
  which takes it away, is made only for the dead. As long as the children that changed are stopped or continued,
  \<^verbatim>\<open>process_signal()\<close> finds one of them on every turn, tells its listeners again, and never returns: no number of turns
  is enough.\<close>

theorem stopped_child_never_returns:
  assumes E: "wait_laws pending heard E"
    and some: "pending (sc_os w) \<noteq> []" and alive: "\<forall>i \<in> set (pending (sc_os w)). \<not> dead i \<and> si_pid i > 0"
  shows "fst (process_signal fuel E w) = Inl No_fuel"
  using some alive
proof (induction fuel arbitrary: w)
  case (Suc fuel)
  obtain r u where r: "se_waitid E (sc_os w) = (r, u)" by (cases "se_waitid E (sc_os w)")
  note law = wait_law_waitid [OF E r]
  note same = law(1)
  obtain i where ri: "r = Inr i" using law(2) Suc.prems(1) by (cases r) auto
  then have i: "i \<in> set (pending (sc_os w))" using law(3,4) Suc.prems(1) by blast
  obtain v where v: "act_each (tell_listener E i) (f_listeners w) (w\<lparr>sc_os := u\<rparr>) = (Inr (), w\<lparr>sc_os := v\<rparr>)" "pending v = pending u"
    using tell_listeners [OF E, of i "f_listeners w" "w\<lparr>sc_os := u\<rparr>"] by auto
  have "\<not> dead i" "si_pid i \<noteq> 0" using Suc.prems(2) i by fastforce+
  then have "process_signal (Suc fuel) E w = process_signal fuel E (w\<lparr>sc_os := v\<rparr>)"
    using r ri v(1) by (simp add: sc_system_def act_bind_def handle_child_def dead_def act_return_def)
  then show ?case using Suc.IH [of "w\<lparr>sc_os := v\<rparr>"] Suc.prems same v(2) by simp
qed simp

text \<open>The status of a child that continues counts as running, so a listener that waits for it is never called.\<close>

lemma continued_is_running: "is_continued i \<Longrightarrow> status_mask i = SIGNAL_CHILD_FLAG_RUNNING"
  by (simp add: is_continued_def status_mask_def is_running_def is_exited_def is_signaled_def is_stopped_def cld_defs)

lemma continued_listener_never_called:
  "tell_listener E i \<lparr>f_child = p, f_callback = c, f_flags = SIGNAL_CHILD_FLAG_CONTINUED\<rparr> = act_return ()"
  by (simp add: tell_listener_def status_mask_def is_running_def child_flag_defs is_exited_def is_signaled_def is_stopped_def)

section \<open>A kernel to try the theorems on\<close>

text \<open>The children that wait, and the calls of the callbacks. In the second kernel the callbacks stop listening.\<close>

type_synonym demo_kernel = "siginfo list \<times> (nat \<times> siginfo) list"

definition demo_waiting :: "demo_kernel \<Rightarrow> siginfo list" where
  "demo_waiting u = filter (\<lambda>i. si_pid i \<noteq> 0) (fst u)"

definition demo_child_env :: "demo_kernel child_env" where
  "demo_child_env = \<lparr>se_waitid = (\<lambda>u. (case demo_waiting u of [] \<Rightarrow> Inl Other_errno | i # _ \<Rightarrow> Inr i, u)),
     se_reap = (\<lambda>p u. (filter (\<lambda>i. \<not> (si_pid i = p \<and> (is_exited i \<or> is_signaled i))) (fst u), snd u)),
     se_callback = (\<lambda>c i w. (Inr (), w\<lparr>sc_os := (fst (sc_os w), snd (sc_os w) @ [(c, i)])\<rparr>))\<rparr>"

definition demo_leaving_env :: "demo_kernel child_env" where
  "demo_leaving_env = demo_child_env\<lparr>se_callback := (\<lambda>c i. remove_listener (si_pid i))\<rparr>"

definition demo_child :: "int \<Rightarrow> int \<Rightarrow> siginfo" where
  "demo_child pid code = \<lparr>si_pid = pid, si_uid = 0, si_code = code, si_status = 1\<rparr>"

definition demo_signal_child :: "siginfo list \<Rightarrow> demo_kernel signal_child" where
  "demo_signal_child ps = snd (add_listener 7 (Some 2) SIGNAL_CHILD_FLAG_SIGNALED
     (snd (add_listener 5 (Some 1) SIGNAL_CHILD_FLAG_EXITED (new_signal_child 3 (ps, [])))))"

lemma demo_wait_laws: "wait_laws demo_waiting snd demo_child_env"
proof -
  have "i \<in> set (fst u) \<and> si_pid i \<noteq> 0" if "demo_waiting u = i # ps" for u i ps
    using that by (auto simp: demo_waiting_def filter_eq_Cons_iff)
  then have "case fst (se_waitid demo_child_env u) of Inl e \<Rightarrow> demo_waiting u = []
      | Inr i \<Rightarrow> if si_pid i = 0 then demo_waiting u = [] else i \<in> set (demo_waiting u)" for u
    by (cases "demo_waiting u") (auto simp: demo_child_env_def)
  moreover have "demo_waiting (se_reap demo_child_env p u) =
      filter (\<lambda>i. \<not> (si_pid i = p \<and> (is_exited i \<or> is_signaled i))) (demo_waiting u)" for p u
    by (simp add: demo_waiting_def demo_child_env_def conj_commute)
  moreover have "\<exists>u. se_callback demo_child_env c i w = (Inr (), w\<lparr>sc_os := u\<rparr>) \<and> demo_waiting u = demo_waiting (sc_os w) \<and>
      snd u = snd (sc_os w) @ [(c, i)]" for c i w
    by (intro exI [of _ "(fst (sc_os w), snd (sc_os w) @ [(c, i)])"]) (simp add: demo_child_env_def demo_waiting_def)
  ultimately show ?thesis unfolding wait_laws_def by (simp add: demo_child_env_def)
qed

lemma demo_signal_child_ok: "sc_ok (demo_signal_child ps)" "sc_os (demo_signal_child ps) = (ps, [])"
  "child_life E (demo_signal_child ps)"
proof -
  let ?w0 = "new_signal_child 3 (ps, []) :: demo_kernel signal_child"
  let ?w1 = "snd (add_listener 5 (Some 1) SIGNAL_CHILD_FLAG_EXITED ?w0)"
  have w0: "sc_ok ?w0" "f_listeners ?w0 = []" by (simp_all add: sc_ok_def new_signal_child_def)
  have w1: "?w1 = with_listeners [\<lparr>f_child = 5, f_callback = 1, f_flags = SIGNAL_CHILD_FLAG_EXITED\<rparr>] ?w0"
    using add_listener_appends [OF w0(1), of 5 SIGNAL_CHILD_FLAG_EXITED 1] w0(2) by (simp add: child_flag_defs)
  have ok1: "sc_ok ?w1" using w1 with_listeners_ok [OF w0(1)] by simp
  have w2: "demo_signal_child ps = with_listeners (f_listeners ?w1 @ [\<lparr>f_child = 7, f_callback = 2, f_flags = SIGNAL_CHILD_FLAG_SIGNALED\<rparr>]) ?w1"
    using add_listener_appends [OF ok1, of 7 SIGNAL_CHILD_FLAG_SIGNALED 2] w1
    by (simp add: demo_signal_child_def child_flag_defs)
  show "sc_ok (demo_signal_child ps)" using w2 w1 with_listeners_ok [OF ok1] by simp
  show "sc_os (demo_signal_child ps) = (ps, [])" using w2 w1 by (simp add: new_signal_child_def)
  have "child_life E ?w0" by (rule cl_new) simp
  from cl_add [OF this _ surjective_pairing, of 5 "Some 1" SIGNAL_CHILD_FLAG_EXITED] have life: "child_life E ?w1" using w0(2) by simp
  have "Suc (length (f_listeners ?w1)) < 2 ^ 32" using w1 by simp
  from cl_add [OF life this surjective_pairing] show "child_life E (demo_signal_child ps)"
    unfolding demo_signal_child_def .
qed

theorem listeners_counted_witness:
  "unat (f_count (demo_signal_child [])) = length (f_listeners (demo_signal_child [])) \<and>
    (sc_registered (demo_signal_child []) \<longleftrightarrow> f_listeners (demo_signal_child []) \<noteq> []) \<and>
    fst (remove_listener 5 (demo_signal_child [])) = Inr ()"
  by (rule listeners_counted [of demo_leaving_env, OF _ demo_signal_child_ok(3)])
    (simp add: callbacks_keep_def demo_leaving_env_def keeps_remove_listener)

theorem dead_children_reported_witness:
  "let w = demo_signal_child [demo_child 5 CLD_EXITED, demo_child 7 CLD_KILLED] in
   \<exists>w' order. process_signal 3 demo_child_env w = (Inr (), w') \<and> demo_waiting (sc_os w') = [] \<and>
    mset order = mset (demo_waiting (sc_os w)) \<and>
    snd (sc_os w') = snd (sc_os w) @ concat (map (told (f_listeners w)) order) \<and>
    f_listeners w' = filter (\<lambda>l. f_child l \<notin> si_pid ` set (demo_waiting (sc_os w))) (f_listeners w) \<and> sc_ok w'"
  unfolding Let_def
  by (rule dead_children_reported [OF demo_wait_laws demo_signal_child_ok(1)])
    (simp_all add: demo_signal_child_ok demo_waiting_def demo_child_def dead_def is_exited_def is_signaled_def)

theorem stopped_child_never_returns_witness:
  "fst (process_signal 1000 demo_child_env (demo_signal_child [demo_child 5 CLD_STOPPED])) = Inl No_fuel"
  by (rule stopped_child_never_returns [OF demo_wait_laws])
    (simp_all add: demo_signal_child_ok demo_waiting_def demo_child_def dead_def is_exited_def is_signaled_def cld_defs)

end
