(* ===== verification/File_Changed.thy ===== *)
theory File_Changed
  imports Communicator
begin

unbundle bit_operations_syntax

text \<open>
  The connection that watches files: \<^verbatim>\<open>file_changed.cpp\<close>, over the calls of \<^verbatim>\<open>inotify\<close>. The functions on paths
  of \<^verbatim>\<open>snapdev\<close>, \<^verbatim>\<open>fnmatch()\<close>, \<^verbatim>\<open>stat()\<close> and \<^verbatim>\<open>glob()\<close> are parameters.
\<close>

section \<open>Events and masks\<close>

type_synonym file_event_mask = "32 word"

definition SNAP_FILE_CHANGED_EVENT_NO_EVENTS :: file_event_mask where "SNAP_FILE_CHANGED_EVENT_NO_EVENTS = 0x0000"
definition SNAP_FILE_CHANGED_EVENT_ATTRIBUTES :: file_event_mask where "SNAP_FILE_CHANGED_EVENT_ATTRIBUTES = 0x0001"
definition SNAP_FILE_CHANGED_EVENT_READ :: file_event_mask where "SNAP_FILE_CHANGED_EVENT_READ = 0x0002"
definition SNAP_FILE_CHANGED_EVENT_WRITE :: file_event_mask where "SNAP_FILE_CHANGED_EVENT_WRITE = 0x0004"
definition SNAP_FILE_CHANGED_EVENT_CREATED :: file_event_mask where "SNAP_FILE_CHANGED_EVENT_CREATED = 0x0008"
definition SNAP_FILE_CHANGED_EVENT_DELETED :: file_event_mask where "SNAP_FILE_CHANGED_EVENT_DELETED = 0x0010"
definition SNAP_FILE_CHANGED_EVENT_ACCESS :: file_event_mask where "SNAP_FILE_CHANGED_EVENT_ACCESS = 0x0020"
definition SNAP_FILE_CHANGED_EVENT_UPDATED :: file_event_mask where "SNAP_FILE_CHANGED_EVENT_UPDATED = 0x0040"
definition SNAP_FILE_CHANGED_EVENT_EXISTS :: file_event_mask where "SNAP_FILE_CHANGED_EVENT_EXISTS = 0x0080"
definition SNAP_FILE_CHANGED_EVENT_RECURSIVE :: file_event_mask where "SNAP_FILE_CHANGED_EVENT_RECURSIVE = 0x0100"
definition SNAP_FILE_CHANGED_EVENT_LOST_SYNC :: file_event_mask where "SNAP_FILE_CHANGED_EVENT_LOST_SYNC = 0x0400"
definition SNAP_FILE_CHANGED_EVENT_ERROR :: file_event_mask where "SNAP_FILE_CHANGED_EVENT_ERROR = 0x0800"
definition SNAP_FILE_CHANGED_EVENT_DIRECTORY :: file_event_mask where "SNAP_FILE_CHANGED_EVENT_DIRECTORY = 0x1000"
definition SNAP_FILE_CHANGED_EVENT_GONE :: file_event_mask where "SNAP_FILE_CHANGED_EVENT_GONE = 0x2000"
definition SNAP_FILE_CHANGED_EVENT_UNMOUNTED :: file_event_mask where "SNAP_FILE_CHANGED_EVENT_UNMOUNTED = 0x4000"

lemmas file_event_defs = SNAP_FILE_CHANGED_EVENT_NO_EVENTS_def SNAP_FILE_CHANGED_EVENT_ATTRIBUTES_def
  SNAP_FILE_CHANGED_EVENT_READ_def SNAP_FILE_CHANGED_EVENT_WRITE_def SNAP_FILE_CHANGED_EVENT_CREATED_def
  SNAP_FILE_CHANGED_EVENT_DELETED_def SNAP_FILE_CHANGED_EVENT_ACCESS_def SNAP_FILE_CHANGED_EVENT_UPDATED_def
  SNAP_FILE_CHANGED_EVENT_EXISTS_def SNAP_FILE_CHANGED_EVENT_RECURSIVE_def SNAP_FILE_CHANGED_EVENT_LOST_SYNC_def
  SNAP_FILE_CHANGED_EVENT_ERROR_def SNAP_FILE_CHANGED_EVENT_DIRECTORY_def SNAP_FILE_CHANGED_EVENT_GONE_def
  SNAP_FILE_CHANGED_EVENT_UNMOUNTED_def

text \<open>The bits of \<^verbatim>\<open>sys/inotify.h\<close>.\<close>

definition IN_ACCESS :: "32 word" where "IN_ACCESS = 0x1"
definition IN_MODIFY :: "32 word" where "IN_MODIFY = 0x2"
definition IN_ATTRIB :: "32 word" where "IN_ATTRIB = 0x4"
definition IN_CLOSE_WRITE :: "32 word" where "IN_CLOSE_WRITE = 0x8"
definition IN_CLOSE_NOWRITE :: "32 word" where "IN_CLOSE_NOWRITE = 0x10"
definition IN_OPEN :: "32 word" where "IN_OPEN = 0x20"
definition IN_MOVED_FROM :: "32 word" where "IN_MOVED_FROM = 0x40"
definition IN_MOVED_TO :: "32 word" where "IN_MOVED_TO = 0x80"
definition IN_CREATE :: "32 word" where "IN_CREATE = 0x100"
definition IN_DELETE :: "32 word" where "IN_DELETE = 0x200"
definition IN_DELETE_SELF :: "32 word" where "IN_DELETE_SELF = 0x400"
definition IN_MOVE_SELF :: "32 word" where "IN_MOVE_SELF = 0x800"
definition IN_UNMOUNT :: "32 word" where "IN_UNMOUNT = 0x2000"
definition IN_Q_OVERFLOW :: "32 word" where "IN_Q_OVERFLOW = 0x4000"
definition IN_IGNORED :: "32 word" where "IN_IGNORED = 0x8000"
definition IN_ONLYDIR :: "32 word" where "IN_ONLYDIR = 0x01000000"
definition IN_DONT_FOLLOW :: "32 word" where "IN_DONT_FOLLOW = 0x02000000"
definition IN_EXCL_UNLINK :: "32 word" where "IN_EXCL_UNLINK = 0x04000000"
definition IN_ISDIR :: "32 word" where "IN_ISDIR = 0x40000000"

lemmas in_defs = IN_ACCESS_def IN_MODIFY_def IN_ATTRIB_def IN_CLOSE_WRITE_def IN_CLOSE_NOWRITE_def IN_OPEN_def IN_MOVED_FROM_def
  IN_MOVED_TO_def IN_CREATE_def IN_DELETE_def IN_DELETE_SELF_def IN_MOVE_SELF_def IN_UNMOUNT_def IN_Q_OVERFLOW_def
  IN_IGNORED_def IN_ONLYDIR_def IN_DONT_FOLLOW_def IN_EXCL_UNLINK_def IN_ISDIR_def

text \<open>\<open>when_bits e b m\<close> is \<open>m\<close> when \<open>e\<close> has one of the bits \<open>b\<close>.\<close>

definition when_bits :: "32 word \<Rightarrow> 32 word \<Rightarrow> 32 word \<Rightarrow> 32 word" where
  "when_bits e b m = (if e AND b \<noteq> 0 then m else 0)"

definition events_to_mask :: "file_event_mask \<Rightarrow> 32 word result" where
  "events_to_mask events =
     (let mask' = when_bits events SNAP_FILE_CHANGED_EVENT_ATTRIBUTES IN_ATTRIB OR
            when_bits events SNAP_FILE_CHANGED_EVENT_READ IN_ACCESS OR
            when_bits events SNAP_FILE_CHANGED_EVENT_WRITE IN_MODIFY OR
            when_bits events (SNAP_FILE_CHANGED_EVENT_CREATED OR SNAP_FILE_CHANGED_EVENT_RECURSIVE)
              (IN_CREATE OR IN_MOVED_TO OR IN_MOVE_SELF) OR
            when_bits events (SNAP_FILE_CHANGED_EVENT_DELETED OR SNAP_FILE_CHANGED_EVENT_RECURSIVE)
              (IN_DELETE OR IN_DELETE_SELF OR IN_MOVED_FROM OR IN_MOVE_SELF) OR
            when_bits events SNAP_FILE_CHANGED_EVENT_ACCESS (IN_OPEN OR IN_CLOSE_WRITE OR IN_CLOSE_NOWRITE) OR
            when_bits events SNAP_FILE_CHANGED_EVENT_UPDATED IN_CLOSE_WRITE
      in if mask' = 0 then Inl Initialization_error else Inr mask')"

definition mask_to_events :: "32 word \<Rightarrow> file_event_mask" where
  "mask_to_events m =
     when_bits m IN_ATTRIB SNAP_FILE_CHANGED_EVENT_ATTRIBUTES OR
     when_bits m IN_ACCESS SNAP_FILE_CHANGED_EVENT_READ OR
     when_bits m IN_MODIFY SNAP_FILE_CHANGED_EVENT_WRITE OR
     when_bits m (IN_CREATE OR IN_MOVED_TO) SNAP_FILE_CHANGED_EVENT_CREATED OR
     when_bits m (IN_DELETE OR IN_DELETE_SELF OR IN_MOVED_FROM) SNAP_FILE_CHANGED_EVENT_DELETED OR
     when_bits m (IN_OPEN OR IN_CLOSE_WRITE OR IN_CLOSE_NOWRITE) SNAP_FILE_CHANGED_EVENT_ACCESS OR
     when_bits m IN_CLOSE_WRITE SNAP_FILE_CHANGED_EVENT_UPDATED OR
     when_bits m IN_ISDIR SNAP_FILE_CHANGED_EVENT_DIRECTORY OR
     when_bits m IN_IGNORED SNAP_FILE_CHANGED_EVENT_GONE OR
     when_bits m IN_UNMOUNT SNAP_FILE_CHANGED_EVENT_UNMOUNTED"

record file_event =
  fe_watched_path :: string
  fe_events :: file_event_mask
  fe_filename :: string

definition new_file_event :: "string \<Rightarrow> file_event_mask \<Rightarrow> string \<Rightarrow> file_event result" where
  "new_file_event path events filename =
     (if path = [] then Inl Initialization_error
      else if events = SNAP_FILE_CHANGED_EVENT_NO_EVENTS then Inl Initialization_error
      else Inr \<lparr>fe_watched_path = path, fe_events = events, fe_filename = filename\<rparr>)"

definition file_event_less :: "file_event \<Rightarrow> file_event \<Rightarrow> bool" where
  "file_event_less a b \<longleftrightarrow> fe_watched_path a < fe_watched_path b"

section \<open>State and environment\<close>

record watch =
  f_watched_path :: string
  f_patterns :: "string list"
  f_events :: file_event_mask
  f_mask :: "32 word"
  f_watch :: int

record 'u file_changed =
  f_inotify :: int
  f_watches :: "(int \<times> watch) list"
  fc_enabled :: bool
  fc_os :: 'u

type_synonym ('u, 'a) fact = "('u file_changed, 'a) act"

text \<open>\<^verbatim>\<open>struct inotify_event\<close>, 16 bytes and the name, padded with NULs to \<open>ie_len\<close>. \<open>fe_read\<close> returns the events of the
  buffer and its size in bytes.\<close>

record inotify_event =
  ie_wd :: int
  ie_mask :: "32 word"
  ie_len :: nat
  ie_name :: string

record 'u file_env =
  fe_inotify_add_watch :: "string \<Rightarrow> 32 word \<Rightarrow> 'u \<Rightarrow> int \<times> 'u"
  fe_inotify_rm_watch :: "int \<Rightarrow> 'u \<Rightarrow> int \<times> 'u"
  fe_read :: "'u \<Rightarrow> (errno + inotify_event list \<times> nat) \<times> 'u"
  fe_fnmatch :: "string \<Rightarrow> string \<Rightarrow> bool"
  fe_is_directory :: "string \<Rightarrow> 'u \<Rightarrow> bool"
  fe_glob :: "string \<Rightarrow> 'u \<Rightarrow> string list option"
  fe_basename :: "string \<Rightarrow> string"
  fe_dirname :: "string \<Rightarrow> string"
  fe_has_pattern :: "string \<Rightarrow> bool"
  fe_process_event :: "file_event \<Rightarrow> ('u, unit) fact"
  fe_process_error :: "('u, unit) fact"

definition fc_update :: "('u file_changed \<Rightarrow> 'u file_changed) \<Rightarrow> ('u, unit) fact" where
  "fc_update f w = (Inr (), f w)"

definition fc_system :: "('u \<Rightarrow> 'a \<times> 'u) \<Rightarrow> ('u, 'a) fact" where
  "fc_system f w = (case f (fc_os w) of (a, u) \<Rightarrow> (Inr a, w\<lparr>fc_os := u\<rparr>))"

section \<open>One watch\<close>

definition new_watch :: "string \<Rightarrow> string \<Rightarrow> file_event_mask \<Rightarrow> 32 word \<Rightarrow> watch result" where
  "new_watch path pattern events add_flags =
     res_bind (events_to_mask events) (\<lambda>m.
       Inr \<lparr>f_watched_path = path, f_patterns = (if pattern \<noteq> [] \<and> pattern \<noteq> ''*'' then [pattern] else []),
         f_events = events, f_mask = m OR add_flags OR IN_EXCL_UNLINK, f_watch = -1\<rparr>)"

definition match_patterns :: "'u file_env \<Rightarrow> watch \<Rightarrow> string \<Rightarrow> bool" where
  "match_patterns E wt filename \<longleftrightarrow> f_patterns wt = [] \<or> list_ex (\<lambda>p. fe_fnmatch E (c_str p) (c_str filename)) (f_patterns wt)"

text \<open>A watch is changed in place, so these return it next to the result.\<close>

definition watch_add_watch :: "'u file_env \<Rightarrow> watch \<Rightarrow> 'u \<Rightarrow> unit result \<times> watch \<times> 'u" where
  "watch_add_watch E wt u =
     (case fe_inotify_add_watch E (f_watched_path wt) (f_mask wt) u of (wd, u') \<Rightarrow>
        (if wd = -1 then Inl Initialization_error else Inr (), wt\<lparr>f_watch := wd\<rparr>, u'))"

definition watch_remove_watch :: "'u file_env \<Rightarrow> watch \<Rightarrow> 'u \<Rightarrow> watch \<times> 'u" where
  "watch_remove_watch E wt u =
     (if f_watch wt \<noteq> -1 then (wt\<lparr>f_watch := -1\<rparr>, snd (fe_inotify_rm_watch E (f_watch wt) u)) else (wt, u))"

definition merged_watch :: "string \<Rightarrow> 32 word \<Rightarrow> 32 word \<Rightarrow> watch \<Rightarrow> watch" where
  "merged_watch pattern m add_flags wt =
     (if f_patterns wt = [] then wt
      else if pattern = ''*'' then wt\<lparr>f_patterns := []\<rparr>
      else wt\<lparr>f_patterns := List.insert pattern (f_patterns wt)\<rparr>)\<lparr>f_mask := f_mask wt OR m OR add_flags OR IN_EXCL_UNLINK\<rparr>"

definition watch_merge_watch :: "'u file_env \<Rightarrow> string \<Rightarrow> file_event_mask \<Rightarrow> 32 word \<Rightarrow> watch \<Rightarrow> 'u \<Rightarrow> unit result \<times> watch \<times> 'u" where
  "watch_merge_watch E pattern events add_flags wt u =
     (case events_to_mask events of
        Inl e \<Rightarrow> (Inl e, wt, u)
      | Inr m \<Rightarrow> (case watch_remove_watch E (merged_watch pattern m add_flags wt) u of (wt', u') \<Rightarrow> watch_add_watch E wt' u'))"

section \<open>The connection\<close>

definition new_file_changed :: "int \<Rightarrow> 'u \<Rightarrow> 'u file_changed result" where
  "new_file_changed fd u =
     (if fd = -1 then Inl Initialization_error
      else Inr \<lparr>f_inotify = fd, f_watches = [], fc_enabled = True, fc_os = u\<rparr>)"

definition destroy_file_changed :: "'u file_env \<Rightarrow> 'u file_changed \<Rightarrow> 'u" where
  "destroy_file_changed E w = foldl (\<lambda>u (k, wt). snd (watch_remove_watch E wt u)) (fc_os w) (f_watches w)"

definition path_and_pattern :: "'u file_env \<Rightarrow> string \<Rightarrow> bool \<times> string \<times> string" where
  "path_and_pattern E path =
     (let pattern = fe_basename E path;
          r = (if fe_has_pattern E pattern then (fe_dirname E path, pattern) else (path, ''*''))
      in (fe_has_pattern E (fst r), r))"

text \<open>The first entry, in the order of the keys, with the path.\<close>

definition find_path :: "string \<Rightarrow> 'u file_changed \<Rightarrow> (int \<times> watch) option" where
  "find_path path w = find (\<lambda>(k, wt). f_watched_path wt = path) (f_watches w)"

text \<open>The callbacks for what exists when a watch is set. The patterns are those of the watch before the first callback: one
  that changes the same watch again is not followed.\<close>

definition send_event :: "'u file_env \<Rightarrow> string \<Rightarrow> file_event_mask \<Rightarrow> string \<Rightarrow> ('u, unit) fact" where
  "send_event E path events filename = act_bind (act_lift (new_file_event path events filename)) (fe_process_event E)"

definition send_existing :: "'u file_env \<Rightarrow> watch \<Rightarrow> ('u, unit) fact" where
  "send_existing E wt w =
     (if f_events wt AND SNAP_FILE_CHANGED_EVENT_EXISTS = 0 then (Inr (), w)
      else if fe_is_directory E (f_watched_path wt) (fc_os w)
      then (case fe_glob E (f_watched_path wt @ ''/*'') (fc_os w) of
              None \<Rightarrow> (Inr (), w)
            | Some files \<Rightarrow> act_each (\<lambda>f. act_when (match_patterns E wt (fe_basename E f))
                (send_event E (f_watched_path wt) SNAP_FILE_CHANGED_EVENT_EXISTS (fe_basename E f))) files w)
      else send_event E (f_watched_path wt) SNAP_FILE_CHANGED_EVENT_EXISTS [] w)"

definition merge_watch :: "'u file_env \<Rightarrow> string \<Rightarrow> file_event_mask \<Rightarrow> 32 word \<Rightarrow> ('u, unit) fact" where
  "merge_watch E watched_path events add_flags w =
     (case snd (path_and_pattern E watched_path) of (path, pattern) \<Rightarrow>
        case find_path path w of
          None \<Rightarrow>
            (case new_watch path pattern events add_flags of
               Inl e \<Rightarrow> (Inl e, w)
             | Inr wt \<Rightarrow>
                 (case watch_add_watch E wt (fc_os w) of
                    (Inl e, wt', u) \<Rightarrow> (Inl e, w\<lparr>fc_os := u\<rparr>)
                  | (Inr _, wt', u) \<Rightarrow> send_existing E wt' (w\<lparr>fc_os := u, f_watches := omap_put (f_watch wt') wt' (f_watches w)\<rparr>)))
        | Some (k, wt) \<Rightarrow>
            (case watch_merge_watch E pattern events add_flags wt (fc_os w) of
               (Inl e, wt', u) \<Rightarrow> (Inl e, w\<lparr>fc_os := u, f_watches := omap_put k wt' (f_watches w)\<rparr>)
             | (Inr _, wt', u) \<Rightarrow> send_existing E wt' (w\<lparr>fc_os := u, f_watches := omap_put k wt' (f_watches w)\<rparr>)))"

definition watch_files :: "'u file_env \<Rightarrow> string \<Rightarrow> file_event_mask \<Rightarrow> ('u, unit) fact" where
  "watch_files E path events = merge_watch E path events 0"

definition watch_symlinks :: "'u file_env \<Rightarrow> string \<Rightarrow> file_event_mask \<Rightarrow> ('u, unit) fact" where
  "watch_symlinks E path events = merge_watch E path events IN_DONT_FOLLOW"

definition watch_directories :: "'u file_env \<Rightarrow> string \<Rightarrow> file_event_mask \<Rightarrow> ('u, unit) fact" where
  "watch_directories E path events = merge_watch E path events IN_ONLYDIR"

definition stop_watch :: "'u file_env \<Rightarrow> string \<Rightarrow> ('u, unit) fact" where
  "stop_watch E watch_path w =
     (case find_path (fst (snd (path_and_pattern E watch_path))) w of
        None \<Rightarrow> (Inr (), w)
      | Some (k, wt) \<Rightarrow>
          (Inr (), w\<lparr>fc_os := snd (watch_remove_watch E wt (fc_os w)), f_watches := omap_erase k (f_watches w)\<rparr>))"

definition fc_get_socket :: "'u file_changed \<Rightarrow> int" where
  "fc_get_socket w = (if f_watches w = [] then -1 else f_inotify w)"

definition fc_is_reader :: "'u file_changed \<Rightarrow> bool" where
  "fc_is_reader w \<longleftrightarrow> True"

definition fc_set_enable :: "bool \<Rightarrow> 'u file_changed \<Rightarrow> 'u file_changed" where
  "fc_set_enable e w = w\<lparr>fc_enabled := e\<rparr>"

section \<open>Reading events\<close>

definition no_path :: string where
  "no_path = ''/''"

text \<open>
  An ignored watch is erased by its key and then through the iterator, which is invalid by then; it is invalid before
  when the callback stopped the watch.
\<close>

definition process_ievent :: "'u file_env \<Rightarrow> inotify_event \<Rightarrow> ('u, unit) fact" where
  "process_ievent E ev w =
     (let filename = (if ie_len ev > 0 then c_str (ie_name ev) else []) in
      if ie_wd ev = -1
      then send_event E no_path (if ie_mask ev AND IN_Q_OVERFLOW \<noteq> 0 then SNAP_FILE_CHANGED_EVENT_LOST_SYNC
             else SNAP_FILE_CHANGED_EVENT_ERROR) filename w
      else case map_of (f_watches w) (ie_wd ev) of
             None \<Rightarrow> act_bind (fc_system (fe_inotify_rm_watch E (ie_wd ev))) (\<lambda>_. act_return ()) w
           | Some wt \<Rightarrow>
               act_bind (act_when (match_patterns E wt filename)
                   (send_event E (f_watched_path wt) (mask_to_events (ie_mask ev)) filename)) (\<lambda>_ w.
                 if ie_mask ev AND IN_IGNORED = 0 then (Inr (), w)
                 else case map_of (f_watches w) (ie_wd ev) of
                        None \<Rightarrow> (Inl Undefined_behaviour, w)
                      | Some wt' \<Rightarrow> (Inl Undefined_behaviour,
                          w\<lparr>fc_os := snd (watch_remove_watch E wt' (fc_os w)), f_watches := omap_erase (ie_wd ev) (f_watches w)\<rparr>)) w)"

definition sizeof_inotify_event :: nat where
  "sizeof_inotify_event = 16"

text \<open>The loop over the buffer, from \<open>start\<close> to its size.\<close>

fun process_buffer :: "'u file_env \<Rightarrow> nat \<Rightarrow> nat \<Rightarrow> inotify_event list \<Rightarrow> ('u, unit) fact" where
  "process_buffer E start bytes [] w = (if start < bytes then (Inl Undefined_behaviour, w) else (Inr (), w))"
| "process_buffer E start bytes (ev # evs) w =
     (if start < bytes
      then if start + sizeof_inotify_event + ie_len ev > bytes then (Inl Unexpected_data, w)
           else act_bind (process_ievent E ev) (\<lambda>_. process_buffer E (start + sizeof_inotify_event + ie_len ev) bytes evs) w
      else (Inr (), w))"

fun fc_read_loop :: "nat \<Rightarrow> 'u file_env \<Rightarrow> ('u, unit) fact" where
  "fc_read_loop 0 E w = (Inl No_fuel, w)"
| "fc_read_loop (Suc fuel) E w =
     act_bind (fc_system (fe_read E)) (\<lambda>r.
       case r of
         Inl e \<Rightarrow> if e = EAGAIN then act_return () else fe_process_error E
       | Inr (evs, bytes) \<Rightarrow>
           if bytes = 0 then act_return ()
           else act_bind (process_buffer E 0 bytes evs) (\<lambda>_. fc_read_loop fuel E)) w"

definition fc_process_read :: "nat \<Rightarrow> 'u file_env \<Rightarrow> ('u, unit) fact" where
  "fc_process_read fuel E w = (if f_inotify w = -1 then (Inr (), w) else fc_read_loop fuel E w)"

section \<open>The masks\<close>

lemma and_or_zero: "(x :: 32 word) AND (a OR b) = 0 \<longleftrightarrow> x AND a = 0 \<and> x AND b = 0"
  by (simp add: bit.conj_disj_distrib) (metis or_eq_0_iff)

lemma and_or_zero': "k AND (x OR y) = (0 :: 32 word) \<longleftrightarrow> x AND k = 0 \<and> y AND k = 0"
  using and_or_zero [of k x y] by (simp add: and.commute)

lemma and_when_bits: "(b :: 32 word) AND when_bits e f m = when_bits e f (b AND m)"
  by (simp add: when_bits_def)

lemma when_bits_zero [simp]: "when_bits e f 0 = 0"
  by (simp add: when_bits_def)

lemma mask_to_events_values:
  "mask_to_events 0x1 = 0x2" "mask_to_events 0x2 = 0x4" "mask_to_events 0x4 = 0x1" "mask_to_events 0x8 = 0x60"
  "mask_to_events 0x10 = 0x20" "mask_to_events 0x20 = 0x20" "mask_to_events 0x40 = 0x10" "mask_to_events 0x80 = 0x8"
  "mask_to_events 0x100 = 0x8" "mask_to_events 0x200 = 0x10" "mask_to_events 0x400 = 0x10" "mask_to_events 0x800 = 0"
  by (simp_all add: mask_to_events_def when_bits_def file_event_defs in_defs)

text \<open>
  What is asked for is what is reported, but for a directory that moves. Of the bits that
  \<^verbatim>\<open>events_to_mask()\<close> asks the kernel for, each one comes back from \<^verbatim>\<open>mask_to_events()\<close> as an event that was asked for (a
  recursive watch asks for creations and deletions), except \<^verbatim>\<open>IN_MOVE_SELF\<close>: it is asked for with both, has no event, and
  the \<^verbatim>\<open>file_event\<close> made of it throws.\<close>

theorem requested_bits_reported:
  assumes mask': "events_to_mask events = Inr m" and bit: "b AND m = b" "b \<in> (\<lambda>n. push_bit n 1) ` {0..<12}"
  shows "if b = IN_MOVE_SELF then new_file_event path (mask_to_events b) filename = Inl Initialization_error
    else mask_to_events b AND
      (events OR when_bits events SNAP_FILE_CHANGED_EVENT_RECURSIVE (SNAP_FILE_CHANGED_EVENT_CREATED OR SNAP_FILE_CHANGED_EVENT_DELETED)) \<noteq> 0"
proof -
  have "b \<in> {0x1, 0x2, 0x4, 0x8, 0x10, 0x20, 0x40, 0x80, 0x100, 0x200, 0x400, 0x800}" using bit(2) by (auto simp: atLeastLessThan_nat_numeral)
  moreover have "events AND 0x60 = 0 \<longleftrightarrow> events AND 0x20 = 0 \<and> events AND 0x40 = 0" "events AND 0x108 = 0 \<longleftrightarrow> events AND 0x8 = 0 \<and> events AND 0x100 = 0"
    "events AND 0x110 = 0 \<longleftrightarrow> events AND 0x10 = 0 \<and> events AND 0x100 = 0"
    using and_or_zero [of events "0x20" "0x40"] and_or_zero [of events "0x8" "0x100"] and_or_zero [of events "0x10" "0x100"] by simp_all
  moreover have "b AND (when_bits events 1 4 OR when_bits events 2 1 OR when_bits events 4 2 OR when_bits events 0x108 0x980 OR
      when_bits events 0x110 0xE40 OR when_bits events 0x20 0x38 OR when_bits events 0x40 0x8) = b"
    using mask' bit(1) by (simp add: events_to_mask_def Let_def file_event_defs in_defs split: if_split_asm)
  then have "when_bits events 1 (b AND 4) OR when_bits events 2 (b AND 1) OR when_bits events 4 (b AND 2) OR
      when_bits events 0x108 (b AND 0x980) OR when_bits events 0x110 (b AND 0xE40) OR when_bits events 0x20 (b AND 0x38) OR
      when_bits events 0x40 (b AND 0x8) = b"
    by (simp only: bit.conj_disj_distrib and_when_bits)
  ultimately show ?thesis
    by (elim insertE emptyE; simp add: in_defs mask_to_events_values new_file_event_def; auto simp: and_or_zero' when_bits_def
        file_event_defs split: if_split_asm)
qed

section \<open>What is reported\<close>

text \<open>
  \<open>log\<close> is what the callback was given, \<open>queue\<close> the buffers the next reads return, none of them empty; behind them comes
  \<^verbatim>\<open>EAGAIN\<close>. The callback does not change the watches.
\<close>

definition buffer_size :: "inotify_event list \<Rightarrow> nat" where
  "buffer_size evs = sum_list (map (\<lambda>ev. sizeof_inotify_event + ie_len ev) evs)"

definition inotify_laws :: "('u \<Rightarrow> file_event list) \<Rightarrow> ('u \<Rightarrow> inotify_event list list) \<Rightarrow> 'u file_env \<Rightarrow> bool" where
  "inotify_laws log queue E \<longleftrightarrow>
     (\<forall>u. case queue u of
        [] \<Rightarrow> fst (fe_read E u) = Inl EAGAIN \<and> log (snd (fe_read E u)) = log u \<and> queue (snd (fe_read E u)) = []
      | evs # rest \<Rightarrow> fst (fe_read E u) = Inr (evs, buffer_size evs) \<and> evs \<noteq> [] \<and> log (snd (fe_read E u)) = log u \<and>
          queue (snd (fe_read E u)) = rest) \<and>
     (\<forall>wd u. log (snd (fe_inotify_rm_watch E wd u)) = log u \<and> queue (snd (fe_inotify_rm_watch E wd u)) = queue u) \<and>
     (\<forall>f w. \<exists>u. fe_process_event E f w = (Inr (), w\<lparr>fc_os := u\<rparr>) \<and> log u = log (fc_os w) @ [f] \<and> queue u = queue (fc_os w))"

lemma inotify_lawsD:
  assumes "inotify_laws log queue E"
  shows "queue u = [] \<Longrightarrow> \<exists>u'. fe_read E u = (Inl EAGAIN, u') \<and> log u' = log u \<and> queue u' = []"
    and "queue u = evs # rest \<Longrightarrow> \<exists>u'. fe_read E u = (Inr (evs, buffer_size evs), u') \<and> evs \<noteq> [] \<and> log u' = log u \<and> queue u' = rest"
    and "log (snd (fe_inotify_rm_watch E wd u)) = log u" "queue (snd (fe_inotify_rm_watch E wd u)) = queue u"
    and "\<exists>u. fe_process_event E f w = (Inr (), w\<lparr>fc_os := u\<rparr>) \<and> log u = log (fc_os w) @ [f] \<and> queue u = queue (fc_os w)"
proof -
  have "case queue u of
        [] \<Rightarrow> fst (fe_read E u) = Inl EAGAIN \<and> log (snd (fe_read E u)) = log u \<and> queue (snd (fe_read E u)) = []
      | evs # rest \<Rightarrow> fst (fe_read E u) = Inr (evs, buffer_size evs) \<and> evs \<noteq> [] \<and> log (snd (fe_read E u)) = log u \<and>
          queue (snd (fe_read E u)) = rest"
    using assms unfolding inotify_laws_def by blast
  then show "queue u = [] \<Longrightarrow> \<exists>u'. fe_read E u = (Inl EAGAIN, u') \<and> log u' = log u \<and> queue u' = []"
    and "queue u = evs # rest \<Longrightarrow> \<exists>u'. fe_read E u = (Inr (evs, buffer_size evs), u') \<and> evs \<noteq> [] \<and> log u' = log u \<and> queue u' = rest"
    by (cases "fe_read E u"; simp)+
qed (use assms in \<open>unfold inotify_laws_def, blast\<close>)+

definition ievent_name :: "inotify_event \<Rightarrow> string" where
  "ievent_name ev = (if ie_len ev > 0 then c_str (ie_name ev) else [])"

text \<open>What an event is to give, over the table of the watches.\<close>

definition reported :: "'u file_env \<Rightarrow> (int \<times> watch) list \<Rightarrow> inotify_event \<Rightarrow> file_event list" where
  "reported E watches ev =
     (if ie_wd ev = -1
      then [\<lparr>fe_watched_path = ''/'', fe_events = if ie_mask ev AND IN_Q_OVERFLOW \<noteq> 0 then SNAP_FILE_CHANGED_EVENT_LOST_SYNC
              else SNAP_FILE_CHANGED_EVENT_ERROR, fe_filename = ievent_name ev\<rparr>]
      else case map_of watches (ie_wd ev) of
             None \<Rightarrow> []
           | Some wt \<Rightarrow> if match_patterns E wt (ievent_name ev)
               then [\<lparr>fe_watched_path = f_watched_path wt, fe_events = mask_to_events (ie_mask ev), fe_filename = ievent_name ev\<rparr>] else [])"

definition reportable :: "(int \<times> watch) list \<Rightarrow> inotify_event \<Rightarrow> bool" where
  "reportable watches ev \<longleftrightarrow>
     (case map_of watches (ie_wd ev) of
        None \<Rightarrow> True
      | Some wt \<Rightarrow> f_watched_path wt \<noteq> [] \<and> ie_mask ev AND IN_IGNORED = 0 \<and> mask_to_events (ie_mask ev) \<noteq> 0)"

lemma send_event_logs:
  assumes "inotify_laws log queue E" "path \<noteq> []" "ev \<noteq> 0"
  shows "\<exists>u. send_event E path ev name w = (Inr (), w\<lparr>fc_os := u\<rparr>) \<and>
    log u = log (fc_os w) @ [\<lparr>fe_watched_path = path, fe_events = ev, fe_filename = name\<rparr>] \<and> queue u = queue (fc_os w)"
  using inotify_lawsD(5) [OF assms(1)] assms(2,3)
  by (simp add: send_event_def act_bind_def act_lift_def new_file_event_def file_event_defs)

lemma process_ievent_reported:
  assumes E: "inotify_laws log queue E" and ev: "reportable (f_watches w) ev"
  shows "\<exists>u. process_ievent E ev w = (Inr (), w\<lparr>fc_os := u\<rparr>) \<and> log u = log (fc_os w) @ reported E (f_watches w) ev \<and>
    queue u = queue (fc_os w)"
proof (cases "ie_wd ev = -1")
  case True
  have "(if ie_mask ev AND IN_Q_OVERFLOW \<noteq> 0 then SNAP_FILE_CHANGED_EVENT_LOST_SYNC else SNAP_FILE_CHANGED_EVENT_ERROR) \<noteq> 0"
    by (simp add: file_event_defs)
  from send_event_logs [OF E _ this, of no_path "ievent_name ev" w] show ?thesis
    using True by (simp add: process_ievent_def reported_def ievent_name_def no_path_def)
next
  case wd: False
  show ?thesis
  proof (cases "map_of (f_watches w) (ie_wd ev)")
    case None
    then show ?thesis using wd inotify_lawsD(3,4) [OF E, of "ie_wd ev" "fc_os w"]
      by (auto simp: process_ievent_def reported_def fc_system_def act_bind_def act_return_def split: prod.split)
  next
    case (Some wt)
    then have ok: "f_watched_path wt \<noteq> []" "ie_mask ev AND IN_IGNORED = 0" "mask_to_events (ie_mask ev) \<noteq> 0"
      using ev by (simp_all add: reportable_def)
    have step: "process_ievent E ev w = (if match_patterns E wt (ievent_name ev)
        then send_event E (f_watched_path wt) (mask_to_events (ie_mask ev)) (ievent_name ev) w else (Inr (), w))"
      using wd Some ok(2) by (auto simp: process_ievent_def act_when_def act_bind_def act_return_def ievent_name_def split: prod.split sum.split)
    show ?thesis
    proof (cases "match_patterns E wt (ievent_name ev)")
      case True
      then show ?thesis using step wd Some send_event_logs [OF E ok(1,3), of "ievent_name ev" w] by (simp add: reported_def)
    next
      case False
      then show ?thesis using step wd Some by (intro exI [of _ "fc_os w"]) (simp add: reported_def)
    qed
  qed
qed

lemma process_buffer_reported:
  assumes E: "inotify_laws log queue E"
  shows "\<forall>ev \<in> set evs. reportable (f_watches w) ev \<Longrightarrow>
    \<exists>u. process_buffer E start (start + buffer_size evs) evs w = (Inr (), w\<lparr>fc_os := u\<rparr>) \<and>
      log u = log (fc_os w) @ concat (map (reported E (f_watches w)) evs) \<and> queue u = queue (fc_os w)"
proof (induction evs arbitrary: start w)
  case Nil
  show ?case by (intro exI [of _ "fc_os w"]) (simp add: buffer_size_def)
next
  case (Cons ev evs)
  obtain u where u: "process_ievent E ev w = (Inr (), w\<lparr>fc_os := u\<rparr>)" "log u = log (fc_os w) @ reported E (f_watches w) ev"
      "queue u = queue (fc_os w)"
    using process_ievent_reported [OF E, of w ev] Cons.prems by auto
  let ?start = "start + sizeof_inotify_event + ie_len ev"
  have size: "start + buffer_size (ev # evs) = ?start + buffer_size evs" by (simp add: buffer_size_def)
  have "process_buffer E start (?start + buffer_size evs) (ev # evs) w =
      process_buffer E ?start (?start + buffer_size evs) evs (w\<lparr>fc_os := u\<rparr>)"
    using u(1) by (simp add: act_bind_def sizeof_inotify_event_def)
  then have "process_buffer E start (start + buffer_size (ev # evs)) (ev # evs) w =
      process_buffer E ?start (?start + buffer_size evs) evs (w\<lparr>fc_os := u\<rparr>)" by (simp only: size)
  then show ?case using Cons.IH [of "w\<lparr>fc_os := u\<rparr>" ?start] Cons.prems u(2,3) by auto
qed

text \<open>
  C24 (functional): the events of the kernel reach the program. With \<open>n\<close> buffers in the queue of \<^verbatim>\<open>inotify\<close>,
  \<^verbatim>\<open>process_read()\<close> returns after \<open>n + 1\<close> reads with the queue empty, and the callback was given, in the order of the
  kernel, exactly the events of the watches in the table whose name matches a pattern of the watch, with the path of the
  watch and the events of the mask, an overflow as a loss of synchronisation. Every event of a watch in the table is
  assumed to have an event of ours and not to say that the watch is ignored.\<close>

theorem file_events_reported:
  assumes E: "inotify_laws log queue E" and fd: "f_inotify w \<noteq> -1"
    and evs: "\<forall>ev \<in> set (concat (queue (fc_os w))). reportable (f_watches w) ev"
    and fuel: "fuel > length (queue (fc_os w))"
  shows "\<exists>u. fc_process_read fuel E w = (Inr (), w\<lparr>fc_os := u\<rparr>) \<and> queue u = [] \<and>
    log u = log (fc_os w) @ concat (map (reported E (f_watches w)) (concat (queue (fc_os w))))"
proof -
  have "\<exists>u. fc_read_loop fuel E w = (Inr (), w\<lparr>fc_os := u\<rparr>) \<and> queue u = [] \<and>
      log u = log (fc_os w) @ concat (map (reported E (f_watches w)) (concat (queue (fc_os w))))"
    using evs fuel
  proof (induction fuel arbitrary: w)
    case (Suc fuel)
    show ?case
    proof (cases "queue (fc_os w)")
      case Nil
      then show ?thesis using inotify_lawsD(1) [OF E, of "fc_os w"]
        by (auto simp: fc_system_def act_bind_def act_return_def)
    next
      case (Cons evs rest)
      obtain u1 where u1: "fe_read E (fc_os w) = (Inr (evs, buffer_size evs), u1)" "evs \<noteq> []" "log u1 = log (fc_os w)" "queue u1 = rest"
        using inotify_lawsD(2) [OF E Cons] by blast
      have size: "buffer_size evs \<noteq> 0" using u1(2) by (cases evs) (simp_all add: buffer_size_def sizeof_inotify_event_def)
      obtain u2 where u2: "process_buffer E 0 (buffer_size evs) evs (w\<lparr>fc_os := u1\<rparr>) = (Inr (), w\<lparr>fc_os := u2\<rparr>)"
          "log u2 = log u1 @ concat (map (reported E (f_watches w)) evs)" "queue u2 = rest"
        using process_buffer_reported [OF E, of evs "w\<lparr>fc_os := u1\<rparr>" 0] Suc.prems(1) Cons u1(4) by auto
      have "fc_read_loop (Suc fuel) E w = fc_read_loop fuel E (w\<lparr>fc_os := u2\<rparr>)"
        using u1(1) size u2(1) by (simp add: fc_system_def act_bind_def)
      then show ?thesis using Suc.IH [of "w\<lparr>fc_os := u2\<rparr>"] Suc.prems Cons u1(3) u2(2,3) by auto
    qed
  qed simp
  then show ?thesis using fd by (simp add: fc_process_read_def)
qed

section \<open>What is not\<close>

text \<open>
  C40 (error): a path watched twice is not watched any more. The second call replaces the watch of the kernel by a new one,
  with a new descriptor, and leaves the entry under the old one. An event of the new descriptor finds no entry: nothing is
  reported and the watch is removed from the kernel.\<close>

theorem merged_watch_is_lost:
  assumes path: "snd (path_and_pattern E watched) = (path, pattern)" and entry: "find_path path w = Some (k, wt)"
    and mask': "events_to_mask events = Inr m" "(f_events wt) AND SNAP_FILE_CHANGED_EVENT_EXISTS = 0"
    and rm: "f_watch wt = k" "k \<noteq> -1"
    and fresh: "\<And>p f u. fst (fe_inotify_add_watch E p f u) = wd" "wd \<noteq> -1" "wd \<notin> fst ` set (f_watches w)"
    and ev: "ie_wd ev = wd"
  shows "\<exists>w'. watch_files E watched events w = (Inr (), w') \<and> fst ` set (f_watches w') = fst ` set (f_watches w) \<and>
    process_ievent E ev w' = (Inr (), w'\<lparr>fc_os := snd (fe_inotify_rm_watch E wd (fc_os w'))\<rparr>)"
proof -
  obtain wt' u where merge: "watch_merge_watch E pattern events 0 wt (fc_os w) = (Inr (), wt', u)"
    and same: "f_events wt' = f_events wt"
  proof -
    have "watch_add_watch E x v = (Inr (), x\<lparr>f_watch := wd\<rparr>, snd (fe_inotify_add_watch E (f_watched_path x) (f_mask x) v))" for x v
      using fresh(1) [of "f_watched_path x" "f_mask x" v] fresh(2)
      by (cases "fe_inotify_add_watch E (f_watched_path x) (f_mask x) v") (simp add: watch_add_watch_def)
    moreover have "f_events (fst (watch_remove_watch E x v)) = f_events x" "f_events (merged_watch pattern m 0 wt) = f_events wt" for x v
      by (simp_all add: watch_remove_watch_def merged_watch_def)
    ultimately show ?thesis using that mask'(1) by (simp add: watch_merge_watch_def case_prod_beta)
  qed
  let ?w = "w\<lparr>fc_os := u, f_watches := omap_put k wt' (f_watches w)\<rparr>"
  have "(k, wt) \<in> set (f_watches w)" using entry by (auto simp: find_path_def find_Some_iff) (metis nth_mem)
  then have k: "k \<in> fst ` set (f_watches w)" by force
  have run: "watch_files E watched events w = (Inr (), ?w)"
    using path entry merge mask'(2) same by (simp add: watch_files_def merge_watch_def send_existing_def)
  have keys: "fst ` set (f_watches ?w) = fst ` set (f_watches w)" using k by (simp add: set_fst_omap_put insert_absorb)
  then have "map_of (f_watches ?w) wd = None" using fresh(3) by (simp only: map_of_eq_None_iff) simp
  then have "process_ievent E ev ?w = (Inr (), ?w\<lparr>fc_os := snd (fe_inotify_rm_watch E wd (fc_os ?w))\<rparr>)"
    using fresh(2) ev by (simp add: process_ievent_def fc_system_def act_bind_def act_return_def split: prod.split)
  then show ?thesis using run keys by blast
qed

text \<open>
  A watch that ends is undefined behaviour. When the kernel says that a watch of the table is ignored, because its
  file was deleted or unmounted, the entry is erased by its key and then again through the iterator to it.\<close>

theorem ignored_watch_is_undefined:
  assumes entry: "map_of (f_watches w) (ie_wd ev) = Some wt" "ie_wd ev \<noteq> -1" "f_watched_path wt \<noteq> []"
    and ignored: "ie_mask ev AND IN_IGNORED \<noteq> 0"
    and callback: "\<And>f w. fst (fe_process_event E f w) = Inr ()"
  shows "fst (process_ievent E ev w) = Inl Undefined_behaviour"
proof -
  have "mask_to_events (ie_mask ev) \<noteq> 0"
    using ignored by (auto simp: mask_to_events_def when_bits_def or_eq_0_iff file_event_defs)
  then have "fst (send_event E (f_watched_path wt) (mask_to_events (ie_mask ev)) name w) = Inr ()" for name
    using entry(3) callback by (simp add: send_event_def act_bind_def act_lift_def new_file_event_def file_event_defs)
  then have "fst (act_when (match_patterns E wt (ievent_name ev))
      (send_event E (f_watched_path wt) (mask_to_events (ie_mask ev)) (ievent_name ev)) w) = Inr ()"
    by (simp add: act_when_def act_return_def)
  then obtain w1 where "act_when (match_patterns E wt (ievent_name ev))
      (send_event E (f_watched_path wt) (mask_to_events (ie_mask ev)) (ievent_name ev)) w = (Inr (), w1)"
    by (metis prod.collapse)
  then show ?thesis using entry ignored
    by (simp add: process_ievent_def act_bind_def ievent_name_def [symmetric] split: option.split)
qed

section \<open>A kernel to try the theorems on\<close>

text \<open>The events given to the program and the buffers to read. Every watch set gets the descriptor 2; patterns match themselves.\<close>

definition demo_file_env :: "(file_event list \<times> inotify_event list list) file_env" where
  "demo_file_env = \<lparr>fe_inotify_add_watch = (\<lambda>p m u. (2, u)), fe_inotify_rm_watch = (\<lambda>wd u. (0, u)),
     fe_read = (\<lambda>(l, q). case filter (\<lambda>evs. evs \<noteq> []) q of [] \<Rightarrow> (Inl EAGAIN, l, []) | evs # rest \<Rightarrow> (Inr (evs, buffer_size evs), l, rest)),
     fe_fnmatch = (=), fe_is_directory = (\<lambda>p u. True), fe_glob = (\<lambda>p u. None), fe_basename = (\<lambda>p. ''b''), fe_dirname = (\<lambda>p. ''/a''),
     fe_has_pattern = (\<lambda>p. CHR ''*'' \<in> set p),
     fe_process_event = (\<lambda>f w. (Inr (), w\<lparr>fc_os := (fst (fc_os w) @ [f], snd (fc_os w))\<rparr>)), fe_process_error = act_return ()\<rparr>"

definition demo_watch :: watch where
  "demo_watch = \<lparr>f_watched_path = ''/a/b'', f_patterns = [], f_events = SNAP_FILE_CHANGED_EVENT_WRITE,
     f_mask = IN_MODIFY OR IN_EXCL_UNLINK, f_watch = 1\<rparr>"

definition demo_ievent :: "int \<Rightarrow> 32 word \<Rightarrow> inotify_event" where
  "demo_ievent wd m = \<lparr>ie_wd = wd, ie_mask = m, ie_len = 0, ie_name = []\<rparr>"

definition demo_file_changed :: "(file_event list \<times> inotify_event list list) file_changed" where
  "demo_file_changed = \<lparr>f_inotify = 5, f_watches = [(1, demo_watch)], fc_enabled = True,
     fc_os = ([], [[demo_ievent 1 IN_MODIFY, demo_ievent 4 IN_MODIFY], [demo_ievent (-1) IN_Q_OVERFLOW]])\<rparr>"

lemma demo_inotify_laws: "inotify_laws fst (\<lambda>u. filter (\<lambda>evs. evs \<noteq> []) (snd u)) demo_file_env"
proof -
  have rest: "filter (\<lambda>evs. evs \<noteq> []) ys = ys \<and> x \<noteq> []" if "filter (\<lambda>evs. evs \<noteq> []) xs = x # ys" for x ys and xs :: "inotify_event list list"
  proof -
    have "\<forall>z \<in> set (x # ys). z \<noteq> []" using arg_cong [OF that, of set] by auto
    then show ?thesis by (simp add: filter_id_conv)
  qed
  have "case filter (\<lambda>evs. evs \<noteq> []) (snd u) of
        [] \<Rightarrow> fst (fe_read demo_file_env u) = Inl EAGAIN \<and> fst (snd (fe_read demo_file_env u)) = fst u \<and>
          filter (\<lambda>evs. evs \<noteq> []) (snd (snd (fe_read demo_file_env u))) = []
      | evs # ys \<Rightarrow> fst (fe_read demo_file_env u) = Inr (evs, buffer_size evs) \<and> evs \<noteq> [] \<and> fst (snd (fe_read demo_file_env u)) = fst u \<and>
          filter (\<lambda>evs. evs \<noteq> []) (snd (snd (fe_read demo_file_env u))) = ys" for u
  proof (cases "filter (\<lambda>evs. evs \<noteq> []) (snd u)")
    case Nil
    then show ?thesis by (cases u) (simp add: demo_file_env_def)
  next
    case (Cons evs ys)
    then show ?thesis using rest [OF Cons] by (cases u) (simp add: demo_file_env_def)
  qed
  moreover have "\<exists>u. fe_process_event demo_file_env f w = (Inr (), w\<lparr>fc_os := u\<rparr>) \<and> fst u = fst (fc_os w) @ [f] \<and>
      filter (\<lambda>evs. evs \<noteq> []) (snd u) = filter (\<lambda>evs. evs \<noteq> []) (snd (fc_os w))" for f w
    by (intro exI [of _ "(fst (fc_os w) @ [f], snd (fc_os w))"]) (simp add: demo_file_env_def)
  ultimately show ?thesis unfolding inotify_laws_def by (simp add: demo_file_env_def)
qed

theorem requested_bits_reported_witness:
  "new_file_event ''/a'' (mask_to_events IN_MOVE_SELF) [] = Inl Initialization_error"
proof -
  have "IN_MOVE_SELF \<in> (\<lambda>n. push_bit n 1) ` {0..<12}" by (rule image_eqI [of _ _ 11]) (simp_all add: in_defs)
  then show ?thesis
    using requested_bits_reported [of SNAP_FILE_CHANGED_EVENT_CREATED "IN_CREATE OR IN_MOVED_TO OR IN_MOVE_SELF" IN_MOVE_SELF "''/a''" "[]"]
    by (simp add: events_to_mask_def when_bits_def file_event_defs in_defs)
qed

theorem file_events_reported_witness:
  "\<exists>u. fc_process_read 3 demo_file_env demo_file_changed = (Inr (), demo_file_changed\<lparr>fc_os := u\<rparr>) \<and>
    fst u = [\<lparr>fe_watched_path = ''/a/b'', fe_events = SNAP_FILE_CHANGED_EVENT_WRITE, fe_filename = []\<rparr>,
      \<lparr>fe_watched_path = ''/'', fe_events = SNAP_FILE_CHANGED_EVENT_LOST_SYNC, fe_filename = []\<rparr>]"
proof -
  have "\<exists>u. fc_process_read 3 demo_file_env demo_file_changed = (Inr (), demo_file_changed\<lparr>fc_os := u\<rparr>) \<and>
      filter (\<lambda>evs. evs \<noteq> []) (snd u) = [] \<and>
      fst u = fst (fc_os demo_file_changed) @ concat (map (reported demo_file_env (f_watches demo_file_changed))
        (concat (filter (\<lambda>evs. evs \<noteq> []) (snd (fc_os demo_file_changed)))))"
    by (rule file_events_reported [OF demo_inotify_laws])
      (simp_all add: demo_file_changed_def demo_ievent_def reportable_def demo_watch_def mask_to_events_def when_bits_def
        file_event_defs in_defs)
  then show ?thesis
    by (simp add: demo_file_changed_def demo_ievent_def demo_watch_def reported_def match_patterns_def ievent_name_def
        mask_to_events_def when_bits_def file_event_defs in_defs) blast
qed

theorem merged_watch_is_lost_witness:
  "\<exists>w'. watch_files demo_file_env ''/a/b'' SNAP_FILE_CHANGED_EVENT_READ demo_file_changed = (Inr (), w') \<and>
    fst ` set (f_watches w') = fst ` set (f_watches demo_file_changed) \<and>
    process_ievent demo_file_env (demo_ievent 2 IN_MODIFY) w' =
      (Inr (), w'\<lparr>fc_os := snd (fe_inotify_rm_watch demo_file_env 2 (fc_os w'))\<rparr>)"
  by (rule merged_watch_is_lost [where path = "''/a/b''" and pattern = "''*''" and k = 1 and wt = demo_watch and m = IN_ACCESS])
    (simp_all add: path_and_pattern_def demo_file_env_def find_path_def demo_file_changed_def demo_watch_def events_to_mask_def
      when_bits_def file_event_defs in_defs demo_ievent_def)

theorem ignored_watch_is_undefined_witness:
  "fst (process_ievent demo_file_env (demo_ievent 1 IN_IGNORED) demo_file_changed) = Inl Undefined_behaviour"
  by (rule ignored_watch_is_undefined [where wt = demo_watch])
    (simp_all add: demo_file_env_def demo_file_changed_def demo_watch_def demo_ievent_def in_defs)

end
