(* ===== verification/Process_Info.thy ===== *)
theory Process_Info
  imports Message
begin

unbundle bit_operations_syntax

text \<open>
  What \<^verbatim>\<open>/proc\<close> says of a process: \<^verbatim>\<open>cppprocess/process_info.cpp\<close> and \<^verbatim>\<open>cppprocess/process_list.cpp\<close>. The
  contents of the files are parameters; \<^verbatim>\<open>snapdev::tokenize_string()\<close> is one too.
\<close>

section \<open>The record\<close>

text \<open>The numbers are converted to the widths of the fields when they are stored.\<close>

record process_info =
  f_pid :: int
  f_name :: string
  f_state :: char
  f_ppid :: int
  f_pgid :: int
  f_session :: int
  f_tty_major :: int
  f_tty_minor :: int
  f_fp_group :: int
  f_kernel_flags :: int
  f_minor_faults :: int
  f_children_minor_faults :: int
  f_major_faults :: int
  f_children_major_faults :: int
  f_user_time :: int
  f_system_time :: int
  f_children_user_time :: int
  f_children_system_time :: int
  f_priority :: int
  f_nice :: int
  f_num_threads :: int
  f_start_time :: int
  f_virtual_size :: int
  f_rss :: int
  f_rss_limit :: int
  f_start_code :: int
  f_end_code :: int
  f_start_stack :: int
  f_kernel_esp :: int
  f_kernel_eip :: int
  f_wchan :: int
  f_exit_signal :: int
  f_processor :: int
  f_rt_priority :: int
  f_schedule_policy :: int
  f_delayacct_blkio_ticks :: int
  f_guest_time :: int
  f_children_guest_time :: int
  f_start_data :: int
  f_end_data :: int
  f_start_break :: int
  f_arg_start :: int
  f_arg_end :: int
  f_env_start :: int
  f_env_end :: int
  pi_exit_code :: int
  f_args :: "string list"

definition new_process_info :: "int \<Rightarrow> process_info" where
  "new_process_info pid = \<lparr>f_pid = pid, f_name = [], f_state = CHR ''?'',
     f_ppid = -1, f_pgid = 2 ^ 32 - 1, f_session = -1, f_tty_major = -1, f_tty_minor = -1,
     f_fp_group = 2 ^ 32 - 1, f_kernel_flags = -1, f_minor_faults = 2 ^ 64 - 1,
     f_children_minor_faults = 2 ^ 64 - 1, f_major_faults = 2 ^ 64 - 1, f_children_major_faults = 2 ^ 64 - 1,
     f_user_time = -1, f_system_time = -1, f_children_user_time = -1, f_children_system_time = -1,
     f_priority = -1, f_nice = -1, f_num_threads = -1, f_start_time = -1, f_virtual_size = -1, f_rss = -1,
     f_rss_limit = -1, f_start_code = -1, f_end_code = -1, f_start_stack = -1, f_kernel_esp = -1,
     f_kernel_eip = -1, f_wchan = -1, f_exit_signal = -1, f_processor = -1, f_rt_priority = -1,
     f_schedule_policy = -1, f_delayacct_blkio_ticks = -1, f_guest_time = -1, f_children_guest_time = -1,
     f_start_data = -1, f_end_data = -1, f_start_break = -1, f_arg_start = -1, f_arg_end = -1,
     f_env_start = -1, f_env_end = -1, pi_exit_code = -1, f_args = []\<rparr>"

definition to_i32 :: "64 word \<Rightarrow> int" where "to_i32 v = sint (ucast v :: 32 word)"
definition to_u32 :: "64 word \<Rightarrow> int" where "to_u32 v = uint (ucast v :: 32 word)"
definition to_i64 :: "64 word \<Rightarrow> int" where "to_i64 v = sint v"
definition to_u64 :: "64 word \<Rightarrow> int" where "to_u64 v = uint v"

text \<open>The files: the contents of \<^verbatim>\<open>stat\<close> and \<^verbatim>\<open>cmdline\<close>, \<open>None\<close> when they cannot be read.\<close>

record proc_env =
  pe_is_directory :: "int \<Rightarrow> bool"
  pe_stat :: "int \<Rightarrow> string option"
  pe_cmdline :: "int \<Rightarrow> string option"
  pe_tokenize :: "string \<Rightarrow> string list"

section \<open>Numbers\<close>

text \<open>\<^verbatim>\<open>std::stoull()\<close>: spaces, a sign, digits; a negative number is the two's complement. What follows is ignored.\<close>

definition is_space :: "char \<Rightarrow> bool" where
  "is_space c \<longleftrightarrow> c = CHR '' '' \<or> CHR 0x09 \<le> c \<and> c \<le> CHR 0x0D"

definition digits_value :: "string \<Rightarrow> nat" where
  "digits_value ds = foldl (\<lambda>n c. n * 10 + (of_char c - 48)) 0 ds"

definition stoull :: "string \<Rightarrow> 64 word result" where
  "stoull s =
     (let s1 = dropWhile is_space s;
          neg = (s1 \<noteq> [] \<and> hd s1 = CHR ''-'');
          s2 = (if s1 \<noteq> [] \<and> (hd s1 = CHR ''-'' \<or> hd s1 = CHR ''+'') then tl s1 else s1);
          ds = takeWhile is_digit s2
      in if ds = [] then Inl Invalid_parameter
         else if digits_value ds \<ge> 2 ^ 64 then Inl Out_of_range
         else Inr (if neg then - of_nat (digits_value ds) else of_nat (digits_value ds)))"

section \<open>Reading\<close>

text \<open>The constructor's \<^verbatim>\<open>pid\<close> is forgotten once the process is gone.\<close>

definition get_pid :: "proc_env \<Rightarrow> process_info \<Rightarrow> int \<times> process_info" where
  "get_pid E i =
     (if f_pid i \<noteq> -1 \<and> \<not> pe_is_directory E (f_pid i) then (-1, i\<lparr>f_pid := -1\<rparr>) else (f_pid i, i))"

definition stat_fields :: "64 word list \<Rightarrow> process_info \<Rightarrow> process_info" where
  "stat_fields values i =
     (let get_value = (\<lambda>idx. if idx - 4 \<ge> length values then 0 else values ! (idx - 4));
          tty = ucast (get_value 7) :: 32 word
      in i\<lparr>
     f_ppid := to_i32 (get_value 4), f_pgid := to_u32 (get_value 5), f_session := to_i32 (get_value 6),
     f_tty_major := uint (drop_bit 8 tty AND 0xffff),
     f_tty_minor := uint ((drop_bit 16 tty AND 0xff00) OR (tty AND 0x00ff)),
     f_fp_group := to_u32 (get_value 8), f_kernel_flags := to_i32 (get_value 9),
     f_minor_faults := to_u64 (get_value 10), f_children_minor_faults := to_u64 (get_value 11),
     f_major_faults := to_u64 (get_value 12), f_children_major_faults := to_u64 (get_value 13),
     f_user_time := to_i32 (get_value 14), f_system_time := to_i32 (get_value 15),
     f_children_user_time := to_i32 (get_value 16), f_children_system_time := to_i32 (get_value 17),
     f_priority := to_i32 (get_value 18), f_nice := to_i32 (get_value 19),
     f_num_threads := to_i32 (get_value 20), f_start_time := to_i64 (get_value 22),
     f_virtual_size := to_i64 (get_value 23), f_rss := to_i64 (get_value 24),
     f_rss_limit := to_i64 (get_value 25), f_start_code := to_i64 (get_value 26),
     f_end_code := to_i64 (get_value 27), f_start_stack := to_i64 (get_value 28),
     f_kernel_esp := to_i64 (get_value 29), f_kernel_eip := to_i64 (get_value 30),
     f_wchan := to_i32 (get_value 35), f_exit_signal := to_i32 (get_value 38),
     f_processor := to_i32 (get_value 39), f_rt_priority := to_i32 (get_value 40),
     f_schedule_policy := to_i32 (get_value 41), f_delayacct_blkio_ticks := to_i32 (get_value 42),
     f_guest_time := to_i64 (get_value 43), f_children_guest_time := to_i64 (get_value 44),
     f_start_data := to_i64 (get_value 45), f_end_data := to_i64 (get_value 46),
     f_start_break := to_i64 (get_value 47), f_arg_start := to_i64 (get_value 48),
     f_arg_end := to_i64 (get_value 49), f_env_start := to_i64 (get_value 50),
     f_env_end := to_i64 (get_value 51), pi_exit_code := to_i32 (get_value 52)\<rparr>)"

text \<open>\<^verbatim>\<open>find()\<close> and \<^verbatim>\<open>rfind()\<close>; \<open>None\<close> is \<^verbatim>\<open>npos\<close>.\<close>

definition find_char :: "char \<Rightarrow> string \<Rightarrow> nat option" where
  "find_char c s = (if c \<in> set s then Some (length (takeWhile (\<lambda>d. d \<noteq> c) s)) else None)"

definition rfind_char :: "char \<Rightarrow> string \<Rightarrow> nat option" where
  "rfind_char c s = (if c \<in> set s then Some (length s - 1 - length (takeWhile (\<lambda>d. d \<noteq> c) (rev s))) else None)"

text \<open>The fields behind the name.\<close>

definition parse_stat_fields :: "proc_env \<Rightarrow> string \<Rightarrow> process_info \<Rightarrow> unit result \<times> process_info" where
  "parse_stat_fields E remaining i =
     (let fields = pe_tokenize E remaining;
          i1 = i\<lparr>f_state := (case fields of [] \<Rightarrow> CHR ''?'' | [] # _ \<Rightarrow> CHR 0x00 | (c # _) # _ \<Rightarrow> c)\<rparr>
      in if length fields \<le> 1 then (Inr (), i1)
         else case res_map stoull (tl fields) of
                Inl e \<Rightarrow> (Inl e, i1)
              | Inr values \<Rightarrow> (Inr (), stat_fields values i1))"

text \<open>When the last parenthesis is before the first, the length wraps and the name is the rest of the line.\<close>

definition parse_stat :: "proc_env \<Rightarrow> int \<Rightarrow> string \<Rightarrow> process_info \<Rightarrow> unit result \<times> process_info" where
  "parse_stat E pid line i =
     (case (find_char CHR ''('' line, rfind_char CHR '')'' line) of
        (Some first_paren, Some last_paren) \<Rightarrow>
          if first_paren < 2 \<or> last_paren > 100 then (Inr (), i)
          else if take (first_paren - 1) line \<noteq> std_to_string pid then (Inr (), i)
          else
            let i1 = i\<lparr>f_name := drop (first_paren + 1) (if first_paren < last_paren then take last_paren line else line)\<rparr>
            in if last_paren + 2 > length line then (Inl Out_of_range, i1)
               else parse_stat_fields E (drop (last_paren + 2) line) i1
      | _ \<Rightarrow> (Inr (), i))"

definition load_stat :: "proc_env \<Rightarrow> bool \<Rightarrow> process_info \<Rightarrow> unit result \<times> process_info" where
  "load_stat E force i =
     (if f_ppid i \<noteq> -1 \<and> \<not> force then (Inr (), i)
      else case get_pid E i of (pid, i1) \<Rightarrow>
        if pid = -1 then (Inr (), i1)
        else case pe_stat E pid of
               None \<Rightarrow> (Inr (), i1)
             | Some line \<Rightarrow> parse_stat E pid line i1)"

text \<open>The arguments, each up to its NUL; the last one may have none.\<close>

function (sequential) cmdline_args :: "string \<Rightarrow> string list" where
  "cmdline_args l =
     (let s = takeWhile (\<lambda>c. c \<noteq> CHR 0x00) l; rest = drop (length s + 1) l
      in s # (if rest = [] then [] else cmdline_args rest))"
  by pat_completeness auto
termination by (relation "measure length") auto

declare cmdline_args.simps [simp del]

definition load_cmdline :: "proc_env \<Rightarrow> process_info \<Rightarrow> process_info" where
  "load_cmdline E i =
     (if f_args i \<noteq> [] then i
      else case get_pid E i of (pid, i1) \<Rightarrow>
        if pid = -1 then i1
        else case pe_cmdline E pid of
               None \<Rightarrow> i1
             | Some cmdline \<Rightarrow> i1\<lparr>f_args := cmdline_args cmdline\<rparr>)"

section \<open>The getters\<close>

definition stat_getter :: "(process_info \<Rightarrow> 'a) \<Rightarrow> bool \<Rightarrow> proc_env \<Rightarrow> process_info \<Rightarrow> 'a result \<times> process_info" where
  "stat_getter f force E i = (case load_stat E force i of (Inl e, i') \<Rightarrow> (Inl e, i') | (Inr _, i') \<Rightarrow> (Inr (f i'), i'))"

definition get_ppid :: "proc_env \<Rightarrow> process_info \<Rightarrow> int result \<times> process_info" where
  "get_ppid = stat_getter f_ppid False"

definition get_pgid :: "proc_env \<Rightarrow> process_info \<Rightarrow> int result \<times> process_info" where
  "get_pgid = stat_getter (\<lambda>i. sint (of_int (f_pgid i) :: 32 word)) False"

definition get_page_faults :: "proc_env \<Rightarrow> process_info \<Rightarrow> (int \<times> int) result \<times> process_info" where
  "get_page_faults = stat_getter (\<lambda>i. (f_major_faults i, f_minor_faults i)) False"

definition get_state :: "bool \<Rightarrow> proc_env \<Rightarrow> process_info \<Rightarrow> char result \<times> process_info" where
  "get_state force = stat_getter f_state force"

definition get_times :: "proc_env \<Rightarrow> process_info \<Rightarrow> (int \<times> int \<times> int \<times> int) result \<times> process_info" where
  "get_times = stat_getter (\<lambda>i. (f_user_time i mod 2 ^ 64, f_system_time i mod 2 ^ 64, f_children_user_time i mod 2 ^ 64,
     f_children_system_time i mod 2 ^ 64)) False"

definition get_priority :: "proc_env \<Rightarrow> process_info \<Rightarrow> int result \<times> process_info" where
  "get_priority = stat_getter f_priority False"

definition get_nice :: "proc_env \<Rightarrow> process_info \<Rightarrow> int result \<times> process_info" where
  "get_nice = stat_getter f_nice False"

definition get_total_size :: "proc_env \<Rightarrow> process_info \<Rightarrow> int result \<times> process_info" where
  "get_total_size = stat_getter (\<lambda>i. (f_rss i + f_end_code i - f_start_code i + f_end_data i - f_start_data i) mod 2 ^ 64) False"

definition get_rss_size :: "proc_env \<Rightarrow> process_info \<Rightarrow> int result \<times> process_info" where
  "get_rss_size = stat_getter (\<lambda>i. f_rss i mod 2 ^ 64) False"

definition get_name :: "proc_env \<Rightarrow> process_info \<Rightarrow> string result \<times> process_info" where
  "get_name = stat_getter f_name False"

definition get_tty :: "proc_env \<Rightarrow> process_info \<Rightarrow> (int \<times> int) result \<times> process_info" where
  "get_tty = stat_getter (\<lambda>i. (f_tty_major i, f_tty_minor i)) False"

definition get_command :: "proc_env \<Rightarrow> process_info \<Rightarrow> string \<times> process_info" where
  "get_command E i = (let i' = load_cmdline E i in (case f_args i' of [] \<Rightarrow> [] | a # _ \<Rightarrow> a, i'))"

definition get_args_size :: "proc_env \<Rightarrow> process_info \<Rightarrow> nat \<times> process_info" where
  "get_args_size E i = (let i' = load_cmdline E i in (length (f_args i'), i'))"

text \<open>A negative index is a large number of type \<^verbatim>\<open>std::size_t\<close>.\<close>

definition get_arg :: "int \<Rightarrow> proc_env \<Rightarrow> process_info \<Rightarrow> string \<times> process_info" where
  "get_arg index E i =
     (case get_args_size E i of (n, i') \<Rightarrow> (if index < 0 \<or> nat index \<ge> n then [] else f_args i' ! nat index, i'))"

section \<open>The list of the processes\<close>

text \<open>The names \<^verbatim>\<open>glob()\<close> found are the argument. The conversion to \<^verbatim>\<open>pid_t\<close> has no test of its range.\<close>

definition pid_of_name :: "string \<Rightarrow> int option result" where
  "pid_of_name f =
     (if length f < 7 then Inr None
      else let ds = takeWhile is_digit (drop 6 f); v = digits_value ds
           in if v \<ge> 2 ^ 31 then Inl Undefined_behaviour
              else if drop 6 f \<noteq> ds \<or> v = 0 then Inr None
              else Inr (Some (int v)))"

type_synonym process_list = "(int \<times> process_info) list"

fun refresh_loop :: "string list \<Rightarrow> int set \<Rightarrow> process_list \<Rightarrow> (int set \<times> process_list) result" where
  "refresh_loop [] keys l = Inr (keys, l)"
| "refresh_loop (f # fs) keys l =
     res_bind (pid_of_name f) (\<lambda>p.
       case p of
         None \<Rightarrow> refresh_loop fs keys l
       | Some pid \<Rightarrow> refresh_loop fs (keys - {pid})
           (if map_of l pid = None then omap_put pid (new_process_info pid) l else l))"

definition refresh :: "string list \<Rightarrow> process_list \<Rightarrow> process_list result" where
  "refresh filenames l =
     res_bind (refresh_loop filenames (fst ` set l) l) (\<lambda>(keys, l'). Inr (filter (\<lambda>(k, i). k \<notin> keys) l'))"

definition find_pid :: "int \<Rightarrow> process_list \<Rightarrow> process_info option" where
  "find_pid pid l = map_of l pid"

text \<open>The first process, in the order of the numbers, whose command has the name; looking loads the commands.\<close>

fun find_basename :: "proc_env \<Rightarrow> (string \<Rightarrow> string) \<Rightarrow> string \<Rightarrow> process_list \<Rightarrow> process_info option \<times> process_list" where
  "find_basename E basename name [] = (None, [])"
| "find_basename E basename name ((k, i) # l) =
     (case get_command E i of (cmd, i') \<Rightarrow>
        if basename cmd = name then (Some i', (k, i') # l)
        else case find_basename E basename name l of (r, l') \<Rightarrow> (r, (k, i') # l'))"

text \<open>\<^verbatim>\<open>is_running()\<close>: \<open>alive\<close> says, second by second, whether \<^verbatim>\<open>kill()\<close> finds the process; one turn is one second, and the
  clock is read after each.\<close>

fun wait_for_death :: "nat \<Rightarrow> (nat \<Rightarrow> bool) \<Rightarrow> (nat \<Rightarrow> int) \<Rightarrow> int \<Rightarrow> nat \<Rightarrow> bool option" where
  "wait_for_death 0 alive clock deadline n = None"
| "wait_for_death (Suc fuel) alive clock deadline n =
     (if \<not> alive n then Some False
      else if deadline > clock n then wait_for_death fuel alive clock deadline (Suc n)
      else Some True)"

definition is_running :: "nat \<Rightarrow> bool \<Rightarrow> (nat \<Rightarrow> bool) \<Rightarrow> (nat \<Rightarrow> int) \<Rightarrow> nat \<Rightarrow> bool option" where
  "is_running fuel killed alive clock timeout =
     (if timeout = 0 \<or> \<not> killed then Some killed
      else wait_for_death fuel alive clock (clock 0 + int timeout) 1)"

section \<open>Numbers come back\<close>

lemma is_digit_char_of: "n < 10 \<Longrightarrow> is_digit (char_of (48 + n :: nat))"
  by (simp add: is_digit_def less_eq_char_def)

lemma nat_to_string_digits: "set (nat_to_string n) \<subseteq> Collect is_digit" "nat_to_string n \<noteq> []"
  by (induction n rule: nat_to_string.induct, subst nat_to_string.simps) (auto simp: is_digit_char_of nat_to_string.simps)

lemma digits_value_snoc: "digits_value (ds @ [c]) = digits_value ds * 10 + (of_char c - 48)"
  by (simp add: digits_value_def)

lemma digits_value_nat_to_string: "digits_value (nat_to_string n) = n"
proof (induction n rule: nat_to_string.induct)
  case (1 n)
  have one: "of_char (char_of (48 + d)) - 48 = d" if "d < 10" for d :: nat using that by simp
  show ?case
  proof (cases "n < 10")
    case True
    then show ?thesis using one [of n] digits_value_snoc [of "[]"] by (subst nat_to_string.simps) (simp add: digits_value_def)
  next
    case False
    then show ?thesis using 1 one [of "n mod 10"] by (subst nat_to_string.simps) (simp add: digits_value_snoc)
  qed
qed

lemma digit_props: "is_digit c \<Longrightarrow> \<not> is_space c \<and> c \<noteq> CHR ''-'' \<and> c \<noteq> CHR ''+'' \<and> c \<noteq> CHR ''('' \<and> c \<noteq> CHR '')'' \<and> c \<noteq> CHR '' ''"
  by (auto simp: is_digit_def is_space_def less_eq_char_def)

lemma stoull_to_string:
  assumes v: "\<bar>v\<bar> < 2 ^ 64" and rest: "rest = [] \<or> \<not> is_digit (hd rest)"
  shows "stoull (std_to_string v @ rest) = Inr (word_of_int v)"
proof -
  define ds where "ds = nat_to_string (nat \<bar>v\<bar>)"
  have ds: "set ds \<subseteq> Collect is_digit" "ds \<noteq> []" "digits_value ds = nat \<bar>v\<bar>"
    by (simp_all add: ds_def nat_to_string_digits digits_value_nat_to_string)
  have take: "takeWhile is_digit (ds @ rest) = ds"
    using ds(1) rest by (cases rest) (auto simp: takeWhile_append2 subset_iff)
  obtain d ds' where d: "ds = d # ds'" "is_digit d" using ds(1,2) by (cases ds) auto
  have range: "nat \<bar>v\<bar> < 2 ^ 64" using v by (simp add: nat_less_iff)
  show ?thesis
  proof (cases "v < 0")
    case True
    then have neg: "std_to_string v = CHR ''-'' # ds" by (simp add: std_to_string_def ds_def)
    have "v = - int (nat \<bar>v\<bar>)" using True by simp
    then have "- word_of_nat (nat \<bar>v\<bar>) = (word_of_int v :: 64 word)" by (metis of_int_minus of_int_of_nat_eq)
    moreover have "dropWhile is_space (CHR ''-'' # ds @ rest) = CHR ''-'' # ds @ rest" by (simp add: is_space_def less_eq_char_def)
    ultimately show ?thesis using take ds(2,3) range by (simp add: neg stoull_def Let_def del: dropWhile.simps)
  next
    case False
    then have pos: "std_to_string v = ds" by (simp add: std_to_string_def ds_def)
    have skip: "dropWhile is_space (ds @ rest) = ds @ rest" using d digit_props by simp
    have sign: "hd (ds @ rest) \<noteq> CHR ''-''" "hd (ds @ rest) \<noteq> CHR ''+''" "ds @ rest \<noteq> []" using d digit_props [OF d(2)] by simp_all
    have "v = int (nat \<bar>v\<bar>)" using False by simp
    then have "word_of_nat (nat \<bar>v\<bar>) = (word_of_int v :: 64 word)" by (metis of_int_of_nat_eq)
    then show ?thesis using take ds(2,3) range sign by (simp only: pos stoull_def Let_def skip) simp
  qed
qed

section \<open>The line of the kernel\<close>

text \<open>\<^verbatim>\<open>do_task_stat()\<close>: the number, the name in parentheses, and behind it the state and the values, separated by spaces.\<close>

fun join_spaces :: "string list \<Rightarrow> string" where
  "join_spaces [] = []"
| "join_spaces [t] = t"
| "join_spaces (t # ts) = t @ '' '' @ join_spaces ts"

definition stat_line :: "int \<Rightarrow> string \<Rightarrow> char \<Rightarrow> int list \<Rightarrow> string" where
  "stat_line pid name state values =
     std_to_string pid @ '' ('' @ name @ '') '' @ join_spaces ([state] # map std_to_string (butlast values) @ [std_to_string (last values) @ [CHR 0x0A]])"

definition tokenizes :: "proc_env \<Rightarrow> bool" where
  "tokenizes E \<longleftrightarrow> (\<forall>ts. (\<forall>t \<in> set ts. t \<noteq> [] \<and> CHR '' '' \<notin> set t) \<longrightarrow> pe_tokenize E (join_spaces ts) = ts)"

lemma std_to_string_chars: "set (std_to_string v) \<subseteq> insert (CHR ''-'') (Collect is_digit)" "std_to_string v \<noteq> []"
  using nat_to_string_digits by (auto simp: std_to_string_def)

lemma set_join_spaces: "set (join_spaces ts) \<subseteq> insert (CHR '' '') (\<Union> (set ` set ts))"
  by (induction ts rule: join_spaces.induct) auto

lemma takeWhile_to_char: "c \<notin> set xs \<Longrightarrow> takeWhile (\<lambda>d. d \<noteq> c) (xs @ c # ys) = xs"
  by (rule takeWhile_append_stop) auto

lemma find_char_append: "c \<notin> set xs \<Longrightarrow> find_char c (xs @ c # ys) = Some (length xs)"
  by (simp add: find_char_def takeWhile_to_char)

lemma rfind_char_append: "c \<notin> set ys \<Longrightarrow> rfind_char c (xs @ c # ys) = Some (length xs)"
  by (simp add: rfind_char_def takeWhile_to_char)

lemma stoull_values:
  assumes "values \<noteq> []" "\<forall>v \<in> set values. \<bar>v\<bar> < 2 ^ 64"
  shows "res_map stoull (map std_to_string (butlast values) @ [std_to_string (last values) @ [CHR 0x0A]]) = Inr (map word_of_int values)"
proof -
  have one: "stoull (std_to_string v) = Inr (word_of_int v)" "stoull (std_to_string v @ [CHR 0x0A]) = Inr (word_of_int v)"
    if "v \<in> set values" for v
    using assms(2) that stoull_to_string [of v "[]"] stoull_to_string [of v "[CHR 0x0A]"] by (simp_all add: is_digit_def less_eq_char_def)
  have "list_all2 (\<lambda>s w. stoull s = Inr w) (map std_to_string (butlast values) @ [std_to_string (last values) @ [CHR 0x0A]])
     (map word_of_int (butlast values) @ [word_of_int (last values)])"
  proof (rule list_all2_appendI)
    show "list_all2 (\<lambda>s w. stoull s = Inr w) (map std_to_string (butlast values)) (map word_of_int (butlast values))"
      using one(1) by (auto simp: list_all2_map1 list_all2_map2 list_all2_same dest: in_set_butlastD)
    show "list_all2 (\<lambda>s w. stoull s = Inr w) [std_to_string (last values) @ [CHR 0x0A]] [word_of_int (last values)]"
      using one(2) assms(1) by simp
  qed
  moreover have "map word_of_int (butlast values) @ [word_of_int (last values)] = (map word_of_int values :: 64 word list)"
    using assms(1) append_butlast_last_id [of "values"] by (metis list.simps(8,9) map_append)
  ultimately show ?thesis by (simp add: res_map_eq_Inr)
qed


text \<open>The command line comes back too, with or without the NUL behind the last argument.\<close>

lemma cmdline_roundtrip:
  assumes "args \<noteq> []" "\<forall>a \<in> set args. CHR 0x00 \<notin> set a"
  shows "cmdline_args (concat (map (\<lambda>a. a @ [CHR 0x00]) args)) = args"
  using assms
proof (induction args)
  case (Cons a args)
  have "takeWhile (\<lambda>c. c \<noteq> CHR 0x00) (a @ CHR 0x00 # concat (map (\<lambda>a. a @ [CHR 0x00]) args)) = a"
    using Cons.prems(2) by (intro takeWhile_to_char) simp
  moreover have "concat (map (\<lambda>a. a @ [CHR 0x00]) args) = [] \<longleftrightarrow> args = []" by (cases args) auto
  ultimately show ?case using Cons by (subst cmdline_args.simps) (auto simp: Let_def)
qed simp

text \<open>A kernel thread has an empty command line: it counts as one argument, and no command, which is the empty string.\<close>

lemma empty_cmdline_is_one_argument: "cmdline_args [] = [[]]"
  by (subst cmdline_args.simps) simp

text \<open>
  The kernel writes the device of the terminal as \<^verbatim>\<open>new_encode_dev()\<close> does, the minor number in the bits 0 to 7 and 20 to 31.
  The code takes 16 bits for the major and 24 to 31 for the minor, so from the minor 256 on both are wrong.
\<close>

definition encode_dev :: "32 word \<Rightarrow> 32 word \<Rightarrow> 32 word" where
  "encode_dev major minor = (minor AND 0xff) OR push_bit 8 major OR push_bit 12 (minor AND NOT 0xff)"

lemma terminal_256_misread:
  "let i' = stat_fields [1, 1, 1, ucast (encode_dev 136 256)] i in f_tty_major i' = 4232 \<and> f_tty_minor i' = 0"
  by (simp add: stat_fields_def Let_def encode_dev_def)

section \<open>The list is that of the kernel\<close>

text \<open>
  C28 (invariant): \<^verbatim>\<open>refresh()\<close> makes the list that of the kernel. Whatever the list was, afterwards the processes in it are
  exactly those whose directories were found; one that was known keeps its object, with what it loaded, a new one is fresh,
  and the list is in the order of the numbers. The numbers fit in a \<^verbatim>\<open>pid_t\<close>.\<close>

theorem refresh_exact:
  assumes l: "omap_ok l" and pids: "list_all2 (\<lambda>f p. pid_of_name f = Inr p) filenames ps"
  shows "\<exists>l'. refresh filenames l = Inr l' \<and> omap_ok l' \<and>
    (\<forall>p. map_of l' p = (if Some p \<in> set ps then Some (case map_of l p of Some i \<Rightarrow> i | None \<Rightarrow> new_process_info p) else None))"
proof -
  have loop: "\<exists>l'. refresh_loop filenames keys l = Inr (keys - {p. Some p \<in> set ps}, l') \<and> omap_ok l' \<and>
      (\<forall>p. map_of l' p = (case map_of l p of Some i \<Rightarrow> Some i | None \<Rightarrow> if Some p \<in> set ps then Some (new_process_info p) else None))"
    for keys
    using pids l
  proof (induction filenames ps arbitrary: keys l rule: list_all2_induct)
    case Nil
    then show ?case by (auto split: option.split)
  next
    case (Cons f fs p ps)
    show ?case
    proof (cases p)
      case None
      then have same: "refresh_loop (f # fs) keys l = refresh_loop fs keys l" "\<And>q. Some q \<in> set (p # ps) \<longleftrightarrow> Some q \<in> set ps"
        using Cons.hyps(1) by simp_all
      show ?thesis unfolding same by (rule Cons.IH [OF Cons.prems])
    next
      case (Some pid)
      let ?l = "if map_of l pid = None then omap_put pid (new_process_info pid) l else l"
      have "omap_ok ?l" using Cons.prems by (simp add: omap_ok_put)
      from Cons.IH [OF this, of "keys - {pid}"] obtain l' where
          l': "refresh_loop fs (keys - {pid}) ?l = Inr (keys - {pid} - {p. Some p \<in> set ps}, l')" "omap_ok l'"
          "\<forall>p. map_of l' p = (case map_of ?l p of Some i \<Rightarrow> Some i | None \<Rightarrow> if Some p \<in> set ps then Some (new_process_info p) else None)"
        by blast
      have "keys - {pid} - {p. Some p \<in> set ps} = keys - {q. Some q \<in> set (p # ps)}" using Some by auto
      then have "refresh_loop (f # fs) keys l = Inr (keys - {q. Some q \<in> set (p # ps)}, l')"
        using l'(1) Some Cons.hyps(1) by simp
      moreover have "map_of l' q = (case map_of l q of Some i \<Rightarrow> Some i | None \<Rightarrow> if Some q \<in> set (p # ps) then Some (new_process_info q) else None)" for q
        using l'(3) Some by (auto simp: map_of_omap_put split: option.split)
      ultimately show ?thesis using l'(2) by blast
    qed
  qed
  from loop [of "fst ` set l"] obtain l' where l': "refresh_loop filenames (fst ` set l) l = Inr (fst ` set l - {p. Some p \<in> set ps}, l')"
      "omap_ok l'" "\<And>p. map_of l' p = (case map_of l p of Some i \<Rightarrow> Some i | None \<Rightarrow> if Some p \<in> set ps then Some (new_process_info p) else None)"
    by blast
  let ?keep = "\<lambda>(k, i :: process_info). k \<notin> fst ` set l - {p. Some p \<in> set ps}"
  have filtered: "map_of (filter (\<lambda>(k, i). k \<notin> K) m) p = (if p \<in> K then None else map_of m p)" for K and m :: process_list and p
    by (induction m) auto
  have sorted: "omap_ok m \<Longrightarrow> omap_ok (filter (\<lambda>(k, i). k \<notin> K) m)" for K and m :: process_list
    by (induction m) auto
  have dom: "p \<in> fst ` set l \<longleftrightarrow> map_of l p \<noteq> None" for p by (simp add: map_of_eq_None_iff)
  have "refresh filenames l = Inr (filter ?keep l')" using l'(1) by (simp add: refresh_def)
  moreover have "map_of (filter ?keep l') p = (if Some p \<in> set ps then Some (case map_of l p of Some i \<Rightarrow> i | None \<Rightarrow> new_process_info p) else None)" for p
    unfolding filtered using l'(3) [of p] dom [of p] by (auto split: option.split)
  ultimately show ?thesis using sorted [OF l'(2)] by blast
qed

section \<open>A system to try the theorems on\<close>

fun split_spaces :: "string \<Rightarrow> string list" where
  "split_spaces [] = [[]]"
| "split_spaces (c # s) =
     (if c = CHR '' '' then [] # split_spaces s
      else case split_spaces s of [] \<Rightarrow> [[c]] | t # ts \<Rightarrow> (c # t) # ts)"

definition demo_proc_env :: "string \<Rightarrow> proc_env" where
  "demo_proc_env line = \<lparr>pe_is_directory = (\<lambda>pid. pid = 7), pe_stat = (\<lambda>pid. Some line), pe_cmdline = (\<lambda>pid. Some ''a''),
     pe_tokenize = (\<lambda>s. if s = [] then [] else split_spaces s)\<rparr>"

lemma demo_tokenizes: "tokenizes (demo_proc_env line)"
proof -
  have word: "split_spaces (t @ '' '' @ s) = t # split_spaces s" "split_spaces t = [t]" if "CHR '' '' \<notin> set t" for s t
    using that by (induction t) auto
  have "split_spaces (join_spaces ts) = ts" if "\<forall>t \<in> set ts. t \<noteq> [] \<and> CHR '' '' \<notin> set t" "ts \<noteq> []" for ts
    using that by (induction ts rule: join_spaces.induct) (auto simp: word word [simplified])
  moreover have "join_spaces ts \<noteq> []" if "\<forall>t \<in> set ts. t \<noteq> [] \<and> CHR '' '' \<notin> set t" "ts \<noteq> []" for ts
    using that by (cases ts rule: join_spaces.cases) auto
  ultimately have "pe_tokenize (demo_proc_env line) (join_spaces ts) = ts" if "\<forall>t \<in> set ts. t \<noteq> [] \<and> CHR '' '' \<notin> set t" for ts
    using that by (cases "ts = []") (simp_all add: demo_proc_env_def)
  then show ?thesis by (simp add: tokenizes_def)
qed


theorem refresh_exact_witness:
  "\<exists>l'. refresh [''/proc/7'', ''/proc/x''] [(3, new_process_info 3)] = Inr l' \<and> map_of l' 7 = Some (new_process_info 7) \<and> map_of l' 3 = None"
  using refresh_exact [of "[(3, new_process_info 3)]" "[''/proc/7'', ''/proc/x'']" "[Some 7, None]"]
  by (auto simp: pid_of_name_def digits_value_def is_digit_def less_eq_char_def)

end
