(* ===== verification/Process_Io.thy ===== *)
theory Process_Io
  imports Communicator
begin

unbundle bit_operations_syntax

text \<open>
  The pipes and files between the program and its children: \<^verbatim>\<open>pipe_connection.cpp\<close> and the classes
  \<^verbatim>\<open>cppprocess/io*.cpp\<close>. A descriptor is a number, \<open>-1\<close> when it is closed; \<open>child\<close> says which of the two processes asks,
  which the code finds out with \<^verbatim>\<open>getpid()\<close>.
\<close>

section \<open>Pipes\<close>

datatype pipe_t = PIPE_BIDIRECTIONAL | PIPE_CHILD_INPUT | PIPE_CHILD_OUTPUT

record pipe_conn =
  pc_type :: pipe_t
  pc_fd0 :: int
  pc_fd1 :: int

text \<open>The system calls on descriptors.\<close>

record 'u fd_env =
  fe_socketpair :: "'u \<Rightarrow> (int \<times> int) option \<times> 'u"
  fe_pipe :: "'u \<Rightarrow> (int \<times> int) option \<times> 'u"
  fe_close :: "int \<Rightarrow> 'u \<Rightarrow> 'u"
  fe_open :: "string \<Rightarrow> int \<Rightarrow> int \<Rightarrow> 'u \<Rightarrow> int \<times> 'u"
  fe_read_fd :: "int \<Rightarrow> nat \<Rightarrow> 'u \<Rightarrow> (errno + string) \<times> 'u"
  fe_write_fd :: "int \<Rightarrow> string \<Rightarrow> 'u \<Rightarrow> (errno + nat) \<times> 'u"

definition new_pipe_conn :: "'u fd_env \<Rightarrow> pipe_t \<Rightarrow> 'u \<Rightarrow> pipe_conn result \<times> 'u" where
  "new_pipe_conn E type u =
     (case (if type = PIPE_BIDIRECTIONAL then fe_socketpair E u else fe_pipe E u) of
        (None, u') \<Rightarrow> (Inl Initialization_error, u')
      | (Some (a, b), u') \<Rightarrow>
          (Inr (if type = PIPE_CHILD_INPUT then \<lparr>pc_type = type, pc_fd0 = b, pc_fd1 = a\<rparr>
                else \<lparr>pc_type = type, pc_fd0 = a, pc_fd1 = b\<rparr>), u'))"

definition pipe_get_socket :: "bool \<Rightarrow> pipe_conn \<Rightarrow> int" where
  "pipe_get_socket child p = (if child then pc_fd1 p else pc_fd0 p)"

definition pipe_get_other_socket :: "bool \<Rightarrow> pipe_conn \<Rightarrow> int" where
  "pipe_get_other_socket child p = (if child then pc_fd0 p else pc_fd1 p)"

definition close_fd :: "'u fd_env \<Rightarrow> int \<Rightarrow> 'u \<Rightarrow> 'u" where
  "close_fd E fd u = (if fd \<noteq> -1 then fe_close E fd u else u)"

definition pipe_forked :: "'u fd_env \<Rightarrow> bool \<Rightarrow> pipe_conn \<Rightarrow> 'u \<Rightarrow> pipe_conn \<times> 'u" where
  "pipe_forked E child p u =
     (if child then (p\<lparr>pc_fd0 := -1\<rparr>, close_fd E (pc_fd0 p) u) else (p\<lparr>pc_fd1 := -1\<rparr>, close_fd E (pc_fd1 p) u))"

definition pipe_close :: "'u fd_env \<Rightarrow> pipe_conn \<Rightarrow> 'u \<Rightarrow> pipe_conn \<times> 'u" where
  "pipe_close E p u = (p\<lparr>pc_fd0 := -1, pc_fd1 := -1\<rparr>, close_fd E (pc_fd1 p) (close_fd E (pc_fd0 p) u))"

definition pipe_is_reader :: "bool \<Rightarrow> pipe_conn \<Rightarrow> bool" where
  "pipe_is_reader child p \<longleftrightarrow> pc_type p \<noteq> (if child then PIPE_CHILD_OUTPUT else PIPE_CHILD_INPUT)"

definition pipe_read :: "'u fd_env \<Rightarrow> bool \<Rightarrow> nat \<Rightarrow> pipe_conn \<Rightarrow> 'u \<Rightarrow> (errno + string) \<times> 'u" where
  "pipe_read E child count p u =
     (if pc_type p = (if child then PIPE_CHILD_OUTPUT else PIPE_CHILD_INPUT) then (Inl EBADF, u)
      else if pipe_get_socket child p = -1 then (Inl EBADF, u)
      else fe_read_fd E (pipe_get_socket child p) count u)"

definition pipe_write :: "'u fd_env \<Rightarrow> bool \<Rightarrow> string \<Rightarrow> pipe_conn \<Rightarrow> 'u \<Rightarrow> (errno + nat) \<times> 'u" where
  "pipe_write E child buf p u =
     (if pc_type p = (if child then PIPE_CHILD_INPUT else PIPE_CHILD_OUTPUT) then (Inl EBADF, u)
      else if pipe_get_socket child p = -1 then (Inl EBADF, u)
      else if buf \<noteq> [] then fe_write_fd E (pipe_get_socket child p) buf u
      else (Inr 0, u))"

section \<open>Input and output of a process\<close>

type_synonym io_flags = "32 word"

definition IO_FLAG_NONE :: io_flags where "IO_FLAG_NONE = 0"
definition IO_FLAG_INPUT :: io_flags where "IO_FLAG_INPUT = 1"
definition IO_FLAG_OUTPUT :: io_flags where "IO_FLAG_OUTPUT = 2"

lemmas io_flag_defs = IO_FLAG_NONE_def IO_FLAG_INPUT_def IO_FLAG_OUTPUT_def

record io_file =
  if_filename :: string
  if_truncate :: bool
  if_append :: bool
  if_mode :: int
  if_fd :: int

text \<open>\<open>io_registered\<close> says whether a pipe is in the communicator.\<close>

datatype io_kind = Io_pipe pipe_conn | Io_file io_file

record io =
  io_flags :: io_flags
  io_kind :: io_kind
  io_registered :: bool

definition flags_to_pipe_mode :: "io_flags \<Rightarrow> pipe_t result" where
  "flags_to_pipe_mode flags =
     (if flags AND (IO_FLAG_INPUT OR IO_FLAG_OUTPUT) = IO_FLAG_INPUT OR IO_FLAG_OUTPUT then Inr PIPE_BIDIRECTIONAL
      else if flags AND (IO_FLAG_INPUT OR IO_FLAG_OUTPUT) = IO_FLAG_INPUT then Inr PIPE_CHILD_INPUT
      else if flags AND (IO_FLAG_INPUT OR IO_FLAG_OUTPUT) = IO_FLAG_OUTPUT then Inr PIPE_CHILD_OUTPUT
      else Inl Invalid_parameter)"

definition new_io_pipe :: "'u fd_env \<Rightarrow> io_flags \<Rightarrow> 'u \<Rightarrow> io result \<times> 'u" where
  "new_io_pipe E flags u =
     (case flags_to_pipe_mode flags of
        Inl e \<Rightarrow> (Inl e, u)
      | Inr type \<Rightarrow> (case new_pipe_conn E type u of
          (Inl e, u') \<Rightarrow> (Inl e, u')
        | (Inr p, u') \<Rightarrow> (Inr \<lparr>io_flags = flags, io_kind = Io_pipe p, io_registered = False\<rparr>, u')))"

text \<open>0600 is \<^verbatim>\<open>S_IRUSR | S_IWUSR\<close>.\<close>

definition new_io_file :: "io_flags \<Rightarrow> io" where
  "new_io_file flags = \<lparr>io_flags = flags, io_kind = Io_file \<lparr>if_filename = [], if_truncate = False, if_append = False,
     if_mode = 0x180, if_fd = -1\<rparr>, io_registered = False\<rparr>"

text \<open>The four setters of a file.\<close>

definition file_set :: "(io_file \<Rightarrow> io_file) \<Rightarrow> io_file \<Rightarrow> io_file result" where
  "file_set change f = (if if_fd f \<noteq> -1 then Inl In_use else Inr (change f))"

definition file_set_filename :: "string \<Rightarrow> io_file \<Rightarrow> io_file result" where
  "file_set_filename name = file_set (if_filename_update (\<lambda>_. name))"

definition file_set_truncate :: "bool \<Rightarrow> io_file \<Rightarrow> io_file result" where
  "file_set_truncate b = file_set (if_truncate_update (\<lambda>_. b))"

definition file_set_append :: "bool \<Rightarrow> io_file \<Rightarrow> io_file result" where
  "file_set_append b = file_set (if_append_update (\<lambda>_. b))"

definition file_set_mode :: "int \<Rightarrow> io_file \<Rightarrow> io_file result" where
  "file_set_mode m = file_set (if_mode_update (\<lambda>_. m))"

definition O_RDONLY :: int where "O_RDONLY = 0"
definition O_WRONLY :: int where "O_WRONLY = 1"
definition O_RDWR :: int where "O_RDWR = 2"
definition O_CREAT :: int where "O_CREAT = 0x40"
definition O_TRUNC :: int where "O_TRUNC = 0x200"
definition O_APPEND :: int where "O_APPEND = 0x400"

definition file_open_flags :: "io_flags \<Rightarrow> io_file \<Rightarrow> int" where
  "file_open_flags flags f =
     (if flags AND (IO_FLAG_INPUT OR IO_FLAG_OUTPUT) = IO_FLAG_INPUT OR IO_FLAG_OUTPUT then O_RDWR
      else if flags AND IO_FLAG_INPUT \<noteq> 0 then O_RDONLY
      else if flags AND IO_FLAG_OUTPUT \<noteq> 0 then O_WRONLY + O_CREAT
      else 0) +
     (if flags AND IO_FLAG_OUTPUT \<noteq> 0 then (if if_truncate f then O_TRUNC else 0) + (if if_append f then O_APPEND else 0) else 0)"

definition io_process_starting :: "'u fd_env \<Rightarrow> io \<Rightarrow> 'u \<Rightarrow> io \<times> 'u" where
  "io_process_starting E i u =
     (case io_kind i of
        Io_pipe p \<Rightarrow> (i\<lparr>io_registered := True\<rparr>, u)
      | Io_file f \<Rightarrow>
          if if_fd f \<noteq> -1 then (i, u)
          else case fe_open E (if_filename f) (file_open_flags (io_flags i) f) (if_mode f) u of
                 (fd, u') \<Rightarrow> (i\<lparr>io_kind := Io_file (f\<lparr>if_fd := fd\<rparr>)\<rparr>, u'))"

definition io_get_fd :: "io \<Rightarrow> int" where
  "io_get_fd i = (case io_kind i of Io_pipe p \<Rightarrow> pipe_get_socket False p | Io_file f \<Rightarrow> if_fd f)"

definition io_get_other_fd :: "io \<Rightarrow> int" where
  "io_get_other_fd i = (case io_kind i of Io_pipe p \<Rightarrow> pipe_get_other_socket False p | Io_file f \<Rightarrow> if_fd f)"

definition io_close_both :: "'u fd_env \<Rightarrow> io \<Rightarrow> 'u \<Rightarrow> io \<times> 'u" where
  "io_close_both E i u =
     (case io_kind i of
        Io_pipe p \<Rightarrow> (case pipe_close E p u of (p', u') \<Rightarrow> (i\<lparr>io_kind := Io_pipe p'\<rparr>, u'))
      | Io_file f \<Rightarrow> (i\<lparr>io_kind := Io_file (f\<lparr>if_fd := -1\<rparr>)\<rparr>, close_fd E (if_fd f) u))"

definition io_close_other :: "'u fd_env \<Rightarrow> io \<Rightarrow> 'u \<Rightarrow> io \<times> 'u" where
  "io_close_other E i u =
     (case io_kind i of
        Io_pipe p \<Rightarrow> (case pipe_forked E False p u of (p', u') \<Rightarrow> (i\<lparr>io_kind := Io_pipe p'\<rparr>, u'))
      | Io_file f \<Rightarrow> (i, u))"

section \<open>Data for a child\<close>

text \<open>\<open>dp_done\<close> collects the reasons given to \<^verbatim>\<open>process_done()\<close>, which calls the callbacks of the program.\<close>

datatype done_reason_t = DONE_REASON_EOF | DONE_REASON_ERROR | DONE_REASON_HUP | DONE_REASON_INVALID

record 'u data_pipe =
  dp_pipe :: pipe_conn
  dp_input :: string
  dp_pos :: nat
  dp_registered :: bool
  dp_done :: "done_reason_t list"
  dp_os :: 'u

definition add_input :: "string \<Rightarrow> 'u data_pipe \<Rightarrow> 'u data_pipe" where
  "add_input s w = w\<lparr>dp_input := dp_input w @ s\<rparr>"

definition get_input :: "bool \<Rightarrow> 'u data_pipe \<Rightarrow> string \<times> 'u data_pipe" where
  "get_input reset w = (dp_input w, if reset then w\<lparr>dp_input := []\<rparr> else w)"

definition data_is_writer :: "'u data_pipe \<Rightarrow> bool" where
  "data_is_writer w \<longleftrightarrow> dp_pos w < length (dp_input w)"

definition data_process_done :: "'u fd_env \<Rightarrow> done_reason_t \<Rightarrow> 'u data_pipe \<Rightarrow> 'u data_pipe" where
  "data_process_done E reason w =
     (case pipe_close E (dp_pipe w) (dp_os w) of (p, u) \<Rightarrow>
        w\<lparr>dp_pipe := p, dp_os := u, dp_registered := False, dp_done := dp_done w @ [reason]\<rparr>)"

text \<open>A position behind the end makes the size wrap.\<close>

definition data_process_write :: "'u fd_env \<Rightarrow> ('u data_pipe, unit) act" where
  "data_process_write E w =
     (if dp_pos w > length (dp_input w) then (Inl Undefined_behaviour, w)
      else if dp_pos w = length (dp_input w) then (Inr (), w)
      else case pipe_write E False (drop (dp_pos w) (dp_input w)) (dp_pipe w) (dp_os w) of
             (Inl e, u) \<Rightarrow> (Inr (), w\<lparr>dp_os := u\<rparr>)
           | (Inr r, u) \<Rightarrow>
               let w' = w\<lparr>dp_os := u, dp_pos := dp_pos w + r\<rparr>
               in (Inr (), if r > 0 \<and> dp_pos w' \<ge> length (dp_input w') then data_process_done E DONE_REASON_EOF w' else w'))"

section \<open>Data from a child\<close>

record 'u capture_pipe =
  cp_pipe :: pipe_conn
  cp_output :: string
  cp_registered :: bool
  cp_done :: "done_reason_t list"
  cp_os :: 'u

definition capture_process_done :: "'u fd_env \<Rightarrow> done_reason_t \<Rightarrow> 'u capture_pipe \<Rightarrow> 'u capture_pipe" where
  "capture_process_done E reason w =
     (case pipe_close E (cp_pipe w) (cp_os w) of (p, u) \<Rightarrow>
        w\<lparr>cp_pipe := p, cp_os := u, cp_registered := False, cp_done := cp_done w @ [reason]\<rparr>)"

definition capture_process_read :: "'u fd_env \<Rightarrow> 'u capture_pipe \<Rightarrow> 'u capture_pipe" where
  "capture_process_read E w =
     (if pipe_get_socket False (cp_pipe w) = -1 then w
      else case pipe_read E False (1024 * 64) (cp_pipe w) (cp_os w) of
             (Inl e, u) \<Rightarrow> if e = EAGAIN then w\<lparr>cp_os := u\<rparr> else capture_process_done E DONE_REASON_ERROR (w\<lparr>cp_os := u\<rparr>)
           | (Inr s, u) \<Rightarrow> w\<lparr>cp_os := u, cp_output := cp_output w @ s\<rparr>)"

definition get_output :: "bool \<Rightarrow> 'u capture_pipe \<Rightarrow> string \<times> 'u capture_pipe" where
  "get_output reset w = (cp_output w, if reset then w\<lparr>cp_output := []\<rparr> else w)"

definition capture_process_hup :: "'u fd_env \<Rightarrow> 'u capture_pipe \<Rightarrow> 'u capture_pipe" where
  "capture_process_hup E = capture_process_done E DONE_REASON_HUP"

definition capture_process_invalid :: "'u fd_env \<Rightarrow> 'u capture_pipe \<Rightarrow> 'u capture_pipe" where
  "capture_process_invalid E = capture_process_done E DONE_REASON_INVALID"

section \<open>The child gets the data\<close>

text \<open>\<open>sent\<close> is what the pipe took.\<close>

definition pipe_takes :: "('u \<Rightarrow> string) \<Rightarrow> 'u fd_env \<Rightarrow> bool" where
  "pipe_takes sent E \<longleftrightarrow>
     (\<forall>fd s u. case fe_write_fd E fd s u of
        (Inl e, u') \<Rightarrow> sent u' = sent u
      | (Inr n, u') \<Rightarrow> n \<le> length s \<and> sent u' = sent u @ take n s) \<and>
     (\<forall>fd u. sent (fe_close E fd u) = sent u)"

inductive data_life :: "('u \<Rightarrow> string) \<Rightarrow> 'u fd_env \<Rightarrow> 'u data_pipe \<Rightarrow> bool" for sent E where
  dl_new: "sent u = [] \<Longrightarrow> data_life sent E \<lparr>dp_pipe = p, dp_input = [], dp_pos = 0, dp_registered = True, dp_done = [], dp_os = u\<rparr>"
| dl_add: "data_life sent E w \<Longrightarrow> data_life sent E (add_input s w)"
| dl_get: "data_life sent E w \<Longrightarrow> data_life sent E (snd (get_input False w))"
| dl_write: "data_life sent E w \<Longrightarrow> data_process_write E w = (r, w') \<Longrightarrow> data_life sent E w'"
| dl_done: "data_life sent E w \<Longrightarrow> reason \<noteq> DONE_REASON_EOF \<Longrightarrow> data_life sent E (data_process_done E reason w)"

lemma data_process_done_keeps:
  "pipe_takes sent E \<Longrightarrow> sent (dp_os (data_process_done E reason w)) = sent (dp_os w)"
  "dp_input (data_process_done E reason w) = dp_input w" "dp_pos (data_process_done E reason w) = dp_pos w"
  by (auto simp: data_process_done_def pipe_close_def close_fd_def pipe_takes_def)

text \<open>
  C26 (invariant): the child reads the input. Whatever is added, whenever the loop lets the pipe write and however much of it
  the kernel takes, what was sent is the input up to the position, and \<^verbatim>\<open>process_write()\<close> does not run past its end. So the
  end of the input is reported only when all the input given so far was sent.\<close>

theorem data_pipe_sends_input:
  assumes E: "pipe_takes sent E" and life: "data_life sent E w"
  shows "sent (dp_os w) = take (dp_pos w) (dp_input w) \<and> dp_pos w \<le> length (dp_input w) \<and>
    fst (data_process_write E w) = Inr () \<and>
    (dp_done (snd (data_process_write E w)) \<noteq> dp_done w \<longrightarrow> sent (dp_os (snd (data_process_write E w))) = dp_input w)"
proof -
  define ok where "ok w \<longleftrightarrow> sent (dp_os w) = take (dp_pos w) (dp_input w) \<and> dp_pos w \<le> length (dp_input w)" for w :: "'a data_pipe"
  have step: "fst (data_process_write E w) = Inr () \<and> ok (snd (data_process_write E w)) \<and>
    (dp_done (snd (data_process_write E w)) \<noteq> dp_done w \<longrightarrow> sent (dp_os (snd (data_process_write E w))) = dp_input w)"
    if w: "ok w" for w :: "'a data_pipe"
  proof (cases "dp_pos w = length (dp_input w)")
    case True
    then show ?thesis using w by (simp add: data_process_write_def)
  next
    case False
    obtain r u where r: "pipe_write E False (drop (dp_pos w) (dp_input w)) (dp_pipe w) (dp_os w) = (r, u)"
      by (cases "pipe_write E False (drop (dp_pos w) (dp_input w)) (dp_pipe w) (dp_os w)")
    have law: "case r of Inl e \<Rightarrow> sent u = sent (dp_os w)
      | Inr n \<Rightarrow> n \<le> length (dp_input w) - dp_pos w \<and> sent u = sent (dp_os w) @ take n (drop (dp_pos w) (dp_input w))"
      using r E unfolding pipe_takes_def
      by (auto simp: pipe_write_def split: if_splits sum.splits dest!: spec [of _ "pipe_get_socket False (dp_pipe w)"]
          spec [of _ "drop (dp_pos w) (dp_input w)"] spec [of _ "dp_os w"])
    show ?thesis
    proof (cases r)
      case (Inl e)
      then show ?thesis using r law w False by (simp add: data_process_write_def ok_def)
    next
      case (Inr n)
      let ?v = "w\<lparr>dp_os := u, dp_pos := dp_pos w + n\<rparr>"
      have v: "ok ?v" using law Inr w by (auto simp: ok_def take_add)
      have "data_process_write E w = (Inr (), if n > 0 \<and> dp_pos ?v \<ge> length (dp_input ?v) then data_process_done E DONE_REASON_EOF ?v else ?v)"
        using r Inr w False by (simp add: data_process_write_def ok_def Let_def)
      moreover have "ok (data_process_done E DONE_REASON_EOF ?v)" using v data_process_done_keeps(1) [OF E, of DONE_REASON_EOF ?v]
        by (simp add: ok_def data_process_done_keeps(2,3))
      moreover have "sent (dp_os ?v) = dp_input w" if "dp_pos ?v \<ge> length (dp_input ?v)" using v that by (simp add: ok_def)
      ultimately show ?thesis using v data_process_done_keeps(1) [OF E, of DONE_REASON_EOF ?v] by auto
    qed
  qed
  have "ok w" using life
  proof induction
    case (dl_write w r w')
    then show ?case using step [of w] by simp
  next
    case (dl_done w reason)
    then show ?case using data_process_done_keeps(1) [OF E, of reason w] by (simp add: ok_def data_process_done_keeps(2,3))
  qed (auto simp: ok_def add_input_def get_input_def)
  then show ?thesis using step [of w] unfolding ok_def by blast
qed

text \<open>\<^verbatim>\<open>get_input(true)\<close> empties the buffer and not the position, so as many characters of the next input are skipped.\<close>

lemma data_pipe_reset_skips:
  assumes "dp_pos w = length (dp_input w)" "length s \<le> dp_pos w"
  shows "\<not> data_is_writer (add_input s (snd (get_input True w)))"
  using assms by (simp add: get_input_def add_input_def data_is_writer_def)

text \<open>A pipe that takes two characters at a time.\<close>

definition demo_fd_env :: "string fd_env" where
  "demo_fd_env = \<lparr>fe_socketpair = (\<lambda>u. (Some (3, 4), u)), fe_pipe = (\<lambda>u. (Some (3, 4), u)), fe_close = (\<lambda>fd u. u),
     fe_open = (\<lambda>n f m u. (5, u)), fe_read_fd = (\<lambda>fd n u. (Inr [], u)), fe_write_fd = (\<lambda>fd s u. (Inr (min 2 (length s)), u @ take 2 s))\<rparr>"

definition demo_data_pipe :: "string data_pipe" where
  "demo_data_pipe = \<lparr>dp_pipe = \<lparr>pc_type = PIPE_CHILD_INPUT, pc_fd0 = 4, pc_fd1 = 3\<rparr>, dp_input = [], dp_pos = 0, dp_registered = True,
     dp_done = [], dp_os = []\<rparr>"

theorem data_pipe_sends_input_witness:
  "let w = snd (data_process_write demo_fd_env (add_input ''abc'' demo_data_pipe))
   in dp_os w = take (dp_pos w) (dp_input w) \<and> dp_os w = ''ab'' \<and> fst (data_process_write demo_fd_env w) = Inr ()"
proof -
  let ?v = "add_input ''abc'' demo_data_pipe"
  have E: "pipe_takes id demo_fd_env" by (simp add: pipe_takes_def demo_fd_env_def min_def)
  have "data_life id demo_fd_env demo_data_pipe" unfolding demo_data_pipe_def by (rule dl_new) simp
  then have "data_life id demo_fd_env (snd (data_process_write demo_fd_env ?v))"
    by (rule dl_write [OF dl_add surjective_pairing])
  from data_pipe_sends_input [OF E this] show ?thesis
    by (simp add: Let_def) (simp add: data_process_write_def demo_fd_env_def demo_data_pipe_def add_input_def pipe_write_def pipe_get_socket_def)
qed

end
