(* ===== verification/Process.thy ===== *)
theory Process
  imports Process_Io Signal_Child
begin

text \<open>
  Children and pipelines: \<^verbatim>\<open>cppprocess/process.cpp\<close>. The processes are objects in a store, named by numbers, and so are
  their inputs and outputs; \<open>ps_children\<close> is what was forked, each child with what it executes, and \<open>ps_os\<close> the kernel.
\<close>

section \<open>Pipes between processes\<close>

text \<open>\<^verbatim>\<open>direct_output_to_input_pipe\<close>, and \<^verbatim>\<open>tee_pipe\<close> with its \<^verbatim>\<open>buffered_pipe\<close>s.\<close>

record buffered_pipe =
  bp_pipe :: pipe_conn
  bp_output :: string
  bp_position :: nat

datatype inter_pipe = Direct_pipe pipe_conn | Tee_pipe pipe_conn "buffered_pipe list"

fun inter_conn :: "inter_pipe \<Rightarrow> pipe_conn" where
  "inter_conn (Direct_pipe p) = p"
| "inter_conn (Tee_pipe p outs) = p"

definition buffered_is_writer :: "buffered_pipe \<Rightarrow> bool" where
  "buffered_is_writer b \<longleftrightarrow> pipe_get_socket False (bp_pipe b) \<noteq> -1 \<and> bp_output b \<noteq> []"

definition buffered_write :: "string \<Rightarrow> buffered_pipe \<Rightarrow> (errno + nat) \<times> buffered_pipe" where
  "buffered_write data b =
     (if pipe_get_socket False (bp_pipe b) = -1 then (Inl EBADF, b)
      else if data \<noteq> [] then (Inr (length data), b\<lparr>bp_output := bp_output b @ data\<rparr>)
      else (Inr 0, b))"

text \<open>The result says whether \<^verbatim>\<open>process_error()\<close> was called.\<close>

definition buffered_process_write :: "'u fd_env \<Rightarrow> buffered_pipe \<Rightarrow> 'u \<Rightarrow> bool \<times> buffered_pipe \<times> 'u" where
  "buffered_process_write E b u =
     (if pipe_get_socket False (bp_pipe b) = -1 then (False, b, u)
      else case pipe_write E False (drop (bp_position b) (bp_output b)) (bp_pipe b) u of
             (Inr r, u') \<Rightarrow>
               (False, if r > 0 then if bp_position b + r \<ge> length (bp_output b) then b\<lparr>bp_output := [], bp_position := 0\<rparr>
                         else b\<lparr>bp_position := bp_position b + r\<rparr> else b, u')
           | (Inl e, u') \<Rightarrow> (e \<noteq> EAGAIN, b, u'))"

definition buffered_process_hup :: "'u fd_env \<Rightarrow> buffered_pipe \<Rightarrow> 'u \<Rightarrow> buffered_pipe \<times> 'u" where
  "buffered_process_hup E b u = (case pipe_close E (bp_pipe b) u of (p, u') \<Rightarrow> (b\<lparr>bp_pipe := p\<rparr>, u'))"

definition tee_process_read :: "'u fd_env \<Rightarrow> pipe_conn \<Rightarrow> buffered_pipe list \<Rightarrow> 'u \<Rightarrow> bool \<times> buffered_pipe list \<times> 'u" where
  "tee_process_read E p outs u =
     (if pipe_get_socket False p = -1 then (False, outs, u)
      else case pipe_read E False (1024 * 64) p u of
             (Inl e, u') \<Rightarrow> (e \<noteq> EAGAIN, outs, u')
           | (Inr s, u') \<Rightarrow> (False, if s \<noteq> [] then map (\<lambda>b. snd (buffered_write s b)) outs else outs, u'))"

definition tee_get_output_pipe :: "nat \<Rightarrow> buffered_pipe list \<Rightarrow> buffered_pipe result" where
  "tee_get_output_pipe idx outs = (if idx \<ge> length outs then Inl Out_of_range else Inr (outs ! idx))"

fun new_buffered_pipes :: "'u fd_env \<Rightarrow> nat \<Rightarrow> 'u \<Rightarrow> buffered_pipe list result \<times> 'u" where
  "new_buffered_pipes E 0 u = (Inr [], u)"
| "new_buffered_pipes E (Suc n) u =
     (case new_pipe_conn E PIPE_CHILD_OUTPUT u of
        (Inl e, u') \<Rightarrow> (Inl e, u')
      | (Inr p, u') \<Rightarrow> (case new_buffered_pipes E n u' of
          (Inl e, u'') \<Rightarrow> (Inl e, u'')
        | (Inr ps, u'') \<Rightarrow> (Inr (\<lparr>bp_pipe = p, bp_output = [], bp_position = 0\<rparr> # ps), u'')))"

definition new_tee :: "'u fd_env \<Rightarrow> nat \<Rightarrow> 'u \<Rightarrow> inter_pipe result \<times> 'u" where
  "new_tee E n u =
     (case new_pipe_conn E PIPE_CHILD_INPUT u of
        (Inl e, u') \<Rightarrow> (Inl e, u')
      | (Inr p, u') \<Rightarrow>
          if n = 0 then (Inl Logic_error, u')
          else case new_buffered_pipes E n u' of
                 (Inl e, u'') \<Rightarrow> (Inl e, u'')
               | (Inr ps, u'') \<Rightarrow> (Inr (Tee_pipe p ps), u''))"

section \<open>State\<close>

record process =
  pr_name :: string
  f_working_directory :: string
  f_command :: string
  f_arguments :: "string list"
  f_environment :: "(string \<times> string) list"
  f_process_done :: bool
  f_forced_environment :: bool
  pr_running :: bool
  f_input :: "nat option"
  f_output :: "nat option"
  f_error :: "nat option"
  f_prepared_input :: int
  f_intermediate_output_pipe :: "inter_pipe option"
  f_prepared_output :: "int list"
  f_prepared_error :: int
  f_next :: "nat list"
  f_child_pid :: int
  f_exit_code :: int

definition new_process :: "string \<Rightarrow> process" where
  "new_process name = \<lparr>pr_name = name, f_working_directory = [], f_command = [], f_arguments = [], f_environment = [],
     f_process_done = False, f_forced_environment = False, pr_running = False, f_input = None, f_output = None, f_error = None,
     f_prepared_input = -1, f_intermediate_output_pipe = None, f_prepared_output = [], f_prepared_error = -1, f_next = [],
     f_child_pid = -1, f_exit_code = -1\<rparr>"

text \<open>What a child is once \<^verbatim>\<open>execvpe()\<close> replaced it: its three descriptors are the numbers they were copied from.\<close>

record child_image =
  ci_command :: string
  ci_args :: "string list"
  ci_envs :: "string list"
  ci_stdin :: int
  ci_stdout :: int
  ci_stderr :: int

record 'u proc_system =
  ps_processes :: "nat \<Rightarrow> process"
  ps_ios :: "nat \<Rightarrow> io"
  ps_children :: "(int \<times> child_image result) list"
  ps_connections :: "inter_pipe list"
  ps_loop_running :: bool
  ps_listeners :: "(int \<times> nat) list"
  ps_os :: 'u

type_synonym ('u, 'a) psact = "('u proc_system, 'a) act"

record 'u process_env = "'u fd_env" +
  pe_fork :: "'u \<Rightarrow> int \<times> 'u"
  pe_chdir :: "string \<Rightarrow> bool"
  pe_dup2 :: "int \<Rightarrow> int \<Rightarrow> bool"
  pe_environ :: "string list"
  pe_glob :: "string \<Rightarrow> string list option"
  pe_kill :: "int \<Rightarrow> int \<Rightarrow> 'u \<Rightarrow> int \<times> 'u"
  pe_run :: "('u, unit) psact"
  pe_process_done :: "nat \<Rightarrow> siginfo \<Rightarrow> ('u, unit) psact"

definition ps_update :: "('u proc_system \<Rightarrow> 'u proc_system) \<Rightarrow> ('u, unit) psact" where
  "ps_update f w = (Inr (), f w)"

definition change_process :: "nat \<Rightarrow> (process \<Rightarrow> process) \<Rightarrow> ('u, unit) psact" where
  "change_process i f w = (Inr (), w\<lparr>ps_processes := (ps_processes w)(i := f (ps_processes w i))\<rparr>)"

definition ps_system :: "('u \<Rightarrow> 'a \<times> 'u) \<Rightarrow> ('u, 'a) psact" where
  "ps_system f w = (case f (ps_os w) of (a, u) \<Rightarrow> (Inr a, w\<lparr>ps_os := u\<rparr>))"

definition ps_system_result :: "('u \<Rightarrow> 'a result \<times> 'u) \<Rightarrow> ('u, 'a) psact" where
  "ps_system_result f w = (case f (ps_os w) of (r, u) \<Rightarrow> (r, w\<lparr>ps_os := u\<rparr>))"

definition on_io :: "nat option \<Rightarrow> (io \<Rightarrow> 'u \<Rightarrow> io \<times> 'u) \<Rightarrow> ('u, unit) psact" where
  "on_io i f w =
     (case i of
        None \<Rightarrow> (Inr (), w)
      | Some k \<Rightarrow> (case f (ps_ios w k) (ps_os w) of (x, u) \<Rightarrow> (Inr (), w\<lparr>ps_ios := (ps_ios w)(k := x), ps_os := u\<rparr>)))"

section \<open>Setting up\<close>

definition quote_argument :: "string \<Rightarrow> string" where
  "quote_argument a =
     (let single = CHR 0x27 \<in> set a; double = CHR 0x22 \<in> set a; special = list_ex (\<lambda>c. c \<in> set ''&|;#*?!`()[]<>'') a
      in if single \<and> double then [CHR 0x27] @ concat (map (\<lambda>c. if c = CHR 0x27 then [CHR 0x5C, c] else [c]) a) @ [CHR 0x27]
         else if single then [CHR 0x22] @ a @ [CHR 0x22]
         else if double \<or> special then [CHR 0x27] @ a @ [CHR 0x27]
         else a)"

definition get_command_line :: "process \<Rightarrow> string" where
  "get_command_line p = f_command p @ concat (map (\<lambda>a. CHR '' '' # quote_argument a) (f_arguments p))"

definition add_argument :: "'u process_env \<Rightarrow> string \<Rightarrow> bool \<Rightarrow> process \<Rightarrow> bool \<times> process" where
  "add_argument E arg expand p =
     (if \<not> expand then (True, p\<lparr>f_arguments := f_arguments p @ [arg]\<rparr>)
      else case pe_glob E arg of
             None \<Rightarrow> (False, p)
           | Some files \<Rightarrow> (True, p\<lparr>f_arguments := f_arguments p @ files\<rparr>))"

definition add_environ :: "string \<Rightarrow> string \<Rightarrow> process \<Rightarrow> process" where
  "add_environ name v p =
     (if v = [] then p\<lparr>f_environment := omap_erase name (f_environment p)\<rparr>
      else p\<lparr>f_environment := omap_put name v (f_environment p)\<rparr>)"

definition set_input_io :: "nat \<Rightarrow> nat \<Rightarrow> ('u, unit) psact" where
  "set_input_io i k w =
     (if io_flags (ps_ios w k) AND IO_FLAG_INPUT = 0 then (Inl Incorrect_pipe_type, w)
      else change_process i (\<lambda>p. p\<lparr>f_input := Some k\<rparr>) w)"

definition set_output_io :: "nat \<Rightarrow> nat \<Rightarrow> ('u, unit) psact" where
  "set_output_io i k w =
     (if io_flags (ps_ios w k) AND IO_FLAG_OUTPUT = 0 then (Inl Incorrect_pipe_type, w)
      else change_process i (\<lambda>p. p\<lparr>f_output := Some k\<rparr>) w)"

definition set_error_io :: "nat \<Rightarrow> nat \<Rightarrow> ('u, unit) psact" where
  "set_error_io i k w =
     (if io_flags (ps_ios w k) AND IO_FLAG_OUTPUT = 0 then (Inl Incorrect_pipe_type, w)
      else change_process i (\<lambda>p. p\<lparr>f_error := Some k\<rparr>) w)"

definition add_next_process :: "nat \<Rightarrow> process \<Rightarrow> process" where
  "add_next_process n p = p\<lparr>f_next := f_next p @ [n]\<rparr>"

definition clear_next_process :: "process \<Rightarrow> process" where
  "clear_next_process p = p\<lparr>f_next := []\<rparr>"

section \<open>In the child\<close>

text \<open>The inherited variables are added to the map, without overwriting; each has to have a name and a value.\<close>

fun child_environment :: "string list \<Rightarrow> (string \<times> string) list \<Rightarrow> (string \<times> string) list result" where
  "child_environment [] envs = Inr envs"
| "child_environment (s # ss) envs =
     (let name = takeWhile (\<lambda>c. c \<noteq> CHR ''='') s
      in if CHR ''='' \<notin> set s \<or> name = [] then Inl Initialization_failed
         else child_environment ss
           (if map_of envs name = None then omap_put name (drop (length name + 1) s) envs else envs))"

definition dup2_to :: "'u process_env \<Rightarrow> int \<Rightarrow> int \<Rightarrow> int result" where
  "dup2_to E fd standard =
     (if fd = -1 then Inr standard else if pe_dup2 E fd standard then Inr fd else Inl Initialization_failed)"

text \<open>
  The failures are caught and end the child. The descriptors the child closes afterwards are not those it copied. The index
  is one into a vector, without a check.
\<close>

definition execute_command :: "'u process_env \<Rightarrow> nat \<Rightarrow> process \<Rightarrow> child_image result" where
  "execute_command E output_index p =
     (if f_working_directory p \<noteq> [] \<and> \<not> pe_chdir E (f_working_directory p) then Inl Directory_not_found
      else res_bind (if f_forced_environment p then Inr (f_environment p) else child_environment (pe_environ E) (f_environment p)) (\<lambda>envs.
           res_bind (dup2_to E (f_prepared_input p) 0) (\<lambda>inp.
           if output_index \<ge> length (f_prepared_output p) then Inl Undefined_behaviour
           else res_bind (dup2_to E (f_prepared_output p ! output_index) 1) (\<lambda>out.
                res_bind (dup2_to E (f_prepared_error p) 2) (\<lambda>err.
                Inr \<lparr>ci_command = f_command p, ci_args = f_command p # f_arguments p,
                  ci_envs = map (\<lambda>(n, v). n @ ''='' @ v) envs, ci_stdin = inp, ci_stdout = out, ci_stderr = err\<rparr>)))))"

section \<open>Starting\<close>

definition prepare_input :: "'u process_env \<Rightarrow> nat \<Rightarrow> inter_pipe option \<Rightarrow> ('u, unit) psact" where
  "prepare_input E i output_fifo w =
     (case output_fifo of
        Some q \<Rightarrow>
          if f_input (ps_processes w i) \<noteq> None then (Inl Invalid_parameter, w)
          else change_process i (\<lambda>p. p\<lparr>f_prepared_input := pipe_get_socket False (inter_conn q)\<rparr>) w
      | None \<Rightarrow>
          (case f_input (ps_processes w i) of
             Some k \<Rightarrow> act_bind (on_io (Some k) (io_process_starting (fd_env.truncate E))) (\<lambda>_ w.
               change_process i (\<lambda>p. p\<lparr>f_prepared_input := io_get_other_fd (ps_ios w k)\<rparr>) w) w
           | None \<Rightarrow> change_process i (\<lambda>p. p\<lparr>f_prepared_input := 0\<rparr>) w))"

definition prepare_output :: "'u process_env \<Rightarrow> nat \<Rightarrow> ('u, unit) psact" where
  "prepare_output E i w =
     (let p = ps_processes w i; add = (\<lambda>fd. change_process i (\<lambda>p. p\<lparr>f_prepared_output := f_prepared_output p @ [fd]\<rparr>))
      in if length (f_next p) = 0 then
           (case f_output p of
              Some k \<Rightarrow> act_bind (on_io (Some k) (io_process_starting (fd_env.truncate E))) (\<lambda>_ w. add (io_get_other_fd (ps_ios w k)) w) w
            | None \<Rightarrow> add 1 w)
         else if f_output p \<noteq> None then (Inl Invalid_parameter, w)
         else if length (f_next p) = 1 then
           act_bind (ps_system_result (new_pipe_conn (fd_env.truncate E) PIPE_CHILD_OUTPUT)) (\<lambda>c.
           act_bind (change_process i (\<lambda>p. p\<lparr>f_intermediate_output_pipe := Some (Direct_pipe c)\<rparr>)) (\<lambda>_.
             add (pipe_get_other_socket False c))) w
         else
           act_bind (ps_system_result (new_tee (fd_env.truncate E) (length (f_next p)))) (\<lambda>t.
           act_bind (change_process i (\<lambda>p. p\<lparr>f_intermediate_output_pipe := Some t\<rparr>)) (\<lambda>_.
           act_bind (act_each (\<lambda>b. add (pipe_get_other_socket False (bp_pipe b))) (case t of Tee_pipe c outs \<Rightarrow> outs | _ \<Rightarrow> [])) (\<lambda>_.
             ps_update (\<lambda>w. w\<lparr>ps_connections := ps_connections w @ [t]\<rparr>)))) w)"

definition prepare_error :: "'u process_env \<Rightarrow> nat \<Rightarrow> ('u, unit) psact" where
  "prepare_error E i w =
     (case f_error (ps_processes w i) of
        Some k \<Rightarrow> act_bind (on_io (Some k) (io_process_starting (fd_env.truncate E))) (\<lambda>_ w.
          change_process i (\<lambda>p. p\<lparr>f_prepared_error := io_get_other_fd (ps_ios w k)\<rparr>) w) w
      | None \<Rightarrow> change_process i (\<lambda>p. p\<lparr>f_prepared_error := 2\<rparr>) w)"

text \<open>Behind the fork, in the parent.\<close>

definition after_fork :: "'u process_env \<Rightarrow> nat \<Rightarrow> nat \<Rightarrow> int \<Rightarrow> ('u, int) psact" where
  "after_fork E i output_index pid w =
     (if pid = -1 then act_bind (change_process i (\<lambda>p. p\<lparr>f_child_pid := -1\<rparr>)) (\<lambda>_. act_return (-1)) w
      else let p = ps_processes w i; close_other = (\<lambda>k. on_io k (io_close_other (fd_env.truncate E))) in
        act_bind (ps_update (\<lambda>w. w\<lparr>ps_children := ps_children w @ [(pid, execute_command E output_index p)]\<rparr>)) (\<lambda>_.
        act_bind (change_process i (\<lambda>p. p\<lparr>f_child_pid := pid\<rparr>)) (\<lambda>_.
        act_bind (close_other (f_input p)) (\<lambda>_.
        act_bind (close_other (f_output p)) (\<lambda>_.
        act_bind (close_other (f_error p)) (\<lambda>_.
        act_bind (change_process i (\<lambda>p. p\<lparr>pr_running := True\<rparr>)) (\<lambda>_. act_return 0)))))) w)"

definition start_process :: "'u process_env \<Rightarrow> nat \<Rightarrow> inter_pipe option \<Rightarrow> nat \<Rightarrow> ('u, int) psact" where
  "start_process E i output_fifo output_index w =
     (if pr_running (ps_processes w i) then (Inr (-1), w)
      else
        act_bind (prepare_input E i output_fifo) (\<lambda>_.
        act_bind (prepare_output E i) (\<lambda>_.
        act_bind (prepare_error E i) (\<lambda>_.
        act_bind (ps_system (pe_fork E)) (after_fork E i output_index)))) w)"

text \<open>The processes behind this one: the result is whether all of them started.\<close>

fun start_next :: "'u process_env \<Rightarrow> nat \<Rightarrow> nat \<Rightarrow> nat list \<Rightarrow> ('u, bool) psact" where
  "start_next E i idx [] w = (Inr True, w)"
| "start_next E i idx (n # ns) w =
     act_bind (start_process E n (f_intermediate_output_pipe (ps_processes w i)) idx) (\<lambda>r.
       if r \<noteq> 0 then act_return False else start_next E i (idx + 1) ns) w"

definition inter_forked :: "'u process_env \<Rightarrow> nat \<Rightarrow> ('u, unit) psact" where
  "inter_forked E i w =
     (case f_intermediate_output_pipe (ps_processes w i) of
        None \<Rightarrow> (Inr (), w)
      | Some (Direct_pipe c) \<Rightarrow> (case pipe_close (fd_env.truncate E) c (ps_os w) of (c', u) \<Rightarrow>
          change_process i (\<lambda>p. p\<lparr>f_intermediate_output_pipe := Some (Direct_pipe c')\<rparr>) (w\<lparr>ps_os := u\<rparr>))
      | Some (Tee_pipe c outs) \<Rightarrow> (case pipe_forked (fd_env.truncate E) False c (ps_os w) of (c', u) \<Rightarrow>
          change_process i (\<lambda>p. p\<lparr>f_intermediate_output_pipe := Some (Tee_pipe c' outs)\<rparr>) (w\<lparr>ps_os := u\<rparr>)))"

text \<open>The end of a chain of single processes; a chain may be a circle.\<close>

fun chain_end :: "nat \<Rightarrow> nat \<Rightarrow> 'u proc_system \<Rightarrow> nat result" where
  "chain_end 0 n w = Inl No_fuel"
| "chain_end (Suc fuel) n w = (case f_next (ps_processes w n) of [m] \<Rightarrow> chain_end fuel m w | _ \<Rightarrow> Inr n)"

definition start :: "nat \<Rightarrow> 'u process_env \<Rightarrow> nat \<Rightarrow> ('u, int) psact" where
  "start fuel E i =
     act_bind (start_process E i None 0) (\<lambda>r.
       if r \<noteq> 0 then act_return (-1)
       else (\<lambda>w.
         let next' = f_next (ps_processes w i) in
         if next' \<noteq> [] \<and> length next' \<noteq> length (f_prepared_output (ps_processes w i)) then (Inl Logic_error, w)
         else act_bind (start_next E i 0 next') (\<lambda>ok.
           if \<not> ok then act_return (-1)
           else act_bind (inter_forked E i) (\<lambda>_ w.
             case next' of
               [n] \<Rightarrow> (case chain_end fuel n w of
                  Inl e \<Rightarrow> (Inl e, w)
                | Inr m \<Rightarrow> act_bind (if f_next (ps_processes w m) = [] then inter_forked E m else act_return ()) (\<lambda>_. act_return 0) w)
             | _ \<Rightarrow> (Inr 0, w))) w))"

section \<open>Waiting and ending\<close>

text \<open>The list of the processes behind this one, which grows while it is walked; the result is in the order of the walk.\<close>

fun all_next :: "nat \<Rightarrow> 'u proc_system \<Rightarrow> nat list \<Rightarrow> nat list result" where
  "all_next fuel w [] = Inr []"
| "all_next 0 w (n # ns) = Inl No_fuel"
| "all_next (Suc fuel) w (n # ns) =
     (if f_child_pid (ps_processes w n) = -1 \<or> \<not> pr_running (ps_processes w n) then Inl Not_started
      else res_bind (all_next fuel w (ns @ f_next (ps_processes w n))) (\<lambda>ms. Inr (n # ms)))"

definition wait :: "nat \<Rightarrow> 'u process_env \<Rightarrow> nat \<Rightarrow> ('u, int) psact" where
  "wait fuel E i w =
     (if ps_loop_running w then (Inl Recursive_call, w)
      else if f_child_pid (ps_processes w i) = -1 \<or> \<not> pr_running (ps_processes w i) then (Inl Not_started, w)
      else case all_next fuel w (f_next (ps_processes w i)) of
             Inl e \<Rightarrow> (Inl e, w)
           | Inr ns \<Rightarrow>
               act_bind (ps_update (\<lambda>w. w\<lparr>ps_listeners := ps_listeners w @ map (\<lambda>n. (f_child_pid (ps_processes w n), n)) (i # ns)\<rparr>)) (\<lambda>_.
               act_bind (pe_run E) (\<lambda>_ w. (Inr (f_exit_code (ps_processes w i)), w))) w)"

definition child_done :: "'u process_env \<Rightarrow> nat \<Rightarrow> siginfo \<Rightarrow> ('u, unit) psact" where
  "child_done E i status =
     act_bind (change_process i (\<lambda>p. p\<lparr>f_exit_code := exit_code status\<rparr>)) (\<lambda>_ w.
       act_bind (act_when (f_process_done (ps_processes w i)) (pe_process_done E i status)) (\<lambda>_.
         change_process i (\<lambda>p. p\<lparr>f_child_pid := -1\<rparr>)) w)"

text \<open>\<open>-1\<close> when there is nothing to kill.\<close>

definition process_kill :: "'u process_env \<Rightarrow> int \<Rightarrow> nat \<Rightarrow> ('u, int) psact" where
  "process_kill E sig i w =
     (if f_child_pid (ps_processes w i) \<noteq> -1 \<and> pr_running (ps_processes w i)
      then ps_system (pe_kill E (f_child_pid (ps_processes w i)) sig) w
      else (Inr (-1), w))"

definition input_pipe_done :: "'u process_env \<Rightarrow> nat \<Rightarrow> ('u, unit) psact" where
  "input_pipe_done E i w =
     (case f_input (ps_processes w i) of
        None \<Rightarrow> (Inr (), w)
      | Some k \<Rightarrow> act_bind (on_io (Some k) (io_close_both (fd_env.truncate E))) (\<lambda>_.
          change_process i (\<lambda>p. p\<lparr>f_input := None\<rparr>)) w)"

definition get_result :: "siginfo \<Rightarrow> int" where
  "get_result status =
     (if is_signaled status then -1
      else if is_exited status then (if exit_code status = 0 then 0 else exit_code status)
      else -2)"

section \<open>The environment of a child\<close>

definition environ_entry :: "string \<Rightarrow> string \<times> string" where
  "environ_entry s = (takeWhile (\<lambda>c. c \<noteq> CHR ''='') s, drop (length (takeWhile (\<lambda>c. c \<noteq> CHR ''='') s) + 1) s)"

text \<open>
  C38 (functional): the environment of a child is its own variables over the inherited ones. Building it fails exactly when an
  inherited string has no equal sign or no name; otherwise each name has the value given to \<^verbatim>\<open>add_environ()\<close>, or else the
  first one inherited, and the variables are in order, each once.\<close>

theorem child_environment_spec:
  assumes "omap_ok envs"
  shows "case child_environment ss envs of
      Inl e \<Rightarrow> e = Initialization_failed \<and> (\<exists>s \<in> set ss. CHR ''='' \<notin> set s \<or> hd s = CHR ''='')
    | Inr out \<Rightarrow> (\<forall>s \<in> set ss. CHR ''='' \<in> set s \<and> hd s \<noteq> CHR ''='') \<and> omap_ok out \<and>
        map_of out = map_of (map environ_entry ss) ++ map_of envs"
  using assms
proof (induction ss arbitrary: envs)
  case (Cons s ss)
  let ?name = "takeWhile (\<lambda>c. c \<noteq> CHR ''='') s"
  have name: "?name = [] \<longleftrightarrow> hd s = CHR ''=''" if "CHR ''='' \<in> set s" using that by (cases s) auto
  show ?case
  proof (cases "CHR ''='' \<notin> set s \<or> ?name = []")
    case True
    then show ?thesis using name by auto
  next
    case False
    let ?envs = "if map_of envs ?name = None then omap_put ?name (drop (length ?name + 1) s) envs else envs"
    have "omap_ok ?envs" using Cons.prems by (simp add: omap_ok_put)
    note ih = Cons.IH [OF this]
    have step: "child_environment (s # ss) envs = child_environment ss ?envs" using False by (simp add: Let_def)
    have names: "CHR ''='' \<in> set s" "hd s \<noteq> CHR ''=''" using False name by auto
    have merge: "map_of (map environ_entry ss) ++ map_of ?envs = map_of (map environ_entry (s # ss)) ++ map_of envs"
      by (auto simp: environ_entry_def map_of_omap_put map_add_def fun_eq_iff split: option.split)
    show ?thesis
    proof (cases "child_environment ss ?envs")
      case (Inl e)
      then show ?thesis using ih unfolding step by auto
    next
      case (Inr out)
      then show ?thesis using ih names unfolding step merge [symmetric] by simp
    qed
  qed
qed simp

section \<open>Pipelines\<close>

text \<open>A process with nothing special: no descriptors of its own, and an environment that can be built.\<close>

definition plain_process :: "'u process_env \<Rightarrow> process \<Rightarrow> bool" where
  "plain_process E p \<longleftrightarrow> \<not> pr_running p \<and> f_input p = None \<and> f_output p = None \<and> f_error p = None \<and> f_prepared_output p = [] \<and>
     f_working_directory p = [] \<and> (\<exists>envs. (if f_forced_environment p then Inr (f_environment p)
       else child_environment (pe_environ E) (f_environment p)) = Inr envs)"

lemmas start_simps = start_process_def prepare_input_def prepare_output_def prepare_error_def after_fork_def act_bind_def
  act_return_def change_process_def ps_system_def ps_system_result_def ps_update_def on_io_def

lemma execute_command_plain:
  assumes "plain_process E p" "\<forall>a b. pe_dup2 E a b" "idx < length (f_prepared_output p')"
    and "f_working_directory p' = f_working_directory p" "f_forced_environment p' = f_forced_environment p"
      "f_environment p' = f_environment p" "f_prepared_input p' \<noteq> -1" "f_prepared_output p' ! idx \<noteq> -1" "f_prepared_error p' = 2"
  shows "\<exists>img. execute_command E idx p' = Inr img \<and> ci_stdin img = f_prepared_input p' \<and>
    ci_stdout img = f_prepared_output p' ! idx \<and> ci_stderr img = 2 \<and> ci_command img = f_command p'"
proof -
  obtain envs where "(if f_forced_environment p then Inr (f_environment p) else child_environment (pe_environ E) (f_environment p)) = Inr envs"
    using assms(1) by (auto simp: plain_process_def)
  then show ?thesis using assms by (simp add: execute_command_def plain_process_def dup2_to_def split: if_split_asm)
qed

text \<open>The last process of a pipeline: \<open>fifo\<close> is its input.\<close>

lemma start_last:
  assumes p: "plain_process E (ps_processes w i)" "f_next (ps_processes w i) = []"
    and fork: "pe_fork E (ps_os w) = (pid, u)" "pid \<noteq> -1"
  shows "start_process E i (Some q) idx w = (Inr 0, w\<lparr>ps_os := u,
    ps_processes := (ps_processes w)(i := (ps_processes w i)\<lparr>f_prepared_input := pipe_get_socket False (inter_conn q),
      f_prepared_output := [1], f_prepared_error := 2, f_child_pid := pid, pr_running := True\<rparr>),
    ps_children := ps_children w @ [(pid, execute_command E idx ((ps_processes w i)\<lparr>f_prepared_input := pipe_get_socket False (inter_conn q),
      f_prepared_output := [1], f_prepared_error := 2\<rparr>))]\<rparr>)"
  using assms by (simp add: start_simps plain_process_def Let_def)

text \<open>
  C25 (functional): two processes are connected. When \<^verbatim>\<open>start()\<close> finds one process behind the first and the kernel gives it
  what it asks for, both are forked, the standard output of the first is the write end of a pipe, the standard input of
  the second is its read end, the outer ends are the inherited ones, and the parent has closed both ends, so that the
  second sees the end of its input when the first one ends.\<close>

theorem two_processes_connected:
  assumes ij: "i \<noteq> j" "f_next (ps_processes w i) = [j]" "f_next (ps_processes w j) = []"
    and plain: "plain_process E (ps_processes w i)" "plain_process E (ps_processes w j)"
    and idle: "f_intermediate_output_pipe (ps_processes w j) = None" and dup2: "\<forall>a b. pe_dup2 E a b"
    and pipe: "fe_pipe E (ps_os w) = (Some (r, wr), u1)" "r \<noteq> -1" "wr \<noteq> -1"
    and fork: "pe_fork E u1 = (pid1, u2)" "pe_fork E u2 = (pid2, u3)" "pid1 \<noteq> -1" "pid2 \<noteq> -1"
  shows "\<exists>w' img1 img2. start (Suc fuel) E i w = (Inr 0, w') \<and>
    ps_children w' = ps_children w @ [(pid1, Inr img1), (pid2, Inr img2)] \<and>
    ci_command img1 = f_command (ps_processes w i) \<and> ci_stdin img1 = 0 \<and> ci_stdout img1 = wr \<and>
    ci_command img2 = f_command (ps_processes w j) \<and> ci_stdin img2 = r \<and> ci_stdout img2 = 1 \<and>
    ps_os w' = fe_close E wr (fe_close E r u3)"
proof -
  let ?c = "\<lparr>pc_type = PIPE_CHILD_OUTPUT, pc_fd0 = r, pc_fd1 = wr\<rparr>"
  let ?p = "(ps_processes w i)\<lparr>f_prepared_input := 0, f_intermediate_output_pipe := Some (Direct_pipe ?c), f_prepared_output := [wr],
    f_prepared_error := 2\<rparr>"
  define w1 where "w1 = w\<lparr>ps_os := u2, ps_processes := (ps_processes w)(i := ?p\<lparr>f_child_pid := pid1, pr_running := True\<rparr>),
    ps_children := ps_children w @ [(pid1, execute_command E 0 ?p)]\<rparr>"
  have one: "start_process E i None 0 w = (Inr 0, w1)"
    using plain(1) ij(2) pipe fork(1,3)
    by (simp add: start_simps plain_process_def Let_def new_pipe_conn_def fd_env.defs pipe_get_other_socket_def w1_def)
  obtain img1 where img1: "execute_command E 0 ?p = Inr img1" "ci_stdin img1 = 0" "ci_stdout img1 = wr" "ci_command img1 = f_command (ps_processes w i)"
    using execute_command_plain [OF plain(1) dup2, of 0 ?p] pipe(3) by auto
  have j: "ps_processes w1 j = ps_processes w j" using ij(1) by (simp add: w1_def)
  let ?q = "(ps_processes w j)\<lparr>f_prepared_input := r, f_prepared_output := [1], f_prepared_error := 2\<rparr>"
  obtain img2 where img2: "execute_command E 0 ?q = Inr img2" "ci_stdin img2 = r" "ci_stdout img2 = 1" "ci_command img2 = f_command (ps_processes w j)"
    using execute_command_plain [OF plain(2) dup2, of 0 ?q] pipe(2) by auto
  define w2 where "w2 = w1\<lparr>ps_os := u3, ps_processes := (ps_processes w1)(j := ?q\<lparr>f_child_pid := pid2, pr_running := True\<rparr>),
    ps_children := ps_children w1 @ [(pid2, Inr img2)]\<rparr>"
  have "start_process E j (Some (Direct_pipe ?c)) 0 w1 = (Inr 0, w2)"
    using start_last [of E w1 j pid2 u3 "Direct_pipe ?c" 0] plain(2) ij(3) fork(2,4) j img2(1)
    by (simp add: w2_def pipe_get_socket_def) (simp add: w1_def)
  moreover have "f_intermediate_output_pipe (ps_processes w1 i) = Some (Direct_pipe ?c)" by (simp add: w1_def)
  ultimately have two: "start_next E i 0 [j] w1 = (Inr True, w2)" by (simp add: act_bind_def)
  define w3 where "w3 = snd (inter_forked E i w2)"
  have p2: "f_intermediate_output_pipe (ps_processes w2 i) = Some (Direct_pipe ?c)" using ij(1) by (simp add: w2_def w1_def)
  have close: "inter_forked E i w2 = (Inr (), w3)" "ps_os w3 = fe_close E wr (fe_close E r u3)" "ps_children w3 = ps_children w2"
      "ps_processes w3 j = ps_processes w2 j"
    using p2 pipe(2,3) ij(1)
    by (simp_all add: w3_def inter_forked_def pipe_close_def close_fd_def change_process_def fd_env.defs) (simp_all add: w2_def)
  have j2: "f_next (ps_processes w3 j) = []" using close(4) ij(3) by (simp add: w2_def)
  define w4 where "w4 = snd (inter_forked E j w3)"
  have last': "inter_forked E j w3 = (Inr (), w4)" "ps_children w4 = ps_children w3" 
    by (auto simp: w4_def inter_forked_def change_process_def split: option.split inter_pipe.split prod.split)
  have p1: "f_next (ps_processes w1 i) = [j]" "f_prepared_output (ps_processes w1 i) = [wr]" using ij(2) by (simp_all add: w1_def)
  have run: "start (Suc fuel) E i w = (Inr 0, w4)"
    using one two close(1) last'(1) p1 j2
    by (simp add: start_def act_bind_def act_return_def Let_def del: start_next.simps)
  have "ps_processes w3 j = ps_processes w2 j" by (rule close(4))
  then have "f_intermediate_output_pipe (ps_processes w3 j) = f_intermediate_output_pipe (ps_processes w j)" by (simp add: w2_def)
  then have "ps_os w4 = ps_os w3" using idle by (simp add: w4_def inter_forked_def)
  then have "ps_os w4 = fe_close E wr (fe_close E r u3)" using close(2) by simp
  moreover have "ps_children w4 = ps_children w @ [(pid1, Inr img1), (pid2, Inr img2)]"
    using last'(2) close(3) img1(1) by (simp add: w2_def w1_def)
  ultimately show ?thesis using run img1 img2 by blast
qed

text \<open>The tee cannot move a byte: the parent has the wrong end of each of its pipes.\<close>

lemma tee_never_reads: "pc_type p = PIPE_CHILD_INPUT \<Longrightarrow> snd (tee_process_read E p outs u) = (outs, u)"
  by (simp add: tee_process_read_def pipe_read_def)

lemma buffered_never_writes: "pc_type (bp_pipe b) = PIPE_CHILD_OUTPUT \<Longrightarrow> snd (buffered_process_write E b u) = (b, u)"
  by (simp add: buffered_process_write_def pipe_write_def)

text \<open>
  Two processes behind one do not work. The first of them is given the write end of the pipe of the tee as its
  standard input. The second takes its standard output from the vector of its own outputs with the index of the pipe in the
  process before it, which is behind the end of the vector.\<close>

theorem tee_is_miswired:
  assumes ij: "distinct [i, j, k]" "f_next (ps_processes w i) = [j, k]" "f_next (ps_processes w j) = []" "f_next (ps_processes w k) = []"
    and plain: "plain_process E (ps_processes w i)" "plain_process E (ps_processes w j)" "plain_process E (ps_processes w k)"
    and dup2: "\<forall>a b. pe_dup2 E a b"
    and pipe: "fe_pipe E (ps_os w) = (Some (r0, w0), u1)" "fe_pipe E u1 = (Some (r1, w1), u2)" "fe_pipe E u2 = (Some (r2, w2), u3)"
      "w0 \<noteq> -1"
    and fork: "pe_fork E u3 = (pid1, u4)" "pe_fork E u4 = (pid2, u5)" "pe_fork E u5 = (pid3, u6)" "pid1 \<noteq> -1" "pid2 \<noteq> -1" "pid3 \<noteq> -1"
  shows "\<exists>w' img1 img2. start fuel E i w = (Inr 0, w') \<and> ps_children w' = ps_children w @ [(pid1, img1), (pid2, Inr img2), (pid3, Inl Undefined_behaviour)] \<and>
    ci_stdin img2 = w0"
proof -
  let ?b = "\<lambda>r w. \<lparr>bp_pipe = \<lparr>pc_type = PIPE_CHILD_OUTPUT, pc_fd0 = r, pc_fd1 = w\<rparr>, bp_output = [], bp_position = 0\<rparr>"
  let ?c = "\<lparr>pc_type = PIPE_CHILD_INPUT, pc_fd0 = w0, pc_fd1 = r0\<rparr>"
  let ?t = "Tee_pipe ?c [?b r1 w1, ?b r2 w2]"
  let ?p = "(ps_processes w i)\<lparr>f_prepared_input := 0, f_intermediate_output_pipe := Some ?t, f_prepared_output := [w1, w2],
    f_prepared_error := 2\<rparr>"
  define v1 where "v1 = w\<lparr>ps_os := u4, ps_processes := (ps_processes w)(i := ?p\<lparr>f_child_pid := pid1, pr_running := True\<rparr>),
    ps_connections := ps_connections w @ [?t], ps_children := ps_children w @ [(pid1, execute_command E 0 ?p)]\<rparr>"
  have one: "start_process E i None 0 w = (Inr 0, v1)"
    using plain(1) ij(2) pipe fork(1,4)
    by (simp add: start_simps plain_process_def Let_def new_tee_def new_pipe_conn_def fd_env.defs pipe_get_other_socket_def v1_def
        numeral_2_eq_2)
  have j: "ps_processes v1 j = ps_processes w j" "ps_processes v1 k = ps_processes w k" using ij(1) by (auto simp: v1_def)
  let ?q = "(ps_processes w j)\<lparr>f_prepared_input := w0, f_prepared_output := [1], f_prepared_error := 2\<rparr>"
  obtain img2 where img2: "execute_command E 0 ?q = Inr img2" "ci_stdin img2 = w0"
    using execute_command_plain [OF plain(2) dup2, of 0 ?q] pipe(4) by auto
  define v2 where "v2 = v1\<lparr>ps_os := u5, ps_processes := (ps_processes v1)(j := ?q\<lparr>f_child_pid := pid2, pr_running := True\<rparr>),
    ps_children := ps_children v1 @ [(pid2, Inr img2)]\<rparr>"
  have two: "start_process E j (Some ?t) 0 v1 = (Inr 0, v2)"
    using start_last [of E v1 j pid2 u5 ?t 0] plain(2) ij(3) fork(2,5) j(1) img2(1)
    by (simp add: v2_def pipe_get_socket_def) (simp add: v1_def)
  let ?r = "(ps_processes w k)\<lparr>f_prepared_input := w0, f_prepared_output := [1], f_prepared_error := 2\<rparr>"
  have k: "ps_processes v2 k = ps_processes w k" using ij(1) j(2) by (auto simp: v2_def)
  have img3: "execute_command E 1 ?r = Inl Undefined_behaviour"
    using plain(3) dup2 pipe(4) by (auto simp: execute_command_def plain_process_def dup2_to_def)
  define v3 where "v3 = v2\<lparr>ps_os := u6, ps_processes := (ps_processes v2)(k := ?r\<lparr>f_child_pid := pid3, pr_running := True\<rparr>),
    ps_children := ps_children v2 @ [(pid3, Inl Undefined_behaviour)]\<rparr>"
  have three: "start_process E k (Some ?t) 1 v2 = (Inr 0, v3)"
    using start_last [of E v2 k pid3 u6 ?t 1] plain(3) ij(4) fork(3,6) k img3
    by (simp add: v3_def pipe_get_socket_def) (simp add: v2_def)
  have t: "f_intermediate_output_pipe (ps_processes v1 i) = Some ?t" "f_intermediate_output_pipe (ps_processes v2 i) = Some ?t"
    using ij(1) by (auto simp: v1_def v2_def)
  have next': "start_next E i 0 [j, k] v1 = (Inr True, v3)" using two three t by (simp add: act_bind_def)
  define v4 where "v4 = snd (inter_forked E i v3)"
  have last': "inter_forked E i v3 = (Inr (), v4)" "ps_children v4 = ps_children v3"
    by (auto simp: v4_def inter_forked_def change_process_def split: option.split inter_pipe.split prod.split)
  have p1: "f_next (ps_processes v1 i) = [j, k]" "f_prepared_output (ps_processes v1 i) = [w1, w2]" using ij(2) by (simp_all add: v1_def)
  have "start fuel E i w = (Inr 0, v4)"
    using one next' last'(1) p1 by (simp add: start_def act_bind_def act_return_def Let_def del: start_next.simps)
  moreover have "ps_children v4 = ps_children w @ [(pid1, execute_command E 0 ?p), (pid2, Inr img2), (pid3, Inl Undefined_behaviour)]"
    using last'(2) by (simp add: v3_def v2_def v1_def)
  ultimately show ?thesis using img2(2) by blast
qed

section \<open>What is not started\<close>

text \<open>\<open>leaves_process r x nx\<close> holds of a state where the process \<open>r\<close> is \<open>x\<close>, the processes behind each are \<open>nx\<close> and the loop
  does not run.\<close>

definition leaves_process :: "nat \<Rightarrow> process \<Rightarrow> (nat \<Rightarrow> nat list) \<Rightarrow> 'u proc_system \<Rightarrow> bool" where
  "leaves_process r x nx w \<longleftrightarrow> ps_processes w r = x \<and> (\<forall>n. f_next (ps_processes w n) = nx n) \<and> \<not> ps_loop_running w"

lemma keeps_change_process: "i \<noteq> r \<Longrightarrow> (\<And>p. f_next (f p) = f_next p) \<Longrightarrow> keeps (leaves_process r x nx) (change_process i f)"
  by (auto simp: keeps_def leaves_process_def change_process_def)

lemma keeps_ps_system: "keeps (leaves_process r x nx) (ps_system f)" "keeps (leaves_process r x nx) (ps_system_result g)"
  "keeps (leaves_process r x nx) (on_io k h)"
  by (auto simp: keeps_def leaves_process_def ps_system_def ps_system_result_def on_io_def split: prod.split option.split)

lemma keeps_at: "(\<And>w. keeps I (m w)) \<Longrightarrow> I w \<Longrightarrow> I (snd (m w w))"
  by (simp add: keeps_def)

lemma keeps_start_process:
  assumes i: "i \<noteq> r"
  shows "keeps (leaves_process r x nx) (start_process E i q idx)"
proof -
  let ?I = "leaves_process r x nx :: 'a proc_system \<Rightarrow> bool"
  have ion: "keeps ?I (on_io k h)" for k h
    by (auto simp: keeps_def on_io_def leaves_process_def split: option.split prod.split)
  have chg: "keeps ?I (change_process i f)" if "\<And>p. f_next (f p) = f_next p" for f
    using that i by (auto simp: keeps_def change_process_def leaves_process_def)
  have chg_at: "keeps ?I (\<lambda>w. change_process i (f w) w)" if "\<And>w p. f_next (f w p) = f_next p" for f
    using that i by (auto simp: keeps_def change_process_def leaves_process_def)
  have sys: "keeps ?I (ps_system f)" "keeps ?I (ps_system_result g)" for f g
    by (auto simp: keeps_def ps_system_def ps_system_result_def leaves_process_def split: prod.split)
  have upd: "keeps ?I (ps_update (\<lambda>w. w\<lparr>ps_connections := f w\<rparr>))" "keeps ?I (ps_update (\<lambda>w. w\<lparr>ps_children := g w\<rparr>))" for f g
    by (auto simp: keeps_def ps_update_def leaves_process_def)
  have io_then: "keeps ?I (act_bind (on_io k h) (\<lambda>_ w. change_process i (f w) w))" if "\<And>w p. f_next (f w p) = f_next p" for k h f
    by (intro keeps_bind ion chg_at that)
  have inp: "keeps ?I (prepare_input E i q)"
  proof (rule keepsI)
    fix w assume w: "?I w"
    show "?I (snd (prepare_input E i q w))"
      using w keepsD [OF chg w] keepsD [OF io_then w] by (simp add: prepare_input_def split: option.split)
  qed
  have err: "keeps ?I (prepare_error E i)"
  proof (rule keepsI)
    fix w assume w: "?I w"
    show "?I (snd (prepare_error E i w))"
      using w keepsD [OF chg w] keepsD [OF io_then w] by (simp add: prepare_error_def split: option.split)
  qed
  have out: "keeps ?I (prepare_output E i)"
  proof (rule keepsI)
    fix w assume w: "?I w"
    define add where "add fd = (change_process i (\<lambda>p. p\<lparr>f_prepared_output := f_prepared_output p @ [fd]\<rparr>) :: ('a, unit) psact)" for fd
    have a: "keeps ?I (add fd)" for fd unfolding add_def by (rule chg) simp
    have pipe: "keeps ?I (act_bind (ps_system_result (new_pipe_conn (fd_env.truncate E) PIPE_CHILD_OUTPUT)) (\<lambda>c.
           act_bind (change_process i (\<lambda>p. p\<lparr>f_intermediate_output_pipe := Some (Direct_pipe c)\<rparr>)) (\<lambda>_.
             add (pipe_get_other_socket False c))))"
      by (intro keeps_bind sys a chg) simp
    have tee: "keeps ?I (act_bind (ps_system_result (new_tee (fd_env.truncate E) n)) (\<lambda>t.
           act_bind (change_process i (\<lambda>p. p\<lparr>f_intermediate_output_pipe := Some t\<rparr>)) (\<lambda>_.
           act_bind (act_each (\<lambda>b. add (pipe_get_other_socket False (bp_pipe b))) (case t of Tee_pipe c outs \<Rightarrow> outs | _ \<Rightarrow> [])) (\<lambda>_.
             ps_update (\<lambda>w. w\<lparr>ps_connections := ps_connections w @ [t]\<rparr>)))))" for n
      by (intro keeps_bind keeps_each sys a chg upd) simp
    show "?I (snd (prepare_output E i w))"
      using w keepsD [OF a w] keepsD [OF pipe w] keepsD [OF tee w] keepsD [OF io_then w]
      by (simp add: prepare_output_def Let_def add_def [symmetric] split: option.split) (simp add: add_def)
  qed
  have fork: "keeps ?I (after_fork E i idx pid)" for pid
  proof (rule keepsI)
    fix w assume w: "?I w"
    have "keeps ?I (act_bind (ps_update (\<lambda>w. w\<lparr>ps_children := g w\<rparr>)) (\<lambda>_.
        act_bind (change_process i (\<lambda>p. p\<lparr>f_child_pid := pid\<rparr>)) (\<lambda>_.
        act_bind (on_io a h) (\<lambda>_. act_bind (on_io b h) (\<lambda>_. act_bind (on_io c h) (\<lambda>_.
        act_bind (change_process i (\<lambda>p. p\<lparr>pr_running := True\<rparr>)) (\<lambda>_. act_return (0 :: int))))))))" for g a b c h
      by (intro keeps_bind upd chg ion keeps_return) simp_all
    moreover have "keeps ?I (act_bind (change_process i (\<lambda>p. p\<lparr>f_child_pid := -1\<rparr>)) (\<lambda>_. act_return (-1 :: int)))"
      by (intro keeps_bind chg keeps_return) simp
    ultimately show "?I (snd (after_fork E i idx pid w))"
      using w by (simp add: after_fork_def Let_def keeps_def)
  qed
  have "keeps ?I (act_bind (prepare_input E i q) (\<lambda>_. act_bind (prepare_output E i) (\<lambda>_. act_bind (prepare_error E i) (\<lambda>_.
      act_bind (ps_system (pe_fork E)) (after_fork E i idx)))))"
    by (intro keeps_bind inp out err sys fork)
  then show ?thesis by (simp add: keeps_def start_process_def)
qed

text \<open>
  A third stage is never started. \<^verbatim>\<open>start()\<close> starts a process and those directly behind it, and no others: with
  two processes in a chain before it, the third is left as it was, whatever the kernel answers, and \<^verbatim>\<open>wait()\<close>, which walks the
  whole chain, throws \<^verbatim>\<open>cppprocess_not_started\<close>.\<close>

theorem third_stage_not_started:
  assumes chain: "f_next (ps_processes w i) = [j]" "f_next (ps_processes w j) = r # rs" "i \<noteq> r" "j \<noteq> r"
    and idle: "\<not> pr_running (ps_processes w r)" "f_intermediate_output_pipe (ps_processes w r) = None" "\<not> ps_loop_running w"
  shows "ps_processes (snd (start fuel E i w)) r = ps_processes w r \<and>
    fst (wait (Suc (Suc fuel')) E i (snd (start fuel E i w))) = Inl Not_started"
proof -
  let ?I = "leaves_process r (ps_processes w r) (\<lambda>n. f_next (ps_processes w n)) :: 'a proc_system \<Rightarrow> bool"
  have forked: "keeps ?I (inter_forked E n)" for n
  proof (cases "n = r")
    case True
    then show ?thesis using idle(2) by (auto simp: keeps_def inter_forked_def leaves_process_def)
  next
    case False
    then show ?thesis
      by (auto simp: keeps_def inter_forked_def leaves_process_def change_process_def split: option.split inter_pipe.split prod.split)
  qed
  have next': "keeps ?I (start_next E i 0 [j])"
  proof (rule keepsI)
    fix v :: "'a proc_system" assume "?I v"
    from keepsD [OF keeps_start_process [OF chain(4)] this] show "?I (snd (start_next E i 0 [j] v))"
      by (auto simp: snd_act_bind act_return_def split: sum.split)
  qed
  have tail: "keeps ?I (\<lambda>v. case chain_end fuel j v of Inl e \<Rightarrow> (Inl e, v)
        | Inr m \<Rightarrow> act_bind (if f_next (ps_processes v m) = [] then inter_forked E m else act_return ()) (\<lambda>_. act_return (0 :: int)) v)"
  proof (rule keepsI)
    fix v :: "'a proc_system" assume v: "?I v"
    have "keeps ?I (act_bind (if b then inter_forked E m else act_return ()) (\<lambda>_. act_return (0 :: int)))" for b m
      using forked by (intro keeps_bind) auto
    from keepsD [OF this v] v show "?I (snd (case chain_end fuel j v of Inl e \<Rightarrow> (Inl e, v)
        | Inr m \<Rightarrow> act_bind (if f_next (ps_processes v m) = [] then inter_forked E m else act_return ()) (\<lambda>_. act_return (0 :: int)) v))"
      by (simp split: sum.split)
  qed
  have rest: "keeps ?I (\<lambda>v. let next' = f_next (ps_processes v i) in
         if next' \<noteq> [] \<and> length next' \<noteq> length (f_prepared_output (ps_processes v i)) then (Inl Logic_error, v)
         else act_bind (start_next E i 0 next') (\<lambda>ok. if \<not> ok then act_return (-1 :: int)
           else act_bind (inter_forked E i) (\<lambda>_ w. case next' of
               [n] \<Rightarrow> (case chain_end fuel n w of Inl e \<Rightarrow> (Inl e, w)
                | Inr m \<Rightarrow> act_bind (if f_next (ps_processes w m) = [] then inter_forked E m else act_return ()) (\<lambda>_. act_return 0) w)
             | _ \<Rightarrow> (Inr 0, w))) v)"
  proof (rule keepsI)
    fix v :: "'a proc_system" assume v: "?I v"
    have "keeps ?I (act_bind (start_next E i 0 [j]) (\<lambda>ok. if \<not> ok then act_return (-1 :: int)
           else act_bind (inter_forked E i) (\<lambda>_ w. case chain_end fuel j w of Inl e \<Rightarrow> (Inl e, w)
                | Inr m \<Rightarrow> act_bind (if f_next (ps_processes w m) = [] then inter_forked E m else act_return ()) (\<lambda>_. act_return 0) w)))"
    proof (rule keeps_bind [OF next'])
      show "keeps ?I (if \<not> ok then act_return (-1 :: int) else act_bind (inter_forked E i) (\<lambda>_ w. case chain_end fuel j w of Inl e \<Rightarrow> (Inl e, w)
                | Inr m \<Rightarrow> act_bind (if f_next (ps_processes w m) = [] then inter_forked E m else act_return ()) (\<lambda>_. act_return 0) w))" for ok
        using keeps_bind [OF forked tail] by (cases ok) simp_all
    qed
    from keepsD [OF this v] v show "?I (snd (let next' = f_next (ps_processes v i) in
         if next' \<noteq> [] \<and> length next' \<noteq> length (f_prepared_output (ps_processes v i)) then (Inl Logic_error, v)
         else act_bind (start_next E i 0 next') (\<lambda>ok. if \<not> ok then act_return (-1 :: int)
           else act_bind (inter_forked E i) (\<lambda>_ w. case next' of
               [n] \<Rightarrow> (case chain_end fuel n w of Inl e \<Rightarrow> (Inl e, w)
                | Inr m \<Rightarrow> act_bind (if f_next (ps_processes w m) = [] then inter_forked E m else act_return ()) (\<lambda>_. act_return 0) w)
             | _ \<Rightarrow> (Inr 0, w))) v))"
      using chain(1) by (simp add: leaves_process_def Let_def del: start_next.simps cong: if_cong)
  qed
  have "keeps ?I (start fuel E i)"
    unfolding start_def by (rule keeps_bind [OF keeps_start_process [OF chain(3)]]) (simp add: rest del: start_next.simps)
  moreover have "?I w" using idle(3) by (simp add: leaves_process_def)
  ultimately have after: "?I (snd (start fuel E i w))" by (rule keepsD)
  then show ?thesis using chain(1,2) idle(1)
    by (auto simp: leaves_process_def wait_def res_bind_def split: sum.split)
qed

text \<open>\<^verbatim>\<open>f_running\<close> is never reset, so a process object is good for one run.\<close>

lemma process_runs_once: "pr_running (ps_processes w i) \<Longrightarrow> start fuel E i w = (Inr (-1), w)"
  by (simp add: start_def start_process_def act_bind_def act_return_def)

lemma child_done_still_running:
  "\<not> f_process_done (ps_processes w i) \<Longrightarrow> pr_running (ps_processes w i) \<Longrightarrow> pr_running (ps_processes (snd (child_done E i status w)) i)"
  by (simp add: child_done_def act_bind_def change_process_def act_when_def act_return_def)

section \<open>A system to try the theorems on\<close>

text \<open>The kernel is the next descriptor and the next process number.\<close>

definition demo_process_env :: "(int \<times> int) process_env" where
  "demo_process_env = \<lparr>fe_socketpair = (\<lambda>u. (None, u)), fe_pipe = (\<lambda>(d, p). (Some (d, d + 1), d + 2, p)), fe_close = (\<lambda>fd u. u),
     fe_open = (\<lambda>n f m u. (-1, u)), fe_read_fd = (\<lambda>fd n u. (Inl EBADF, u)), fe_write_fd = (\<lambda>fd s u. (Inl EBADF, u)),
     pe_fork = (\<lambda>(d, p). (p, d, p + 1)), pe_chdir = (\<lambda>_. True), pe_dup2 = (\<lambda>_ _. True), pe_environ = [''A=b''], pe_glob = (\<lambda>_. None),
     pe_kill = (\<lambda>_ _ u. (0, u)), pe_run = act_return (), pe_process_done = (\<lambda>_ _. act_return ())\<rparr>"

definition demo_processes :: "(nat \<Rightarrow> nat list) \<Rightarrow> (int \<times> int) proc_system" where
  "demo_processes behind = \<lparr>ps_processes = (\<lambda>n. (new_process [])\<lparr>f_next := behind n\<rparr>), ps_ios = (\<lambda>_. new_io_file 0), ps_children = [],
     ps_connections = [], ps_loop_running = False, ps_listeners = [], ps_os = (10, 100)\<rparr>"

lemma demo_plain: "plain_process demo_process_env (ps_processes (demo_processes behind) n)"
  by (simp add: plain_process_def demo_processes_def new_process_def demo_process_env_def)

theorem child_environment_spec_witness:
  "\<exists>out. child_environment [''A=b'', ''C=d'', ''A=e''] [(''C'', ''x'')] = Inr out \<and> map_of out ''A'' = Some ''b'' \<and> map_of out ''C'' = Some ''x''"
proof -
  have run: "child_environment [''A=b'', ''C=d'', ''A=e''] [(''C'', ''x'')] = Inr [(''A'', ''b''), (''C'', ''x'')]" by simp
  have "map_of [(''A'', ''b''), (''C'', ''x'')] = map_of (map environ_entry [''A=b'', ''C=d'', ''A=e'']) ++ map_of [(''C'', ''x'')]"
    using child_environment_spec [of "[(''C'', ''x'')]" "[''A=b'', ''C=d'', ''A=e'']"] unfolding run by simp
  then show ?thesis using run by (auto simp: fun_eq_iff)
qed

theorem two_processes_connected_witness:
  "\<exists>w' img1 img2. start 1 demo_process_env 0 (demo_processes (\<lambda>n. if n = 0 then [1] else [])) = (Inr 0, w') \<and>
    ps_children w' = [(100, Inr img1), (101, Inr img2)] \<and> ci_stdout img1 = 11 \<and> ci_stdin img2 = 10"
  using two_processes_connected [of 0 1 "demo_processes (\<lambda>n. if n = 0 then [1] else [])" demo_process_env 10 11 "(12, 100)" 100 "(12, 101)" 101 "(12, 102)" 0,
      OF _ _ _ demo_plain demo_plain]
  by (auto simp: demo_processes_def demo_process_env_def new_process_def)

theorem tee_is_miswired_witness:
  "\<exists>w' img1 img2. start 0 demo_process_env 0 (demo_processes (\<lambda>n. if n = 0 then [1, 2] else [])) = (Inr 0, w') \<and>
    ps_children w' = [(100, img1), (101, Inr img2), (102, Inl Undefined_behaviour)] \<and> ci_stdin img2 = 11"
  using tee_is_miswired [of 0 1 2 "demo_processes (\<lambda>n. if n = 0 then [1, 2] else [])" demo_process_env 10 11 "(12, 100)" 12 13 "(14, 100)" 14 15
      "(16, 100)" 100 "(16, 101)" 101 "(16, 102)" 102 "(16, 103)" 0, OF _ _ _ _ demo_plain demo_plain demo_plain]
  by (auto simp: demo_processes_def demo_process_env_def new_process_def)

theorem third_stage_not_started_witness:
  "fst (wait 2 demo_process_env 0 (snd (start 5 demo_process_env 0 (demo_processes (\<lambda>n. if n < 2 then [n + 1] else []))))) = Inl Not_started"
  using third_stage_not_started [of "demo_processes (\<lambda>n. if n < 2 then [n + 1] else [])" 0 1 2 "[]" 5 demo_process_env 0]
  by (simp add: demo_processes_def new_process_def numeral_2_eq_2)

end
