(* ===== verification/Act_Spec.thy ===== *)
theory Act_Spec
  imports Prelude
begin

text \<open>
  Calls of the system as actions, the smart pointers of a function that throws, and what an action leaves behind: from a state
  with \<open>P\<close>, one that returns \<open>r\<close> ends with \<open>Q r\<close>, one that throws with \<open>X\<close>.
\<close>

section \<open>Calls\<close>

definition act_call :: "('u \<Rightarrow> 'r \<times> 'u) \<Rightarrow> ('u, 'r) act" where
  "act_call f u = (case f u of (a, u') \<Rightarrow> (Inr a, u'))"

definition act_do :: "('u \<Rightarrow> 'u) \<Rightarrow> ('u, unit) act" where
  "act_do f u = (Inr (), f u)"

text \<open>A smart pointer on the stack: its object is freed when the rest of the function throws.\<close>

definition owning :: "('u \<Rightarrow> 'u) \<Rightarrow> ('u, 'r) act \<Rightarrow> ('u, 'r) act" where
  "owning free m u = (case m u of (Inl e, u') \<Rightarrow> (Inl e, free u') | r \<Rightarrow> r)"

lemmas act_defs = act_bind_def act_return_def act_throw_def act_call_def act_do_def owning_def

section \<open>What an action leaves behind\<close>

definition act_spec :: "('u \<Rightarrow> bool) \<Rightarrow> ('u, 'r) act \<Rightarrow> ('r \<Rightarrow> 'u \<Rightarrow> bool) \<Rightarrow> ('u \<Rightarrow> bool) \<Rightarrow> bool" where
  "act_spec P m Q X \<longleftrightarrow> (\<forall>u. P u \<longrightarrow> (case m u of (Inl e, u') \<Rightarrow> X u' | (Inr r, u') \<Rightarrow> Q r u'))"

lemma act_specI:
  "(\<And>u e u'. P u \<Longrightarrow> m u = (Inl e, u') \<Longrightarrow> X u') \<Longrightarrow> (\<And>u r u'. P u \<Longrightarrow> m u = (Inr r, u') \<Longrightarrow> Q r u') \<Longrightarrow> act_spec P m Q X"
  by (auto simp: act_spec_def split: prod.split sum.split)

lemma act_specD:
  "act_spec P m Q X \<Longrightarrow> P u \<Longrightarrow> m u = (Inl e, u') \<Longrightarrow> X u'" "act_spec P m Q X \<Longrightarrow> P u \<Longrightarrow> m u = (Inr r, u') \<Longrightarrow> Q r u'"
  by (auto simp: act_spec_def dest!: spec [of _ u])

lemma spec_return: "(\<And>u. P u \<Longrightarrow> Q r u) \<Longrightarrow> act_spec P (act_return r) Q X"
  by (simp add: act_spec_def act_return_def)

lemma spec_throw: "(\<And>u. P u \<Longrightarrow> X u) \<Longrightarrow> act_spec P (act_throw e) Q X"
  by (simp add: act_spec_def act_throw_def)

lemma spec_bind:
  assumes m: "act_spec P m R X" and f: "\<And>a. act_spec (R a) (f a) Q X"
  shows "act_spec P (act_bind m f) Q X"
proof (rule act_specI)
  fix u e u' assume u: "P u" and run: "act_bind m f u = (Inl e, u')"
  obtain r v where mu: "m u = (r, v)" by (cases "m u")
  show "X u'" using run mu act_specD [OF m u] act_specD(1) [OF f] by (cases r) (auto simp: act_bind_def)
next
  fix u b u' assume u: "P u" and run: "act_bind m f u = (Inr b, u')"
  obtain r v where mu: "m u = (r, v)" by (cases "m u")
  show "Q b u'" using run mu act_specD [OF m u] act_specD(2) [OF f] by (cases r) (auto simp: act_bind_def)
qed

lemma spec_call: "(\<And>u. P u \<Longrightarrow> Q (fst (f u)) (snd (f u))) \<Longrightarrow> act_spec P (act_call f) Q X"
  by (simp add: act_spec_def act_call_def case_prod_beta)

lemma spec_do: "(\<And>u. P u \<Longrightarrow> Q () (f u)) \<Longrightarrow> act_spec P (act_do f) Q X"
  by (simp add: act_spec_def act_do_def)

lemma spec_owning:
  assumes m: "act_spec P m Q Y" and free: "\<And>u. Y u \<Longrightarrow> X (free u)"
  shows "act_spec P (owning free m) Q X"
proof (rule act_specI)
  fix u e u' assume "P u" and run: "owning free m u = (Inl e, u')"
  then show "X u'" using act_specD(1) [OF m] free by (auto simp: owning_def split: prod.splits sum.splits)
next
  fix u b u' assume "P u" and run: "owning free m u = (Inr b, u')"
  then show "Q b u'" using act_specD(2) [OF m] by (auto simp: owning_def split: prod.splits sum.splits)
qed

lemma spec_weaken:
  assumes "act_spec P m Q X" "\<And>u. P' u \<Longrightarrow> P u" "\<And>r u. Q r u \<Longrightarrow> Q' r u" "\<And>u. X u \<Longrightarrow> X' u"
  shows "act_spec P' m Q' X'"
  by (rule act_specI) (use assms(2-) act_specD [OF assms(1)] in blast)+

lemma spec_assume: "(A \<Longrightarrow> act_spec P m Q X) \<Longrightarrow> act_spec (\<lambda>u. A \<and> P u) m Q X"
  by (auto simp: act_spec_def)

lemma spec_steady: "(\<And>u. P (snd (f u)) = P u) \<Longrightarrow> act_spec P (act_call f) (\<lambda>_. P) X"
  by (rule spec_call) simp

lemma spec_steady_do: "(\<And>u. P (f u) = P u) \<Longrightarrow> act_spec P (act_do f) (\<lambda>_. P) X"
  by (rule spec_do) simp

section \<open>Ownership\<close>

text \<open>
  \<open>owned\<close> are the descriptors, or the pointers, that somebody has to give back. Of these, \<open>base\<close> are those of others and \<open>A\<close>
  ours.\<close>

definition own :: "('u \<Rightarrow> 'p set) \<Rightarrow> 'p set \<Rightarrow> 'p set \<Rightarrow> 'u \<Rightarrow> bool" where
  "own owned base A u \<longleftrightarrow> owned u = base \<union> A \<and> base \<inter> A = {}"

lemma own_cong: "owned u' = owned u \<Longrightarrow> own owned base A u' = own owned base A u"
  by (simp add: own_def)

lemma own_free: "owned u' = owned u - {p} \<Longrightarrow> p \<notin> A \<Longrightarrow> own owned base (insert p A) u \<Longrightarrow> own owned base A u'"
  by (auto simp: own_def)

lemma own_new: "owned u' = insert p (owned u) \<Longrightarrow> p \<notin> owned u \<Longrightarrow> own owned base A u \<Longrightarrow> p \<notin> A \<and> own owned base (insert p A) u'"
  by (auto simp: own_def)

lemma own_start: "own owned (owned u) {} u"
  by (simp add: own_def)

end
