(* ===== verification/Socket_Events.thy ===== *)
theory Socket_Events
  imports Communicator
begin

text \<open>
  Waiting for a local service to listen: \<^verbatim>\<open>socket_events.cpp\<close>. Every \<^verbatim>\<open>socket_events\<close> object has an address; one hidden
  connection, the \<^verbatim>\<open>socket_listener\<close>, asks the kernel through a \<^verbatim>\<open>NETLINK_SOCK_DIAG\<close> socket which of the addresses are
  listened to. It is created with the first object and destroyed with the last. The functions of \<^verbatim>\<open>libaddr\<close>, the
  system calls and the callbacks are parameters.
\<close>

section \<open>The state\<close>

text \<open>
  A \<^verbatim>\<open>socket_evt\<close> has the number of the object it was made for; \<open>sw_listening\<close> is its flag. \<open>sl_version\<close> counts the changes of the
  deque: each of them invalidates its iterators. \<open>sw_objects\<close> has the address of the objects that are alive.\<close>

record socket_listener =
  sl_events :: "nat list"
  sl_version :: nat
  sl_enabled :: bool

record ('a, 'u) socket_world =
  g_socket_listener :: "nat option"
  sw_listeners :: "nat \<Rightarrow> socket_listener"
  sw_next_listener :: nat
  sw_communicator :: "nat list"
  sw_objects :: "nat \<Rightarrow> 'a option"
  sw_listening :: "nat \<Rightarrow> bool"
  sw_os :: 'u

type_synonym ('a, 'u, 'r) swact = "(('a, 'u) socket_world, 'r) act"

text \<open>A message of the kernel, as the macros \<^verbatim>\<open>NLMSG_OK\<close> and \<^verbatim>\<open>NLMSG_NEXT\<close> find it in the buffer. The flags say whether its length is that
  of its type. Ports and addresses are as they are in memory.\<close>

datatype nlmsg =
    Nl_done
  | Nl_error bool int
  | Nl_diag bool int "16 word" "32 word"
  | Nl_other int

datatype received = Recv_failed errno | Recv_nothing | Recv_messages "nlmsg list"

record ('a, 'u) socket_env =
  ne_is_ipv4 :: "'a \<Rightarrow> bool"
  ne_get_port :: "'a \<Rightarrow> int"
  ne_sin_port :: "'a \<Rightarrow> 16 word"
  ne_sin_addr :: "'a \<Rightarrow> 32 word"
  ne_socket :: "'u \<Rightarrow> bool \<times> 'u"
  ne_recvmsg :: "'u \<Rightarrow> received \<times> 'u"
  ne_sendmsg :: "(16 word \<times> 32 word) list \<Rightarrow> 'u \<Rightarrow> bool \<times> 'u"
  ne_listening :: "nat \<Rightarrow> ('a, 'u, unit) swact"
  ne_error :: "nat \<Rightarrow> ('a, 'u, unit) swact"
  ne_hup :: "nat \<Rightarrow> ('a, 'u, unit) swact"
  ne_invalid :: "nat \<Rightarrow> ('a, 'u, unit) swact"

definition sw_update :: "(('a, 'u) socket_world \<Rightarrow> ('a, 'u) socket_world) \<Rightarrow> ('a, 'u, unit) swact" where
  "sw_update f w = (Inr (), f w)"

definition sw_system :: "('u \<Rightarrow> 'r \<times> 'u) \<Rightarrow> ('a, 'u, 'r) swact" where
  "sw_system f w = (case f (sw_os w) of (a, u) \<Rightarrow> (Inr a, w\<lparr>sw_os := u\<rparr>))"

definition change_listener :: "nat \<Rightarrow> (socket_listener \<Rightarrow> socket_listener) \<Rightarrow> ('a, 'u) socket_world \<Rightarrow> ('a, 'u) socket_world" where
  "change_listener l f w = w\<lparr>sw_listeners := (sw_listeners w)(l := f (sw_listeners w l))\<rparr>"

section \<open>The listener\<close>

definition new_socket_listener :: socket_listener where
  "new_socket_listener = \<lparr>sl_events = [], sl_version = 0, sl_enabled = True\<rparr>"

definition sl_instance :: "('a, 'u) socket_env \<Rightarrow> ('a, 'u, nat) swact" where
  "sl_instance E w =
     (case g_socket_listener w of
        Some l \<Rightarrow> (Inr l, w)
      | None \<Rightarrow>
          act_bind (sw_system (ne_socket E)) (\<lambda>ok w.
            if \<not> ok then (Inl Runtime_error, w)
            else let l = sw_next_listener w in
              (Inr l, w\<lparr>g_socket_listener := Some l, sw_listeners := (sw_listeners w)(l := new_socket_listener),
                 sw_next_listener := l + 1, sw_communicator := sw_communicator w @ [l]\<rparr>)) w)"

definition add_socket_events :: "('a, 'u) socket_env \<Rightarrow> nat \<Rightarrow> 'a \<Rightarrow> nat \<Rightarrow> ('a, 'u, unit) swact" where
  "add_socket_events E evts addr l =
     (if \<not> ne_is_ipv4 E addr then act_throw Invalid_parameter
      else sw_update (\<lambda>w. change_listener l (\<lambda>s. s\<lparr>sl_events := sl_events s @ [evts], sl_version := sl_version s + 1, sl_enabled := True\<rparr>)
             (w\<lparr>sw_listening := (sw_listening w)(evts := False)\<rparr>)))"

definition sl_lost_connection :: "nat \<Rightarrow> nat \<Rightarrow> ('a, 'u, unit) swact" where
  "sl_lost_connection evts l =
     sw_update (\<lambda>w. change_listener l (\<lambda>s. s\<lparr>sl_enabled := True\<rparr>)
       (if evts \<in> set (sl_events (sw_listeners w l)) then w\<lparr>sw_listening := (sw_listening w)(evts := False)\<rparr> else w))"

definition remove_socket_events :: "nat \<Rightarrow> nat \<Rightarrow> ('a, 'u, unit) swact" where
  "remove_socket_events evts l =
     sw_update (\<lambda>w.
       if evts \<in> set (sl_events (sw_listeners w l)) then
         let w' = change_listener l (\<lambda>s. s\<lparr>sl_events := remove1 evts (sl_events s), sl_version := sl_version s + 1\<rparr>) w
         in if sl_events (sw_listeners w' l) = []
            then w'\<lparr>g_socket_listener := None,
                   sw_communicator := (case g_socket_listener w' of Some g \<Rightarrow> remove1 g (sw_communicator w') | None \<Rightarrow> sw_communicator w')\<rparr>
            else w'
       else w)"

definition sl_is_writer :: "nat \<Rightarrow> ('a, 'u) socket_world \<Rightarrow> bool" where
  "sl_is_writer l w \<longleftrightarrow> (\<exists>e \<in> set (sl_events (sw_listeners w l)). \<not> sw_listening w e)"

definition sl_process_timeout :: "nat \<Rightarrow> ('a, 'u, unit) swact" where
  "sl_process_timeout l =
     sw_update (\<lambda>w. if \<exists>e \<in> set (sl_events (sw_listeners w l)). \<not> sw_listening w e then w
       else change_listener l (\<lambda>s. s\<lparr>sl_enabled := False\<rparr>) w)"

text \<open>A range based \<^verbatim>\<open>for\<close> over the deque itself: \<open>v\<close> is the version its iterators are of.\<close>

fun deque_each :: "nat \<Rightarrow> nat \<Rightarrow> (nat \<Rightarrow> ('a, 'u, unit) swact) \<Rightarrow> nat list \<Rightarrow> ('a, 'u, unit) swact" where
  "deque_each l v f [] w = (if sl_version (sw_listeners w l) \<noteq> v then (Inl Undefined_behaviour, w) else (Inr (), w))"
| "deque_each l v f (e # es) w =
     (if sl_version (sw_listeners w l) \<noteq> v then (Inl Undefined_behaviour, w)
      else act_bind (f e) (\<lambda>_. deque_each l v f es) w)"

definition for_deque :: "nat \<Rightarrow> (nat \<Rightarrow> ('a, 'u, unit) swact) \<Rightarrow> ('a, 'u, unit) swact" where
  "for_deque l f w = deque_each l (sl_version (sw_listeners w l)) f (sl_events (sw_listeners w l)) w"

text \<open>A method of an object is called through a plain pointer.\<close>

definition with_object :: "nat \<Rightarrow> ('a \<Rightarrow> ('a, 'u, unit) swact) \<Rightarrow> ('a, 'u, unit) swact" where
  "with_object e f w = (case sw_objects w e of None \<Rightarrow> (Inl Undefined_behaviour, w) | Some a \<Rightarrow> f a w)"

definition not_listening :: "(nat \<Rightarrow> ('a, 'u, unit) swact) \<Rightarrow> nat \<Rightarrow> ('a, 'u, unit) swact" where
  "not_listening f e w = (if sw_listening w e then (Inr (), w) else with_object e (\<lambda>_. f e) w)"

definition diag_event :: "('a, 'u) socket_env \<Rightarrow> 16 word \<Rightarrow> 32 word \<Rightarrow> nat \<Rightarrow> ('a, 'u, unit) swact" where
  "diag_event E sport src e w =
     (if sw_listening w e then (Inr (), w)
      else with_object e (\<lambda>a.
        if ne_get_port E a = uint sport \<and> ne_sin_addr E a = src
        then act_bind (ne_listening E e) (\<lambda>_. sw_update (\<lambda>w. w\<lparr>sw_listening := (sw_listening w)(e := True)\<rparr>))
        else act_return ()) w)"

definition TCP_LISTEN_STATE :: int where "TCP_LISTEN_STATE = 10"

text \<open>The result says whether \<^verbatim>\<open>process_read()\<close> returns.\<close>

fun sl_message :: "('a, 'u) socket_env \<Rightarrow> nat \<Rightarrow> nlmsg \<Rightarrow> ('a, 'u, bool) swact" where
  "sl_message E l Nl_done = act_return True"
| "sl_message E l (Nl_error ok err) = act_return False"
| "sl_message E l (Nl_diag ok state sport src) =
     (if \<not> ok then act_return True
      else if state = TCP_LISTEN_STATE then act_bind (for_deque l (diag_event E sport src)) (\<lambda>_. act_return False)
      else act_return False)"
| "sl_message E l (Nl_other t) = act_return False"

fun sl_messages :: "('a, 'u) socket_env \<Rightarrow> nat \<Rightarrow> nlmsg list \<Rightarrow> ('a, 'u, bool) swact" where
  "sl_messages E l [] = act_return False"
| "sl_messages E l (m # ms) = act_bind (sl_message E l m) (\<lambda>stop. if stop then act_return True else sl_messages E l ms)"

fun sl_process_read :: "nat \<Rightarrow> ('a, 'u) socket_env \<Rightarrow> nat \<Rightarrow> ('a, 'u, unit) swact" where
  "sl_process_read 0 E l = act_throw No_fuel"
| "sl_process_read (Suc fuel) E l =
     act_bind (sw_system (ne_recvmsg E)) (\<lambda>r.
       case r of
         Recv_failed e \<Rightarrow> act_return ()
       | Recv_nothing \<Rightarrow> act_return ()
       | Recv_messages ms \<Rightarrow> act_bind (sl_messages E l ms) (\<lambda>stop. if stop then act_return () else sl_process_read fuel E l))"

definition sl_process_error :: "('a, 'u) socket_env \<Rightarrow> nat \<Rightarrow> ('a, 'u, unit) swact" where
  "sl_process_error E l w = act_each (not_listening (ne_error E)) (sl_events (sw_listeners w l)) w"

definition sl_process_hup :: "('a, 'u) socket_env \<Rightarrow> nat \<Rightarrow> ('a, 'u, unit) swact" where
  "sl_process_hup E l = for_deque l (not_listening (ne_hup E))"

definition sl_process_invalid :: "('a, 'u) socket_env \<Rightarrow> nat \<Rightarrow> ('a, 'u, unit) swact" where
  "sl_process_invalid E l = for_deque l (not_listening (ne_invalid E))"

text \<open>One request for each object that waits; the address of an object is read through the pointer.\<close>

fun sl_requests :: "('a, 'u) socket_env \<Rightarrow> ('a, 'u) socket_world \<Rightarrow> nat list \<Rightarrow> (16 word \<times> 32 word) list result" where
  "sl_requests E w [] = Inr []"
| "sl_requests E w (e # es) =
     (if sw_listening w e then sl_requests E w es
      else case sw_objects w e of
        None \<Rightarrow> Inl Undefined_behaviour
      | Some a \<Rightarrow> res_bind (sl_requests E w es) (\<lambda>rs. Inr ((ne_sin_port E a, ne_sin_addr E a) # rs)))"

definition sl_process_write :: "('a, 'u) socket_env \<Rightarrow> nat \<Rightarrow> ('a, 'u, unit) swact" where
  "sl_process_write E l w =
     (case sl_requests E w (sl_events (sw_listeners w l)) of
        Inl e \<Rightarrow> (Inl e, w)
      | Inr req \<Rightarrow> act_bind (sw_system (ne_sendmsg E req)) (\<lambda>ok. if ok then act_return () else sl_process_error E l) w)"

section \<open>The objects\<close>

text \<open>The constructor: when it throws there is no object, and its destructor is not called.\<close>

definition new_socket_events :: "('a, 'u) socket_env \<Rightarrow> nat \<Rightarrow> 'a \<Rightarrow> ('a, 'u, unit) swact" where
  "new_socket_events E evts addr =
     act_bind (sl_instance E) (\<lambda>l. act_bind (add_socket_events E evts addr l) (\<lambda>_.
       sw_update (\<lambda>w. w\<lparr>sw_objects := (sw_objects w)(evts \<mapsto> addr)\<rparr>)))"

definition destroy_socket_events :: "('a, 'u) socket_env \<Rightarrow> nat \<Rightarrow> ('a, 'u, unit) swact" where
  "destroy_socket_events E evts =
     act_bind (sl_instance E) (\<lambda>l. act_bind (remove_socket_events evts l) (\<lambda>_.
       sw_update (\<lambda>w. w\<lparr>sw_objects := (sw_objects w)(evts := None)\<rparr>)))"

definition lost_connection :: "('a, 'u) socket_env \<Rightarrow> nat \<Rightarrow> ('a, 'u, unit) swact" where
  "lost_connection E evts = act_bind (sl_instance E) (sl_lost_connection evts)"

section \<open>One listener for all objects\<close>

definition sw_ok :: "('a, 'u) socket_env \<Rightarrow> ('a, 'u) socket_world \<Rightarrow> bool" where
  "sw_ok E w \<longleftrightarrow>
     (case g_socket_listener w of
        None \<Rightarrow> sw_communicator w = [] \<and> (\<forall>e. sw_objects w e = None)
      | Some l \<Rightarrow> let s = sw_listeners w l in
          sw_communicator w = [l] \<and> distinct (sl_events s) \<and> set (sl_events s) = dom (sw_objects w) \<and>
          (sl_enabled s \<or> (\<forall>e \<in> set (sl_events s). sw_listening w e)) \<and>
          ((\<forall>a. ne_is_ipv4 E a) \<longrightarrow> sl_events s \<noteq> []))"

lemma keeps_sw_system: "keeps (sw_ok E) (sw_system f)"
  by (auto simp: keeps_def sw_system_def sw_ok_def split: prod.split option.split)

lemma keeps_new_socket_events: "sw_objects w e = None \<Longrightarrow> sw_ok E w \<Longrightarrow> sw_ok E (snd (new_socket_events E e a w))"
  by (auto simp: new_socket_events_def sl_instance_def act_bind_def sw_system_def add_socket_events_def act_throw_def sw_update_def
      change_listener_def sw_ok_def new_socket_listener_def Let_def split: option.splits prod.split if_splits)

lemma remove1_empty: "distinct es \<Longrightarrow> remove1 e es = [] \<Longrightarrow> set es \<subseteq> {e}"
  using set_remove1_eq [of es e] by auto

lemma keeps_destroy:
  assumes "sw_objects w e \<noteq> None" "sw_ok E w"
  shows "sw_ok E (snd (destroy_socket_events E e w))"
proof -
  obtain l where l: "g_socket_listener w = Some l" "sw_communicator w = [l]" "distinct (sl_events (sw_listeners w l))"
      "set (sl_events (sw_listeners w l)) = dom (sw_objects w)"
    using assms by (auto simp: sw_ok_def Let_def split: option.splits)
  have "sw_objects w x = None" if "remove1 e (sl_events (sw_listeners w l)) = []" "x \<noteq> e" for x
    using remove1_empty [OF l(3) that(1)] l(4) that(2) by auto
  then show ?thesis
    using assms l by (auto simp: destroy_socket_events_def sl_instance_def act_bind_def remove_socket_events_def sw_update_def
      change_listener_def sw_ok_def Let_def)
qed

lemma keeps_lost_connection: "sw_objects w e \<noteq> None \<Longrightarrow> sw_ok E w \<Longrightarrow> sw_ok E (snd (lost_connection E e w))"
  by (auto simp: lost_connection_def sl_lost_connection_def sl_instance_def act_bind_def sw_update_def
      change_listener_def sw_ok_def Let_def split: option.splits)

lemma keeps_process_timeout: "keeps (sw_ok E) (sl_process_timeout l)"
  by (rule keepsI) (auto simp: sl_process_timeout_def sw_update_def change_listener_def sw_ok_def Let_def split: option.splits)

text \<open>The callbacks may do anything that keeps the invariant, create and destroy objects for example, and may throw.\<close>

definition socket_callbacks_keep :: "('a, 'u) socket_env \<Rightarrow> bool" where
  "socket_callbacks_keep E \<longleftrightarrow>
     (\<forall>e. keeps (sw_ok E) (ne_listening E e) \<and> keeps (sw_ok E) (ne_error E e) \<and> keeps (sw_ok E) (ne_hup E e) \<and> keeps (sw_ok E) (ne_invalid E e))"

lemma keeps_for_deque:
  assumes "\<And>e. keeps I (f e)"
  shows "keeps I (for_deque l f)"
proof -
  have "I w \<Longrightarrow> I (snd (deque_each l v f es w))" for v es w
  proof (induction es arbitrary: w)
    case (Cons e es)
    then show ?case using keepsD [OF assms] by (auto simp: snd_act_bind split: sum.split)
  qed simp
  then show ?thesis by (simp add: keeps_def for_deque_def)
qed

lemma keeps_with_object: "(\<And>a. keeps I (f a)) \<Longrightarrow> keeps I (with_object e f)"
  by (auto simp: keeps_def with_object_def split: option.split)

lemma keeps_not_listening: "keeps I (f e) \<Longrightarrow> keeps I (not_listening f e)"
  by (auto simp: keeps_def not_listening_def with_object_def split: option.split)

lemma keeps_diag_event: "socket_callbacks_keep E \<Longrightarrow> keeps (sw_ok E) (diag_event E sport src e)"
proof -
  assume E: "socket_callbacks_keep E"
  have "keeps (sw_ok E) (sw_update (\<lambda>w. w\<lparr>sw_listening := (sw_listening w)(e := True)\<rparr>))"
    by (auto simp: keeps_def sw_update_def sw_ok_def Let_def split: option.splits)
  then have "keeps (sw_ok E) (act_bind (ne_listening E e) (\<lambda>_. sw_update (\<lambda>w. w\<lparr>sw_listening := (sw_listening w)(e := True)\<rparr>)))"
    using E by (intro keeps_bind) (simp_all add: socket_callbacks_keep_def)
  then show ?thesis by (auto simp: keeps_def diag_event_def with_object_def act_return_def split: option.split)
qed

lemma keeps_sl_messages:
  assumes E: "socket_callbacks_keep E"
  shows "keeps (sw_ok E) (sl_messages E l ms)"
proof (induction ms)
  case (Cons m ms)
  have "keeps (sw_ok E) (sl_message E l m)"
    using keeps_for_deque [OF keeps_diag_event [OF E]] by (cases m) (auto intro: keeps_bind)
  then show ?case using Cons by (auto intro!: keeps_bind)
qed simp

lemma keeps_process_read: "socket_callbacks_keep E \<Longrightarrow> keeps (sw_ok E) (sl_process_read fuel E l)"
proof (induction fuel)
  case (Suc fuel)
  then show ?case using keeps_sl_messages [OF Suc.prems]
    by (auto intro!: keeps_bind keeps_sw_system split: received.split)
qed simp

lemma keeps_process_error: "socket_callbacks_keep E \<Longrightarrow> keeps (sw_ok E) (sl_process_error E l)"
proof -
  assume E: "socket_callbacks_keep E"
  have "keeps (sw_ok E) (act_each (not_listening (ne_error E)) es)" for es
    using E by (intro keeps_each keeps_not_listening) (simp add: socket_callbacks_keep_def)
  then show ?thesis by (simp add: keeps_def sl_process_error_def)
qed

lemma keeps_process_write:
  assumes E: "socket_callbacks_keep E"
  shows "keeps (sw_ok E) (sl_process_write E l)"
proof -
  have "keeps (sw_ok E) (act_bind (sw_system (ne_sendmsg E req)) (\<lambda>ok. if ok then act_return () else sl_process_error E l))" for req
    using keeps_process_error [OF E] by (auto intro!: keeps_bind keeps_sw_system)
  then show ?thesis by (simp add: keeps_def sl_process_write_def split: sum.split)
qed

inductive socket_life :: "('a, 'u) socket_env \<Rightarrow> ('a, 'u) socket_world \<Rightarrow> bool" for E where
  sk_start: "g_socket_listener w = None \<Longrightarrow> sw_communicator w = [] \<Longrightarrow> (\<And>e. sw_objects w e = None) \<Longrightarrow> socket_life E w"
| sk_new: "socket_life E w \<Longrightarrow> sw_objects w e = None \<Longrightarrow> new_socket_events E e a w = (r, w') \<Longrightarrow> socket_life E w'"
| sk_destroy: "socket_life E w \<Longrightarrow> sw_objects w e \<noteq> None \<Longrightarrow> destroy_socket_events E e w = (r, w') \<Longrightarrow> socket_life E w'"
| sk_lost: "socket_life E w \<Longrightarrow> sw_objects w e \<noteq> None \<Longrightarrow> lost_connection E e w = (r, w') \<Longrightarrow> socket_life E w'"
| sk_timeout: "socket_life E w \<Longrightarrow> sl_process_timeout l w = (r, w') \<Longrightarrow> socket_life E w'"
| sk_read: "socket_life E w \<Longrightarrow> sl_process_read fuel E l w = (r, w') \<Longrightarrow> socket_life E w'"
| sk_write: "socket_life E w \<Longrightarrow> sl_process_write E l w = (r, w') \<Longrightarrow> socket_life E w'"
| sk_error: "socket_life E w \<Longrightarrow> sl_process_error E l w = (r, w') \<Longrightarrow> socket_life E w'"
| sk_hup: "socket_life E w \<Longrightarrow> sl_process_hup E l w = (r, w') \<Longrightarrow> socket_life E w'"
| sk_invalid: "socket_life E w \<Longrightarrow> sl_process_invalid E l w = (r, w') \<Longrightarrow> socket_life E w'"

lemma socket_life_ok:
  assumes E: "socket_callbacks_keep E" and "socket_life E w"
  shows "sw_ok E w"
  using assms(2)
proof induction
  case (sk_start w)
  then show ?case by (simp add: sw_ok_def)
next
  case (sk_new w e a r w')
  then show ?case using keeps_new_socket_events [of w e E a] by simp
next
  case (sk_destroy w e r w')
  then show ?case using keeps_destroy [of w e E] by simp
next
  case (sk_lost w e r w')
  then show ?case using keeps_lost_connection [of w e E] by simp
next
  case (sk_timeout w l r w')
  then show ?case using keepsD [OF keeps_process_timeout, of E w l] by simp
next
  case (sk_read w fuel l r w')
  then show ?case using keepsD [OF keeps_process_read [OF E], of w fuel l] by simp
next
  case (sk_write w l r w')
  then show ?case using keepsD [OF keeps_process_write [OF E], of w l] by simp
next
  case (sk_error w l r w')
  then show ?case using keepsD [OF keeps_process_error [OF E], of w l] by simp
next
  case (sk_hup w l r w')
  have "keeps (sw_ok E) (sl_process_hup E l)"
    using E unfolding sl_process_hup_def by (intro keeps_for_deque keeps_not_listening) (simp add: socket_callbacks_keep_def)
  then show ?case using keepsD [of "sw_ok E" "sl_process_hup E l" w] sk_hup by simp
next
  case (sk_invalid w l r w')
  have "keeps (sw_ok E) (sl_process_invalid E l)"
    using E unfolding sl_process_invalid_def by (intro keeps_for_deque keeps_not_listening) (simp add: socket_callbacks_keep_def)
  then show ?case using keepsD [of "sw_ok E" "sl_process_invalid E l" w] sk_invalid by simp
qed


text \<open>A refused address leaves the listener of the first object in the communicator.\<close>

lemma refused_address_leaves_listener:
  "g_socket_listener w = None \<Longrightarrow> ne_socket E (sw_os w) = (True, u) \<Longrightarrow> \<not> ne_is_ipv4 E a \<Longrightarrow>
   \<exists>w'. new_socket_events E e a w = (Inl Invalid_parameter, w') \<and> sw_objects w' = sw_objects w \<and>
     sw_communicator w' = sw_communicator w @ [sw_next_listener w]"
  by (simp add: new_socket_events_def sl_instance_def act_bind_def sw_system_def add_socket_events_def act_throw_def Let_def)

section \<open>Who is told\<close>

definition request_of :: "('a, 'u) socket_env \<Rightarrow> 'a option \<Rightarrow> 16 word \<times> 32 word" where
  "request_of E a = (ne_sin_port E (the a), ne_sin_addr E (the a))"

definition recognizes :: "('a, 'u) socket_env \<Rightarrow> 'a option \<Rightarrow> 16 word \<times> 32 word \<Rightarrow> bool" where
  "recognizes E a q \<longleftrightarrow> ne_get_port E (the a) = uint (fst q) \<and> ne_sin_addr E (the a) = snd q"

text \<open>
  The kernel has the set of the sockets that listen; \<open>waiting\<close> are the answers not read yet. It answers each request for a
  socket that listens, hands the answers out in pieces of any size and fails when there are none left. \<open>told\<close> are the objects
  whose callback was called; the callbacks change nothing else.\<close>

definition diag_laws :: "('u \<Rightarrow> (16 word \<times> 32 word) list) \<Rightarrow> ('u \<Rightarrow> nat list) \<Rightarrow> (16 word \<times> 32 word) set \<Rightarrow> ('a, 'u) socket_env \<Rightarrow> bool" where
  "diag_laws waiting told listen E \<longleftrightarrow>
     (\<forall>req u. fst (ne_sendmsg E req u) \<and> waiting (snd (ne_sendmsg E req u)) = waiting u @ filter (\<lambda>q. q \<in> listen) req \<and>
        told (snd (ne_sendmsg E req u)) = told u) \<and>
     (\<forall>u. told (snd (ne_recvmsg E u)) = told u \<and>
        (if waiting u = [] then fst (ne_recvmsg E u) = Recv_failed EAGAIN \<and> waiting (snd (ne_recvmsg E u)) = []
         else \<exists>n > 0. fst (ne_recvmsg E u) = Recv_messages (map (\<lambda>(p, s). Nl_diag True TCP_LISTEN_STATE p s) (take n (waiting u))) \<and>
           waiting (snd (ne_recvmsg E u)) = drop n (waiting u))) \<and>
     (\<forall>e w. \<exists>u. ne_listening E e w = (Inr (), w\<lparr>sw_os := u\<rparr>) \<and> told u = told (sw_os w) @ [e] \<and> waiting u = waiting (sw_os w))"

text \<open>What the answers \<open>qs\<close> change: every object that waits and recognizes one of them is told once.\<close>

definition settled :: "('u \<Rightarrow> nat list) \<Rightarrow> ('a, 'u) socket_env \<Rightarrow> nat list \<Rightarrow> (16 word \<times> 32 word) list \<Rightarrow>
    ('a, 'u) socket_world \<Rightarrow> ('a, 'u) socket_world \<Rightarrow> bool" where
  "settled told E es qs w w' \<longleftrightarrow>
     sw_listeners w' = sw_listeners w \<and> sw_objects w' = sw_objects w \<and>
     (\<forall>e. sw_listening w' e \<longleftrightarrow> sw_listening w e \<or> e \<in> set es \<and> (\<exists>q \<in> set qs. recognizes E (sw_objects w e) q)) \<and>
     (\<exists>es'. told (sw_os w') = told (sw_os w) @ es' \<and> distinct es' \<and>
        set es' = {e \<in> set es. \<not> sw_listening w e \<and> (\<exists>q \<in> set qs. recognizes E (sw_objects w e) q)})"

lemma settled_refl: "told (sw_os w') = told (sw_os w) \<Longrightarrow> sw_listeners w' = sw_listeners w \<Longrightarrow> sw_objects w' = sw_objects w \<Longrightarrow>
    sw_listening w' = sw_listening w \<Longrightarrow> settled told E es [] w w'"
  by (simp add: settled_def)

lemma settled_trans:
  assumes "settled told E es qs w w'" "settled told E es rs w' w''"
  shows "settled told E es (qs @ rs) w w''"
proof -
  from assms obtain xs ys where "told (sw_os w') = told (sw_os w) @ xs" "distinct xs"
      "set xs = {e \<in> set es. \<not> sw_listening w e \<and> (\<exists>q \<in> set qs. recognizes E (sw_objects w e) q)}"
      "told (sw_os w'') = told (sw_os w') @ ys" "distinct ys"
      "set ys = {e \<in> set es. \<not> sw_listening w' e \<and> (\<exists>q \<in> set rs. recognizes E (sw_objects w e) q)}"
    by (auto simp: settled_def)
  moreover have "sw_listening w' e \<longleftrightarrow> sw_listening w e \<or> e \<in> set es \<and> (\<exists>q \<in> set qs. recognizes E (sw_objects w e) q)" for e
    using assms(1) by (simp add: settled_def)
  ultimately have "told (sw_os w'') = told (sw_os w) @ (xs @ ys) \<and> distinct (xs @ ys) \<and>
      set (xs @ ys) = {e \<in> set es. \<not> sw_listening w e \<and> (\<exists>q \<in> set (qs @ rs). recognizes E (sw_objects w e) q)}"
    by auto
  moreover have "sw_listening w'' e \<longleftrightarrow> sw_listening w e \<or> e \<in> set es \<and> (\<exists>q \<in> set (qs @ rs). recognizes E (sw_objects w e) q)" for e
    using assms by (auto simp: settled_def)
  moreover have "sw_listeners w'' = sw_listeners w" "sw_objects w'' = sw_objects w" using assms by (simp_all add: settled_def)
  ultimately show ?thesis unfolding settled_def by blast
qed

lemma deque_each_settled:
  assumes laws: "diag_laws waiting told listen E" and "distinct es"
    and "\<And>e. e \<in> set es \<Longrightarrow> sw_objects w e \<noteq> None" "sl_version (sw_listeners w l) = v"
  shows "\<exists>w'. deque_each l v (diag_event E p s) es w = (Inr (), w') \<and> settled told E es [(p, s)] w w' \<and> waiting (sw_os w') = waiting (sw_os w)"
  using assms(2-)
proof (induction es arbitrary: w)
  case Nil
  then show ?case by (simp add: settled_def)
next
  case (Cons e es)
  obtain a where a: "sw_objects w e = Some a" using Cons.prems(2) [of e] by auto
  show ?case
  proof (cases "\<not> sw_listening w e \<and> recognizes E (sw_objects w e) (p, s)")
    case False
    then have "diag_event E p s e w = (Inr (), w)" using a by (auto simp: diag_event_def with_object_def recognizes_def act_return_def)
    then show ?thesis using Cons.IH [of w] Cons.prems False by (auto simp: act_bind_def settled_def)
  next
    case True
    obtain u where u: "ne_listening E e w = (Inr (), w\<lparr>sw_os := u\<rparr>)" "told u = told (sw_os w) @ [e]" "waiting u = waiting (sw_os w)"
      using laws unfolding diag_laws_def by blast
    let ?w = "w\<lparr>sw_os := u, sw_listening := (sw_listening w)(e := True)\<rparr>"
    have one: "diag_event E p s e w = (Inr (), ?w)"
      using True a u(1) by (simp add: diag_event_def with_object_def recognizes_def act_bind_def sw_update_def)
    obtain w' where w': "deque_each l v (diag_event E p s) es ?w = (Inr (), w')" "settled told E es [(p, s)] ?w w'"
        "waiting (sw_os w') = waiting (sw_os ?w)"
      using Cons.IH [of ?w] Cons.prems by auto
    obtain ys where ys: "told (sw_os w') = told u @ ys" "distinct ys"
        "set ys = {x \<in> set es. \<not> sw_listening ?w x \<and> recognizes E (sw_objects w x) (p, s)}"
      using w'(2) by (auto simp: settled_def)
    have "told (sw_os w') = told (sw_os w) @ (e # ys) \<and> distinct (e # ys) \<and>
        set (e # ys) = {x \<in> set (e # es). \<not> sw_listening w x \<and> (\<exists>q \<in> set [(p, s)]. recognizes E (sw_objects w x) q)}"
      using ys u(2) True Cons.prems(1) by auto
    moreover have "sw_listening w' x \<longleftrightarrow> sw_listening w x \<or> x \<in> set (e # es) \<and> (\<exists>q \<in> set [(p, s)]. recognizes E (sw_objects w x) q)" for x
      using w'(2) True by (auto simp: settled_def)
    ultimately have "settled told E (e # es) [(p, s)] w w'" using w'(2) unfolding settled_def by simp
    then show ?thesis using one w'(1,3) u(3) Cons.prems(3) by (simp add: act_bind_def)
  qed
qed

lemma sl_messages_settled:
  assumes laws: "diag_laws waiting told listen E" and es: "sl_events (sw_listeners w l) = es" "distinct es"
    and "\<And>e. e \<in> set es \<Longrightarrow> sw_objects w e \<noteq> None"
  shows "\<exists>w'. sl_messages E l (map (\<lambda>(p, s). Nl_diag True TCP_LISTEN_STATE p s) qs) w = (Inr False, w') \<and> settled told E es qs w w' \<and>
    waiting (sw_os w') = waiting (sw_os w)"
  using es(1) assms(4)
proof (induction qs arbitrary: w)
  case Nil
  then show ?case by (simp add: act_return_def settled_refl)
next
  case (Cons q qs)
  obtain p s where q: "q = (p, s)" by (cases q)
  obtain w1 where w1: "for_deque l (diag_event E p s) w = (Inr (), w1)" "settled told E es [(p, s)] w w1" "waiting (sw_os w1) = waiting (sw_os w)"
    using deque_each_settled [OF laws es(2), of w l _ p s] Cons.prems by (auto simp: for_deque_def)
  have same: "sw_listeners w1 = sw_listeners w" "sw_objects w1 = sw_objects w" using w1(2) by (simp_all add: settled_def)
  obtain w2 where w2: "sl_messages E l (map (\<lambda>(p, s). Nl_diag True TCP_LISTEN_STATE p s) qs) w1 = (Inr False, w2)" "settled told E es qs w1 w2"
      "waiting (sw_os w2) = waiting (sw_os w1)"
    using Cons.IH [of w1] Cons.prems same by auto
  show ?case using settled_trans [OF w1(2) w2(2)] w1(1,3) w2(1,3) q by (simp add: act_bind_def act_return_def)
qed

lemma sl_process_read_settled:
  assumes laws: "diag_laws waiting told listen E" and es: "distinct es"
    and "sl_events (sw_listeners w l) = es" "\<And>e. e \<in> set es \<Longrightarrow> sw_objects w e \<noteq> None" "length (waiting (sw_os w)) < fuel"
  shows "\<exists>w'. sl_process_read fuel E l w = (Inr (), w') \<and> settled told E es (waiting (sw_os w)) w w'"
  using assms(3-)
proof (induction fuel arbitrary: w)
  case (Suc fuel)
  obtain r u where recv: "ne_recvmsg E (sw_os w) = (r, u)" by (cases "ne_recvmsg E (sw_os w)")
  have told: "told u = told (sw_os w)" using laws recv unfolding diag_laws_def by (metis snd_conv)
  show ?case
  proof (cases "waiting (sw_os w) = []")
    case True
    then have "r = Recv_failed EAGAIN" using laws recv unfolding diag_laws_def by (metis fst_conv)
    then show ?thesis using recv told True by (simp add: act_bind_def sw_system_def act_return_def settled_refl)
  next
    case False
    then obtain n where n: "n > 0" "r = Recv_messages (map (\<lambda>(p, s). Nl_diag True TCP_LISTEN_STATE p s) (take n (waiting (sw_os w))))"
        "waiting u = drop n (waiting (sw_os w))"
      using laws recv unfolding diag_laws_def by (metis fst_conv snd_conv)
    let ?w = "w\<lparr>sw_os := u\<rparr>"
    obtain w1 where w1: "sl_messages E l (map (\<lambda>(p, s). Nl_diag True TCP_LISTEN_STATE p s) (take n (waiting (sw_os w)))) ?w = (Inr False, w1)"
        "settled told E es (take n (waiting (sw_os w))) ?w w1" "waiting (sw_os w1) = drop n (waiting (sw_os w))"
      using sl_messages_settled [OF laws _ es, of ?w l "take n (waiting (sw_os w))"] Suc.prems n(3) by auto
    have same: "sw_listeners w1 = sw_listeners w" "sw_objects w1 = sw_objects w" using w1(2) by (simp_all add: settled_def)
    have "length (waiting (sw_os w1)) < fuel" using Suc.prems(3) False n(1) w1(3) by (cases "waiting (sw_os w)"; cases n) auto
    then obtain w2 where w2: "sl_process_read fuel E l w1 = (Inr (), w2)" "settled told E es (waiting (sw_os w1)) w1 w2"
      using Suc.IH [of w1] Suc.prems same by auto
    have "settled told E es (take n (waiting (sw_os w)) @ drop n (waiting (sw_os w))) ?w w2"
      using settled_trans [OF w1(2) w2(2) [unfolded w1(3)]] .
    then have "settled told E es (waiting (sw_os w)) w w2" using told by (simp add: settled_def)
    then show ?thesis using recv n(2) w1(1) w2(1) by (simp add: act_bind_def sw_system_def)
  qed
qed simp

lemma sl_requests_alive: "(\<And>e. e \<in> set es \<Longrightarrow> sw_objects w e \<noteq> None) \<Longrightarrow>
    sl_requests E w es = Inr (map (\<lambda>e. request_of E (sw_objects w e)) (filter (\<lambda>e. \<not> sw_listening w e) es))"
proof (induction es)
  case (Cons e es)
  obtain a where "sw_objects w e = Some a" using Cons.prems [of e] by auto
  then show ?case using Cons by (auto simp: request_of_def)
qed simp

lemma write_then_read:
  assumes laws: "diag_laws waiting told listen E" and es: "sl_events (sw_listeners w l) = es" "distinct es"
    and alive: "\<And>e. e \<in> set es \<Longrightarrow> sw_objects w e \<noteq> None"
    and idle: "waiting (sw_os w) = []" and fuel: "length es < fuel"
    and answers: "qs = filter (\<lambda>q. q \<in> listen) (map (\<lambda>e. request_of E (sw_objects w e)) (filter (\<lambda>e. \<not> sw_listening w e) es))"
  shows "\<exists>w1 w2. sl_process_write E l w = (Inr (), w1) \<and> sl_process_read fuel E l w1 = (Inr (), w2) \<and> settled told E es qs w w2"
proof -
  let ?req = "map (\<lambda>e. request_of E (sw_objects w e)) (filter (\<lambda>e. \<not> sw_listening w e) es)"
  obtain ok u where send: "ne_sendmsg E ?req (sw_os w) = (ok, u)" by (cases "ne_sendmsg E ?req (sw_os w)")
  have law: "fst (ne_sendmsg E ?req (sw_os w)) \<and> told (snd (ne_sendmsg E ?req (sw_os w))) = told (sw_os w) \<and>
      waiting (snd (ne_sendmsg E ?req (sw_os w))) = waiting (sw_os w) @ filter (\<lambda>q. q \<in> listen) ?req"
    using laws unfolding diag_laws_def by blast
  have sent: "ok" "waiting u = qs" "told u = told (sw_os w)"
    using law send idle answers by simp_all
  let ?w = "w\<lparr>sw_os := u\<rparr>"
  have wrote: "sl_process_write E l w = (Inr (), ?w)"
    using sl_requests_alive [of es w E] alive es(1) send sent(1)
    by (simp add: sl_process_write_def act_bind_def sw_system_def act_return_def)
  have "length qs < fuel" unfolding answers
    by (rule le_less_trans [OF order_trans [OF length_filter_le] fuel]) (simp add: length_filter_le)
  then obtain w2 where "sl_process_read fuel E l ?w = (Inr (), w2)" "settled told E es qs ?w w2"
    using sl_process_read_settled [OF laws es(2), of ?w l fuel] es(1) alive sent(2) by auto
  then show ?thesis using wrote sent(3) by (auto simp: settled_def)
qed


text \<open>
  \<^verbatim>\<open>get_port()\<close> gives the port in the order of the host (\<^verbatim>\<open>tcp_bio_client.cpp\<close> prints it), the kernel answers in that of the
  network. An object whose port is not the same in both is never told, although its service listens.\<close>

lemma byte_order_hides_service:
  assumes laws: "diag_laws waiting told listen E" and es: "sl_events (sw_listeners w l) = [e]"
    and a: "sw_objects w e = Some a" "ne_get_port E a \<noteq> uint (ne_sin_port E a)" "request_of E (Some a) \<in> listen"
    and idle: "waiting (sw_os w) = []" "\<not> sw_listening w e"
  shows "\<exists>w1 w2. sl_process_write E l w = (Inr (), w1) \<and> sl_process_read 2 E l w1 = (Inr (), w2) \<and>
    told (sw_os w2) = told (sw_os w) \<and> sl_is_writer l w2"
proof -
  obtain w1 w2 where "sl_process_write E l w = (Inr (), w1)" "sl_process_read 2 E l w1 = (Inr (), w2)"
      "settled told E [e] [request_of E (Some a)] w w2"
    using write_then_read [OF laws es _ _ idle(1), of 2] a idle(2) by auto
  moreover from this(3) have "told (sw_os w2) = told (sw_os w)"
    using a(1,2) by (auto simp: settled_def recognizes_def request_of_def cong: conj_cong)
  ultimately show ?thesis using a(1,2) es idle(2) by (auto simp: settled_def recognizes_def request_of_def sl_is_writer_def)
qed

section \<open>Callbacks that create or destroy objects\<close>

lemma destroyed_in_callback:
  assumes "g_socket_listener w = Some l" "sl_events (sw_listeners w l) = es" "e' \<in> set es" "f = destroy_socket_events E e'"
    and "\<not> sw_listening w e" "sw_objects w e = Some a"
  shows "\<exists>w'. not_listening (\<lambda>_. f) e w = (Inr (), w') \<and> sl_version (sw_listeners w' l) \<noteq> sl_version (sw_listeners w l) \<and>
    sw_listening w' = sw_listening w \<and> sw_objects w' = (sw_objects w)(e' := None)"
  using assms by (auto simp: not_listening_def with_object_def destroy_socket_events_def sl_instance_def act_bind_def
      remove_socket_events_def sw_update_def change_listener_def Let_def)

lemma not_listening_cong: "f e = g e \<Longrightarrow> not_listening f e = not_listening g e"
  by (simp add: not_listening_def [abs_def] cong: if_cong)

text \<open>
  A callback must not create or destroy such objects. \<^verbatim>\<open>process_hup()\<close> goes over the deque itself: when the
  callback of an object destroys that object, or any other, the iterator of the loop is invalid and what follows is undefined
  behaviour, however many objects there are.\<close>

theorem callback_destroys_object:
  assumes w: "g_socket_listener w = Some l" "sl_events (sw_listeners w l) = e # es"
    and waits: "\<not> sw_listening w e" "sw_objects w e \<noteq> None"
    and destroys: "ne_hup E e = destroy_socket_events E e'" "e' \<in> set (e # es)"
  shows "fst (sl_process_hup E l w) = Inl Undefined_behaviour"
proof -
  obtain a where a: "sw_objects w e = Some a" using waits(2) by auto
  have "not_listening (ne_hup E) e = not_listening (\<lambda>_. destroy_socket_events E e') e"
    by (rule not_listening_cong) (rule destroys(1))
  then obtain w' where "not_listening (ne_hup E) e w = (Inr (), w')" "sl_version (sw_listeners w' l) \<noteq> sl_version (sw_listeners w l)"
    using destroyed_in_callback [OF w destroys(2) refl waits(1) a] by auto
  then show ?thesis using w(2) by (cases es) (simp_all add: sl_process_hup_def for_deque_def act_bind_def)
qed

text \<open>\<^verbatim>\<open>process_error()\<close> goes over a copy, which is safe for a callback that destroys its own object, but not for one that
  destroys an object further on: the copy still has the pointer.\<close>

lemma error_callback_destroys_other:
  assumes w: "g_socket_listener w = Some l" "sl_events (sw_listeners w l) = e # es"
    and waits: "\<not> sw_listening w e" "sw_objects w e \<noteq> None" "\<not> sw_listening w e'" "\<And>x. x \<in> set es \<Longrightarrow> sw_objects w x \<noteq> None"
    and destroys: "ne_error E e = destroy_socket_events E e'" "e' \<in> set es" "\<And>x. x \<in> set es \<Longrightarrow> x \<noteq> e' \<Longrightarrow> ne_error E x = act_return ()"
  shows "fst (sl_process_error E l w) = Inl Undefined_behaviour"
proof -
  obtain a where a: "sw_objects w e = Some a" using waits(2) by auto
  have "not_listening (ne_error E) e = not_listening (\<lambda>_. destroy_socket_events E e') e"
    by (rule not_listening_cong) (rule destroys(1))
  then obtain w' where w': "not_listening (ne_error E) e w = (Inr (), w')" "sw_listening w' = sw_listening w"
      "sw_objects w' = (sw_objects w)(e' := None)"
    using destroyed_in_callback [OF w _ refl waits(1) a] destroys(2) by auto
  have "fst (act_each (not_listening (ne_error E)) xs w') = Inl Undefined_behaviour" if "set xs \<subseteq> set es" "e' \<in> set xs" for xs
    using that
  proof (induction xs)
    case (Cons x xs)
    show ?case
    proof (cases "x = e'")
      case True
      then show ?thesis using w'(2,3) waits(3) by (simp add: not_listening_def with_object_def act_bind_def)
    next
      case False
      obtain b where "sw_objects w x = Some b" using waits(4) Cons.prems(1) by fastforce
      then have "not_listening (ne_error E) x w' = (Inr (), w')"
        using False Cons.prems destroys(3) w'(2,3) by (auto simp: not_listening_def with_object_def act_return_def)
      then show ?thesis using Cons False by (simp add: act_bind_def)
    qed
  qed simp
  then show ?thesis using w(2) w'(1) destroys(2) by (simp add: sl_process_error_def act_bind_def)
qed

section \<open>A kernel to try the theorems on\<close>

text \<open>Addresses are ports of the host \<open>127.0.0.1\<close>, the port \<open>0x5050\<close> is the same in both orders; the state is the answers not read
  and the objects told.\<close>

type_synonym demo_netlink = "(16 word \<times> 32 word) list \<times> nat list"

definition demo_socket_env :: "(16 word, demo_netlink) socket_env" where
  "demo_socket_env = \<lparr>ne_is_ipv4 = (\<lambda>_. True), ne_get_port = uint, ne_sin_port = (\<lambda>p. p), ne_sin_addr = (\<lambda>_. 0x0100007F),
     ne_socket = (\<lambda>u. (True, u)),
     ne_recvmsg = (\<lambda>(qs, t). case qs of [] \<Rightarrow> (Recv_failed EAGAIN, (qs, t))
       | q # qs \<Rightarrow> (Recv_messages [Nl_diag True TCP_LISTEN_STATE (fst q) (snd q)], (qs, t))),
     ne_sendmsg = (\<lambda>req (qs, t). (True, (qs @ filter (\<lambda>q. q \<in> {(0x5050, 0x0100007F)}) req, t))),
     ne_listening = (\<lambda>e w. (Inr (), w\<lparr>sw_os := (fst (sw_os w), snd (sw_os w) @ [e])\<rparr>)),
     ne_error = (\<lambda>e. act_return ()), ne_hup = (\<lambda>e. act_return ()), ne_invalid = (\<lambda>e. act_return ())\<rparr>"

definition demo_destroy_env :: "(16 word, demo_netlink) socket_env" where
  "demo_destroy_env = demo_socket_env\<lparr>ne_hup := destroy_socket_events demo_socket_env\<rparr>"

definition demo_socket_world :: "(16 word, demo_netlink) socket_world" where
  "demo_socket_world = \<lparr>g_socket_listener = None, sw_listeners = (\<lambda>_. new_socket_listener), sw_next_listener = 0, sw_communicator = [],
     sw_objects = Map.empty, sw_listening = (\<lambda>_. False), sw_os = ([], [])\<rparr>"

definition demo_two_sockets :: "(16 word, demo_netlink) socket_world" where
  "demo_two_sockets = \<lparr>g_socket_listener = Some 0, sw_listeners = (\<lambda>_. \<lparr>sl_events = [7, 8], sl_version = 2, sl_enabled = True\<rparr>),
     sw_next_listener = 1, sw_communicator = [0], sw_objects = [7 \<mapsto> 0x5050, 8 \<mapsto> 0x5151], sw_listening = (\<lambda>_. False), sw_os = ([], [])\<rparr>"

lemma demo_diag_laws: "diag_laws fst snd {(0x5050, 0x0100007F)} demo_socket_env"
proof -
  have "\<exists>n>0. [Nl_diag True TCP_LISTEN_STATE a b] = map (\<lambda>(p, s). Nl_diag True TCP_LISTEN_STATE p s) (take n ((a, b) # qs)) \<and>
      qs = drop n ((a, b) # qs)" for a b and qs :: "(16 word \<times> 32 word) list"
    by (rule exI [of _ 1]) simp
  then show ?thesis by (auto simp: diag_laws_def demo_socket_env_def split: list.split)
qed



theorem callback_destroys_object_witness:
  "fst (sl_process_hup demo_destroy_env 0 demo_two_sockets) = Inl Undefined_behaviour"
proof -
  have "destroy_socket_events demo_socket_env 7 = destroy_socket_events demo_destroy_env 7"
    by (simp add: destroy_socket_events_def sl_instance_def [abs_def] demo_destroy_env_def cong: option.case_cong)
  then show ?thesis
    by (intro callback_destroys_object [where e = 7 and es = "[8]" and e' = 7])
      (simp_all add: demo_two_sockets_def demo_destroy_env_def)
qed

end
