(* ===== verification/Signal_Fd.thy ===== *)
theory Signal_Fd
  imports Communicator
begin

text \<open>
  The base class of the connections that hear a Unix signal: \<^verbatim>\<open>signal.cpp\<close>. The signal is blocked and read from a
  descriptor of \<^verbatim>\<open>signalfd()\<close>; \<^verbatim>\<open>g_signal_handlers\<close> is the set of the signals that have an object, \<open>sg_blocked\<close> the mask
  of the process as \<^verbatim>\<open>sigprocmask()\<close> keeps it.
\<close>

section \<open>The objects\<close>

record signalfd_siginfo =
  ssi_signo :: int
  ssi_pid :: int

record signal =
  f_signal :: int
  f_socket :: int
  f_signal_info :: signalfd_siginfo
  f_unblock :: bool

record 'u signal_world =
  g_signal_handlers :: "int set"
  sg_blocked :: "int set"
  sg_signals :: "nat \<Rightarrow> signal option"
  sg_terminated :: bool
  sg_os :: 'u

type_synonym ('u, 'r) sgact = "('u signal_world, 'r) act"

text \<open>\<open>gs_valid\<close>: the signals \<^verbatim>\<open>sigismember()\<close> knows; \<open>gs_threads\<close>: how many threads the process has; \<open>gs_procmask\<close>: whether
  \<^verbatim>\<open>sigprocmask()\<close> succeeds. \<open>gs_read\<close> gives the error, or the number of bytes and, when it is that of the structure, its content.\<close>

record 'u signal_env =
  gs_valid :: "int \<Rightarrow> bool"
  gs_threads :: "'u \<Rightarrow> nat"
  gs_procmask :: "'u \<Rightarrow> bool \<times> 'u"
  gs_signalfd :: "int \<Rightarrow> 'u \<Rightarrow> int \<times> 'u"
  gs_close :: "int \<Rightarrow> 'u \<Rightarrow> 'u"
  gs_read :: "int \<Rightarrow> 'u \<Rightarrow> (errno + (nat + signalfd_siginfo)) \<times> 'u"
  gs_process_signal :: "nat \<Rightarrow> ('u, unit) sgact"

definition sg_update :: "('u signal_world \<Rightarrow> 'u signal_world) \<Rightarrow> ('u, unit) sgact" where
  "sg_update f w = (Inr (), f w)"

definition sg_system :: "('u \<Rightarrow> 'r \<times> 'u) \<Rightarrow> ('u, 'r) sgact" where
  "sg_system f w = (case f (sg_os w) of (a, u) \<Rightarrow> (Inr a, w\<lparr>sg_os := u\<rparr>))"

definition new_signal :: "'u signal_env \<Rightarrow> nat \<Rightarrow> int \<Rightarrow> ('u, unit) sgact" where
  "new_signal E i s w =
     (if s \<in> g_signal_handlers w then (Inl Initialization_error, w)
      else if \<not> gs_valid E s then (Inl Initialization_error, w)
      else if gs_threads E (sg_os w) \<noteq> 1 then (Inl Initialization_error, w)
      else act_bind (sg_system (gs_procmask E)) (\<lambda>ok.
        if \<not> ok then act_throw Runtime_error
        else act_bind (sg_update (\<lambda>w. w\<lparr>sg_blocked := insert s (sg_blocked w)\<rparr>)) (\<lambda>_.
             act_bind (sg_system (gs_signalfd E s)) (\<lambda>fd.
               if fd = -1
               then act_bind (sg_system (gs_procmask E)) (\<lambda>ok.
                    act_bind (sg_update (\<lambda>w. if ok then w\<lparr>sg_blocked := sg_blocked w - {s}\<rparr> else w)) (\<lambda>_. act_throw Runtime_error))
               else sg_update (\<lambda>w. w\<lparr>g_signal_handlers := insert s (g_signal_handlers w),
                 sg_signals := (sg_signals w)(i \<mapsto> \<lparr>f_signal = s, f_socket = fd,
                   f_signal_info = \<lparr>ssi_signo = 0, ssi_pid = 0\<rparr>, f_unblock = False\<rparr>)\<rparr>)))) w)"

text \<open>\<^verbatim>\<open>std::terminate()\<close> is the flag \<open>sg_terminated\<close>.\<close>

definition signal_close :: "'u signal_env \<Rightarrow> nat \<Rightarrow> ('u, unit) sgact" where
  "signal_close E i w =
     (case sg_signals w i of
        None \<Rightarrow> (Inl Undefined_behaviour, w)
      | Some g \<Rightarrow>
          if f_socket g = -1 then (Inr (), w)
          else act_bind (sg_update (\<lambda>w. w\<lparr>sg_os := gs_close E (f_socket g) (sg_os w),
                   sg_signals := (sg_signals w)(i \<mapsto> g\<lparr>f_socket := -1\<rparr>), g_signal_handlers := g_signal_handlers w - {f_signal g}\<rparr>)) (\<lambda>_.
               if f_unblock g
               then act_bind (sg_system (gs_procmask E)) (\<lambda>ok.
                      sg_update (\<lambda>w. if ok then w\<lparr>sg_blocked := sg_blocked w - {f_signal g}\<rparr> else w\<lparr>sg_terminated := True\<rparr>))
               else act_return ()) w)"

definition destroy_signal :: "'u signal_env \<Rightarrow> nat \<Rightarrow> ('u, unit) sgact" where
  "destroy_signal E i = act_bind (signal_close E i) (\<lambda>_. sg_update (\<lambda>w. w\<lparr>sg_signals := (sg_signals w)(i := None)\<rparr>))"

definition unblock_signal_on_destruction :: "nat \<Rightarrow> ('u, unit) sgact" where
  "unblock_signal_on_destruction i = sg_update (\<lambda>w. w\<lparr>sg_signals := (sg_signals w)(i := map_option (f_unblock_update (\<lambda>_. True)) (sg_signals w i))\<rparr>)"

definition signal_get_socket :: "signal \<Rightarrow> int" where
  "signal_get_socket g = f_socket g"

definition get_child_pid :: "signal \<Rightarrow> int result" where
  "get_child_pid g = (if ssi_signo (f_signal_info g) = 0 then Inl Runtime_error else Inr (ssi_pid (f_signal_info g)))"

text \<open>The loop over the signals received, as long as the callback does not close the connection.\<close>

fun signal_process :: "nat \<Rightarrow> 'u signal_env \<Rightarrow> nat \<Rightarrow> ('u, unit) sgact" where
  "signal_process 0 E i w = (Inl No_fuel, w)"
| "signal_process (Suc fuel) E i w =
     (case sg_signals w i of
        None \<Rightarrow> (Inl Undefined_behaviour, w)
      | Some g \<Rightarrow>
          if f_socket g = -1 then (Inr (), w)
          else act_bind (sg_system (gs_read E (f_socket g))) (\<lambda>r.
            case r of
              Inr (Inr info) \<Rightarrow>
                act_bind (sg_update (\<lambda>w. w\<lparr>sg_signals := (sg_signals w)(i \<mapsto> g\<lparr>f_signal_info := info\<rparr>)\<rparr>)) (\<lambda>_.
                act_bind (gs_process_signal E i) (\<lambda>_. signal_process fuel E i))
            | Inr (Inl n) \<Rightarrow> act_return ()
            | Inl e \<Rightarrow> act_return ()) w)"

section \<open>One owner for each signal\<close>

definition open_signal :: "(nat \<Rightarrow> signal option) \<Rightarrow> nat \<Rightarrow> int \<Rightarrow> bool" where
  "open_signal S i s \<longleftrightarrow> (\<exists>g. S i = Some g \<and> f_socket g \<noteq> -1 \<and> f_signal g = s)"

definition owners :: "int set \<Rightarrow> (nat \<Rightarrow> signal option) \<Rightarrow> int set \<Rightarrow> bool" where
  "owners H S B \<longleftrightarrow>
     (\<forall>s. s \<in> H \<longleftrightarrow> (\<exists>i. open_signal S i s)) \<and> (\<forall>i j s. open_signal S i s \<longrightarrow> open_signal S j s \<longrightarrow> i = j) \<and> H \<subseteq> B"

definition signals_ok :: "'u signal_world \<Rightarrow> bool" where
  "signals_ok w \<longleftrightarrow> owners (g_signal_handlers w) (sg_signals w) (sg_blocked w)"

lemma owners_blocked: "owners H S B \<Longrightarrow> H \<subseteq> B' \<Longrightarrow> owners H S B'"
  by (simp add: owners_def)

lemma ownersD:
  assumes "owners H S B"
  shows "s \<in> H \<longleftrightarrow> (\<exists>i. open_signal S i s)" "open_signal S i s \<Longrightarrow> open_signal S j s \<Longrightarrow> i = j" "H \<subseteq> B"
  using assms by (simp_all add: owners_def)

lemma owners_new:
  assumes "owners H S B" "S i = None" "s \<notin> H" "f_socket g \<noteq> -1" "f_signal g = s"
  shows "owners (insert s H) (S(i \<mapsto> g)) (insert s B)"
proof -
  have new: "open_signal (S(i \<mapsto> g)) j t \<longleftrightarrow> open_signal S j t \<or> j = i \<and> t = s" for j t
    using assms(2,4,5) by (auto simp: open_signal_def)
  note old = ownersD [OF assms(1)]
  have free: "\<not> open_signal S j s" for j using assms(3) old(1) [of s] by simp
  show ?thesis
    unfolding owners_def new
  proof (intro conjI allI impI)
    show "t \<in> insert s H \<longleftrightarrow> (\<exists>j. open_signal S j t \<or> j = i \<and> t = s)" for t using old(1) [of t] by auto
    show "j = k" if "open_signal S j t \<or> j = i \<and> t = s" "open_signal S k t \<or> k = i \<and> t = s" for j k t
      using that free [of j] free [of k] old(2) [of j t k] by auto
    show "insert s H \<subseteq> insert s B" using old(3) by auto
  qed
qed

lemma owners_close:
  assumes "owners H S B" "S i = Some g" "f_socket g \<noteq> -1"
  shows "owners (H - {f_signal g}) (S(i \<mapsto> g\<lparr>f_socket := -1\<rparr>)) (B - {f_signal g})"
proof -
  have closed: "open_signal (S(i \<mapsto> g\<lparr>f_socket := -1\<rparr>)) j s \<longleftrightarrow> j \<noteq> i \<and> open_signal S j s" for j s
    by (auto simp: open_signal_def)
  have mine: "open_signal S i s \<longleftrightarrow> s = f_signal g" for s using assms(2,3) by (auto simp: open_signal_def)
  note old = ownersD [OF assms(1)]
  show ?thesis
    unfolding owners_def closed
  proof (intro conjI allI impI)
    show "s \<in> H - {f_signal g} \<longleftrightarrow> (\<exists>j. j \<noteq> i \<and> open_signal S j s)" for s
      using old(1) [of s] old(2) [of i s] mine [of s] by auto
    show "j = k" if "j \<noteq> i \<and> open_signal S j s" "k \<noteq> i \<and> open_signal S k s" for j k s
      using that old(2) [of j s k] by simp
    show "H - {f_signal g} \<subseteq> B - {f_signal g}" using old(3) by auto
  qed
qed

lemma owners_same:
  assumes "owners H S B" "\<And>j s. open_signal S' j s \<longleftrightarrow> open_signal S j s"
  shows "owners H S' B"
  using assms by (simp add: owners_def)

lemma keeps_sg_system: "keeps signals_ok (sg_system f)"
  by (auto simp: keeps_def sg_system_def signals_ok_def split: prod.split)

lemma keeps_new_signal:
  assumes "sg_signals w i = None" "signals_ok w"
  shows "signals_ok (snd (new_signal E i s w))"
proof (cases "s \<in> g_signal_handlers w")
  case False
  have "g_signal_handlers w \<subseteq> insert s (sg_blocked w)" "g_signal_handlers w \<subseteq> sg_blocked w - {s}"
    using assms(2) False by (auto simp: signals_ok_def owners_def)
  then show ?thesis
    using owners_new [of "g_signal_handlers w" "sg_signals w" "sg_blocked w" i s] assms False
    by (auto simp: new_signal_def act_bind_def sg_system_def sg_update_def act_throw_def signals_ok_def
        split: prod.split intro: owners_blocked)
qed (use assms in \<open>simp add: new_signal_def\<close>)

lemma keeps_signal_close: "keeps signals_ok (signal_close E i)"
proof (rule keepsI)
  fix w :: "'a signal_world" assume w: "signals_ok w"
  show "signals_ok (snd (signal_close E i w))"
  proof (cases "sg_signals w i")
    case (Some g)
    have "f_socket g \<noteq> -1 \<Longrightarrow> owners (g_signal_handlers w - {f_signal g}) ((sg_signals w)(i \<mapsto> g\<lparr>f_socket := -1\<rparr>)) (sg_blocked w - {f_signal g})"
      using owners_close [of "g_signal_handlers w" "sg_signals w" "sg_blocked w" i g] Some w by (simp add: signals_ok_def)
    moreover from this have "f_socket g \<noteq> -1 \<Longrightarrow> owners (g_signal_handlers w - {f_signal g}) ((sg_signals w)(i \<mapsto> g\<lparr>f_socket := -1\<rparr>)) (sg_blocked w)"
      by (rule owners_blocked) (use w in \<open>auto simp: signals_ok_def owners_def\<close>)
    ultimately show ?thesis using Some w
      by (simp add: signal_close_def act_bind_def sg_update_def sg_system_def act_return_def signals_ok_def split: prod.split)
  qed (use w in \<open>simp add: signal_close_def\<close>)
qed

lemma closed_after_close: "sg_signals (snd (signal_close E i w)) i = Some g \<Longrightarrow> f_socket g = -1"
  by (auto simp: signal_close_def act_bind_def sg_update_def sg_system_def act_return_def split: option.splits if_splits prod.splits)

lemma keeps_destroy_signal: "keeps signals_ok (destroy_signal E i)"
proof (rule keepsI)
  fix w :: "'a signal_world" assume w: "signals_ok w"
  let ?w = "snd (signal_close E i w)"
  have ok: "signals_ok ?w" by (rule keepsD [OF keeps_signal_close w])
  have "open_signal ((sg_signals ?w)(i := None)) j s \<longleftrightarrow> open_signal (sg_signals ?w) j s" for j s
    using closed_after_close [of E i w] by (auto simp: open_signal_def)
  from owners_same [OF _ this] ok have "signals_ok (?w\<lparr>sg_signals := (sg_signals ?w)(i := None)\<rparr>)" by (simp add: signals_ok_def)
  then show "signals_ok (snd (destroy_signal E i w))"
    using ok by (simp add: destroy_signal_def snd_act_bind sg_update_def split: sum.split)
qed

lemma keeps_unblock: "keeps signals_ok (unblock_signal_on_destruction i)"
proof (rule keepsI)
  fix w :: "'a signal_world" assume w: "signals_ok w"
  have "open_signal ((sg_signals w)(i := map_option (f_unblock_update (\<lambda>_. True)) (sg_signals w i))) j s \<longleftrightarrow> open_signal (sg_signals w) j s" for j s
    by (auto simp: open_signal_def)
  from owners_same [OF _ this] w show "signals_ok (snd (unblock_signal_on_destruction i w))"
    by (simp add: unblock_signal_on_destruction_def sg_update_def signals_ok_def)
qed

lemma keeps_signal_process:
  assumes E: "\<And>i. keeps signals_ok (gs_process_signal E i)"
  shows "signals_ok w \<Longrightarrow> signals_ok (snd (signal_process fuel E i w))"
proof (induction fuel arbitrary: w)
  case (Suc fuel)
  show ?case
  proof (cases "sg_signals w i")
    case (Some g)
    have info: "signals_ok (w\<lparr>sg_os := u, sg_signals := (sg_signals w)(i \<mapsto> g\<lparr>f_signal_info := info\<rparr>)\<rparr>)" for u info
    proof -
      have "open_signal ((sg_signals w)(i \<mapsto> g\<lparr>f_signal_info := info\<rparr>)) j s \<longleftrightarrow> open_signal (sg_signals w) j s" for j s
        using Some by (auto simp: open_signal_def)
      from owners_same [OF _ this] Suc.prems show ?thesis by (simp add: signals_ok_def)
    qed
    have "signals_ok (snd (act_bind (gs_process_signal E i) (\<lambda>_. signal_process fuel E i) v))" if "signals_ok v" for v
      using keepsD [OF E that] Suc.IH by (simp add: snd_act_bind split: sum.split)
    from this [OF info] show ?thesis
      using Some Suc.prems by (auto simp: act_bind_def sg_system_def sg_update_def act_return_def signals_ok_def split: prod.split sum.split)
  qed (use Suc.prems in simp)
qed simp

text \<open>What can happen to the signals of a process, in any order; the calls may throw.\<close>

inductive signal_life :: "'u signal_env \<Rightarrow> 'u signal_world \<Rightarrow> bool" for E where
  sl_start: "g_signal_handlers w = {} \<Longrightarrow> (\<And>i. sg_signals w i = None) \<Longrightarrow> signal_life E w"
| sl_new: "signal_life E w \<Longrightarrow> sg_signals w i = None \<Longrightarrow> new_signal E i s w = (r, w') \<Longrightarrow> signal_life E w'"
| sl_destroy: "signal_life E w \<Longrightarrow> destroy_signal E i w = (r, w') \<Longrightarrow> signal_life E w'"
| sl_close: "signal_life E w \<Longrightarrow> signal_close E i w = (r, w') \<Longrightarrow> signal_life E w'"
| sl_unblock: "signal_life E w \<Longrightarrow> unblock_signal_on_destruction i w = (r, w') \<Longrightarrow> signal_life E w'"
| sl_process: "signal_life E w \<Longrightarrow> signal_process fuel E i w = (r, w') \<Longrightarrow> signal_life E w'"

text \<open>
  C29 (safety): a signal has one owner. Whatever objects were created, closed and destroyed and whatever signals they received,
  with callbacks that do the same, a signal is marked as used exactly when an open object listens to it, no two open objects
  listen to the same signal, and a signal that is listened to is blocked, so it cannot kill the process. A second object for
  it is refused and changes nothing.\<close>

theorem signal_one_owner:
  assumes E: "\<And>i. keeps signals_ok (gs_process_signal E i)" and life: "signal_life E w"
  shows "(s \<in> g_signal_handlers w \<longleftrightarrow> (\<exists>i. open_signal (sg_signals w) i s)) \<and>
    (open_signal (sg_signals w) i s \<longrightarrow> s \<in> sg_blocked w \<and> new_signal E k s w = (Inl Initialization_error, w) \<and>
      (\<forall>j. open_signal (sg_signals w) j s \<longrightarrow> j = i))"
proof -
  have "signals_ok w"
    using life
  proof induction
    case (sl_start w)
    then show ?case by (simp add: signals_ok_def owners_def open_signal_def)
  next
    case (sl_new w i s r w')
    then show ?case using keeps_new_signal [of w i E s] by simp
  next
    case (sl_destroy w i r w')
    then show ?case using keepsD [OF keeps_destroy_signal, of w E i] by simp
  next
    case (sl_close w i r w')
    then show ?case using keepsD [OF keeps_signal_close, of w E i] by simp
  next
    case (sl_unblock w i r w')
    then show ?case using keepsD [OF keeps_unblock, of w i] by simp
  next
    case (sl_process w fuel i r w')
    then show ?case using keeps_signal_process [OF E, of w fuel i] by simp
  qed
  then have ok: "owners (g_signal_handlers w) (sg_signals w) (sg_blocked w)" by (simp add: signals_ok_def)
  show ?thesis using ownersD(1) [OF ok, of s] ownersD(2) [OF ok, of i s] ownersD(3) [OF ok] by (auto simp: new_signal_def)
qed

text \<open>A signal that was blocked before its object failed to get a descriptor is unblocked by the failure.\<close>

lemma failed_signal_unblocks:
  "s \<notin> g_signal_handlers w \<Longrightarrow> gs_valid E s \<Longrightarrow> gs_threads E (sg_os w) = 1 \<Longrightarrow> (\<And>u. gs_procmask E u = (True, u)) \<Longrightarrow>
   gs_signalfd E s (sg_os w) = (-1, u) \<Longrightarrow>
   \<exists>w'. new_signal E i s w = (Inl Runtime_error, w') \<and> sg_blocked w' = sg_blocked w - {s} \<and> sg_signals w' = sg_signals w"
  by (simp add: new_signal_def act_bind_def sg_system_def sg_update_def act_throw_def)

section \<open>The signals are heard\<close>

text \<open>\<open>queue\<close> is what the kernel has for the descriptor, \<open>heard\<close> the signals the callback saw.\<close>

definition signalfd_laws :: "('u \<Rightarrow> signalfd_siginfo list) \<Rightarrow> ('u \<Rightarrow> signalfd_siginfo list) \<Rightarrow> 'u signal_env \<Rightarrow> bool" where
  "signalfd_laws queue heard E \<longleftrightarrow>
     (\<forall>fd u. case queue u of
        [] \<Rightarrow> gs_read E fd u = (Inl EAGAIN, u)
      | x # xs \<Rightarrow> \<exists>u'. gs_read E fd u = (Inr (Inr x), u') \<and> queue u' = xs \<and> heard u' = heard u) \<and>
     (\<forall>i w g. sg_signals w i = Some g \<longrightarrow>
        (\<exists>u. gs_process_signal E i w = (Inr (), w\<lparr>sg_os := u\<rparr>) \<and> queue u = queue (sg_os w) \<and> heard u = heard (sg_os w) @ [f_signal_info g]))"

lemma signalfd_read_law:
  "signalfd_laws queue heard E \<Longrightarrow> case queue u of [] \<Rightarrow> gs_read E fd u = (Inl EAGAIN, u)
     | x # xs \<Rightarrow> \<exists>u'. gs_read E fd u = (Inr (Inr x), u') \<and> queue u' = xs \<and> heard u' = heard u"
  by (simp add: signalfd_laws_def)

lemma signalfd_callback_law:
  "signalfd_laws queue heard E \<Longrightarrow> sg_signals w i = Some g \<Longrightarrow>
   \<exists>u. gs_process_signal E i w = (Inr (), w\<lparr>sg_os := u\<rparr>) \<and> queue u = queue (sg_os w) \<and> heard u = heard (sg_os w) @ [f_signal_info g]"
  by (simp add: signalfd_laws_def)

lemma signals_heard_in_order:
  assumes laws: "signalfd_laws queue heard E"
  shows "sg_signals w i = Some g \<Longrightarrow> f_socket g \<noteq> -1 \<Longrightarrow> length (queue (sg_os w)) < fuel \<Longrightarrow>
    \<exists>w'. signal_process fuel E i w = (Inr (), w') \<and> heard (sg_os w') = heard (sg_os w) @ queue (sg_os w) \<and> queue (sg_os w') = []"
proof (induction fuel arbitrary: w g)
  case (Suc fuel)
  show ?case
  proof (cases "queue (sg_os w)")
    case Nil
    then have "gs_read E (f_socket g) (sg_os w) = (Inl EAGAIN, sg_os w)"
      using signalfd_read_law [OF laws, where u = "sg_os w" and fd = "f_socket g"] by simp
    then show ?thesis using Suc.prems Nil by (simp add: act_bind_def sg_system_def act_return_def)
  next
    case (Cons x xs)
    obtain u where u: "gs_read E (f_socket g) (sg_os w) = (Inr (Inr x), u)" "queue u = xs" "heard u = heard (sg_os w)"
      using signalfd_read_law [OF laws, where u = "sg_os w" and fd = "f_socket g"] Cons by auto
    let ?g = "g\<lparr>f_signal_info := x\<rparr>"
    let ?w = "w\<lparr>sg_os := u, sg_signals := (sg_signals w)(i \<mapsto> ?g)\<rparr>"
    obtain v where v: "gs_process_signal E i ?w = (Inr (), ?w\<lparr>sg_os := v\<rparr>)" "queue v = queue (sg_os ?w)" "heard v = heard (sg_os ?w) @ [x]"
      using signalfd_callback_law [OF laws, where w = ?w and i = i and g = ?g] by auto
    obtain w' where "signal_process fuel E i (?w\<lparr>sg_os := v\<rparr>) = (Inr (), w')" "heard (sg_os w') = heard v @ queue v" "queue (sg_os w') = []"
      using Suc.IH [of "?w\<lparr>sg_os := v\<rparr>" ?g] Suc.prems Cons u(2) v(2) by auto
    then show ?thesis using Suc.prems Cons u v by (simp add: act_bind_def sg_system_def sg_update_def)
  qed
qed simp

section \<open>A process to try the theorem on\<close>

definition demo_signal_env :: "int signal_env" where
  "demo_signal_env = \<lparr>gs_valid = (\<lambda>s. 0 < s), gs_threads = (\<lambda>_. 1), gs_procmask = (\<lambda>u. (True, u)), gs_signalfd = (\<lambda>s u. (u, u + 1)),
     gs_close = (\<lambda>fd u. u), gs_read = (\<lambda>fd u. (Inl EAGAIN, u)), gs_process_signal = (\<lambda>i. act_return ())\<rparr>"

definition demo_signal_world :: "int signal_world" where
  "demo_signal_world = \<lparr>g_signal_handlers = {}, sg_blocked = {}, sg_signals = Map.empty, sg_terminated = False, sg_os = 5\<rparr>"

theorem signal_one_owner_witness:
  "fst (new_signal demo_signal_env 1 17 (snd (new_signal demo_signal_env 0 17 demo_signal_world))) = Inl Initialization_error"
proof -
  have "signal_life demo_signal_env demo_signal_world" by (rule sl_start) (simp_all add: demo_signal_world_def)
  then have life: "signal_life demo_signal_env (snd (new_signal demo_signal_env 0 17 demo_signal_world))"
    by (rule sl_new [OF _ _ prod.collapse [symmetric]]) (simp add: demo_signal_world_def)
  have "keeps signals_ok (gs_process_signal demo_signal_env i)" for i by (simp add: demo_signal_env_def)
  from signal_one_owner [OF this life, where s = 17 and i = 0 and k = 1] show ?thesis
    by (simp add: open_signal_def demo_signal_world_def demo_signal_env_def new_signal_def act_bind_def sg_system_def sg_update_def)
qed

end
