(* ===== verification/Process_Changed.thy ===== *)
theory Process_Changed
  imports Communicator
begin

text \<open>
  The connection that hears about all the processes of the system: \<^verbatim>\<open>process_changed.cpp\<close>, over the process connector of
  the kernel. The messages are the structures \<^verbatim>\<open>proc_event\<close> of \<^verbatim>\<open>linux/cn_proc.h\<close>.
\<close>

section \<open>Events\<close>

datatype process_event_t =
    PROCESS_EVENT_UNKNOWN
  | PROCESS_EVENT_NONE
  | PROCESS_EVENT_FORK
  | PROCESS_EVENT_EXEC
  | PROCESS_EVENT_UID
  | PROCESS_EVENT_GID
  | PROCESS_EVENT_SESSION
  | PROCESS_EVENT_PTRACE
  | PROCESS_EVENT_COMMAND
  | PROCESS_EVENT_COREDUMP
  | PROCESS_EVENT_EXIT

definition process_event_names :: "(process_event_t \<times> string) list" where
  "process_event_names =
     [(PROCESS_EVENT_UNKNOWN, ''UNKNOWN''), (PROCESS_EVENT_NONE, ''NONE''), (PROCESS_EVENT_FORK, ''FORK''),
      (PROCESS_EVENT_EXEC, ''EXEC''), (PROCESS_EVENT_UID, ''UID''), (PROCESS_EVENT_GID, ''GID''),
      (PROCESS_EVENT_SESSION, ''SESSION''), (PROCESS_EVENT_PTRACE, ''PTRACE''), (PROCESS_EVENT_COMMAND, ''COMMAND''),
      (PROCESS_EVENT_COREDUMP, ''COREDUMP''), (PROCESS_EVENT_EXIT, ''EXIT'')]"

text \<open>The argument is the number of the event, which a cast may have put out of the enumeration.\<close>

definition process_event_to_string :: "nat \<Rightarrow> string result" where
  "process_event_to_string event =
     (if event \<ge> length process_event_names then Inl Parameter_error else Inr (snd (process_event_names ! event)))"

record process_changed_event =
  pce_event :: process_event_t
  pce_cpu :: "32 word"
  pce_timestamp :: "64 word"
  pce_pid :: int
  pce_tgid :: int
  pce_parent_pid :: int
  pce_parent_tgid :: int
  pce_ruid :: "32 word"
  pce_euid :: "32 word"
  pce_rgid :: "32 word"
  pce_egid :: "32 word"
  pce_command :: string
  pce_exit_code :: "32 word"
  pce_exit_signal :: "32 word"

text \<open>\<^verbatim>\<open>NO_UID\<close> and \<^verbatim>\<open>NO_GID\<close> are constants of \<^verbatim>\<open>snapdev\<close>.\<close>

definition new_process_changed_event :: "32 word \<Rightarrow> 32 word \<Rightarrow> process_changed_event" where
  "new_process_changed_event no_uid no_gid = \<lparr>pce_event = PROCESS_EVENT_UNKNOWN, pce_cpu = 0, pce_timestamp = 0, pce_pid = -1, pce_tgid = -1,
     pce_parent_pid = -1, pce_parent_tgid = -1, pce_ruid = no_uid, pce_euid = no_uid, pce_rgid = no_gid, pce_egid = no_gid,
     pce_command = [], pce_exit_code = -1, pce_exit_signal = -1\<rparr>"

datatype proc_data =
    Pe_none "32 word"
  | Pe_fork int int int int
  | Pe_exec int int
  | Pe_uid int int "32 word" "32 word"
  | Pe_gid int int "32 word" "32 word"
  | Pe_sid int int
  | Pe_ptrace int int int int
  | Pe_comm int int string
  | Pe_coredump int int
  | Pe_exit int int "32 word" "32 word"
  | Pe_other "32 word"

record proc_event =
  pe_cpu :: "32 word"
  pe_timestamp_ns :: "64 word"
  pe_data :: proc_data

fun event_of_data :: "proc_data \<Rightarrow> process_changed_event \<Rightarrow> process_changed_event" where
  "event_of_data (Pe_none err) e = e\<lparr>pce_event := PROCESS_EVENT_NONE, pce_exit_code := err\<rparr>"
| "event_of_data (Pe_fork parent_pid parent_tgid child_pid child_tgid) e =
     e\<lparr>pce_event := PROCESS_EVENT_FORK, pce_pid := child_pid, pce_tgid := child_tgid, pce_parent_pid := parent_pid, pce_parent_tgid := parent_tgid\<rparr>"
| "event_of_data (Pe_exec pid tgid) e = e\<lparr>pce_event := PROCESS_EVENT_EXEC, pce_pid := pid, pce_tgid := tgid\<rparr>"
| "event_of_data (Pe_uid pid tgid ruid euid) e =
     e\<lparr>pce_event := PROCESS_EVENT_UID, pce_pid := pid, pce_tgid := tgid, pce_ruid := ruid, pce_euid := euid\<rparr>"
| "event_of_data (Pe_gid pid tgid rgid egid) e =
     e\<lparr>pce_event := PROCESS_EVENT_GID, pce_pid := pid, pce_tgid := tgid, pce_rgid := rgid, pce_egid := egid\<rparr>"
| "event_of_data (Pe_sid pid tgid) e = e\<lparr>pce_event := PROCESS_EVENT_SESSION, pce_pid := pid, pce_tgid := tgid\<rparr>"
| "event_of_data (Pe_ptrace pid tgid tracer_pid tracer_tgid) e =
     e\<lparr>pce_event := PROCESS_EVENT_PTRACE, pce_pid := pid, pce_tgid := tgid, pce_parent_pid := tracer_pid, pce_parent_tgid := tracer_tgid\<rparr>"
| "event_of_data (Pe_comm pid tgid comm) e =
     e\<lparr>pce_event := PROCESS_EVENT_COMMAND, pce_pid := pid, pce_tgid := tgid, pce_command := c_str (take 16 comm)\<rparr>"
| "event_of_data (Pe_coredump pid tgid) e = e\<lparr>pce_event := PROCESS_EVENT_COREDUMP, pce_pid := pid, pce_tgid := tgid\<rparr>"
| "event_of_data (Pe_exit pid tgid code sig) e =
     e\<lparr>pce_event := PROCESS_EVENT_EXIT, pce_pid := pid, pce_tgid := tgid, pce_exit_code := code, pce_exit_signal := sig\<rparr>"
| "event_of_data (Pe_other what) e = e\<lparr>pce_event := PROCESS_EVENT_UNKNOWN, pce_exit_code := what\<rparr>"

definition event_of :: "32 word \<Rightarrow> 32 word \<Rightarrow> proc_event \<Rightarrow> process_changed_event" where
  "event_of no_uid no_gid p =
     event_of_data (pe_data p) ((new_process_changed_event no_uid no_gid)\<lparr>pce_cpu := pe_cpu p, pce_timestamp := pe_timestamp_ns p\<rparr>)"

section \<open>The connection\<close>

datatype proc_cn_mcast_op = PROC_CN_MCAST_LISTEN | PROC_CN_MCAST_IGNORE

datatype proc_read = Read_event proc_event | Read_nothing | Read_error errno

record 'u process_changed =
  pc_socket :: int
  pc_connection :: connection
  pc_os :: 'u

type_synonym ('u, 'r) pcact = "('u process_changed, 'r) act"

text \<open>\<open>pv_socket\<close> gives \<open>-1\<close> or a descriptor, \<open>pv_bind\<close> and \<open>pv_send\<close> say whether they succeeded. \<open>pv_recv\<close> gives the structure in the buffer;
  \<open>Read_nothing\<close> is a result of 0, or \<^verbatim>\<open>errno\<close> at 0. A message that \<^verbatim>\<open>recv()\<close> cuts short is the structure as it then is.\<close>

record 'u proc_changed_env =
  pv_no_uid :: "32 word"
  pv_no_gid :: "32 word"
  pv_socket :: "'u \<Rightarrow> int \<times> 'u"
  pv_close :: "int \<Rightarrow> 'u \<Rightarrow> 'u"
  pv_bind :: "int \<Rightarrow> 'u \<Rightarrow> bool \<times> 'u"
  pv_send :: "int \<Rightarrow> proc_cn_mcast_op \<Rightarrow> 'u \<Rightarrow> bool \<times> 'u"
  pv_recv :: "int \<Rightarrow> 'u \<Rightarrow> proc_read \<times> 'u"
  pv_now :: "'u \<Rightarrow> int \<times> 'u"
  pv_process_event :: "process_changed_event \<Rightarrow> ('u, unit) pcact"
  pv_process_error :: "('u, unit) pcact"

definition pc_update :: "('u process_changed \<Rightarrow> 'u process_changed) \<Rightarrow> ('u, unit) pcact" where
  "pc_update f w = (Inr (), f w)"

definition pc_system :: "('u \<Rightarrow> 'r \<times> 'u) \<Rightarrow> ('u, 'r) pcact" where
  "pc_system f w = (case f (pc_os w) of (a, u) \<Rightarrow> (Inr a, w\<lparr>pc_os := u\<rparr>))"

text \<open>\<^verbatim>\<open>f_socket.reset()\<close> closes the descriptor.\<close>

definition pc_reset :: "'u proc_changed_env \<Rightarrow> ('u, unit) pcact" where
  "pc_reset E = pc_update (\<lambda>w. w\<lparr>pc_os := (if pc_socket w = -1 then pc_os w else pv_close E (pc_socket w) (pc_os w)), pc_socket := -1\<rparr>)"

definition listen_for_events :: "'u proc_changed_env \<Rightarrow> ('u, unit) pcact" where
  "listen_for_events E w =
     act_bind (pc_system (pv_send E (pc_socket w) (if f_enabled (pc_connection w) then PROC_CN_MCAST_LISTEN else PROC_CN_MCAST_IGNORE))) (\<lambda>ok.
       if ok then act_return () else act_bind (pc_reset E) (\<lambda>_. act_throw Runtime_error)) w"

text \<open>A constructor that throws destroys the socket on its way out.\<close>

definition new_process_changed :: "'u proc_changed_env \<Rightarrow> 'u \<Rightarrow> 'u process_changed result \<times> 'u" where
  "new_process_changed E u =
     (case pv_socket E u of (fd, u1) \<Rightarrow>
        if fd = -1 then (Inl Runtime_error, u1)
        else case pv_bind E fd u1 of (ok, u2) \<Rightarrow>
          if \<not> ok then (Inl Runtime_error, pv_close E fd u2)
          else case listen_for_events E \<lparr>pc_socket = fd, pc_connection = new_connection, pc_os = u2\<rparr> of
                 (Inl e, w) \<Rightarrow> (Inl e, pc_os w)
               | (Inr _, w) \<Rightarrow> (Inr w, pc_os w))"

definition pc_set_enable :: "'u proc_changed_env \<Rightarrow> bool \<Rightarrow> ('u, unit) pcact" where
  "pc_set_enable E enabled w =
     (if enabled \<noteq> f_enabled (pc_connection w)
      then act_bind (pc_update (\<lambda>w. w\<lparr>pc_connection := set_enable enabled (pc_connection w)\<rparr>)) (\<lambda>_. listen_for_events E) w
      else (Inr (), w))"

text \<open>The destructor: a failure of \<^verbatim>\<open>set_enable()\<close> is swallowed.\<close>

definition destroy_process_changed :: "'u proc_changed_env \<Rightarrow> ('u, unit) pcact" where
  "destroy_process_changed E w =
     (if pc_socket w \<noteq> -1 then pc_reset E (snd (pc_set_enable E False w)) else (Inr (), w))"

definition pc_get_socket :: "'u process_changed \<Rightarrow> int" where
  "pc_get_socket w = pc_socket w"

text \<open>One turn of the loop; \<open>again\<close> is its condition with the turns behind it.\<close>

definition pc_turn :: "'u proc_changed_env \<Rightarrow> ('u, unit) pcact \<Rightarrow> ('u, unit) pcact" where
  "pc_turn E again w =
     act_bind (pc_system (pv_recv E (pc_socket w))) (\<lambda>r.
       case r of
         Read_event p \<Rightarrow> act_bind (pv_process_event E (event_of (pv_no_uid E) (pv_no_gid E) p)) (\<lambda>_. again)
       | Read_nothing \<Rightarrow> act_return ()
       | Read_error e \<Rightarrow> if e = EAGAIN then act_return () else pv_process_error E) w"

text \<open>
  \<^verbatim>\<open>count < get_event_limit()\<close> is looked at before the clock, and the callback may have changed the limit. It is a byte, so
  there are at most 255 turns: with \<open>n\<close> turns left behind this one, \<^verbatim>\<open>count\<close> is \<open>255 - n\<close> at its end.\<close>

fun pc_loop :: "nat \<Rightarrow> 'u proc_changed_env \<Rightarrow> int \<Rightarrow> ('u, unit) pcact" where
  "pc_loop 0 E date_limit = pc_turn E (act_return ())"
| "pc_loop (Suc n) E date_limit =
     pc_turn E (\<lambda>w.
       if 254 - n < unat (f_event_limit (pc_connection w))
       then act_bind (pc_system (pv_now E)) (\<lambda>t. if t < date_limit then pc_loop n E date_limit else act_return ()) w
       else (Inr (), w))"

definition pc_process_read :: "'u proc_changed_env \<Rightarrow> ('u, unit) pcact" where
  "pc_process_read E w =
     act_bind (pc_system (pv_now E)) (\<lambda>t. pc_loop 254 E (t + f_processing_time_limit (pc_connection w))) w"

section \<open>The events are reported\<close>

text \<open>\<open>queue\<close> is what the kernel has for the socket, \<open>seen\<close> the events the callback was given.\<close>

definition connector_laws :: "('u \<Rightarrow> proc_event list) \<Rightarrow> ('u \<Rightarrow> process_changed_event list) \<Rightarrow> 'u proc_changed_env \<Rightarrow> bool" where
  "connector_laws queue seen E \<longleftrightarrow>
     (\<forall>fd u. seen (snd (pv_recv E fd u)) = seen u \<and> queue (snd (pv_recv E fd u)) = tl (queue u) \<and>
        fst (pv_recv E fd u) = (case queue u of [] \<Rightarrow> Read_error EAGAIN | p # ps \<Rightarrow> Read_event p)) \<and>
     (\<forall>u. seen (snd (pv_now E u)) = seen u \<and> queue (snd (pv_now E u)) = queue u) \<and>
     (\<forall>e w. \<exists>u. pv_process_event E e w = (Inr (), w\<lparr>pc_os := u\<rparr>) \<and> seen u = seen (pc_os w) @ [e] \<and> queue u = queue (pc_os w))"

lemma connector_recv:
  "connector_laws queue seen E \<Longrightarrow> \<exists>u'. pv_recv E fd u = ((case queue u of [] \<Rightarrow> Read_error EAGAIN | p # ps \<Rightarrow> Read_event p), u') \<and>
     seen u' = seen u \<and> queue u' = tl (queue u)"
  by (rule exI [of _ "snd (pv_recv E fd u)"]) (simp add: connector_laws_def prod_eq_iff)

lemma connector_now: "connector_laws queue seen E \<Longrightarrow> seen (snd (pv_now E u)) = seen u \<and> queue (snd (pv_now E u)) = queue u"
  by (simp add: connector_laws_def)

lemma connector_event: "connector_laws queue seen E \<Longrightarrow>
    \<exists>u. pv_process_event E e w = (Inr (), w\<lparr>pc_os := u\<rparr>) \<and> seen u = seen (pc_os w) @ [e] \<and> queue u = queue (pc_os w)"
  by (simp add: connector_laws_def)

text \<open>One turn: nothing to read, or one event and then the rest.\<close>

lemma pc_turn_step:
  assumes laws: "connector_laws queue seen E"
  shows "queue (pc_os w) = [] \<Longrightarrow> \<exists>u. pc_turn E again w = (Inr (), w\<lparr>pc_os := u\<rparr>) \<and> seen u = seen (pc_os w) \<and> queue u = []"
    and "queue (pc_os w) = p # ps \<Longrightarrow> \<exists>u. pc_turn E again w = again (w\<lparr>pc_os := u\<rparr>) \<and>
      seen u = seen (pc_os w) @ [event_of (pv_no_uid E) (pv_no_gid E) p] \<and> queue u = ps"
proof -
  obtain u where u: "pv_recv E (pc_socket w) (pc_os w) = ((case queue (pc_os w) of [] \<Rightarrow> Read_error EAGAIN | p # ps \<Rightarrow> Read_event p), u)"
      "seen u = seen (pc_os w)" "queue u = tl (queue (pc_os w))"
    using connector_recv [OF laws, of "pc_socket w" "pc_os w"] by auto
  show "\<exists>u. pc_turn E again w = (Inr (), w\<lparr>pc_os := u\<rparr>) \<and> seen u = seen (pc_os w) \<and> queue u = []" if "queue (pc_os w) = []"
    using u that by (auto simp: pc_turn_def act_bind_def pc_system_def act_return_def)
  show "\<exists>u. pc_turn E again w = again (w\<lparr>pc_os := u\<rparr>) \<and>
      seen u = seen (pc_os w) @ [event_of (pv_no_uid E) (pv_no_gid E) p] \<and> queue u = ps" if "queue (pc_os w) = p # ps"
  proof -
    obtain v where "pv_process_event E (event_of (pv_no_uid E) (pv_no_gid E) p) (w\<lparr>pc_os := u\<rparr>) = (Inr (), w\<lparr>pc_os := v\<rparr>)"
        "seen v = seen u @ [event_of (pv_no_uid E) (pv_no_gid E) p]" "queue v = queue u"
      using connector_event [OF laws, of "event_of (pv_no_uid E) (pv_no_gid E) p" "w\<lparr>pc_os := u\<rparr>"] by auto
    then show ?thesis using u that by (auto simp: pc_turn_def act_bind_def pc_system_def)
  qed
qed

definition reports :: "('u \<Rightarrow> proc_event list) \<Rightarrow> ('u \<Rightarrow> process_changed_event list) \<Rightarrow> 'u proc_changed_env \<Rightarrow> nat \<Rightarrow> int \<Rightarrow>
    'u process_changed \<Rightarrow> unit result \<times> 'u process_changed \<Rightarrow> bool" where
  "reports queue seen E limit date_limit w r \<longleftrightarrow>
     (\<exists>k u. r = (Inr (), w\<lparr>pc_os := u\<rparr>) \<and> k \<le> limit \<and> k \<le> length (queue (pc_os w)) \<and>
        seen u = seen (pc_os w) @ map (event_of (pv_no_uid E) (pv_no_gid E)) (take k (queue (pc_os w))) \<and> queue u = drop k (queue (pc_os w)) \<and>
        (queue (pc_os w) \<noteq> [] \<longrightarrow> 0 < k) \<and> (k = length (queue (pc_os w)) \<or> k = limit \<or> (\<exists>v. date_limit \<le> fst (pv_now E v))))"

lemma pc_loop_reports:
  assumes laws: "connector_laws queue seen E"
  shows "n \<le> 254 \<Longrightarrow> reports queue seen E (max 1 (unat (f_event_limit (pc_connection w)) - (254 - n))) date_limit w (pc_loop n E date_limit w)"
proof (induction n arbitrary: w)
  case 0
  have "unat (f_event_limit (pc_connection w)) < 256" using unsigned_less [where 'a = nat, of "f_event_limit (pc_connection w)"] by simp
  then have L: "max 1 (unat (f_event_limit (pc_connection w)) - 254) = (1 :: nat)" by simp
  show ?case
  proof (cases "queue (pc_os w)")
    case Nil
    then show ?thesis using pc_turn_step(1) [OF laws, of w] L by (fastforce simp: reports_def)
  next
    case (Cons p ps)
    then obtain u where "pc_turn E (act_return ()) w = (Inr (), w\<lparr>pc_os := u\<rparr>)"
        "seen u = seen (pc_os w) @ [event_of (pv_no_uid E) (pv_no_gid E) p]" "queue u = ps"
      using pc_turn_step(2) [OF laws, of w p ps "act_return ()"] by (auto simp: act_return_def)
    then show ?thesis using Cons L by (auto simp: reports_def intro!: exI [of _ 1])
  qed
next
  case (Suc n)
  let ?L = "unat (f_event_limit (pc_connection w))"
  show ?case
  proof (cases "queue (pc_os w)")
    case Nil
    let ?again = "\<lambda>w. if 254 - n < unat (f_event_limit (pc_connection w))
       then act_bind (pc_system (pv_now E)) (\<lambda>t. if t < date_limit then pc_loop n E date_limit else act_return ()) w else (Inr (), w)"
    show ?thesis using pc_turn_step(1) [OF laws Nil, of ?again] Nil by (auto simp: reports_def)
  next
    case (Cons p ps)
    let ?again = "\<lambda>w. if 254 - n < unat (f_event_limit (pc_connection w))
       then act_bind (pc_system (pv_now E)) (\<lambda>t. if t < date_limit then pc_loop n E date_limit else act_return ()) w else (Inr (), w)"
    obtain u where u: "pc_loop (Suc n) E date_limit w = ?again (w\<lparr>pc_os := u\<rparr>)"
        "seen u = seen (pc_os w) @ [event_of (pv_no_uid E) (pv_no_gid E) p]" "queue u = ps"
      using pc_turn_step(2) [OF laws Cons, of ?again] by auto
    obtain t v where v: "pv_now E u = (t, v)" by (cases "pv_now E u")
    have same: "seen v = seen u" "queue v = queue u" using connector_now [OF laws, of u] v by simp_all
    consider (limit) "?L \<le> 254 - n" | (late) "254 - n < ?L" "date_limit \<le> t" | (go) "254 - n < ?L" "t < date_limit" by linarith
    then show ?thesis
    proof cases
      case limit
      then have "max 1 (?L - (254 - Suc n)) = 1" using Suc.prems by simp
      then show ?thesis using limit u Cons by (auto simp: reports_def intro!: exI [of _ 1])
    next
      case late
      then have "pc_loop (Suc n) E date_limit w = (Inr (), w\<lparr>pc_os := v\<rparr>)" using u(1) v by (simp add: act_bind_def pc_system_def act_return_def)
      moreover have "\<exists>v. date_limit \<le> fst (pv_now E v)" using late(2) v by (metis fst_conv)
      ultimately show ?thesis using u(2,3) same Cons by (auto simp: reports_def intro!: exI [of _ 1])
    next
      case go
      let ?w = "w\<lparr>pc_os := v\<rparr>"
      have run: "pc_loop (Suc n) E date_limit w = pc_loop n E date_limit ?w" using go u(1) v by (simp add: act_bind_def pc_system_def)
      define m where "m = max 1 (?L - (254 - n))"
      obtain k x where k: "pc_loop n E date_limit ?w = (Inr (), ?w\<lparr>pc_os := x\<rparr>)" "k \<le> m" "k \<le> length ps"
          "seen x = seen v @ map (event_of (pv_no_uid E) (pv_no_gid E)) (take k ps)" "queue x = drop k ps"
          "k = length ps \<or> k = m \<or> (\<exists>v. date_limit \<le> fst (pv_now E v))"
        using Suc.IH [of ?w] Suc.prems same(2) u(3) by (auto simp: reports_def m_def)
      have "reports queue seen E (Suc m) date_limit w (pc_loop (Suc n) E date_limit w)"
        unfolding reports_def using run k u(2,3) same Cons by (intro exI [of _ "Suc k"] exI [of _ x]) auto
      moreover have "max 1 (?L - (254 - Suc n)) = Suc m" unfolding m_def using go(1) Suc.prems by auto
      ultimately show ?thesis by (simp only:)
    qed
  qed
qed

text \<open>
  C32 (bounds): one call reads a bounded number of events, and at least one. \<^verbatim>\<open>process_read()\<close> gives the callback the first events
  of the queue, in order, each once and decoded; at most as many as the event limit says, but always one when there is one; it
  stops earlier only when the queue is empty or the clock has passed the limit on the time.\<close>

theorem process_events_bounded:
  assumes laws: "connector_laws queue seen E"
  shows "\<exists>k u date_limit. pc_process_read E w = (Inr (), w\<lparr>pc_os := u\<rparr>) \<and> k \<le> length (queue (pc_os w)) \<and>
     k \<le> max 1 (unat (f_event_limit (pc_connection w))) \<and> (queue (pc_os w) \<noteq> [] \<longrightarrow> 0 < k) \<and>
     seen u = seen (pc_os w) @ map (event_of (pv_no_uid E) (pv_no_gid E)) (take k (queue (pc_os w))) \<and> queue u = drop k (queue (pc_os w)) \<and>
     date_limit = fst (pv_now E (pc_os w)) + f_processing_time_limit (pc_connection w) \<and>
     (k = length (queue (pc_os w)) \<or> k = max 1 (unat (f_event_limit (pc_connection w))) \<or> (\<exists>v. date_limit \<le> fst (pv_now E v)))"
proof -
  obtain t v where v: "pv_now E (pc_os w) = (t, v)" by (cases "pv_now E (pc_os w)")
  have same: "seen v = seen (pc_os w)" "queue v = queue (pc_os w)" using connector_now [OF laws, of "pc_os w"] v by simp_all
  let ?w = "w\<lparr>pc_os := v\<rparr>" and ?d = "t + f_processing_time_limit (pc_connection w)"
  have "reports queue seen E (max 1 (unat (f_event_limit (pc_connection w)))) ?d ?w (pc_loop 254 E ?d ?w)"
    using pc_loop_reports [OF laws, of 254 ?w ?d] by simp
  then show ?thesis using v same by (auto simp: reports_def pc_process_read_def act_bind_def pc_system_def)
qed

section \<open>The kernel's side of \<^verbatim>\<open>set_enable()\<close>\<close>

text \<open>\<open>subscribed\<close>: whether the kernel sends events to the socket, which only \<^verbatim>\<open>send()\<close> changes.\<close>

definition subscribe_laws :: "('u \<Rightarrow> bool) \<Rightarrow> 'u proc_changed_env \<Rightarrow> bool" where
  "subscribe_laws subscribed E \<longleftrightarrow>
     (\<forall>fd op u. fst (pv_send E fd op u) \<longrightarrow> subscribed (snd (pv_send E fd op u)) = (op = PROC_CN_MCAST_LISTEN)) \<and>
     (\<forall>fd u. subscribed (snd (pv_recv E fd u)) = subscribed u) \<and> (\<forall>u. subscribed (snd (pv_now E u)) = subscribed u)"

definition pc_ok :: "('u \<Rightarrow> bool) \<Rightarrow> 'u process_changed \<Rightarrow> bool" where
  "pc_ok subscribed w \<longleftrightarrow> pc_socket w = -1 \<or> (subscribed (pc_os w) \<longleftrightarrow> f_enabled (pc_connection w))"

lemma subscribe_send: "subscribe_laws subscribed E \<Longrightarrow> pv_send E fd op u = (True, v) \<Longrightarrow> subscribed v \<longleftrightarrow> op = PROC_CN_MCAST_LISTEN"
  unfolding subscribe_laws_def by (metis fst_conv snd_conv)

lemma listen_for_events_ok:
  assumes "subscribe_laws subscribed E"
  shows "pc_ok subscribed (snd (listen_for_events E w))"
proof -
  let ?op = "if f_enabled (pc_connection w) then PROC_CN_MCAST_LISTEN else PROC_CN_MCAST_IGNORE"
  obtain ok u where send: "pv_send E (pc_socket w) ?op (pc_os w) = (ok, u)" by (cases "pv_send E (pc_socket w) ?op (pc_os w)")
  show ?thesis
  proof (cases ok)
    case True
    then show ?thesis using send subscribe_send [OF assms, of "pc_socket w" ?op "pc_os w" u]
      by (simp add: listen_for_events_def act_bind_def pc_system_def act_return_def pc_ok_def split: if_splits)
  next
    case False
    then show ?thesis using send
      by (simp add: listen_for_events_def act_bind_def pc_system_def pc_reset_def pc_update_def act_throw_def pc_ok_def)
  qed
qed

lemma keeps_pc_set_enable: "subscribe_laws subscribed E \<Longrightarrow> keeps (pc_ok subscribed) (pc_set_enable E enabled)"
  using listen_for_events_ok [of subscribed E] by (auto simp: keeps_def pc_set_enable_def act_bind_def pc_update_def)

lemma new_process_changed_ok:
  assumes "subscribe_laws subscribed E" "new_process_changed E u = (Inr w, u')"
  shows "pc_ok subscribed w"
proof -
  obtain fd v where "listen_for_events E \<lparr>pc_socket = fd, pc_connection = new_connection, pc_os = v\<rparr> = (Inr (), w)"
    using assms(2) by (auto simp: new_process_changed_def split: prod.splits if_splits sum.splits)
  then show ?thesis using listen_for_events_ok [OF assms(1)] by (metis snd_conv)
qed

lemma keeps_pc_process_read:
  assumes laws: "subscribe_laws subscribed E"
    and callbacks: "\<And>e. keeps (pc_ok subscribed) (pv_process_event E e)" "keeps (pc_ok subscribed) (pv_process_error E)"
  shows "keeps (pc_ok subscribed) (pc_process_read E)"
proof -
  have now: "keeps (pc_ok subscribed) (pc_system (pv_now E))"
    using laws by (auto simp: keeps_def pc_system_def pc_ok_def subscribe_laws_def split: prod.split) (metis snd_conv)+
  have recv: "keeps (pc_ok subscribed) (pc_system (pv_recv E fd))" for fd
    using laws by (auto simp: keeps_def pc_system_def pc_ok_def subscribe_laws_def split: prod.split) (metis snd_conv)+
  have turn: "keeps (pc_ok subscribed) (pc_turn E again)" if "keeps (pc_ok subscribed) again" for again
  proof -
    have "keeps (pc_ok subscribed) (act_bind (pc_system (pv_recv E fd)) (\<lambda>r. case r of
         Read_event p \<Rightarrow> act_bind (pv_process_event E (event_of (pv_no_uid E) (pv_no_gid E) p)) (\<lambda>_. again)
       | Read_nothing \<Rightarrow> act_return () | Read_error e \<Rightarrow> if e = EAGAIN then act_return () else pv_process_error E))" for fd
      using that callbacks by (intro keeps_bind recv) (auto intro: keeps_bind split: proc_read.split)
    then show ?thesis by (simp add: keeps_def pc_turn_def)
  qed
  have loop: "keeps (pc_ok subscribed) (pc_loop n E d)" for n d
  proof (induction n)
    case (Suc n)
    have "keeps (pc_ok subscribed) (act_bind (pc_system (pv_now E)) (\<lambda>t. if t < d then pc_loop n E d else act_return ()))"
      using Suc by (intro keeps_bind now) simp
    then show ?case unfolding pc_loop.simps by (intro turn) (simp add: keeps_def)
  qed (simp add: turn)
  have "keeps (pc_ok subscribed) (act_bind (pc_system (pv_now E)) (\<lambda>t. pc_loop 254 E (t + l)))" for l
    by (intro keeps_bind now loop)
  then show ?thesis by (simp add: keeps_def pc_process_read_def)
qed

text \<open>
  The kernel sends events exactly while the connection is enabled: after the constructor and whatever \<^verbatim>\<open>set_enable()\<close> was called
  with, unless a call of \<^verbatim>\<open>send()\<close> failed, and then the socket is closed.\<close>

inductive process_changed_life :: "'u proc_changed_env \<Rightarrow> 'u process_changed \<Rightarrow> bool" for E where
  pl_new: "new_process_changed E u = (Inr w, u') \<Longrightarrow> process_changed_life E w"
| pl_enable: "process_changed_life E w \<Longrightarrow> pc_set_enable E enabled w = (r, w') \<Longrightarrow> process_changed_life E w'"
| pl_read: "process_changed_life E w \<Longrightarrow> pc_process_read E w = (r, w') \<Longrightarrow> process_changed_life E w'"

theorem subscription_follows_enable:
  assumes laws: "subscribe_laws subscribed E"
    and callbacks: "\<And>e. keeps (pc_ok subscribed) (pv_process_event E e)" "keeps (pc_ok subscribed) (pv_process_error E)"
    and life: "process_changed_life E w"
  shows "pc_get_socket w = -1 \<or> (subscribed (pc_os w) \<longleftrightarrow> f_enabled (pc_connection w))"
  using life
proof induction
  case (pl_new u w u')
  then show ?case using new_process_changed_ok [OF laws] by (simp add: pc_ok_def pc_get_socket_def)
next
  case (pl_enable w enabled r w')
  then show ?case using keepsD [OF keeps_pc_set_enable [OF laws], of w enabled] by (simp add: pc_ok_def pc_get_socket_def)
next
  case (pl_read w r w')
  then show ?case using keepsD [OF keeps_pc_process_read [OF laws callbacks], of w] by (simp add: pc_ok_def pc_get_socket_def)
qed

section \<open>A kernel to try the theorems on\<close>

text \<open>The state is the clock, the events that wait, those seen and whether there is a subscription.\<close>

type_synonym demo_connector = "int \<times> proc_event list \<times> process_changed_event list \<times> bool"

definition demo_changed_env :: "demo_connector proc_changed_env" where
  "demo_changed_env = \<lparr>pv_no_uid = -1, pv_no_gid = -1, pv_socket = (\<lambda>u. (3, u)), pv_close = (\<lambda>fd u. u), pv_bind = (\<lambda>fd u. (True, u)),
     pv_send = (\<lambda>fd op (t, q, s, b). (True, t, q, s, op = PROC_CN_MCAST_LISTEN)),
     pv_recv = (\<lambda>fd (t, q, s, b). ((case q of [] \<Rightarrow> Read_error EAGAIN | p # ps \<Rightarrow> Read_event p), t, tl q, s, b)),
     pv_now = (\<lambda>(t, q, s, b). (t, t + 1, q, s, b)),
     pv_process_event = (\<lambda>e w. (Inr (), w\<lparr>pc_os := (case pc_os w of (t, q, s, b) \<Rightarrow> (t, q, s @ [e], b))\<rparr>)),
     pv_process_error = act_return ()\<rparr>"

definition demo_exit :: "int \<Rightarrow> proc_event" where
  "demo_exit pid = \<lparr>pe_cpu = 0, pe_timestamp_ns = 0, pe_data = Pe_exit pid pid 0 17\<rparr>"

definition demo_changed :: "demo_connector process_changed" where
  "demo_changed = \<lparr>pc_socket = 3, pc_connection = new_connection, pc_os = (0, map demo_exit [1, 2, 3, 4, 5, 6, 7], [], True)\<rparr>"

theorem process_events_bounded_witness:
  "\<exists>k u. pc_process_read demo_changed_env demo_changed = (Inr (), demo_changed\<lparr>pc_os := u\<rparr>) \<and> 0 < k \<and> k \<le> 5 \<and>
     map pce_pid (fst (snd (snd u))) = take k [1, 2, 3, 4, 5, 6, 7]"
proof -
  have laws: "connector_laws (\<lambda>u. fst (snd u)) (\<lambda>u. fst (snd (snd u))) demo_changed_env"
    by (auto simp: connector_laws_def demo_changed_env_def case_prod_beta)
  have pids: "map pce_pid (map (event_of a b) (take k (map demo_exit ps))) = take k ps" for a b k ps
    by (simp add: take_map event_of_def demo_exit_def o_def)
  define q where "q = map demo_exit [1, 2, 3, 4, 5, 6, 7]"
  have w: "unat (f_event_limit (pc_connection demo_changed)) = 5" "fst (snd (pc_os demo_changed)) = q" "q \<noteq> []"
      "fst (snd (snd (pc_os demo_changed))) = []"
    by (simp_all add: demo_changed_def new_connection_def q_def)
  obtain k u where ku: "pc_process_read demo_changed_env demo_changed = (Inr (), demo_changed\<lparr>pc_os := u\<rparr>)" "k \<le> max 1 5" "q \<noteq> [] \<longrightarrow> 0 < k"
      "fst (snd (snd u)) = [] @ map (event_of (pv_no_uid demo_changed_env) (pv_no_gid demo_changed_env)) (take k q)"
    using process_events_bounded [OF laws, of demo_changed] unfolding w by blast
  from this(4) have "map pce_pid (fst (snd (snd u))) = take k [1, 2, 3, 4, 5, 6, 7]" unfolding q_def append_Nil by (simp only: pids)
  then show ?thesis using ku(1-3) w(3) by (intro exI [of _ k] exI [of _ u]) simp
qed

theorem subscription_follows_enable_witness:
  "\<exists>w. pc_set_enable demo_changed_env False demo_changed = (Inr (), w) \<and> \<not> snd (snd (snd (pc_os w)))"
proof -
  have laws: "subscribe_laws (\<lambda>u. snd (snd (snd u))) demo_changed_env"
    by (auto simp: subscribe_laws_def demo_changed_env_def)
  have "new_process_changed demo_changed_env (0, map demo_exit [1, 2, 3, 4, 5, 6, 7], [], False) = (Inr demo_changed, pc_os demo_changed)"
    by (simp add: new_process_changed_def demo_changed_env_def listen_for_events_def act_bind_def pc_system_def act_return_def
        demo_changed_def new_connection_def)
  then have "process_changed_life demo_changed_env demo_changed" by (rule pl_new)
  then have life: "process_changed_life demo_changed_env (snd (pc_set_enable demo_changed_env False demo_changed))"
    by (rule pl_enable [OF _ prod.collapse [symmetric]])
  have "keeps (pc_ok (\<lambda>u. snd (snd (snd u)))) (pv_process_event demo_changed_env e)"
       "keeps (pc_ok (\<lambda>u. snd (snd (snd u)))) (pv_process_error demo_changed_env)" for e
    by (auto simp: demo_changed_env_def keeps_def pc_ok_def act_return_def split: prod.split)
  from subscription_follows_enable [OF laws this life] show ?thesis
    by (simp add: pc_set_enable_def demo_changed_env_def listen_for_events_def act_bind_def pc_system_def pc_update_def act_return_def
        demo_changed_def new_connection_def set_enable_def pc_get_socket_def)
qed

end
