(* ===== verification/Unix_Sockets.thy ===== *)
theory Unix_Sockets
  imports Communicator
begin

text \<open>
  The sockets of the family \<^verbatim>\<open>AF_UNIX\<close>: \<^verbatim>\<open>local_stream_client_connection.cpp\<close>, \<^verbatim>\<open>local_stream_server_connection.cpp\<close>,
  \<^verbatim>\<open>local_stream_server_client_connection.cpp\<close>, \<^verbatim>\<open>local_dgram_base.cpp\<close>, \<^verbatim>\<open>local_dgram_client.cpp\<close> and
  \<^verbatim>\<open>local_dgram_server.cpp\<close>. The system calls are parameters; the constructors are actions on the system, which give the
  descriptor of the new object or throw.
\<close>

section \<open>The system\<close>

text \<open>An address, by the answers of \<^verbatim>\<open>addr_unix\<close>; \<open>au_un\<close> are the bytes of \<^verbatim>\<open>sun_path\<close>.\<close>

datatype unix_kind = Unix_file | Unix_abstract | Unix_unnamed

record addr_unix =
  au_kind :: unix_kind
  au_un :: string
  au_group :: string
  au_mode :: int

datatype socket_type = SOCK_STREAM | SOCK_DGRAM | SOCK_SEQPACKET

datatype file_kind = Is_socket | Is_other

text \<open>
  The name given to \<^verbatim>\<open>bind()\<close>, \<^verbatim>\<open>connect()\<close> and \<^verbatim>\<open>sendto()\<close> is the part of \<^verbatim>\<open>sun_path\<close> within the length of the address.
  \<open>un_unlink\<close> says whether the file is gone, \<^verbatim>\<open>ENOENT\<close> included; \<open>un_sndbuf\<close> is \<^verbatim>\<open>getsockopt()\<close> with \<^verbatim>\<open>SO_SNDBUF\<close>.\<close>

record 'u unix_env =
  un_socket :: "socket_type \<Rightarrow> bool \<Rightarrow> bool \<Rightarrow> 'u \<Rightarrow> int \<times> 'u"
  un_close :: "int \<Rightarrow> 'u \<Rightarrow> 'u"
  un_connect :: "int \<Rightarrow> string \<Rightarrow> 'u \<Rightarrow> errno option \<times> 'u"
  un_bind :: "int \<Rightarrow> string \<Rightarrow> 'u \<Rightarrow> bool \<times> 'u"
  un_listen :: "int \<Rightarrow> int \<Rightarrow> 'u \<Rightarrow> bool \<times> 'u"
  un_accept :: "int \<Rightarrow> 'u \<Rightarrow> int \<times> 'u"
  un_stat :: "string \<Rightarrow> 'u \<Rightarrow> file_kind option"
  un_unlink :: "string \<Rightarrow> 'u \<Rightarrow> bool \<times> 'u"
  un_fchmod :: "int \<Rightarrow> int \<Rightarrow> 'u \<Rightarrow> bool \<times> 'u"
  un_chown :: "string \<Rightarrow> string \<Rightarrow> 'u \<Rightarrow> bool \<times> 'u"
  un_chmod :: "string \<Rightarrow> int \<Rightarrow> 'u \<Rightarrow> bool \<times> 'u"
  un_sndbuf :: "int \<Rightarrow> 'u \<Rightarrow> int option \<times> 'u"
  un_cloexec :: "int \<Rightarrow> 'u \<Rightarrow> bool \<times> 'u"
  un_nonblock :: "int \<Rightarrow> 'u \<Rightarrow> unit \<times> 'u"
  un_sendto :: "int \<Rightarrow> string \<Rightarrow> string \<Rightarrow> 'u \<Rightarrow> int \<times> 'u"
  un_poll :: "int \<Rightarrow> int \<Rightarrow> 'u \<Rightarrow> int \<times> 'u"
  un_recv :: "int \<Rightarrow> nat \<Rightarrow> 'u \<Rightarrow> (errno + string) \<times> 'u"

definition un_call :: "('u \<Rightarrow> 'r \<times> 'u) \<Rightarrow> ('u, 'r) act" where
  "un_call f u = (case f u of (a, u') \<Rightarrow> (Inr a, u'))"

text \<open>\<^verbatim>\<open>raii_fd_t\<close>: the constructor of an object that throws closes the descriptor it already has.\<close>

definition un_closing :: "'u unix_env \<Rightarrow> int \<Rightarrow> ('u, 'r) act \<Rightarrow> ('u, 'r) act" where
  "un_closing E fd m u = (case m u of (Inl e, u') \<Rightarrow> (Inl e, un_close E fd u') | r \<Rightarrow> r)"

definition with_socket :: "'u unix_env \<Rightarrow> socket_type \<Rightarrow> bool \<Rightarrow> bool \<Rightarrow> (int \<Rightarrow> ('u, unit) act) \<Rightarrow> ('u, int) act" where
  "with_socket E type nonblock cloexec f =
     act_bind (un_call (un_socket E type nonblock cloexec)) (\<lambda>fd.
       if fd = -1 then act_throw Runtime_error
       else un_closing E fd (act_bind (f fd) (\<lambda>_. act_return fd)))"

definition require :: "bool \<Rightarrow> ('u, unit) act" where
  "require b = (if b then act_return () else act_throw Runtime_error)"

section \<open>Streams\<close>

text \<open>\<^verbatim>\<open>strlen(un.sun_path + 1)\<close>\<close>

definition abstract_strlen :: "addr_unix \<Rightarrow> nat" where
  "abstract_strlen a = length (c_str (drop 1 (au_un a)))"

text \<open>The family takes two bytes of the length.\<close>

definition client_name :: "addr_unix \<Rightarrow> string" where
  "client_name a = (if au_kind a = Unix_abstract then take (abstract_strlen a - 2) (au_un a) else au_un a)"

definition server_name :: "addr_unix \<Rightarrow> string" where
  "server_name a = (if au_kind a = Unix_file then au_un a else take (2 + 1 + abstract_strlen a - 2) (au_un a))"

definition new_local_stream_client :: "'u unix_env \<Rightarrow> addr_unix \<Rightarrow> bool \<Rightarrow> bool \<Rightarrow> ('u, int) act" where
  "new_local_stream_client E a blocking cloexec =
     with_socket E SOCK_STREAM (\<not> blocking) cloexec (\<lambda>fd.
       if au_kind a = Unix_unnamed then act_return ()
       else act_bind (un_call (un_connect E fd (client_name a))) (\<lambda>r.
            act_bind (require (r = None)) (\<lambda>_. if \<not> blocking then un_call (un_nonblock E fd) else act_return ())))"

text \<open>The destructor: the descriptor is closed unless \<^verbatim>\<open>close()\<close> did.\<close>

definition destroy_socket :: "'u unix_env \<Rightarrow> int \<Rightarrow> 'u \<Rightarrow> 'u" where
  "destroy_socket E fd u = (if fd = -1 then u else un_close E fd u)"

definition clamp_connections :: "int \<Rightarrow> int" where
  "clamp_connections n = (if n < 5 then 5 else if n > 1000 then 1000 else n)"

definition path_of :: "addr_unix \<Rightarrow> string" where
  "path_of a = c_str (au_un a)"

text \<open>Whether a client fails to connect: the test for a file nobody listens to.\<close>

definition nobody_answers :: "'u unix_env \<Rightarrow> addr_unix \<Rightarrow> ('u, bool) act" where
  "nobody_answers E a u =
     (case new_local_stream_client E a False True u of
        (Inl e, u') \<Rightarrow> if e = Runtime_error then (Inr True, u') else (Inl e, u')
      | (Inr fd, u') \<Rightarrow> (Inr False, destroy_socket E fd u'))"

definition stream_reuse :: "'u unix_env \<Rightarrow> addr_unix \<Rightarrow> bool \<Rightarrow> ('u, unit) act" where
  "stream_reuse E a force u =
     (case un_stat E (path_of a) u of
        None \<Rightarrow> (Inr (), u)
      | Some Is_other \<Rightarrow> (Inl Runtime_error, u)
      | Some Is_socket \<Rightarrow>
          act_bind (if force then nobody_answers E a else act_return False) (\<lambda>available.
          act_bind (require available) (\<lambda>_.
          act_bind (un_call (un_unlink E (path_of a))) require)) u)"

text \<open>The group and the mode of the file, behind \<^verbatim>\<open>bind()\<close>, whose result is \<open>r\<close>.\<close>

definition file_rights :: "'u unix_env \<Rightarrow> addr_unix \<Rightarrow> bool \<Rightarrow> ('u, unit) act" where
  "file_rights E a r =
     act_bind (if au_group a \<noteq> [] then act_bind (un_call (un_chown E (path_of a) (au_group a))) require else act_return ()) (\<lambda>_.
       if r then act_bind (un_call (un_chmod E (path_of a) (au_mode a))) require else act_return ())"

definition new_local_stream_server :: "'u unix_env \<Rightarrow> addr_unix \<Rightarrow> int \<Rightarrow> bool \<Rightarrow> bool \<Rightarrow> ('u, int) act" where
  "new_local_stream_server E a max_connections force cloexec =
     with_socket E SOCK_STREAM True cloexec (\<lambda>fd.
       if au_kind a = Unix_unnamed then act_return ()
       else act_bind
         (if au_kind a = Unix_file
          then act_bind (stream_reuse E a force) (\<lambda>_.
               act_bind (un_call (un_fchmod E fd 0x180)) (\<lambda>ok.
               act_bind (require ok) (\<lambda>_.
               act_bind (un_call (un_bind E fd (server_name a))) (\<lambda>r.
               act_bind (file_rights E a r) (\<lambda>_. act_return r)))))
          else un_call (un_bind E fd (server_name a)))
         (\<lambda>r. act_bind (require r) (\<lambda>_. act_bind (un_call (un_listen E fd (clamp_connections max_connections))) require)))"

definition destroy_local_stream_server :: "'u unix_env \<Rightarrow> addr_unix \<Rightarrow> int \<Rightarrow> 'u \<Rightarrow> 'u" where
  "destroy_local_stream_server E a fd u = destroy_socket E fd (snd (un_unlink E (path_of a) u))"

definition local_stream_accept :: "'u unix_env \<Rightarrow> bool \<Rightarrow> int \<Rightarrow> ('u, int) act" where
  "local_stream_accept E cloexec fd =
     act_bind (un_call (un_accept E fd)) (\<lambda>r.
       if r = -1 then act_throw Runtime_error
       else if cloexec then act_bind (un_call (un_cloexec E r)) (\<lambda>_. act_return r) else act_return r)"

section \<open>Datagrams\<close>

text \<open>The constructor of the base class has its own \<^verbatim>\<open>raii_fd_t\<close>; the result is the descriptor and the size \<^verbatim>\<open>f_mtu_size\<close>.\<close>

definition dgram_base :: "'u unix_env \<Rightarrow> int \<Rightarrow> ('u, int) act" where
  "dgram_base E fd =
     act_bind (un_call (un_fchmod E fd 0x180)) (\<lambda>_.
     act_bind (un_call (un_sndbuf E fd)) (\<lambda>r.
       case r of None \<Rightarrow> act_throw Runtime_error | Some n \<Rightarrow> act_return n))"

definition dgram_type :: "bool \<Rightarrow> socket_type" where
  "dgram_type sequential = (if sequential then SOCK_SEQPACKET else SOCK_DGRAM)"

definition new_local_dgram_client :: "'u unix_env \<Rightarrow> addr_unix \<Rightarrow> bool \<Rightarrow> bool \<Rightarrow> ('u, int) act" where
  "new_local_dgram_client E a sequential cloexec =
     with_socket E (dgram_type sequential) False cloexec (\<lambda>fd. act_bind (dgram_base E fd) (\<lambda>_. act_return ()))"

definition dgram_reuse :: "'u unix_env \<Rightarrow> addr_unix \<Rightarrow> bool \<Rightarrow> ('u, unit) act" where
  "dgram_reuse E a force u =
     (case un_stat E (path_of a) u of
        None \<Rightarrow> (Inr (), u)
      | Some Is_other \<Rightarrow> (Inl Runtime_error, u)
      | Some Is_socket \<Rightarrow>
          act_bind (require force) (\<lambda>_. act_bind (un_call (un_unlink E (path_of a))) require) u)"

definition new_local_dgram_server :: "'u unix_env \<Rightarrow> addr_unix \<Rightarrow> bool \<Rightarrow> bool \<Rightarrow> bool \<Rightarrow> ('u, int) act" where
  "new_local_dgram_server E a sequential cloexec force =
     with_socket E (dgram_type sequential) False cloexec (\<lambda>fd. act_bind (dgram_base E fd) (\<lambda>_.
       if au_kind a = Unix_unnamed then act_return ()
       else act_bind
         (if au_kind a = Unix_file
          then act_bind (dgram_reuse E a force) (\<lambda>_.
               act_bind (un_call (un_bind E fd (server_name a))) (\<lambda>r.
               act_bind (file_rights E a r) (\<lambda>_. act_return r)))
          else un_call (un_bind E fd (server_name a)))
         require))"

text \<open>The client gives the whole structure as the address, for an abstract name too.\<close>

definition local_dgram_send :: "'u unix_env \<Rightarrow> addr_unix \<Rightarrow> int \<Rightarrow> string \<Rightarrow> 'u \<Rightarrow> int \<times> 'u" where
  "local_dgram_send E a fd msg = un_sendto E fd (au_un a) msg"

definition dgram_mss_size :: "int \<Rightarrow> int" where
  "dgram_mss_size mtu = (if mtu < 32 then -1 else mtu - 32)"

definition local_timed_recv :: "'u unix_env \<Rightarrow> int \<Rightarrow> nat \<Rightarrow> int \<Rightarrow> 'u \<Rightarrow> (errno + string) \<times> 'u" where
  "local_timed_recv E fd max_size max_wait_ms u =
     (case un_poll E fd max_wait_ms u of (r, u') \<Rightarrow>
        if r = -1 then (Inl Other_errno, u')
        else if r > 0 then un_recv E fd max_size u'
        else (Inl EAGAIN, u'))"

definition local_timed_recv_string :: "'u unix_env \<Rightarrow> int \<Rightarrow> nat \<Rightarrow> int \<Rightarrow> 'u \<Rightarrow> string \<times> 'u" where
  "local_timed_recv_string E fd bufsize max_wait_ms u =
     (case local_timed_recv E fd bufsize max_wait_ms u of (Inl e, u') \<Rightarrow> ([], u') | (Inr s, u') \<Rightarrow> (s, u'))"

section \<open>No descriptor is lost\<close>

text \<open>\<open>fds\<close> are the descriptors that are open: \<^verbatim>\<open>socket()\<close> gives one that was not, \<^verbatim>\<open>close()\<close> takes one away.\<close>

definition fd_laws :: "('u \<Rightarrow> int set) \<Rightarrow> 'u unix_env \<Rightarrow> bool" where
  "fd_laws fds E \<longleftrightarrow>
     (\<forall>t n c u. case un_socket E t n c u of (fd, u') \<Rightarrow> if fd = -1 then fds u' = fds u else fd \<notin> fds u \<and> fds u' = insert fd (fds u)) \<and>
     (\<forall>fd u. fds (un_close E fd u) = fds u - {fd}) \<and>
     (\<forall>fd n u. fds (snd (un_connect E fd n u)) = fds u) \<and> (\<forall>fd n u. fds (snd (un_bind E fd n u)) = fds u) \<and>
     (\<forall>fd n u. fds (snd (un_listen E fd n u)) = fds u) \<and> (\<forall>p u. fds (snd (un_unlink E p u)) = fds u) \<and>
     (\<forall>fd m u. fds (snd (un_fchmod E fd m u)) = fds u) \<and> (\<forall>p g u. fds (snd (un_chown E p g u)) = fds u) \<and>
     (\<forall>p m u. fds (snd (un_chmod E p m u)) = fds u) \<and> (\<forall>fd u. fds (snd (un_sndbuf E fd u)) = fds u) \<and>
     (\<forall>fd u. fds (snd (un_nonblock E fd u)) = fds u)"

definition leak_free :: "('u \<Rightarrow> int set) \<Rightarrow> ('u, int) act \<Rightarrow> bool" where
  "leak_free fds m \<longleftrightarrow>
     (\<forall>u. case m u of (Inl e, u') \<Rightarrow> fds u' = fds u | (Inr fd, u') \<Rightarrow> fd \<notin> fds u \<and> fds u' = insert fd (fds u))"

abbreviation fds_are :: "('u \<Rightarrow> int set) \<Rightarrow> int set \<Rightarrow> 'u \<Rightarrow> bool" where
  "fds_are fds S u \<equiv> fds u = S"

lemma keeps_un_call: "(\<And>u. h (snd (f u)) = h u) \<Longrightarrow> keeps (\<lambda>u. h u = x) (un_call f)"
  by (simp add: keeps_def un_call_def case_prod_beta)

lemma keeps_require [simp]: "keeps I (require b)"
  by (simp add: require_def)

lemma keeps_calls:
  assumes "fd_laws fds E"
  shows "keeps (fds_are fds S) (un_call (un_connect E fd n))" "keeps (fds_are fds S) (un_call (un_bind E fd n))"
    "keeps (fds_are fds S) (un_call (un_listen E fd l))" "keeps (fds_are fds S) (un_call (un_unlink E p))"
    "keeps (fds_are fds S) (un_call (un_fchmod E fd m))" "keeps (fds_are fds S) (un_call (un_chown E p g))"
    "keeps (fds_are fds S) (un_call (un_chmod E p m))" "keeps (fds_are fds S) (un_call (un_sndbuf E fd))"
    "keeps (fds_are fds S) (un_call (un_nonblock E fd))"
  using assms by (intro keeps_un_call; simp add: fd_laws_def)+

lemma fd_laws_socket: "fd_laws fds E \<Longrightarrow>
    case un_socket E t n c u of (fd, u') \<Rightarrow> if fd = -1 then fds u' = fds u else fd \<notin> fds u \<and> fds u' = insert fd (fds u)"
  by (simp add: fd_laws_def)

lemma with_socket_leak_free:
  assumes laws: "fd_laws fds E" and f: "\<And>fd S. keeps (fds_are fds S) (f fd)"
  shows "leak_free fds (with_socket E t n c f)"
  unfolding leak_free_def
proof
  fix u
  obtain fd v where sock: "un_socket E t n c u = (fd, v)" by (cases "un_socket E t n c u")
  have new: "if fd = -1 then fds v = fds u else fd \<notin> fds u \<and> fds v = insert fd (fds u)"
    using fd_laws_socket [OF laws, where t = t and n = n and c = c and u = u] sock by simp
  obtain r x where fx: "f fd v = (r, x)" by (cases "f fd v")
  have x: "fds x = fds v" using keepsD [OF f, of v "fds v" fd] fx by simp
  have close: "fds (un_close E fd x) = fds x - {fd}" using laws by (simp add: fd_laws_def)
  show "case with_socket E t n c f u of (Inl e, u') \<Rightarrow> fds u' = fds u | (Inr fd, u') \<Rightarrow> fd \<notin> fds u \<and> fds u' = insert fd (fds u)"
    using sock new fx x close
    by (cases r) (auto simp: with_socket_def un_call_def act_bind_def un_closing_def act_throw_def act_return_def split: if_splits)
qed

lemma client_leak_free:
  assumes "fd_laws fds E"
  shows "leak_free fds (new_local_stream_client E a blocking cloexec)"
  unfolding new_local_stream_client_def
  by (intro with_socket_leak_free [OF assms]) (auto intro!: keeps_bind keeps_calls [OF assms])

lemma leak_freeD: "leak_free fds m \<Longrightarrow> m u = (Inl e, v) \<Longrightarrow> fds v = fds u"
  "leak_free fds m \<Longrightarrow> m u = (Inr fd, v) \<Longrightarrow> fd \<notin> fds u \<and> fds v = insert fd (fds u)"
  by (auto simp: leak_free_def dest!: spec [of _ u])

lemma with_socket_valid: "with_socket E t n c f u = (Inr fd, v) \<Longrightarrow> fd \<noteq> -1"
  by (auto simp: with_socket_def act_bind_def un_call_def act_throw_def un_closing_def act_return_def split: prod.splits sum.splits if_splits)

lemma keeps_nobody_answers:
  assumes "fd_laws fds E"
  shows "keeps (fds_are fds S) (nobody_answers E a)"
proof (rule keepsI)
  fix u assume u: "fds u = S"
  obtain r v where run: "new_local_stream_client E a False True u = (r, v)" by (cases "new_local_stream_client E a False True u")
  note leak = leak_freeD [OF client_leak_free [OF assms, of a False True]]
  show "fds (snd (nobody_answers E a u)) = S"
  proof (cases r)
    case (Inl e)
    then show ?thesis using run u leak(1) [of u e v] by (simp add: nobody_answers_def)
  next
    case (Inr fd)
    have "fd \<noteq> -1" using run Inr unfolding new_local_stream_client_def by (auto dest: with_socket_valid)
    moreover have "fds (un_close E fd v) = fds v - {fd}" using assms by (simp add: fd_laws_def)
    ultimately show ?thesis using run u Inr leak(2) [of u fd v] by (simp add: nobody_answers_def destroy_socket_def)
  qed
qed

lemma keeps_file_rights: "fd_laws fds E \<Longrightarrow> keeps (fds_are fds S) (file_rights E a r)"
  unfolding file_rights_def by (auto intro!: keeps_bind keeps_calls)

lemma keeps_stream_reuse:
  assumes laws: "fd_laws fds E"
  shows "keeps (fds_are fds S) (stream_reuse E a force)"
proof -
  have "keeps (fds_are fds S) (act_bind (if force then nobody_answers E a else act_return False) (\<lambda>available.
          act_bind (require available) (\<lambda>_. act_bind (un_call (un_unlink E (path_of a))) require)))"
    using keeps_nobody_answers [OF laws] by (auto intro!: keeps_bind keeps_calls [OF laws])
  then show ?thesis by (auto simp: keeps_def stream_reuse_def split: option.split file_kind.split)
qed

lemma keeps_dgram_reuse:
  assumes laws: "fd_laws fds E"
  shows "keeps (fds_are fds S) (dgram_reuse E a force)"
proof -
  have "keeps (fds_are fds S) (act_bind (require force) (\<lambda>_. act_bind (un_call (un_unlink E (path_of a))) require))"
    by (auto intro!: keeps_bind keeps_calls [OF laws])
  then show ?thesis by (auto simp: keeps_def dgram_reuse_def split: option.split file_kind.split)
qed

text \<open>
  No constructor loses a descriptor. Whatever fails, and wherever, a constructor of a local socket that throws
  leaves the descriptors of the process as they were, the one of its test connection included; one that returns has opened
  exactly the descriptor of the object.\<close>

theorem local_sockets_leak_nothing:
  assumes laws: "fd_laws fds E"
  shows "leak_free fds (new_local_stream_client E a blocking cloexec) \<and>
    leak_free fds (new_local_stream_server E a max_connections force cloexec) \<and>
    leak_free fds (new_local_dgram_client E a sequential cloexec) \<and>
    leak_free fds (new_local_dgram_server E a sequential cloexec force)"
proof (intro conjI)
  have base: "keeps (fds_are fds S) (dgram_base E fd)" for S fd
    unfolding dgram_base_def by (auto intro!: keeps_bind keeps_calls [OF laws] split: option.split)
  show "leak_free fds (new_local_stream_client E a blocking cloexec)" by (rule client_leak_free [OF laws])
  show "leak_free fds (new_local_stream_server E a max_connections force cloexec)"
    unfolding new_local_stream_server_def
    by (intro with_socket_leak_free [OF laws])
      (auto intro!: keeps_bind keeps_calls [OF laws] keeps_file_rights [OF laws] keeps_stream_reuse [OF laws])
  show "leak_free fds (new_local_dgram_client E a sequential cloexec)"
    unfolding new_local_dgram_client_def by (intro with_socket_leak_free [OF laws]) (auto intro!: keeps_bind base)
  show "leak_free fds (new_local_dgram_server E a sequential cloexec force)"
    unfolding new_local_dgram_server_def
    by (intro with_socket_leak_free [OF laws])
      (auto intro!: keeps_bind base keeps_calls [OF laws] keeps_file_rights [OF laws] keeps_dgram_reuse [OF laws])
qed

section \<open>Whose file is removed\<close>

text \<open>\<open>unlinked\<close> are the files removed so far.\<close>

definition unlink_laws :: "('u \<Rightarrow> string list) \<Rightarrow> 'u unix_env \<Rightarrow> bool" where
  "unlink_laws unlinked E \<longleftrightarrow>
     (\<forall>t n c u. unlinked (snd (un_socket E t n c u)) = unlinked u) \<and> (\<forall>fd u. unlinked (un_close E fd u) = unlinked u) \<and>
     (\<forall>fd n u. unlinked (snd (un_connect E fd n u)) = unlinked u) \<and> (\<forall>fd n u. unlinked (snd (un_bind E fd n u)) = unlinked u) \<and>
     (\<forall>fd n u. unlinked (snd (un_listen E fd n u)) = unlinked u) \<and> (\<forall>p u. unlinked (snd (un_unlink E p u)) = unlinked u @ [p]) \<and>
     (\<forall>fd m u. unlinked (snd (un_fchmod E fd m u)) = unlinked u) \<and> (\<forall>p g u. unlinked (snd (un_chown E p g u)) = unlinked u) \<and>
     (\<forall>p m u. unlinked (snd (un_chmod E p m u)) = unlinked u) \<and> (\<forall>fd u. unlinked (snd (un_nonblock E fd u)) = unlinked u)"

lemma unlinked_client: "unlink_laws unlinked E \<Longrightarrow> unlinked (snd (new_local_stream_client E a b c u)) = unlinked u"
  by (simp add: new_local_stream_client_def with_socket_def act_bind_def un_call_def un_closing_def require_def act_return_def act_throw_def
      unlink_laws_def case_prod_beta split: sum.split)

lemma unlinked_nobody_answers: "unlink_laws unlinked E \<Longrightarrow> unlinked (snd (nobody_answers E a u)) = unlinked u"
  using unlinked_client [of unlinked E a False True u]
  by (auto simp: nobody_answers_def destroy_socket_def unlink_laws_def split: prod.split sum.split)

lemma unlinked_stream_reuse:
  assumes laws: "unlink_laws unlinked E"
  shows "unlinked (snd (stream_reuse E a force u)) = unlinked u \<or>
    unlinked (snd (stream_reuse E a force u)) = unlinked u @ [path_of a] \<and> un_stat E (path_of a) u = Some Is_socket \<and> force \<and>
      fst (new_local_stream_client E a False True u) = Inl Runtime_error"
proof (cases "un_stat E (path_of a) u = Some Is_socket \<and> force")
  case True
  obtain r v where run: "new_local_stream_client E a False True u = (r, v)" by (cases "new_local_stream_client E a False True u")
  have "unlinked v = unlinked u" using unlinked_client [OF laws, of a False True u] run by simp
  then show ?thesis using True run laws
    by (cases r) (auto simp: stream_reuse_def nobody_answers_def act_bind_def require_def un_call_def act_return_def act_throw_def
        destroy_socket_def unlink_laws_def case_prod_beta)
next
  case False
  then show ?thesis
    by (auto simp: stream_reuse_def act_bind_def require_def act_return_def act_throw_def split: option.split file_kind.split)
qed

lemma bind_keeps_history: "(\<And>a. keeps (\<lambda>u. h u = h (snd (m u0))) (g a)) \<Longrightarrow> h (snd (act_bind m g u0)) = h (snd (m u0))"
  by (auto simp: snd_act_bind keeps_def split: sum.split)

lemma unlinked_with_socket:
  assumes "unlink_laws unlinked E"
  shows "unlinked (snd (with_socket E t n c f u)) =
    (if fst (un_socket E t n c u) = -1 then unlinked u else unlinked (snd (f (fst (un_socket E t n c u)) (snd (un_socket E t n c u)))))"
  using assms by (auto simp: with_socket_def act_bind_def un_call_def un_closing_def act_return_def act_throw_def unlink_laws_def case_prod_beta
      split: sum.split)

lemma keeps_unlinked:
  assumes "unlink_laws unlinked E"
  shows "keeps (\<lambda>u. unlinked u = L) (un_call (un_bind E fd n))" "keeps (\<lambda>u. unlinked u = L) (un_call (un_listen E fd l))"
    "keeps (\<lambda>u. unlinked u = L) (un_call (un_fchmod E fd m))" "keeps (\<lambda>u. unlinked u = L) (file_rights E a r)"
proof -
  show "keeps (\<lambda>u. unlinked u = L) (un_call (un_bind E fd n))" "keeps (\<lambda>u. unlinked u = L) (un_call (un_listen E fd l))"
    "keeps (\<lambda>u. unlinked u = L) (un_call (un_fchmod E fd m))"
    using assms by (intro keeps_un_call; simp add: unlink_laws_def)+
  have "keeps (\<lambda>u. unlinked u = L) (un_call (un_chown E p g))" "keeps (\<lambda>u. unlinked u = L) (un_call (un_chmod E p m))" for p g m
    using assms by (intro keeps_un_call; simp add: unlink_laws_def)+
  then show "keeps (\<lambda>u. unlinked u = L) (file_rights E a r)"
    unfolding file_rights_def by (auto intro!: keeps_bind)
qed


text \<open>
  A server whose queue is full is taken for one that is gone: \<^verbatim>\<open>connect()\<close> on a socket that does not block fails with
  \<^verbatim>\<open>EAGAIN\<close>, which the test does not tell from a refusal. The new server removes the file of the running one and takes its place.\<close>

lemma busy_server_loses_file:
  assumes laws: "unlink_laws unlinked E" and a: "au_kind a = Unix_file" "au_group a = []"
    and busy: "\<And>u. un_stat E (path_of a) u = Some Is_socket" "\<And>fd n u. fst (un_connect E fd n u) = Some EAGAIN"
    and calls: "\<And>t n c u. fst (un_socket E t n c u) \<noteq> -1" "\<And>p u. fst (un_unlink E p u)" "\<And>fd m u. fst (un_fchmod E fd m u)"
      "\<And>fd n u. fst (un_bind E fd n u)" "\<And>p m u. fst (un_chmod E p m u)" "\<And>fd n u. fst (un_listen E fd n u)"
  shows "\<exists>fd u'. new_local_stream_server E a max_connections True cloexec u = (Inr fd, u') \<and> unlinked u' = unlinked u @ [path_of a]"
  using a busy calls laws
  by (simp add: new_local_stream_server_def with_socket_def un_closing_def act_bind_def un_call_def stream_reuse_def nobody_answers_def
      new_local_stream_client_def require_def act_return_def act_throw_def file_rights_def unlink_laws_def case_prod_beta)

text \<open>The datagram server makes no test at all.\<close>

lemma dgram_server_takes_file:
  "un_stat E (path_of a) u = Some Is_socket \<Longrightarrow> un_unlink E (path_of a) u = (True, u') \<Longrightarrow> dgram_reuse E a True u = (Inr (), u')"
  by (simp add: dgram_reuse_def require_def act_bind_def un_call_def act_return_def)

section \<open>Abstract names\<close>

lemma abstract_server_name:
  assumes "au_kind a = Unix_abstract" "au_un a = CHR 0x00 # name @ replicate k (CHR 0x00)" "CHR 0x00 \<notin> set name"
  shows "abstract_strlen a = length name" "server_name a = CHR 0x00 # name"
proof -
  have "takeWhile (\<lambda>c. c \<noteq> CHR 0x00) (name @ replicate k (CHR 0x00)) = name"
    using assms(3) by (cases k) (auto simp: takeWhile_append2 intro: takeWhile_append2 [THEN trans])
  then show len: "abstract_strlen a = length name" using assms(2) by (simp add: abstract_strlen_def c_str_def)
  show "server_name a = CHR 0x00 # name" using assms(1,2) len by (simp add: server_name_def)
qed

text \<open>
  Nobody can connect to an abstract socket. The server binds its name with the length of the family, the NUL and the
  name; the client connects with the length of the name alone, which is three less. For the kernel that is another name, so
  the constructor of the client throws although the server listens.\<close>

theorem abstract_client_misses_server:
  assumes a: "au_kind a = Unix_abstract" "au_un a = CHR 0x00 # name @ replicate k (CHR 0x00)" "CHR 0x00 \<notin> set name"
    and kernel: "\<And>fd n u. fst (un_connect E fd n u) = None \<longleftrightarrow> n \<in> listening u" "\<And>t n c u. listening (snd (un_socket E t n c u)) = listening u"
    and server: "listening u = {server_name a}"
  shows "server_name a = CHR 0x00 # name \<and> fst (new_local_stream_client E a blocking cloexec u) = Inl Runtime_error"
proof -
  note names = abstract_server_name [OF a]
  have "length (client_name a) < length (server_name a)" using a(1) names by (simp add: client_name_def)
  then have other: "client_name a \<noteq> server_name a" by auto
  obtain fd v where sock: "un_socket E SOCK_STREAM (\<not> blocking) cloexec u = (fd, v)"
    by (cases "un_socket E SOCK_STREAM (\<not> blocking) cloexec u")
  obtain r x where conn: "un_connect E fd (client_name a) v = (r, x)" by (cases "un_connect E fd (client_name a) v")
  have "listening v = {server_name a}" using kernel(2) [of SOCK_STREAM "\<not> blocking" cloexec u] sock server by simp
  then obtain e where "r = Some e" using kernel(1) [of fd "client_name a" v] conn other by auto
  then have "fst (new_local_stream_client E a blocking cloexec u) = Inl Runtime_error"
    using sock conn a(1)
    by (simp add: new_local_stream_client_def with_socket_def act_bind_def un_call_def un_closing_def require_def act_throw_def)
  then show ?thesis using names(2) by simp
qed

section \<open>A system to try the theorems on\<close>

text \<open>The next descriptor, those that are open, the files removed and the names that are listened to.\<close>

type_synonym demo_unix = "int \<times> int set \<times> string list \<times> string set"

definition demo_unix_env :: "demo_unix unix_env" where
  "demo_unix_env = \<lparr>un_socket = (\<lambda>t n c (d, o', f, l). if d < 0 \<or> d \<in> o' then (-1, d, o', f, l) else (d, d + 1, insert d o', f, l)),
     un_close = (\<lambda>fd (d, o', f, l). (d, o' - {fd}, f, l)),
     un_connect = (\<lambda>fd n (d, o', f, l). (if n \<in> l then None else Some Other_errno, d, o', f, l)),
     un_bind = (\<lambda>fd n u. (True, u)), un_listen = (\<lambda>fd n u. (True, u)), un_accept = (\<lambda>fd u. (-1, u)),
     un_stat = (\<lambda>p u. Some Is_socket), un_unlink = (\<lambda>p (d, o', f, l). (True, d, o', f @ [p], l)), un_fchmod = (\<lambda>fd m u. (True, u)),
     un_chown = (\<lambda>p g u. (True, u)), un_chmod = (\<lambda>p m u. (True, u)), un_sndbuf = (\<lambda>fd u. (Some 212992, u)),
     un_cloexec = (\<lambda>fd u. (True, u)), un_nonblock = (\<lambda>fd u. ((), u)), un_sendto = (\<lambda>fd n s u. (0, u)), un_poll = (\<lambda>fd t u. (0, u)),
     un_recv = (\<lambda>fd n u. (Inl EAGAIN, u))\<rparr>"

definition demo_unix_address :: "unix_kind \<Rightarrow> string \<Rightarrow> addr_unix" where
  "demo_unix_address kind un = \<lparr>au_kind = kind, au_un = un, au_group = [], au_mode = 0x1B6\<rparr>"

lemma demo_fd_laws: "fd_laws (\<lambda>u. fst (snd u)) demo_unix_env"
  by (auto simp: fd_laws_def demo_unix_env_def)

theorem local_sockets_leak_nothing_witness:
  "\<exists>u'. new_local_stream_client demo_unix_env (demo_unix_address Unix_file ''/a'') False True (3, {0, 1, 2}, [], {}) = (Inl Runtime_error, u') \<and>
     fst (snd u') = {0, 1, 2}"
proof -
  have "leak_free (\<lambda>u. fst (snd u)) (new_local_stream_client demo_unix_env (demo_unix_address Unix_file ''/a'') False True)"
    using local_sockets_leak_nothing [OF demo_fd_laws] by blast
  note leak = leak_freeD(1) [OF this, of "(3, {0, 1, 2}, [], {})"]
  have "fst (new_local_stream_client demo_unix_env (demo_unix_address Unix_file ''/a'') False True (3, {0, 1, 2}, [], {})) = Inl Runtime_error"
    by (simp add: new_local_stream_client_def with_socket_def act_bind_def un_call_def un_closing_def require_def act_throw_def
        demo_unix_env_def demo_unix_address_def)
  then obtain u' where "new_local_stream_client demo_unix_env (demo_unix_address Unix_file ''/a'') False True (3, {0, 1, 2}, [], {}) = (Inl Runtime_error, u')"
    by (metis prod.collapse)
  from this leak [OF this] show ?thesis by simp
qed

lemma demo_unlink_laws: "unlink_laws (\<lambda>u. fst (snd (snd u))) demo_unix_env"
  by (auto simp: unlink_laws_def demo_unix_env_def)


theorem abstract_client_misses_server_witness:
  "fst (new_local_stream_client demo_unix_env (demo_unix_address Unix_abstract (CHR 0x00 # ''service'' @ replicate 100 (CHR 0x00))) False True
      (3, {0, 1, 2}, [], {CHR 0x00 # ''service''})) = Inl Runtime_error"
proof -
  let ?a = "demo_unix_address Unix_abstract (CHR 0x00 # ''service'' @ replicate 100 (CHR 0x00))"
  have a: "au_kind ?a = Unix_abstract" "au_un ?a = CHR 0x00 # ''service'' @ replicate 100 (CHR 0x00)" "CHR 0x00 \<notin> set ''service''"
    by (simp_all add: demo_unix_address_def)
  show ?thesis
    using abstract_client_misses_server [OF a, of demo_unix_env "\<lambda>u. snd (snd (snd u))" "(3, {0, 1, 2}, [], {CHR 0x00 # ''service''})" False True]
      abstract_server_name(2) [OF a]
    by (auto simp: demo_unix_env_def)
qed

end
