(* ===== verification/Inet_Sockets.thy ===== *)
theory Inet_Sockets
  imports Communicator Act_Spec
begin

text \<open>
  The sockets over IP: \<^verbatim>\<open>tcp_client.cpp\<close>, \<^verbatim>\<open>tcp_server.cpp\<close>, \<^verbatim>\<open>udp_base.cpp\<close>, \<^verbatim>\<open>udp_client.cpp\<close> and \<^verbatim>\<open>udp_server.cpp\<close>. The
  addresses of \<^verbatim>\<open>libaddr\<close> and the system calls are parameters.
\<close>

section \<open>The system\<close>

text \<open>\<open>it_sockname\<close> is \<^verbatim>\<open>getsockname()\<close>: the family, the length, and the port and the text of the address as they are
  in the structure. \<open>it_bind\<close> is \<^verbatim>\<open>addr::bind()\<close>: whether it worked, and the address, which gets the port the system chose.\<close>

datatype family = AF_INET | AF_INET6 | AF_other

record ('a, 'u) inet_env =
  it_is_default :: "'a \<Rightarrow> bool"
  it_is_tcp :: "'a \<Rightarrow> bool"
  it_is_ipv4 :: "'a \<Rightarrow> bool"
  it_create_socket :: "'a \<Rightarrow> bool \<Rightarrow> 'u \<Rightarrow> int \<times> 'u"
  it_udp_socket :: "'a \<Rightarrow> 'u \<Rightarrow> int \<times> 'u"
  it_connect :: "'a \<Rightarrow> int \<Rightarrow> 'u \<Rightarrow> bool \<times> 'u"
  it_bind :: "'a \<Rightarrow> int \<Rightarrow> 'u \<Rightarrow> (bool \<times> 'a) \<times> 'u"
  it_listen :: "int \<Rightarrow> int \<Rightarrow> 'u \<Rightarrow> bool \<times> 'u"
  it_close :: "int \<Rightarrow> 'u \<Rightarrow> errno option \<times> 'u"
  it_poll :: "int \<Rightarrow> int \<Rightarrow> 'u \<Rightarrow> int \<times> 'u"
  it_accept :: "int \<Rightarrow> bool \<Rightarrow> 'u \<Rightarrow> int \<times> 'u"
  it_keepalive :: "int \<Rightarrow> 'u \<Rightarrow> bool \<times> 'u"
  it_sockname :: "int \<Rightarrow> 'u \<Rightarrow> (family \<times> nat \<times> int \<times> string) option"
  it_read :: "int \<Rightarrow> nat \<Rightarrow> 'u \<Rightarrow> (errno + string) \<times> 'u"
  it_write :: "int \<Rightarrow> string \<Rightarrow> 'u \<Rightarrow> int \<times> 'u"
  it_sendto :: "int \<Rightarrow> 'a \<Rightarrow> bool \<Rightarrow> string \<Rightarrow> 'u \<Rightarrow> int \<times> 'u"
  it_recv :: "int \<Rightarrow> nat \<Rightarrow> 'u \<Rightarrow> (errno + string) \<times> 'u"
  it_add_membership :: "int \<Rightarrow> 'a \<Rightarrow> 'a \<Rightarrow> 'u \<Rightarrow> bool \<times> 'u"
  it_multicast_all :: "int \<Rightarrow> 'u \<Rightarrow> bool \<times> 'u"
  it_interface :: "'a \<Rightarrow> 'u \<Rightarrow> string option"
  it_ifmtu :: "int \<Rightarrow> string \<Rightarrow> 'u \<Rightarrow> int option"

definition it_require :: "bool \<Rightarrow> ('u, unit) act" where
  "it_require b = (if b then act_return () else act_throw Runtime_error)"

section \<open>The client of TCP\<close>

definition new_tcp_client :: "('a, 'u) inet_env \<Rightarrow> 'a \<Rightarrow> ('u, int) act" where
  "new_tcp_client E a =
     (if it_is_default E a then act_throw Invalid_parameter
      else if \<not> it_is_tcp E a then act_throw Invalid_parameter
      else act_bind (act_call (it_create_socket E a False)) (\<lambda>fd.
        if fd < 0 then act_throw Runtime_error
        else owning (\<lambda>u. snd (it_close E fd u)) (act_bind (act_call (it_connect E a fd)) (\<lambda>ok. act_bind (it_require ok) (\<lambda>_. act_return fd)))))"

text \<open>The sizes of \<^verbatim>\<open>sockaddr_in\<close> and \<^verbatim>\<open>sockaddr_in6\<close>.\<close>

definition get_client_port :: "('a, 'u) inet_env \<Rightarrow> int \<Rightarrow> 'u \<Rightarrow> int" where
  "get_client_port E fd u =
     (case it_sockname E fd u of
        None \<Rightarrow> -1
      | Some (fam, len, port, addr) \<Rightarrow>
          if fam = AF_INET \<and> len \<ge> 16 then port
          else if fam = AF_INET6 \<and> len \<ge> 28 then port
          else -1)"

definition get_client_addr :: "('a, 'u) inet_env \<Rightarrow> int \<Rightarrow> 'u \<Rightarrow> string result" where
  "get_client_addr E fd u =
     (case it_sockname E fd u of
        None \<Rightarrow> Inl Runtime_error
      | Some (fam, len, port, addr) \<Rightarrow>
          (case fam of
             AF_INET \<Rightarrow> if len < 16 then Inl Runtime_error else Inr addr
           | AF_INET6 \<Rightarrow> if len < 28 then Inl Runtime_error else Inr addr
           | AF_other \<Rightarrow> Inl Runtime_error))"

text \<open>The result and the line; the loop reads one character at a time, and the peer may never send a line feed.\<close>

fun read_line_loop :: "nat \<Rightarrow> ('a, 'u) inet_env \<Rightarrow> int \<Rightarrow> string \<Rightarrow> ('u, int \<times> string) act" where
  "read_line_loop 0 E fd line = act_throw No_fuel"
| "read_line_loop (Suc fuel) E fd line =
     act_bind (act_call (it_read E fd 1)) (\<lambda>r.
       case r of
         Inl e \<Rightarrow> act_return (if line = [] then -1 else int (length line), line)
       | Inr s \<Rightarrow>
           (case s of
              [] \<Rightarrow> act_return (int (length line), line)
            | c # _ \<Rightarrow>
                if c = CHR 0x0A then act_return (int (length line), line)
                else read_line_loop fuel E fd (line @ [c])))"

definition tcp_read_line :: "nat \<Rightarrow> ('a, 'u) inet_env \<Rightarrow> int \<Rightarrow> ('u, int \<times> string) act" where
  "tcp_read_line fuel E fd = read_line_loop fuel E fd []"

section \<open>The server of TCP\<close>

record 'a tcp_server =
  f_max_connections :: int
  ts_socket :: int
  ts_address :: 'a
  f_accepted_socket :: int
  f_keepalive :: bool
  f_auto_close :: bool
  f_close_on_exec :: bool

definition MAX_CONNECTIONS :: int where "MAX_CONNECTIONS = 50"

definition std_clamp :: "int \<Rightarrow> int \<Rightarrow> int \<Rightarrow> int" where
  "std_clamp x low high = (if x < low then low else if high < x then high else x)"

definition new_tcp_server :: "('a, 'u) inet_env \<Rightarrow> 'a \<Rightarrow> int \<Rightarrow> bool \<Rightarrow> bool \<Rightarrow> ('u, 'a tcp_server) act" where
  "new_tcp_server E a max_connections reuse_addr auto_close =
     (let n = std_clamp (if max_connections \<le> 0 then MAX_CONNECTIONS else max_connections) 5 1000
      in act_bind (act_call (it_create_socket E a reuse_addr)) (\<lambda>fd.
        if fd < 0 then act_throw Runtime_error
        else act_bind (act_call (it_bind E a fd)) (\<lambda>(bound, a').
          if \<not> bound then act_bind (act_call (it_close E fd)) (\<lambda>_. act_throw Runtime_error)
          else act_bind (act_call (it_listen E fd n)) (\<lambda>ok.
            if \<not> ok then act_bind (act_call (it_close E fd)) (\<lambda>_. act_throw Runtime_error)
            else act_return \<lparr>f_max_connections = n, ts_socket = fd, ts_address = a', f_accepted_socket = -1, f_keepalive = True,
                   f_auto_close = auto_close, f_close_on_exec = False\<rparr>))))"

definition destroy_tcp_server :: "('a, 'u) inet_env \<Rightarrow> 'a tcp_server \<Rightarrow> 'u \<Rightarrow> 'u" where
  "destroy_tcp_server E s u =
     (let u1 = snd (it_close E (ts_socket s) u)
      in if f_auto_close s \<and> f_accepted_socket s \<noteq> -1 then snd (it_close E (f_accepted_socket s) u1) else u1)"

definition set_keepalive :: "bool \<Rightarrow> 'a tcp_server \<Rightarrow> 'a tcp_server" where
  "set_keepalive yes s = s\<lparr>f_keepalive := yes\<rparr>"

definition set_close_on_exec :: "bool \<Rightarrow> 'a tcp_server \<Rightarrow> 'a tcp_server" where
  "set_close_on_exec yes s = s\<lparr>f_close_on_exec := yes\<rparr>"

text \<open>The last accepted socket is closed, again when the first \<^verbatim>\<open>close()\<close> was interrupted.\<close>

definition close_accepted :: "('a, 'u) inet_env \<Rightarrow> 'a tcp_server \<Rightarrow> 'u \<Rightarrow> 'u" where
  "close_accepted E s u =
     (if f_auto_close s \<and> f_accepted_socket s \<noteq> -1
      then case it_close E (f_accepted_socket s) u of
             (r, u1) \<Rightarrow> if r = Some EINTR then snd (it_close E (f_accepted_socket s) u1) else u1
      else u)"

definition accept_next :: "('a, 'u) inet_env \<Rightarrow> 'a tcp_server \<Rightarrow> 'u \<Rightarrow> int \<times> 'a tcp_server \<times> 'u" where
  "accept_next E s u =
     (case it_accept E (ts_socket s) (f_close_on_exec s) u of
        (fd, u1) \<Rightarrow> (fd, s\<lparr>f_accepted_socket := fd\<rparr>, if fd \<noteq> -1 \<and> f_keepalive s then snd (it_keepalive E fd u1) else u1))"

definition tcp_accept :: "('a, 'u) inet_env \<Rightarrow> int \<Rightarrow> 'a tcp_server \<Rightarrow> 'u \<Rightarrow> int \<times> 'a tcp_server \<times> 'u" where
  "tcp_accept E max_wait_ms s u =
     (let u1 = close_accepted E s u; s1 = s\<lparr>f_accepted_socket := -1\<rparr>
      in if max_wait_ms > -1
         then case it_poll E (ts_socket s) max_wait_ms u1 of
                (r, u2) \<Rightarrow> if r = -1 then (-1, s1, u2) else if r = 0 then (-2, s1, u2) else accept_next E s1 u2
         else accept_next E s1 u1)"

section \<open>UDP\<close>

record 'a udp_socket =
  us_socket :: int
  us_address :: 'a
  f_mtu_size :: int

definition new_udp_base :: "('a, 'u) inet_env \<Rightarrow> 'a \<Rightarrow> ('u, 'a udp_socket) act" where
  "new_udp_base E a =
     act_bind (act_call (it_udp_socket E a)) (\<lambda>fd.
       if fd = -1 then act_throw Runtime_error else act_return \<lparr>us_socket = fd, us_address = a, f_mtu_size = 0\<rparr>)"

text \<open>The address to join, when it is not the default one.\<close>

definition join_multicast :: "('a, 'u) inet_env \<Rightarrow> 'a \<Rightarrow> 'a \<Rightarrow> int \<Rightarrow> ('u, unit) act" where
  "join_multicast E a multicast fd =
     act_bind (act_call (it_add_membership E fd multicast a)) (\<lambda>ok. act_bind (it_require ok) (\<lambda>_.
       act_bind (act_call (it_multicast_all E fd)) (\<lambda>_. act_return ())))"

definition new_udp_server :: "('a, 'u) inet_env \<Rightarrow> 'a \<Rightarrow> 'a \<Rightarrow> ('u, 'a udp_socket) act" where
  "new_udp_server E a multicast =
     act_bind (new_udp_base E a) (\<lambda>s. owning (\<lambda>u. snd (it_close E (us_socket s) u))
       (if \<not> it_is_default E multicast
        then if \<not> it_is_ipv4 E multicast \<or> \<not> it_is_ipv4 E a then act_throw Runtime_error
          else act_bind (act_call (it_bind E multicast (us_socket s))) (\<lambda>(ok, _). act_bind (it_require ok) (\<lambda>_.
               act_bind (join_multicast E a multicast (us_socket s)) (\<lambda>_. act_return s)))
        else act_bind (act_call (it_bind E a (us_socket s))) (\<lambda>(ok, a'). act_bind (it_require ok) (\<lambda>_. act_return (s\<lparr>us_address := a'\<rparr>)))))"

definition get_mtu_size :: "('a, 'u) inet_env \<Rightarrow> 'u \<Rightarrow> 'a udp_socket \<Rightarrow> int \<times> 'a udp_socket" where
  "get_mtu_size E u s =
     (let s' = (if us_socket s \<noteq> -1 \<and> f_mtu_size s = 0
                then s\<lparr>f_mtu_size :=
                  (case it_interface E (us_address s) u of
                     None \<Rightarrow> -1
                   | Some name \<Rightarrow> if name = [] then -1
                       else case it_ifmtu E (us_socket s) (take 15 name) u of Some mtu \<Rightarrow> mtu | None \<Rightarrow> -1)\<rparr>
                else s)
      in (f_mtu_size s', s'))"

text \<open>The headers of IPv4 and of UDP take 20 and 8 bytes.\<close>

definition get_mss_size :: "('a, 'u) inet_env \<Rightarrow> 'u \<Rightarrow> 'a udp_socket \<Rightarrow> int \<times> 'a udp_socket" where
  "get_mss_size E u s = (case get_mtu_size E u s of (m, s') \<Rightarrow> (if m - 20 - 8 \<le> 0 then -1 else m - 20 - 8, s'))"

definition udp_send :: "('a, 'u) inet_env \<Rightarrow> 'a udp_socket \<Rightarrow> string \<Rightarrow> 'u \<Rightarrow> int \<times> 'u" where
  "udp_send E s msg = it_sendto E (us_socket s) (us_address s) (it_is_ipv4 E (us_address s)) msg"

definition udp_timed_recv :: "('a, 'u) inet_env \<Rightarrow> 'a udp_socket \<Rightarrow> nat \<Rightarrow> int \<Rightarrow> 'u \<Rightarrow> (errno + string) \<times> 'u" where
  "udp_timed_recv E s max_size max_wait_ms u =
     (case it_poll E (us_socket s) max_wait_ms u of (r, u') \<Rightarrow>
        if r = -1 then (Inl Other_errno, u')
        else if r > 0 then it_recv E (us_socket s) max_size u'
        else (Inl EAGAIN, u'))"

definition udp_timed_recv_string :: "('a, 'u) inet_env \<Rightarrow> 'a udp_socket \<Rightarrow> nat \<Rightarrow> int \<Rightarrow> 'u \<Rightarrow> string \<times> 'u" where
  "udp_timed_recv_string E s bufsize max_wait_ms u =
     (case udp_timed_recv E s bufsize max_wait_ms u of (Inl e, u') \<Rightarrow> ([], u') | (Inr s', u') \<Rightarrow> (s', u'))"

section \<open>Lines\<close>

text \<open>\<open>sent\<close> is what the peer has written and the client has not read yet; the peer has closed its side after it.\<close>

definition stream_laws :: "('u \<Rightarrow> string) \<Rightarrow> int \<Rightarrow> ('a, 'u) inet_env \<Rightarrow> bool" where
  "stream_laws sent fd E \<longleftrightarrow>
     (\<forall>n u. case it_read E fd n u of (r, u') \<Rightarrow> r = Inr (take n (sent u)) \<and> sent u' = drop n (sent u))"

lemma stream_read:
  "stream_laws sent fd E \<Longrightarrow> fst (it_read E fd n u) = Inr (take n (sent u))"
  "stream_laws sent fd E \<Longrightarrow> sent (snd (it_read E fd n u)) = drop n (sent u)"
  by (simp_all add: stream_laws_def case_prod_beta)

lemma read_line_exact:
  assumes laws: "stream_laws sent fd E"
  shows "length (sent u) < fuel \<Longrightarrow> \<exists>u'. read_line_loop fuel E fd line u =
      (Inr (int (length line + length (takeWhile (\<lambda>c. c \<noteq> CHR 0x0A) (sent u))), line @ takeWhile (\<lambda>c. c \<noteq> CHR 0x0A) (sent u)), u') \<and>
    sent u' = tl (dropWhile (\<lambda>c. c \<noteq> CHR 0x0A) (sent u))"
proof (induction fuel arbitrary: u line)
  case (Suc fuel)
  obtain r v where read: "it_read E fd 1 u = (r, v)" by (cases "it_read E fd 1 u")
  have r: "r = Inr (take 1 (sent u))" and v: "sent v = drop 1 (sent u)"
    using stream_read [OF laws, of 1 u] read by simp_all
  show ?case
  proof (cases "sent u")
    case Nil
    then show ?thesis using read r v by (simp add: act_bind_def act_call_def act_return_def)
  next
    case (Cons c cs)
    then show ?thesis
      using read r v Suc.IH [of v "line @ [c]"] Suc.prems by (auto simp: act_bind_def act_call_def act_return_def)
  qed
qed simp

text \<open>Reading \<open>n\<close> lines one after the other.\<close>

fun tcp_read_lines :: "nat \<Rightarrow> ('a, 'u) inet_env \<Rightarrow> int \<Rightarrow> nat \<Rightarrow> ('u, (int \<times> string) list) act" where
  "tcp_read_lines fuel E fd 0 = act_return []"
| "tcp_read_lines fuel E fd (Suc n) =
     act_bind (tcp_read_line fuel E fd) (\<lambda>l. act_bind (tcp_read_lines fuel E fd n) (\<lambda>ls. act_return (l # ls)))"

lemma takeWhile_line: "CHR 0x0A \<notin> set l \<Longrightarrow> takeWhile (\<lambda>c. c \<noteq> CHR 0x0A) (l @ CHR 0x0A # s) = l"
  "CHR 0x0A \<notin> set l \<Longrightarrow> dropWhile (\<lambda>c. c \<noteq> CHR 0x0A) (l @ CHR 0x0A # s) = CHR 0x0A # s"
  by (induction l) auto

text \<open>
  The lines a peer writes are the lines the client reads. When the peer sends lines without line feeds in them, each
  followed by a line feed, then as many calls of \<^verbatim>\<open>read_line()\<close> return exactly these lines, in order, with their lengths, and
  leave exactly what was sent after them; each call returns, with one step for each character there is.\<close>

theorem written_lines_read:
  assumes laws: "stream_laws sent fd E" and lines: "\<forall>l \<in> set ls. CHR 0x0A \<notin> set l"
    and sent: "sent u = concat (map (\<lambda>l. l @ [CHR 0x0A]) ls) @ rest" and fuel: "length (sent u) < fuel"
  shows "\<exists>u'. tcp_read_lines fuel E fd (length ls) u = (Inr (map (\<lambda>l. (int (length l), l)) ls), u') \<and> sent u' = rest"
  using lines sent fuel
proof (induction ls arbitrary: u)
  case (Cons l ls)
  obtain v where v: "tcp_read_line fuel E fd u = (Inr (int (length l), l), v)" "sent v = concat (map (\<lambda>l. l @ [CHR 0x0A]) ls) @ rest"
    using read_line_exact [OF laws, of u fuel "[]"] Cons.prems by (auto simp: takeWhile_line tcp_read_line_def)
  then show ?case using Cons.IH [of v] Cons.prems by (auto simp: act_bind_def act_return_def)
qed (simp add: act_return_def)

text \<open>An empty line and the end of the stream give the same answer, which the documentation of \<^verbatim>\<open>read_line()\<close> gives to the second.\<close>

lemma empty_line_looks_closed:
  assumes "stream_laws sent fd E"
  shows "sent u = [] \<or> sent u = CHR 0x0A # rest \<Longrightarrow> fst (tcp_read_line (Suc (Suc (length (sent u)))) E fd u) = Inr (0, [])"
  using read_line_exact [OF assms, of u "Suc (Suc (length (sent u)))" "[]"] by (auto simp: tcp_read_line_def)

section \<open>No descriptor is lost\<close>

text \<open>\<open>fds\<close> are the descriptors that are open. \<^verbatim>\<open>close()\<close> takes one away even when it is interrupted, as Linux does.\<close>

definition opens :: "('u \<Rightarrow> int set) \<Rightarrow> (int \<Rightarrow> bool) \<Rightarrow> ('u \<Rightarrow> int \<times> 'u) \<Rightarrow> bool" where
  "opens fds valid f \<longleftrightarrow>
     (\<forall>u. case f u of (fd, u') \<Rightarrow> if valid fd then fd \<notin> fds u \<and> fds u' = insert fd (fds u) else fds u' = fds u)"

definition same_fds :: "('u \<Rightarrow> int set) \<Rightarrow> ('u \<Rightarrow> 'r \<times> 'u) \<Rightarrow> bool" where
  "same_fds fds f \<longleftrightarrow> (\<forall>u. fds (snd (f u)) = fds u)"

definition inet_laws :: "('u \<Rightarrow> int set) \<Rightarrow> ('a, 'u) inet_env \<Rightarrow> bool" where
  "inet_laws fds E \<longleftrightarrow>
     (\<forall>a r. opens fds (\<lambda>fd. 0 \<le> fd) (it_create_socket E a r)) \<and> (\<forall>a. opens fds (\<lambda>fd. fd \<noteq> -1) (it_udp_socket E a)) \<and>
     (\<forall>fd c. opens fds (\<lambda>fd. fd \<noteq> -1) (it_accept E fd c)) \<and> (\<forall>fd u. fds (snd (it_close E fd u)) = fds u - {fd}) \<and>
     (\<forall>a fd. same_fds fds (it_connect E a fd)) \<and> (\<forall>a fd. same_fds fds (it_bind E a fd)) \<and>
     (\<forall>fd n. same_fds fds (it_listen E fd n)) \<and> (\<forall>fd n. same_fds fds (it_poll E fd n)) \<and>
     (\<forall>fd. same_fds fds (it_keepalive E fd)) \<and> (\<forall>fd a b. same_fds fds (it_add_membership E fd a b)) \<and>
     (\<forall>fd. same_fds fds (it_multicast_all E fd))"

lemma inet_lawsD:
  assumes "inet_laws fds E"
  shows "opens fds (\<lambda>fd. 0 \<le> fd) (it_create_socket E a r)" "opens fds (\<lambda>fd. fd \<noteq> -1) (it_udp_socket E a)"
    "opens fds (\<lambda>fd. fd \<noteq> -1) (it_accept E fd c)" "fds (snd (it_close E fd u)) = fds u - {fd}"
    "fds (snd (it_connect E a fd u)) = fds u" "fds (snd (it_bind E a fd u)) = fds u"
    "fds (snd (it_listen E fd n u)) = fds u" "fds (snd (it_poll E fd k u)) = fds u"
    "fds (snd (it_keepalive E fd u)) = fds u" "fds (snd (it_add_membership E fd a b u)) = fds u"
    "fds (snd (it_multicast_all E fd u)) = fds u"
  using assms by (simp_all add: inet_laws_def same_fds_def)

lemma opensD: "opens fds valid f \<Longrightarrow> f u = (fd, u') \<Longrightarrow> valid fd \<Longrightarrow> fd \<notin> fds u \<and> fds u' = insert fd (fds u)"
  "opens fds valid f \<Longrightarrow> f u = (fd, u') \<Longrightarrow> \<not> valid fd \<Longrightarrow> fds u' = fds u"
  by (auto simp: opens_def dest!: spec [of _ u])

text \<open>A constructor that returns has opened the descriptor of its object and no other; one that throws, none.\<close>

definition owns_one :: "('u \<Rightarrow> int set) \<Rightarrow> ('r \<Rightarrow> int) \<Rightarrow> ('u, 'r) act \<Rightarrow> bool" where
  "owns_one fds sock m \<longleftrightarrow>
     (\<forall>u. case m u of (Inl e, u') \<Rightarrow> fds u' = fds u | (Inr s, u') \<Rightarrow> sock s \<notin> fds u \<and> fds u' = insert (sock s) (fds u))"

lemma owns_oneI:
  assumes "\<And>base. act_spec (own fds base {}) m (\<lambda>s. own fds base {sock s}) (own fds base {})"
  shows "owns_one fds sock m"
  unfolding owns_one_def
proof
  fix u
  show "case m u of (Inl e, u') \<Rightarrow> fds u' = fds u | (Inr s, u') \<Rightarrow> sock s \<notin> fds u \<and> fds u' = insert (sock s) (fds u)"
    using act_specD [OF assms own_start, of u] by (auto simp: own_def split: prod.split sum.split)
qed

lemma owns_oneD: "owns_one fds sock m \<Longrightarrow> m u = (Inl e, v) \<Longrightarrow> fds v = fds u"
  "owns_one fds sock m \<Longrightarrow> m u = (Inr s, v) \<Longrightarrow> sock s \<notin> fds u \<and> fds v = insert (sock s) (fds u)"
  by (auto simp: owns_one_def dest!: spec [of _ u])

lemma spec_opens:
  assumes "opens fds valid f"
  shows "act_spec (own fds base {}) (act_call f) (\<lambda>fd. own fds base (if valid fd then {fd} else {})) X"
proof (rule spec_call)
  fix u assume "own fds base {} u"
  then show "own fds base (if valid (fst (f u)) then {fst (f u)} else {}) (snd (f u))"
    using opensD [OF assms, of u "fst (f u)" "snd (f u)"] by (auto simp: own_def)
qed

lemmas inet_acts = act_defs it_require_def

lemma own_closed: "inet_laws fds E \<Longrightarrow> own fds base {fd} u \<Longrightarrow> own fds base {} (snd (it_close E fd u))"
  by (rule own_free [of fds _ u fd]) (simp_all add: inet_lawsD(4))

lemma spec_it_require: "act_spec P (it_require b) (\<lambda>_. P) P"
  by (simp add: it_require_def spec_return spec_throw)

lemma spec_it_steady:
  assumes "\<And>u. fds (snd (f u)) = fds u"
  shows "act_spec (own fds base A) (act_call f) (\<lambda>_. own fds base A) X"
  by (rule spec_steady, rule own_cong) (rule assms)

lemma tcp_client_owns:
  assumes laws: "inet_laws fds E"
  shows "owns_one fds (\<lambda>fd. fd) (new_tcp_client E a)"
proof (rule owns_oneI)
  fix base
  have connect: "act_spec (own fds base {fd}) (act_bind (act_call (it_connect E a fd)) (\<lambda>ok. act_bind (it_require ok) (\<lambda>_. act_return fd)))
      (\<lambda>fd. own fds base {fd}) (own fds base {fd})" for fd
    by (rule spec_bind [OF spec_it_steady], rule inet_lawsD(5) [OF laws], rule spec_bind [OF spec_it_require], rule spec_return)
  have "act_spec (own fds base {fd}) (owning (\<lambda>u. snd (it_close E fd u)) (act_bind (act_call (it_connect E a fd)) (\<lambda>ok.
      act_bind (it_require ok) (\<lambda>_. act_return fd)))) (\<lambda>fd. own fds base {fd}) (own fds base {})" for fd
    by (rule spec_owning [OF connect], rule own_closed [OF laws])
  then have rest: "act_spec (own fds base (if 0 \<le> fd then {fd} else {})) (if fd < 0 then act_throw Runtime_error
      else owning (\<lambda>u. snd (it_close E fd u)) (act_bind (act_call (it_connect E a fd)) (\<lambda>ok. act_bind (it_require ok) (\<lambda>_. act_return fd))))
      (\<lambda>fd. own fds base {fd}) (own fds base {})" for fd
    by (auto intro: spec_throw)
  show "act_spec (own fds base {}) (new_tcp_client E a) (\<lambda>fd. own fds base {fd}) (own fds base {})"
    using spec_bind [OF spec_opens [OF inet_lawsD(1) [OF laws]] rest] by (auto simp: new_tcp_client_def intro: spec_throw)
qed

lemma tcp_server_owns:
  fixes E :: "('a, 'u) inet_env"
  assumes laws: "inet_laws fds E"
  shows "owns_one fds ts_socket (new_tcp_server E a n r c)"
proof (rule owns_oneI)
  fix base
  have close: "act_spec (own fds base {fd}) (act_bind (act_call (it_close E fd)) (\<lambda>_. act_throw Runtime_error))
      (\<lambda>s :: 'a tcp_server. own fds base {ts_socket s}) (own fds base {})" for fd
    by (rule spec_bind [where R = "\<lambda>_. own fds base {}"], rule spec_call, rule own_closed [OF laws])
      (auto intro: spec_throw)
  have listen: "act_spec (own fds base {fd}) (act_bind (act_call (it_listen E fd k)) (\<lambda>ok.
            if \<not> ok then act_bind (act_call (it_close E fd)) (\<lambda>_. act_throw Runtime_error)
            else act_return \<lparr>f_max_connections = k, ts_socket = fd, ts_address = a', f_accepted_socket = -1, f_keepalive = True,
                   f_auto_close = c, f_close_on_exec = False\<rparr>)) (\<lambda>s. own fds base {ts_socket s}) (own fds base {})" for fd k and a' :: 'a
    by (rule spec_bind [OF spec_it_steady], rule inet_lawsD(7) [OF laws]) (simp add: close spec_return)
  have bind: "act_spec (own fds base {fd}) (act_bind (act_call (it_bind E a fd)) (\<lambda>(bound, a').
          if \<not> bound then act_bind (act_call (it_close E fd)) (\<lambda>_. act_throw Runtime_error)
          else act_bind (act_call (it_listen E fd k)) (\<lambda>ok.
            if \<not> ok then act_bind (act_call (it_close E fd)) (\<lambda>_. act_throw Runtime_error)
            else act_return \<lparr>f_max_connections = k, ts_socket = fd, ts_address = a', f_accepted_socket = -1, f_keepalive = True,
                   f_auto_close = c, f_close_on_exec = False\<rparr>))) (\<lambda>s. own fds base {ts_socket s}) (own fds base {})" for fd k
    by (rule spec_bind [OF spec_it_steady], rule inet_lawsD(6) [OF laws]) (simp add: close listen split: prod.split)
  show "act_spec (own fds base {}) (new_tcp_server E a n r c) (\<lambda>s. own fds base {ts_socket s}) (own fds base {})"
    unfolding new_tcp_server_def Let_def
    by (rule spec_bind [OF spec_opens [OF inet_lawsD(1) [OF laws]]]) (simp add: bind spec_throw)
qed

lemma udp_base_spec:
  assumes laws: "inet_laws fds E"
  shows "act_spec (own fds base {}) (new_udp_base E a) (\<lambda>s. own fds base {us_socket s}) (own fds base {})"
  unfolding new_udp_base_def
  by (rule spec_bind [OF spec_opens [OF inet_lawsD(2) [OF laws]]]) (auto intro: spec_throw spec_return)

lemma join_multicast_spec:
  assumes laws: "inet_laws fds E"
  shows "act_spec (own fds base A) (join_multicast E a multicast fd) (\<lambda>_. own fds base A) (own fds base A)"
  unfolding join_multicast_def
  by (intro spec_bind [OF spec_it_steady] spec_bind [OF spec_it_require] spec_return)
    (simp_all add: inet_lawsD(10,11) [OF laws])

lemma udp_server_owns:
  fixes E :: "('a, 'u) inet_env"
  assumes laws: "inet_laws fds E"
  shows "owns_one fds us_socket (new_udp_server E a multicast)"
proof (rule owns_oneI)
  fix base
  have bind: "act_spec (own fds base A) (act_bind (act_call (it_bind E b fd)) f) Q (own fds base A)"
    if "\<And>ok a'. act_spec (own fds base A) (f (ok, a')) Q (own fds base A)" for A b fd f and Q :: "'a udp_socket \<Rightarrow> 'u \<Rightarrow> bool"
    by (rule spec_bind [OF spec_it_steady], rule inet_lawsD(6) [OF laws]) (use that in auto)
  show "act_spec (own fds base {}) (new_udp_server E a multicast) (\<lambda>s. own fds base {us_socket s}) (own fds base {})"
    unfolding new_udp_server_def
    by (rule spec_bind [OF udp_base_spec [OF laws]], rule spec_owning, rule_tac [2] own_closed [OF laws])
      (auto intro!: bind spec_bind [OF spec_it_require] spec_bind [OF join_multicast_spec [OF laws]] spec_return spec_throw)
qed

text \<open>A server that calls \<^verbatim>\<open>accept()\<close> again and again, with the given times to wait.\<close>

fun accept_all :: "('a, 'u) inet_env \<Rightarrow> int list \<Rightarrow> 'a tcp_server \<Rightarrow> 'u \<Rightarrow> 'a tcp_server \<times> 'u" where
  "accept_all E [] s u = (s, u)"
| "accept_all E (w # ws) s u = (case tcp_accept E w s u of (_, s', u') \<Rightarrow> accept_all E ws s' u')"

text \<open>The descriptors of a server, with those that were open before it.\<close>

definition server_fds :: "('u \<Rightarrow> int set) \<Rightarrow> int set \<Rightarrow> 'a tcp_server \<Rightarrow> 'u \<Rightarrow> bool" where
  "server_fds fds base s u \<longleftrightarrow> f_auto_close s \<and> ts_socket s \<notin> base \<and> f_accepted_socket s \<noteq> ts_socket s \<and> f_accepted_socket s \<notin> base \<and>
     fds u = insert (ts_socket s) (if f_accepted_socket s = -1 then base else insert (f_accepted_socket s) base)"

lemma close_accepted_fds:
  assumes "inet_laws fds E" "server_fds fds base s u" "-1 \<notin> base" "ts_socket s \<noteq> -1"
  shows "server_fds fds base (s\<lparr>f_accepted_socket := -1\<rparr>) (close_accepted E s u)"
  using assms(2-) inet_lawsD(4) [OF assms(1)]
  by (auto simp: server_fds_def close_accepted_def case_prod_beta split: if_splits)

lemma accept_next_fds:
  assumes laws: "inet_laws fds E" and s: "server_fds fds base s u" "f_accepted_socket s = -1"
    and run: "accept_next E s u = (r, s', u')"
  shows "server_fds fds base s' u' \<and> ts_socket s' = ts_socket s"
proof -
  obtain fd v where acc: "it_accept E (ts_socket s) (f_close_on_exec s) u = (fd, v)"
    by (cases "it_accept E (ts_socket s) (f_close_on_exec s) u")
  have s': "s' = s\<lparr>f_accepted_socket := fd\<rparr>" and u': "fds u' = fds v"
    using run acc inet_lawsD(9) [OF laws] by (auto simp: accept_next_def split: if_splits)
  show ?thesis
    using s s' u' opensD [OF inet_lawsD(3) [OF laws] acc] by (cases "fd = -1") (auto simp: server_fds_def)
qed

lemma tcp_accept_fds:
  assumes laws: "inet_laws fds E" and s: "server_fds fds base s u" "-1 \<notin> base" "ts_socket s \<noteq> -1"
    and run: "tcp_accept E w s u = (r, s', u')"
  shows "server_fds fds base s' u' \<and> ts_socket s' = ts_socket s"
proof -
  note closed = close_accepted_fds [OF laws s]
  have poll: "server_fds fds base (s\<lparr>f_accepted_socket := -1\<rparr>) (snd (it_poll E (ts_socket s) w (close_accepted E s u)))"
    using closed inet_lawsD(8) [OF laws] by (simp add: server_fds_def)
  obtain k v where pk: "it_poll E (ts_socket s) w (close_accepted E s u) = (k, v)"
    by (cases "it_poll E (ts_socket s) w (close_accepted E s u)")
  consider "w > -1" "k = -1 \<or> k = 0" | "w > -1" "k \<noteq> -1" "k \<noteq> 0" | "\<not> w > -1" by blast
  then show ?thesis
  proof cases
    case 1
    then show ?thesis using run pk poll by (auto simp: tcp_accept_def Let_def)
  next
    case 2
    then have "accept_next E (s\<lparr>f_accepted_socket := -1\<rparr>) v = (r, s', u')" using run pk by (simp add: tcp_accept_def Let_def)
    then show ?thesis using accept_next_fds [OF laws poll] pk by simp
  next
    case 3
    then have "accept_next E (s\<lparr>f_accepted_socket := -1\<rparr>) (close_accepted E s u) = (r, s', u')" using run by (simp add: tcp_accept_def Let_def)
    then show ?thesis using accept_next_fds [OF laws closed] by simp
  qed
qed

lemma accept_all_fds:
  assumes laws: "inet_laws fds E" and base: "-1 \<notin> base"
  shows "server_fds fds base s u \<Longrightarrow> ts_socket s \<noteq> -1 \<Longrightarrow> accept_all E ws s u = (s', u') \<Longrightarrow> server_fds fds base s' u'"
proof (induction ws arbitrary: s u)
  case (Cons w ws)
  obtain r t v where acc: "tcp_accept E w s u = (r, t, v)" by (cases "tcp_accept E w s u")
  show ?case using Cons.IH [of t v] Cons.prems acc tcp_accept_fds [OF laws Cons.prems(1) base Cons.prems(2) acc] by simp
qed simp

text \<open>
  C34 (invariant): a server of TCP that closes its connections itself never has more than two descriptors. After its constructor
  and any number of calls of \<^verbatim>\<open>accept()\<close>, whether they accept, fail or time out, the descriptors of the process are those there were
  before, the one that listens and the last one accepted, if there is one; the destructor gives back both.\<close>

theorem accepting_leaks_nothing:
  assumes laws: "inet_laws fds E" and base: "-1 \<notin> fds u0"
    and new: "new_tcp_server E a max_connections reuse_addr True u0 = (Inr s, u)" and run: "accept_all E ws s u = (s', u')"
  shows "fds u' = insert (ts_socket s') (if f_accepted_socket s' = -1 then fds u0 else insert (f_accepted_socket s') (fds u0)) \<and>
    fds (destroy_tcp_server E s' u') = fds u0"
proof -
  have start: "f_auto_close s" "f_accepted_socket s = -1" "ts_socket s \<ge> 0"
    using new by (auto simp: new_tcp_server_def Let_def inet_acts split: prod.splits if_splits)
  then have "server_fds fds (fds u0) s u"
    using owns_oneD(2) [OF tcp_server_owns [OF laws] new] base by (auto simp: server_fds_def)
  then have "server_fds fds (fds u0) s' u'" using accept_all_fds [OF laws base _ _ run] start by simp
  then show ?thesis using inet_lawsD(4) [OF laws] by (auto simp: server_fds_def destroy_tcp_server_def Let_def)
qed

text \<open>The constructors of the clients and of UDP keep the same account.\<close>

lemma inet_sockets_leak_nothing:
  assumes "inet_laws fds E"
  shows "owns_one fds (\<lambda>fd. fd) (new_tcp_client E a)" "owns_one fds us_socket (new_udp_base E a)"
    "owns_one fds us_socket (new_udp_server E a multicast)"
  by (rule tcp_client_owns [OF assms], rule owns_oneI, rule udp_base_spec [OF assms], rule udp_server_owns [OF assms])

section \<open>The size of a packet\<close>

text \<open>The interface is asked once, and its answer stays, even when it was an error.\<close>

lemma mtu_size_kept:
  assumes "get_mtu_size E u s = (m, s')" "m \<noteq> 0"
  shows "get_mtu_size E v s' = (m, s')"
  using assms by (auto simp: get_mtu_size_def Let_def split: if_splits)

text \<open>A segment and its headers fit in the unit of the interface.\<close>

lemma mss_fits_mtu:
  "get_mss_size E u s = (m, s') \<Longrightarrow> m = -1 \<or> 0 < m \<and> m + 28 = f_mtu_size s'"
  by (auto simp: get_mss_size_def get_mtu_size_def Let_def split: if_splits)

section \<open>A system to try the theorems on\<close>

text \<open>The next descriptor, those that are open and what the peer has sent.\<close>

type_synonym demo_inet = "int \<times> int set \<times> string"

definition demo_open :: "demo_inet \<Rightarrow> int \<times> demo_inet" where
  "demo_open u = (case u of (d, o', s) \<Rightarrow> if d < 0 \<or> d \<in> o' then (-1, u) else (d, d + 1, insert d o', s))"

definition demo_inet_env :: "(string, demo_inet) inet_env" where
  "demo_inet_env = \<lparr>it_is_default = (\<lambda>a. a = []), it_is_tcp = (\<lambda>a. True), it_is_ipv4 = (\<lambda>a. True),
     it_create_socket = (\<lambda>a r. demo_open), it_udp_socket = (\<lambda>a. demo_open), it_connect = (\<lambda>a fd u. (True, u)),
     it_bind = (\<lambda>a fd u. ((True, a), u)), it_listen = (\<lambda>fd n u. (True, u)),
     it_close = (\<lambda>fd (d, o', s). (Some EINTR, d, o' - {fd}, s)), it_poll = (\<lambda>fd t u. (if t = 0 then 0 else 1, u)),
     it_accept = (\<lambda>fd c. demo_open), it_keepalive = (\<lambda>fd u. (False, u)), it_sockname = (\<lambda>fd u. Some (AF_INET, 16, 80, ''127.0.0.1'')),
     it_read = (\<lambda>fd n (d, o', s). (Inr (take n s), d, o', drop n s)), it_write = (\<lambda>fd s u. (int (length s), u)),
     it_sendto = (\<lambda>fd a v s u. (int (length s), u)), it_recv = (\<lambda>fd n u. (Inl EAGAIN, u)),
     it_add_membership = (\<lambda>fd a b u. (True, u)), it_multicast_all = (\<lambda>fd u. (True, u)), it_interface = (\<lambda>a u. None),
     it_ifmtu = (\<lambda>fd n u. None)\<rparr>"

lemma demo_opens: "valid = (\<lambda>fd. fd \<noteq> -1) \<or> valid = (\<lambda>fd. 0 \<le> fd) \<Longrightarrow> opens (\<lambda>u. fst (snd u)) valid demo_open"
  by (auto simp: opens_def demo_open_def)

lemma demo_inet_laws: "inet_laws (\<lambda>u. fst (snd u)) demo_inet_env"
  using demo_opens by (simp add: inet_laws_def same_fds_def demo_inet_env_def case_prod_beta)

lemma demo_stream_laws: "stream_laws (\<lambda>u. snd (snd u)) 3 demo_inet_env"
  by (simp add: stream_laws_def demo_inet_env_def case_prod_beta)

theorem accepting_leaks_nothing_witness:
  "\<exists>s u s' u'. new_tcp_server demo_inet_env ''a'' 0 True True (3, {0, 1, 2}, []) = (Inr s, u) \<and>
     accept_all demo_inet_env [-1, 0, 5, -1] s u = (s', u') \<and> f_accepted_socket s' = 6 \<and> fst (snd u') = {0, 1, 2, 3, 6} \<and>
     fst (snd (destroy_tcp_server demo_inet_env s' u')) = {0, 1, 2}"
proof -
  obtain s u where new: "new_tcp_server demo_inet_env ''a'' 0 True True (3, {0, 1, 2}, []) = (Inr s, u)"
    and s: "ts_socket s = 3 \<and> f_accepted_socket s = -1 \<and> f_auto_close s" and u: "u = (4, {0, 1, 2, 3}, [])"
    by (auto simp: new_tcp_server_def Let_def inet_acts demo_inet_env_def demo_open_def)
  obtain s' u' where run: "accept_all demo_inet_env [-1, 0, 5, -1] s u = (s', u')"
    by (cases "accept_all demo_inet_env [-1, 0, 5, -1] s u")
  have s': "ts_socket s' = 3 \<and> f_accepted_socket s' = 6"
    using run s unfolding u
    by (auto simp: tcp_accept_def close_accepted_def accept_next_def Let_def demo_inet_env_def demo_open_def split: if_splits)
  have "-1 \<notin> fst (snd (3 :: int, {0, 1, 2} :: int set, [] :: string))" by simp
  note accepting_leaks_nothing [OF demo_inet_laws this new run]
  then show ?thesis using new run s' by (intro exI conjI) auto
qed

theorem written_lines_read_witness:
  "\<exists>u'. tcp_read_lines 20 demo_inet_env 3 3 (4, {3}, ''hi'' @ [CHR 0x0A, CHR 0x0A] @ ''you'' @ [CHR 0x0A] @ ''x'') =
     (Inr [(2, ''hi''), (0, []), (3, ''you'')], u') \<and> snd (snd u') = ''x''"
  using written_lines_read [OF demo_stream_laws, of "[''hi'', [], ''you'']" "(4, {3}, ''hi'' @ [CHR 0x0A, CHR 0x0A] @ ''you'' @ [CHR 0x0A] @ ''x'')" "''x''" 20]
  by (simp add: eval_nat_numeral del: tcp_read_lines.simps)

end
