(* ===== verification/Bio_Sockets.thy ===== *)
theory Bio_Sockets
  imports Communicator Act_Spec
begin

text \<open>
  The sockets over OpenSSL: \<^verbatim>\<open>tcp_bio_options.cpp\<close>, \<^verbatim>\<open>tcp_private.cpp\<close>, \<^verbatim>\<open>tcp_bio_client.cpp\<close>, \<^verbatim>\<open>tcp_bio_server.cpp\<close> and
  \<^verbatim>\<open>tcp_base.cpp\<close>, for versions 3 of the library. The functions of OpenSSL and \<^verbatim>\<open>libaddr\<close> are parameters.
\<close>

section \<open>Options\<close>

datatype mode_t = MODE_PLAIN | MODE_SECURE | MODE_ALWAYS_SECURE

record tcp_bio_options =
  f_verification_depth :: "64 word"
  f_ssl_options :: "32 word"
  f_ssl_certificate_path :: string
  bo_keepalive :: bool
  f_sni :: bool
  f_host :: string

definition MAX_VERIFICATION_DEPTH :: "64 word" where "MAX_VERIFICATION_DEPTH = 100"

text \<open>The argument is \<^verbatim>\<open>DEFAULT_SSL_OPTIONS\<close>, a set of flags of OpenSSL.\<close>

definition new_tcp_bio_options :: "32 word \<Rightarrow> tcp_bio_options" where
  "new_tcp_bio_options default_ssl_options = \<lparr>f_verification_depth = 4, f_ssl_options = default_ssl_options,
     f_ssl_certificate_path = ''/etc/ssl/certs'', bo_keepalive = True, f_sni = True, f_host = []\<rparr>"

definition set_verification_depth :: "64 word \<Rightarrow> tcp_bio_options \<Rightarrow> tcp_bio_options result" where
  "set_verification_depth depth opt =
     (if depth = 0 \<or> depth > MAX_VERIFICATION_DEPTH then Inl Invalid_parameter else Inr (opt\<lparr>f_verification_depth := depth\<rparr>))"

definition set_ssl_options :: "32 word \<Rightarrow> tcp_bio_options \<Rightarrow> tcp_bio_options" where
  "set_ssl_options flags opt = opt\<lparr>f_ssl_options := flags\<rparr>"

definition set_ssl_certificate_path :: "string \<Rightarrow> tcp_bio_options \<Rightarrow> tcp_bio_options" where
  "set_ssl_certificate_path path opt = opt\<lparr>f_ssl_certificate_path := path\<rparr>"

definition bo_set_keepalive :: "bool \<Rightarrow> tcp_bio_options \<Rightarrow> tcp_bio_options" where
  "bo_set_keepalive keepalive opt = opt\<lparr>bo_keepalive := keepalive\<rparr>"

definition set_sni :: "bool \<Rightarrow> tcp_bio_options \<Rightarrow> tcp_bio_options" where
  "set_sni sni opt = opt\<lparr>f_sni := sni\<rparr>"

definition set_host :: "string \<Rightarrow> tcp_bio_options \<Rightarrow> tcp_bio_options" where
  "set_host host opt = opt\<lparr>f_host := host\<rparr>"

section \<open>The library\<close>

text \<open>
  Pointers to the objects of the library are numbers, \<^verbatim>\<open>nullptr\<close> is \<open>None\<close>. \<open>be_get_error\<close> is \<^verbatim>\<open>ERR_get_error_all()\<close>, which takes
  an error off the queue and gives 0 when there is none; \<open>be_get_ssl\<close> says whether \<^verbatim>\<open>BIO_get_ssl()\<close> gave a pointer,
  \<open>be_peer_certificate\<close> whether \<^verbatim>\<open>SSL_get_peer_certificate()\<close> did, \<open>be_verified\<close> whether \<^verbatim>\<open>SSL_get_verify_result()\<close> is \<^verbatim>\<open>X509_V_OK\<close>;
  \<open>be_so_error\<close> is the error of the socket, or of \<^verbatim>\<open>getsockopt()\<close>, 0 when there is none. \<open>be_read\<close> gives the result of
  \<^verbatim>\<open>BIO_read()\<close> and the bytes in the buffer.
\<close>

datatype ssl_method = Client_method | Server_method

record ('a, 'u) bio_env =
  be_is_default :: "'a \<Rightarrow> bool"
  be_hostname :: "'a \<Rightarrow> string option"
  be_ip :: "'a \<Rightarrow> string"
  be_port :: "'a \<Rightarrow> string"
  be_num_locks :: nat
  be_get_error :: "'u \<Rightarrow> 64 word \<times> 'u"
  be_library_init :: "'u \<Rightarrow> 'u"
  be_library_cleanup :: "'u \<Rightarrow> 'u"
  be_lock :: "nat \<Rightarrow> bool \<Rightarrow> 'u \<Rightarrow> 'u"
  be_ctx_new :: "ssl_method \<Rightarrow> 'u \<Rightarrow> nat option \<times> 'u"
  be_ctx_free :: "nat \<Rightarrow> 'u \<Rightarrow> 'u"
  be_verify_depth :: "nat \<Rightarrow> 64 word \<Rightarrow> 'u \<Rightarrow> 'u"
  be_set_options :: "nat \<Rightarrow> 32 word \<Rightarrow> 'u \<Rightarrow> 'u"
  be_cipher_list :: "nat \<Rightarrow> string \<Rightarrow> 'u \<Rightarrow> 'u"
  be_load_verify :: "nat \<Rightarrow> string \<Rightarrow> 'u \<Rightarrow> bool \<times> 'u"
  be_use_certificate :: "nat \<Rightarrow> string \<Rightarrow> 'u \<Rightarrow> bool \<times> 'u"
  be_use_private_key :: "nat \<Rightarrow> string \<Rightarrow> 'u \<Rightarrow> bool \<times> 'u"
  be_check_private_key :: "nat \<Rightarrow> 'u \<Rightarrow> bool \<times> 'u"
  be_new_ssl_connect :: "nat \<Rightarrow> 'u \<Rightarrow> nat option \<times> 'u"
  be_new_ssl :: "nat \<Rightarrow> 'u \<Rightarrow> nat option \<times> 'u"
  be_new_connect :: "'u \<Rightarrow> nat option \<times> 'u"
  be_new_accept :: "'a \<Rightarrow> 'u \<Rightarrow> nat option \<times> 'u"
  be_bio_free :: "nat \<Rightarrow> 'u \<Rightarrow> 'u"
  be_get_ssl :: "nat \<Rightarrow> 'u \<Rightarrow> bool \<times> 'u"
  be_auto_retry :: "nat \<Rightarrow> 'u \<Rightarrow> 'u"
  be_server_name :: "nat \<Rightarrow> string \<Rightarrow> 'u \<Rightarrow> 'u"
  be_conn_address :: "nat \<Rightarrow> string \<Rightarrow> string \<Rightarrow> 'u \<Rightarrow> 'u"
  be_bind_mode :: "nat \<Rightarrow> bool \<Rightarrow> 'u \<Rightarrow> 'u"
  be_accept_bios :: "nat \<Rightarrow> nat \<Rightarrow> 'u \<Rightarrow> 'u"
  be_do_connect :: "nat \<Rightarrow> 'u \<Rightarrow> int \<times> 'u"
  be_do_handshake :: "nat \<Rightarrow> 'u \<Rightarrow> int \<times> 'u"
  be_do_accept :: "nat \<Rightarrow> 'u \<Rightarrow> int \<times> 'u"
  be_pop :: "nat \<Rightarrow> 'u \<Rightarrow> nat option \<times> 'u"
  be_peer_certificate :: "nat \<Rightarrow> 'u \<Rightarrow> bool \<times> 'u"
  be_verified :: "nat \<Rightarrow> 'u \<Rightarrow> bool \<times> 'u"
  be_get_fd :: "nat \<Rightarrow> 'u \<Rightarrow> int \<times> 'u"
  be_so_keepalive :: "int \<Rightarrow> 'u \<Rightarrow> 'u"
  be_cloexec :: "int \<Rightarrow> 'u \<Rightarrow> 'u"
  be_listen :: "int \<Rightarrow> int \<Rightarrow> 'u \<Rightarrow> 'u"
  be_so_error :: "int \<Rightarrow> 'u \<Rightarrow> int \<times> 'u"
  be_socket_address :: "int \<Rightarrow> bool \<Rightarrow> 'u \<Rightarrow> 'a \<times> 'u"
  be_default :: 'a
  be_read :: "nat \<Rightarrow> nat \<Rightarrow> 'u \<Rightarrow> (int \<times> string) \<times> 'u"
  be_write :: "nat \<Rightarrow> string \<Rightarrow> 'u \<Rightarrow> int \<times> 'u"
  be_flush :: "nat \<Rightarrow> 'u \<Rightarrow> 'u"
  be_should_retry :: "nat \<Rightarrow> 'u \<Rightarrow> bool"
  be_eof :: "nat \<Rightarrow> 'u \<Rightarrow> bool"

text \<open>The globals of \<^verbatim>\<open>tcp_private.cpp\<close>; \<open>g_locks\<close> is the size of the table.\<close>

record 'u bio_world =
  g_bio_initialized :: bool
  g_locks :: "nat option"
  bw_os :: 'u

type_synonym ('u, 'r) bwact = "('u bio_world, 'r) act"

definition on_os :: "('u, 'r) act \<Rightarrow> ('u, 'r) bwact" where
  "on_os m w = (case m (bw_os w) of (r, u) \<Rightarrow> (r, w\<lparr>bw_os := u\<rparr>))"

section \<open>Set up and errors\<close>

definition crypto_thread_setup :: "('a, 'u) bio_env \<Rightarrow> ('u, unit) bwact" where
  "crypto_thread_setup E w =
     (if g_locks w \<noteq> None then (Inl Initialization_error, w) else (Inr (), w\<lparr>g_locks := Some (be_num_locks E)\<rparr>))"

definition pthreads_locking_callback :: "('a, 'u) bio_env \<Rightarrow> bool \<Rightarrow> nat \<Rightarrow> ('u, unit) bwact" where
  "pthreads_locking_callback E crypto_lock type w =
     (case g_locks w of
        None \<Rightarrow> (Inl Initialization_missing, w)
      | Some n \<Rightarrow> if type < n then on_os (act_do (be_lock E type crypto_lock)) w else (Inl Undefined_behaviour, w))"

definition thread_cleanup :: "('u, unit) bwact" where
  "thread_cleanup w = (Inr (), w\<lparr>g_locks := None\<rparr>)"

definition bio_initialize :: "('a, 'u) bio_env \<Rightarrow> ('u, unit) bwact" where
  "bio_initialize E w =
     (if g_bio_initialized w then (Inr (), w)
      else act_bind (on_os (act_do (be_library_init E))) (\<lambda>_. crypto_thread_setup E) (w\<lparr>g_bio_initialized := True\<rparr>))"

definition bio_cleanup :: "('a, 'u) bio_env \<Rightarrow> ('u, unit) bwact" where
  "bio_cleanup E = on_os (act_do (be_library_cleanup E))"

definition cleanup :: "('a, 'u) bio_env \<Rightarrow> ('u, unit) bwact" where
  "cleanup E = act_bind thread_cleanup (\<lambda>_. bio_cleanup E)"

text \<open>The queue may never become empty, as the comment of the function complains about; \<open>fuel\<close> counts its turns.\<close>

fun bio_log_errors :: "nat \<Rightarrow> ('a, 'u) bio_env \<Rightarrow> int \<Rightarrow> ('u, int) act" where
  "bio_log_errors 0 E count = act_throw No_fuel"
| "bio_log_errors (Suc fuel) E count =
     act_bind (act_call (be_get_error E)) (\<lambda>bio_errno.
       if bio_errno = 0 then act_return count else bio_log_errors fuel E (count + 1))"

definition log_and_throw :: "nat \<Rightarrow> ('a, 'u) bio_env \<Rightarrow> failure \<Rightarrow> ('u, 'r) act" where
  "log_and_throw fuel E e = act_bind (bio_log_errors fuel E 0) (\<lambda>_. act_throw e)"

text \<open>A call that must give a pointer, or a result that passes a test.\<close>

definition pointer_or :: "nat \<Rightarrow> ('a, 'u) bio_env \<Rightarrow> failure \<Rightarrow> ('u \<Rightarrow> nat option \<times> 'u) \<Rightarrow> ('u, nat) act" where
  "pointer_or fuel E e f =
     act_bind (act_call f) (\<lambda>p. case p of None \<Rightarrow> log_and_throw fuel E e | Some b \<Rightarrow> act_return b)"

definition test_or :: "nat \<Rightarrow> ('a, 'u) bio_env \<Rightarrow> failure \<Rightarrow> ('r \<Rightarrow> bool) \<Rightarrow> ('u \<Rightarrow> 'r \<times> 'u) \<Rightarrow> ('u, unit) act" where
  "test_or fuel E e good f = act_bind (act_call f) (\<lambda>r. if good r then act_return () else log_and_throw fuel E e)"

section \<open>The client\<close>

text \<open>\<open>bc_ssl_ctx\<close> and \<open>bc_bio\<close> are the fields of \<^verbatim>\<open>tcp_bio_client_impl\<close>.\<close>

record 'a tcp_bio_client =
  bc_address :: 'a
  bc_client_address :: 'a
  bc_ssl_ctx :: "nat option"
  bc_bio :: "nat option"
  f_sent_bytes :: "64 word"
  f_received_bytes :: "64 word"

definition secure_ciphers :: "mode_t \<Rightarrow> string" where
  "secure_ciphers mode = (if mode = MODE_SECURE then ''ALL'' else ''HIGH:!aNULL:!kRSA:!PSK:!SRP:!MD5:!RC4'')"

text \<open>The name the server is told, with SNI: that of the options, or that of the address when it was not given as numbers.\<close>

definition sni_host :: "('a, 'u) bio_env \<Rightarrow> 'a \<Rightarrow> tcp_bio_options \<Rightarrow> string option" where
  "sni_host E a opt =
     (if \<not> f_sni opt then None
      else let host = (if f_host opt = [] then case be_hostname E a of Some h \<Rightarrow> h | None \<Rightarrow> [] else f_host opt)
           in if host = [] then None else Some host)"

definition bio_secure_connect :: "nat \<Rightarrow> ('a, 'u) bio_env \<Rightarrow> 'a \<Rightarrow> mode_t \<Rightarrow> tcp_bio_options \<Rightarrow> nat \<Rightarrow> ('u, unit) act" where
  "bio_secure_connect fuel E a mode opt b =
     act_bind (test_or fuel E Initialization_error id (be_get_ssl E b)) (\<lambda>_.
     act_bind (act_do (be_auto_retry E b)) (\<lambda>_.
     act_bind (case sni_host E a opt of Some host \<Rightarrow> act_do (be_server_name E b host) | None \<Rightarrow> act_return ()) (\<lambda>_.
     act_bind (act_do (be_conn_address E b (be_ip E a) (be_port E a))) (\<lambda>_.
     act_bind (test_or fuel E Failed_connecting (\<lambda>r. r > 0) (be_do_connect E b)) (\<lambda>_.
     act_bind (test_or fuel E Initialization_error (\<lambda>r. r = 1) (be_do_handshake E b)) (\<lambda>_.
     act_bind (test_or fuel E Initialization_error id (be_peer_certificate E b)) (\<lambda>_.
     test_or fuel E Initialization_error (\<lambda>verified. verified \<or> mode = MODE_SECURE) (be_verified E b))))))))"

definition bio_client_secure ::
  "nat \<Rightarrow> ('a, 'u) bio_env \<Rightarrow> 'a \<Rightarrow> mode_t \<Rightarrow> tcp_bio_options \<Rightarrow> ('u, nat option \<times> nat option) act" where
  "bio_client_secure fuel E a mode opt =
     act_bind (pointer_or fuel E Initialization_error (be_ctx_new E Client_method)) (\<lambda>c. owning (be_ctx_free E c) (
       act_bind (act_do (be_verify_depth E c (f_verification_depth opt))) (\<lambda>_.
       act_bind (act_do (be_set_options E c (f_ssl_options opt))) (\<lambda>_.
       act_bind (act_do (be_cipher_list E c (secure_ciphers mode))) (\<lambda>_.
       act_bind (test_or fuel E Initialization_error id (be_load_verify E c ''/etc/ssl/certs'')) (\<lambda>_.
       act_bind (pointer_or fuel E Initialization_error (be_new_ssl_connect E c)) (\<lambda>b. owning (be_bio_free E b) (
         act_bind (bio_secure_connect fuel E a mode opt b) (\<lambda>_. act_return (Some c, Some b))))))))))"

definition bio_client_plain :: "nat \<Rightarrow> ('a, 'u) bio_env \<Rightarrow> 'a \<Rightarrow> ('u, nat option \<times> nat option) act" where
  "bio_client_plain fuel E a =
     act_bind (pointer_or fuel E Initialization_error (be_new_connect E)) (\<lambda>b. owning (be_bio_free E b) (
       act_bind (act_do (be_conn_address E b (be_ip E a) (be_port E a))) (\<lambda>_.
       act_bind (test_or fuel E Failed_connecting (\<lambda>r. r > 0) (be_do_connect E b)) (\<lambda>_. act_return (None, Some b)))))"

definition bio_keepalive :: "('a, 'u) bio_env \<Rightarrow> nat \<Rightarrow> ('u, unit) act" where
  "bio_keepalive E b =
     act_bind (act_call (be_get_fd E b)) (\<lambda>fd. if fd \<ge> 0 then act_do (be_so_keepalive E fd) else act_return ())"

definition new_tcp_bio_client ::
  "nat \<Rightarrow> ('a, 'u) bio_env \<Rightarrow> 'a \<Rightarrow> mode_t \<Rightarrow> tcp_bio_options \<Rightarrow> ('u, 'a tcp_bio_client) bwact" where
  "new_tcp_bio_client fuel E a mode opt =
     (if be_is_default E a then act_throw Invalid_parameter
      else act_bind (bio_initialize E) (\<lambda>_. on_os (
        act_bind (if mode = MODE_PLAIN then bio_client_plain fuel E a else bio_client_secure fuel E a mode opt) (\<lambda>(c, b).
        act_bind (case b of Some x \<Rightarrow> act_when (bo_keepalive opt) (bio_keepalive E x) | None \<Rightarrow> act_return ()) (\<lambda>_.
        act_return \<lparr>bc_address = a, bc_client_address = be_default E, bc_ssl_ctx = c, bc_bio = b, f_sent_bytes = 0, f_received_bytes = 0\<rparr>)))))"

text \<open>The members of the object that is left behind are freed, the BIO before its context.\<close>

definition bio_client_close :: "('a, 'u) bio_env \<Rightarrow> 'a tcp_bio_client \<times> 'u \<Rightarrow> 'a tcp_bio_client \<times> 'u" where
  "bio_client_close E = (\<lambda>(s, u).
     (let u1 = (case bc_bio s of Some b \<Rightarrow> be_bio_free E b u | None \<Rightarrow> u);
          u2 = (case bc_ssl_ctx s of Some c \<Rightarrow> be_ctx_free E c u1 | None \<Rightarrow> u1)
      in (s\<lparr>bc_bio := None, bc_ssl_ctx := None\<rparr>, u2)))"

text \<open>The result of \<^verbatim>\<open>get_socket()\<close>, -1 with \<^verbatim>\<open>EBADF\<close> once closed.\<close>

definition bio_client_get_socket :: "('a, 'u) bio_env \<Rightarrow> ('a tcp_bio_client \<times> 'u, int) act" where
  "bio_client_get_socket E = (\<lambda>(s, u).
     (case bc_bio s of Some b \<Rightarrow> (case be_get_fd E b u of (fd, u') \<Rightarrow> (Inr fd, (s, u'))) | None \<Rightarrow> (Inr (-1), (s, u))))"

definition get_client_address :: "('a, 'u) bio_env \<Rightarrow> ('a tcp_bio_client \<times> 'u, 'a) act" where
  "get_client_address E = (\<lambda>(s, u).
     (if be_is_default E (bc_client_address s)
      then act_bind (bio_client_get_socket E) (\<lambda>fd (s, u).
             if fd \<ge> 0 then (case be_socket_address E fd True u of (a, u') \<Rightarrow> (Inr a, (s\<lparr>bc_client_address := a\<rparr>, u')))
             else (Inr (bc_client_address s), (s, u))) (s, u)
      else (Inr (bc_client_address s), (s, u))))"

text \<open>
  \<^verbatim>\<open>read()\<close> and \<^verbatim>\<open>write()\<close> give their result, the bytes in the buffer and the value given to \<^verbatim>\<open>errno\<close>, when it was; \<^verbatim>\<open>EIO\<close> is
  \<open>Other_errno\<close>.\<close>

type_synonym ('a, 'u) bio_io = "('a tcp_bio_client \<times> 'u, int \<times> string \<times> errno option) act"

definition with_client :: "'a tcp_bio_client \<Rightarrow> ('u, 'r) act \<Rightarrow> 'u \<Rightarrow> 'r result \<times> 'a tcp_bio_client \<times> 'u" where
  "with_client s m u = (case m u of (r, u') \<Rightarrow> (r, (s, u')))"

definition bio_error :: "nat \<Rightarrow> ('a, 'u) bio_env \<Rightarrow> ('u, int \<times> string \<times> errno option) act" where
  "bio_error fuel E = act_bind (bio_log_errors fuel E 0) (\<lambda>_. act_return (-1, [], Some Other_errno))"

definition bio_client_read :: "nat \<Rightarrow> ('a, 'u) bio_env \<Rightarrow> nat \<Rightarrow> ('a, 'u) bio_io" where
  "bio_client_read fuel E n = (\<lambda>(s, u).
     (case bc_bio s of
        None \<Rightarrow> (Inr (-1, [], Some EBADF), (s, u))
      | Some b \<Rightarrow> (case be_read E b n u of ((r, buf), u1) \<Rightarrow>
          if r \<le> -2 then with_client s (bio_error fuel E) u1
          else if r = -1 \<or> r = 0 then
            if be_should_retry E b u1 then (Inr (0, [], Some EAGAIN), (s, u1))
            else if be_eof E b u1 then (Inr (0, [], None), (s, u1))
            else if r \<noteq> 0 then with_client s (bio_error fuel E) u1
            else (Inr (r, [], None), (s, u1))
          else (Inr (r, buf, None), (s\<lparr>f_received_bytes := f_received_bytes s + word_of_int r\<rparr>, u1)))))"

text \<open>\<open>fuel\<close> bounds both the characters of the line and the errors that are logged.\<close>

fun bio_line_loop :: "nat \<Rightarrow> nat \<Rightarrow> ('a, 'u) bio_env \<Rightarrow> string \<Rightarrow> ('a tcp_bio_client \<times> 'u, int \<times> string) act" where
  "bio_line_loop 0 fuel E line = act_throw No_fuel"
| "bio_line_loop (Suc n) fuel E line =
     act_bind (bio_client_read fuel E 1) (\<lambda>(r, buf, _).
       if r \<le> 0 then (\<lambda>(s, u).
         (Inr (if line = [] \<and> r < 0 then -1 else int (length line), line),
          (s\<lparr>f_received_bytes := f_received_bytes s + of_nat (length line)\<rparr>, u)))
       else if hd buf = CHR 0x0A then (\<lambda>(s, u).
         (Inr (int (length line), line), (s\<lparr>f_received_bytes := f_received_bytes s + of_nat (length line)\<rparr>, u)))
       else bio_line_loop n fuel E (line @ [hd buf]))"

definition bio_client_read_line :: "nat \<Rightarrow> ('a, 'u) bio_env \<Rightarrow> ('a tcp_bio_client \<times> 'u, int \<times> string) act" where
  "bio_client_read_line fuel E = bio_line_loop fuel fuel E []"

definition bio_client_write :: "nat \<Rightarrow> ('a, 'u) bio_env \<Rightarrow> string \<Rightarrow> ('a, 'u) bio_io" where
  "bio_client_write fuel E buf = (\<lambda>(s, u).
     (case bc_bio s of
        None \<Rightarrow> (Inr (-1, [], Some EBADF), (s, u))
      | Some b \<Rightarrow> (case be_write E b buf u of (r, u1) \<Rightarrow>
          if r \<le> -2 then with_client s (bio_error fuel E) u1
          else if r = -1 \<or> r = 0 then
            if be_should_retry E b u1 then (Inr (0, [], Some EAGAIN), (s, u1)) else with_client s (bio_error fuel E) u1
          else (Inr (r, [], None), (s\<lparr>f_sent_bytes := f_sent_bytes s + word_of_int r\<rparr>, be_flush E b u1)))))"

section \<open>The server\<close>

text \<open>\<open>bs_ssl_ctx\<close> and the others are the fields of \<^verbatim>\<open>tcp_bio_server_impl\<close>.\<close>

record tcp_bio_server =
  bs_max_connections :: int
  bs_ssl_ctx :: "nat option"
  bs_listen :: "nat option"
  bs_keepalive :: bool
  bs_close_on_exec :: bool

definition bio_max_connections :: "int \<Rightarrow> int" where
  "bio_max_connections n = max 5 (min 1000 (if n \<le> 0 then 50 else n))"

text \<open>\<^verbatim>\<open>bind()\<close> and \<^verbatim>\<open>listen()\<close> through the library, then again \<^verbatim>\<open>listen()\<close> for the size of the queue.\<close>

definition bio_listening :: "nat \<Rightarrow> ('a, 'u) bio_env \<Rightarrow> nat \<Rightarrow> int \<Rightarrow> ('u, unit) act" where
  "bio_listening fuel E l n =
     act_bind (test_or fuel E Initialization_error (\<lambda>r. r > 0) (be_do_connect E l)) (\<lambda>_.
     act_bind (act_call (be_get_fd E l)) (\<lambda>fd.
       if fd < 0 then act_throw Initialization_error
       else act_bind (act_do (be_listen E fd n)) (\<lambda>_.
            act_bind (act_call (be_so_error E fd)) (\<lambda>error_code.
              if error_code \<noteq> 0 then act_throw Initialization_error else act_return ()))))"

definition bio_server_secure ::
  "nat \<Rightarrow> ('a, 'u) bio_env \<Rightarrow> 'a \<Rightarrow> int \<Rightarrow> bool \<Rightarrow> string \<Rightarrow> string \<Rightarrow> ('u, nat option \<times> nat option) act" where
  "bio_server_secure fuel E a n reuse_addr certificate private_key =
     (if certificate = [] \<or> private_key = [] then act_throw Initialization_error
      else act_bind (pointer_or fuel E Initialization_error (be_ctx_new E Server_method)) (\<lambda>c. owning (be_ctx_free E c) (
        act_bind (act_do (be_cipher_list E c ''ALL'')) (\<lambda>_.
        act_bind (test_or fuel E Initialization_error id (be_use_certificate E c certificate)) (\<lambda>_.
        act_bind (test_or fuel E Initialization_error id (be_use_private_key E c private_key)) (\<lambda>_.
        act_bind (test_or fuel E Initialization_error id (be_check_private_key E c)) (\<lambda>_.
        act_bind (pointer_or fuel E Initialization_error (be_new_ssl E c)) (\<lambda>b.
        act_bind (owning (be_bio_free E b) (
          act_bind (test_or fuel E Initialization_error id (be_get_ssl E b)) (\<lambda>_.
          act_bind (act_do (be_auto_retry E b)) (\<lambda>_.
          pointer_or fuel E Initialization_error (be_new_accept E a))))) (\<lambda>l.
        act_bind (act_do (be_bind_mode E l reuse_addr)) (\<lambda>_.
        act_bind (act_do (be_accept_bios E l b)) (\<lambda>_.
        owning (be_bio_free E l) (act_bind (bio_listening fuel E l n) (\<lambda>_. act_return (Some c, Some l))))))))))))))"

definition bio_server_plain :: "nat \<Rightarrow> ('a, 'u) bio_env \<Rightarrow> 'a \<Rightarrow> int \<Rightarrow> ('u, nat option \<times> nat option) act" where
  "bio_server_plain fuel E a n =
     act_bind (pointer_or fuel E Initialization_error (be_new_accept E a)) (\<lambda>l. owning (be_bio_free E l) (
       act_bind (act_do (be_bind_mode E l True)) (\<lambda>_.
       act_bind (bio_listening fuel E l n) (\<lambda>_. act_return (None, Some l)))))"

definition new_tcp_bio_server ::
  "nat \<Rightarrow> ('a, 'u) bio_env \<Rightarrow> 'a \<Rightarrow> int \<Rightarrow> bool \<Rightarrow> string \<Rightarrow> string \<Rightarrow> mode_t \<Rightarrow> ('u, tcp_bio_server) bwact" where
  "new_tcp_bio_server fuel E a max_connections reuse_addr certificate private_key mode =
     (let n = bio_max_connections max_connections
      in act_bind (bio_initialize E) (\<lambda>_. on_os (
        act_bind (if mode = MODE_PLAIN then bio_server_plain fuel E a n
                  else bio_server_secure fuel E a n reuse_addr certificate private_key) (\<lambda>(c, l).
        act_return \<lparr>bs_max_connections = n, bs_ssl_ctx = c, bs_listen = l, bs_keepalive = True, bs_close_on_exec = False\<rparr>))))"

definition destroy_tcp_bio_server :: "('a, 'u) bio_env \<Rightarrow> tcp_bio_server \<Rightarrow> 'u \<Rightarrow> 'u" where
  "destroy_tcp_bio_server E s u =
     (let u1 = (case bs_listen s of Some l \<Rightarrow> be_bio_free E l u | None \<Rightarrow> u)
      in case bs_ssl_ctx s of Some c \<Rightarrow> be_ctx_free E c u1 | None \<Rightarrow> u1)"

definition is_secure :: "tcp_bio_server \<Rightarrow> bool" where
  "is_secure s \<longleftrightarrow> bs_ssl_ctx s \<noteq> None"

definition bio_server_get_socket :: "('a, 'u) bio_env \<Rightarrow> tcp_bio_server \<Rightarrow> 'u \<Rightarrow> int \<times> 'u" where
  "bio_server_get_socket E s u = (case bs_listen s of Some l \<Rightarrow> be_get_fd E l u | None \<Rightarrow> (-1, u))"

definition bio_server_get_address :: "('a, 'u) bio_env \<Rightarrow> tcp_bio_server \<Rightarrow> 'u \<Rightarrow> 'a \<times> 'u" where
  "bio_server_get_address E s u =
     (case bio_server_get_socket E s u of (fd, u') \<Rightarrow> if fd \<ge> 0 then be_socket_address E fd False u' else (be_default E, u'))"

definition bs_set_keepalive :: "bool \<Rightarrow> tcp_bio_server \<Rightarrow> tcp_bio_server" where
  "bs_set_keepalive yes s = s\<lparr>bs_keepalive := yes\<rparr>"

definition bs_set_close_on_exec :: "('a, 'u) bio_env \<Rightarrow> bool \<Rightarrow> tcp_bio_server \<Rightarrow> 'u \<Rightarrow> tcp_bio_server \<times> 'u" where
  "bs_set_close_on_exec E yes s u =
     (s\<lparr>bs_close_on_exec := yes\<rparr>,
      if yes then case bio_server_get_socket E s u of (fd, u') \<Rightarrow> if fd \<ge> 0 then be_cloexec E fd u' else u' else u)"

definition bio_cloexec :: "('a, 'u) bio_env \<Rightarrow> nat \<Rightarrow> ('u, unit) act" where
  "bio_cloexec E b = act_bind (act_call (be_get_fd E b)) (\<lambda>fd. if fd \<ge> 0 then act_do (be_cloexec E fd) else act_return ())"

definition bio_server_accept :: "nat \<Rightarrow> ('a, 'u) bio_env \<Rightarrow> tcp_bio_server \<Rightarrow> ('u, 'a tcp_bio_client) act" where
  "bio_server_accept fuel E s =
     (case bs_listen s of
        None \<Rightarrow> act_throw Undefined_behaviour
      | Some l \<Rightarrow>
          act_bind (test_or fuel E Runtime_error (\<lambda>r. r > 0) (be_do_accept E l)) (\<lambda>_.
          act_bind (pointer_or fuel E Runtime_error (be_pop E l)) (\<lambda>b.
          act_bind (act_when (bs_keepalive s) (bio_keepalive E b)) (\<lambda>_.
          act_bind (act_when (bs_close_on_exec s) (bio_cloexec E b)) (\<lambda>_.
          act_bind (act_call (be_get_fd E b)) (\<lambda>fd.
          act_bind (if fd \<ge> 0 then act_call (be_socket_address E fd False) else act_return (be_default E)) (\<lambda>a.
          act_return \<lparr>bc_address = a, bc_client_address = be_default E, bc_ssl_ctx = None, bc_bio = Some b,
            f_sent_bytes = 0, f_received_bytes = 0\<rparr>)))))))"

section \<open>The queue of errors\<close>

lemma spec_log:
  assumes steady: "\<And>u. P (snd (be_get_error E u)) = P u"
  shows "act_spec P (bio_log_errors fuel E n) (\<lambda>_. P) P"
proof (induction fuel arbitrary: n)
  case (Suc fuel)
  show ?case unfolding bio_log_errors.simps
    by (rule spec_bind [OF spec_steady], rule steady) (simp add: Suc.IH spec_return)
qed (simp add: spec_throw)

lemma spec_log_and_throw:
  assumes "\<And>u. P (snd (be_get_error E u)) = P u"
  shows "act_spec P (log_and_throw fuel E e) Q P"
  unfolding log_and_throw_def by (rule spec_bind [OF spec_log], rule assms) (simp add: spec_throw)

lemma spec_test:
  assumes log: "\<And>u. P (snd (be_get_error E u)) = P u" and f: "\<And>u. P (snd (f u)) = P u"
  shows "act_spec P (test_or fuel E e good f) (\<lambda>_. P) P"
  unfolding test_or_def
  by (rule spec_bind [OF spec_steady], rule f) (auto intro: spec_return spec_log_and_throw [where P = P, OF log])

section \<open>No object of the library is lost\<close>

text \<open>
  \<open>owned\<close> are the pointers the program has to free. \<^verbatim>\<open>BIO_set_accept_bios()\<close> gives one to the listening object; the rest of the
  functions that are used leave them alone.\<close>

definition gives :: "('u \<Rightarrow> nat set) \<Rightarrow> ('u \<Rightarrow> nat option \<times> 'u) \<Rightarrow> bool" where
  "gives owned f \<longleftrightarrow>
     (\<forall>u. case f u of (None, u') \<Rightarrow> owned u' = owned u | (Some p, u') \<Rightarrow> p \<notin> owned u \<and> owned u' = insert p (owned u))"

definition steady :: "('u \<Rightarrow> nat set) \<Rightarrow> ('u \<Rightarrow> 'r \<times> 'u) \<Rightarrow> bool" where
  "steady owned f \<longleftrightarrow> (\<forall>u. owned (snd (f u)) = owned u)"

definition steady_do :: "('u \<Rightarrow> nat set) \<Rightarrow> ('u \<Rightarrow> 'u) \<Rightarrow> bool" where
  "steady_do owned f \<longleftrightarrow> (\<forall>u. owned (f u) = owned u)"

definition bio_laws :: "('u \<Rightarrow> nat set) \<Rightarrow> ('a, 'u) bio_env \<Rightarrow> bool" where
  "bio_laws owned E \<longleftrightarrow>
     ((\<forall>m. gives owned (be_ctx_new E m)) \<and> (\<forall>c. gives owned (be_new_ssl_connect E c)) \<and> (\<forall>c. gives owned (be_new_ssl E c)) \<and>
      gives owned (be_new_connect E) \<and> (\<forall>a. gives owned (be_new_accept E a)) \<and> (\<forall>l. gives owned (be_pop E l))) \<and>
     ((\<forall>c u. owned (be_ctx_free E c u) = owned u - {c}) \<and> (\<forall>b u. owned (be_bio_free E b u) = owned u - {b}) \<and>
      (\<forall>l b u. owned (be_accept_bios E l b u) = owned u - {b})) \<and>
     (steady owned (be_get_error E) \<and> (\<forall>c p. steady owned (be_load_verify E c p)) \<and> (\<forall>c p. steady owned (be_use_certificate E c p)) \<and>
      (\<forall>c p. steady owned (be_use_private_key E c p)) \<and> (\<forall>c. steady owned (be_check_private_key E c)) \<and>
      (\<forall>b. steady owned (be_get_ssl E b)) \<and> (\<forall>b. steady owned (be_do_connect E b)) \<and> (\<forall>b. steady owned (be_do_handshake E b)) \<and>
      (\<forall>b. steady owned (be_do_accept E b)) \<and> (\<forall>b. steady owned (be_peer_certificate E b)) \<and> (\<forall>b. steady owned (be_verified E b)) \<and>
      (\<forall>b. steady owned (be_get_fd E b)) \<and> (\<forall>fd. steady owned (be_so_error E fd)) \<and> (\<forall>fd x. steady owned (be_socket_address E fd x))) \<and>
     (steady_do owned (be_library_init E) \<and> (\<forall>c d. steady_do owned (be_verify_depth E c d)) \<and> (\<forall>c d. steady_do owned (be_set_options E c d)) \<and>
      (\<forall>c s. steady_do owned (be_cipher_list E c s)) \<and> (\<forall>b. steady_do owned (be_auto_retry E b)) \<and>
      (\<forall>b h. steady_do owned (be_server_name E b h)) \<and> (\<forall>b i p. steady_do owned (be_conn_address E b i p)) \<and>
      (\<forall>b r. steady_do owned (be_bind_mode E b r)) \<and> (\<forall>fd. steady_do owned (be_so_keepalive E fd)) \<and>
      (\<forall>fd. steady_do owned (be_cloexec E fd)) \<and> (\<forall>fd n. steady_do owned (be_listen E fd n)))"

lemma bio_laws_gives:
  assumes "bio_laws owned E"
  shows "gives owned (be_ctx_new E m)" "gives owned (be_new_ssl_connect E c)" "gives owned (be_new_ssl E c)"
    "gives owned (be_new_connect E)" "gives owned (be_new_accept E a)" "gives owned (be_pop E l)"
  using assms by (simp_all add: bio_laws_def)

lemma bio_laws_takes:
  assumes "bio_laws owned E"
  shows "owned (be_ctx_free E c u) = owned u - {c}" "owned (be_bio_free E b u) = owned u - {b}"
    "owned (be_accept_bios E l b u) = owned u - {b}"
  using assms by (simp_all add: bio_laws_def)

lemma bio_laws_steady:
  assumes "bio_laws owned E"
  shows "owned (snd (be_get_error E u)) = owned u" "owned (snd (be_load_verify E c p u)) = owned u"
    "owned (snd (be_use_certificate E c p u)) = owned u" "owned (snd (be_use_private_key E c p u)) = owned u"
    "owned (snd (be_check_private_key E c u)) = owned u" "owned (snd (be_get_ssl E b u)) = owned u"
    "owned (snd (be_do_connect E b u)) = owned u" "owned (snd (be_do_handshake E b u)) = owned u"
    "owned (snd (be_do_accept E b u)) = owned u" "owned (snd (be_peer_certificate E b u)) = owned u"
    "owned (snd (be_verified E b u)) = owned u" "owned (snd (be_get_fd E b u)) = owned u"
    "owned (snd (be_so_error E fd u)) = owned u" "owned (snd (be_socket_address E fd x u)) = owned u"
    "owned (be_library_init E u) = owned u" "owned (be_verify_depth E c d u) = owned u" "owned (be_set_options E c o' u) = owned u"
    "owned (be_cipher_list E c s u) = owned u" "owned (be_auto_retry E b u) = owned u" "owned (be_server_name E b h u) = owned u"
    "owned (be_conn_address E b i q u) = owned u" "owned (be_bind_mode E b r u) = owned u" "owned (be_so_keepalive E fd u) = owned u"
    "owned (be_cloexec E fd u) = owned u" "owned (be_listen E fd n u) = owned u"
  using assms by (simp_all add: bio_laws_def steady_def steady_do_def)

lemma givesD: "gives owned f \<Longrightarrow> f u = (None, u') \<Longrightarrow> owned u' = owned u"
  "gives owned f \<Longrightarrow> f u = (Some p, u') \<Longrightarrow> p \<notin> owned u \<and> owned u' = insert p (owned u)"
  by (auto simp: gives_def dest!: spec [of _ u])

lemma spec_pointer:
  fixes E :: "('a, 'u) bio_env"
  assumes laws: "bio_laws owned E" and f: "gives owned f"
  shows "act_spec (own owned base A) (pointer_or fuel E e f) (\<lambda>p u. p \<notin> A \<and> own owned base (insert p A) u) (own owned base A)"
  unfolding pointer_or_def
proof (rule spec_bind)
  show "act_spec (own owned base A) (act_call f)
      (\<lambda>p u. case p of None \<Rightarrow> own owned base A u | Some p \<Rightarrow> p \<notin> A \<and> own owned base (insert p A) u) (own owned base A)"
  proof (rule spec_call)
    fix u assume "own owned base A u"
    then show "case fst (f u) of None \<Rightarrow> own owned base A (snd (f u)) | Some p \<Rightarrow> p \<notin> A \<and> own owned base (insert p A) (snd (f u))"
      using givesD [OF f, of u] by (cases "f u") (auto simp: own_def split: option.split)
  qed
  have log: "act_spec (own owned base A) (log_and_throw fuel E e) Q (own owned base A)" for Q :: "nat \<Rightarrow> 'u \<Rightarrow> bool"
    by (rule spec_log_and_throw, rule own_cong) (rule bio_laws_steady(1) [OF laws])
  fix p
  show "act_spec (\<lambda>u. case p of None \<Rightarrow> own owned base A u | Some p \<Rightarrow> p \<notin> A \<and> own owned base (insert p A) u)
      (case p of None \<Rightarrow> log_and_throw fuel E e | Some b \<Rightarrow> act_return b) (\<lambda>p u. p \<notin> A \<and> own owned base (insert p A) u) (own owned base A)"
    by (cases p) (simp_all add: log spec_return)
qed

text \<open>Ours are \<open>A\<close> before, \<open>B r\<close> when the action returns \<open>r\<close>, \<open>C\<close> when it throws.\<close>

definition leaves :: "('u \<Rightarrow> nat set) \<Rightarrow> nat set \<Rightarrow> ('u, 'r) act \<Rightarrow> ('r \<Rightarrow> nat set) \<Rightarrow> nat set \<Rightarrow> bool" where
  "leaves owned A m B C \<longleftrightarrow> (\<forall>base. act_spec (own owned base A) m (\<lambda>r. own owned base (B r)) (own owned base C))"

lemma leaves_return: "B r = A \<Longrightarrow> leaves owned A (act_return r) B C"
  by (simp add: leaves_def spec_return)

lemma leaves_throw: "C = A \<Longrightarrow> leaves owned A (act_throw e) B C"
  by (simp add: leaves_def spec_throw)

lemma leaves_bind: "leaves owned A m M C \<Longrightarrow> (\<And>r. leaves owned (M r) (f r) B C) \<Longrightarrow> leaves owned A (act_bind m f) B C"
  unfolding leaves_def by (blast intro: spec_bind)

lemma leaves_if:
  "(b \<Longrightarrow> leaves owned A m B C) \<Longrightarrow> (\<not> b \<Longrightarrow> leaves owned A m' B C) \<Longrightarrow> leaves owned A (if b then m else m') B C"
  by simp

lemma leaves_call: "(\<And>u. owned (snd (f u)) = owned u) \<Longrightarrow> leaves owned A (act_call f) (\<lambda>_. A) C"
  unfolding leaves_def by (intro allI spec_steady own_cong)

lemma leaves_do: "(\<And>u. owned (f u) = owned u) \<Longrightarrow> leaves owned A (act_do f) (\<lambda>_. A) C"
  unfolding leaves_def by (intro allI spec_steady_do own_cong)

lemma leaves_test:
  assumes "bio_laws owned E" "\<And>u. owned (snd (f u)) = owned u"
  shows "leaves owned A (test_or fuel E e good f) (\<lambda>_. A) A"
  unfolding leaves_def by (intro allI spec_test own_cong assms(2) bio_laws_steady(1) [OF assms(1)])

lemma leaves_then_test:
  "bio_laws owned E \<Longrightarrow> (\<And>u. owned (snd (f u)) = owned u) \<Longrightarrow> leaves owned A m B A \<Longrightarrow>
    leaves owned A (act_bind (test_or fuel E e good f) (\<lambda>_. m)) B A"
  by (rule leaves_bind [OF leaves_test])

lemma leaves_then_do:
  "(\<And>u. owned (f u) = owned u) \<Longrightarrow> leaves owned A m B C \<Longrightarrow> leaves owned A (act_bind (act_do f) (\<lambda>_. m)) B C"
  by (rule leaves_bind [OF leaves_do])

lemma leaves_pointer:
  assumes "bio_laws owned E" "gives owned g" and f: "\<And>p. p \<notin> A \<Longrightarrow> leaves owned (insert p A) (f p) B A"
  shows "leaves owned A (act_bind (pointer_or fuel E e g) f) B A"
  unfolding leaves_def
  by (intro allI spec_bind [OF spec_pointer [OF assms(1,2)]] spec_assume) (use f in \<open>simp add: leaves_def\<close>)

lemma leaves_owning:
  assumes "leaves owned A m B (insert p C)" "p \<notin> C" "\<And>u. owned (free u) = owned u - {p}"
  shows "leaves owned A (owning free m) B C"
  unfolding leaves_def
proof
  fix base
  show "act_spec (own owned base A) (owning free m) (\<lambda>r. own owned base (B r)) (own owned base C)"
    by (rule spec_owning [where Y = "own owned base (insert p C)"])
      (use assms own_free [of owned _ _ p C base] in \<open>auto simp: leaves_def\<close>)
qed

lemma secure_connect_leaves:
  assumes laws: "bio_laws owned E"
  shows "leaves owned A (bio_secure_connect fuel E a mode opt b) (\<lambda>_. A) A"
proof -
  have sni: "leaves owned A (case sni_host E a opt of Some host \<Rightarrow> act_do (be_server_name E b host) | None \<Rightarrow> act_return ()) (\<lambda>_. A) A"
    by (auto intro: leaves_do leaves_return simp: bio_laws_steady [OF laws] split: option.split)
  show ?thesis
    unfolding bio_secure_connect_def
    by (intro leaves_then_test [OF laws] leaves_then_do leaves_bind [OF sni] leaves_test [OF laws])
      (simp_all add: bio_laws_steady [OF laws])
qed

text \<open>The pointers of an object: its BIO and its context.\<close>

definition pointers :: "nat option \<times> nat option \<Rightarrow> nat set" where
  "pointers = (\<lambda>(c, b). set_option c \<union> set_option b)"

lemma client_secure_leaves:
  assumes laws: "bio_laws owned E"
  shows "leaves owned {} (bio_client_secure fuel E a mode opt) pointers {}"
  unfolding bio_client_secure_def
  by (rule leaves_pointer [OF laws bio_laws_gives(1) [OF laws]] leaves_pointer [OF laws bio_laws_gives(2) [OF laws]] leaves_owning
      leaves_then_do leaves_then_test [OF laws] leaves_bind [OF secure_connect_leaves [OF laws]] leaves_return |
      (auto simp: bio_laws_steady [OF laws] bio_laws_takes [OF laws] pointers_def; fail))+

lemma client_plain_leaves:
  assumes laws: "bio_laws owned E"
  shows "leaves owned {} (bio_client_plain fuel E a) pointers {}"
  unfolding bio_client_plain_def
  by (rule leaves_pointer [OF laws bio_laws_gives(4) [OF laws]] leaves_owning
      leaves_then_do leaves_then_test [OF laws] leaves_return |
      (auto simp: bio_laws_steady [OF laws] bio_laws_takes [OF laws] pointers_def; fail))+

lemma listening_leaves:
  assumes laws: "bio_laws owned E"
  shows "leaves owned A (bio_listening fuel E l n) (\<lambda>_. A) A"
  unfolding bio_listening_def
  by (rule leaves_then_test [OF laws] leaves_bind [OF leaves_call] leaves_then_do leaves_return leaves_throw leaves_if |
      (simp add: bio_laws_steady [OF laws]; fail))+

lemma server_plain_leaves:
  assumes laws: "bio_laws owned E"
  shows "leaves owned {} (bio_server_plain fuel E a n) pointers {}"
  unfolding bio_server_plain_def
  by (rule leaves_pointer [OF laws bio_laws_gives(5) [OF laws]] leaves_owning
      leaves_then_do leaves_bind [OF listening_leaves [OF laws]] leaves_return |
      (auto simp: bio_laws_steady [OF laws] bio_laws_takes [OF laws] pointers_def; fail))+

text \<open>The SSL object is ours until the listening object takes it.\<close>

lemma accept_bio_spec:
  assumes laws: "bio_laws owned E" and fresh: "b \<notin> A"
  shows "act_spec (own owned base (insert b A)) (owning (be_bio_free E b)
      (act_bind (test_or fuel E Initialization_error id (be_get_ssl E b)) (\<lambda>_.
       act_bind (act_do (be_auto_retry E b)) (\<lambda>_. pointer_or fuel E Initialization_error (be_new_accept E a)))))
    (\<lambda>l u. l \<notin> insert b A \<and> own owned base (insert l (insert b A)) u) (own owned base A)"
proof (rule spec_owning)
  let ?P = "own owned base (insert b A)"
  note steady = own_cong [of owned _ _ base "insert b A"]
  show "act_spec ?P (act_bind (test_or fuel E Initialization_error id (be_get_ssl E b)) (\<lambda>_.
       act_bind (act_do (be_auto_retry E b)) (\<lambda>_. pointer_or fuel E Initialization_error (be_new_accept E a))))
    (\<lambda>l u. l \<notin> insert b A \<and> own owned base (insert l (insert b A)) u) ?P"
    by (rule spec_bind [OF spec_test], rule steady, rule bio_laws_steady(1) [OF laws], rule steady, rule bio_laws_steady(6) [OF laws],
        rule spec_bind [OF spec_steady_do], rule steady, rule bio_laws_steady(19) [OF laws],
        rule spec_pointer [OF laws bio_laws_gives(5) [OF laws]])
  show "own owned base A (be_bio_free E b u)" if "?P u" for u
    by (rule own_free [of owned _ u b]) (use that fresh in \<open>simp_all add: bio_laws_takes [OF laws]\<close>)
qed

lemma secure_listening_leaves:
  assumes laws: "bio_laws owned E" and fresh: "b \<notin> {c}" "l \<notin> {b, c}"
  shows "leaves owned {l, b, c} (act_bind (act_do (be_bind_mode E l reuse)) (\<lambda>_. act_bind (act_do (be_accept_bios E l b)) (\<lambda>_.
    owning (be_bio_free E l) (act_bind (bio_listening fuel E l n) (\<lambda>_. act_return (Some c, Some l)))))) pointers {c}"
proof (rule leaves_then_do)
  have give: "leaves owned {l, b, c} (act_do (be_accept_bios E l b)) (\<lambda>_. {l, c}) {c}"
    unfolding leaves_def
  proof (intro allI spec_do)
    fix base u assume "own owned base {l, b, c} u"
    then have "own owned base (insert b {l, c}) u" by (simp add: insert_commute)
    then show "own owned base {l, c} (be_accept_bios E l b u)"
      by (intro own_free [of owned _ u b "{l, c}"]) (use fresh in \<open>simp_all add: bio_laws_takes [OF laws]\<close>)
  qed
  show "leaves owned {l, b, c} (act_bind (act_do (be_accept_bios E l b)) (\<lambda>_.
    owning (be_bio_free E l) (act_bind (bio_listening fuel E l n) (\<lambda>_. act_return (Some c, Some l))))) pointers {c}"
    by (rule leaves_bind [OF give], rule leaves_owning, rule leaves_bind [OF listening_leaves [OF laws]], rule leaves_return)
      (use fresh in \<open>auto simp: bio_laws_takes [OF laws] pointers_def\<close>)
qed (rule bio_laws_steady(22) [OF laws])

lemma server_secure_leaves:
  assumes laws: "bio_laws owned E"
  shows "leaves owned {} (bio_server_secure fuel E a n reuse certificate private_key) pointers {}"
proof -
  have ssl: "leaves owned {c} (act_bind (pointer_or fuel E Initialization_error (be_new_ssl E c)) (\<lambda>b.
        act_bind (owning (be_bio_free E b) (
          act_bind (test_or fuel E Initialization_error id (be_get_ssl E b)) (\<lambda>_.
          act_bind (act_do (be_auto_retry E b)) (\<lambda>_. pointer_or fuel E Initialization_error (be_new_accept E a))))) (\<lambda>l.
        act_bind (act_do (be_bind_mode E l reuse)) (\<lambda>_.
        act_bind (act_do (be_accept_bios E l b)) (\<lambda>_.
        owning (be_bio_free E l) (act_bind (bio_listening fuel E l n) (\<lambda>_. act_return (Some c, Some l)))))))) pointers {c}" for c
  proof (rule leaves_pointer [OF laws bio_laws_gives(3) [OF laws]])
    fix b assume b: "b \<notin> {c}"
    show "leaves owned {b, c} (act_bind (owning (be_bio_free E b) (
          act_bind (test_or fuel E Initialization_error id (be_get_ssl E b)) (\<lambda>_.
          act_bind (act_do (be_auto_retry E b)) (\<lambda>_. pointer_or fuel E Initialization_error (be_new_accept E a))))) (\<lambda>l.
        act_bind (act_do (be_bind_mode E l reuse)) (\<lambda>_.
        act_bind (act_do (be_accept_bios E l b)) (\<lambda>_.
        owning (be_bio_free E l) (act_bind (bio_listening fuel E l n) (\<lambda>_. act_return (Some c, Some l))))))) pointers {c}"
      unfolding leaves_def
      by (intro allI, rule spec_bind [OF accept_bio_spec [OF laws b]], rule spec_assume)
        (rule secure_listening_leaves [OF laws b, unfolded leaves_def, rule_format])
  qed
  have "leaves owned {} (act_bind (pointer_or fuel E Initialization_error (be_ctx_new E Server_method)) f) pointers {}"
    if "\<And>c. leaves owned {c} (f c) pointers {}" for f
    using that by (intro leaves_pointer [OF laws bio_laws_gives(1) [OF laws]]) simp
  note ctx_new = this
  show ?thesis
    unfolding bio_server_secure_def
    by (rule leaves_if leaves_throw ctx_new leaves_owning leaves_then_do leaves_then_test [OF laws] ssl |
        (auto simp: bio_laws_steady [OF laws] bio_laws_takes [OF laws]; fail))+
qed

text \<open>The set up of the library and the rest of the constructors.\<close>

definition owns_pointers :: "('u \<Rightarrow> nat set) \<Rightarrow> ('r \<Rightarrow> nat set) \<Rightarrow> ('u, 'r) bwact \<Rightarrow> bool" where
  "owns_pointers owned ptrs m \<longleftrightarrow>
     (\<forall>w. case m w of (Inl e, w') \<Rightarrow> owned (bw_os w') = owned (bw_os w)
        | (Inr r, w') \<Rightarrow> ptrs r \<inter> owned (bw_os w) = {} \<and> owned (bw_os w') = ptrs r \<union> owned (bw_os w))"

definition client_pointers :: "'a tcp_bio_client \<Rightarrow> nat set" where
  "client_pointers s = pointers (bc_ssl_ctx s, bc_bio s)"

definition server_pointers :: "tcp_bio_server \<Rightarrow> nat set" where
  "server_pointers s = pointers (bs_ssl_ctx s, bs_listen s)"

lemma initialize_owned:
  assumes "bio_laws owned E"
  shows "owned (bw_os (snd (bio_initialize E w))) = owned (bw_os w)"
  by (simp add: bio_initialize_def crypto_thread_setup_def on_os_def act_do_def act_bind_def bio_laws_steady [OF assms])

lemma owns_pointersI:
  assumes laws: "bio_laws owned E" and m: "leaves owned {} m ptrs {}"
  shows "owns_pointers owned ptrs (act_bind (bio_initialize E) (\<lambda>_. on_os m))"
  unfolding owns_pointers_def
proof
  fix w
  obtain r v where init: "bio_initialize E w = (r, v)" by (cases "bio_initialize E w")
  have v: "owned (bw_os v) = owned (bw_os w)" using initialize_owned [OF laws, of w] init by simp
  obtain q u where run: "m (bw_os v) = (q, u)" by (cases "m (bw_os v)")
  have "act_spec (own owned (owned (bw_os v)) {}) m (\<lambda>r. own owned (owned (bw_os v)) (ptrs r)) (own owned (owned (bw_os v)) {})"
    using m by (simp add: leaves_def)
  note end_state = act_specD [OF this own_start]
  show "case act_bind (bio_initialize E) (\<lambda>_. on_os m) w of (Inl e, w') \<Rightarrow> owned (bw_os w') = owned (bw_os w)
        | (Inr r, w') \<Rightarrow> ptrs r \<inter> owned (bw_os w) = {} \<and> owned (bw_os w') = ptrs r \<union> owned (bw_os w)"
    using init v run end_state [of _ u] by (cases r; cases q) (auto simp: act_bind_def on_os_def own_def)
qed

lemma owns_pointersD: "owns_pointers owned ptrs m \<Longrightarrow> m w = (Inl e, w') \<Longrightarrow> owned (bw_os w') = owned (bw_os w)"
  by (auto simp: owns_pointers_def dest!: spec [of _ w])

lemma leaves_option:
  "(\<And>x. p = Some x \<Longrightarrow> leaves owned A (f x) B C) \<Longrightarrow> (p = None \<Longrightarrow> leaves owned A m B C) \<Longrightarrow>
    leaves owned A (case p of Some x \<Rightarrow> f x | None \<Rightarrow> m) B C"
  by (cases p) auto

lemma keepalive_leaves:
  assumes "bio_laws owned E"
  shows "leaves owned A (bio_keepalive E b) (\<lambda>_. A) C" "leaves owned A (bio_cloexec E b) (\<lambda>_. A) C"
  unfolding bio_keepalive_def bio_cloexec_def
  by (rule leaves_bind [OF leaves_call] leaves_if leaves_do leaves_return | (simp add: bio_laws_steady [OF assms]; fail))+

lemma leaves_when: "leaves owned A m (\<lambda>_. A) C \<Longrightarrow> leaves owned A (act_when b m) (\<lambda>_. A) C"
  by (simp add: act_when_def leaves_return)

lemma new_client_owns:
  assumes laws: "bio_laws owned E"
  shows "owns_pointers owned client_pointers (new_tcp_bio_client fuel E a mode opt)"
proof (cases "be_is_default E a")
  case True
  then show ?thesis by (simp add: new_tcp_bio_client_def owns_pointers_def act_throw_def)
next
  case False
  have connect: "leaves owned {} (if mode = MODE_PLAIN then bio_client_plain fuel E a else bio_client_secure fuel E a mode opt) pointers {}"
    by (rule leaves_if) (rule client_plain_leaves [OF laws] client_secure_leaves [OF laws])+
  have alive: "leaves owned A (case b of Some x \<Rightarrow> act_when (bo_keepalive opt) (bio_keepalive E x) | None \<Rightarrow> act_return ()) (\<lambda>_. A) {}" for b A
    by (rule leaves_option leaves_when keepalive_leaves [OF laws] leaves_return refl)+
  have "leaves owned {} (act_bind (if mode = MODE_PLAIN then bio_client_plain fuel E a else bio_client_secure fuel E a mode opt)
      (\<lambda>(c, b). act_bind (case b of Some x \<Rightarrow> act_when (bo_keepalive opt) (bio_keepalive E x) | None \<Rightarrow> act_return ()) (\<lambda>_.
        act_return \<lparr>bc_address = a, bc_client_address = be_default E, bc_ssl_ctx = c, bc_bio = b, f_sent_bytes = 0, f_received_bytes = 0\<rparr>)))
      client_pointers {}"
    by (rule leaves_bind [OF connect])
      (auto intro!: leaves_bind [OF alive] leaves_return simp: client_pointers_def split del: option.split)
  from owns_pointersI [OF laws this] show ?thesis unfolding new_tcp_bio_client_def if_not_P [OF False] .
qed

lemma new_server_owns:
  assumes laws: "bio_laws owned E"
  shows "owns_pointers owned server_pointers (new_tcp_bio_server fuel E a n reuse_addr certificate private_key mode)"
proof -
  have "leaves owned {} (if mode = MODE_PLAIN then bio_server_plain fuel E a k
      else bio_server_secure fuel E a k reuse_addr certificate private_key) pointers {}" for k
    by (rule leaves_if) (rule server_plain_leaves [OF laws] server_secure_leaves [OF laws])+
  then have "leaves owned {} (act_bind (if mode = MODE_PLAIN then bio_server_plain fuel E a k
      else bio_server_secure fuel E a k reuse_addr certificate private_key) (\<lambda>(c, l).
        act_return \<lparr>bs_max_connections = k, bs_ssl_ctx = c, bs_listen = l, bs_keepalive = True, bs_close_on_exec = False\<rparr>))
      server_pointers {}" for k
    by (rule leaves_bind) (auto intro!: leaves_return simp: server_pointers_def)
  from owns_pointersI [OF laws this] show ?thesis unfolding new_tcp_bio_server_def Let_def .
qed

lemma accept_owns:
  fixes E :: "('a, 'u) bio_env"
  assumes laws: "bio_laws owned E"
  shows "leaves owned {} (bio_server_accept fuel E s) client_pointers {}"
proof (cases "bs_listen s")
  case None
  then show ?thesis by (simp add: bio_server_accept_def leaves_throw)
next
  case (Some l)
  have address: "leaves owned A (if fd \<ge> 0 then act_call (be_socket_address E fd False) else act_return (be_default E)) (\<lambda>_. A) C" for A C fd
    by (rule leaves_if leaves_call leaves_return refl | (simp add: bio_laws_steady [OF laws]; fail))+
  have pop: "leaves owned {} (act_bind (pointer_or fuel E Runtime_error (be_pop E l)) f) client_pointers {}"
    if "\<And>b. leaves owned {b} (f b) client_pointers {}" for f :: "nat \<Rightarrow> ('u, 'a tcp_bio_client) act"
    using that by (intro leaves_pointer [OF laws bio_laws_gives(6) [OF laws]]) simp
  show ?thesis
    unfolding bio_server_accept_def Some option.case
    by (rule pop leaves_then_test [OF laws] leaves_bind [OF leaves_when [OF keepalive_leaves(1) [OF laws]]]
        leaves_bind [OF leaves_when [OF keepalive_leaves(2) [OF laws]]] leaves_bind [OF address] leaves_bind [OF leaves_call] leaves_return |
        (simp add: bio_laws_steady [OF laws] client_pointers_def pointers_def; fail))+
qed


section \<open>Which connections are verified\<close>

text \<open>\<open>trusted b u\<close>: the chain of the certificate of the peer was found good.\<close>

definition trust_laws :: "(nat \<Rightarrow> 'u \<Rightarrow> bool) \<Rightarrow> ('a, 'u) bio_env \<Rightarrow> bool" where
  "trust_laws trusted E \<longleftrightarrow>
     (\<forall>b u. fst (be_verified E b u) \<longrightarrow> trusted b (snd (be_verified E b u))) \<and>
     (\<forall>b c u. trusted b u \<longrightarrow> trusted b (snd (be_get_fd E c u))) \<and> (\<forall>b fd u. trusted b u \<longrightarrow> trusted b (be_so_keepalive E fd u))"

lemma secure_connect_trusted:
  assumes laws: "trust_laws trusted E" and mode: "mode = MODE_ALWAYS_SECURE"
    and run: "bio_secure_connect fuel E a mode opt b u = (Inr x, u')"
  shows "trusted b u'"
proof -
  have "\<exists>v. test_or fuel E Initialization_error (\<lambda>verified. verified \<or> mode = MODE_SECURE) (be_verified E b) v = (Inr x, u')"
    using run unfolding bio_secure_connect_def by (blast dest: act_bind_Inr)
  then obtain v where "test_or fuel E Initialization_error (\<lambda>verified. verified \<or> mode = MODE_SECURE) (be_verified E b) v = (Inr x, u')" ..
  then show ?thesis
    using laws mode by (auto simp: test_or_def log_and_throw_def act_defs trust_laws_def split: prod.splits sum.splits if_splits)
      (metis fst_conv snd_conv)+
qed

abbreviation ends :: "('u, 'r) act \<Rightarrow> ('r \<Rightarrow> 'u \<Rightarrow> bool) \<Rightarrow> bool" where
  "ends m Q \<equiv> act_spec (\<lambda>_. True) m Q (\<lambda>_. True)"

lemma ends_bind: "(\<And>a. ends (f a) Q) \<Longrightarrow> ends (act_bind m f) Q"
  by (rule spec_bind [where R = "\<lambda>_ _. True"]) (auto simp: act_spec_def split: prod.split sum.split)

lemma ends_owning: "ends m Q \<Longrightarrow> ends (owning free m) Q"
  by (rule spec_owning)

lemma client_secure_trusted:
  assumes laws: "trust_laws trusted E"
  shows "ends (bio_client_secure fuel E a MODE_ALWAYS_SECURE opt) (\<lambda>cb u. \<exists>x. snd cb = Some x \<and> trusted x u \<and> fst cb \<noteq> None)"
proof -
  have "ends (bio_secure_connect fuel E a MODE_ALWAYS_SECURE opt b) (\<lambda>_. trusted b)" for b
    by (rule act_specI) (auto intro: secure_connect_trusted [OF laws refl])
  then have "ends (act_bind (bio_secure_connect fuel E a MODE_ALWAYS_SECURE opt b) (\<lambda>_. act_return (Some c, Some b)))
      (\<lambda>cb u. \<exists>x. snd cb = Some x \<and> trusted x u \<and> fst cb \<noteq> None)" for b c
    by (rule spec_bind) (auto intro: spec_return)
  note last = this
  show ?thesis
    unfolding bio_client_secure_def by (rule last ends_owning ends_bind)+
qed

lemma keepalive_trusted:
  assumes laws: "trust_laws trusted E"
  shows "act_spec (trusted b) (bio_keepalive E c) (\<lambda>_. trusted b) (\<lambda>_. True)"
  unfolding bio_keepalive_def
  by (rule spec_bind [where R = "\<lambda>_. trusted b"], rule spec_call) (use laws in \<open>auto intro: spec_do spec_return simp: trust_laws_def\<close>)


section \<open>What is read and counted\<close>

text \<open>\<open>sent\<close> is what the peer has written and the client has not read yet; the peer has closed its side after it.\<close>

definition bio_stream :: "('u \<Rightarrow> string) \<Rightarrow> nat \<Rightarrow> ('a, 'u) bio_env \<Rightarrow> bool" where
  "bio_stream sent b E \<longleftrightarrow>
     (\<forall>n u. fst (be_read E b n u) = (int (length (take n (sent u))), take n (sent u)) \<and> sent (snd (be_read E b n u)) = drop n (sent u)) \<and>
     (\<forall>u. \<not> be_should_retry E b u) \<and> (\<forall>u. be_eof E b u)"

lemma bio_read_one:
  assumes stream: "bio_stream sent b E" and b: "bc_bio s = Some b"
  obtains u' where "sent u' = drop 1 (sent u)"
    "bio_client_read fuel E 1 (s, u) =
      (case sent u of [] \<Rightarrow> (Inr (0, [], None), (s, u'))
       | c # cs \<Rightarrow> (Inr (1, [c], None), (s\<lparr>f_received_bytes := f_received_bytes s + 1\<rparr>, u')))"
proof
  show "sent (snd (be_read E b 1 u)) = drop 1 (sent u)" using stream by (simp add: bio_stream_def)
  obtain r buf u' where read: "be_read E b 1 u = ((r, buf), u')" by (metis prod.exhaust)
  have "fst (be_read E b 1 u) = (int (length (take 1 (sent u))), take 1 (sent u))" using stream unfolding bio_stream_def by blast
  then have "r = int (length (take 1 (sent u)))" "buf = take 1 (sent u)" using read by simp_all
  then show "bio_client_read fuel E 1 (s, u) =
      (case sent u of [] \<Rightarrow> (Inr (0, [], None), (s, snd (be_read E b 1 u)))
       | c # cs \<Rightarrow> (Inr (1, [c], None), (s\<lparr>f_received_bytes := f_received_bytes s + 1\<rparr>, snd (be_read E b 1 u))))"
    using stream b read by (cases "sent u") (simp_all add: bio_client_read_def bio_stream_def)
qed

lemma bio_line_exact:
  assumes stream: "bio_stream sent b E"
  shows "length (sent u) < n \<Longrightarrow> bc_bio s = Some b \<Longrightarrow>
    \<exists>u'. bio_line_loop n fuel E line (s, u) =
      (let l = takeWhile (\<lambda>c. c \<noteq> CHR 0x0A) (sent u); all = line @ l; new_line = (if CHR 0x0A \<in> set (sent u) then 1 else 0)
       in (Inr (int (length all), all), (s\<lparr>f_received_bytes := f_received_bytes s + of_nat (length l + length all) + new_line\<rparr>, u'))) \<and>
      sent u' = tl (dropWhile (\<lambda>c. c \<noteq> CHR 0x0A) (sent u))"
proof (induction n arbitrary: u s line)
  case (Suc n)
  obtain u' where u': "sent u' = drop 1 (sent u)" and read: "bio_client_read fuel E 1 (s, u) =
      (case sent u of [] \<Rightarrow> (Inr (0, [], None), (s, u'))
       | c # cs \<Rightarrow> (Inr (1, [c], None), (s\<lparr>f_received_bytes := f_received_bytes s + 1\<rparr>, u')))"
    using bio_read_one [OF stream Suc.prems(2), of u fuel] by blast
  show ?case
  proof (cases "sent u")
    case Nil
    then show ?thesis using read u' by (simp add: act_bind_def)
  next
    case (Cons c cs)
    show ?thesis
    proof (cases "c = CHR 0x0A")
      case True
      then show ?thesis using read u' Cons by (simp add: act_bind_def add.assoc add.commute)
    next
      case False
      let ?s = "s\<lparr>f_received_bytes := f_received_bytes s + 1\<rparr>"
      have "length (sent u') < n" "bc_bio ?s = Some b" using Suc.prems u' Cons by simp_all
      from Suc.IH [OF this, of "line @ [c]"] show ?thesis
        using False read u' Cons by (auto simp: act_bind_def Let_def algebra_simps)
    qed
  qed
qed simp


text \<open>A line that did not arrive in full is returned as if it had: the result is the one of a whole line.\<close>

lemma retry_cuts_line:
  assumes "bc_bio s = Some b" "be_read E b 1 u = ((-1, buf), u')" "be_should_retry E b u'" "line \<noteq> []"
  shows "bio_line_loop (Suc n) fuel E line (s, u) =
    (Inr (int (length line), line), (s\<lparr>f_received_bytes := f_received_bytes s + of_nat (length line)\<rparr>, u'))"
  using assms by (simp add: act_bind_def bio_client_read_def)

text \<open>The bytes sent are those \<^verbatim>\<open>write()\<close> returned, modulo the width of the counter.\<close>

fun bio_writes :: "nat \<Rightarrow> ('a, 'u) bio_env \<Rightarrow> string list \<Rightarrow> ('a tcp_bio_client \<times> 'u, int list) act" where
  "bio_writes fuel E [] = act_return []"
| "bio_writes fuel E (buf # bufs) =
     act_bind (bio_client_write fuel E buf) (\<lambda>(r, _). act_bind (bio_writes fuel E bufs) (\<lambda>rs. act_return (r # rs)))"

lemma bio_log_errors_only: "bio_error fuel E u = (Inr r, u') \<Longrightarrow> r = (-1, [], Some Other_errno)"
  by (auto simp: bio_error_def act_return_def dest!: act_bind_Inr)

lemma write_counts:
  "bio_client_write fuel E buf (s, u) = (Inr (r, x), (s', u')) \<Longrightarrow> f_sent_bytes s' = f_sent_bytes s + word_of_int (max 0 r)"
  by (auto simp: bio_client_write_def with_client_def max_def dest!: bio_log_errors_only split: option.splits prod.splits if_splits)

lemma sent_bytes_exact:
  "bio_writes fuel E bufs (s, u) = (Inr rs, (s', u')) \<Longrightarrow> f_sent_bytes s' = f_sent_bytes s + word_of_int (\<Sum>r\<leftarrow>rs. max 0 r)"
proof (induction bufs arbitrary: s u rs)
  case (Cons buf bufs)
  obtain r x t v where wrote: "bio_client_write fuel E buf (s, u) = (Inr (r, x), (t, v))"
    using Cons.prems by (auto simp: dest!: act_bind_Inr)
  obtain qs where rest: "bio_writes fuel E bufs (t, v) = (Inr qs, (s', u'))" and rs: "rs = r # qs"
    using Cons.prems wrote by (auto simp: act_bind_def act_return_def split: prod.splits sum.splits)
  show ?case using Cons.IH [OF rest] write_counts [OF wrote] rs by (simp add: add.assoc)
qed (simp add: act_return_def)

section \<open>The errors and the set up of the library\<close>

text \<open>The errors of a queue that ends are all logged, however many there are.\<close>

lemma log_empties_queue:
  assumes queue: "\<And>u. be_get_error E u = (case pending u of [] \<Rightarrow> (0, u) | e # es \<Rightarrow> (e, pop u))"
    and pop: "\<And>u. pending (pop u) = tl (pending u)" and errors: "0 \<notin> set (pending u)"
  shows "length (pending u) < fuel \<Longrightarrow> \<exists>u'. bio_log_errors fuel E n u = (Inr (n + int (length (pending u))), u') \<and> pending u' = []"
  using errors
proof (induction fuel arbitrary: u n)
  case (Suc fuel)
  show ?case
  proof (cases "pending u")
    case Nil
    then show ?thesis using queue [of u] by (simp add: act_bind_def act_call_def act_return_def)
  next
    case (Cons e es)
    then show ?thesis
      using queue [of u] pop [of u] Suc.prems Suc.IH [of "pop u" "n + 1"] by (auto simp: act_bind_def act_call_def)
  qed
qed simp

text \<open>A queue that gives the same error again and again is never finished.\<close>

lemma repeated_error_never_ends:
  "(\<And>u. fst (be_get_error E u) \<noteq> 0) \<Longrightarrow> fst (bio_log_errors fuel E n u) = Inl No_fuel"
  by (induction fuel arbitrary: n u) (auto simp: act_throw_def act_bind_def act_call_def case_prod_beta)

text \<open>The first object sets the library up, and \<^verbatim>\<open>cleanup()\<close> is for good: nothing is set up again after it.\<close>

lemma initialized_once:
  "g_locks w = None \<Longrightarrow> \<not> g_bio_initialized w \<Longrightarrow>
    \<exists>w'. bio_initialize E w = (Inr (), w') \<and> g_locks w' = Some (be_num_locks E) \<and> bio_initialize E w' = (Inr (), w')"
  by (simp add: bio_initialize_def crypto_thread_setup_def on_os_def act_do_def act_bind_def)

lemma cleanup_is_final:
  assumes "g_bio_initialized w" "cleanup E w = (r, w')"
  shows "bio_initialize E w' = (Inr (), w') \<and> pthreads_locking_callback E lock k w' = (Inl Initialization_missing, w')"
  using assms
  by (auto simp: cleanup_def thread_cleanup_def bio_cleanup_def act_bind_def on_os_def act_do_def bio_initialize_def pthreads_locking_callback_def)

text \<open>The depth of an object is always one the setter accepts.\<close>

lemma verification_depth_ok:
  "set_verification_depth depth opt = Inr opt' \<Longrightarrow> 1 \<le> f_verification_depth opt' \<and> f_verification_depth opt' \<le> MAX_VERIFICATION_DEPTH"
  "1 \<le> f_verification_depth (new_tcp_bio_options x) \<and> f_verification_depth (new_tcp_bio_options x) \<le> MAX_VERIFICATION_DEPTH"
  by (auto simp: set_verification_depth_def new_tcp_bio_options_def MAX_VERIFICATION_DEPTH_def not_less word_le_nat_alt
      unat_gt_0 Suc_le_eq split: if_splits)

text \<open>The path of the certificates is never looked at.\<close>

lemma certificate_path_ignored:
  "new_tcp_bio_client fuel E a mode (set_ssl_certificate_path path opt) = new_tcp_bio_client fuel E a mode opt"
  by (simp add: new_tcp_bio_client_def bio_client_secure_def bio_secure_connect_def sni_host_def set_ssl_certificate_path_def Let_def
      cong: option.case_cong)

section \<open>A library to try the theorems on\<close>

text \<open>The next pointer, the pointers the program owns, the connections that were verified and what the peer has sent.\<close>

type_synonym demo_bio = "nat \<times> nat set \<times> nat set \<times> string"

definition demo_new :: "demo_bio \<Rightarrow> nat option \<times> demo_bio" where
  "demo_new u = (case u of (p, o', t, s) \<Rightarrow> if p \<in> o' then (None, u) else (Some p, (Suc p, insert p o', t, s)))"

definition demo_free :: "nat \<Rightarrow> demo_bio \<Rightarrow> demo_bio" where
  "demo_free x u = (case u of (p, o', t, s) \<Rightarrow> (p, o' - {x}, t, s))"

text \<open>The port decides how the peer behaves: nobody is behind port 9, and nothing signed the certificate of port 4433.\<close>

definition demo_bio_env :: "string \<Rightarrow> (string, demo_bio) bio_env" where
  "demo_bio_env port = \<lparr>be_is_default = (\<lambda>a. a = []), be_hostname = Some, be_ip = id, be_port = (\<lambda>_. port), be_num_locks = 4,
     be_get_error = (\<lambda>u. (0, u)), be_library_init = id, be_library_cleanup = id, be_lock = (\<lambda>_ _. id),
     be_ctx_new = (\<lambda>_. demo_new), be_ctx_free = demo_free, be_verify_depth = (\<lambda>_ _. id), be_set_options = (\<lambda>_ _. id),
     be_cipher_list = (\<lambda>_ _. id), be_load_verify = (\<lambda>_ _ u. (True, u)), be_use_certificate = (\<lambda>_ _ u. (True, u)),
     be_use_private_key = (\<lambda>_ _ u. (True, u)), be_check_private_key = (\<lambda>_ u. (True, u)), be_new_ssl_connect = (\<lambda>_. demo_new),
     be_new_ssl = (\<lambda>_. demo_new), be_new_connect = demo_new, be_new_accept = (\<lambda>_. demo_new), be_bio_free = demo_free,
     be_get_ssl = (\<lambda>_ u. (True, u)), be_auto_retry = (\<lambda>_. id), be_server_name = (\<lambda>_ _. id), be_conn_address = (\<lambda>_ _ _. id),
     be_bind_mode = (\<lambda>_ _. id), be_accept_bios = (\<lambda>_. demo_free), be_do_connect = (\<lambda>_ u. (if port = ''9'' then -1 else 1, u)),
     be_do_handshake = (\<lambda>_ u. (1, u)), be_do_accept = (\<lambda>_ u. (1, u)), be_pop = (\<lambda>_. demo_new), be_peer_certificate = (\<lambda>_ u. (True, u)),
     be_verified = (\<lambda>b (p, o', t, s). (port \<noteq> ''4433'', p, o', if port \<noteq> ''4433'' then insert b t else t, s)), be_get_fd = (\<lambda>b u. (int b, u)),
     be_so_keepalive = (\<lambda>_. id), be_cloexec = (\<lambda>_. id), be_listen = (\<lambda>_ _. id), be_so_error = (\<lambda>_ u. (0, u)),
     be_socket_address = (\<lambda>_ _ u. (''127.0.0.1'', u)), be_default = [],
     be_read = (\<lambda>_ n (p, o', t, s). ((int (length (take n s)), take n s), (p, o', t, drop n s))), be_write = (\<lambda>_ s u. (int (length s), u)),
     be_flush = (\<lambda>_. id), be_should_retry = (\<lambda>_ _. False), be_eof = (\<lambda>_ _. True)\<rparr>"

lemma demo_gives: "gives (\<lambda>u. fst (snd u)) demo_new"
  by (auto simp: gives_def demo_new_def)

lemma demo_bio_laws: "bio_laws (\<lambda>u. fst (snd u)) (demo_bio_env port)"
  using demo_gives by (auto simp: bio_laws_def demo_bio_env_def steady_def steady_do_def demo_free_def)

lemma demo_trust_laws: "trust_laws (\<lambda>b u. b \<in> fst (snd (snd u))) (demo_bio_env port)"
  by (auto simp: trust_laws_def demo_bio_env_def)

lemma demo_bio_stream: "bio_stream (\<lambda>u. snd (snd (snd u))) 5 (demo_bio_env port)"
  by (simp add: bio_stream_def demo_bio_env_def case_prod_beta)

lemma demo_refused:
  "\<exists>w'. new_tcp_bio_client 1 (demo_bio_env ''9'') ''host'' MODE_SECURE (new_tcp_bio_options 0)
      \<lparr>g_bio_initialized = False, g_locks = None, bw_os = (5, {1}, {}, [])\<rparr> = (Inl Failed_connecting, w')"
  by (simp add: new_tcp_bio_client_def bio_initialize_def crypto_thread_setup_def on_os_def bio_client_secure_def bio_secure_connect_def
      pointer_or_def test_or_def log_and_throw_def sni_host_def act_defs demo_bio_env_def demo_new_def demo_free_def new_tcp_bio_options_def)


lemma demo_connected:
  "\<exists>w'. new_tcp_bio_client 1 (demo_bio_env ''443'') ''host'' MODE_ALWAYS_SECURE (new_tcp_bio_options 0)
      \<lparr>g_bio_initialized = False, g_locks = None, bw_os = (5, {}, {}, [])\<rparr> =
    (Inr \<lparr>bc_address = ''host'', bc_client_address = [], bc_ssl_ctx = Some 5, bc_bio = Some 6, f_sent_bytes = 0, f_received_bytes = 0\<rparr>, w')"
  by (simp add: new_tcp_bio_client_def bio_initialize_def crypto_thread_setup_def on_os_def bio_client_secure_def bio_secure_connect_def
      pointer_or_def test_or_def log_and_throw_def sni_host_def bio_keepalive_def act_when_def act_defs demo_bio_env_def demo_new_def demo_free_def
      new_tcp_bio_options_def)



end
