(* ===== verification/Socket_Connections.thy ===== *)
theory Socket_Connections
  imports Bio_Sockets
begin

text \<open>
  The connections that join a descriptor, or a client of \<^verbatim>\<open>tcp_bio_client.cpp\<close>, with the class \<^verbatim>\<open>connection\<close>: \<^verbatim>\<open>fd_connection.cpp\<close>,
  \<^verbatim>\<open>tcp_server_client_connection.cpp\<close>, \<^verbatim>\<open>tcp_client_connection.cpp\<close>, \<^verbatim>\<open>local_stream_server_client_connection.cpp\<close>, and the options
  of the sockets in \<^verbatim>\<open>connection.cpp\<close>. Reading and writing give the result, or \<^verbatim>\<open>errno\<close>.
\<close>

section \<open>Descriptors\<close>

datatype fd_mode_t = FD_MODE_READ | FD_MODE_WRITE | FD_MODE_RW

record fd_connection =
  f_fd :: int
  f_mode :: fd_mode_t

text \<open>\<open>so_address\<close> is \<^verbatim>\<open>addr_unix::set_from_socket()\<close>; \<open>so_nonblock\<close> says whether \<^verbatim>\<open>ioctl()\<close> worked, \<open>so_flags\<close> whether \<^verbatim>\<open>fcntl()\<close> gave
  \<^verbatim>\<open>O_NONBLOCK\<close>, \<open>so_get_keepalive\<close> is the option, when it has the size of an integer.\<close>

record ('a, 'u) socket_system =
  so_read :: "int \<Rightarrow> nat \<Rightarrow> 'u \<Rightarrow> (errno + string) \<times> 'u"
  so_write :: "int \<Rightarrow> string \<Rightarrow> 'u \<Rightarrow> (errno + nat) \<times> 'u"
  so_close :: "int \<Rightarrow> 'u \<Rightarrow> 'u"
  so_address :: "int \<Rightarrow> 'u \<Rightarrow> 'a"
  so_nonblock :: "int \<Rightarrow> 'u \<Rightarrow> bool \<times> 'u"
  so_flags :: "int \<Rightarrow> 'u \<Rightarrow> bool"
  so_set_keepalive :: "int \<Rightarrow> 'u \<Rightarrow> 'u"
  so_get_keepalive :: "int \<Rightarrow> 'u \<Rightarrow> int option"

definition new_fd_connection :: "int \<Rightarrow> fd_mode_t \<Rightarrow> fd_connection" where
  "new_fd_connection fd mode = \<lparr>f_fd = fd, f_mode = mode\<rparr>"

definition fd_close :: "('a, 'u) socket_system \<Rightarrow> fd_connection \<Rightarrow> 'u \<Rightarrow> fd_connection \<times> 'u" where
  "fd_close S c u = (if f_fd c \<noteq> -1 then (c\<lparr>f_fd := -1\<rparr>, so_close S (f_fd c) u) else (c, u))"

definition fd_mark_closed :: "fd_connection \<Rightarrow> fd_connection" where
  "fd_mark_closed c = c\<lparr>f_fd := -1\<rparr>"

definition fd_is_reader :: "fd_connection \<Rightarrow> bool" where
  "fd_is_reader c \<longleftrightarrow> f_mode c \<noteq> FD_MODE_WRITE \<and> f_fd c \<noteq> -1"

definition fd_is_writer :: "fd_connection \<Rightarrow> bool" where
  "fd_is_writer c \<longleftrightarrow> f_mode c \<noteq> FD_MODE_READ \<and> f_fd c \<noteq> -1"

definition fd_read :: "('a, 'u) socket_system \<Rightarrow> nat \<Rightarrow> fd_connection \<Rightarrow> 'u \<Rightarrow> (errno + string) \<times> 'u" where
  "fd_read S n c u = (if \<not> fd_is_reader c then (Inl EBADF, u) else so_read S (f_fd c) n u)"

definition fd_write :: "('a, 'u) socket_system \<Rightarrow> string \<Rightarrow> fd_connection \<Rightarrow> 'u \<Rightarrow> (errno + nat) \<times> 'u" where
  "fd_write S buf c u = (if \<not> fd_is_writer c then (Inl EBADF, u) else so_write S (f_fd c) buf u)"

section \<open>The clients a server accepted\<close>

text \<open>\<open>ls_client\<close> is -1 once closed.\<close>

record 'a local_server_client =
  ls_client :: int
  ls_address :: 'a
  f_address_defined :: bool

definition new_local_server_client :: "int \<Rightarrow> 'a \<Rightarrow> 'a local_server_client" where
  "new_local_server_client fd no_address = \<lparr>ls_client = fd, ls_address = no_address, f_address_defined = False\<rparr>"

definition ls_read :: "('a, 'u) socket_system \<Rightarrow> nat \<Rightarrow> 'a local_server_client \<Rightarrow> 'u \<Rightarrow> (errno + string) \<times> 'u" where
  "ls_read S n c u = (if ls_client c = -1 then (Inl EBADF, u) else so_read S (ls_client c) n u)"

definition ls_write :: "('a, 'u) socket_system \<Rightarrow> string \<Rightarrow> 'a local_server_client \<Rightarrow> 'u \<Rightarrow> (errno + nat) \<times> 'u" where
  "ls_write S buf c u = (if ls_client c = -1 then (Inl EBADF, u) else so_write S (ls_client c) buf u)"

definition ls_close :: "('a, 'u) socket_system \<Rightarrow> 'a local_server_client \<Rightarrow> 'u \<Rightarrow> 'a local_server_client \<times> 'u" where
  "ls_close S c u = (c\<lparr>ls_client := -1\<rparr>, if ls_client c = -1 then u else so_close S (ls_client c) u)"

definition define_address :: "('a, 'u) socket_system \<Rightarrow> 'u \<Rightarrow> 'a local_server_client \<Rightarrow> 'a local_server_client" where
  "define_address S u c =
     (if ls_client c = -1 \<or> f_address_defined c then c else c\<lparr>f_address_defined := True, ls_address := so_address S (ls_client c) u\<rparr>)"

definition ls_get_client_address :: "('a, 'u) socket_system \<Rightarrow> 'u \<Rightarrow> 'a local_server_client \<Rightarrow> 'a \<times> 'a local_server_client" where
  "ls_get_client_address S u c = (let c' = define_address S u c in (ls_address c', c'))"

text \<open>The shared client of a server of \<^verbatim>\<open>tcp_bio_server.cpp\<close>, which only this connection holds.\<close>

record 'a tcp_server_client =
  tc_client :: "'a tcp_bio_client option"
  tc_client_address :: 'a
  tc_remote_address :: 'a

definition new_tcp_server_client :: "('a, 'u) bio_env \<Rightarrow> 'a tcp_bio_client option \<Rightarrow> 'a tcp_server_client" where
  "new_tcp_server_client E client = \<lparr>tc_client = client, tc_client_address = be_default E, tc_remote_address = be_default E\<rparr>"

definition tc_on_client ::
  "'r \<Rightarrow> ('a tcp_bio_client \<times> 'u, 'r) act \<Rightarrow> 'a tcp_server_client \<times> 'u \<Rightarrow> 'r result \<times> 'a tcp_server_client \<times> 'u" where
  "tc_on_client none m = (\<lambda>(c, u).
     (case tc_client c of
        None \<Rightarrow> (Inr none, (c, u))
      | Some s \<Rightarrow> (case m (s, u) of (r, (s', u')) \<Rightarrow> (r, (c\<lparr>tc_client := Some s'\<rparr>, u')))))"

definition tc_read :: "nat \<Rightarrow> ('a, 'u) bio_env \<Rightarrow> nat \<Rightarrow> ('a tcp_server_client \<times> 'u, int \<times> string \<times> errno option) act" where
  "tc_read fuel E n = tc_on_client (-1, [], Some EBADF) (bio_client_read fuel E n)"

definition tc_write :: "nat \<Rightarrow> ('a, 'u) bio_env \<Rightarrow> string \<Rightarrow> ('a tcp_server_client \<times> 'u, int \<times> string \<times> errno option) act" where
  "tc_write fuel E buf = tc_on_client (-1, [], Some EBADF) (bio_client_write fuel E buf)"

definition tc_get_socket :: "('a, 'u) bio_env \<Rightarrow> ('a tcp_server_client \<times> 'u, int) act" where
  "tc_get_socket E = tc_on_client (-1) (bio_client_get_socket E)"

text \<open>The destructor does the same.\<close>

definition tc_close :: "('a, 'u) bio_env \<Rightarrow> 'a tcp_server_client \<times> 'u \<Rightarrow> 'a tcp_server_client \<times> 'u" where
  "tc_close E = (\<lambda>(c, u).
     (c\<lparr>tc_client := None\<rparr>, case tc_client c of None \<Rightarrow> u | Some s \<Rightarrow> snd (bio_client_close E (s, u))))"

definition tc_get_client_address :: "('a, 'u) bio_env \<Rightarrow> ('a tcp_server_client \<times> 'u, 'a) act" where
  "tc_get_client_address E = (\<lambda>(c, u).
     (if be_is_default E (tc_client_address c)
      then act_bind (tc_get_socket E) (\<lambda>fd (c, u).
             if fd \<ge> 0 then (case be_socket_address E fd False u of (a, u') \<Rightarrow> (Inr a, (c\<lparr>tc_client_address := a\<rparr>, u')))
             else (Inr (tc_client_address c), (c, u))) (c, u)
      else (Inr (tc_client_address c), (c, u))))"

definition tc_get_remote_address :: "('a, 'u) bio_env \<Rightarrow> ('a tcp_server_client \<times> 'u, 'a) act" where
  "tc_get_remote_address E = (\<lambda>(c, u).
     (if be_is_default E (tc_remote_address c)
      then act_bind (tc_get_socket E) (\<lambda>fd (c, u).
             if fd \<ge> 0 then (case be_socket_address E fd True u of (a, u') \<Rightarrow> (Inr a, (c\<lparr>tc_remote_address := a\<rparr>, u')))
             else (Inr (tc_remote_address c), (c, u))) (c, u)
      else (Inr (tc_remote_address c), (c, u))))"

section \<open>The client\<close>

text \<open>\<^verbatim>\<open>tcp_client_connection\<close> is a \<^verbatim>\<open>tcp_bio_client\<close> with the address of the other side; the options are the default ones.\<close>

definition new_tcp_client_connection ::
  "nat \<Rightarrow> ('a, 'u) bio_env \<Rightarrow> 32 word \<Rightarrow> 'a \<Rightarrow> mode_t \<Rightarrow> ('u, 'a tcp_bio_client \<times> 'a) bwact" where
  "new_tcp_client_connection fuel E default_ssl_options a mode =
     act_bind (new_tcp_bio_client fuel E a mode (new_tcp_bio_options default_ssl_options)) (\<lambda>s. on_os (\<lambda>u.
       case get_client_address E (s, u) of (Inr remote, (s', u')) \<Rightarrow> (Inr (s', remote), u') | (Inl e, (s', u')) \<Rightarrow> (Inl e, snd (bio_client_close E (s', u')))))"

definition client_connection_read :: "nat \<Rightarrow> ('a, 'u) bio_env \<Rightarrow> nat \<Rightarrow> ('a, 'u) bio_io" where
  "client_connection_read fuel E n =
     act_bind (bio_client_get_socket E) (\<lambda>fd. if \<not> fd \<ge> 0 then act_return (-1, [], Some EBADF) else bio_client_read fuel E n)"

definition client_connection_write :: "nat \<Rightarrow> ('a, 'u) bio_env \<Rightarrow> string \<Rightarrow> ('a, 'u) bio_io" where
  "client_connection_write fuel E buf =
     act_bind (bio_client_get_socket E) (\<lambda>fd. if \<not> fd \<ge> 0 then act_return (-1, [], Some EBADF) else bio_client_write fuel E buf)"

section \<open>Options of a socket\<close>

datatype non_blocking_state_t = NON_BLOCKING_STATE_UNKNOWN | NON_BLOCKING_STATE_BLOCKING | NON_BLOCKING_STATE_NON_BLOCKING

text \<open>The field \<^verbatim>\<open>f_non_blocking_state\<close>, given the socket of the connection.\<close>

definition non_blocking :: "('a, 'u) socket_system \<Rightarrow> int \<Rightarrow> non_blocking_state_t \<Rightarrow> 'u \<Rightarrow> non_blocking_state_t \<times> 'u" where
  "non_blocking S fd st u =
     (if st \<noteq> NON_BLOCKING_STATE_NON_BLOCKING \<and> fd \<ge> 0
      then case so_nonblock S fd u of (ok, u') \<Rightarrow>
             (if ok then NON_BLOCKING_STATE_NON_BLOCKING else NON_BLOCKING_STATE_UNKNOWN, u')
      else (st, u))"

definition is_non_blocking :: "('a, 'u) socket_system \<Rightarrow> int \<Rightarrow> 'u \<Rightarrow> non_blocking_state_t \<Rightarrow> bool \<times> non_blocking_state_t" where
  "is_non_blocking S fd u st =
     (let st' = (if st = NON_BLOCKING_STATE_UNKNOWN \<and> fd \<ge> 0
                 then if so_flags S fd u then NON_BLOCKING_STATE_NON_BLOCKING else NON_BLOCKING_STATE_BLOCKING
                 else st)
      in (st' = NON_BLOCKING_STATE_NON_BLOCKING, st'))"

definition keep_alive :: "('a, 'u) socket_system \<Rightarrow> int \<Rightarrow> 'u \<Rightarrow> 'u" where
  "keep_alive S fd u = (if fd \<ge> 0 then so_set_keepalive S fd u else u)"

definition is_keep_alive :: "('a, 'u) socket_system \<Rightarrow> int \<Rightarrow> 'u \<Rightarrow> bool" where
  "is_keep_alive S fd u = (fd \<ge> 0 \<and> (case so_get_keepalive S fd u of Some v \<Rightarrow> v \<noteq> 0 | None \<Rightarrow> False))"

section \<open>A closed connection\<close>

text \<open>
  A closed connection leaves the system alone. Once \<^verbatim>\<open>close()\<close> was called on any of the three connections, reading and
  writing fail with \<^verbatim>\<open>EBADF\<close>, closing again does nothing, and neither makes a call of the system or of OpenSSL with the descriptor
  or the object that is gone, which may by then belong to somebody else.\<close>

theorem closed_connection_inert:
  fixes S :: "('b, 'u) socket_system" and E :: "('a, 'u) bio_env"
  shows "(case fd_close S c u of (c', u') \<Rightarrow>
      fd_read S n c' v = (Inl EBADF, v) \<and> fd_write S buf c' v = (Inl EBADF, v) \<and> fd_close S c' v = (c', v)) \<and>
    (case ls_close S l u of (l', u') \<Rightarrow>
      ls_read S n l' v = (Inl EBADF, v) \<and> ls_write S buf l' v = (Inl EBADF, v) \<and> ls_close S l' v = (l', v)) \<and>
    (case tc_close E (t, u) of (t', u') \<Rightarrow>
      tc_read fuel E n (t', v) = (Inr (-1, [], Some EBADF), (t', v)) \<and>
      tc_write fuel E buf (t', v) = (Inr (-1, [], Some EBADF), (t', v)) \<and> tc_close E (t', v) = (t', v)) \<and>
    (case bio_client_close E (s, u) of (s', u') \<Rightarrow>
      client_connection_read fuel E n (s', v) = (Inr (-1, [], Some EBADF), (s', v)) \<and>
      client_connection_write fuel E buf (s', v) = (Inr (-1, [], Some EBADF), (s', v)) \<and> bio_client_close E (s', v) = (s', v))"
proof (intro conjI)
  show "case fd_close S c u of (c', u') \<Rightarrow>
      fd_read S n c' v = (Inl EBADF, v) \<and> fd_write S buf c' v = (Inl EBADF, v) \<and> fd_close S c' v = (c', v)"
    by (simp add: fd_close_def fd_read_def fd_write_def fd_is_reader_def fd_is_writer_def)
  show "case ls_close S l u of (l', u') \<Rightarrow>
      ls_read S n l' v = (Inl EBADF, v) \<and> ls_write S buf l' v = (Inl EBADF, v) \<and> ls_close S l' v = (l', v)"
    by (simp add: ls_close_def ls_read_def ls_write_def)
  show "case tc_close E (t, u) of (t', u') \<Rightarrow>
      tc_read fuel E n (t', v) = (Inr (-1, [], Some EBADF), (t', v)) \<and>
      tc_write fuel E buf (t', v) = (Inr (-1, [], Some EBADF), (t', v)) \<and> tc_close E (t', v) = (t', v)"
    by (simp add: tc_close_def tc_read_def tc_write_def tc_on_client_def)
  show "case bio_client_close E (s, u) of (s', u') \<Rightarrow>
      client_connection_read fuel E n (s', v) = (Inr (-1, [], Some EBADF), (s', v)) \<and>
      client_connection_write fuel E buf (s', v) = (Inr (-1, [], Some EBADF), (s', v)) \<and> bio_client_close E (s', v) = (s', v)"
    by (simp add: bio_client_close_def client_connection_read_def client_connection_write_def bio_client_get_socket_def act_bind_def
        act_return_def Let_def)
qed

text \<open>The pointers of the accepted client are freed with the connection.\<close>

lemma tc_close_frees:
  assumes "bio_laws owned E"
  shows "owned (snd (tc_close E (c, u))) = owned u - (case tc_client c of Some s \<Rightarrow> client_pointers s | None \<Rightarrow> {})"
  by (auto simp: tc_close_def bio_client_close_def client_pointers_def pointers_def Let_def bio_laws_takes [OF assms] split: option.split)

text \<open>A descriptor that is only for reading is never written to, and the other way round.\<close>

lemma fd_mode_respected:
  "f_mode c = FD_MODE_READ \<Longrightarrow> fd_write S buf c u = (Inl EBADF, u)" "f_mode c = FD_MODE_WRITE \<Longrightarrow> fd_read S n c u = (Inl EBADF, u)"
  by (simp_all add: fd_read_def fd_write_def fd_is_reader_def fd_is_writer_def)

text \<open>What the connection remembers is what the kernel has, as long as nobody else changes the flag.\<close>

lemma non_blocking_remembered:
  assumes kernel: "\<And>u. fst (so_nonblock S fd u) \<Longrightarrow> so_flags S fd (snd (so_nonblock S fd u))"
    and st: "st = NON_BLOCKING_STATE_NON_BLOCKING \<Longrightarrow> so_flags S fd u" and run: "non_blocking S fd st u = (st', u')"
  shows "st' = NON_BLOCKING_STATE_NON_BLOCKING \<Longrightarrow> so_flags S fd u'"
  using st run kernel [of u] by (auto simp: non_blocking_def split: if_splits prod.splits)

lemma is_non_blocking_exact:
  assumes "fd \<ge> 0" "st = NON_BLOCKING_STATE_NON_BLOCKING \<Longrightarrow> so_flags S fd u" "st = NON_BLOCKING_STATE_BLOCKING \<Longrightarrow> \<not> so_flags S fd u"
  shows "fst (is_non_blocking S fd u st) = so_flags S fd u"
  using assms by (cases st) (auto simp: is_non_blocking_def Let_def)

text \<open>The address is asked of the kernel once, and not of a closed socket.\<close>

lemma client_address_once:
  "ls_get_client_address S u c = (a, c') \<Longrightarrow> ls_client c \<noteq> -1 \<Longrightarrow> ls_get_client_address S v c' = (a, c')"
  by (auto simp: ls_get_client_address_def define_address_def Let_def split: if_splits)

end
